(* ===== verification/Prelude.thy ===== *)
theory Prelude
  imports Main "HOL-Library.Word" "HOL-Library.Monad_Syntax"
begin

text \<open>
  Shared types, automation and lemmas of the development.

  Go values are modelled as follows.  A \<open>[]byte\<close> is a list of \<open>8 word\<close>; \<open>uint16\<close>,
  \<open>uint32\<close>, \<open>uint64\<close> are words of that width, so \<open>+\<close> wraps as in Go; a Go \<open>int\<close> that the
  code keeps non-negative is a \<open>nat\<close>.  An operation that can panic at run time (an index or a
  slice out of range) returns an \<open>option\<close>, with \<open>None\<close> for the panic, and the operations are
  sequenced in the option monad, so every theorem that a routine returns \<open>Some\<close> is a theorem
  that it does not panic.

  \<open>rd8\<close>, \<open>rd16\<close>, \<open>rd32\<close> are \<open>b[i]\<close>, \<open>binary.BigEndian.Uint16(b[i:i+2])\<close> and
  \<open>binary.BigEndian.Uint32(b[i:i+4])\<close>; \<open>wr8\<close>, \<open>wr16\<close>, \<open>wr32\<close> are the matching stores and
  \<open>copy_at\<close> is \<open>copy(b[i:i+len(xs)], xs)\<close>.  Their range check is against the length of the
  slice; Go checks the upper bound of a slice expression against the capacity, which the code
  never relies on.
\<close>

unbundle bit_operations_syntax

type_synonym byte = "8 word"
type_synonym u8 = "8 word"
type_synonym u16 = "16 word"
type_synonym u32 = "32 word"
type_synonym u64 = "64 word"
type_synonym bytes = "8 word list"

named_theorems overwrite_simps \<open>reading back what a store wrote\<close>
named_theorems panic_free \<open>conditions under which a checked access returns\<close>

section \<open>Big-endian encodings\<close>

definition be16 :: "byte \<Rightarrow> byte \<Rightarrow> u16" where
  "be16 a b = push_bit 8 (ucast a) OR ucast b"

definition be32 :: "byte \<Rightarrow> byte \<Rightarrow> byte \<Rightarrow> byte \<Rightarrow> u32" where
  "be32 a b c d = push_bit 24 (ucast a) OR push_bit 16 (ucast b) OR push_bit 8 (ucast c) OR ucast d"

definition enc16 :: "u16 \<Rightarrow> bytes" where
  "enc16 v = [ucast (drop_bit 8 v), ucast v]"

definition enc32 :: "u32 \<Rightarrow> bytes" where
  "enc32 v = [ucast (drop_bit 24 v), ucast (drop_bit 16 v), ucast (drop_bit 8 v), ucast v]"

lemma length_enc [simp]: "length (enc16 v) = 2" "length (enc32 w) = 4"
  by (simp_all add: enc16_def enc32_def)

lemma be16_enc16 [simp]: "be16 (ucast (drop_bit 8 v)) (ucast v) = v"
  unfolding be16_def
  by (rule bit_word_eqI) (auto simp: bit_simps)

lemma be32_enc32 [simp]:
  "be32 (ucast (drop_bit 24 v)) (ucast (drop_bit 16 v)) (ucast (drop_bit 8 v)) (ucast v) = v"
  unfolding be32_def
  apply (rule bit_word_eqI)
  subgoal for n
    by (cases "16 \<le> n"; cases "24 \<le> n") (auto simp: bit_simps dest: bit_imp_le_length)
  done

lemma enc16_be16: "enc16 (be16 a b) = [a, b]"
proof -
  have "(ucast (drop_bit 8 (be16 a b)) :: byte) = a"
    unfolding be16_def
    by (rule bit_word_eqI) (auto simp: bit_simps dest: bit_imp_le_length)
  moreover have "(ucast (be16 a b) :: byte) = b"
    unfolding be16_def by (rule bit_word_eqI) (auto simp: bit_simps)
  ultimately show ?thesis
    by (simp add: enc16_def)
qed

section \<open>Overwriting part of a buffer\<close>

definition overwrite :: "'a list \<Rightarrow> nat \<Rightarrow> 'a list \<Rightarrow> 'a list" where
  "overwrite b i xs = take i b @ xs @ drop (i + length xs) b"

lemma length_overwrite [simp]: "i + length xs \<le> length b \<Longrightarrow> length (overwrite b i xs) = length b"
  by (simp add: overwrite_def)

lemma nth_overwrite_out [overwrite_simps]:
  "j < i \<or> i + length xs \<le> j \<Longrightarrow> i + length xs \<le> length b \<Longrightarrow> j < length b \<Longrightarrow>
    overwrite b i xs ! j = b ! j"
  by (auto simp: overwrite_def nth_append min_def)

lemma nth_overwrite_in [overwrite_simps]:
  "i \<le> j \<Longrightarrow> j < i + length xs \<Longrightarrow> i + length xs \<le> length b \<Longrightarrow> overwrite b i xs ! j = xs ! (j - i)"
  by (auto simp: overwrite_def nth_append min_def)

lemma drop_overwrite [overwrite_simps]:
  "i + length xs \<le> n \<Longrightarrow> i + length xs \<le> length b \<Longrightarrow> drop n (overwrite b i xs) = drop n b"
  by (simp add: overwrite_def)

lemma take_overwrite [overwrite_simps]:
  "n \<le> i \<Longrightarrow> i + length xs \<le> length b \<Longrightarrow> take n (overwrite b i xs) = take n b"
  by (simp add: overwrite_def min_def)

lemma take_drop_overwrite_out [overwrite_simps]:
  assumes "i + length xs \<le> length b" and "n + k \<le> i \<or> i + length xs \<le> n"
  shows "take k (drop n (overwrite b i xs)) = take k (drop n b)"
  using assms
proof (elim disjE)
  assume le: "n + k \<le> i"
  have "take k (drop n (overwrite b i xs)) = drop n (take (k + n) (overwrite b i xs))"
    by (simp add: take_drop)
  also have "take (k + n) (overwrite b i xs) = take (k + n) b"
    using le assms(1) by (intro take_overwrite) auto
  finally show ?thesis
    by (simp add: take_drop)
next
  assume "i + length xs \<le> n"
  then show ?thesis
    using assms(1) by (simp add: drop_overwrite)
qed

lemma take_drop_overwrite_in [overwrite_simps]:
  "i + length xs \<le> length b \<Longrightarrow> k = length xs \<Longrightarrow> take k (drop i (overwrite b i xs)) = xs"
  by (simp add: overwrite_def)

section \<open>Checked reads and stores\<close>

definition rd8 :: "bytes \<Rightarrow> nat \<Rightarrow> byte option" where
  "rd8 b i = (if i < length b then Some (b ! i) else None)"

definition rd16 :: "bytes \<Rightarrow> nat \<Rightarrow> u16 option" where
  "rd16 b i = (if i + 2 \<le> length b then Some (be16 (b ! i) (b ! (i + 1))) else None)"

definition rd32 :: "bytes \<Rightarrow> nat \<Rightarrow> u32 option" where
  "rd32 b i = (if i + 4 \<le> length b
     then Some (be32 (b ! i) (b ! (i + 1)) (b ! (i + 2)) (b ! (i + 3))) else None)"

definition copy_at :: "bytes \<Rightarrow> nat \<Rightarrow> bytes \<Rightarrow> bytes option" where
  "copy_at b i xs = (if i + length xs \<le> length b then Some (overwrite b i xs) else None)"

abbreviation wr8 :: "bytes \<Rightarrow> nat \<Rightarrow> byte \<Rightarrow> bytes option" where
  "wr8 b i v \<equiv> copy_at b i [v]"

abbreviation wr16 :: "bytes \<Rightarrow> nat \<Rightarrow> u16 \<Rightarrow> bytes option" where
  "wr16 b i v \<equiv> copy_at b i (enc16 v)"

abbreviation wr32 :: "bytes \<Rightarrow> nat \<Rightarrow> u32 \<Rightarrow> bytes option" where
  "wr32 b i v \<equiv> copy_at b i (enc32 v)"

lemma rd8_Some [panic_free]: "Suc i \<le> length b \<Longrightarrow> rd8 b i = Some (b ! i)"
  by (simp add: rd8_def)

lemma rd16_Some [panic_free]:
  "i + 2 \<le> length b \<Longrightarrow> rd16 b i = Some (be16 (b ! i) (b ! (i + 1)))"
  by (simp add: rd16_def)

lemma rd32_Some [panic_free]:
  "i + 4 \<le> length b \<Longrightarrow> rd32 b i = Some (be32 (b ! i) (b ! (i + 1)) (b ! (i + 2)) (b ! (i + 3)))"
  by (simp add: rd32_def)

lemma copy_at_Some [panic_free]:
  "i + length xs \<le> length b \<Longrightarrow> copy_at b i xs = Some (overwrite b i xs)"
  by (simp add: copy_at_def)

lemma copy_at_SomeD:
  "copy_at b i xs = Some b' \<Longrightarrow> i + length xs \<le> length b \<and> b' = overwrite b i xs"
  by (auto simp: copy_at_def split: if_splits)

lemma rd16_overwrite_same [overwrite_simps]:
  "i + 2 \<le> length b \<Longrightarrow> rd16 (overwrite b i (enc16 v)) i = Some v"
  by (simp add: rd16_def nth_overwrite_in) (simp add: enc16_def)

lemma rd32_overwrite_same [overwrite_simps]:
  "i + 4 \<le> length b \<Longrightarrow> rd32 (overwrite b i (enc32 v)) i = Some v"
  by (simp add: rd32_def nth_overwrite_in)
    (simp add: enc32_def numeral_2_eq_2 numeral_3_eq_3)

lemma rd16_overwrite_out [overwrite_simps]:
  "i + length xs \<le> length b \<Longrightarrow> j + 2 \<le> i \<or> i + length xs \<le> j \<Longrightarrow>
    rd16 (overwrite b i xs) j = rd16 b j"
  by (auto simp: rd16_def nth_overwrite_out)

lemma rd8_overwrite_out [overwrite_simps]:
  "i + length xs \<le> length b \<Longrightarrow> j < i \<or> i + length xs \<le> j \<Longrightarrow>
    rd8 (overwrite b i xs) j = rd8 b j"
  by (auto simp: rd8_def nth_overwrite_out)

lemma rd32_overwrite_out [overwrite_simps]:
  "i + length xs \<le> length b \<Longrightarrow> j + 4 \<le> i \<or> i + length xs \<le> j \<Longrightarrow>
    rd32 (overwrite b i xs) j = rd32 b j"
  by (auto simp: rd32_def nth_overwrite_out)

section \<open>The option monad\<close>

lemma bind_SomeE:
  assumes "m \<bind> f = Some y"
  obtains x where "m = Some x" and "f x = Some y"
  using assms by (cases m) auto

lemma bind_not_None_iff: "m \<bind> f \<noteq> None \<longleftrightarrow> (\<exists>x. m = Some x \<and> f x \<noteq> None)"
  by (cases m) auto

section \<open>Collecting without duplicates\<close>

text \<open>
  Several routines build a slice through a closure \<open>add\<close> that ignores the zero value and what
  is already there.  The locale states that contract once; the closures of the code are its
  interpretations.
\<close>

locale dedup_collector =
  fixes zero :: 'a
    and add :: "'a \<Rightarrow> 'a list \<Rightarrow> 'a list"
  assumes add_eq: "add x out = (if x = zero \<or> x \<in> set out then out else out @ [x])"
begin

lemma distinct_add: "distinct out \<Longrightarrow> distinct (add x out)"
  by (auto simp: add_eq)

lemma set_add: "set (add x out) = set out \<union> ({x} - {zero})"
  by (auto simp: add_eq)

lemma zero_add: "zero \<notin> set out \<Longrightarrow> zero \<notin> set (add x out)"
  by (auto simp: add_eq)

lemma fold_add_distinct: "distinct out \<Longrightarrow> distinct (fold add xs out)"
  by (induction xs arbitrary: out) (auto intro: distinct_add)

lemma set_fold_add: "set (fold add xs out) = set out \<union> (set xs - {zero})"
  by (induction xs arbitrary: out) (auto simp: set_add)

text \<open>The same with a guard that may skip an element depending on what is there.\<close>

lemma fold_guard_distinct:
  "distinct out \<Longrightarrow> distinct (fold (\<lambda>x out. if skip x out then out else add x out) xs out)"
  by (induction xs arbitrary: out) (auto intro: distinct_add)

lemma set_fold_guard_subset:
  "set (fold (\<lambda>x out. if skip x out then out else add x out) xs out) \<subseteq> set out \<union> (set xs - {zero})"
proof (induction xs arbitrary: out)
  case (Cons x xs)
  show ?case
    using Cons.IH [of "if skip x out then out else add x out"]
    by (auto simp: set_add split: if_splits)
qed simp

lemma set_fold_guard_const:
  "set (fold (\<lambda>x out. if skip x then out else add x out) xs out) =
     set out \<union> ({x \<in> set xs. \<not> skip x} - {zero})"
  by (induction xs arbitrary: out) (auto simp: set_add)

lemma zero_fold_guard:
  "zero \<notin> set out \<Longrightarrow> zero \<notin> set (fold (\<lambda>x out. if skip x out then out else add x out) xs out)"
  by (induction xs arbitrary: out) (auto simp: zero_add)

end

end
