(* ===== verification/Go_Strings.thy ===== *)
theory Go_Strings
  imports Prelude "HOL-Library.Char_ord" "HOL-Library.List_Lexorder"
begin

text \<open>
  The parts of Go's \<open>strings\<close>, \<open>strconv\<close> and \<open>sort\<close> packages that the modelled code calls.
  A Go string is a sequence of bytes, here a \<open>string\<close> (a list of 8-bit characters).  The case
  mappings are those of Go on ASCII; bytes from 128 up are left alone, so a statement about
  folding speaks of ASCII text, which is all the repository's names, keys and options contain.
\<close>

section \<open>Case folding\<close>

definition lower_char :: "char \<Rightarrow> char" where
  "lower_char c = (let n = (of_char c :: nat) in if 65 \<le> n \<and> n \<le> 90 then char_of (n + 32) else c)"

definition upper_char :: "char \<Rightarrow> char" where
  "upper_char c = (let n = (of_char c :: nat) in if 97 \<le> n \<and> n \<le> 122 then char_of (n - 32) else c)"

definition to_lower :: "string \<Rightarrow> string" where
  "to_lower s = map lower_char s"

definition to_upper :: "string \<Rightarrow> string" where
  "to_upper s = map upper_char s"

definition equal_fold :: "string \<Rightarrow> string \<Rightarrow> bool" where
  "equal_fold a b \<longleftrightarrow> to_lower a = to_lower b"

lemma lower_char_idem [simp]: "lower_char (lower_char c) = lower_char c"
  by (auto simp: lower_char_def Let_def)

lemma lower_upper_char [simp]: "lower_char (upper_char c) = lower_char c"
proof (cases "97 \<le> (of_char c :: nat) \<and> (of_char c :: nat) \<le> 122")
  case True
  then have m: "((of_char c :: nat) - 32) mod 256 = of_char c - 32" by auto
  have a: "(of_char c :: nat) - 32 + 32 = of_char c"
    and b: "65 \<le> (of_char c :: nat) - 32" and d: "(of_char c :: nat) - 32 \<le> 90"
    using True by arith+
  have e: "upper_char c = char_of ((of_char c :: nat) - 32)"
    using True by (simp add: upper_char_def)
  have "(of_char (upper_char c) :: nat) = of_char c - 32"
    using m by (simp add: e)
  then have "lower_char (upper_char c) = c"
    using a b d by (simp add: lower_char_def Let_def)
  moreover have "lower_char c = c"
    using True by (simp add: lower_char_def Let_def)
  ultimately show ?thesis by simp
next
  case False
  then have "upper_char c = c"
    by (auto simp: upper_char_def Let_def)
  then show ?thesis by simp
qed

lemma upper_lower_char [simp]: "upper_char (lower_char c) = upper_char c"
  by (auto simp: lower_char_def upper_char_def Let_def)

lemma upper_eq_iff_lower_eq: "upper_char a = upper_char b \<longleftrightarrow> lower_char a = lower_char b"
  by (metis lower_upper_char upper_lower_char)

lemma to_lower_idem [simp]: "to_lower (to_lower s) = to_lower s"
  by (simp add: to_lower_def)

lemma to_lower_append [simp]: "to_lower (a @ b) = to_lower a @ to_lower b"
  by (simp add: to_lower_def)

lemma length_to_lower [simp]: "length (to_lower s) = length s" "length (to_upper s) = length s"
  by (simp_all add: to_lower_def to_upper_def)

lemma to_lower_upper [simp]: "to_lower (to_upper s) = to_lower s"
  by (simp add: to_lower_def to_upper_def)

lemma to_upper_eq_iff: "to_upper a = to_upper b \<longleftrightarrow> equal_fold a b"
proof
  assume "to_upper a = to_upper b"
  then have "to_lower (to_upper a) = to_lower (to_upper b)" by simp
  then show "equal_fold a b" by (simp add: equal_fold_def)
next
  assume "equal_fold a b"
  then have "map lower_char a = map lower_char b" by (simp add: equal_fold_def to_lower_def)
  then have "map upper_char (map lower_char a) = map upper_char (map lower_char b)" by simp
  then show "to_upper a = to_upper b" by (simp add: to_upper_def o_def)
qed

lemma equal_fold_refl [simp]: "equal_fold a a"
  by (simp add: equal_fold_def)

lemma equal_fold_sym: "equal_fold a b \<Longrightarrow> equal_fold b a"
  by (simp add: equal_fold_def)

lemma equal_fold_trans: "equal_fold a b \<Longrightarrow> equal_fold b c \<Longrightarrow> equal_fold a c"
  by (simp add: equal_fold_def)

lemma equal_fold_lower [simp]: "equal_fold (to_lower a) b = equal_fold a b"
  by (simp add: equal_fold_def)

section \<open>Prefixes, suffixes, substrings\<close>

definition has_prefix :: "string \<Rightarrow> string \<Rightarrow> bool" where
  "has_prefix s p \<longleftrightarrow> length p \<le> length s \<and> take (length p) s = p"

definition has_suffix :: "string \<Rightarrow> string \<Rightarrow> bool" where
  "has_suffix s p \<longleftrightarrow> length p \<le> length s \<and> drop (length s - length p) s = p"

fun str_contains :: "string \<Rightarrow> string \<Rightarrow> bool" where
  "str_contains s sub =
     (has_prefix s sub \<or> (case s of [] \<Rightarrow> False | _ # t \<Rightarrow> str_contains t sub))"

declare str_contains.simps [simp del]

lemma has_prefix_append [simp]: "has_prefix (p @ s) p"
  by (simp add: has_prefix_def)

lemma has_prefixE: "has_prefix s p \<Longrightarrow> \<exists>t. s = p @ t"
  unfolding has_prefix_def by (metis append_take_drop_id)

lemma has_prefix_iff: "has_prefix s p \<longleftrightarrow> (\<exists>t. s = p @ t)"
  using has_prefixE by auto

lemma has_suffix_append [simp]: "has_suffix (s @ p) p"
  by (simp add: has_suffix_def)

lemma has_suffix_iff: "has_suffix s p \<longleftrightarrow> (\<exists>t. s = t @ p)"
proof
  assume "has_suffix s p"
  then show "\<exists>t. s = t @ p"
    unfolding has_suffix_def by (metis append_take_drop_id)
qed auto

section \<open>Trimming and splitting\<close>

definition is_space :: "char \<Rightarrow> bool" where
  "is_space c \<longleftrightarrow> (let n = (of_char c :: nat) in n = 32 \<or> (9 \<le> n \<and> n \<le> 13))"

definition trim_space :: "string \<Rightarrow> string" where
  "trim_space s = rev (dropWhile is_space (rev (dropWhile is_space s)))"

definition trim_left_set :: "string \<Rightarrow> string \<Rightarrow> string" where
  "trim_left_set s cutset = dropWhile (\<lambda>c. c \<in> set cutset) s"

text \<open>\<open>fields_func s p\<close> is \<open>strings.FieldsFunc\<close>: the maximal runs of characters that do not
  satisfy \<open>p\<close>.\<close>

function fields_func :: "(char \<Rightarrow> bool) \<Rightarrow> string \<Rightarrow> string list" where
  "fields_func p [] = []"
| "fields_func p (c # s) =
     (if p c then fields_func p s
      else (c # takeWhile (\<lambda>x. \<not> p x) s) # fields_func p (dropWhile (\<lambda>x. \<not> p x) s))"
  by pat_completeness auto
termination
  by (relation "measure (length \<circ> snd)") (auto simp: le_imp_less_Suc length_dropWhile_le)

lemma fields_func_nonempty: "f \<in> set (fields_func p s) \<Longrightarrow> f \<noteq> [] \<and> (\<forall>c \<in> set f. \<not> p c)"
proof (induction p s rule: fields_func.induct)
  case (2 p c s)
  show ?case
  proof (cases "p c")
    case True
    with "2.prems" have "f \<in> set (fields_func p s)" by simp
    with "2.IH"(1) True show ?thesis by blast
  next
    case False
    with "2.prems" consider "f = c # takeWhile (\<lambda>x. \<not> p x) s"
      | "f \<in> set (fields_func p (dropWhile (\<lambda>x. \<not> p x) s))"
      by auto
    then show ?thesis
    proof cases
      case 1
      with False show ?thesis by (auto dest: set_takeWhileD)
    next
      case 2
      with "2.IH"(2) False show ?thesis by blast
    qed
  qed
qed simp

text \<open>The first component of \<open>strings.SplitN(s, sep, 2)\<close> for a one-byte separator.\<close>

definition split_head :: "string \<Rightarrow> char \<Rightarrow> string" where
  "split_head s sep = takeWhile (\<lambda>c. c \<noteq> sep) s"

definition replace_char :: "string \<Rightarrow> char \<Rightarrow> char \<Rightarrow> string" where
  "replace_char s a b = map (\<lambda>c. if c = a then b else c) s"

section \<open>Decimal rendering and sorting\<close>

fun itoa :: "nat \<Rightarrow> string" where
  "itoa n = (if n < 10 then [char_of (48 + n)] else itoa (n div 10) @ [char_of (48 + n mod 10)])"

declare itoa.simps [simp del]

definition sort_strings :: "string list \<Rightarrow> string list" where
  "sort_strings xs = sort xs"

lemma itoa_inj: "itoa m = itoa n \<Longrightarrow> m = n"
proof (induction m arbitrary: n rule: itoa.induct)
  case (1 m)
  have digit: "char_of (48 + a) = (char_of (48 + b) :: char) \<longleftrightarrow> a = b"
    if "a < 10" "b < 10" for a b :: nat
  proof -
    have "(of_char (char_of (48 + a) :: char) :: nat) = 48 + a"
      "(of_char (char_of (48 + b) :: char) :: nat) = 48 + b"
      using that by simp_all
    then show ?thesis by auto
  qed
  have ne: "itoa k \<noteq> []" for k
    by (subst itoa.simps) simp
  have last: "last (itoa k) = char_of (48 + k mod 10)" for k
    by (subst itoa.simps) simp
  have "m mod 10 = n mod 10"
    using "1.prems" last [of m] last [of n] digit [of "m mod 10" "n mod 10"] by simp
  moreover have "m div 10 = n div 10"
  proof (cases "m < 10"; cases "n < 10")
    assume "\<not> m < 10" "\<not> n < 10"
    with "1.prems" have "itoa (m div 10) = itoa (n div 10)"
      by (simp add: itoa.simps [of m] itoa.simps [of n])
    with "1.IH" \<open>\<not> m < 10\<close> show ?thesis by simp
  qed (use "1.prems" ne [symmetric] ne in \<open>auto simp: itoa.simps [of m] itoa.simps [of n]\<close>)
  ultimately show ?case
    by (metis div_mult_mod_eq)
qed

lemma sorted_sort_strings: "sorted (sort_strings xs)" "set (sort_strings xs) = set xs"
  by (simp_all add: sort_strings_def)

section \<open>Quoting\<close>

text \<open>\<open>%q\<close> for a text of one-byte characters.\<close>

definition hex_low :: "nat \<Rightarrow> char" where
  "hex_low n = char_of (if n < 10 then 48 + n else 87 + n)"

definition quote_char :: "char \<Rightarrow> string" where
  "quote_char c =
     (let n = (of_char c :: nat); bs = CHR 0x5C in
      if c = CHR 0x22 \<or> c = bs then [bs, c]
      else if n = 7 then [bs, CHR ''a''] else if n = 8 then [bs, CHR ''b'']
      else if n = 9 then [bs, CHR ''t''] else if n = 10 then [bs, CHR ''n'']
      else if n = 11 then [bs, CHR ''v''] else if n = 12 then [bs, CHR ''f'']
      else if n = 13 then [bs, CHR ''r'']
      else if n < 32 \<or> 127 \<le> n then [bs, CHR ''x'', hex_low (n div 16), hex_low (n mod 16)]
      else [c])"

definition go_quote :: "string \<Rightarrow> string" where
  "go_quote s = [CHR 0x22] @ concat (map quote_char s) @ [CHR 0x22]"

end
