(* ===== verification/Os_Profile.thy ===== *)
theory Os_Profile
  imports Go_Strings
begin

text \<open>
  The operating-system profile of \<open>internal/config/types.go\<close>: the stack parameters
  (\<open>StackConfig\<close>), the SMB behaviour (\<open>SMBConfig\<close>), the profile itself (\<open>OSProfile\<close>) and the
  edition class derived from it (\<open>ResolvedEdition\<close>), which gates ports and services elsewhere.
  A YAML pointer field (\<open>*bool\<close>) is an \<open>option\<close>.
\<close>

record stack_config =
  st_ttl :: u8
  st_dfBit :: bool
  st_ipIDBehavior :: string
  st_windowSize :: u16
  st_windowScale :: u8
  st_mss :: u16
  st_tcpTimestamps :: bool
  st_sackPermitted :: bool
  st_tcpOptionsOrder :: "string list"
  st_ecnSupport :: bool
  st_urgPointer :: u16
  st_ackInRST :: string
  st_windowInRST :: u16
  st_finAckBehavior :: string
  st_bogusFlags :: string
  st_explicitCongestion :: string
  st_icmpQuoteSize :: u8
  st_icmpDFInQuote :: bool
  st_icmpTTLInQuote :: u8
  st_icmpRateLimit :: bool
  st_icmpChecksumBad :: bool
  st_udpClosedPortResponse :: bool
  st_highFidelity :: bool
  st_highFidelityWatchdog :: "bool option"
  st_highFidelityCanary :: string

record smb_config =
  smbc_dialect :: string
  smbc_smb1Enabled :: bool
  smbc_signingRequired :: bool

record os_profile =
  prof_name :: string
  prof_description :: string
  prof_family :: string
  prof_version :: string
  prof_edition :: string
  prof_stack :: stack_config
  prof_smb :: smb_config

definition resolvedEdition :: "os_profile \<Rightarrow> string" where
  "resolvedEdition p =
     (if prof_edition p \<noteq> '''' then to_lower (prof_edition p)
      else if equal_fold (prof_family p) ''windows'' then
        (if str_contains (to_lower (prof_name p)) ''server'' then ''server'' else ''workstation'')
      else '''')"

lemma resolvedEdition_inferred:
  "prof_edition p = '''' \<Longrightarrow> resolvedEdition p \<in> {''server'', ''workstation'', ''''}"
  by (simp add: resolvedEdition_def)

lemma resolvedEdition_lower: "to_lower (resolvedEdition p) = resolvedEdition p"
proof -
  have "to_lower ''server'' = ''server''" "to_lower ''workstation'' = ''workstation''"
    by code_simp+
  then show ?thesis
    by (simp add: resolvedEdition_def) (simp add: to_lower_def)
qed

section \<open>Profiles of the repository\<close>

text \<open>
  Five of the profiles under \<open>profiles/\<close>, field by field as their YAML says (a field that the
  file leaves out has Go's zero value).  The witnesses apply the theorems to them.
\<close>

definition windows_11 :: os_profile where
  "windows_11 = \<lparr>
     prof_name = ''Windows 11'',
     prof_description = ''Windows 11 25H2 TCP/IP stack fingerprint'',
     prof_family = ''windows'', prof_version = ''10.0.26200'', prof_edition = ''workstation'',
     prof_stack = \<lparr>
       st_ttl = 128, st_dfBit = True, st_ipIDBehavior = ''incremental'',
       st_windowSize = 65535, st_windowScale = 8, st_mss = 1460,
       st_tcpTimestamps = True, st_sackPermitted = True,
       st_tcpOptionsOrder = [''mss'', ''nop'', ''window_scale'', ''sack_permitted'', ''timestamp''],
       st_ecnSupport = True, st_urgPointer = 0, st_ackInRST = ''zero'',
       st_windowInRST = 0, st_finAckBehavior = ''rst'',
       st_bogusFlags = ''rst'', st_explicitCongestion = ''respond'',
       st_icmpQuoteSize = 8, st_icmpDFInQuote = True, st_icmpTTLInQuote = 128,
       st_icmpRateLimit = False, st_icmpChecksumBad = False,
       st_udpClosedPortResponse = True,
       st_highFidelity = False, st_highFidelityWatchdog = None,
       st_highFidelityCanary = ''''\<rparr>,
     prof_smb = \<lparr>smbc_dialect = ''3.1.1'', smbc_smb1Enabled = False, smbc_signingRequired = False\<rparr>\<rparr>"

definition server_2022 :: os_profile where
  "server_2022 = \<lparr>
     prof_name = ''Windows Server 2022'',
     prof_description = ''Windows Server 2022 TCP/IP stack fingerprint'',
     prof_family = ''windows'', prof_version = ''10.0.20348'', prof_edition = '''',
     prof_stack = \<lparr>
       st_ttl = 128, st_dfBit = True, st_ipIDBehavior = ''incremental'',
       st_windowSize = 65535, st_windowScale = 8, st_mss = 1460,
       st_tcpTimestamps = True, st_sackPermitted = True,
       st_tcpOptionsOrder = [''mss'', ''nop'', ''window_scale'', ''sack_permitted'', ''timestamp''],
       st_ecnSupport = True, st_urgPointer = 0, st_ackInRST = ''zero'',
       st_windowInRST = 0, st_finAckBehavior = ''rst'',
       st_bogusFlags = ''rst'', st_explicitCongestion = ''respond'',
       st_icmpQuoteSize = 8, st_icmpDFInQuote = True, st_icmpTTLInQuote = 128,
       st_icmpRateLimit = False, st_icmpChecksumBad = False,
       st_udpClosedPortResponse = True,
       st_highFidelity = False, st_highFidelityWatchdog = None,
       st_highFidelityCanary = ''''\<rparr>,
     prof_smb = \<lparr>smbc_dialect = ''3.1.1'', smbc_smb1Enabled = False, smbc_signingRequired = False\<rparr>\<rparr>"

definition server_2019 :: os_profile where
  "server_2019 = \<lparr>
     prof_name = ''Windows Server 2019'',
     prof_description = ''Windows Server 2019 TCP/IP stack fingerprint'',
     prof_family = ''windows'', prof_version = ''10.0.17763'', prof_edition = '''',
     prof_stack = \<lparr>
       st_ttl = 128, st_dfBit = True, st_ipIDBehavior = ''incremental'',
       st_windowSize = 65535, st_windowScale = 8, st_mss = 1460,
       st_tcpTimestamps = False, st_sackPermitted = True,
       st_tcpOptionsOrder = [''mss'', ''nop'', ''window_scale'', ''nop'', ''nop'', ''sack_permitted''],
       st_ecnSupport = True, st_urgPointer = 0, st_ackInRST = ''zero'',
       st_windowInRST = 0, st_finAckBehavior = ''rst'',
       st_bogusFlags = ''rst'', st_explicitCongestion = ''echo'',
       st_icmpQuoteSize = 8, st_icmpDFInQuote = True, st_icmpTTLInQuote = 128,
       st_icmpRateLimit = False, st_icmpChecksumBad = False,
       st_udpClosedPortResponse = True,
       st_highFidelity = False, st_highFidelityWatchdog = None,
       st_highFidelityCanary = ''''\<rparr>,
     prof_smb = \<lparr>smbc_dialect = ''3.1.1'', smbc_smb1Enabled = False, smbc_signingRequired = False\<rparr>\<rparr>"

definition ubuntu :: os_profile where
  "ubuntu = \<lparr>
     prof_name = ''Ubuntu'',
     prof_description = ''Ubuntu Linux (20.04+) TCP/IP stack fingerprint'',
     prof_family = ''linux'', prof_version = ''5.15'', prof_edition = '''',
     prof_stack = \<lparr>
       st_ttl = 64, st_dfBit = True, st_ipIDBehavior = ''random'',
       st_windowSize = 65160, st_windowScale = 8, st_mss = 1460,
       st_tcpTimestamps = True, st_sackPermitted = True,
       st_tcpOptionsOrder = [''mss'', ''sack_permitted'', ''timestamp'', ''nop'', ''window_scale''],
       st_ecnSupport = True, st_urgPointer = 0, st_ackInRST = ''zero'',
       st_windowInRST = 0, st_finAckBehavior = ''finack'',
       st_bogusFlags = ''rst'', st_explicitCongestion = ''respond'',
       st_icmpQuoteSize = 64, st_icmpDFInQuote = True, st_icmpTTLInQuote = 64,
       st_icmpRateLimit = True, st_icmpChecksumBad = False,
       st_udpClosedPortResponse = True,
       st_highFidelity = False, st_highFidelityWatchdog = None,
       st_highFidelityCanary = ''''\<rparr>,
     prof_smb = \<lparr>smbc_dialect = '''', smbc_smb1Enabled = False, smbc_signingRequired = False\<rparr>\<rparr>"

definition sequoia :: os_profile where
  "sequoia = \<lparr>
     prof_name = ''macOS Sequoia'',
     prof_description = ''macOS 15 Sequoia TCP/IP stack fingerprint (Darwin 24.x)'',
     prof_family = ''macos'', prof_version = ''15.7.7'', prof_edition = '''',
     prof_stack = \<lparr>
       st_ttl = 64, st_dfBit = True, st_ipIDBehavior = ''zero'',
       st_windowSize = 65535, st_windowScale = 6, st_mss = 1460,
       st_tcpTimestamps = True, st_sackPermitted = True,
       st_tcpOptionsOrder = [''mss'', ''nop'', ''window_scale'', ''nop'', ''nop'', ''timestamp'', ''sack_permitted'', ''eol''],
       st_ecnSupport = True, st_urgPointer = 0, st_ackInRST = ''zero'',
       st_windowInRST = 0, st_finAckBehavior = '''',
       st_bogusFlags = '''', st_explicitCongestion = '''',
       st_icmpQuoteSize = 8, st_icmpDFInQuote = False, st_icmpTTLInQuote = 64,
       st_icmpRateLimit = False, st_icmpChecksumBad = False,
       st_udpClosedPortResponse = True,
       st_highFidelity = False, st_highFidelityWatchdog = None,
       st_highFidelityCanary = ''''\<rparr>,
     prof_smb = \<lparr>smbc_dialect = '''', smbc_smb1Enabled = False, smbc_signingRequired = False\<rparr>\<rparr>"

end
