(* ===== verification/Service_Gating.thy ===== *)
theory Service_Gating
  imports Os_Profile
begin

text \<open>
  Which services a run starts: \<open>internal/config/services.go\<close> (expanding \<open>all\<close>, promoting
  \<open>ssh\<close>, dropping superseded replay templates, gating by edition) and
  \<open>internal/config/edition_ports.go\<close> (which ports an edition exposes, which ports the resolved
  services bind).

  The file system is an argument: \<open>services_dir\<close> is what \<open>os.ReadDir\<close> returned for the services
  directory (\<open>None\<close> for its error), each entry with its name, whether it is a directory, whether
  \<open>os.Stat\<close> finds its \<open>manifest.yaml\<close>, and the \<open>port:\<close> field that the manifest parses to
  (\<open>None\<close> when it is missing or does not parse).
\<close>

record dir_entry =
  de_name :: string
  de_isDir :: bool
  de_hasManifest :: bool
  de_port :: "u16 option"

type_synonym services_dir = "dir_entry list option"

datatype config_error = ReadingServicesDir

definition listTemplateServices :: "services_dir \<Rightarrow> config_error + string list" where
  "listTemplateServices dir =
     (case dir of
        None \<Rightarrow> Inl ReadingServicesDir
      | Some entries \<Rightarrow>
          Inr (sort_strings (map de_name (filter (\<lambda>e. de_isDir e \<and> de_hasManifest e) entries))))"

definition statefulServiceNames :: "string list" where
  "statefulServiceNames = [''smb_honeypot'', ''ftp_honeypot'', ''rdp'', ''ssh_honeypot'']"

definition templateSupersededBy :: "string \<rightharpoonup> string" where
  "templateSupersededBy = [''smb'' \<mapsto> ''smb_honeypot'', ''rdp'' \<mapsto> ''rdp'', ''ssh'' \<mapsto> ''ssh_honeypot'']"

definition isStatefulHoneypot :: "string \<Rightarrow> bool" where
  "isStatefulHoneypot name \<longleftrightarrow> name \<in> set statefulServiceNames"

definition templateSuperseded :: "string \<Rightarrow> string set \<Rightarrow> bool" where
  "templateSuperseded name enabled =
     (if isStatefulHoneypot name then False
      else if (case templateSupersededBy name of Some h \<Rightarrow> h \<in> enabled | None \<Rightarrow> False) then True
      else name = ''rdp'' \<and> ''rdp'' \<in> enabled)"

text \<open>\<open>dedup_add\<close> is the closure \<open>add\<close> of the code: append unless empty or already seen.\<close>

definition dedup_add :: "string \<Rightarrow> string list \<Rightarrow> string list" where
  "dedup_add name out = (if name = '''' \<or> name \<in> set out then out else out @ [name])"

definition expandRequested :: "string list \<Rightarrow> services_dir \<Rightarrow> bool \<Rightarrow> config_error + string list" where
  "expandRequested requested dir includeHoneypots =
     (if requested = [] then Inr []
      else case listTemplateServices dir of
        Inl e \<Rightarrow> Inl e
      | Inr templates \<Rightarrow>
          let needsAll = (\<exists>s \<in> set requested. equal_fold s ''all'');
              out0 = (if needsAll \<and> includeHoneypots
                      then fold dedup_add statefulServiceNames [] else []);
              out1 = (if needsAll then
                        fold (\<lambda>t out. if includeHoneypots \<and> templateSuperseded t (set out) then out
                                      else dedup_add t out) templates out0
                      else out0)
          in Inr (fold (\<lambda>s out. if equal_fold s ''all'' then out else dedup_add s out) requested out1))"

fun promote_loop :: "string list \<Rightarrow> string list \<Rightarrow> string list" where
  "promote_loop [] out = out"
| "promote_loop (n # ns) out =
     (let m = (if n = ''ssh'' then ''ssh_honeypot'' else n)
      in if m \<in> set out then promote_loop ns out else promote_loop ns (out @ [m]))"

definition promoteLinuxSSH :: "string list \<Rightarrow> os_profile option \<Rightarrow> string list" where
  "promoteLinuxSSH names profile =
     (case profile of
        None \<Rightarrow> names
      | Some p \<Rightarrow> if \<not> equal_fold (prof_family p) ''linux'' then names else promote_loop names [])"

definition dropSupersededTemplates :: "string list \<Rightarrow> string list" where
  "dropSupersededTemplates names = filter (\<lambda>n. \<not> templateSuperseded n (set names)) names"

definition editionExposesPort :: "string \<Rightarrow> u16 \<Rightarrow> bool" where
  "editionExposesPort edition port =
     (if edition = '''' then True
      else if port \<in> {135, 139, 445} then edition = ''server'' \<or> edition = ''dc''
      else if port \<in> {5357, 7680} then edition = ''workstation''
      else True)"

definition shouldStartService :: "string \<Rightarrow> os_profile option \<Rightarrow> bool \<Rightarrow> bool" where
  "shouldStartService name profile smbHoneypotOn139 =
     (if name = ''netbios'' \<and> smbHoneypotOn139 then False
      else case profile of
        None \<Rightarrow> True
      | Some p \<Rightarrow>
          let ed = resolvedEdition p in
          if name = ''ssh_honeypot'' then equal_fold (prof_family p) ''linux''
          else if name = ''msrpc'' then editionExposesPort ed 135
          else if name = ''netbios'' then editionExposesPort ed 139
          else if name = ''smb_honeypot'' \<or> name = ''smb'' then editionExposesPort ed 445
          else if name = ''wsd'' then editionExposesPort ed 5357
          else if name = ''deliveryopt'' then editionExposesPort ed 7680
          else True)"

definition filterEditionGated :: "string list \<Rightarrow> os_profile option \<Rightarrow> string list" where
  "filterEditionGated names profile =
     (let smbOn139 = (case profile of
            None \<Rightarrow> False
          | Some p \<Rightarrow> (\<exists>n \<in> set names. n = ''smb_honeypot'' \<and> editionExposesPort (resolvedEdition p) 139))
      in filter (\<lambda>n. shouldStartService n profile smbOn139) names)"

definition resolveRunServices :: "string list \<Rightarrow> services_dir \<Rightarrow> os_profile option \<Rightarrow> config_error + string list" where
  "resolveRunServices requested dir profile =
     (case expandRequested requested dir True of
        Inl e \<Rightarrow> Inl e
      | Inr expanded \<Rightarrow>
          Inr (filterEditionGated (dropSupersededTemplates (promoteLinuxSSH expanded profile)) profile))"

definition resolveServeServices :: "string list \<Rightarrow> services_dir \<Rightarrow> config_error + string list" where
  "resolveServeServices requested dir = expandRequested requested dir False"

section \<open>Listening ports\<close>

definition honeypotListenPorts :: "string \<rightharpoonup> u16 list" where
  "honeypotListenPorts = [''smb_honeypot'' \<mapsto> [445], ''rdp'' \<mapsto> [3389], ''ftp_honeypot'' \<mapsto> [21],
                          ''ssh_honeypot'' \<mapsto> [22]]"

definition manifestPort :: "services_dir \<Rightarrow> string \<Rightarrow> u16" where
  "manifestPort dir name =
     (case dir of
        None \<Rightarrow> 0
      | Some entries \<Rightarrow>
          (case find (\<lambda>e. de_name e = name) entries of
             None \<Rightarrow> 0
           | Some e \<Rightarrow> (case de_port e of None \<Rightarrow> 0 | Some p \<Rightarrow> p)))"

definition add_port :: "u16 \<Rightarrow> u16 list \<Rightarrow> u16 list" where
  "add_port p out = (if p = 0 \<or> p \<in> set out then out else out @ [p])"

definition add_service_ports :: "string \<Rightarrow> services_dir \<Rightarrow> string \<Rightarrow> u16 list \<Rightarrow> u16 list" where
  "add_service_ports ed dir name out =
     (case honeypotListenPorts name of
        Some ports \<Rightarrow>
          (let out' = fold add_port ports out
           in if name = ''smb_honeypot'' \<and> editionExposesPort ed 139 then add_port 139 out' else out')
      | None \<Rightarrow> (let p = manifestPort dir name in if p \<noteq> 0 then add_port p out else out))"

definition serviceListenPorts :: "string list \<Rightarrow> os_profile option \<Rightarrow> services_dir \<Rightarrow> u16 list" where
  "serviceListenPorts services profile dir =
     (let ed = (case profile of None \<Rightarrow> '''' | Some p \<Rightarrow> resolvedEdition p)
      in sort (fold (add_service_ports ed dir) services []))"

section \<open>Lemmas: the collectors\<close>

interpretation names: dedup_collector "[] :: string" dedup_add
  by unfold_locales (simp add: dedup_add_def)

interpretation ports: dedup_collector "0 :: u16" add_port
  by unfold_locales (simp add: add_port_def)

lemma sum_case_InrE:
  assumes "(case m of Inl e \<Rightarrow> Inl e | Inr x \<Rightarrow> Inr (f x)) = Inr y"
  obtains x where "m = Inr x" and "y = f x"
  using assms by (cases m) auto

lemma expandRequested_wf:
  assumes "expandRequested requested dir hp = Inr out"
  shows "distinct out \<and> [] \<notin> set out"
proof (cases "requested = []")
  case True
  with assms show ?thesis by (simp add: expandRequested_def)
next
  case False
  with assms obtain templates where out: "out =
      fold (\<lambda>s out. if equal_fold s ''all'' then out else dedup_add s out) requested
        (if \<exists>s \<in> set requested. equal_fold s ''all'' then
           fold (\<lambda>t out. if hp \<and> templateSuperseded t (set out) then out else dedup_add t out) templates
             (if (\<exists>s \<in> set requested. equal_fold s ''all'') \<and> hp
              then fold dedup_add statefulServiceNames [] else [])
         else (if (\<exists>s \<in> set requested. equal_fold s ''all'') \<and> hp
              then fold dedup_add statefulServiceNames [] else []))"
    by (auto simp: expandRequested_def Let_def split: sum.splits)
  have stateful: "distinct (fold dedup_add statefulServiceNames [])"
    "[] \<notin> set (fold dedup_add statefulServiceNames [])"
    by (auto intro: names.fold_add_distinct simp: names.set_fold_add)
  have all_templates: "distinct (fold dedup_add templates [])"
    "[] \<notin> set (fold dedup_add templates [])"
    by (auto intro: names.fold_add_distinct simp: names.set_fold_add)
  show ?thesis
    unfolding out using stateful all_templates
    by (auto intro!: names.fold_guard_distinct dest: names.zero_fold_guard [THEN notE, rotated])
qed

lemma promote_loop_distinct: "distinct out \<Longrightarrow> distinct (promote_loop ns out)"
  by (induction ns out rule: promote_loop.induct) (auto simp: Let_def)

lemma set_promote_loop:
  "set (promote_loop ns out) = set out \<union> (\<lambda>n. if n = ''ssh'' then ''ssh_honeypot'' else n) ` set ns"
  by (induction ns out rule: promote_loop.induct) (auto simp: Let_def)

lemma promoteLinuxSSH_distinct: "distinct names \<Longrightarrow> distinct (promoteLinuxSSH names profile)"
  by (auto simp: promoteLinuxSSH_def intro: promote_loop_distinct split: option.splits)

lemma resolveRunServicesE:
  assumes "resolveRunServices requested dir profile = Inr out"
  obtains expanded where "expandRequested requested dir True = Inr expanded"
    and "out = filterEditionGated (dropSupersededTemplates (promoteLinuxSSH expanded profile)) profile"
  using assms unfolding resolveRunServices_def by (erule_tac sum_case_InrE) auto

lemma filterEditionGated_subset: "set (filterEditionGated names profile) \<subseteq> set names"
  by (auto simp: filterEditionGated_def Let_def)

lemma filterEditionGated_starts:
  "n \<in> set (filterEditionGated names (Some p)) \<Longrightarrow> \<exists>b. shouldStartService n (Some p) b"
  by (auto simp: filterEditionGated_def Let_def)

lemma started_port_exposed:
  assumes "shouldStartService n (Some p) b"
  shows "n = ''msrpc'' \<Longrightarrow> editionExposesPort (resolvedEdition p) 135"
    and "n = ''netbios'' \<Longrightarrow> editionExposesPort (resolvedEdition p) 139"
    and "n = ''smb_honeypot'' \<or> n = ''smb'' \<Longrightarrow> editionExposesPort (resolvedEdition p) 445"
    and "n = ''wsd'' \<Longrightarrow> editionExposesPort (resolvedEdition p) 5357"
    and "n = ''deliveryopt'' \<Longrightarrow> editionExposesPort (resolvedEdition p) 7680"
    and "n = ''ssh_honeypot'' \<Longrightarrow> equal_fold (prof_family p) ''linux''"
  using assms by (auto simp: shouldStartService_def Let_def split: if_splits)

lemma resolved_starts:
  assumes "resolveRunServices requested dir (Some p) = Inr out" and "n \<in> set out"
  shows "\<exists>b. shouldStartService n (Some p) b"
  using assms by (auto elim!: resolveRunServicesE dest: filterEditionGated_starts)

section \<open>Properties\<close>

text \<open>C11. Resolving the services of a run never starts the same service twice, never a replay
  template beside the interactive honeypot that supersedes it, and never the \<open>netbios\<close> template
  beside an SMB honeypot that binds port 139 itself.\<close>

theorem resolve_exclusive:
  assumes "resolveRunServices requested dir (Some p) = Inr out"
  shows "distinct out \<and> \<not> (''smb'' \<in> set out \<and> ''smb_honeypot'' \<in> set out) \<and>
    \<not> (''ssh'' \<in> set out \<and> ''ssh_honeypot'' \<in> set out) \<and>
    \<not> (''netbios'' \<in> set out \<and> ''smb_honeypot'' \<in> set out)"
proof -
  from assms obtain expanded where ex: "expandRequested requested dir True = Inr expanded"
    and out: "out = filterEditionGated (dropSupersededTemplates (promoteLinuxSSH expanded (Some p))) (Some p)"
    by (rule resolveRunServicesE)
  let ?pr = "promoteLinuxSSH expanded (Some p)"
  have dist: "distinct out"
    unfolding out filterEditionGated_def dropSupersededTemplates_def Let_def
    using expandRequested_wf [OF ex] promoteLinuxSSH_distinct by (intro distinct_filter) blast
  have drop: "n \<in> set out \<Longrightarrow> n \<in> set ?pr \<and> \<not> templateSuperseded n (set ?pr)" for n
    using filterEditionGated_subset unfolding out dropSupersededTemplates_def by fastforce
  have "templateSuperseded ''smb'' A \<longleftrightarrow> ''smb_honeypot'' \<in> A"
    "templateSuperseded ''ssh'' A \<longleftrightarrow> ''ssh_honeypot'' \<in> A" for A
    by (simp_all add: templateSuperseded_def isStatefulHoneypot_def statefulServiceNames_def
        templateSupersededBy_def)
  with drop have templates: "\<not> (''smb'' \<in> set out \<and> ''smb_honeypot'' \<in> set out)"
    "\<not> (''ssh'' \<in> set out \<and> ''ssh_honeypot'' \<in> set out)"
    by blast+
  have "\<not> (''netbios'' \<in> set out \<and> ''smb_honeypot'' \<in> set out)"
  proof
    assume a: "''netbios'' \<in> set out \<and> ''smb_honeypot'' \<in> set out"
    then have "editionExposesPort (resolvedEdition p) 139"
      using resolved_starts [OF assms] started_port_exposed(2) by blast
    with a show False
      unfolding out filterEditionGated_def Let_def
      by (auto simp: shouldStartService_def)
  qed
  with dist templates show ?thesis by blast
qed

theorem resolve_exclusive_witness:
  "resolveRunServices [''all''] (Some [\<lparr>de_name = ''smb'', de_isDir = True, de_hasManifest = True, de_port = Some 445\<rparr>,
      \<lparr>de_name = ''netbios'', de_isDir = True, de_hasManifest = True, de_port = Some 139\<rparr>,
      \<lparr>de_name = ''http'', de_isDir = True, de_hasManifest = True, de_port = Some 80\<rparr>]) (Some server_2022)
     = Inr [''smb_honeypot'', ''ftp_honeypot'', ''rdp'', ''http''] \<and>
   distinct [''smb_honeypot'', ''ftp_honeypot'', ''rdp'', ''http'']"
proof -
  let ?dir = "Some [\<lparr>de_name = ''smb'', de_isDir = True, de_hasManifest = True, de_port = Some 445\<rparr>,
      \<lparr>de_name = ''netbios'', de_isDir = True, de_hasManifest = True, de_port = Some 139\<rparr>,
      \<lparr>de_name = ''http'', de_isDir = True, de_hasManifest = True, de_port = Some (80 :: u16)\<rparr>]"
  have h: "resolveRunServices [''all''] ?dir (Some server_2022)
      = Inr [''smb_honeypot'', ''ftp_honeypot'', ''rdp'', ''http'']"
    by code_simp
  show ?thesis
    using h resolve_exclusive [OF h] by blast
qed

text \<open>The ports that one service may bind: the reference the collected list is compared with.\<close>

definition service_ports_spec :: "string \<Rightarrow> services_dir \<Rightarrow> string \<Rightarrow> u16 set" where
  "service_ports_spec ed dir name =
     (case honeypotListenPorts name of
        Some ports \<Rightarrow>
          set ports \<union> (if name = ''smb_honeypot'' \<and> editionExposesPort ed 139 then {139} else {})
      | None \<Rightarrow> {manifestPort dir name}) - {0}"

lemma set_add_service_ports:
  "set (add_service_ports ed dir name out) = set out \<union> service_ports_spec ed dir name"
  by (auto simp: add_service_ports_def service_ports_spec_def ports.set_add ports.set_fold_add Let_def
      split: option.splits)

lemma distinct_add_service_ports:
  "distinct out \<Longrightarrow> distinct (add_service_ports ed dir name out)"
  by (auto simp: add_service_ports_def Let_def intro: ports.distinct_add ports.fold_add_distinct
      split: option.splits)

lemma fold_service_ports:
  "set (fold (add_service_ports ed dir) names out) = set out \<union> (\<Union>n \<in> set names. service_ports_spec ed dir n)"
  "distinct out \<Longrightarrow> distinct (fold (add_service_ports ed dir) names out)"
  by (induction names arbitrary: out)
    (auto simp: set_add_service_ports distinct_add_service_ports)

text \<open>The listening ports are exactly the non-zero ports the services bind under the profile's
  edition, in increasing order, each once.\<close>

theorem listen_ports_exact:
  "sorted (serviceListenPorts services profile dir) \<and>
   distinct (serviceListenPorts services profile dir) \<and>
   set (serviceListenPorts services profile dir) =
     (\<Union>n \<in> set services. service_ports_spec
        (case profile of None \<Rightarrow> '''' | Some p \<Rightarrow> resolvedEdition p) dir n)"
  by (simp add: serviceListenPorts_def Let_def fold_service_ports)

text \<open>A firewalled Windows workstation never opens RPC, NetBIOS or SMB: for the services a run
  resolves under a workstation profile, ports 135, 139 and 445 are not among the listening ports
  (the manifests of the other templates do not claim those ports), so the default-drop firewall
  built from that list filters them.\<close>

theorem workstation_ports_filtered:
  assumes run: "resolveRunServices requested dir (Some p) = Inr out"
    and ed: "resolvedEdition p = ''workstation''"
    and others: "\<And>t. t \<notin> {''msrpc'', ''netbios'', ''smb''} \<Longrightarrow> manifestPort dir t \<notin> {135, 139, 445}"
  shows "set (serviceListenPorts out (Some p) dir) \<inter> {135, 139, 445} = {}"
proof -
  have gone: "n \<notin> {''msrpc'', ''netbios'', ''smb'', ''smb_honeypot''}" if "n \<in> set out" for n
    using resolved_starts [OF run that] started_port_exposed [of n p]
    by (auto simp: ed editionExposesPort_def)
  have "service_ports_spec ''workstation'' dir n \<inter> {135, 139, 445} = {}" if "n \<in> set out" for n
  proof -
    from gone [OF that] have "manifestPort dir n \<notin> {135, 139, 445}" "n \<noteq> ''smb_honeypot''"
      using others [of n] by auto
    then show ?thesis
      by (auto simp: service_ports_spec_def honeypotListenPorts_def split: if_splits)
  qed
  then show ?thesis
    by (auto simp: serviceListenPorts_def fold_service_ports ed)
qed

theorem workstation_ports_filtered_witness:
  "set (serviceListenPorts [''ftp_honeypot'', ''rdp'', ''wsd''] (Some windows_11)
     (Some [\<lparr>de_name = ''smb'', de_isDir = True, de_hasManifest = True, de_port = Some 445\<rparr>,
            \<lparr>de_name = ''wsd'', de_isDir = True, de_hasManifest = True, de_port = Some 5357\<rparr>])) \<inter> {135, 139, 445} = {}"
proof -
  let ?dir = "Some [\<lparr>de_name = ''smb'', de_isDir = True, de_hasManifest = True, de_port = Some 445\<rparr>,
      \<lparr>de_name = ''wsd'', de_isDir = True, de_hasManifest = True, de_port = Some (5357 :: u16)\<rparr>]"
  have run: "resolveRunServices [''all''] ?dir (Some windows_11) = Inr [''ftp_honeypot'', ''rdp'', ''wsd'']"
    by code_simp
  have ed: "resolvedEdition windows_11 = ''workstation''"
    by code_simp
  show ?thesis
    by (rule workstation_ports_filtered [OF run ed]) (auto simp: manifestPort_def)
qed

end
