(* ===== verification/Win_Profile.thy ===== *)
theory Win_Profile
  imports Os_Profile
begin

text \<open>
  The per-profile snapshot of the WinDivert backend (\<open>winProfile\<close>, \<open>toWinProfile\<close> and
  \<open>tcpOptKind\<close> in \<open>internal/stack/backend_windows.go\<close>) and its timestamp clock.

  \<open>GetTickCount64\<close> is the operating system's: it is modelled by a function \<open>clk\<close> that gives the
  result of the n-th call, so two calls inside one packet may differ, as they may in the code.
\<close>

section \<open>TCP option kinds\<close>

definition optEOL :: u8 where "optEOL = 0"
definition optNOP :: u8 where "optNOP = 1"
definition optMSS :: u8 where "optMSS = 2"
definition optWScale :: u8 where "optWScale = 3"
definition optSACKPerm :: u8 where "optSACKPerm = 4"
definition optSACK :: u8 where "optSACK = 5"
definition optTimestamp :: u8 where "optTimestamp = 8"
definition olenTimestamp :: u8 where "olenTimestamp = 10"

lemmas opt_defs = optEOL_def optNOP_def optMSS_def optWScale_def optSACKPerm_def optSACK_def
  optTimestamp_def olenTimestamp_def

definition tcpOptKind :: "string \<Rightarrow> u8" where
  "tcpOptKind s =
     (let l = to_lower s in
      if l = ''mss'' then optMSS
      else if l = ''nop'' then optNOP
      else if l = ''window_scale'' \<or> l = ''wscale'' then optWScale
      else if l = ''sack_permitted'' \<or> l = ''sack_perm'' \<or> l = ''sack'' then optSACKPerm
      else if l = ''timestamp'' \<or> l = ''timestamps'' then optTimestamp
      else if l = ''eol'' then optEOL
      else optNOP)"

section \<open>IP-ID behaviours\<close>

definition ipidIncremental :: u8 where "ipidIncremental = 0"
definition ipidRandom :: u8 where "ipidRandom = 1"
definition ipidZero :: u8 where "ipidZero = 2"

lemmas ipid_defs = ipidIncremental_def ipidRandom_def ipidZero_def

section \<open>The snapshot\<close>

record win_profile =
  wp_ttl :: u8
  wp_dfBit :: bool
  wp_ipidBehavior :: u8
  wp_windowSize :: u16
  wp_windowScale :: u8
  wp_mss :: u16
  wp_tcpTimestamps :: bool
  wp_sackPermitted :: bool
  wp_optionsCount :: u8
  wp_windowInRST :: u16
  wp_opt1 :: u8
  wp_ecnEcho :: bool
  wp_ecnCC :: bool
  wp_ecnWindow :: u16
  wp_winQuirks :: bool
  wp_tsSlow :: bool
  wp_highFidelity :: bool
  wp_hifiWatchdog :: bool
  wp_hifiCanary :: string
  wp_icmpQuoteTTL :: u8
  wp_icmpQuoteDF :: bool

definition toWinProfile :: "os_profile \<Rightarrow> win_profile" where
  "toWinProfile p =
     (let s = prof_stack p;
          quoteTTL = (if st_icmpTTLInQuote s = 0 then st_ttl s else st_icmpTTLInQuote s);
          beh = to_lower (st_ipIDBehavior s);
          ipid = (if beh = ''random'' \<or> beh = ''rand'' then ipidRandom
                  else if beh = ''zero'' \<or> beh = ''0'' then ipidZero
                  else ipidIncremental);
          opt1 = (if 1 < length (st_tcpOptionsOrder s)
                  then tcpOptKind (st_tcpOptionsOrder s ! 1) else 0);
          ecnEcho = (to_lower (prof_family p) = ''linux'');
          ecnCC = (ecnEcho \<or> equal_fold (st_explicitCongestion s) ''echo'');
          winQuirks = equal_fold (prof_family p) ''windows'';
          tsSlow = (winQuirks \<and> st_tcpTimestamps s
                    \<and> split_head (prof_version p) (CHR ''.'') = ''6'');
          ecnWindow = (if ecnEcho then
                         (if st_windowSize s = 0xFE88 then 0xFAF0
                          else if st_windowSize s = 0x7120 then 0x7210 else 0)
                       else 0)
      in \<lparr>wp_ttl = st_ttl s,
          wp_dfBit = st_dfBit s,
          wp_ipidBehavior = ipid,
          wp_windowSize = st_windowSize s,
          wp_windowScale = st_windowScale s,
          wp_mss = st_mss s,
          wp_tcpTimestamps = st_tcpTimestamps s,
          wp_sackPermitted = st_sackPermitted s,
          wp_optionsCount = of_nat (length (st_tcpOptionsOrder s)),
          wp_windowInRST = st_windowInRST s,
          wp_opt1 = opt1,
          wp_ecnEcho = ecnEcho,
          wp_ecnCC = ecnCC,
          wp_ecnWindow = ecnWindow,
          wp_winQuirks = winQuirks,
          wp_tsSlow = tsSlow,
          wp_highFidelity = st_highFidelity s,
          wp_hifiWatchdog = (case st_highFidelityWatchdog s of None \<Rightarrow> True | Some b \<Rightarrow> b),
          wp_hifiCanary = st_highFidelityCanary s,
          wp_icmpQuoteTTL = quoteTTL,
          wp_icmpQuoteDF = st_icmpDFInQuote s\<rparr>)"

section \<open>The timestamp clock\<close>

type_synonym clock = "nat \<Rightarrow> u64"

definition uptimeMs :: "u64 \<Rightarrow> u32" where
  "uptimeMs tick = ucast tick"

definition tsval :: "win_profile \<Rightarrow> u64 \<Rightarrow> u32" where
  "tsval p tick = (if wp_tsSlow p then uptimeMs tick div 10 else uptimeMs tick)"

section \<open>Coherence of the snapshot\<close>

text \<open>The snapshot of a profile is family-coherent: the Windows-only quirks and the Linux ECN
  behaviour exclude each other, the 100 Hz timestamp clock and the distinct ECN window are only
  ever set for Windows and for Linux respectively, a Linux profile always reflects ECE, and the
  quoted TTL is never left at zero when the profile has a TTL.\<close>

theorem toWinProfile_coherent:
  "\<not> (wp_winQuirks (toWinProfile p) \<and> wp_ecnEcho (toWinProfile p)) \<and>
   (wp_tsSlow (toWinProfile p) \<longrightarrow> wp_winQuirks (toWinProfile p) \<and> wp_tcpTimestamps (toWinProfile p)) \<and>
   (wp_ecnWindow (toWinProfile p) \<noteq> 0 \<longrightarrow> wp_ecnEcho (toWinProfile p)) \<and>
   (wp_ecnEcho (toWinProfile p) \<longrightarrow> wp_ecnCC (toWinProfile p)) \<and>
   wp_ipidBehavior (toWinProfile p) \<in> {ipidIncremental, ipidRandom, ipidZero} \<and>
   (wp_icmpQuoteTTL (toWinProfile p) = 0 \<longrightarrow> wp_ttl (toWinProfile p) = 0)"
proof -
  have "to_lower ''windows'' = ''windows''"
    by code_simp
  then have "\<not> (equal_fold f ''windows'' \<and> to_lower f = ''linux'')" for f
    by (simp add: equal_fold_def)
  then show ?thesis
    by (auto simp: toWinProfile_def Let_def)
qed

theorem toWinProfile_coherent_witness:
  "wp_ecnCC (toWinProfile ubuntu) \<and> wp_ecnWindow (toWinProfile ubuntu) = 0xFAF0 \<and>
   \<not> wp_winQuirks (toWinProfile ubuntu)"
proof -
  have e: "wp_ecnEcho (toWinProfile ubuntu)" "wp_ecnWindow (toWinProfile ubuntu) = 0xFAF0"
    by code_simp+
  then show ?thesis
    using toWinProfile_coherent [of ubuntu] by blast
qed

end
