(* ===== verification/Syn_Cache.thy ===== *)
theory Syn_Cache
  imports Win_Profile "HOL-Library.AList"
begin

text \<open>
  The inbound-SYN tap of the WinDivert backend: \<open>flowKey\<close>, \<open>scanSynTimestamp\<close>,
  \<open>recordInboundSyn\<close> and \<open>lookupSynFlow\<close> of \<open>internal/stack/backend_windows.go\<close>.  What a client's
  SYN carried (a timestamp option and its value) is kept per client address and port, to shape the
  SYN-ACK that answers it.  The Go map \<open>synCache\<close> is an association list with distinct keys.
\<close>

record syn_flow =
  sf_hadTS :: bool
  sf_tsval :: u32
  sf_exp :: u64

type_synonym syn_cache = "(u64 \<times> syn_flow) list"

definition flowKey :: "u32 \<Rightarrow> u16 \<Rightarrow> u64" where
  "flowKey ip port = push_bit 16 (ucast ip) OR ucast port"

function scan_from :: "bytes \<Rightarrow> nat \<Rightarrow> bool \<times> u32" where
  "scan_from opts i =
     (if \<not> i + 1 \<le> length opts then (False, 0)
      else if opts ! i = optEOL then (False, 0)
      else if opts ! i = optNOP then scan_from opts (i + 1)
      else if i + 2 > length opts then (False, 0)
      else let olen = unat (opts ! (i + 1)) in
        if olen < 2 \<or> i + olen > length opts then (False, 0)
        else if opts ! i = optTimestamp \<and> opts ! (i + 1) = olenTimestamp then
          (True, be32 (opts ! (i + 2)) (opts ! (i + 3)) (opts ! (i + 4)) (opts ! (i + 5)))
        else scan_from opts (i + olen))"
  by pat_completeness auto
termination
  by (relation "measure (\<lambda>(opts, i). length opts - i)") auto

declare scan_from.simps [simp del]

definition scanSynTimestamp :: "bytes \<Rightarrow> bool \<times> u32" where
  "scanSynTimestamp opts = scan_from opts 0"

text \<open>\<open>ihl\<close> and \<open>tcp_hl\<close> are the header lengths in bytes that the first byte of the IP header and
  the data-offset byte of the TCP header announce.\<close>

definition ip_hl :: "byte \<Rightarrow> nat" where
  "ip_hl b = unat (b AND 0x0f) * 4"

definition tcp_hl :: "byte \<Rightarrow> nat" where
  "tcp_hl b = unat (drop_bit 4 b) * 4"

definition recordInboundSyn :: "u64 \<Rightarrow> bytes \<Rightarrow> syn_cache \<Rightarrow> syn_cache option" where
  "recordInboundSyn now pkt cache =
     (if length pkt < 24 then Some cache else do {
        b0 \<leftarrow> rd8 pkt 0;
        if drop_bit 4 b0 \<noteq> 4 then Some cache else do {
          let ihl = ip_hl b0;
          if length pkt < ihl + 20 then Some cache else do {
            off \<leftarrow> rd8 pkt (ihl + 12);
            let tcpHL = tcp_hl off;
            if tcpHL < 20 \<or> length pkt - ihl < tcpHL then Some cache else do {
              ip \<leftarrow> rd32 pkt 12;
              port \<leftarrow> rd16 pkt ihl;
              let (hadTS, tsv) = scanSynTimestamp (take (tcpHL - 20) (drop (ihl + 20) pkt));
              let cache' = (if length cache > 4096 then [] else cache);
              Some (AList.update (flowKey ip port)
                      \<lparr>sf_hadTS = hadTS, sf_tsval = tsv, sf_exp = now + 4000\<rparr> cache')
            }}}})"

definition lookupSynFlow :: "u64 \<Rightarrow> bytes \<Rightarrow> nat \<Rightarrow> syn_cache \<Rightarrow> syn_flow option option" where
  "lookupSynFlow now pkt ihl cache =
     (if length pkt < ihl + 4 then Some None else do {
        ip \<leftarrow> rd32 pkt 16;
        port \<leftarrow> rd16 pkt (ihl + 2);
        Some (case map_of cache (flowKey ip port) of
                None \<Rightarrow> None
              | Some f \<Rightarrow> if sf_exp f < now then None else Some f)
      })"

section \<open>The cache contract\<close>

text \<open>
  What the shaper relies on of the store behind the tap: reading back a write, other keys
  undisturbed, and at most one more entry per write.  The bounded write of
  \<open>recordInboundSyn\<close> (drop everything once more than \<open>limit\<close> entries are held) is then bounded,
  whatever the sequence of SYNs.
\<close>

locale flow_store =
  fixes get :: "'c \<Rightarrow> 'k \<Rightarrow> 'v option"
    and put :: "'k \<Rightarrow> 'v \<Rightarrow> 'c \<Rightarrow> 'c"
    and count :: "'c \<Rightarrow> nat"
    and cleared :: 'c
  assumes get_put: "get (put k v c) k' = (if k' = k then Some v else get c k')"
    and count_put: "count (put k v c) \<le> Suc (count c)"
    and count_cleared: "count cleared = 0"
begin

lemma bounded_put_count:
  "count c \<le> Suc limit \<Longrightarrow> count (put k v (if count c > limit then cleared else c)) \<le> Suc limit"
  using count_put [of k v c] count_put [of k v cleared] by (auto simp: count_cleared)

lemma bounded_put_get_same: "get (put k v (if count c > limit then cleared else c)) k = Some v"
  by (simp add: get_put)

lemma bounded_put_get_other:
  "count c \<le> limit \<Longrightarrow> k' \<noteq> k \<Longrightarrow>
    get (put k v (if count c > limit then cleared else c)) k' = get c k'"
  by (simp add: get_put)

end

lemma length_AList_update: "length (AList.update k v al) \<le> Suc (length al)"
  by (induction al) auto

interpretation syn_store: flow_store map_of AList.update length "[] :: syn_cache"
  by unfold_locales (auto simp: update_conv length_AList_update)

section \<open>Lemmas\<close>

lemma flowKey_inj: "flowKey ip port = flowKey ip' port' \<longleftrightarrow> ip = ip' \<and> port = port'"
proof
  assume eq: "flowKey ip port = flowKey ip' port'"
  have "(ucast (flowKey ip port) :: u16) = port" for ip port
    unfolding flowKey_def by (rule bit_word_eqI) (auto simp: bit_simps dest: bit_imp_le_length)
  moreover have "(ucast (drop_bit 16 (flowKey ip port)) :: u32) = ip" for ip port
    unfolding flowKey_def by (rule bit_word_eqI) (auto simp: bit_simps dest: bit_imp_le_length)
  ultimately show "ip = ip' \<and> port = port'"
    using eq by metis
qed auto

lemma unat_low_nibble: "unat (b AND 0x0f :: byte) < 16"
proof -
  have "unat (b AND 0x0f) \<le> unat (0x0f :: byte)"
    by (rule word_and_le1 [THEN word_le_nat_alt [THEN iffD1]])
  then show ?thesis by simp
qed

lemma ip_hl_le: "ip_hl b \<le> 60"
  using unat_low_nibble [of b] by (simp add: ip_hl_def)

lemma recordInboundSyn_total: "\<exists>c. recordInboundSyn now pkt cache = Some c"
  by (auto simp: recordInboundSyn_def Let_def panic_free ip_hl_le split: prod.splits)

text \<open>A well-formed inbound SYN: an IPv4 packet that holds its whole TCP header.\<close>

definition wf_syn :: "bytes \<Rightarrow> bool" where
  "wf_syn pkt \<longleftrightarrow> 24 \<le> length pkt \<and> drop_bit 4 (pkt ! 0) = 4 \<and>
     ip_hl (pkt ! 0) + 20 \<le> length pkt \<and> 20 \<le> tcp_hl (pkt ! (ip_hl (pkt ! 0) + 12)) \<and>
     ip_hl (pkt ! 0) + tcp_hl (pkt ! (ip_hl (pkt ! 0) + 12)) \<le> length pkt"

definition syn_key :: "bytes \<Rightarrow> u64" where
  "syn_key pkt = flowKey (be32 (pkt ! 12) (pkt ! 13) (pkt ! 14) (pkt ! 15))
     (be16 (pkt ! ip_hl (pkt ! 0)) (pkt ! (ip_hl (pkt ! 0) + 1)))"

definition syn_options :: "bytes \<Rightarrow> bytes" where
  "syn_options pkt = take (tcp_hl (pkt ! (ip_hl (pkt ! 0) + 12)) - 20) (drop (ip_hl (pkt ! 0) + 20) pkt)"

lemma recordInboundSyn_wf:
  "wf_syn pkt \<Longrightarrow> recordInboundSyn now pkt cache =
     Some (AList.update (syn_key pkt)
       \<lparr>sf_hadTS = fst (scanSynTimestamp (syn_options pkt)), sf_tsval = snd (scanSynTimestamp (syn_options pkt)),
        sf_exp = now + 4000\<rparr> (if length cache > 4096 then [] else cache))"
  by (auto simp: wf_syn_def recordInboundSyn_def syn_key_def syn_options_def Let_def panic_free
      add.commute add.left_commute split: prod.splits)

lemma recordInboundSyn_malformed: "\<not> wf_syn pkt \<Longrightarrow> recordInboundSyn now pkt cache = Some cache"
  by (auto simp: wf_syn_def recordInboundSyn_def Let_def panic_free)

lemma lookupSynFlow_key:
  "20 \<le> length pkt \<Longrightarrow> lookupSynFlow now pkt ihl cache = Some
     (if length pkt < ihl + 4 then None
      else case map_of cache (flowKey (be32 (pkt ! 16) (pkt ! 17) (pkt ! 18) (pkt ! 19))
                                (be16 (pkt ! (ihl + 2)) (pkt ! (ihl + 3)))) of
             None \<Rightarrow> None | Some f \<Rightarrow> if sf_exp f < now then None else Some f)"
  by (simp add: lookupSynFlow_def panic_free numeral_3_eq_3)

fun record_all :: "(u64 \<times> bytes) list \<Rightarrow> syn_cache \<Rightarrow> syn_cache option" where
  "record_all [] c = Some c"
| "record_all ((now, pkt) # xs) c = recordInboundSyn now pkt c \<bind> record_all xs"

lemma record_bounded:
  "recordInboundSyn now pkt c = Some c' \<Longrightarrow> length c \<le> 4097 \<Longrightarrow> length c' \<le> 4097"
  using syn_store.bounded_put_count [of c 4096]
  by (cases "wf_syn pkt") (auto simp: recordInboundSyn_wf recordInboundSyn_malformed)

text \<open>The tap cannot be made to hold unbounded state: whatever inbound packets arrive,
  malformed ones included, recording them never panics and never leaves more than 4097 flows.\<close>

theorem syn_cache_bounded:
  "\<exists>c. record_all syns [] = Some c \<and> length c \<le> 4097"
proof -
  have "\<exists>c'. record_all syns c = Some c' \<and> length c' \<le> 4097" if "length c \<le> 4097" for c
    using that
  proof (induction syns arbitrary: c)
    case (Cons x xs)
    obtain now pkt where x: "x = (now, pkt)" by force
    obtain c' where c': "recordInboundSyn now pkt c = Some c'"
      using recordInboundSyn_total by blast
    with Cons.prems have "length c' \<le> 4097" by (rule record_bounded [rotated])
    from Cons.IH [OF this] show ?case by (simp add: x c')
  qed simp
  then show ?thesis by simp
qed

text \<open>A packet to the address and port a SYN came from is looked up under the key of that SYN.\<close>

lemma ack_key:
  assumes syn: "wf_syn syn"
    and ack: "ihl + 4 \<le> length ack" "20 \<le> length ack"
    and client: "take 4 (drop 16 ack) = take 4 (drop 12 syn)"
      "take 2 (drop (ihl + 2) ack) = take 2 (drop (ip_hl (syn ! 0)) syn)"
  shows "flowKey (be32 (ack ! 16) (ack ! 17) (ack ! 18) (ack ! 19)) (be16 (ack ! (ihl + 2)) (ack ! (ihl + 3))) = syn_key syn"
proof -
  have nth_eq: "a ! (i + j) = b ! (k + j)"
    if "take n (drop i a) = take n (drop k b)" "j < n" "i + n \<le> length a" "k + n \<le> length b"
    for a b :: bytes and i j k n
  proof -
    have "take n (drop i a) ! j = a ! (i + j)" "take n (drop k b) ! j = b ! (k + j)"
      using that(2-4) by simp_all
    with that(1) show ?thesis by simp
  qed
  let ?h = "ip_hl (syn ! 0)"
  have len: "24 \<le> length syn" "?h + 20 \<le> length syn"
    using syn by (auto simp: wf_syn_def)
  have addr: "ack ! 16 = syn ! 12" "ack ! 17 = syn ! 13" "ack ! 18 = syn ! 14" "ack ! 19 = syn ! 15"
    using nth_eq [OF client(1), of 0] nth_eq [OF client(1), of 1]
      nth_eq [OF client(1), of 2] nth_eq [OF client(1), of 3] ack len by simp_all
  have port: "ack ! (ihl + 2) = syn ! ?h" "ack ! (ihl + 3) = syn ! (?h + 1)"
    using nth_eq [OF client(2), of 0] nth_eq [OF client(2), of 1] ack len
    by (simp_all add: add.assoc numeral_3_eq_3 numeral_2_eq_2)
  show ?thesis
    by (simp only: addr port syn_key_def)
qed

text \<open>A client SYN from 10.0.0.5:4660 with an \<open>MSS, SACK, TS\<close> option list.\<close>

definition example_syn :: bytes where
  "example_syn = [0x45, 0, 0, 56, 0, 1, 0x40, 0, 64, 6, 0, 0, 10, 0, 0, 5, 10, 0, 0, 1,
     0x12, 0x34, 0, 80, 0, 0, 0, 1, 0, 0, 0, 0, 0x90, 2, 0xff, 0xff, 0, 0, 0, 0,
     2, 4, 5, 0xb4, 4, 2, 8, 10, 0xff, 0xff, 0xff, 0xff, 0, 0, 0, 0]"

end
