(* ===== verification/Egress_Tcp.thy ===== *)
theory Egress_Tcp
  imports Syn_Cache
begin

text \<open>
  The TCP part of the WinDivert egress mutation: \<open>growTCPHeader\<close>, \<open>shrinkTCPHeader\<close>,
  \<open>applyTCP\<close>, \<open>patchSynAckTSval\<close> and \<open>putMSS\<close> of \<open>internal/stack/backend_windows.go\<close>.

  \<open>applyTCP\<close> is one long function over the packet and the local variables \<open>tcpHL\<close>, \<open>optLen\<close>
  and \<open>modified\<close>; each of its commented sections is a stage \<open>sec_...\<close> over a record of those
  variables, run in the code's order.  The slice \<open>tcp\<close> is \<open>pkt[ihl:]\<close> and shares its memory, so
  \<open>tcp[i]\<close> is byte \<open>ihl + i\<close> of the packet.  Every store is range-checked (\<open>None\<close> is a
  panic); reads of a sub-slice happen behind the code's own length guards.
\<close>

section \<open>Packet and local variables\<close>

record egress =
  eg_pkt :: bytes
  eg_tcpHL :: nat
  eg_optLen :: nat
  eg_modified :: bool
  eg_reads :: nat  \<comment> \<open>points of the run at which the clock was consulted\<close>

record tcp_ctx =
  cx_ihl :: nat
  cx_prof :: win_profile
  cx_flags :: u8
  cx_flow :: "syn_flow option"  \<comment> \<open>\<open>flow\<close> when \<open>haveFlow\<close>\<close>
  cx_clk :: clock

definition isSYN :: "u8 \<Rightarrow> bool" where "isSYN flags \<longleftrightarrow> flags AND 0x02 \<noteq> 0"
definition isSYNACK :: "u8 \<Rightarrow> bool" where "isSYNACK flags \<longleftrightarrow> flags AND 0x12 = 0x12"
definition isSynPhase :: "u8 \<Rightarrow> bool" where "isSynPhase flags \<longleftrightarrow> isSYN flags \<or> isSYNACK flags"

definition flow_hadTS :: "syn_flow option \<Rightarrow> bool" where
  "flow_hadTS fl = (case fl of None \<Rightarrow> False | Some f \<Rightarrow> sf_hadTS f)"

definition flow_noTS :: "syn_flow option \<Rightarrow> bool" where
  "flow_noTS fl = (case fl of None \<Rightarrow> False | Some f \<Rightarrow> \<not> sf_hadTS f)"

text \<open>\<open>len(tcp)\<close>, and \<open>tcp[i]\<close>, \<open>binary.BigEndian.Uint16(tcp[i:i+2])\<close> behind a length guard.\<close>

definition tcp_len :: "nat \<Rightarrow> egress \<Rightarrow> nat" where
  "tcp_len ihl s = length (eg_pkt s) - ihl"

definition tcp8 :: "nat \<Rightarrow> egress \<Rightarrow> nat \<Rightarrow> byte" where
  "tcp8 ihl s i = eg_pkt s ! (ihl + i)"

definition tcp16 :: "nat \<Rightarrow> egress \<Rightarrow> nat \<Rightarrow> u16" where
  "tcp16 ihl s i = be16 (eg_pkt s ! (ihl + i)) (eg_pkt s ! (ihl + i + 1))"

definition tcp_slice :: "nat \<Rightarrow> egress \<Rightarrow> nat \<Rightarrow> nat \<Rightarrow> bytes" where
  "tcp_slice ihl s i j = take (j - i) (drop (ihl + i) (eg_pkt s))"

text \<open>\<open>tcp_put ihl i xs s\<close> is \<open>copy(tcp[i:i+len(xs)], xs); modified = true\<close>.\<close>

definition tcp_put :: "nat \<Rightarrow> nat \<Rightarrow> bytes \<Rightarrow> egress \<Rightarrow> egress option" where
  "tcp_put ihl i xs s = do {
     p \<leftarrow> copy_at (eg_pkt s) (ihl + i) xs;
     Some (s\<lparr>eg_pkt := p, eg_modified := True\<rparr>) }"

section \<open>Growing and shrinking the TCP header\<close>

definition set_lengths :: "nat \<Rightarrow> nat \<Rightarrow> bytes \<Rightarrow> bytes option" where
  "set_lengths ihl newTCPHL out = do {
     b \<leftarrow> rd8 out (ihl + 12);
     out1 \<leftarrow> wr8 out (ihl + 12) ((b AND 0x0f) OR push_bit 4 (of_nat (newTCPHL div 4)));
     wr16 out1 2 (of_nat (length out1)) }"

definition growTCPHeader :: "bytes \<Rightarrow> nat \<Rightarrow> nat \<Rightarrow> nat \<Rightarrow> bytes option" where
  "growTCPHeader pkt ihl oldTCPHL newTCPHL =
     (if newTCPHL \<le> oldTCPHL \<or> length pkt < ihl + oldTCPHL then Some pkt
      else set_lengths ihl newTCPHL
        (take (ihl + oldTCPHL) pkt @ replicate (newTCPHL - oldTCPHL) 0 @ drop (ihl + oldTCPHL) pkt))"

definition shrinkTCPHeader :: "bytes \<Rightarrow> nat \<Rightarrow> nat \<Rightarrow> nat \<Rightarrow> bytes option" where
  "shrinkTCPHeader pkt ihl oldTCPHL newTCPHL =
     (if oldTCPHL \<le> newTCPHL \<or> newTCPHL < 20 \<or> length pkt < ihl + oldTCPHL then Some pkt
      else set_lengths ihl newTCPHL (take (ihl + newTCPHL) pkt @ drop (ihl + oldTCPHL) pkt))"

text \<open>The assignments that follow a call: \<open>pkt\<close>, \<open>tcpHL\<close>, \<open>optLen\<close> and \<open>modified\<close>.\<close>

definition resize_to :: "nat \<Rightarrow> bytes \<Rightarrow> egress \<Rightarrow> egress" where
  "resize_to hl p s = s\<lparr>eg_pkt := p, eg_tcpHL := hl, eg_optLen := hl - 20, eg_modified := True\<rparr>"

section \<open>Option templates\<close>

definition mssOpt :: "u16 \<Rightarrow> bytes" where
  "mssOpt mss = [optMSS, 4] @ enc16 mss"

definition putMSS :: "bytes \<Rightarrow> nat \<Rightarrow> u16 \<Rightarrow> bytes" where
  "putMSS b off mss = overwrite b off (mssOpt mss)"

definition wscaleOpt :: "win_profile \<Rightarrow> bytes" where
  "wscaleOpt p = [optWScale, 3, wp_windowScale p]"

text \<open>The MSS of the host's own options if they start with one, else the profile's.\<close>

definition old_mss :: "win_profile \<Rightarrow> bytes \<Rightarrow> u16" where
  "old_mss p old = (if old ! 0 = optMSS \<and> old ! 1 = 4 then be16 (old ! 2) (old ! 3) else wp_mss p)"

text \<open>The TSecr of the host's own timestamp option at one of the three places it may stand, 0
  when there is none.\<close>

definition old_tsecr :: "bytes \<Rightarrow> u32" where
  "old_tsecr old =
     (if old ! 8 = optTimestamp \<and> old ! 9 = olenTimestamp then be32 (old ! 14) (old ! 15) (old ! 16) (old ! 17)
      else if old ! 6 = optTimestamp \<and> old ! 7 = olenTimestamp then be32 (old ! 12) (old ! 13) (old ! 14) (old ! 15)
      else if old ! 4 = optTimestamp \<and> old ! 5 = olenTimestamp then be32 (old ! 10) (old ! 11) (old ! 12) (old ! 13)
      else 0)"

definition echo_tsecr :: "syn_flow option \<Rightarrow> u32 \<Rightarrow> u32" where
  "echo_tsecr fl tsecr =
     (case fl of
        Some f \<Rightarrow> if sf_hadTS f \<and> sf_tsval f \<noteq> 0 then sf_tsval f else tsecr
      | None \<Rightarrow> tsecr)"

definition xp_template :: "bool \<Rightarrow> u16 \<Rightarrow> bytes" where
  "xp_template useSACK mss =
     (let no = putMSS (replicate 20 optNOP) 0 mss;
          no = overwrite no 4 [optNOP, optNOP]
      in if useSACK then overwrite no 6 [optSACKPerm, 2] else no)"

definition win_nots_template :: "win_profile \<Rightarrow> bool \<Rightarrow> u16 \<Rightarrow> bytes" where
  "win_nots_template p useSACK mss =
     (let no = putMSS (replicate 20 optNOP) 0 mss;
          no = overwrite no 4 [optNOP];
          no = overwrite no 5 (wscaleOpt p)
      in if useSACK then overwrite (overwrite no 8 [optNOP, optNOP]) 10 [optSACKPerm, 2] else no)"

definition linux_template :: "win_profile \<Rightarrow> bool \<Rightarrow> u16 \<Rightarrow> u32 \<Rightarrow> u32 \<Rightarrow> bytes" where
  "linux_template p useSACK mss tsv tsecr =
     (let no = putMSS (replicate 20 optNOP) 0 mss;
          no = (if useSACK then overwrite no 4 [optSACKPerm, 2] else no);
          no = overwrite no 6 [optTimestamp, olenTimestamp];
          no = overwrite no 8 (enc32 tsv);
          no = overwrite no 12 (enc32 tsecr);
          no = overwrite no 16 [optNOP]
      in if wp_windowScale p > 0 then overwrite no 17 (wscaleOpt p) else no)"

definition win_ts_template :: "win_profile \<Rightarrow> bool \<Rightarrow> u16 \<Rightarrow> u32 \<Rightarrow> u32 \<Rightarrow> bytes" where
  "win_ts_template p useSACK mss tsv tsecr =
     (let no = putMSS (replicate 20 optNOP) 0 mss;
          no = overwrite no 4 [optNOP];
          no = overwrite no 5 (wscaleOpt p);
          no = (if useSACK then overwrite no 8 [optSACKPerm, 2] else no);
          no = overwrite no 10 [optTimestamp, olenTimestamp];
          no = overwrite no 12 (enc32 tsv)
      in overwrite no 16 (enc32 tsecr))"

definition macos_template :: "win_profile \<Rightarrow> u16 \<Rightarrow> u32 \<Rightarrow> u32 \<Rightarrow> bytes" where
  "macos_template p mss tsv tsecr =
     (let no = putMSS (replicate 20 optNOP) 0 mss;
          no = overwrite no 4 [optNOP];
          no = overwrite no 5 (wscaleOpt p);
          no = overwrite no 8 [optNOP, optNOP];
          no = overwrite no 10 [optTimestamp, olenTimestamp];
          no = overwrite no 12 (enc32 tsv)
      in overwrite no 16 (enc32 tsecr))"

text \<open>
  The \<open>switch\<close> of the 20-byte section: the new options, the option length to keep, and the clock
  readings consumed (the Linux and Windows branches read the TSval before the fallback TSecr, the
  last branch after it).
\<close>

definition syn20_options :: "tcp_ctx \<Rightarrow> nat \<Rightarrow> bytes \<Rightarrow> bytes \<times> nat \<times> nat" where
  "syn20_options cx reads old =
     (let p = cx_prof cx;
          clk = cx_clk cx;
          mss = old_mss p old;
          hadSACK = (old ! 4 = optSACKPerm \<or> old ! 6 = optSACKPerm \<or> old ! 8 = optSACKPerm \<or>
                     old ! 10 = optSACKPerm \<or> old ! 12 = optSACKPerm \<or> old ! 16 = optSACKPerm);
          useSACK = (wp_sackPermitted p \<and> hadSACK);
          tsecr0 = echo_tsecr (cx_flow cx) (old_tsecr old)
      in if wp_windowScale p = 0 \<and> \<not> wp_tcpTimestamps p then
           (xp_template useSACK mss, 20, reads)
         else if wp_windowScale p > 0 \<and> \<not> wp_tcpTimestamps p then
           (win_nots_template p useSACK mss, if useSACK then 12 else 8, reads)
         else if wp_tcpTimestamps p \<and> wp_opt1 p = optSACKPerm then
           (let tsv = uptimeMs (clk reads);
                tsecr = (if tsecr0 = 0 then uptimeMs (clk (reads + 1)) else tsecr0)
            in (linux_template p useSACK mss tsv tsecr, 20, reads + 2))
         else if wp_windowScale p > 0 \<and> wp_tcpTimestamps p then
           (let tsv = tsval p (clk reads);
                tsecr = (if tsecr0 = 0 then uptimeMs (clk (reads + 1)) else tsecr0)
            in (win_ts_template p useSACK mss tsv tsecr, 20, reads + 2))
         else
           (let tsecr = (if tsecr0 = 0 then uptimeMs (clk reads) else tsecr0);
                tsv = uptimeMs (clk (reads + 1))
            in (macos_template p mss tsv tsecr, 20, reads + 2)))"

section \<open>The stages of \<open>applyTCP\<close>\<close>

type_synonym stage = "tcp_ctx \<Rightarrow> egress \<Rightarrow> egress option"

definition sec_expand :: stage where
  "sec_expand cx s =
     (let p = cx_prof cx; ihl = cx_ihl cx in
      if eg_optLen s = 12 \<and> isSYNACK (cx_flags cx) \<and> wp_tcpTimestamps p \<and> wp_opt1 p = optSACKPerm
         \<and> wp_windowScale p > 0 \<and> (cx_flow cx = None \<or> flow_hadTS (cx_flow cx)) then do {
        out \<leftarrow> growTCPHeader (eg_pkt s) ihl (eg_tcpHL s) 40;
        Some (resize_to 40 out s) }
      else Some s)"

definition sec_window :: stage where
  "sec_window cx s =
     (let p = cx_prof cx; ihl = cx_ihl cx in
      if wp_windowSize p > 0 \<and> tcp16 ihl s 14 \<noteq> wp_windowSize p
      then tcp_put ihl 14 (enc16 (wp_windowSize p)) s else Some s)"

definition sec_syn20 :: stage where
  "sec_syn20 cx s =
     (let p = cx_prof cx; ihl = cx_ihl cx in
      if eg_optLen s = 20 \<and> wp_optionsCount p > 0 \<and> isSynPhase (cx_flags cx) \<and> tcp_len ihl s \<ge> 40 then
        (case syn20_options cx (eg_reads s) (tcp_slice ihl s 20 40) of
           (no, wantOptLen, reads') \<Rightarrow> do {
             s1 \<leftarrow> tcp_put ihl 20 no (s\<lparr>eg_reads := reads'\<rparr>);
             s2 \<leftarrow> (if wantOptLen < 20 then do {
                      out \<leftarrow> shrinkTCPHeader (eg_pkt s1) ihl 40 (20 + wantOptLen);
                      Some (resize_to (20 + wantOptLen) out s1) }
                    else Some s1);
             (if \<not> wp_winQuirks p \<and> wp_ipidBehavior p = ipidZero \<and> wp_tcpTimestamps p \<and> wantOptLen = 20
              then do {
                out \<leftarrow> growTCPHeader (eg_pkt s2) ihl 40 44;
                s3 \<leftarrow> tcp_put ihl 40 [optSACKPerm, 2] (resize_to 44 out s2);
                tcp_put ihl 42 [optEOL, optEOL] s3 }
              else Some s2) })
      else Some s)"

definition ecn_linux_options :: "win_profile \<Rightarrow> bool \<Rightarrow> u16 \<Rightarrow> bytes" where
  "ecn_linux_options p useSACK mss =
     (let no = putMSS (replicate 12 optNOP) 0 mss;
          no = overwrite no 4 [optNOP, optNOP];
          no = (if useSACK then overwrite no 6 [optSACKPerm, 2] else no);
          no = overwrite no 8 [optNOP]
      in overwrite no 9 (wscaleOpt p))"

definition sec_ecn :: stage where
  "sec_ecn cx s =
     (let p = cx_prof cx; ihl = cx_ihl cx; optLen = eg_optLen s in
      if isSYNACK (cx_flags cx) \<and> wp_ecnEcho p \<and> flow_noTS (cx_flow cx) \<and> wp_windowScale p > 0
         \<and> wp_optionsCount p > 0 \<and> optLen \<ge> 12 \<and> tcp_len ihl s \<ge> 20 + optLen then do {
        s1 \<leftarrow> (if wp_ecnWindow p \<noteq> 0 \<and> tcp16 ihl s 14 \<noteq> wp_ecnWindow p
               then tcp_put ihl 14 (enc16 (wp_ecnWindow p)) s else Some s);
        let old = tcp_slice ihl s1 20 (20 + optLen);
        let mss = old_mss p old;
        let hadSACK = (optSACKPerm \<in> set (butlast old));
        s2 \<leftarrow> tcp_put ihl 20 (ecn_linux_options p (wp_sackPermitted p \<and> hadSACK) mss) s1;
        tcp_put ihl 32 (replicate (optLen - 12) optNOP) s2 }
      else Some s)"

definition win_syn12_options :: "win_profile \<Rightarrow> bool \<Rightarrow> u16 \<Rightarrow> bytes" where
  "win_syn12_options p useSACK mss =
     (let no = putMSS (replicate 12 optNOP) 0 mss;
          no = overwrite no 4 [optNOP];
          no = overwrite no 5 (wscaleOpt p);
          no = overwrite no 8 [optNOP, optNOP]
      in if useSACK then overwrite no 10 [optSACKPerm, 2] else no)"

definition sec_syn12 :: stage where
  "sec_syn12 cx s =
     (let p = cx_prof cx; ihl = cx_ihl cx in
      if eg_optLen s = 12 \<and> wp_windowScale p > 0 \<and> wp_optionsCount p > 0 \<and> isSynPhase (cx_flags cx)
         \<and> \<not> isSYNACK (cx_flags cx) \<and> tcp_len ihl s \<ge> 32 then
        (let old = tcp_slice ihl s 20 32;
             mss = old_mss p old;
             hadSACK = (old ! 2 = optSACKPerm \<or> old ! 4 = optSACKPerm \<or> old ! 6 = optSACKPerm \<or>
                        old ! 8 = optSACKPerm \<or> old ! 10 = optSACKPerm);
             useSACK = (wp_sackPermitted p \<and> hadSACK)
         in tcp_put ihl 20 (if wp_ecnEcho p then ecn_linux_options p useSACK mss
                            else win_syn12_options p useSACK mss) s)
      else Some s)"

definition sec_o6_ts :: stage where
  "sec_o6_ts cx s =
     (let p = cx_prof cx; ihl = cx_ihl cx in
      if eg_optLen s = 16 \<and> wp_tcpTimestamps p \<and> isSynPhase (cx_flags cx) \<and> tcp_len ihl s \<ge> 36 then do {
        s1 \<leftarrow> (if wp_windowSize p = 0xFFFF \<and> tcp16 ihl s 14 \<noteq> 0xFFDC
               then tcp_put ihl 14 (enc16 0xFFDC) s else Some s);
        (if tcp8 ihl s1 26 = optTimestamp \<and> tcp8 ihl s1 27 = olenTimestamp
         then tcp_put ihl 28 (enc32 (tsval p (cx_clk cx (eg_reads s1)))) (s1\<lparr>eg_reads := eg_reads s1 + 1\<rparr>)
         else Some s1) }
      else Some s)"

definition o6_nots_options :: "win_profile \<Rightarrow> u16 \<Rightarrow> bytes" where
  "o6_nots_options p mss =
     (let no8 = putMSS (replicate 8 0) 0 mss;
          no8 = overwrite no8 4 [optNOP, optNOP]
      in if wp_sackPermitted p then overwrite no8 6 [optSACKPerm, 2]
         else overwrite no8 6 [optNOP, optNOP])"

definition sec_o6_nots :: stage where
  "sec_o6_nots cx s =
     (let p = cx_prof cx; ihl = cx_ihl cx in
      if eg_optLen s = 16 \<and> isSynPhase (cx_flags cx) \<and> wp_winQuirks p \<and> \<not> wp_tcpTimestamps p
         \<and> tcp_len ihl s \<ge> 36 then do {
        s1 \<leftarrow> (if wp_windowSize p = 0xFFFF \<and> tcp16 ihl s 14 \<noteq> 0xFF70
               then tcp_put ihl 14 (enc16 0xFF70) s else Some s);
        let mss = old_mss p (tcp_slice ihl s1 20 24);
        s2 \<leftarrow> tcp_put ihl 20 (o6_nots_options p mss) s1;
        out \<leftarrow> shrinkTCPHeader (eg_pkt s2) ihl 36 28;
        Some (resize_to 28 out s2) }
      else Some s)"

definition sec_coherence :: stage where
  "sec_coherence cx s =
     (let p = cx_prof cx; ihl = cx_ihl cx in
      if eg_optLen s = 12 \<and> \<not> isSYN (cx_flags cx) \<and> wp_tcpTimestamps p \<and> wp_windowScale p > 0
         \<and> tcp_len ihl s \<ge> 32 \<and> tcp8 ihl s 20 = optNOP \<and> tcp8 ihl s 21 = optNOP
         \<and> tcp8 ihl s 22 = optTimestamp \<and> tcp8 ihl s 23 = olenTimestamp
      then tcp_put ihl 24 (enc32 (tsval p (cx_clk cx (eg_reads s)))) (s\<lparr>eg_reads := eg_reads s + 1\<rparr>)
      else Some s)"

definition sec_rst :: stage where
  "sec_rst cx s =
     (let ihl = cx_ihl cx in
      if cx_flags cx AND 0x04 \<noteq> 0 \<and> wp_windowInRST (cx_prof cx) = 0 \<and> tcp16 ihl s 14 \<noteq> 0
      then tcp_put ihl 14 (enc16 0) s else Some s)"

function patch_from :: "clock \<Rightarrow> nat \<Rightarrow> nat \<Rightarrow> nat \<Rightarrow> egress \<Rightarrow> egress option" where
  "patch_from clk ihl optLen off s =
     (if \<not> off + 10 \<le> 20 + optLen then Some s
      else if tcp8 ihl s off = optNOP then patch_from clk ihl optLen (off + 1) s
      else if tcp8 ihl s off = optEOL then Some s
      else let olen = unat (tcp8 ihl s (off + 1)) in
        if olen < 2 then patch_from clk ihl optLen (off + 1) s
        else if tcp8 ihl s off = optTimestamp \<and> tcp8 ihl s (off + 1) = olenTimestamp
        then tcp_put ihl (off + 2) (enc32 (uptimeMs (clk (eg_reads s)))) (s\<lparr>eg_reads := eg_reads s + 1\<rparr>)
             \<bind> patch_from clk ihl optLen (off + olen)
        else patch_from clk ihl optLen (off + olen) s)"
  by pat_completeness auto
termination
  by (relation "measure (\<lambda>(clk, ihl, optLen, off, s). 20 + optLen - off)") auto

declare patch_from.simps [simp del]

definition patchSynAckTSval :: "clock \<Rightarrow> nat \<Rightarrow> nat \<Rightarrow> egress \<Rightarrow> egress option" where
  "patchSynAckTSval clk ihl optLen s =
     (if tcp_len ihl s < 20 + optLen then Some s else patch_from clk ihl optLen 20 s)"

definition sec_st11 :: stage where
  "sec_st11 cx s =
     (let p = cx_prof cx in
      if isSYNACK (cx_flags cx) \<and> wp_tcpTimestamps p \<and> wp_opt1 p = optSACKPerm \<and> eg_optLen s > 0
      then patchSynAckTSval (cx_clk cx) (cx_ihl cx) (eg_optLen s) s else Some s)"

definition sec_ecn_cc :: stage where
  "sec_ecn_cc cx s =
     (let p = cx_prof cx; ihl = cx_ihl cx; flags = cx_flags cx in do {
        s1 \<leftarrow> (if flags AND 0x12 = 0x12 \<and> flags AND 0x40 \<noteq> 0 \<and> \<not> wp_ecnCC p
               then tcp_put ihl 13 [flags AND NOT 0x40] s else Some s);
        (if wp_ecnCC p \<and> flags AND 0x12 = 0x12 \<and> flags AND 0x40 = 0 \<and> flow_noTS (cx_flow cx)
         then tcp_put ihl 13 [flags OR 0x40] s1 else Some s1) })"

definition tcp_stages :: "stage list" where
  "tcp_stages = [sec_expand, sec_window, sec_syn20, sec_ecn, sec_syn12, sec_o6_ts, sec_o6_nots,
     sec_coherence, sec_rst, sec_st11, sec_ecn_cc]"

fun run_stages :: "stage list \<Rightarrow> tcp_ctx \<Rightarrow> egress \<Rightarrow> egress option" where
  "run_stages [] cx s = Some s"
| "run_stages (f # fs) cx s = f cx s \<bind> run_stages fs cx"

definition applyTCP :: "win_profile \<Rightarrow> syn_cache \<Rightarrow> clock \<Rightarrow> nat \<Rightarrow> bytes \<Rightarrow> nat \<Rightarrow> egress option" where
  "applyTCP p cache clk reads pkt ihl =
     (let s0 = \<lparr>eg_pkt = pkt, eg_tcpHL = 0, eg_optLen = 0, eg_modified = False, eg_reads = reads\<rparr> in
      if length pkt < ihl then None \<comment> \<open>\<open>pkt[ihl:]\<close> panics\<close>
      else if length pkt - ihl < 20 then Some s0
      else do {
        off \<leftarrow> rd8 pkt (ihl + 12);
        let tcpHL = tcp_hl off;
        if tcpHL < 20 \<or> length pkt - ihl < tcpHL then Some s0 else do {
          flags \<leftarrow> rd8 pkt (ihl + 13);
          flow \<leftarrow> (if isSYNACK flags then lookupSynFlow (clk reads) pkt ihl cache else Some None);
          run_stages tcp_stages
            \<lparr>cx_ihl = ihl, cx_prof = p, cx_flags = flags, cx_flow = flow, cx_clk = clk\<rparr>
            (s0\<lparr>eg_tcpHL := tcpHL, eg_optLen := tcpHL - 20, eg_reads := reads + 1\<rparr>)
        }})"

end
