(* ===== verification/Egress_Header.thy ===== *)
theory Egress_Header
  imports Egress_Tcp
begin

text \<open>
  What every stage of \<open>applyTCP\<close> keeps: the local variables describe the packet (\<open>hdr_ok\<close>), and
  nothing outside the mutable header fields changes (\<open>frame\<close>).  The contract of a stage is the
  locale \<open>tcp_stage\<close>; each section of the code interprets it, and a pipeline of such stages
  satisfies it again.
\<close>

section \<open>Invariant and frame\<close>

definition hdr_ok :: "nat \<Rightarrow> egress \<Rightarrow> bool" where
  "hdr_ok ihl s \<longleftrightarrow> 20 \<le> ihl \<and> eg_tcpHL s = 20 + eg_optLen s \<and>
     ihl + eg_tcpHL s \<le> length (eg_pkt s) \<and> tcp_hl (eg_pkt s ! (ihl + 12)) = eg_tcpHL s"

definition total_length_ok :: "bytes \<Rightarrow> bool" where
  "total_length_ok pkt \<longleftrightarrow> be16 (pkt ! 2) (pkt ! 3) = of_nat (length pkt)"

text \<open>The length field is the one of the other packet, which is as long.\<close>

definition same_length :: "bytes \<Rightarrow> bytes \<Rightarrow> bool" where
  "same_length pkt q \<longleftrightarrow> q ! 2 = pkt ! 2 \<and> q ! 3 = pkt ! 3 \<and> length q = length pkt"

lemma same_length_refl [simp]: "same_length pkt pkt"
  by (simp add: same_length_def)

lemma same_length_trans: "same_length a b \<Longrightarrow> same_length b c \<Longrightarrow> same_length a c"
  by (simp add: same_length_def)

lemma same_length_total: "same_length a b \<Longrightarrow> total_length_ok b = total_length_ok a"
  by (simp add: same_length_def total_length_ok_def)

text \<open>The frame: the IP header but its length field, ports, sequence and acknowledgement numbers,
  the reserved bits, checksum, urgent pointer and payload stay; the total length is written anew whenever
  the packet is resized; and a packet that changed is reported as modified.\<close>

definition frame :: "nat \<Rightarrow> egress \<Rightarrow> egress \<Rightarrow> bool" where
  "frame ihl s s' \<longleftrightarrow>
     (\<forall>j. j < ihl + 12 \<and> j \<noteq> 2 \<and> j \<noteq> 3 \<longrightarrow> eg_pkt s' ! j = eg_pkt s ! j) \<and>
     (\<forall>j. 16 \<le> j \<and> j < 20 \<longrightarrow> eg_pkt s' ! (ihl + j) = eg_pkt s ! (ihl + j)) \<and>
     eg_pkt s' ! (ihl + 12) AND 0x0f = eg_pkt s ! (ihl + 12) AND 0x0f \<and>
     drop (ihl + eg_tcpHL s') (eg_pkt s') = drop (ihl + eg_tcpHL s) (eg_pkt s) \<and>
     (same_length (eg_pkt s) (eg_pkt s') \<or> total_length_ok (eg_pkt s')) \<and>
     (eg_pkt s' \<noteq> eg_pkt s \<or> eg_modified s \<longrightarrow> eg_modified s')"

definition stage_ok :: "nat \<Rightarrow> egress \<Rightarrow> egress option \<Rightarrow> bool" where
  "stage_ok ihl s r \<longleftrightarrow> (\<exists>s'. r = Some s' \<and> hdr_ok ihl s' \<and> frame ihl s s')"

lemma frame_refl [simp]: "frame ihl s s"
  by (simp add: frame_def)

lemma frame_trans: "frame ihl a b \<Longrightarrow> frame ihl b c \<Longrightarrow> frame ihl a c"
  using same_length_trans [of "eg_pkt a" "eg_pkt b" "eg_pkt c"] same_length_total [of "eg_pkt b" "eg_pkt c"]
  by (auto simp: frame_def)

lemma frame_low: "frame ihl s s' \<Longrightarrow> j < ihl + 12 \<Longrightarrow> j \<noteq> 2 \<Longrightarrow> j \<noteq> 3 \<Longrightarrow> eg_pkt s' ! j = eg_pkt s ! j"
  by (simp add: frame_def)

lemma frame_mid: "frame ihl s s' \<Longrightarrow> 16 \<le> j \<Longrightarrow> j < 20 \<Longrightarrow> eg_pkt s' ! (ihl + j) = eg_pkt s ! (ihl + j)"
  by (simp add: frame_def)

lemma frame_payload:
  "frame ihl s s' \<Longrightarrow> drop (ihl + eg_tcpHL s') (eg_pkt s') = drop (ihl + eg_tcpHL s) (eg_pkt s)"
  by (simp add: frame_def)

lemma frame_total: "frame ihl s s' \<Longrightarrow> total_length_ok (eg_pkt s) \<Longrightarrow> total_length_ok (eg_pkt s')"
  using same_length_total [of "eg_pkt s" "eg_pkt s'"] by (auto simp: frame_def)

lemma frame_length: "frame ihl s s' \<Longrightarrow> same_length (eg_pkt s) (eg_pkt s') \<or> total_length_ok (eg_pkt s')"
  by (simp add: frame_def)

lemma frame_modified: "frame ihl s s' \<Longrightarrow> eg_pkt s' \<noteq> eg_pkt s \<Longrightarrow> eg_modified s'"
  by (simp add: frame_def)

lemma hdr_ok_reads [simp]: "hdr_ok ihl (s\<lparr>eg_reads := r\<rparr>) = hdr_ok ihl s"
  by (simp add: hdr_ok_def)

lemma frame_reads [simp]: "frame ihl (s\<lparr>eg_reads := r\<rparr>) t = frame ihl s t"
  by (simp add: frame_def)

lemma stage_ok_reads [simp]: "stage_ok ihl (s\<lparr>eg_reads := r\<rparr>) m = stage_ok ihl s m"
  by (simp add: stage_ok_def)

named_theorems stage_intros \<open>rules that establish the contract of a stage\<close>

lemma stage_ok_skip [stage_intros]: "hdr_ok ihl s \<Longrightarrow> stage_ok ihl s (Some s)"
  by (auto simp: stage_ok_def)

lemma stage_ok_bind:
  assumes "stage_ok ihl s m"
    and "\<And>s'. m = Some s' \<Longrightarrow> hdr_ok ihl s' \<Longrightarrow> frame ihl s s' \<Longrightarrow> stage_ok ihl s' (f s')"
  shows "stage_ok ihl s (m \<bind> f)"
proof -
  from assms(1) obtain s' where s': "m = Some s'" "hdr_ok ihl s'" "frame ihl s s'"
    by (auto simp: stage_ok_def)
  from assms(2) [OF s'] show ?thesis
    using s' by (auto simp: stage_ok_def intro: frame_trans)
qed

lemma stage_ok_if [stage_intros]:
  "(c \<Longrightarrow> stage_ok ihl s a) \<Longrightarrow> (\<not> c \<Longrightarrow> stage_ok ihl s b) \<Longrightarrow> stage_ok ihl s (if c then a else b)"
  by simp

section \<open>The primitive steps\<close>

lemma tcp_put_eq:
  "ihl + i + length xs \<le> length (eg_pkt s) \<Longrightarrow>
    tcp_put ihl i xs s = Some (s\<lparr>eg_pkt := overwrite (eg_pkt s) (ihl + i) xs, eg_modified := True\<rparr>)"
  by (simp add: tcp_put_def panic_free)

lemma tcp_put_ok:
  assumes ok: "hdr_ok ihl s"
    and range: "(13 \<le> i \<and> i + length xs \<le> 16) \<or> (20 \<le> i \<and> i + length xs \<le> eg_tcpHL s)"
  shows "stage_ok ihl s (tcp_put ihl i xs s)"
proof -
  have b: "ihl + i + length xs \<le> length (eg_pkt s)"
    using assms by (auto simp: hdr_ok_def)
  let ?s = "s\<lparr>eg_pkt := overwrite (eg_pkt s) (ihl + i) xs, eg_modified := True\<rparr>"
  have low: "eg_pkt ?s ! j = eg_pkt s ! j" if "j \<le> ihl + 12" for j
    using range b that ok by (auto simp: hdr_ok_def intro!: nth_overwrite_out)
  have mid: "eg_pkt ?s ! (ihl + j) = eg_pkt s ! (ihl + j)" if "16 \<le> j" "j < 20" for j
    using range b that ok by (auto simp: hdr_ok_def intro!: nth_overwrite_out)
  have pay: "drop (ihl + eg_tcpHL s) (eg_pkt ?s) = drop (ihl + eg_tcpHL s) (eg_pkt s)"
    using range b ok by (auto simp: hdr_ok_def intro!: drop_overwrite)
  have len: "length (eg_pkt ?s) = length (eg_pkt s)"
    using b by simp
  have "same_length (eg_pkt s) (eg_pkt ?s)"
    using low [of 2] low [of 3] ok len by (simp add: same_length_def hdr_ok_def)
  then have "frame ihl s ?s"
    using low mid pay by (auto simp: frame_def)
  moreover have "hdr_ok ihl ?s"
    using ok low [of "ihl + 12"] len by (simp add: hdr_ok_def)
  ultimately show ?thesis
    by (simp add: stage_ok_def tcp_put_eq [OF b])
qed

lemma low_nibble_set: "((b AND 0x0f) OR push_bit 4 x) AND 0x0f = b AND (0x0f :: byte)"
proof -
  have m: "(0x0f :: byte) = mask 4"
    by (simp add: mask_eq_exp_minus_1)
  show ?thesis
    unfolding m by (rule bit_word_eqI) (auto simp: bit_simps)
qed

lemma high_nibble_set:
  assumes "k < 16"
  shows "drop_bit 4 ((b AND 0x0f) OR push_bit 4 (of_nat k)) = (of_nat k :: byte)"
proof -
  have m: "(0x0f :: byte) = mask 4"
    by (simp add: mask_eq_exp_minus_1)
  have "unat (of_nat k :: byte) < 2 ^ 4"
    using assms by (simp add: unat_of_nat)
  then have "of_nat k < (2 ^ 4 :: byte)"
    by (simp add: word_less_nat_alt)
  then have k: "of_nat k AND mask 4 = (of_nat k :: byte)"
    by (rule less_mask_eq)
  have "drop_bit 4 ((b AND mask 4) OR push_bit 4 (of_nat k)) = of_nat k AND (mask 4 :: byte)"
    by (rule bit_word_eqI) (auto simp: bit_simps)
  with k m show ?thesis by simp
qed

lemma tcp_hl_set:
  assumes "n mod 4 = 0" and "n \<le> 60"
  shows "tcp_hl ((b AND 0x0f) OR push_bit 4 (of_nat (n div 4))) = n"
proof -
  have lt: "n div 4 < 16" using assms by auto
  have "unat (drop_bit 4 ((b AND 0x0f) OR push_bit 4 (of_nat (n div 4))) :: byte) = n div 4"
    unfolding high_nibble_set [OF lt] using lt by (simp add: unat_of_nat)
  moreover have "n div 4 * 4 = n"
    using assms(1) div_mult_mod_eq [of n 4] by linarith
  ultimately show ?thesis
    by (simp only: tcp_hl_def)
qed

text \<open>The effect of rewriting the data offset and the total length of a resized packet.\<close>

lemma set_lengths_eq:
  assumes "20 \<le> ihl" and "ihl + 12 < length out"
  shows "set_lengths ihl n out = Some (overwrite
     (overwrite out (ihl + 12) [(out ! (ihl + 12) AND 0x0f) OR push_bit 4 (of_nat (n div 4))])
     2 (enc16 (of_nat (length out))))"
  using assms by (simp add: set_lengths_def panic_free)

lemma set_lengths_ok:
  assumes ihl: "20 \<le> ihl" "ihl + 20 \<le> length out"
    and n: "n mod 4 = 0" "20 \<le> n" "n \<le> 60" "ihl + n \<le> length out"
    and head: "take (ihl + 20) out = take (ihl + 20) (eg_pkt s)" and len: "ihl + 20 \<le> length (eg_pkt s)"
    and tail: "drop (ihl + n) out = drop (ihl + eg_tcpHL s) (eg_pkt s)"
  shows "\<exists>p. set_lengths ihl n out = Some p \<and> hdr_ok ihl (resize_to n p s) \<and>
     frame ihl s (resize_to n p s) \<and> total_length_ok p \<and> length p = length out \<and>
     (\<forall>j. ihl + 13 \<le> j \<and> j < length out \<longrightarrow> p ! j = out ! j)"
proof -
  let ?v = "(out ! (ihl + 12) AND 0x0f) OR push_bit 4 (of_nat (n div 4))"
  let ?o = "overwrite out (ihl + 12) [?v]"
  let ?p = "overwrite ?o 2 (enc16 (of_nat (length out)))"
  have lo: "length ?o = length out" "length ?p = length out"
    using ihl by simp_all
  have out_s: "out ! j = eg_pkt s ! j" if "j < ihl + 20" for j
    using that ihl len head by (metis nth_take)
  have p_out: "?p ! j = out ! j" if "j \<noteq> 2" "j \<noteq> 3" "j \<noteq> ihl + 12" "j < length out" for j
  proof -
    have "?p ! j = ?o ! j"
      using that ihl by (intro nth_overwrite_out) auto
    also have "\<dots> = out ! j"
      using that ihl by (intro nth_overwrite_out) auto
    finally show ?thesis .
  qed
  have off: "?p ! (ihl + 12) = ?v"
  proof -
    have "?p ! (ihl + 12) = ?o ! (ihl + 12)"
      using ihl by (intro nth_overwrite_out) auto
    also have "\<dots> = ?v"
      using ihl by (simp add: nth_overwrite_in)
    finally show ?thesis .
  qed
  have tot: "total_length_ok ?p"
  proof -
    have "?p ! 2 = ucast (drop_bit 8 (of_nat (length out) :: u16))"
      "?p ! 3 = ucast (of_nat (length out) :: u16)"
      using ihl by (simp_all add: nth_overwrite_in) (simp_all add: enc16_def)
    then show ?thesis
      by (simp add: total_length_ok_def lo)
  qed
  have dr: "drop (ihl + n) ?p = drop (ihl + eg_tcpHL s) (eg_pkt s)"
    using ihl n(2,4) tail by (simp add: drop_overwrite)
  have "hdr_ok ihl (resize_to n ?p s)"
    using ihl n by (simp add: hdr_ok_def resize_to_def lo off tcp_hl_set del: length_overwrite)
  moreover have "frame ihl s (resize_to n ?p s)"
  proof -
    have low: "?p ! j = eg_pkt s ! j" if "j < ihl + 12 \<and> j \<noteq> 2 \<and> j \<noteq> 3" for j
    proof -
      have "?p ! j = out ! j"
        using that ihl by (intro p_out) auto
      then show ?thesis
        using out_s [of j] that by simp
    qed
    have mid: "?p ! (ihl + j) = eg_pkt s ! (ihl + j)" if "16 \<le> j \<and> j < 20" for j
    proof -
      have "?p ! (ihl + j) = out ! (ihl + j)"
        using that ihl by (intro p_out) auto
      then show ?thesis
        using out_s [of "ihl + j"] that by simp
    qed
    have nib: "?p ! (ihl + 12) AND 0x0f = eg_pkt s ! (ihl + 12) AND 0x0f"
      unfolding off low_nibble_set using out_s [of "ihl + 12"] by simp
    have sel: "eg_pkt (resize_to n ?p s) = ?p" "eg_tcpHL (resize_to n ?p s) = n"
      and m: "eg_modified (resize_to n ?p s)"
      by (simp_all add: resize_to_def del: One_nat_def)
    show ?thesis
      unfolding frame_def sel using low mid nib dr tot m by blast
  qed
  ultimately show ?thesis
    using ihl tot lo p_out by (auto simp: set_lengths_eq simp del: length_overwrite)
qed

lemma grow_ok:
  assumes ok: "hdr_ok ihl s" and n: "n mod 4 = 0" "eg_tcpHL s < n" "n \<le> 60"
  shows "\<exists>p. growTCPHeader (eg_pkt s) ihl (eg_tcpHL s) n = Some p \<and>
     hdr_ok ihl (resize_to n p s) \<and> frame ihl s (resize_to n p s)"
proof -
  let ?hl = "eg_tcpHL s"
  let ?out = "take (ihl + ?hl) (eg_pkt s) @ replicate (n - ?hl) 0 @ drop (ihl + ?hl) (eg_pkt s)"
  have l: "20 \<le> ihl" "20 \<le> ?hl" "ihl + ?hl \<le> length (eg_pkt s)"
    using ok by (auto simp: hdr_ok_def)
  have "length ?out = length (eg_pkt s) + (n - ?hl)"
    using l by simp
  then have "\<exists>p. set_lengths ihl n ?out = Some p \<and> hdr_ok ihl (resize_to n p s) \<and> frame ihl s (resize_to n p s) \<and>
      total_length_ok p \<and> length p = length ?out \<and> (\<forall>j. ihl + 13 \<le> j \<and> j < length ?out \<longrightarrow> p ! j = ?out ! j)"
    using l n by (intro set_lengths_ok) (auto simp: min_def)
  then show ?thesis
    using l n by (auto simp: growTCPHeader_def)
qed

lemma shrink_ok:
  assumes ok: "hdr_ok ihl s" and n: "n mod 4 = 0" "n < eg_tcpHL s" "20 \<le> n" "n \<le> 60"
  shows "\<exists>p. shrinkTCPHeader (eg_pkt s) ihl (eg_tcpHL s) n = Some p \<and>
     hdr_ok ihl (resize_to n p s) \<and> frame ihl s (resize_to n p s)"
proof -
  let ?hl = "eg_tcpHL s"
  let ?out = "take (ihl + n) (eg_pkt s) @ drop (ihl + ?hl) (eg_pkt s)"
  have l: "20 \<le> ihl" "20 \<le> ?hl" "ihl + ?hl \<le> length (eg_pkt s)"
    using ok by (auto simp: hdr_ok_def)
  have "\<exists>p. set_lengths ihl n ?out = Some p \<and> hdr_ok ihl (resize_to n p s) \<and> frame ihl s (resize_to n p s) \<and>
      total_length_ok p \<and> length p = length ?out \<and> (\<forall>j. ihl + 13 \<le> j \<and> j < length ?out \<longrightarrow> p ! j = ?out ! j)"
    using l n by (intro set_lengths_ok) (auto simp: min_def)
  then show ?thesis
    using l n by (auto simp: shrinkTCPHeader_def)
qed

section \<open>The contract of a stage\<close>

locale tcp_stage =
  fixes run :: "tcp_ctx \<Rightarrow> egress \<Rightarrow> egress option"
  assumes keeps: "hdr_ok (cx_ihl cx) s \<Longrightarrow> stage_ok (cx_ihl cx) s (run cx s)"
begin

lemma no_panic: "hdr_ok (cx_ihl cx) s \<Longrightarrow> run cx s \<noteq> None"
  using keeps by (auto simp: stage_ok_def)

lemma keeps_hdr: "hdr_ok (cx_ihl cx) s \<Longrightarrow> run cx s = Some s' \<Longrightarrow> hdr_ok (cx_ihl cx) s'"
  using keeps by (fastforce simp: stage_ok_def)

lemma keeps_frame: "hdr_ok (cx_ihl cx) s \<Longrightarrow> run cx s = Some s' \<Longrightarrow> frame (cx_ihl cx) s s'"
  using keeps by (fastforce simp: stage_ok_def)

end

lemma hdr_tcpHL: "hdr_ok ihl s \<Longrightarrow> eg_tcpHL s = 20 + eg_optLen s"
  by (simp add: hdr_ok_def)

lemma grow_stage_ok:
  assumes "hdr_ok ihl s" "eg_tcpHL s = old" "n mod 4 = 0" "old < n" "n \<le> 60"
  shows "stage_ok ihl s (growTCPHeader (eg_pkt s) ihl old n \<bind> (\<lambda>out. Some (resize_to n out s)))"
  using grow_ok [of ihl s n] assms by (auto simp: stage_ok_def)

lemma shrink_stage_ok:
  assumes "hdr_ok ihl s" "eg_tcpHL s = old" "n mod 4 = 0" "n < old" "20 \<le> n" "old \<le> 60"
  shows "stage_ok ihl s (shrinkTCPHeader (eg_pkt s) ihl old n \<bind> (\<lambda>out. Some (resize_to n out s)))"
  using shrink_ok [of ihl s n] assms by (auto simp: stage_ok_def)

text \<open>Stores into the window or the flags, with or without the clock reading.\<close>

lemma window_put_ok [stage_intros]:
  "hdr_ok ihl s \<Longrightarrow> stage_ok ihl s (tcp_put ihl 14 (enc16 w) s)"
  by (rule tcp_put_ok) (auto simp: enc16_def)

lemma flags_put_ok [stage_intros]:
  "hdr_ok ihl s \<Longrightarrow> stage_ok ihl s (tcp_put ihl 13 [w] s)"
  by (rule tcp_put_ok) auto

lemma reads_put_ok:
  assumes "stage_ok ihl (s\<lparr>eg_reads := r\<rparr>) (tcp_put ihl i xs (s\<lparr>eg_reads := r\<rparr>))"
  shows "stage_ok ihl s (tcp_put ihl i xs (s\<lparr>eg_reads := r\<rparr>))"
  using assms by simp

lemma opts_put_ok:
  "hdr_ok ihl s \<Longrightarrow> 20 \<le> i \<Longrightarrow> i + length xs \<le> eg_tcpHL s \<Longrightarrow>
    stage_ok ihl s (tcp_put ihl i xs (s\<lparr>eg_reads := r\<rparr>))"
  by (rule reads_put_ok, rule tcp_put_ok) auto

lemma put_keeps_len: "tcp_put ihl i xs s = Some s' \<Longrightarrow> eg_optLen s' = eg_optLen s \<and> eg_tcpHL s' = eg_tcpHL s"
  by (auto simp: tcp_put_def elim!: bind_SomeE)

lemma length_mssOpt [simp]: "length (mssOpt m) = 4"
  by (simp add: mssOpt_def)

end
