(* ===== verification/Egress_Stages.thy ===== *)
theory Egress_Stages
  imports Egress_Header
begin

text \<open>
  Every section of \<open>applyTCP\<close> meets the contract \<open>tcp_stage\<close>, and so does their composition: the
  interpretations below discharge the contract for the code's eleven sections, and
  \<open>applyTCP_contract\<close> is what the callers of \<open>applyTCP\<close> rely on.
\<close>

section \<open>The sections\<close>

lemma length_templates [simp]:
  "length (xp_template u m) = 20" "length (win_nots_template p u m) = 20"
  "length (linux_template p u m a b) = 20" "length (win_ts_template p u m a b) = 20"
  "length (macos_template p m a b) = 20" "length (ecn_linux_options p u m) = 12"
  "length (win_syn12_options p u m) = 12" "length (o6_nots_options p m) = 8"
  by (simp_all add: xp_template_def win_nots_template_def linux_template_def win_ts_template_def
      macos_template_def ecn_linux_options_def win_syn12_options_def o6_nots_options_def
      putMSS_def wscaleOpt_def Let_def)

lemma expand_ok: "hdr_ok (cx_ihl cx) s \<Longrightarrow> stage_ok (cx_ihl cx) s (sec_expand cx s)"
  unfolding sec_expand_def Let_def
  by (intro stage_intros grow_stage_ok) (auto simp: hdr_tcpHL)

lemma window_ok: "hdr_ok (cx_ihl cx) s \<Longrightarrow> stage_ok (cx_ihl cx) s (sec_window cx s)"
  unfolding sec_window_def Let_def
  by (intro stage_intros)

lemma rst_ok: "hdr_ok (cx_ihl cx) s \<Longrightarrow> stage_ok (cx_ihl cx) s (sec_rst cx s)"
  unfolding sec_rst_def Let_def
  by (intro stage_intros)

lemma ecn_cc_ok: "hdr_ok (cx_ihl cx) s \<Longrightarrow> stage_ok (cx_ihl cx) s (sec_ecn_cc cx s)"
  unfolding sec_ecn_cc_def Let_def
  by (intro stage_ok_bind stage_intros)

lemma coherence_ok: "hdr_ok (cx_ihl cx) s \<Longrightarrow> stage_ok (cx_ihl cx) s (sec_coherence cx s)"
  unfolding sec_coherence_def Let_def
  by (intro stage_intros opts_put_ok) (auto simp: hdr_tcpHL)

lemma syn12_ok: "hdr_ok (cx_ihl cx) s \<Longrightarrow> stage_ok (cx_ihl cx) s (sec_syn12 cx s)"
  unfolding sec_syn12_def Let_def
  by (intro stage_intros tcp_put_ok) (auto simp: hdr_tcpHL)

lemma o6_ts_ok: "hdr_ok (cx_ihl cx) s \<Longrightarrow> stage_ok (cx_ihl cx) s (sec_o6_ts cx s)"
  unfolding sec_o6_ts_def Let_def
  by (intro stage_ok_bind stage_intros opts_put_ok)
    (auto simp: hdr_tcpHL dest!: put_keeps_len split: if_splits)

lemma o6_nots_ok: "hdr_ok (cx_ihl cx) s \<Longrightarrow> stage_ok (cx_ihl cx) s (sec_o6_nots cx s)"
  unfolding sec_o6_nots_def Let_def
  by (intro stage_ok_bind stage_intros tcp_put_ok shrink_stage_ok)
    (auto simp: hdr_tcpHL dest!: put_keeps_len split: if_splits)

lemma ecn_ok: "hdr_ok (cx_ihl cx) s \<Longrightarrow> stage_ok (cx_ihl cx) s (sec_ecn cx s)"
  unfolding sec_ecn_def Let_def
  by (intro stage_ok_bind stage_intros tcp_put_ok)
    (auto simp: hdr_tcpHL dest!: put_keeps_len split: if_splits)

lemma length_syn20_options [simp]: "length (fst (syn20_options cx r old)) = 20"
  by (simp add: syn20_options_def Let_def)

lemma want_syn20_options: "fst (snd (syn20_options cx r old)) \<in> {8, 12, 20}"
  by (simp add: syn20_options_def Let_def)

lemma patch_from_ok:
  "hdr_ok ihl s \<Longrightarrow> optLen = eg_optLen s \<Longrightarrow> 20 \<le> off \<Longrightarrow> stage_ok ihl s (patch_from clk ihl optLen off s)"
proof (induction clk ihl optLen off s rule: patch_from.induct)
  case (1 clk ihl optLen off s)
  note ok = 1(5-7)
  let ?o = "tcp8 ihl s (off + 1)"
  show ?case
  proof (cases "off + 10 \<le> 20 + optLen \<and> tcp8 ihl s off \<noteq> optEOL \<and> tcp8 ihl s off \<noteq> optNOP \<and> \<not> unat ?o < 2 \<and>
      tcp8 ihl s off = optTimestamp \<and> ?o = olenTimestamp")
    case True
    have "stage_ok ihl s (tcp_put ihl (off + 2) (enc32 (uptimeMs (clk (eg_reads s)))) (s\<lparr>eg_reads := eg_reads s + 1\<rparr>)
        \<bind> patch_from clk ihl optLen (off + unat ?o))"
      using ok True by (intro stage_ok_bind opts_put_ok 1(3)) (auto simp: hdr_tcpHL dest!: put_keeps_len)
    then show ?thesis
      using True by (subst patch_from.simps) (auto simp: Let_def opt_defs)
  next
    case False
    then show ?thesis
      using ok 1(1,2,4) by (subst patch_from.simps) (auto simp: Let_def intro: stage_intros)
  qed
qed

lemma st11_ok: "hdr_ok (cx_ihl cx) s \<Longrightarrow> stage_ok (cx_ihl cx) s (sec_st11 cx s)"
  unfolding sec_st11_def patchSynAckTSval_def Let_def
  by (intro stage_intros patch_from_ok) auto


lemma grow_then_ok:
  assumes "hdr_ok ihl s" "eg_tcpHL s = old" "n mod 4 = 0" "old < n" "n \<le> 60"
    and f: "\<And>s'. hdr_ok ihl s' \<Longrightarrow> eg_tcpHL s' = n \<Longrightarrow> stage_ok ihl s' (f s')"
  shows "stage_ok ihl s (growTCPHeader (eg_pkt s) ihl old n \<bind> (\<lambda>out. f (resize_to n out s)))"
proof -
  have "stage_ok ihl s ((growTCPHeader (eg_pkt s) ihl old n \<bind> (\<lambda>out. Some (resize_to n out s))) \<bind> f)"
  proof (rule stage_ok_bind)
    show "stage_ok ihl s (growTCPHeader (eg_pkt s) ihl old n \<bind> (\<lambda>out. Some (resize_to n out s)))"
      using assms by (intro grow_stage_ok)
  next
    fix s' assume "growTCPHeader (eg_pkt s) ihl old n \<bind> (\<lambda>out. Some (resize_to n out s)) = Some s'"
      and ok: "hdr_ok ihl s'"
    then have "eg_tcpHL s' = n"
      by (auto simp: resize_to_def elim!: bind_SomeE)
    with ok show "stage_ok ihl s' (f s')"
      by (rule f)
  qed
  then show ?thesis
    by simp
qed

lemma o44_ok:
  assumes "hdr_ok ihl s" "eg_tcpHL s = 40"
  shows "stage_ok ihl s (growTCPHeader (eg_pkt s) ihl 40 44 \<bind>
    (\<lambda>out. tcp_put ihl 40 [optSACKPerm, 2] (resize_to 44 out s) \<bind> tcp_put ihl 42 [optEOL, optEOL]))"
  using assms
  by (intro grow_then_ok [where f = "\<lambda>s. tcp_put ihl 40 [optSACKPerm, 2] s \<bind> tcp_put ihl 42 [optEOL, optEOL]"]
      stage_ok_bind tcp_put_ok) (auto dest!: put_keeps_len)

lemma syn20_ok: "hdr_ok (cx_ihl cx) s \<Longrightarrow> stage_ok (cx_ihl cx) s (sec_syn20 cx s)"
proof -
  assume ok: "hdr_ok (cx_ihl cx) s"
  let ?ihl = "cx_ihl cx"
  obtain no want r where o: "syn20_options cx (eg_reads s) (tcp_slice ?ihl s 20 40) = (no, want, r)"
    by (cases "syn20_options cx (eg_reads s) (tcp_slice ?ihl s 20 40)")
  have no: "length no = 20" and want: "want \<in> {8, 12, 20}"
    using length_syn20_options [of cx "eg_reads s" "tcp_slice ?ihl s 20 40"]
      want_syn20_options [of cx "eg_reads s" "tcp_slice ?ihl s 20 40"] by (simp_all add: o)
  show ?thesis
    unfolding sec_syn20_def Let_def o prod.case
    using ok no want
    by (intro stage_intros o44_ok stage_ok_bind opts_put_ok tcp_put_ok shrink_stage_ok)
      (auto simp: hdr_tcpHL resize_to_def dest!: put_keeps_len split: if_splits elim!: bind_SomeE)
qed

interpretation expand: tcp_stage sec_expand by unfold_locales (rule expand_ok)
interpretation window: tcp_stage sec_window by unfold_locales (rule window_ok)
interpretation syn20: tcp_stage sec_syn20 by unfold_locales (rule syn20_ok)
interpretation ecn: tcp_stage sec_ecn by unfold_locales (rule ecn_ok)
interpretation syn12: tcp_stage sec_syn12 by unfold_locales (rule syn12_ok)
interpretation o6_ts: tcp_stage sec_o6_ts by unfold_locales (rule o6_ts_ok)
interpretation o6_nots: tcp_stage sec_o6_nots by unfold_locales (rule o6_nots_ok)
interpretation coherence: tcp_stage sec_coherence by unfold_locales (rule coherence_ok)
interpretation rst: tcp_stage sec_rst by unfold_locales (rule rst_ok)
interpretation st11: tcp_stage sec_st11 by unfold_locales (rule st11_ok)
interpretation ecn_cc: tcp_stage sec_ecn_cc by unfold_locales (rule ecn_cc_ok)

section \<open>The pipeline\<close>

lemma run_stages_stage: "\<forall>f \<in> set fs. tcp_stage f \<Longrightarrow> tcp_stage (run_stages fs)"
proof (induction fs)
  case Nil
  show ?case
    by unfold_locales (simp add: stage_ok_skip)
next
  case (Cons f fs)
  have f: "tcp_stage f" and fs: "tcp_stage (run_stages fs)"
    using Cons by auto
  show ?case
  proof
    fix cx :: tcp_ctx and s :: egress
    assume "hdr_ok (cx_ihl cx) s"
    then show "stage_ok (cx_ihl cx) s (run_stages (f # fs) cx s)"
      using tcp_stage.keeps [OF f] tcp_stage.keeps [OF fs] by (auto intro: stage_ok_bind)
  qed
qed

interpretation pipeline: tcp_stage "run_stages tcp_stages"
  by (rule run_stages_stage)
    (simp add: tcp_stages_def expand.tcp_stage_axioms window.tcp_stage_axioms syn20.tcp_stage_axioms
      ecn.tcp_stage_axioms syn12.tcp_stage_axioms o6_ts.tcp_stage_axioms o6_nots.tcp_stage_axioms
      coherence.tcp_stage_axioms rst.tcp_stage_axioms st11.tcp_stage_axioms ecn_cc.tcp_stage_axioms)

text \<open>The packets whose TCP header \<open>applyTCP\<close> rewrites; it leaves the others alone.\<close>

definition tcp_wf :: "bytes \<Rightarrow> nat \<Rightarrow> bool" where
  "tcp_wf pkt ihl \<longleftrightarrow> ihl + 20 \<le> length pkt \<and> 20 \<le> tcp_hl (pkt ! (ihl + 12)) \<and>
     ihl + tcp_hl (pkt ! (ihl + 12)) \<le> length pkt"

definition tcp_flow :: "syn_cache \<Rightarrow> u64 \<Rightarrow> bytes \<Rightarrow> nat \<Rightarrow> syn_flow option" where
  "tcp_flow cache now pkt ihl =
     (if isSYNACK (pkt ! (ihl + 13)) then the (lookupSynFlow now pkt ihl cache) else None)"

definition tcp_start :: "nat \<Rightarrow> bytes \<Rightarrow> nat \<Rightarrow> egress" where
  "tcp_start reads pkt ihl =
     \<lparr>eg_pkt = pkt, eg_tcpHL = tcp_hl (pkt ! (ihl + 12)), eg_optLen = tcp_hl (pkt ! (ihl + 12)) - 20,
      eg_modified = False, eg_reads = reads + 1\<rparr>"

definition tcp_context :: "win_profile \<Rightarrow> syn_cache \<Rightarrow> clock \<Rightarrow> nat \<Rightarrow> bytes \<Rightarrow> nat \<Rightarrow> tcp_ctx" where
  "tcp_context p cache clk reads pkt ihl =
     \<lparr>cx_ihl = ihl, cx_prof = p, cx_flags = pkt ! (ihl + 13),
      cx_flow = tcp_flow cache (clk reads) pkt ihl, cx_clk = clk\<rparr>"

lemma tcp_start_sel [simp]:
  "eg_pkt (tcp_start reads pkt ihl) = pkt" "eg_modified (tcp_start reads pkt ihl) = False"
  "eg_tcpHL (tcp_start reads pkt ihl) = tcp_hl (pkt ! (ihl + 12))"
  by (simp_all add: tcp_start_def)

lemma applyTCP_skip:
  "ihl \<le> length pkt \<Longrightarrow> \<not> tcp_wf pkt ihl \<Longrightarrow> applyTCP p cache clk reads pkt ihl =
     Some \<lparr>eg_pkt = pkt, eg_tcpHL = 0, eg_optLen = 0, eg_modified = False, eg_reads = reads\<rparr>"
  by (auto simp: applyTCP_def tcp_wf_def panic_free Let_def)

lemma applyTCP_wf:
  "tcp_wf pkt ihl \<Longrightarrow> 20 \<le> ihl \<Longrightarrow> applyTCP p cache clk reads pkt ihl =
     run_stages tcp_stages (tcp_context p cache clk reads pkt ihl) (tcp_start reads pkt ihl)"
  by (auto simp: applyTCP_def tcp_wf_def panic_free Let_def tcp_context_def tcp_start_def tcp_flow_def
      lookupSynFlow_key)

lemma tcp_start_ok: "tcp_wf pkt ihl \<Longrightarrow> 20 \<le> ihl \<Longrightarrow> hdr_ok ihl (tcp_start reads pkt ihl)"
  by (simp add: tcp_wf_def hdr_ok_def tcp_start_def)

lemma applyTCP_contract:
  assumes "tcp_wf pkt ihl" "20 \<le> ihl"
  shows "stage_ok ihl (tcp_start reads pkt ihl) (applyTCP p cache clk reads pkt ihl)"
  using pipeline.keeps [of "tcp_context p cache clk reads pkt ihl"] tcp_start_ok [OF assms]
  by (simp add: applyTCP_wf [OF assms] tcp_context_def)

end
