(* ===== verification/Egress.thy ===== *)
theory Egress
  imports Egress_Stages
begin

text \<open>
  \<open>applyEgress\<close>, \<open>applyICMP\<close>, \<open>applyPortUnreachable\<close> and the \<open>ipidState\<close> counters of
  \<open>internal/stack/backend_windows.go\<close>, with the step of the packet loop.  An \<open>out\<close> value is the
  packet with the \<open>modified\<close> flag; every store is range-checked, \<open>None\<close> is a Go panic.
\<close>

section \<open>Model\<close>

record ipid_state =
  ip_counter :: u16
  ip_seed :: u32

definition xorshift :: "u32 \<Rightarrow> u32" where
  "xorshift s0 =
     (let s = s0 XOR push_bit 13 s0;
          s = s XOR drop_bit 17 s
      in s XOR push_bit 5 s)"

definition next_ipid :: "win_profile \<Rightarrow> byte \<Rightarrow> ipid_state \<Rightarrow> u16 \<times> ipid_state" where
  "next_ipid p proto st =
     (if wp_winQuirks p then
        if wp_ipidBehavior p = ipidZero then (0, st)
        else if wp_ipidBehavior p = ipidRandom then
          (let s = xorshift (ip_seed st) in (ucast s, st\<lparr>ip_seed := s\<rparr>))
        else (let c = ip_counter st + 1 in (c, st\<lparr>ip_counter := c\<rparr>))
      else if proto = 1 then (let c = ip_counter st + 1 in (c, st\<lparr>ip_counter := c\<rparr>))
      else (0, st))"

type_synonym out = "bytes \<times> bool"

definition put_ttl :: "win_profile \<Rightarrow> out \<Rightarrow> out option" where
  "put_ttl p = (\<lambda>(pkt, m). do {
     ttl \<leftarrow> rd8 pkt 8;
     if wp_ttl p > 0 \<and> ttl \<noteq> wp_ttl p then do { pkt' \<leftarrow> wr8 pkt 8 (wp_ttl p); Some (pkt', True) }
     else Some (pkt, m) })"

definition put_df :: "bool \<Rightarrow> out \<Rightarrow> out option" where
  "put_df df = (\<lambda>(pkt, m). do {
     fo \<leftarrow> rd16 pkt 6;
     if (fo AND 0x4000 \<noteq> 0) \<noteq> df then do {
       pkt' \<leftarrow> wr16 pkt 6 (if df then fo OR 0x4000 else fo AND NOT 0x4000);
       Some (pkt', True) }
     else Some (pkt, m) })"

definition put_ipid :: "u16 \<Rightarrow> out \<Rightarrow> out option" where
  "put_ipid newID = (\<lambda>(pkt, m). do {
     cur \<leftarrow> rd16 pkt 4;
     if cur \<noteq> newID then do { pkt' \<leftarrow> wr16 pkt 4 newID; Some (pkt', True) } else Some (pkt, m) })"

definition applyPortUnreachable :: "nat \<Rightarrow> win_profile \<Rightarrow> out \<Rightarrow> out option" where
  "applyPortUnreachable ihl p = (\<lambda>(pkt, m).
     if length pkt < ihl + 8 then Some (pkt, m) else put_ttl p (pkt, m) \<bind> put_df False)"

definition applyICMP :: "nat \<Rightarrow> bool \<Rightarrow> out \<Rightarrow> out option" where
  "applyICMP ihl winQuirks out = do {
     (pkt, m) \<leftarrow> put_df False out;
     if winQuirks \<and> length pkt \<ge> ihl + 2 then do {
       ty \<leftarrow> rd8 pkt ihl;
       code \<leftarrow> rd8 pkt (ihl + 1);
       if ty = 0 \<and> code \<noteq> 0 then do { pkt' \<leftarrow> wr8 pkt (ihl + 1) 0; Some (pkt', True) }
       else Some (pkt, m) }
     else Some (pkt, m) }"

definition isU1 :: "bytes \<Rightarrow> nat \<Rightarrow> bool" where
  "isU1 pkt ihl \<longleftrightarrow> length pkt \<ge> ihl + 2 \<and> pkt ! ihl = 3 \<and> pkt ! (ihl + 1) = 3"

definition egress_dispatch ::
  "win_profile \<Rightarrow> syn_cache \<Rightarrow> clock \<Rightarrow> nat \<Rightarrow> byte \<Rightarrow> nat \<Rightarrow> out \<Rightarrow> out option" where
  "egress_dispatch p cache clk reads proto ihl = (\<lambda>(pkt, m).
     if proto = 6 then do {
       s \<leftarrow> applyTCP p cache clk reads pkt ihl;
       Some (eg_pkt s, m \<or> eg_modified s) }
     else if proto = 1 then
       if isU1 pkt ihl then applyPortUnreachable ihl p (pkt, m)
       else applyICMP ihl (wp_winQuirks p) (pkt, m)
     else Some (pkt, m))"

definition applyEgress ::
  "win_profile \<Rightarrow> syn_cache \<Rightarrow> clock \<Rightarrow> nat \<Rightarrow> ipid_state \<Rightarrow> bytes \<Rightarrow> (out \<times> ipid_state) option" where
  "applyEgress p cache clk reads st pkt =
     (if length pkt < 20 then Some ((pkt, False), st) else do {
        b0 \<leftarrow> rd8 pkt 0;
        if drop_bit 4 b0 \<noteq> 4 then Some ((pkt, False), st) else do {
          proto \<leftarrow> rd8 pkt 9;
          out1 \<leftarrow> put_ttl p (pkt, False);
          out2 \<leftarrow> put_df (wp_dfBit p) out1;
          let (newID, st') = next_ipid p proto st;
          out3 \<leftarrow> put_ipid newID out2;
          b0' \<leftarrow> rd8 (fst out3) 0;
          let ihl = ip_hl b0';
          if ihl < 20 then Some (out3, st') else do {
            out4 \<leftarrow> egress_dispatch p cache clk reads proto ihl out3;
            Some (out4, st') }}})"

section \<open>The outer header\<close>

text \<open>The packet the dispatch sees: the profile's TTL and DF bit and the new identification.\<close>

definition fo_df :: "bool \<Rightarrow> u16 \<Rightarrow> u16" where
  "fo_df df fo = (if df then fo OR 0x4000 else fo AND NOT 0x4000)"

definition outer :: "win_profile \<Rightarrow> u16 \<Rightarrow> bytes \<Rightarrow> bytes" where
  "outer p newID pkt = take 4 pkt @ enc16 newID @ enc16 (fo_df (wp_dfBit p) (be16 (pkt ! 6) (pkt ! 7))) @
     [if wp_ttl p > 0 then wp_ttl p else pkt ! 8] @ drop 9 pkt"

lemma ip_header_cases:
  assumes "20 \<le> length (pkt :: bytes)"
  obtains a b c d e f g h i j r where "pkt = a # b # c # d # e # f # g # h # i # j # r" "10 \<le> length r"
proof -
  have "\<exists>a b c d e f g h i j r. pkt = a # b # c # d # e # f # g # h # i # j # r \<and> 10 \<le> length r"
    using assms by (auto simp: numeral_eq_Suc Suc_le_length_iff)
  then show ?thesis using that by blast
qed

lemma bit_4000 [simp]: "bit (0x4000 :: int) n \<longleftrightarrow> n = 14"
proof -
  have "(0x4000 :: int) = 2 ^ 14"
    by simp
  then show ?thesis
    by (simp only: bit_exp_iff) (auto simp: possible_bit_def)
qed

lemma fo_df_bit: "bit (fo_df df fo) n = (if n = 14 then df else bit fo n)"
  unfolding fo_df_def by (auto simp: bit_simps dest: bit_imp_le_length)

lemma fo_bits: "bit fo 14 = df \<Longrightarrow> fo_df df fo = fo"
  by (rule bit_word_eqI) (auto simp: fo_df_bit)

lemma and_4000: "fo AND 0x4000 = 0 \<longleftrightarrow> \<not> bit fo 14" for fo :: u16
proof
  assume "fo AND 0x4000 = 0"
  then have "\<not> bit (fo AND 0x4000) 14"
    by simp
  then show "\<not> bit fo 14"
    by (simp add: bit_and_iff)
next
  assume "\<not> bit fo 14"
  then show "fo AND 0x4000 = 0"
    by (intro bit_word_eqI) (auto simp: bit_and_iff)
qed

lemma enc16_eq: "enc16 v = [ucast (drop_bit 8 v), ucast v]"
  by (simp add: enc16_def)

lemma enc16_inj: "enc16 v = [g, h] \<Longrightarrow> v = be16 g h"
  using be16_enc16 [of v] by (auto simp: enc16_eq)

lemma put_ttl_eq:
  "20 \<le> length pkt \<Longrightarrow> put_ttl p (pkt, m) =
     (let q = overwrite pkt 8 [if wp_ttl p > 0 then wp_ttl p else pkt ! 8] in Some (q, m \<or> q \<noteq> pkt))"
  by (erule ip_header_cases) (auto simp: put_ttl_def Let_def panic_free overwrite_def)

lemma put_df_eq:
  "20 \<le> length pkt \<Longrightarrow> put_df df (pkt, m) =
     (let q = overwrite pkt 6 (enc16 (fo_df df (be16 (pkt ! 6) (pkt ! 7)))) in Some (q, m \<or> q \<noteq> pkt))"
proof (erule ip_header_cases)
  fix a b c d e f g h i j r
  assume p: "pkt = a # b # c # d # e # f # g # h # i # j # r" and l: "10 \<le> length r"
  let ?fo = "be16 g h"
  show ?thesis
  proof (cases "bit ?fo 14 = df")
    case True
    then show ?thesis
      using l by (auto simp: p put_df_def Let_def panic_free overwrite_def enc16_be16 fo_bits and_4000)
  next
    case False
    have "fo_df df ?fo \<noteq> ?fo"
      using False fo_df_bit [of df ?fo 14] by metis
    then have "enc16 (fo_df df ?fo) \<noteq> [g, h]"
      using enc16_inj by blast
    moreover have "(if df then ?fo OR 0x4000 else ?fo AND NOT 0x4000) = fo_df df ?fo"
      by (simp add: fo_df_def)
    ultimately show ?thesis
      using l False by (auto simp: p put_df_def Let_def panic_free overwrite_def and_4000 enc16_eq)
  qed
qed

lemma put_ipid_eq:
  "20 \<le> length pkt \<Longrightarrow> put_ipid v (pkt, m) =
     (let q = overwrite pkt 4 (enc16 v) in Some (q, m \<or> q \<noteq> pkt))"
proof (erule ip_header_cases)
  fix a b c d e f g h i j r
  assume p: "pkt = a # b # c # d # e # f # g # h # i # j # r" and l: "10 \<le> length r"
  show ?thesis
    using l enc16_inj [of v e f] enc16_be16 [of e f, unfolded enc16_eq]
    by (cases "be16 e f = v") (auto simp: p put_ipid_def Let_def panic_free overwrite_def enc16_eq)
qed

lemma length_outer [simp]: "20 \<le> length pkt \<Longrightarrow> length (outer p v pkt) = length pkt"
  by (simp add: outer_def)

lemma applyEgress_head:
  assumes "20 \<le> length pkt"
  shows "(put_ttl p (pkt, False) \<bind> put_df (wp_dfBit p)) \<bind> put_ipid v =
    Some (outer p v pkt, outer p v pkt \<noteq> pkt)"
proof (rule ip_header_cases [OF assms])
  fix a b c d e f g h i j r
  assume p: "pkt = a # b # c # d # e # f # g # h # i # j # r" and l: "10 \<le> length r"
  show ?thesis
    using l by (auto simp: p put_ttl_eq put_df_eq put_ipid_eq Let_def overwrite_def outer_def enc16_eq)
qed

lemma nth_outer:
  assumes "20 \<le> length pkt"
  shows "j < 4 \<or> 9 \<le> j \<Longrightarrow> outer p v pkt ! j = pkt ! j"
    and "outer p v pkt ! 8 = (if wp_ttl p > 0 then wp_ttl p else pkt ! 8)"
    and "be16 (outer p v pkt ! 4) (outer p v pkt ! 5) = v"
    and "be16 (outer p v pkt ! 6) (outer p v pkt ! 7) = fo_df (wp_dfBit p) (be16 (pkt ! 6) (pkt ! 7))"
proof -
  show "outer p v pkt ! j = pkt ! j" if "j < 4 \<or> 9 \<le> j"
    using assms that by (auto simp: outer_def nth_append min_def enc16_eq nth_Cons')
  show "outer p v pkt ! 8 = (if wp_ttl p > 0 then wp_ttl p else pkt ! 8)"
    and "be16 (outer p v pkt ! 4) (outer p v pkt ! 5) = v"
    and "be16 (outer p v pkt ! 6) (outer p v pkt ! 7) = fo_df (wp_dfBit p) (be16 (pkt ! 6) (pkt ! 7))"
    using assms by (simp_all add: outer_def nth_append min_def enc16_eq)
qed

lemma applyEgress_ipv4:
  assumes len: "20 \<le> length pkt" and v4: "drop_bit 4 (pkt ! 0) = 4"
    and id: "next_ipid p (pkt ! 9) st = (v, st')"
  shows "applyEgress p cache clk reads st pkt =
    (if ip_hl (pkt ! 0) < 20 then Some ((outer p v pkt, outer p v pkt \<noteq> pkt), st')
     else egress_dispatch p cache clk reads (pkt ! 9) (ip_hl (pkt ! 0)) (outer p v pkt, outer p v pkt \<noteq> pkt)
       \<bind> (\<lambda>out. Some (out, st')))"
proof -
  obtain o1 o2 where o1: "put_ttl p (pkt, False) = Some o1" and o2: "put_df (wp_dfBit p) o1 = Some o2"
    and o3: "put_ipid v o2 = Some (outer p v pkt, outer p v pkt \<noteq> pkt)"
    using applyEgress_head [OF len, of p v] by (auto elim!: bind_SomeE)
  show ?thesis
    using len v4 id o1 o2 o3 nth_outer(1) [OF len, of 0]
    by (simp add: applyEgress_def panic_free Let_def)
qed

lemma applyEgress_other:
  "length pkt < 20 \<or> drop_bit 4 (pkt ! 0) \<noteq> 4 \<Longrightarrow> applyEgress p cache clk reads st pkt = Some ((pkt, False), st)"
  by (auto simp: applyEgress_def panic_free)

lemma applyPortUnreachable_eq:
  assumes "20 \<le> length pkt" "wp_ttl p > 0 \<Longrightarrow> pkt ! 8 = wp_ttl p"
  shows "applyPortUnreachable ihl p (pkt, m) =
    (if length pkt < ihl + 8 then Some (pkt, m) else put_df False (pkt, m))"
proof -
  have "overwrite pkt 8 [if wp_ttl p > 0 then wp_ttl p else pkt ! 8] = pkt"
    using assms by (intro nth_equalityI) (auto simp: nth_overwrite_in overwrite_def nth_append min_def nth_Cons')
  then show ?thesis
    using assms(1) by (simp add: applyPortUnreachable_def put_ttl_eq Let_def)
qed

lemma put_df_SomeD:
  assumes "20 \<le> length pkt" "put_df df (pkt, m) = Some (q, m')"
  shows "length q = length pkt" "\<And>j. j \<noteq> 6 \<Longrightarrow> j \<noteq> 7 \<Longrightarrow> j < length pkt \<Longrightarrow> q ! j = pkt ! j"
    "be16 (q ! 6) (q ! 7) = fo_df df (be16 (pkt ! 6) (pkt ! 7))" "m' = (m \<or> q \<noteq> pkt)"
proof -
  have q: "q = overwrite pkt 6 (enc16 (fo_df df (be16 (pkt ! 6) (pkt ! 7))))" "m' = (m \<or> q \<noteq> pkt)"
    using assms by (auto simp: put_df_eq Let_def)
  show "length q = length pkt" "m' = (m \<or> q \<noteq> pkt)"
    using q assms(1) by simp_all
  show "q ! j = pkt ! j" if "j \<noteq> 6" "j \<noteq> 7" "j < length pkt" for j
    using q assms(1) that by (auto intro!: nth_overwrite_out)
  show "be16 (q ! 6) (q ! 7) = fo_df df (be16 (pkt ! 6) (pkt ! 7))"
    using q assms(1) by (simp add: nth_overwrite_in) (simp add: enc16_eq)
qed

lemma applyICMP_SomeD:
  assumes len: "20 \<le> length pkt" "20 \<le> ihl" and "applyICMP ihl w (pkt, m) = Some (q, m')"
  shows "length q = length pkt" "\<And>j. j \<noteq> 6 \<Longrightarrow> j \<noteq> 7 \<Longrightarrow> j \<noteq> ihl + 1 \<Longrightarrow> j < length pkt \<Longrightarrow> q ! j = pkt ! j"
    "be16 (q ! 6) (q ! 7) = fo_df False (be16 (pkt ! 6) (pkt ! 7))" "q \<noteq> pkt \<or> m \<longrightarrow> m'"
proof -
  obtain q1 m1 where df: "put_df False (pkt, m) = Some (q1, m1)"
    and q: "(q = q1 \<and> m' = m1) \<or> (q = overwrite q1 (ihl + 1) [0] \<and> m' \<and> ihl + 2 \<le> length q1)"
    using assms(3) by (auto simp: applyICMP_def panic_free split: if_splits elim!: bind_SomeE)
  note d = put_df_SomeD [OF len(1) df]
  show "length q = length pkt" "q \<noteq> pkt \<or> m \<longrightarrow> m'"
    using q d by auto
  show "q ! j = pkt ! j" if "j \<noteq> 6" "j \<noteq> 7" "j \<noteq> ihl + 1" "j < length pkt" for j
    using q d(1) d(2) [of j] that by (cases "j < ihl + 1") (auto simp: nth_overwrite_out)
  show "be16 (q ! 6) (q ! 7) = fo_df False (be16 (pkt ! 6) (pkt ! 7))"
    using q d(1,3) len by (auto simp: nth_overwrite_out)
qed

lemma applyICMP_total: "20 \<le> length pkt \<Longrightarrow> \<exists>out. applyICMP ihl w (pkt, m) = Some out"
  by (auto simp: applyICMP_def put_df_eq Let_def panic_free)

lemma applyPortUnreachable_total: "20 \<le> length pkt \<Longrightarrow> \<exists>out. applyPortUnreachable ihl p (pkt, m) = Some out"
  by (auto simp: applyPortUnreachable_def put_df_eq put_ttl_eq Let_def panic_free)

lemma applyTCP_None_iff:
  "20 \<le> ihl \<Longrightarrow> applyTCP p cache clk reads pkt ihl = None \<longleftrightarrow> length pkt < ihl"
proof -
  assume ihl: "20 \<le> ihl"
  consider "length pkt < ihl" | "tcp_wf pkt ihl" | "ihl \<le> length pkt" "\<not> tcp_wf pkt ihl"
    using not_less by blast
  then show ?thesis
  proof cases
    case 1
    then show ?thesis by (simp add: applyTCP_def)
  next
    case 2
    then show ?thesis
      using applyTCP_contract [OF 2 ihl, of reads p cache clk] by (auto simp: stage_ok_def tcp_wf_def)
  next
    case 3
    then show ?thesis by (simp add: applyTCP_skip)
  qed
qed


text \<open>What the dispatch does to the IP header of a packet.\<close>

definition dispatch_ok :: "byte \<Rightarrow> nat \<Rightarrow> out \<Rightarrow> out \<Rightarrow> bool" where
  "dispatch_ok proto ihl = (\<lambda>(pkt, m) (q, m').
     (\<forall>j. j < ihl \<and> j < length pkt \<and> j \<notin> {2, 3, 6, 7} \<longrightarrow> q ! j = pkt ! j) \<and>
     (same_length pkt q \<or> proto = 6 \<and> total_length_ok q) \<and> (q \<noteq> pkt \<or> m \<longrightarrow> m') \<and>
     be16 (q ! 6) (q ! 7) = (if proto = 1 \<and> \<not> (isU1 pkt ihl \<and> length pkt < ihl + 8)
           then fo_df False (be16 (pkt ! 6) (pkt ! 7)) else be16 (pkt ! 6) (pkt ! 7)))"

lemma dispatch_ok_frame:
  assumes f: "frame ihl t s" and ihl: "20 \<le> ihl" and t: "eg_pkt t = pkt"
  shows "dispatch_ok 6 ihl (pkt, m) (eg_pkt s, m \<or> eg_modified s)"
proof -
  have k: "eg_pkt s ! j = pkt ! j" if "j < ihl" "j \<noteq> 2" "j \<noteq> 3" for j
    using frame_low [OF f, of j] that by (simp add: t)
  have m: "eg_pkt s \<noteq> pkt \<or> m \<longrightarrow> m \<or> eg_modified s"
    using frame_modified [OF f] t by blast
  have e: "eg_pkt s ! 6 = pkt ! 6" "eg_pkt s ! 7 = pkt ! 7"
    using k [of 6] k [of 7] ihl by simp_all
  have "\<forall>j. j < ihl \<and> j < length pkt \<and> j \<notin> {2, 3, 6, 7} \<longrightarrow> eg_pkt s ! j = pkt ! j"
    using k by blast
  then show ?thesis
    unfolding dispatch_ok_def using m e frame_length [OF f] t by simp
qed

lemma dispatch_tcp:
  assumes ihl: "20 \<le> ihl" and r: "applyTCP p cache clk reads pkt ihl = Some s"
  shows "dispatch_ok 6 ihl (pkt, m) (eg_pkt s, m \<or> eg_modified s)"
proof (cases "tcp_wf pkt ihl")
  case True
  from applyTCP_contract [OF True ihl, of reads p cache clk] r
  have "frame ihl (tcp_start reads pkt ihl) s"
    unfolding stage_ok_def by simp
  then show ?thesis
    using ihl by (rule dispatch_ok_frame) simp
next
  case False
  have "ihl \<le> length pkt"
    using r applyTCP_None_iff [OF ihl, of p cache clk reads pkt] by (simp add: not_less)
  from applyTCP_skip [OF this False, of p cache clk reads] r 
  have "eg_pkt s = pkt" "\<not> eg_modified s" by auto
  then show ?thesis
    by (simp add: dispatch_ok_def)
qed

lemma dispatch_result:
  assumes pkt: "20 \<le> length pkt" "20 \<le> ihl" and ttl: "wp_ttl p > 0 \<Longrightarrow> pkt ! 8 = wp_ttl p"
    and r: "egress_dispatch p cache clk reads proto ihl (pkt, m) = Some (q, m')"
  shows "dispatch_ok proto ihl (pkt, m) (q, m')"
proof -
  consider (tcp) "proto = 6" | (u1) "proto = 1" "isU1 pkt ihl" | (icmp) "proto = 1" "\<not> isU1 pkt ihl"
    | (other) "proto \<noteq> 6" "proto \<noteq> 1"
    by auto
  then show ?thesis
  proof cases
    case tcp
    then obtain s where "applyTCP p cache clk reads pkt ihl = Some s" "q = eg_pkt s" "m' = (m \<or> eg_modified s)"
      using r by (auto simp: egress_dispatch_def elim!: bind_SomeE)
    with tcp dispatch_tcp [OF pkt(2)] show ?thesis by simp
  next
    case u1
    show ?thesis
    proof (cases "length pkt < ihl + 8")
      case True
      with u1 r have "q = pkt" "m' = m"
        by (simp_all add: egress_dispatch_def applyPortUnreachable_def)
      with u1 True show ?thesis by (simp add: dispatch_ok_def)
    next
      case False
      with u1 r have "put_df False (pkt, m) = Some (q, m')"
        using applyPortUnreachable_eq [OF pkt(1), of p ihl m] ttl by (simp add: egress_dispatch_def)
      from put_df_SomeD [OF pkt(1) this] u1 False pkt(1) show ?thesis
        by (auto simp: dispatch_ok_def same_length_def)
    qed
  next
    case icmp
    then have "applyICMP ihl (wp_winQuirks p) (pkt, m) = Some (q, m')"
      using r by (simp add: egress_dispatch_def)
    from applyICMP_SomeD [OF pkt this] icmp pkt show ?thesis
      by (simp add: dispatch_ok_def same_length_def)
  next
    case other
    then show ?thesis
      using r by (simp add: egress_dispatch_def dispatch_ok_def)
  qed
qed

lemma dispatch_None_iff:
  assumes "20 \<le> length pkt" "20 \<le> ihl"
  shows "egress_dispatch p cache clk reads proto ihl (pkt, m) = None \<longleftrightarrow> proto = 6 \<and> length pkt < ihl"
proof -
  obtain a b where "applyICMP ihl (wp_winQuirks p) (pkt, m) = Some a" "applyPortUnreachable ihl p (pkt, m) = Some b"
    using applyICMP_total applyPortUnreachable_total assms(1) by metis
  then show ?thesis
    using applyTCP_None_iff [OF assms(2), of p cache clk reads pkt]
    by (simp add: egress_dispatch_def bind_eq_None_conv)
qed

lemma applyEgress_panic_cases:
  "applyEgress p cache clk reads st pkt = None \<longleftrightarrow>
     20 \<le> length pkt \<and> drop_bit 4 (pkt ! 0) = 4 \<and> pkt ! 9 = 6 \<and> length pkt < ip_hl (pkt ! 0)"
proof (cases "20 \<le> length pkt \<and> drop_bit 4 (pkt ! 0) = 4")
  case True
  obtain v st' where id: "next_ipid p (pkt ! 9) st = (v, st')" by force
  show ?thesis
    using True by (simp add: applyEgress_ipv4 [OF _ _ id] bind_eq_None_conv dispatch_None_iff not_less)
next
  case False
  then have "length pkt < 20 \<or> drop_bit 4 (pkt ! 0) \<noteq> 4"
    by auto
  from applyEgress_other [OF this] False show ?thesis
    by auto
qed

lemma applyEgress_outer_cases:
  assumes "20 \<le> length pkt" "drop_bit 4 (pkt ! 0) = 4"
    and "applyEgress p cache clk reads st pkt = Some ((q, changed), st')"
  shows "q ! 8 = (if wp_ttl p > 0 then wp_ttl p else pkt ! 8) \<and>
    (be16 (q ! 4) (q ! 5), st') = next_ipid p (pkt ! 9) st \<and>
    (\<forall>n. bit (be16 (q ! 6) (q ! 7)) n =
       (if n = 14
        then wp_dfBit p \<and> \<not> (pkt ! 9 = 1 \<and> 20 \<le> ip_hl (pkt ! 0) \<and>
               \<not> (isU1 pkt (ip_hl (pkt ! 0)) \<and> length pkt < ip_hl (pkt ! 0) + 8))
        else bit (be16 (pkt ! 6) (pkt ! 7)) n)) \<and>
    q ! 0 = pkt ! 0 \<and> q ! 1 = pkt ! 1 \<and>
    (q ! 2 = pkt ! 2 \<and> q ! 3 = pkt ! 3 \<and> length q = length pkt \<or>
       pkt ! 9 = 6 \<and> be16 (q ! 2) (q ! 3) = of_nat (length q)) \<and>
    (\<forall>j. 9 \<le> j \<and> j < max 20 (ip_hl (pkt ! 0)) \<and> j < length pkt \<longrightarrow> q ! j = pkt ! j) \<and>
    (q \<noteq> pkt \<longrightarrow> changed)"
proof -
  obtain v st1 where id: "next_ipid p (pkt ! 9) st = (v, st1)" by force
  let ?o = "outer p v pkt" and ?ihl = "ip_hl (pkt ! 0)"
  note o = nth_outer [OF assms(1), where p = p and v = v]
  have r: "st' = st1" "(?ihl < 20 \<and> q = ?o \<and> changed = (?o \<noteq> pkt)) \<or>
      (20 \<le> ?ihl \<and> egress_dispatch p cache clk reads (pkt ! 9) ?ihl (?o, ?o \<noteq> pkt) = Some (q, changed))"
    using assms(3) by (auto simp: applyEgress_ipv4 [OF assms(1,2) id] split: if_splits elim!: bind_SomeE)
  have u: "isU1 ?o ?ihl = isU1 pkt ?ihl" if "20 \<le> ?ihl"
    using that o(1) assms(1) by (simp add: isU1_def)
  from r(2) show ?thesis
  proof
    assume "?ihl < 20 \<and> q = ?o \<and> changed = (?o \<noteq> pkt)"
    then show ?thesis
      using o r(1) id assms(1) by (simp add: fo_df_bit)
  next
    assume d: "20 \<le> ?ihl \<and> egress_dispatch p cache clk reads (pkt ! 9) ?ihl (?o, ?o \<noteq> pkt) = Some (q, changed)"
    then have ok: "dispatch_ok (pkt ! 9) ?ihl (?o, ?o \<noteq> pkt) (q, changed)"
      using assms(1) o(2) by (intro dispatch_result [where p = p and cache = cache and clk = clk and reads = reads]) auto
    then have k: "q ! j = ?o ! j" if "j < ?ihl" "j < length pkt" "j \<notin> {2, 3, 6, 7}" for j
      using that assms(1) by (simp add: dispatch_ok_def)
    have pos: "pkt \<noteq> []"
      using assms(1) by auto
    have fixed: "q ! 0 = pkt ! 0" "q ! 1 = pkt ! 1" "q ! 4 = ?o ! 4" "q ! 5 = ?o ! 5" "q ! 8 = ?o ! 8"
      using k [of 0] k [of 1] k [of 4] k [of 5] k [of 8] o(1) [of 0] o(1) [of 1] d assms(1) pos by simp_all
    have rest: "\<forall>j. 9 \<le> j \<and> j < max 20 ?ihl \<and> j < length pkt \<longrightarrow> q ! j = pkt ! j"
      using k o(1) d by (simp add: max_def)
    have lens: "q ! 2 = pkt ! 2 \<and> q ! 3 = pkt ! 3 \<and> length q = length pkt \<or> pkt ! 9 = 6 \<and> be16 (q ! 2) (q ! 3) = of_nat (length q)"
      using ok o(1) [of 2] o(1) [of 3] assms(1) by (auto simp: dispatch_ok_def same_length_def total_length_ok_def)
    have frag: "be16 (q ! 6) (q ! 7) = (if pkt ! 9 = 1 \<and> \<not> (isU1 pkt ?ihl \<and> length pkt < ?ihl + 8)
        then fo_df False (fo_df (wp_dfBit p) (be16 (pkt ! 6) (pkt ! 7))) else fo_df (wp_dfBit p) (be16 (pkt ! 6) (pkt ! 7)))"
      and m: "q \<noteq> ?o \<or> ?o \<noteq> pkt \<longrightarrow> changed"
      using ok u d assms(1) o(4) by (auto simp: dispatch_ok_def)
    have "q \<noteq> pkt \<longrightarrow> changed"
      using m by blast
    with fixed rest lens frag show ?thesis
      using o(2,3) r(1) id d by (simp add: fo_df_bit)
  qed
qed

section \<open>Properties\<close>

text \<open>C8. The shaper panics on exactly one kind of packet: an IPv4 TCP packet whose header length
  field exceeds the packet.  Every other byte string is processed, whatever the profile.\<close>

theorem applyEgress_panics_iff:
  "applyEgress p cache clk reads st pkt = None \<longleftrightarrow>
     20 \<le> length pkt \<and> drop_bit 4 (pkt ! 0) = 4 \<and> pkt ! 9 = 6 \<and> length pkt < ip_hl (pkt ! 0)"
  by (rule applyEgress_panic_cases)

text \<open>C2. The outer header of every shaped IPv4 packet, options included: the profile's TTL when it has one, the
  identification the profile's counter prescribes, DF as the profile says (cleared on ICMP, except
  a port-unreachable too short to be shaped) with the other fragment bits kept; a total length that is
  the length of the packet or, where the length did not change, the one it had; and version, header
  length, service, protocol, checksum, both addresses and the IP options as they were.  A packet that
  differs is reported as modified, so its checksums are recomputed before it is sent.\<close>

theorem applyEgress_outer_header:
  assumes "20 \<le> length pkt" "drop_bit 4 (pkt ! 0) = 4"
    and "applyEgress p cache clk reads st pkt = Some ((q, changed), st')"
  shows "q ! 8 = (if wp_ttl p > 0 then wp_ttl p else pkt ! 8) \<and>
    (be16 (q ! 4) (q ! 5), st') = next_ipid p (pkt ! 9) st \<and>
    (\<forall>n. bit (be16 (q ! 6) (q ! 7)) n =
       (if n = 14
        then wp_dfBit p \<and> \<not> (pkt ! 9 = 1 \<and> 20 \<le> ip_hl (pkt ! 0) \<and>
               \<not> (isU1 pkt (ip_hl (pkt ! 0)) \<and> length pkt < ip_hl (pkt ! 0) + 8))
        else bit (be16 (pkt ! 6) (pkt ! 7)) n)) \<and>
    q ! 0 = pkt ! 0 \<and> q ! 1 = pkt ! 1 \<and>
    (q ! 2 = pkt ! 2 \<and> q ! 3 = pkt ! 3 \<and> length q = length pkt \<or>
       pkt ! 9 = 6 \<and> be16 (q ! 2) (q ! 3) = of_nat (length q)) \<and>
    (\<forall>j. 9 \<le> j \<and> j < max 20 (ip_hl (pkt ! 0)) \<and> j < length pkt \<longrightarrow> q ! j = pkt ! j) \<and>
    (q \<noteq> pkt \<longrightarrow> changed)"
  by (rule applyEgress_outer_cases [OF assms])

text \<open>An ICMP echo reply with DF set, as a 64-hop host sends it.\<close>

definition example_echo_reply :: bytes where
  "example_echo_reply = [0x45, 0, 0, 28, 0, 0, 0x40, 0, 64, 1, 0, 0, 10, 0, 0, 1, 10, 0, 0, 5,
     0, 0, 0, 0, 0, 1, 0, 1]"

theorem applyEgress_outer_header_witness:
  "\<exists>q st'. applyEgress (toWinProfile windows_11) [] (\<lambda>_. 0) 0 \<lparr>ip_counter = 6, ip_seed = 1\<rparr> example_echo_reply =
     Some ((q, True), st') \<and> q ! 8 = 128 \<and> be16 (q ! 4) (q ! 5) = 7 \<and> \<not> bit (be16 (q ! 6) (q ! 7)) 14"
proof -
  let ?q = "[69, 0, 0, 28, 0, 7, 0, 0, 128, 1, 0, 0, 10, 0, 0, 1, 10, 0, 0, 5, 0, 0, 0, 0, 0, 1, 0, 1] :: bytes"
  have r: "applyEgress (toWinProfile windows_11) [] (\<lambda>_. 0) 0 \<lparr>ip_counter = 6, ip_seed = 1\<rparr> example_echo_reply =
     Some ((?q, True), \<lparr>ip_counter = 7, ip_seed = 1\<rparr>)"
    by code_simp
  have h: "20 \<le> length example_echo_reply" "drop_bit 4 (example_echo_reply ! 0) = 4"
    by code_simp+
  have p: "wp_ttl (toWinProfile windows_11) = 128"
    "next_ipid (toWinProfile windows_11) 1 \<lparr>ip_counter = 6, ip_seed = 1\<rparr> =
      (7, \<lparr>ip_counter = 7, ip_seed = 1\<rparr>)"
    "example_echo_reply ! 9 = 1" "20 \<le> ip_hl (example_echo_reply ! 0)"
    "isU1 example_echo_reply (ip_hl (example_echo_reply ! 0)) = False"
    by code_simp+
  from applyEgress_outer_header [OF h r] have "?q ! 8 = 128 \<and> be16 (?q ! 4) (?q ! 5) = 7 \<and> \<not> bit (be16 (?q ! 6) (?q ! 7)) 14"
    by (simp only: p if_True if_False simp_thms prod.inject) simp
  with r show ?thesis by blast
qed

text \<open>C1. What a shaped TCP segment keeps: ports, sequence and acknowledgement numbers, reserved
  bits, checksum, urgent pointer and the whole payload; its data offset still describes a header
  inside the packet; and a total length that was right stays right, although the options may have
  grown or shrunk.\<close>

theorem applyTCP_keeps_segment:
  assumes "20 \<le> ihl" "tcp_wf pkt ihl"
  shows "\<exists>s. applyTCP p cache clk reads pkt ihl = Some s \<and>
    (let q = eg_pkt s; hl = tcp_hl (q ! (ihl + 12)) in
     take 12 (drop ihl q) = take 12 (drop ihl pkt) \<and>
     q ! (ihl + 12) AND 0x0f = pkt ! (ihl + 12) AND 0x0f \<and>
     take 4 (drop (ihl + 16) q) = take 4 (drop (ihl + 16) pkt) \<and>
     20 \<le> hl \<and> ihl + hl \<le> length q \<and>
     drop (ihl + hl) q = drop (ihl + tcp_hl (pkt ! (ihl + 12))) pkt \<and>
     (total_length_ok pkt \<longrightarrow> total_length_ok q))"
proof -
  obtain s where s: "applyTCP p cache clk reads pkt ihl = Some s" "hdr_ok ihl s"
    and f: "frame ihl (tcp_start reads pkt ihl) s"
    using applyTCP_contract [OF assms(2,1), of reads p cache clk] by (auto simp: stage_ok_def)
  have l: "ihl + 20 \<le> length pkt" "ihl + 20 \<le> length (eg_pkt s)"
    using assms(2) s(2) by (simp_all add: tcp_wf_def hdr_ok_def)
  have "take 12 (drop ihl (eg_pkt s)) = take 12 (drop ihl pkt)"
    using l frame_low [OF f] assms(1) by (intro nth_equalityI) auto
  moreover have "take 4 (drop (ihl + 16) (eg_pkt s)) = take 4 (drop (ihl + 16) pkt)"
    using l frame_mid [OF f, of "16 + _"] by (intro nth_equalityI) (auto simp: add.assoc)
  moreover have "eg_pkt s ! (ihl + 12) AND 0x0f = pkt ! (ihl + 12) AND 0x0f"
    using f by (simp add: frame_def)
  moreover have "drop (ihl + eg_tcpHL s) (eg_pkt s) = drop (ihl + tcp_hl (pkt ! (ihl + 12))) pkt"
    using frame_payload [OF f] by simp
  moreover have "total_length_ok pkt \<longrightarrow> total_length_ok (eg_pkt s)"
    using frame_total [OF f] by simp
  ultimately show ?thesis
    using s by (simp add: Let_def hdr_ok_def)
qed

text \<open>A Linux host's SYN-ACK to 10.0.0.5 with \<open>MSS, SACK, TS, NOP, WS\<close> and two bytes of payload.\<close>

definition example_syn_ack :: bytes where
  "example_syn_ack = [0x45, 0, 0, 62, 0, 0, 0x40, 0, 64, 6, 0, 0, 10, 0, 0, 1, 10, 0, 0, 5,
     0, 80, 0x12, 0x34, 0, 0, 0, 9, 0, 0, 0, 2, 0xa0, 0x12, 0xfa, 0xf0, 0, 0, 0, 0,
     2, 4, 5, 0xb4, 4, 2, 8, 10, 0, 0, 0, 1, 0, 0, 0, 7, 1, 3, 3, 7, 0xaa, 0xbb]"

theorem applyTCP_keeps_segment_witness:
  "\<exists>s. applyTCP (toWinProfile windows_11) [] (\<lambda>_. 0) 0 example_syn_ack 20 = Some s \<and>
     take 12 (drop 20 (eg_pkt s)) = [0, 80, 0x12, 0x34, 0, 0, 0, 9, 0, 0, 0, 2] \<and>
     drop (20 + tcp_hl (eg_pkt s ! 32)) (eg_pkt s) = [0xaa, 0xbb]"
proof -
  have h: "tcp_wf example_syn_ack 20"
    by code_simp
  have d: "take 12 (drop 20 example_syn_ack) = [0, 80, 0x12, 0x34, 0, 0, 0, 9, 0, 0, 0, 2]"
    "drop (20 + tcp_hl (example_syn_ack ! 32)) example_syn_ack = [0xaa, 0xbb]"
    by code_simp+
  from applyTCP_keeps_segment [OF _ h, of "toWinProfile windows_11" "[]" "\<lambda>_. 0" 0]
  show ?thesis by (auto simp: Let_def d)
qed

end
