(* ===== verification/Hifi.thy ===== *)
theory Hifi
  imports Win_Profile
begin

text \<open>
  The opt-in IP-ID driver: \<open>maybeArmHiFi\<close>, \<open>disarmHiFi\<close> and \<open>watchdogTrip\<close> of
  \<open>internal/stack/backend_windows.go\<close> and the watchdog of \<open>connmon_windows.go\<close>.

  Lifecycle calls and watchdog goroutines interleave.  Every critical section of \<open>hifiMu\<close> and
  every atomic store is one step of \<open>hstep\<close>; the profile \<open>maybeArmHiFi\<close> loads before it takes the
  lock is carried between the two.  Whether the driver opens, whether it arms, whether a gateway
  exists and whether a probe is answered is not under the code's control: steps exist for every
  outcome.
\<close>

section \<open>The watchdog loop\<close>

definition watchdogFails :: nat where "watchdogFails = 3"

text \<open>One tick: the next value of \<open>fails\<close>, or \<open>None\<close> when the watchdog trips and returns.\<close>

definition watchdog_tick :: "bool \<Rightarrow> nat \<Rightarrow> nat option" where
  "watchdog_tick reachable fails =
     (if reachable then Some 0
      else if watchdogFails \<le> fails + 1 then None else Some (fails + 1))"

fun watchdog_run :: "nat \<Rightarrow> bool list \<Rightarrow> bool" where
  "watchdog_run fails [] = False"
| "watchdog_run fails (r # rs) =
     (case watchdog_tick r fails of None \<Rightarrow> True | Some f \<Rightarrow> watchdog_run f rs)"

text \<open>The probe target: the configured canary, else the gateway; none means no watchdog.\<close>

definition watchdog_target :: "string \<Rightarrow> string \<Rightarrow> string option" where
  "watchdog_target canary gateway =
     (let target = (if canary = '''' then gateway else canary)
      in if target = '''' then None else Some target)"

section \<open>Arming and disarming\<close>

record hifi =
  hf_profile :: "win_profile option"
  hf_enabled :: bool
  hf_armed :: bool                       \<comment> \<open>\<open>b.hifi != nil\<close>\<close>
  hf_wd :: "string option"               \<comment> \<open>\<open>b.hifiWd\<close>, by its probe target\<close>
  hf_dogs :: "(string \<times> nat) list"       \<comment> \<open>running watchdog goroutines with their \<open>fails\<close>\<close>
  hf_tripped :: bool
  hf_loaded :: "win_profile list"        \<comment> \<open>profiles loaded by a \<open>maybeArmHiFi\<close> not yet in its lock\<close>
  hf_trips :: nat                        \<comment> \<open>\<open>watchdogTrip\<close> calls between the store and the lock\<close>

definition hifi_init :: hifi where
  "hifi_init = \<lparr>hf_profile = None, hf_enabled = False, hf_armed = False, hf_wd = None, hf_dogs = [],
     hf_tripped = False, hf_loaded = [], hf_trips = 0\<rparr>"

definition wants_hifi :: "win_profile option \<Rightarrow> bool" where
  "wants_hifi mp = (case mp of None \<Rightarrow> False | Some p \<Rightarrow> wp_highFidelity p \<and> \<not> wp_winQuirks p)"

text \<open>\<open>maybeArmHiFi\<close>: the guard before the lock, and the locked section.\<close>

definition arm_begin :: "hifi \<Rightarrow> hifi" where
  "arm_begin s = (if wants_hifi (hf_profile s) then s\<lparr>hf_loaded := the (hf_profile s) # hf_loaded s\<rparr> else s)"

definition arm_locked :: "bool \<Rightarrow> bool \<Rightarrow> string \<Rightarrow> win_profile \<Rightarrow> hifi \<Rightarrow> hifi" where
  "arm_locked opens arms gateway p s =
     (if hf_armed s then s
      else if hf_tripped s then s
      else if \<not> opens then s
      else if \<not> arms then s
      else let s1 = s\<lparr>hf_armed := True\<rparr> in
        if wp_hifiWatchdog p then
          (let wd = watchdog_target (wp_hifiCanary p) gateway in
           s1\<lparr>hf_wd := wd, hf_dogs := (case wd of None \<Rightarrow> hf_dogs s | Some t \<Rightarrow> (t, 0) # hf_dogs s)\<rparr>)
        else s1)"

definition disarm_locked :: "hifi \<Rightarrow> hifi" where
  "disarm_locked s = s\<lparr>hf_wd := None, hf_armed := False\<rparr>"

text \<open>\<open>watchdogTrip\<close>: the atomic store, and the locked section.\<close>

definition trip_store :: "hifi \<Rightarrow> hifi" where
  "trip_store s = s\<lparr>hf_tripped := True, hf_trips := hf_trips s + 1\<rparr>"

definition trip_locked :: "hifi \<Rightarrow> hifi" where
  "trip_locked s = s\<lparr>hf_wd := None, hf_armed := False, hf_trips := hf_trips s - 1\<rparr>"

text \<open>The steps of a run that installs profiles of \<open>ps\<close> only.\<close>

inductive hstep :: "os_profile set \<Rightarrow> hifi \<Rightarrow> hifi \<Rightarrow> bool" for ps where
  set_profile: "p \<in> ps \<Longrightarrow> hstep ps s (s\<lparr>hf_profile := Some (toWinProfile p)\<rparr>)"
| enable: "hstep ps s (arm_begin (s\<lparr>hf_enabled := True\<rparr>))"
| arm: "hf_loaded s = xs @ p # ys \<Longrightarrow> hstep ps s (arm_locked opens arms gw p (s\<lparr>hf_loaded := xs @ ys\<rparr>))"
| disable: "hstep ps s (disarm_locked (s\<lparr>hf_enabled := False\<rparr>))"
| close: "hstep ps s (disarm_locked s)"
| dog_stops: "hf_dogs s = xs @ d # ys \<Longrightarrow> hstep ps s (s\<lparr>hf_dogs := xs @ ys\<rparr>)"
| dog_ticks: "hf_dogs s = xs @ (t, f) # ys \<Longrightarrow> watchdog_tick r f = Some f' \<Longrightarrow>
    hstep ps s (s\<lparr>hf_dogs := xs @ (t, f') # ys\<rparr>)"
| dog_trips: "hf_dogs s = xs @ (t, f) # ys \<Longrightarrow> watchdog_tick r f = None \<Longrightarrow>
    hstep ps s (trip_store (s\<lparr>hf_dogs := xs @ ys\<rparr>))"
| trip: "0 < hf_trips s \<Longrightarrow> hstep ps s (trip_locked s)"

inductive_cases hstepE: "hstep ps s s'"

definition hreach :: "os_profile set \<Rightarrow> hifi \<Rightarrow> hifi \<Rightarrow> bool" where
  "hreach ps = (hstep ps)\<^sup>*\<^sup>*"

lemmas hifi_defs = arm_begin_def arm_locked_def disarm_locked_def trip_store_def trip_locked_def

section \<open>Lemmas\<close>

lemma tripped_stays: "hstep ps s s' \<Longrightarrow> hf_tripped s \<Longrightarrow> hf_tripped s'"
  by (erule hstep.cases) (auto simp: hifi_defs Let_def)

lemma tripped_not_rearmed: "hstep ps s s' \<Longrightarrow> hf_tripped s \<Longrightarrow> \<not> hf_armed s \<Longrightarrow> \<not> hf_armed s'"
  by (erule hstep.cases) (auto simp: hifi_defs Let_def)

lemma dead_run:
  assumes "hreach ps s s'" "hf_tripped s" "\<not> hf_armed s"
  shows "hf_tripped s' \<and> \<not> hf_armed s'"
  using assms(1) unfolding hreach_def
  by (induction rule: rtranclp_induct) (use assms(2,3) tripped_stays tripped_not_rearmed in blast)+

lemma trips_tripped: "hreach ps hifi_init s \<Longrightarrow> 0 < hf_trips s \<longrightarrow> hf_tripped s"
  unfolding hreach_def
proof (induction rule: rtranclp_induct)
  case base
  then show ?case by (simp add: hifi_init_def)
next
  case (step s s')
  from step(2,3) show ?case
    by (elim hstepE) (auto simp: hifi_defs Let_def)
qed

section \<open>Properties\<close>

lemma hreach_refl: "hreach ps s s"
  by (simp add: hreach_def)

lemma hreach_step: "hreach ps s t \<Longrightarrow> hstep ps t u \<Longrightarrow> hreach ps s u"
  by (simp add: hreach_def)

text \<open>Three failures in a row, somewhere in the answers.\<close>

definition three_fails :: "bool list \<Rightarrow> bool" where
  "three_fails rs \<longleftrightarrow> (\<exists>i. i + 3 \<le> length rs \<and> \<not> rs ! i \<and> \<not> rs ! (i + 1) \<and> \<not> rs ! (i + 2))"

lemma three_fails_skip:
  assumes "f < 3"
  shows "three_fails (replicate f False @ True # rs) = three_fails rs"
proof
  assume "three_fails (replicate f False @ True # rs)"
  then obtain i where i: "i + 3 \<le> length (replicate f False @ True # rs)"
    and n: "\<not> (replicate f False @ True # rs) ! i" "\<not> (replicate f False @ True # rs) ! (i + 1)"
      "\<not> (replicate f False @ True # rs) ! (i + 2)"
    by (auto simp: three_fails_def)
  have "(replicate f False @ True # rs) ! f"
    by (simp add: nth_append)
  with n have "f \<noteq> i" "f \<noteq> i + 1" "f \<noteq> i + 2"
    by metis+
  with assms have "f < i"
    by linarith
  then obtain k where "i = Suc f + k"
    using less_natE by (metis add_Suc less_iff_Suc_add)
  with i n show "three_fails rs"
    unfolding three_fails_def by (intro exI [of _ k]) (auto simp: nth_append)
next
  assume "three_fails rs"
  then obtain i where "i + 3 \<le> length rs" "\<not> rs ! i" "\<not> rs ! (i + 1)" "\<not> rs ! (i + 2)"
    by (auto simp: three_fails_def)
  then show "three_fails (replicate f False @ True # rs)"
    unfolding three_fails_def by (intro exI [of _ "Suc f + i"]) (auto simp: nth_append)
qed

lemma watchdog_run_three:
  "f < 3 \<Longrightarrow> watchdog_run f rs = three_fails (replicate f False @ rs)"
proof (induction rs arbitrary: f)
  case Nil
  then show ?case by (auto simp: three_fails_def)
next
  case (Cons r rs)
  show ?case
  proof (cases r)
    case True
    have "watchdog_run f (r # rs) = three_fails rs"
      using Cons.IH [of 0] True by (simp add: watchdog_tick_def)
    then show ?thesis
      using three_fails_skip [OF Cons.prems] True by simp
  next
    case False
    show ?thesis
    proof (cases "f = 2")
      case True
      have "three_fails (replicate f False @ r # rs)"
        using False True by (auto simp: three_fails_def numeral_2_eq_2 intro!: exI [of _ 0])
      then show ?thesis
        using False True by (simp add: watchdog_tick_def watchdogFails_def)
    next
      case f: False
      then have "Suc f < 3"
        using Cons.prems by simp
      then have "watchdog_run f (r # rs) = three_fails (replicate (Suc f) False @ rs)"
        using Cons.IH [of "Suc f"] False by (simp add: watchdog_tick_def watchdogFails_def)
      moreover have "replicate (Suc f) False @ rs = replicate f False @ r # rs"
        using False by (simp add: replicate_app_Cons_same)
      ultimately show ?thesis by argo
    qed
  qed
qed

text \<open>While every profile of the run is a Windows persona (or does not ask for it), nothing is ever
  loaded for arming and the driver is not armed.\<close>

definition never_wants :: "hifi \<Rightarrow> bool" where
  "never_wants s \<longleftrightarrow> \<not> wants_hifi (hf_profile s) \<and> hf_loaded s = [] \<and> \<not> hf_armed s"

lemma never_wants_step:
  "hstep ps s s' \<Longrightarrow> \<forall>p \<in> ps. \<not> wants_hifi (Some (toWinProfile p)) \<Longrightarrow> never_wants s \<Longrightarrow> never_wants s'"
  by (erule hstep.cases) (auto simp: never_wants_def hifi_defs)

text \<open>The watchdog trips exactly when three probes in a row go unanswered: any answered probe in
  between starts the count again.\<close>

theorem watchdog_trips_iff:
  "watchdog_run 0 rs \<longleftrightarrow> (\<exists>i. i + 3 \<le> length rs \<and> \<not> rs ! i \<and> \<not> rs ! (i + 1) \<and> \<not> rs ! (i + 2))"
  using watchdog_run_three [of 0 rs] by (simp add: three_fails_def)

text \<open>C13. Once the watchdog has disarmed the driver it stays disarmed for the rest of the run,
  however enables, disables, profile changes and other watchdogs interleave.\<close>

theorem tripped_never_rearms:
  assumes "hreach ps hifi_init s" "0 < hf_trips s" "hreach ps (trip_locked s) s'"
  shows "\<not> hf_armed s'"
proof -
  have "hf_tripped (trip_locked s)" "\<not> hf_armed (trip_locked s)"
    using trips_tripped [OF assms(1)] assms(2) by (simp_all add: trip_locked_def)
  with dead_run [OF assms(3)] show ?thesis by blast
qed

text \<open>Windows personas never arm the driver: in a run that installs Windows-family profiles
  only, whatever they set for high fidelity, the driver is not armed at any point.\<close>

theorem windows_never_arms:
  assumes "\<forall>p \<in> ps. wp_winQuirks (toWinProfile p)" "hreach ps hifi_init s"
  shows "\<not> hf_armed s"
proof -
  have "never_wants s"
    using assms(2) unfolding hreach_def
  proof (induction rule: rtranclp_induct)
    case base
    show ?case by (simp add: never_wants_def hifi_init_def wants_hifi_def)
  next
    case (step s s')
    show ?case
      by (rule never_wants_step [OF step(2) _ step(3)]) (use assms(1) in \<open>auto simp: wants_hifi_def\<close>)
  qed
  then show ?thesis by (simp add: never_wants_def)
qed

theorem windows_never_arms_witness:
  "\<exists>s. hreach {windows_11} hifi_init s \<and> hf_enabled s \<and> \<not> hf_armed s"
proof -
  let ?s = "arm_begin (hifi_init\<lparr>hf_profile := Some (toWinProfile windows_11), hf_enabled := True\<rparr>)"
  have "hreach {windows_11} hifi_init ?s"
    by (rule hreach_step [OF hreach_step [OF hreach_refl set_profile] enable]) simp
  moreover have "hf_enabled ?s"
    by (simp add: arm_begin_def)
  moreover have w: "\<forall>p \<in> {windows_11}. wp_winQuirks (toWinProfile p)"
    by code_simp
  ultimately show ?thesis
    using windows_never_arms [OF w] by blast
qed

text \<open>A Linux persona that asks for the driver, and the run up to the moment its watchdog trips.\<close>

definition hifi_linux :: os_profile where
  "hifi_linux = ubuntu\<lparr>prof_stack := (prof_stack ubuntu)\<lparr>st_highFidelity := True\<rparr>\<rparr>"

definition hifi_armed_state :: "nat \<Rightarrow> hifi" where
  "hifi_armed_state f = \<lparr>hf_profile = Some (toWinProfile hifi_linux), hf_enabled = True, hf_armed = True,
     hf_wd = Some ''10.0.0.254'', hf_dogs = [(''10.0.0.254'', f)], hf_tripped = False, hf_loaded = [],
     hf_trips = 0\<rparr>"

lemma hifi_armed_reachable: "hreach {hifi_linux} hifi_init (hifi_armed_state 0)"
proof -
  let ?p = "toWinProfile hifi_linux"
  let ?s1 = "hifi_init\<lparr>hf_profile := Some ?p\<rparr>"
  let ?s2 = "arm_begin (?s1\<lparr>hf_enabled := True\<rparr>)"
  have p: "wants_hifi (Some ?p)" "wp_hifiWatchdog ?p" "wp_hifiCanary ?p = []"
    by code_simp+
  have loaded: "hf_loaded ?s2 = [] @ ?p # []" and s2: "hf_armed ?s2 = False" "hf_tripped ?s2 = False"
    using p(1) by (simp_all add: arm_begin_def hifi_init_def)
  have eq: "arm_locked True True ''10.0.0.254'' ?p (?s2\<lparr>hf_loaded := [] @ []\<rparr>) = hifi_armed_state 0"
    using p by (simp add: arm_begin_def arm_locked_def hifi_init_def hifi_armed_state_def watchdog_target_def)
  have "hreach {hifi_linux} hifi_init ?s2"
    by (rule hreach_step [OF hreach_step [OF hreach_refl set_profile] enable]) simp
  from hreach_step [OF this arm [OF loaded, of _ True True "''10.0.0.254''"]] show ?thesis
    unfolding eq .
qed

theorem tripped_never_rearms_witness:
  "\<exists>s s'. hreach {hifi_linux} hifi_init s \<and> hf_armed s \<and> 0 < hf_trips s \<and>
     hreach {hifi_linux} (trip_locked s) s' \<and> hf_enabled s' \<and> \<not> hf_armed s'"
proof -
  let ?H = "{hifi_linux}" and ?t = "''10.0.0.254''"
  let ?s = "trip_store (hifi_armed_state 2\<lparr>hf_dogs := []\<rparr>)"
  have tick: "hstep ?H (hifi_armed_state f) (hifi_armed_state (Suc f))" if "f < 2" for f
    using dog_ticks [of "hifi_armed_state f" "[]" ?t f "[]" False "Suc f" ?H] that
    by (simp add: hifi_armed_state_def watchdog_tick_def watchdogFails_def)
  have two: "hreach ?H hifi_init (hifi_armed_state 2)"
    using hreach_step [OF hreach_step [OF hifi_armed_reachable tick [of 0]] tick [of "Suc 0"]]
    by (simp add: numeral_2_eq_2)
  have "hstep ?H (hifi_armed_state 2) ?s"
    using dog_trips [of "hifi_armed_state 2" "[]" ?t 2 "[]" False ?H]
    by (simp add: hifi_armed_state_def watchdog_tick_def watchdogFails_def)
  with two have s: "hreach ?H hifi_init ?s"
    by (rule hreach_step)
  have trips: "0 < hf_trips ?s" and armed: "hf_armed ?s"
    by (simp_all add: trip_store_def hifi_armed_state_def)
  let ?s' = "arm_begin ((trip_locked ?s)\<lparr>hf_enabled := True\<rparr>)"
  have s': "hreach ?H (trip_locked ?s) ?s'"
    by (rule hreach_step [OF hreach_refl enable])
  have "hf_enabled ?s'"
    by (simp add: arm_begin_def)
  with s armed trips s' tripped_never_rearms [OF s trips s'] show ?thesis
    by blast
qed

end
