(* ===== verification/Packet_Loop.thy ===== *)
theory Packet_Loop
  imports Egress Hifi
begin

text \<open>
  The packet loop of the WinDivert backend (\<open>windowsBackend.loop\<close> of
  \<open>internal/stack/backend_windows.go\<close>): what is sent back for each diverted packet, and how the
  SYN cache and the IP-ID counters evolve along a run.  The debug counters and log lines are not
  part of the state.
\<close>

section \<open>Model\<close>

record backend =
  bk_enabled :: bool
  bk_profile :: "win_profile option"
  bk_cache :: syn_cache
  bk_ipid :: ipid_state

record diverted =
  dv_outbound :: bool
  dv_clock :: clock  \<comment> \<open>the clock readings while this packet is handled\<close>
  dv_pkt :: bytes

record sent =
  sn_pkt :: bytes
  sn_checksums :: bool  \<comment> \<open>\<open>calcChecksums\<close> was called on it\<close>

text \<open>\<open>New\<close>: the initial state.\<close>

definition new_backend :: backend where
  "new_backend = \<lparr>bk_enabled = False, bk_profile = None, bk_cache = [],
     bk_ipid = \<lparr>ip_counter = 0, ip_seed = 0x9e3779b9\<rparr>\<rparr>"

definition setProfile :: "os_profile \<Rightarrow> backend \<Rightarrow> backend" where
  "setProfile p b = b\<lparr>bk_profile := Some (toWinProfile p)\<rparr>"

definition setEnabled :: "bool \<Rightarrow> backend \<Rightarrow> backend" where
  "setEnabled e b = b\<lparr>bk_enabled := e\<rparr>"

definition loop_step :: "diverted \<Rightarrow> backend \<Rightarrow> (sent \<times> backend) option" where
  "loop_step d b =
     (if \<not> dv_outbound d then
        (if bk_enabled b then do {
           c \<leftarrow> recordInboundSyn (dv_clock d 0) (dv_pkt d) (bk_cache b);
           Some (\<lparr>sn_pkt = dv_pkt d, sn_checksums = False\<rparr>, b\<lparr>bk_cache := c\<rparr>) }
         else Some (\<lparr>sn_pkt = dv_pkt d, sn_checksums = False\<rparr>, b))
      else if bk_enabled b then
        (case bk_profile b of
           None \<Rightarrow> Some (\<lparr>sn_pkt = dv_pkt d, sn_checksums = False\<rparr>, b)
         | Some p \<Rightarrow> do {
             ((pkt, changed), ipid) \<leftarrow> applyEgress p (bk_cache b) (dv_clock d) 0 (bk_ipid b) (dv_pkt d);
             Some (\<lparr>sn_pkt = pkt, sn_checksums = changed\<rparr>, b\<lparr>bk_ipid := ipid\<rparr>) })
      else Some (\<lparr>sn_pkt = dv_pkt d, sn_checksums = False\<rparr>, b))"

fun run_loop :: "diverted list \<Rightarrow> backend \<Rightarrow> (sent list \<times> backend) option" where
  "run_loop [] b = Some ([], b)"
| "run_loop (d # ds) b = do {
     (s, b') \<leftarrow> loop_step d b;
     (ss, b'') \<leftarrow> run_loop ds b';
     Some (s # ss, b'') }"

section \<open>Lemmas\<close>

text \<open>The packets the shaper numbers.\<close>

definition is_ipv4 :: "bytes \<Rightarrow> bool" where
  "is_ipv4 pkt \<longleftrightarrow> 20 \<le> length pkt \<and> drop_bit 4 (pkt ! 0) = 4"

definition ip_id :: "bytes \<Rightarrow> u16" where
  "ip_id pkt = be16 (pkt ! 4) (pkt ! 5)"

lemma loop_step_SomeE:
  assumes "loop_step d b = Some (s, b')"
  obtains (inbound) "\<not> dv_outbound d" "sn_pkt s = dv_pkt d" "sn_checksums s = False" "bk_enabled b' = bk_enabled b"
      "bk_profile b' = bk_profile b" "bk_ipid b' = bk_ipid b"
    | (shaped) p where "dv_outbound d" "bk_enabled b" "bk_profile b = Some p" "bk_enabled b' = bk_enabled b"
      "bk_profile b' = bk_profile b" "bk_cache b' = bk_cache b"
      "applyEgress p (bk_cache b) (dv_clock d) 0 (bk_ipid b) (dv_pkt d) =
        Some ((sn_pkt s, sn_checksums s), bk_ipid b')"
    | (passed) "dv_outbound d" "\<not> bk_enabled b \<or> bk_profile b = None" "sn_pkt s = dv_pkt d"
      "sn_checksums s = False" "b' = b"
  using assms by (fastforce simp: loop_step_def split: if_splits option.splits elim!: bind_SomeE)

lemma loop_step_None_iff:
  "loop_step d b = None \<longleftrightarrow> dv_outbound d \<and> bk_enabled b \<and> bk_profile b \<noteq> None \<and>
     is_ipv4 (dv_pkt d) \<and> dv_pkt d ! 9 = 6 \<and> length (dv_pkt d) < ip_hl (dv_pkt d ! 0)"
proof (cases "dv_outbound d \<and> bk_enabled b")
  case True
  show ?thesis
  proof (cases "bk_profile b")
    case None
    with True show ?thesis by (simp add: loop_step_def)
  next
    case (Some p)
    note panic = applyEgress_panic_cases [of p "bk_cache b" "dv_clock d" 0 "bk_ipid b" "dv_pkt d"]
    show ?thesis
    proof (cases "applyEgress p (bk_cache b) (dv_clock d) 0 (bk_ipid b) (dv_pkt d)")
      case None
      then show ?thesis
        using panic True Some by (simp add: loop_step_def is_ipv4_def)
    next
      case r: (Some r)
      obtain q c st where "r = ((q, c), st)" by (cases r) auto
      with r panic True Some show ?thesis
        by (auto simp: loop_step_def is_ipv4_def)
    qed
  qed
next
  case False
  obtain c where "recordInboundSyn (dv_clock d 0) (dv_pkt d) (bk_cache b) = Some c"
    using recordInboundSyn_total by blast
  with False show ?thesis
    by (auto simp: loop_step_def)
qed

text \<open>The outbound packets that take an identification from the shared counter under \<open>p\<close>.\<close>

definition numbered :: "win_profile \<Rightarrow> diverted \<Rightarrow> bool" where
  "numbered p d \<longleftrightarrow> dv_outbound d \<and> is_ipv4 (dv_pkt d) \<and> (wp_winQuirks p \<or> dv_pkt d ! 9 = 1)"

definition counting :: "win_profile \<Rightarrow> bool" where
  "counting p \<longleftrightarrow> wp_winQuirks p \<longrightarrow> wp_ipidBehavior p \<noteq> ipidZero \<and> wp_ipidBehavior p \<noteq> ipidRandom"

lemma loop_step_ipid:
  assumes "bk_enabled b" "bk_profile b = Some p" "counting p" and step: "loop_step d b = Some (s, b')"
  shows "bk_enabled b'" "bk_profile b' = Some p"
    and "ip_counter (bk_ipid b') = ip_counter (bk_ipid b) + (if numbered p d then 1 else 0)"
    and "numbered p d \<Longrightarrow> ip_id (sn_pkt s) = ip_counter (bk_ipid b) + 1"
    and "dv_outbound d \<Longrightarrow> is_ipv4 (dv_pkt d) \<Longrightarrow> \<not> numbered p d \<Longrightarrow> ip_id (sn_pkt s) = 0"
proof -
  let ?st = "bk_ipid b" and ?st' = "bk_ipid b'"
  have shaped: "(ip_id (sn_pkt s), ?st') = next_ipid p (dv_pkt d ! 9) ?st"
    if "is_ipv4 (dv_pkt d)" "applyEgress p (bk_cache b) (dv_clock d) 0 ?st (dv_pkt d) = Some ((sn_pkt s, sn_checksums s), ?st')"
    using applyEgress_outer_cases [OF _ _ that(2)] that(1) by (simp add: is_ipv4_def ip_id_def)
  have kept: "?st' = ?st"
    if "\<not> is_ipv4 (dv_pkt d)" "applyEgress p (bk_cache b) (dv_clock d) 0 ?st (dv_pkt d) = Some ((sn_pkt s, sn_checksums s), ?st')"
    using applyEgress_other [of "dv_pkt d"] that by (auto simp: is_ipv4_def)
  note next_id = next_ipid_def counting_def Let_def
  have "bk_enabled b' \<and> bk_profile b' = Some p"
    using assms(1,2) by (cases rule: loop_step_SomeE [OF step]) auto
  then show "bk_enabled b'" "bk_profile b' = Some p"
    by simp_all
  show "ip_counter ?st' = ip_counter ?st + (if numbered p d then 1 else 0)"
    using assms(1-3) shaped kept
    by (cases rule: loop_step_SomeE [OF step]; cases "is_ipv4 (dv_pkt d)")
      (auto simp: numbered_def next_id split: if_splits)
  show "ip_id (sn_pkt s) = ip_counter ?st + 1" if "numbered p d"
    using assms(1-3) shaped that
    by (cases rule: loop_step_SomeE [OF step]) (auto simp: numbered_def next_id split: if_splits)
  show "ip_id (sn_pkt s) = 0" if "dv_outbound d" "is_ipv4 (dv_pkt d)" "\<not> numbered p d"
    using assms(1-3) shaped that
    by (cases rule: loop_step_SomeE [OF step]) (auto simp: numbered_def next_id split: if_splits)
qed

lemma loop_step_checksums:
  assumes "loop_step d b = Some (s, b')"
  shows "sn_pkt s = dv_pkt d \<or> dv_outbound d \<and> sn_checksums s"
proof (cases rule: loop_step_SomeE [OF assms])
  case shaped: (2 p)
  show ?thesis
  proof (cases "is_ipv4 (dv_pkt d)")
    case True
    with shaped(1) applyEgress_outer_cases [OF _ _ shaped(7)] show ?thesis
      by (auto simp: is_ipv4_def)
  next
    case False
    then have "length (dv_pkt d) < 20 \<or> drop_bit 4 (dv_pkt d ! 0) \<noteq> 4"
      by (auto simp: is_ipv4_def)
    from applyEgress_other [OF this] shaped(7) show ?thesis by simp
  qed
qed simp_all

lemma run_loop_ConsE:
  assumes "run_loop (d # ds) b = Some (ss, b'')"
  obtains s b' ss' where "loop_step d b = Some (s, b')" "run_loop ds b' = Some (ss', b'')" "ss = s # ss'"
  using assms by (auto elim!: bind_SomeE)

lemma run_loop_length: "run_loop ds b = Some (ss, b') \<Longrightarrow> length ss = length ds"
  by (induction ds arbitrary: b ss) (fastforce elim!: bind_SomeE)+

section \<open>Properties\<close>

text \<open>The loop answers every diverted packet with one packet, in order; whatever it changed is an
  outbound packet, and its checksums are recomputed before it is sent.\<close>

theorem loop_sends_all:
  assumes "run_loop ds b = Some (ss, b')"
  shows "length ss = length ds \<and>
    (\<forall>i < length ds. sn_pkt (ss ! i) = dv_pkt (ds ! i) \<or> dv_outbound (ds ! i) \<and> sn_checksums (ss ! i))"
  using assms
proof (induction ds arbitrary: b ss)
  case (Cons d ds)
  from Cons.prems obtain s b1 ss' where step: "loop_step d b = Some (s, b1)"
    and run: "run_loop ds b1 = Some (ss', b')" and ss: "ss = s # ss'"
    by (rule run_loop_ConsE)
  show ?case
    using Cons.IH [OF run] loop_step_checksums [OF step] by (auto simp: ss nth_Cons split: nat.splits)
qed simp

text \<open>A disabled backend is transparent: every packet is sent back as it came, no checksum is
  touched, and neither the cache nor the counters move.\<close>

theorem disabled_transparent:
  assumes "\<not> bk_enabled b"
  shows "run_loop ds b = Some (map (\<lambda>d. \<lparr>sn_pkt = dv_pkt d, sn_checksums = False\<rparr>) ds, b)"
  using assms by (induction ds) (auto simp: loop_step_def)

text \<open>C7. The identifications of a run.  Under a counting persona the shaped packets that are
  numbered (all of them for Windows, so TCP and ICMP share one sequence; only ICMP for the others)
  carry consecutive values from the counter, wrapping at 16 bits; the other shaped packets carry 0.\<close>

theorem ipid_sequence:
  assumes "bk_enabled b" "bk_profile b = Some p" "counting p" "run_loop ds b = Some (ss, b')"
  shows "map (\<lambda>(d, s). ip_id (sn_pkt s)) (filter (\<lambda>(d, s). numbered p d) (zip ds ss)) =
      map (\<lambda>k. ip_counter (bk_ipid b) + of_nat (Suc k)) [0..<length (filter (numbered p) ds)] \<and>
    (\<forall>(d, s) \<in> set (zip ds ss). dv_outbound d \<and> is_ipv4 (dv_pkt d) \<and> \<not> numbered p d \<longrightarrow> ip_id (sn_pkt s) = 0)"
  using assms
proof (induction ds arbitrary: b ss)
  case (Cons d ds)
  from Cons.prems(4) obtain s b1 ss' where step: "loop_step d b = Some (s, b1)"
    and run: "run_loop ds b1 = Some (ss', b')" and ss: "ss = s # ss'"
    by (rule run_loop_ConsE)
  note st = loop_step_ipid [OF Cons.prems(1-3) step]
  note IH = Cons.IH [OF st(1,2) Cons.prems(3) run]
  have shift: "map (\<lambda>k. c + of_nat (Suc k)) [0..<Suc n] = (c + 1) # map (\<lambda>k. (c + 1) + of_nat (Suc k)) [0..<n]"
    for c :: u16 and n
    by (simp add: upt_conv_Cons map_Suc_upt [symmetric] add.assoc del: upt_Suc)
  show ?case
  proof (cases "numbered p d")
    case True
    then have len: "length (filter (numbered p) (d # ds)) = Suc (length (filter (numbered p) ds))"
      by simp
    show ?thesis
      unfolding len shift ss using IH True st(3,4) by (simp del: upt_Suc)
  next
    case False
    with IH st(3,5) show ?thesis by (simp add: ss)
  qed
qed simp

text \<open>A Windows persona answering a ping and then a SYN.\<close>

definition example_run :: "diverted list" where
  "example_run = [\<lparr>dv_outbound = True, dv_clock = (\<lambda>_. 0), dv_pkt = example_echo_reply\<rparr>,
     \<lparr>dv_outbound = True, dv_clock = (\<lambda>_. 0), dv_pkt = example_syn_ack\<rparr>]"

definition example_backend :: backend where
  "example_backend = setEnabled True (setProfile windows_11 new_backend)"

lemma example_run_sent:
  obtains s1 s2 b' where "run_loop example_run example_backend = Some ([s1, s2], b')"
proof -
  have "\<not> Option.is_none (run_loop example_run example_backend)"
    by code_simp
  then obtain ss b' where r: "run_loop example_run example_backend = Some (ss, b')"
    by (auto simp: Option.is_none_def)
  then have "length ss = 2"
    using run_loop_length [OF r] by (simp add: example_run_def)
  then obtain s1 s2 where "ss = [s1, s2]"
    by (auto simp: numeral_2_eq_2 length_Suc_conv)
  with r that show ?thesis by simp
qed

theorem ipid_sequence_witness:
  "\<exists>s1 s2 b'. run_loop example_run example_backend = Some ([s1, s2], b') \<and>
     ip_id (sn_pkt s1) = 1 \<and> ip_id (sn_pkt s2) = 2"
proof -
  obtain s1 s2 b' where r: "run_loop example_run example_backend = Some ([s1, s2], b')"
    by (rule example_run_sent)
  let ?p = "toWinProfile windows_11"
  have h: "bk_enabled example_backend" "bk_profile example_backend = Some ?p"
    "ip_counter (bk_ipid example_backend) = 0"
    by (simp_all add: example_backend_def setEnabled_def setProfile_def new_backend_def)
  have p: "counting ?p" and n: "list_all (numbered ?p) example_run"
    by code_simp+
  from n have n: "numbered ?p (example_run ! 0)" "numbered ?p (example_run ! 1)"
    by (simp_all add: example_run_def)
  show ?thesis
    using ipid_sequence [OF h(1,2) p r] r n h(3) by (simp add: example_run_def)
qed

theorem loop_sends_all_witness:
  "\<exists>ss b'. run_loop example_run example_backend = Some (ss, b') \<and> length ss = 2"
proof -
  obtain s1 s2 b' where r: "run_loop example_run example_backend = Some ([s1, s2], b')"
    by (rule example_run_sent)
  with loop_sends_all [OF r] show ?thesis
    by (auto simp: example_run_def)
qed

theorem disabled_transparent_witness:
  "run_loop example_run new_backend =
     Some ([\<lparr>sn_pkt = example_echo_reply, sn_checksums = False\<rparr>, \<lparr>sn_pkt = example_syn_ack, sn_checksums = False\<rparr>],
       new_backend)"
  using disabled_transparent [of new_backend example_run] by (simp add: new_backend_def example_run_def)

section \<open>The random identifications\<close>

lemma xor_shift_left_zero:
  assumes "s XOR push_bit n s = (0 :: u32)" "0 < n"
  shows "s = 0"
proof -
  have "\<not> bit s k" if "k < 32" for k
    using that
  proof (induction k rule: less_induct)
    case (less k)
    have "\<not> bit (s XOR push_bit n s) k"
      using assms(1) by simp
    then have "bit s k \<longleftrightarrow> n \<le> k \<and> bit s (k - n)"
      using less.prems by (auto simp: bit_simps)
    with less assms(2) show ?case by auto
  qed
  then show ?thesis
    by (intro bit_word_eqI) auto
qed

lemma xor_shift_right_zero:
  assumes "s XOR drop_bit n s = (0 :: u32)" "0 < n"
  shows "s = 0"
proof -
  have "\<not> bit s (32 - k)" if "k \<le> 32" for k
    using that
  proof (induction k rule: less_induct)
    case (less k)
    have "\<not> bit (s XOR drop_bit n s) (32 - k)"
      using assms(1) by simp
    then have eq: "bit s (32 - k) \<longleftrightarrow> bit s (32 - k + n)"
      by (auto simp: bit_simps add.commute)
    show ?case
    proof (cases "n < k")
      case True
      have "32 - k + n = 32 - (k - n)"
        using True less.prems by simp
      with less.IH [of "k - n"] less.prems assms(2) True eq show ?thesis by simp
    next
      case False
      then have "32 \<le> 32 - k + n"
        using less.prems by simp
      then have "\<not> bit s (32 - k + n)"
        using bit_imp_le_length by fastforce
      with eq show ?thesis by simp
    qed
  qed
  then have "\<not> bit s k" if "k < 32" for k
    using that by (metis diff_diff_cancel diff_le_self less_imp_le)
  then show ?thesis
    by (intro bit_word_eqI) auto
qed

text \<open>C13. The generator of random identifications never degenerates: from a non-zero state, and
  \<open>New\<close> starts it with one, the state stays non-zero for ever (a zero state would repeat itself
  and number every packet 0).\<close>

theorem xorshift_nonzero:
  "(xorshift ^^ n) (ip_seed (bk_ipid new_backend)) \<noteq> 0"
proof (induction n)
  case (Suc n)
  have "xorshift s \<noteq> 0" if s: "s \<noteq> 0" for s
  proof -
    define a where "a = s XOR push_bit 13 s"
    define b where "b = a XOR drop_bit 17 a"
    have "a \<noteq> 0"
      unfolding a_def using xor_shift_left_zero [OF _ zero_less_numeral, of s] s by blast
    then have "b \<noteq> 0"
      unfolding b_def using xor_shift_right_zero [OF _ zero_less_numeral, of a] by blast
    then have "b XOR push_bit 5 b \<noteq> 0"
      using xor_shift_left_zero [OF _ zero_less_numeral, of b] by blast
    then show ?thesis
      by (simp only: xorshift_def Let_def a_def b_def not_False_eq_True)
  qed
  with Suc show ?case by simp
qed (simp add: new_backend_def)

end
