(* ===== verification/Egress_Options.thy ===== *)
theory Egress_Options
  imports Egress
begin

text \<open>
  The TCP options a SYN-ACK leaves with: for the personas without the Linux rules, a 20-byte option
  list of the host is replaced by the persona's template, cut or extended to the persona's length,
  and no later section of \<open>applyTCP\<close> touches it again.
\<close>

section \<open>The option bytes of a segment\<close>

definition opts :: "nat \<Rightarrow> egress \<Rightarrow> bytes" where
  "opts ihl s = take (eg_optLen s) (drop (ihl + 20) (eg_pkt s))"

text \<open>A stage that leaves the options alone.\<close>

definition opts_kept :: "nat \<Rightarrow> egress \<Rightarrow> egress option \<Rightarrow> bool" where
  "opts_kept ihl s r \<longleftrightarrow> (\<exists>s'. r = Some s' \<and> hdr_ok ihl s' \<and> opts ihl s' = opts ihl s \<and> eg_optLen s' = eg_optLen s)"

lemma opts_kept_skip: "hdr_ok ihl s \<Longrightarrow> opts_kept ihl s (Some s)"
  by (simp add: opts_kept_def)

lemma opts_kept_put:
  assumes "hdr_ok ihl s" "13 \<le> i" "i + length xs \<le> 16"
  shows "opts_kept ihl s (tcp_put ihl i xs s)"
proof -
  have b: "ihl + i + length xs \<le> length (eg_pkt s)"
    using assms by (auto simp: hdr_ok_def)
  have "stage_ok ihl s (tcp_put ihl i xs s)"
    using assms by (intro tcp_put_ok) auto
  moreover have "drop (ihl + 20) (overwrite (eg_pkt s) (ihl + i) xs) = drop (ihl + 20) (eg_pkt s)"
    using assms b by (intro drop_overwrite) auto
  ultimately show ?thesis
    by (auto simp: opts_kept_def stage_ok_def opts_def tcp_put_eq [OF b])
qed

lemma opts_kept_bind:
  assumes "opts_kept ihl s m" "\<And>s'. hdr_ok ihl s' \<Longrightarrow> eg_optLen s' = eg_optLen s \<Longrightarrow> opts_kept ihl s' (f s')"
  shows "opts_kept ihl s (m \<bind> f)"
  using assms by (fastforce simp: opts_kept_def)

lemma opts_kept_if: "(c \<Longrightarrow> opts_kept ihl s a) \<Longrightarrow> (\<not> c \<Longrightarrow> opts_kept ihl s b) \<Longrightarrow> opts_kept ihl s (if c then a else b)"
  by simp

lemma sec_window_opts: "hdr_ok (cx_ihl cx) s \<Longrightarrow> opts_kept (cx_ihl cx) s (sec_window cx s)"
  unfolding sec_window_def Let_def
  by (intro opts_kept_if opts_kept_put opts_kept_skip) simp_all

lemma sec_rst_opts: "hdr_ok (cx_ihl cx) s \<Longrightarrow> opts_kept (cx_ihl cx) s (sec_rst cx s)"
  unfolding sec_rst_def Let_def
  by (intro opts_kept_if opts_kept_put opts_kept_skip) simp_all

lemma sec_ecn_cc_opts: "hdr_ok (cx_ihl cx) s \<Longrightarrow> opts_kept (cx_ihl cx) s (sec_ecn_cc cx s)"
  unfolding sec_ecn_cc_def Let_def
  by (intro opts_kept_bind opts_kept_if opts_kept_put opts_kept_skip) simp_all

text \<open>A persona without the Linux rules: no Linux ECN template, and the second option is not SACK.\<close>

definition plain_persona :: "win_profile \<Rightarrow> bool" where
  "plain_persona p \<longleftrightarrow> \<not> wp_ecnEcho p \<and> wp_opt1 p \<noteq> optSACKPerm"

lemma isSYNACK_isSYN: "isSYNACK f \<Longrightarrow> isSYN f"
proof -
  assume "isSYNACK f"
  then have "bit (f AND 0x12) 1"
    by (simp add: isSYNACK_def)
  then have "bit (f AND 0x02) 1"
    by (simp add: bit_simps)
  then show ?thesis
    unfolding isSYN_def by (metis bit_0_eq bot_apply bot_bool_def)
qed

definition tail_stages :: "stage list" where
  "tail_stages = [sec_ecn, sec_syn12, sec_o6_ts, sec_o6_nots, sec_coherence, sec_rst, sec_st11, sec_ecn_cc]"

lemma run_stages_Nil [simp]: "run_stages [] cx = Some"
  by (intro ext) simp

lemma tail_stages_opts:
  assumes "hdr_ok (cx_ihl cx) s" "plain_persona (cx_prof cx)" "isSYNACK (cx_flags cx)" "eg_optLen s \<noteq> 16"
  shows "opts_kept (cx_ihl cx) s (run_stages tail_stages cx s)"
proof -
  note syn = isSYNACK_isSYN [OF assms(3)]
  have "run_stages tail_stages cx s = sec_rst cx s \<bind> (\<lambda>s. sec_ecn_cc cx s)"
  proof -
    have "sec_st11 cx t = Some t" for t
      using assms by (simp add: sec_st11_def plain_persona_def)
    then have "run_stages [sec_st11, sec_ecn_cc] cx = sec_ecn_cc cx"
      by (intro ext) simp
    then show ?thesis
      using assms syn
      by (simp add: tail_stages_def sec_ecn_def sec_syn12_def sec_o6_ts_def sec_o6_nots_def sec_coherence_def
          plain_persona_def Let_def)
  qed
  then show ?thesis
    using assms(1) by (auto intro: opts_kept_bind sec_rst_opts sec_ecn_cc_opts)
qed

text \<open>The 20-byte section and what follows it.\<close>

lemma set_lengths_drop:
  assumes "set_lengths ihl n out = Some p" "20 \<le> ihl" "ihl + 12 < length out"
  shows "drop (ihl + 20) p = drop (ihl + 20) out"
  using assms by (auto simp: set_lengths_eq drop_overwrite)

lemma shrink_opts:
  assumes ok: "hdr_ok ihl s" "eg_optLen s = 20" and w: "w mod 4 = 0" "w < 20"
  shows "\<exists>p. shrinkTCPHeader (eg_pkt s) ihl 40 (20 + w) = Some p \<and> hdr_ok ihl (resize_to (20 + w) p s) \<and>
    opts ihl (resize_to (20 + w) p s) = take w (opts ihl s)"
proof -
  have hl: "eg_tcpHL s = 40" and l: "20 \<le> ihl" "ihl + 40 \<le> length (eg_pkt s)"
    using ok by (auto simp: hdr_ok_def)
  have "(20 + w) mod 4 = 0"
    using w(1) by presburger
  then obtain p where p: "shrinkTCPHeader (eg_pkt s) ihl 40 (20 + w) = Some p" "hdr_ok ihl (resize_to (20 + w) p s)"
    using shrink_ok [OF ok(1), of "20 + w"] w(2) unfolding hl by auto
  then have "set_lengths ihl (20 + w) (take (ihl + (20 + w)) (eg_pkt s) @ drop (ihl + 40) (eg_pkt s)) = Some p"
    using w(2) l by (simp add: shrinkTCPHeader_def split: if_splits)
  from set_lengths_drop [OF this] have "drop (ihl + 20) p = take w (drop (ihl + 20) (eg_pkt s)) @ drop (ihl + 40) (eg_pkt s)"
    using l w(2) by (simp add: drop_take)
  then have "opts ihl (resize_to (20 + w) p s) = take w (opts ihl s)"
    using l w(2) ok by (simp add: opts_def resize_to_def)
  with p show ?thesis by blast
qed

lemma grow_opts:
  assumes ok: "hdr_ok ihl s" "eg_optLen s = 20"
  shows "\<exists>s'. (growTCPHeader (eg_pkt s) ihl 40 44 \<bind>
      (\<lambda>out. tcp_put ihl 40 [optSACKPerm, 2] (resize_to 44 out s) \<bind> tcp_put ihl 42 [optEOL, optEOL])) = Some s' \<and>
    hdr_ok ihl s' \<and> eg_optLen s' = 24 \<and> opts ihl s' = opts ihl s @ [optSACKPerm, 2, optEOL, optEOL]"
proof -
  have hl: "eg_tcpHL s = 40" and l: "20 \<le> ihl" "ihl + 40 \<le> length (eg_pkt s)"
    using ok by (auto simp: hdr_ok_def)
  obtain p where p: "growTCPHeader (eg_pkt s) ihl 40 44 = Some p" "hdr_ok ihl (resize_to 44 p s)"
    using grow_ok [OF ok(1), of 44] unfolding hl by auto
  let ?out = "take (ihl + 40) (eg_pkt s) @ replicate 4 0 @ drop (ihl + 40) (eg_pkt s)"
  have "set_lengths ihl 44 ?out = Some p"
    using p(1) l by (simp add: growTCPHeader_def split: if_splits)
  from set_lengths_drop [OF this]
  have d: "drop (ihl + 20) p = take 20 (drop (ihl + 20) (eg_pkt s)) @ replicate 4 0 @ drop (ihl + 40) (eg_pkt s)"
    using l by (simp add: drop_take)
  have lp: "ihl + 44 \<le> length p"
    using p(2) by (simp add: hdr_ok_def resize_to_def)
  let ?p1 = "overwrite p (ihl + 40) [optSACKPerm, 2]"
  let ?p2 = "overwrite ?p1 (ihl + 42) [optEOL, optEOL]"
  let ?s = "(resize_to 44 p s)\<lparr>eg_pkt := ?p2\<rparr>"
  have r: "(growTCPHeader (eg_pkt s) ihl 40 44 \<bind>
      (\<lambda>out. tcp_put ihl 40 [optSACKPerm, 2] (resize_to 44 out s) \<bind> tcp_put ihl 42 [optEOL, optEOL])) = Some ?s"
    using p lp by (simp add: tcp_put_eq resize_to_def)
  have "stage_ok ihl s (Some ?s)"
    using o44_ok [OF ok(1) hl] r by simp
  then have "hdr_ok ihl ?s"
    by (auto simp: stage_ok_def)
  moreover have "take 24 (drop (ihl + 20) ?p2) = take 20 (drop (ihl + 20) p) @ [optSACKPerm, 2, optEOL, optEOL]"
    using lp by (intro nth_equalityI) (auto simp: overwrite_def nth_append min_def nth_Cons')
  then have "opts ihl ?s = opts ihl s @ [optSACKPerm, 2, optEOL, optEOL]"
    using ok l by (simp add: opts_def resize_to_def d)
  ultimately show ?thesis
    using r by (auto simp: resize_to_def)
qed

text \<open>What the 20-byte section writes for a SYN-ACK: the template cut to the length wanted, then
  the macOS extension when its condition holds.\<close>

definition syn20_result :: "win_profile \<Rightarrow> bytes \<Rightarrow> nat \<Rightarrow> bytes" where
  "syn20_result p no want = take want no @
     (if \<not> wp_winQuirks p \<and> wp_ipidBehavior p = ipidZero \<and> wp_tcpTimestamps p \<and> want = 20
      then [optSACKPerm, 2, optEOL, optEOL] else [])"

lemma put_opts:
  assumes "hdr_ok ihl s" "eg_optLen s = 20" "length no = 20"
  shows "\<exists>s'. tcp_put ihl 20 no s = Some s' \<and> hdr_ok ihl s' \<and> eg_optLen s' = 20 \<and> opts ihl s' = no"
proof -
  have b: "ihl + 20 + length no \<le> length (eg_pkt s)" and hl: "eg_tcpHL s = 40"
    using assms by (auto simp: hdr_ok_def)
  have "stage_ok ihl s (tcp_put ihl 20 no s)"
    using assms hl by (intro tcp_put_ok) auto
  moreover have "take 20 (drop (ihl + 20) (overwrite (eg_pkt s) (ihl + 20) no)) = no"
    using b assms(3) take_drop_overwrite_in [of "ihl + 20" no "eg_pkt s"] by simp
  ultimately show ?thesis
    using assms(2) by (auto simp: stage_ok_def opts_def tcp_put_eq [OF b])
qed

lemma sec_syn20_opts:
  assumes ok: "hdr_ok (cx_ihl cx) s" "eg_optLen s = 20"
    and p: "wp_optionsCount (cx_prof cx) > 0" "isSYNACK (cx_flags cx)"
    and o: "syn20_options cx (eg_reads s) (opts (cx_ihl cx) s) = (no, want, r)"
  shows "\<exists>s'. sec_syn20 cx s = Some s' \<and> hdr_ok (cx_ihl cx) s' \<and>
    opts (cx_ihl cx) s' = syn20_result (cx_prof cx) no want \<and>
    eg_optLen s' = length (syn20_result (cx_prof cx) no want)"
proof -
  let ?ihl = "cx_ihl cx" and ?p = "cx_prof cx"
  let ?s = "s\<lparr>eg_reads := r\<rparr>"
  have no: "length no = 20" and want: "want \<in> {8, 12, 20}"
    using length_syn20_options [of cx "eg_reads s" "opts ?ihl s"] want_syn20_options [of cx "eg_reads s" "opts ?ihl s"]
    by (simp_all add: o)
  have sl: "tcp_slice ?ihl s 20 40 = opts ?ihl s"
    using ok by (simp add: tcp_slice_def opts_def)
  obtain s1 where s1: "tcp_put ?ihl 20 no ?s = Some s1" "hdr_ok ?ihl s1" "eg_optLen s1 = 20" "opts ?ihl s1 = no"
    using put_opts [of ?ihl ?s no] ok no by auto
  have "tcp_len ?ihl s \<ge> 40"
    using ok by (auto simp: tcp_len_def hdr_ok_def)
  then have sec: "sec_syn20 cx s =
      (if want < 20 then shrinkTCPHeader (eg_pkt s1) ?ihl 40 (20 + want) \<bind> (\<lambda>out. Some (resize_to (20 + want) out s1))
       else Some s1) \<bind>
      (\<lambda>s2. if \<not> wp_winQuirks ?p \<and> wp_ipidBehavior ?p = ipidZero \<and> wp_tcpTimestamps ?p \<and> want = 20
        then growTCPHeader (eg_pkt s2) ?ihl 40 44 \<bind>
          (\<lambda>out. tcp_put ?ihl 40 [optSACKPerm, 2] (resize_to 44 out s2) \<bind> tcp_put ?ihl 42 [optEOL, optEOL])
        else Some s2)"
    using ok p s1(1) by (simp add: sec_syn20_def Let_def sl o isSynPhase_def)
  show ?thesis
  proof (cases "want = 20")
    case True
    then show ?thesis
      using grow_opts [OF s1(2,3)] s1 no by (auto simp: sec syn20_result_def)
  next
    case False
    then have w: "want mod 4 = 0" "want < 20"
      using want by auto
    from shrink_opts [OF s1(2,3) w] show ?thesis
      using False s1(4) no w by (auto simp: sec syn20_result_def resize_to_def)
  qed
qed

lemma plain_syn_ack_opts:
  assumes ihl: "20 \<le> ihl" and wf: "tcp_wf pkt ihl" and hl: "tcp_hl (pkt ! (ihl + 12)) = 40"
    and sa: "isSYNACK (pkt ! (ihl + 13))" and p: "plain_persona p" "wp_optionsCount p > 0"
    and o: "syn20_options (tcp_context p cache clk reads pkt ihl) (reads + 1) (take 20 (drop (ihl + 20) pkt)) = (no, want, r)"
  shows "\<exists>s. applyTCP p cache clk reads pkt ihl = Some s \<and> hdr_ok ihl s \<and> opts ihl s = syn20_result p no want \<and>
    eg_tcpHL s = 20 + length (syn20_result p no want)"
proof -
  let ?cx = "tcp_context p cache clk reads pkt ihl" and ?s = "tcp_start reads pkt ihl"
  have cx: "cx_ihl ?cx = ihl" "cx_prof ?cx = p" "cx_flags ?cx = pkt ! (ihl + 13)"
    by (simp_all add: tcp_context_def)
  have s: "hdr_ok ihl ?s" "eg_optLen ?s = 20" "opts ihl ?s = take 20 (drop (ihl + 20) pkt)" "eg_reads ?s = reads + 1"
    using tcp_start_ok [OF wf ihl] hl by (simp_all add: tcp_start_def opts_def)
  have "opts_kept ihl ?s (sec_window ?cx ?s)"
    using sec_window_opts [of ?cx ?s] s(1) cx by simp
  then obtain s1 where s1: "sec_window ?cx ?s = Some s1" "hdr_ok ihl s1" "opts ihl s1 = opts ihl ?s" "eg_optLen s1 = 20"
    using s(2) by (auto simp: opts_kept_def)
  have "eg_reads s1 = reads + 1"
    using s1(1) s(4) by (auto simp: sec_window_def Let_def tcp_put_def split: if_splits elim!: bind_SomeE)
  then obtain s2 where s2: "sec_syn20 ?cx s1 = Some s2" "hdr_ok ihl s2" "opts ihl s2 = syn20_result p no want"
      "eg_optLen s2 = length (syn20_result p no want)"
    using sec_syn20_opts [of ?cx s1 no want r] s1 s(3) o cx p(2) sa by auto
  have "length no = 20" "want \<in> {8, 12, 20}"
    using length_syn20_options [of ?cx "reads + 1"] want_syn20_options [of ?cx "reads + 1"] by (metis o fst_conv snd_conv)+
  then have "eg_optLen s2 \<noteq> 16"
    using s2(4) by (auto simp: syn20_result_def)
  then have "opts_kept ihl s2 (run_stages tail_stages ?cx s2)"
    using tail_stages_opts [of ?cx s2] s2(2) cx p sa by simp
  moreover have "applyTCP p cache clk reads pkt ihl = run_stages tail_stages ?cx s2"
    using applyTCP_wf [OF wf ihl] s1(1) s2(1) s(2)
    by (simp add: tcp_stages_def tail_stages_def sec_expand_def [of ?cx ?s] Let_def)
  ultimately show ?thesis
    using s2 by (auto simp: opts_kept_def hdr_ok_def)
qed

section \<open>Properties\<close>

text \<open>A SYN-ACK with 20 bytes of options.\<close>

definition syn_ack20 :: "bytes \<Rightarrow> nat \<Rightarrow> bool" where
  "syn_ack20 pkt ihl \<longleftrightarrow> 20 \<le> ihl \<and> tcp_wf pkt ihl \<and> tcp_hl (pkt ! (ihl + 12)) = 40 \<and> isSYNACK (pkt ! (ihl + 13))"

definition host_opts :: "bytes \<Rightarrow> nat \<Rightarrow> bytes" where
  "host_opts pkt ihl = take 20 (drop (ihl + 20) pkt)"

definition sack_wanted :: "win_profile \<Rightarrow> bytes \<Rightarrow> bool" where
  "sack_wanted p old \<longleftrightarrow> wp_sackPermitted p \<and> (\<exists>i \<in> {4, 6, 8, 10, 12, 16}. old ! i = optSACKPerm)"

text \<open>The TSecr of the answer: the client's TSval if its SYN was seen and carried one, else the
  host's own echo, else a clock reading.\<close>

definition answer_tsecr :: "syn_flow option \<Rightarrow> bytes \<Rightarrow> u64 \<Rightarrow> u32" where
  "answer_tsecr fl old t = (let e = echo_tsecr fl (old_tsecr old) in if e = 0 then uptimeMs t else e)"

lemma replicate_20: "replicate 20 x = [x, x, x, x, x, x, x, x, x, x, x, x, x, x, x, x, x, x, x, x]"
  by (simp add: eval_nat_numeral)

lemma overwrite_Cons:
  "overwrite (x # b) (Suc i) xs = x # overwrite b i xs"
  "overwrite (x # b) (numeral k) xs = x # overwrite b (pred_numeral k) xs"
  "overwrite (x # b) 0 (y # ys) = y # overwrite b 0 ys"
  "overwrite b 0 [] = b"
  by (simp_all add: overwrite_def numeral_eq_Suc)

lemmas template_bytes = putMSS_def wscaleOpt_def mssOpt_def enc16_def enc32_def overwrite_Cons opt_defs replicate_20

lemma win_ts_template_bytes:
  "win_ts_template p u m a b = mssOpt m @ [1, 3, 3, wp_windowScale p] @ (if u then [4, 2] else [1, 1]) @
     [8, 10] @ enc32 a @ enc32 b"
  by (cases u) (simp_all add: win_ts_template_def template_bytes)

lemma win_nots_template_bytes:
  "take (if u then 12 else 8) (win_nots_template p u m) =
     mssOpt m @ [1, 3, 3, wp_windowScale p] @ (if u then [1, 1, 4, 2] else [])"
  by (cases u) (simp_all add: win_nots_template_def template_bytes)

lemma syn20_options_win_ts:
  assumes "wp_windowScale p > 0" "wp_tcpTimestamps p" "wp_opt1 p \<noteq> optSACKPerm" "cx_prof cx = p"
  shows "syn20_options cx r old = (win_ts_template p (sack_wanted p old) (old_mss p old)
     (tsval p (cx_clk cx r)) (answer_tsecr (cx_flow cx) old (cx_clk cx (r + 1))), 20, r + 2)"
  using assms by (simp add: syn20_options_def sack_wanted_def answer_tsecr_def Let_def)

lemma syn20_options_win_nots:
  assumes "wp_windowScale p > 0" "\<not> wp_tcpTimestamps p" "cx_prof cx = p"
  shows "syn20_options cx r old = (win_nots_template p (sack_wanted p old) (old_mss p old),
     if sack_wanted p old then 12 else 8, r)"
  using assms by (simp add: syn20_options_def sack_wanted_def Let_def word_gt_0)

text \<open>A Windows persona with timestamps answers a SYN with exactly the options
  MSS, NOP, WS, SACK (or two NOPs when the host offered no SACK), TS: the host's MSS is kept, the
  TSval follows the persona's clock and the TSecr echoes the client.\<close>

theorem windows_syn_ack_options:
  assumes "syn_ack20 pkt ihl" "plain_persona p" "wp_winQuirks p" "wp_optionsCount p > 0"
    and "wp_windowScale p > 0" "wp_tcpTimestamps p"
  shows "\<exists>s. applyTCP p cache clk reads pkt ihl = Some s \<and> eg_tcpHL s = 40 \<and>
    opts ihl s = (let old = host_opts pkt ihl in
      mssOpt (old_mss p old) @ [1, 3, 3, wp_windowScale p] @
      (if sack_wanted p old then [4, 2] else [1, 1]) @ [8, 10] @ enc32 (tsval p (clk (reads + 1))) @
      enc32 (answer_tsecr (tcp_flow cache (clk reads) pkt ihl) old (clk (reads + 2))))"
proof -
  have c: "cx_prof (tcp_context p cache clk reads pkt ihl) = p"
    "cx_clk (tcp_context p cache clk reads pkt ihl) = clk"
    "cx_flow (tcp_context p cache clk reads pkt ihl) = tcp_flow cache (clk reads) pkt ihl"
    by (simp_all add: tcp_context_def)
  have n: "wp_opt1 p \<noteq> optSACKPerm"
    using assms(2) by (simp add: plain_persona_def)
  have h: "20 \<le> ihl" "tcp_wf pkt ihl" "tcp_hl (pkt ! (ihl + 12)) = 40" "isSYNACK (pkt ! (ihl + 13))"
    using assms(1) by (simp_all add: syn_ack20_def)
  have t: "syn20_result p (win_ts_template p u m a b) 20 = mssOpt m @ [1, 3, 3, wp_windowScale p] @
      (if u then [4, 2] else [1, 1]) @ [8, 10] @ enc32 a @ enc32 b" for u m a b
    unfolding win_ts_template_bytes [symmetric]
    using assms(3) length_templates(4) [of p u m a b] by (simp add: syn20_result_def)
  have l: "length (syn20_result p (win_ts_template p u m a b) 20) = 20" for u m a b
    using assms(3) by (simp add: syn20_result_def)
  note r = plain_syn_ack_opts [OF h assms(2,4) syn20_options_win_ts [OF assms(5,6) n c(1)], folded host_opts_def,
      unfolded l c t]
  show ?thesis
    using r by (simp only: Let_def) (auto simp: add.assoc)
qed

text \<open>A Windows persona without timestamps never shows one, whatever the host sent: the
  20-byte list becomes MSS, NOP, WS and, when the host offered SACK, NOP, NOP, SACK, and the header
  shrinks with it.\<close>

theorem windows_nots_syn_ack_options:
  assumes "syn_ack20 pkt ihl" "plain_persona p" "wp_optionsCount p > 0"
    and "wp_windowScale p > 0" "\<not> wp_tcpTimestamps p"
  shows "\<exists>s. applyTCP p cache clk reads pkt ihl = Some s \<and>
    tcp_hl (eg_pkt s ! (ihl + 12)) = (if sack_wanted p (host_opts pkt ihl) then 32 else 28) \<and>
    opts ihl s = mssOpt (old_mss p (host_opts pkt ihl)) @ [1, 3, 3, wp_windowScale p] @
      (if sack_wanted p (host_opts pkt ihl) then [1, 1, 4, 2] else [])"
proof -
  have c: "cx_prof (tcp_context p cache clk reads pkt ihl) = p"
    by (simp add: tcp_context_def)
  have h: "20 \<le> ihl" "tcp_wf pkt ihl" "tcp_hl (pkt ! (ihl + 12)) = 40" "isSYNACK (pkt ! (ihl + 13))"
    using assms(1) by (simp_all add: syn_ack20_def)
  let ?u = "sack_wanted p (host_opts pkt ihl)"
  have t: "syn20_result p (win_nots_template p ?u m) (if ?u then 12 else 8) =
      mssOpt m @ [1, 3, 3, wp_windowScale p] @ (if ?u then [1, 1, 4, 2] else [])" for m
    using win_nots_template_bytes [of ?u p m] by (auto simp: syn20_result_def split: if_splits)
  note r = plain_syn_ack_opts [OF h assms(2,3) syn20_options_win_nots [OF assms(4,5) c], folded host_opts_def]
  show ?thesis
    using r unfolding t by (auto simp: hdr_ok_def mssOpt_def enc16_def)
qed

lemma plain_windows: "plain_persona (toWinProfile windows_11)" "wp_winQuirks (toWinProfile windows_11)"
  "wp_optionsCount (toWinProfile windows_11) > 0" "wp_windowScale (toWinProfile windows_11) > 0"
  by code_simp+

theorem windows_syn_ack_options_witness:
  "\<exists>s. applyTCP (toWinProfile windows_11) [] (\<lambda>_. 5) 0 example_syn_ack 20 = Some s \<and> eg_tcpHL s = 40 \<and>
     opts 20 s = [2, 4, 5, 0xb4, 1, 3, 3, 8, 4, 2, 8, 10, 0, 0, 0, 5, 0, 0, 0, 7]"
proof -
  let ?p = "toWinProfile windows_11"
  have h: "syn_ack20 example_syn_ack 20" and ts: "wp_tcpTimestamps ?p"
    by code_simp+
  have v: "(let old = host_opts example_syn_ack 20 in
      mssOpt (old_mss ?p old) @ [1, 3, 3, wp_windowScale ?p] @
      (if sack_wanted ?p old then [4, 2] else [1, 1]) @ [8, 10] @ enc32 (tsval ?p 5) @
      enc32 (answer_tsecr (tcp_flow [] 5 example_syn_ack 20) old 5)) =
     [2, 4, 5, 0xb4, 1, 3, 3, 8, 4, 2, 8, 10, 0, 0, 0, 5, 0, 0, 0, 7]"
    by code_simp
  show ?thesis
    using windows_syn_ack_options [OF h plain_windows ts, of "[]" "\<lambda>_. 5" 0] unfolding v .
qed

theorem windows_nots_syn_ack_options_witness:
  "\<exists>s. applyTCP (toWinProfile server_2019) [] (\<lambda>_. 5) 0 example_syn_ack 20 = Some s \<and>
     tcp_hl (eg_pkt s ! 32) = 32 \<and> opts 20 s = [2, 4, 5, 0xb4, 1, 3, 3, 8, 1, 1, 4, 2]"
proof -
  have h: "syn_ack20 example_syn_ack 20" "plain_persona (toWinProfile server_2019)" "wp_optionsCount (toWinProfile server_2019) > 0"
    "wp_windowScale (toWinProfile server_2019) > 0" "\<not> wp_tcpTimestamps (toWinProfile server_2019)"
    by code_simp+
  have v: "sack_wanted (toWinProfile server_2019) (host_opts example_syn_ack 20)"
    "mssOpt (old_mss (toWinProfile server_2019) (host_opts example_syn_ack 20)) = [2, 4, 5, 0xb4]"
    "wp_windowScale (toWinProfile server_2019) = 8"
    by code_simp+
  show ?thesis
    using windows_nots_syn_ack_options [OF h, of "[]" "\<lambda>_. 5" 0] by (simp add: v)
qed

text \<open>The shipped macOS persona does not get the macOS template on this backend: its window
  scale and timestamps select the Windows branch of the switch first, and the extension then appends
  SACK, EOL, EOL.  So wherever the host offered SACK, the SYN-ACK carries the option twice
  (MSS, NOP, WS, SACK, TS, SACK, EOL, EOL), not the declared MSS, NOP, WS, NOP, NOP, TS, SACK, EOL.\<close>

theorem macos_syn_ack_options:
  assumes "syn_ack20 pkt ihl"
  shows "\<exists>s. applyTCP (toWinProfile sequoia) cache clk reads pkt ihl = Some s \<and> eg_tcpHL s = 44 \<and>
    opts ihl s = (let p = toWinProfile sequoia; old = host_opts pkt ihl in
      mssOpt (old_mss p old) @ [1, 3, 3, 6] @
      (if sack_wanted p old then [4, 2] else [1, 1]) @ [8, 10] @ enc32 (tsval p (clk (reads + 1))) @
      enc32 (answer_tsecr (tcp_flow cache (clk reads) pkt ihl) old (clk (reads + 2))) @ [4, 2, 0, 0])"
proof -
  let ?p = "toWinProfile sequoia"
  have c: "cx_prof (tcp_context ?p cache clk reads pkt ihl) = ?p"
    "cx_clk (tcp_context ?p cache clk reads pkt ihl) = clk"
    "cx_flow (tcp_context ?p cache clk reads pkt ihl) = tcp_flow cache (clk reads) pkt ihl"
    by (simp_all add: tcp_context_def)
  have p: "plain_persona ?p" "wp_optionsCount ?p > 0" "wp_windowScale ?p > 0" "wp_tcpTimestamps ?p"
    "\<not> wp_winQuirks ?p" "wp_ipidBehavior ?p = ipidZero" "wp_windowScale ?p = 6"
    by code_simp+
  have n: "wp_opt1 ?p \<noteq> optSACKPerm"
    using p(1) by (simp add: plain_persona_def)
  have h: "20 \<le> ihl" "tcp_wf pkt ihl" "tcp_hl (pkt ! (ihl + 12)) = 40" "isSYNACK (pkt ! (ihl + 13))"
    using assms(1) by (simp_all add: syn_ack20_def)
  have t: "syn20_result ?p (win_ts_template ?p u m a b) 20 = mssOpt m @ [1, 3, 3, 6] @
      (if u then [4, 2] else [1, 1]) @ [8, 10] @ enc32 a @ enc32 b @ [4, 2, 0, 0]" for u m a b
    using p(4-6) length_templates(4) [of ?p u m a b] win_ts_template_bytes [of ?p u m a b]
    by (simp add: syn20_result_def p(7) opt_defs)
  have l: "length (syn20_result ?p (win_ts_template ?p u m a b) 20) = 24" for u m a b
    using p(4-6) by (simp add: syn20_result_def)
  note r = plain_syn_ack_opts [OF h p(1,2) syn20_options_win_ts [OF p(3,4) n c(1)], folded host_opts_def,
      unfolded l c t]
  show ?thesis
    using r by (simp only: Let_def) (auto simp: add.assoc)
qed

theorem macos_syn_ack_options_witness:
  "\<exists>s. applyTCP (toWinProfile sequoia) [] (\<lambda>_. 5) 0 example_syn_ack 20 = Some s \<and>
     opts 20 s = [2, 4, 5, 0xb4, 1, 3, 3, 6, 4, 2, 8, 10, 0, 0, 0, 5, 0, 0, 0, 7, 4, 2, 0, 0]"
proof -
  let ?p = "toWinProfile sequoia"
  have h: "syn_ack20 example_syn_ack 20"
    by code_simp
  have v: "(let p = ?p; old = host_opts example_syn_ack 20 in
      mssOpt (old_mss p old) @ [1, 3, 3, 6] @
      (if sack_wanted p old then [4, 2] else [1, 1]) @ [8, 10] @ enc32 (tsval p 5) @
      enc32 (answer_tsecr (tcp_flow [] 5 example_syn_ack 20) old 5) @ [4, 2, 0, 0]) =
     [2, 4, 5, 0xb4, 1, 3, 3, 6, 4, 2, 8, 10, 0, 0, 0, 5, 0, 0, 0, 7, 4, 2, 0, 0]"
    by code_simp
  show ?thesis
    using macos_syn_ack_options [OF h, of "[]" "\<lambda>_. 5" 0] unfolding v by blast
qed

end
