(* ===== verification/Syn_Ack.thy ===== *)
theory Syn_Ack
  imports Egress_Options Packet_Loop
begin

text \<open>
  A client's SYN and the SYN-ACK that answers it, through the packet loop: what the tap remembers of the
  one shapes the other, whatever other traffic is handled in between.
\<close>

section \<open>What the loop remembers\<close>





section \<open>What shapes the answer\<close>







section \<open>Property\<close>





end
