(* ===== verification/Deception_Rng.thy ===== *)
theory Deception_Rng
  imports Go_Strings
begin

text \<open>
  The deterministic generator under the deception content: the \<open>lcg\<close> of
  \<open>internal/deception/maze.go\<close>, the path seed (FNV-1a, 64 bits, over the lower-cased path) and
  \<open>pickUnique\<close>.  Random state is passed explicitly.
\<close>

section \<open>Generator and seed\<close>

type_synonym rng = u64

definition lcg_next :: "rng \<Rightarrow> rng" where
  "lcg_next s = s * 6364136223846793005 + 1442695040888963407"

text \<open>\<open>lcg.intn\<close>: no draw, and 0, for \<open>n \<le> 1\<close>.\<close>

definition intn :: "int \<Rightarrow> rng \<Rightarrow> nat \<times> rng" where
  "intn n s = (if n \<le> 1 then (0, s) else let s' = lcg_next s in (unat s' mod nat n, s'))"

definition fnv1a :: "string \<Rightarrow> u64" where
  "fnv1a s = foldl (\<lambda>h c. (h XOR of_nat (of_char c)) * 1099511628211) 14695981039346656037 s"

definition pathSeed :: "string \<Rightarrow> u64" where
  "pathSeed path = fnv1a (to_lower path)"

lemma intn_less: "0 < n \<Longrightarrow> fst (intn n s) < nat n"
  by (auto simp: intn_def Let_def)

lemma pathSeed_fold: "equal_fold p q \<Longrightarrow> pathSeed p = pathSeed q"
  by (simp add: pathSeed_def equal_fold_def)

section \<open>Unique names\<close>

text \<open>The five draws from the corpus.\<close>

fun pick_tries :: "nat \<Rightarrow> string list \<Rightarrow> string list \<Rightarrow> rng \<Rightarrow> string option \<times> rng" where
  "pick_tries 0 corpus used s = (None, s)"
| "pick_tries (Suc n) corpus used s =
     (case intn (int (length corpus)) s of (k, s') \<Rightarrow>
        if corpus ! k \<notin> set used then (Some (corpus ! k), s') else pick_tries n corpus used s')"

text \<open>The numbered fallback, \<open>for i := 1; ; i++\<close>.  It ends because a name with more digits than any
  used name has characters cannot be used: \<open>i\<close> stays below \<open>10 ^ longest used\<close>.\<close>

definition longest :: "string list \<Rightarrow> nat" where
  "longest used = foldr (max \<circ> length) used 0"

lemma longest_ge: "x \<in> set used \<Longrightarrow> length x \<le> longest used"
  by (induction used) (auto simp: longest_def)

lemma itoa_length: "10 ^ n \<le> i \<Longrightarrow> n < length (itoa i)"
proof (induction n arbitrary: i)
  case 0
  then show ?case by (subst itoa.simps) simp
next
  case (Suc n)
  then have "10 ^ n \<le> i div 10" "\<not> i < 10"
    by (auto simp: less_eq_div_iff_mult_less_eq not_less intro: order_trans [OF _ Suc.prems])
  with Suc.IH [of "i div 10"] show ?case
    by (subst itoa.simps) simp
qed

function pick_loop :: "string list \<Rightarrow> string list \<Rightarrow> nat \<Rightarrow> rng \<Rightarrow> string \<times> rng" where
  "pick_loop corpus used i s =
     (case intn (int (length corpus)) s of (k, s') \<Rightarrow>
        let name = corpus ! k @ itoa i in
        if name \<in> set used then pick_loop corpus used (i + 1) s' else (name, s'))"
  by pat_completeness auto
termination
proof (relation "measure (\<lambda>(corpus, used, i, s). 10 ^ longest used - i)", goal_cases)
  case (2 corpus used i s p k s')
  then have "length (itoa i) \<le> longest used"
    using longest_ge by fastforce
  then have "i < 10 ^ longest used"
    using itoa_length not_less by blast
  then show ?case by simp
qed simp

declare pick_loop.simps [simp del]

definition pickUnique :: "string list \<Rightarrow> string list \<Rightarrow> rng \<Rightarrow> string \<times> string list \<times> rng" where
  "pickUnique corpus used s =
     (case pick_tries 5 corpus used s of
        (Some name, s') \<Rightarrow> (name, name # used, s')
      | (None, s') \<Rightarrow> (case pick_loop corpus used 1 s' of (name, s'') \<Rightarrow> (name, name # used, s'')))"

lemma pick_tries_fresh: "pick_tries n corpus used s = (Some name, s') \<Longrightarrow> name \<notin> set used"
  by (induction n arbitrary: s) (auto split: prod.splits if_splits)

lemma pick_loop_fresh: "pick_loop corpus used i s = (name, s') \<Longrightarrow> name \<notin> set used"
proof (induction corpus used i s rule: pick_loop.induct)
  case (1 corpus used i s)
  then show ?case
    by (subst (asm) (2) pick_loop.simps) (auto simp: Let_def split: prod.splits if_splits)
qed

lemma pickUnique_fresh:
  "pickUnique corpus used s = (name, used', s') \<Longrightarrow> name \<notin> set used \<and> used' = name # used"
  by (auto simp: pickUnique_def dest: pick_tries_fresh pick_loop_fresh split: prod.splits option.splits)

end
