(* ===== verification/Deception_Tree.thy ===== *)
theory Deception_Tree
  imports Deception_Maze
begin

text \<open>
  The virtual content tree of \<open>internal/deception/tree.go\<close>: resolution by membership, enumeration,
  static timestamps and the default tree with its registry stubs (\<open>hive.go\<close>).  The code's nodes
  are shared pointers; the one place where sharing shows (the Windows directory under two roots,
  stamped twice) is written out in \<open>defaultTree\<close>.
\<close>

section \<open>Resolution\<close>

record tree =
  tr_roots :: "string \<rightharpoonup> node"
  tr_maze :: maze_config

definition is_sep :: "char \<Rightarrow> bool" where
  "is_sep c \<longleftrightarrow> c = backslash_char \<or> c = CHR ''/''"

definition findChild :: "tree \<Rightarrow> node \<Rightarrow> string \<Rightarrow> node option" where
  "findChild t cur name =
     (case findChildIn (kids cur) name of
        Some c \<Rightarrow> Some c
      | None \<Rightarrow>
          if ni_mazePath (info cur) \<noteq> '''' then
            find (\<lambda>gc. equal_fold (ni_name (info gc)) name)
              (mazeChildren (ni_mazePath (info cur)) (ni_mazeDepth (info cur)) (tr_maze t))
          else None)"

fun walk :: "tree \<Rightarrow> node \<Rightarrow> string list \<Rightarrow> node option" where
  "walk t cur [] = Some cur"
| "walk t cur (part # parts) =
     (if part = ''.'' \<or> part = ''..'' then walk t cur parts
      else case findChild t cur part of None \<Rightarrow> None | Some child \<Rightarrow> walk t child parts)"

definition resolve :: "tree \<Rightarrow> string \<Rightarrow> string \<Rightarrow> node option" where
  "resolve t rootName filePath0 =
     (case tr_roots t (to_upper rootName) of
        None \<Rightarrow> None
      | Some root \<Rightarrow>
          let filePath = trim_left_set filePath0 [backslash_char, CHR ''/''] in
          if filePath = '''' then Some root else walk t root (fields_func is_sep filePath))"

definition children :: "tree \<Rightarrow> node \<Rightarrow> node list" where
  "children t n =
     (if ni_mazePath (info n) = '''' then kids n
      else let gen = mazeChildren (ni_mazePath (info n)) (ni_mazeDepth (info n)) (tr_maze t)
        in if kids n = [] then gen else kids n @ gen)"

section \<open>Static nodes\<close>

definition dirNode :: "string \<Rightarrow> node list \<Rightarrow> node" where
  "dirNode name ns =
     (case staticNodeTimes name of (created, modified) \<Rightarrow>
        Node \<lparr>ni_name = name, ni_dir = True, ni_readOnly = False, ni_system = False, ni_archive = False,
              ni_hidden = False, ni_normal = False, ni_content = '''', ni_created = created,
              ni_modified = modified, ni_mazePath = '''', ni_mazeDepth = 0\<rparr> ns)"

definition fileNode :: "string \<Rightarrow> string option \<Rightarrow> bool \<Rightarrow> bool \<Rightarrow> bool \<Rightarrow> node" where
  "fileNode name content readonly system archive =
     (case staticNodeTimes name of (created, modified) \<Rightarrow>
        Node \<lparr>ni_name = name, ni_dir = False, ni_readOnly = readonly, ni_system = system,
              ni_archive = archive, ni_hidden = False, ni_normal = (content = None),
              ni_content = (case content of None \<Rightarrow> '''' | Some c \<Rightarrow> c), ni_created = created,
              ni_modified = modified, ni_mazePath = '''', ni_mazeDepth = 0\<rparr> [])"

fun stampStaticTimes :: "string \<Rightarrow> node \<Rightarrow> node" where
  "stampStaticTimes shareRoot (Node i ns) =
     (let path = (if ni_name i = '''' then shareRoot
                  else if shareRoot = '''' then ni_name i
                  else child_path shareRoot (ni_name i))
      in case staticNodeTimes path of (created, modified) \<Rightarrow>
           Node (i\<lparr>ni_created := created, ni_modified := modified\<rparr>) (map (stampStaticTimes path) ns))"

section \<open>Registry hive stubs\<close>

definition registryHiveStubSize :: nat where "registryHiveStubSize = 8192"

definition le32s :: "u32 \<Rightarrow> string" where
  "le32s w = map (\<lambda>k. char_of (unat (drop_bit (8 * k) w) mod 256)) [0, 1, 2, 3]"

definition le16s :: "u16 \<Rightarrow> string" where
  "le16s w = map (\<lambda>k. char_of (unat (drop_bit (8 * k) w) mod 256)) [0, 1]"

fun hive_label :: "nat \<Rightarrow> string \<Rightarrow> string \<Rightarrow> string" where
  "hive_label i [] b = b"
| "hive_label i (r # rs) b =
     (if 31 \<le> i then b else hive_label (i + 1) rs (overwrite b (0x30 + i * 2) (le16s (of_nat (of_char r)))))"

fun hive_tail :: "nat \<Rightarrow> u64 \<Rightarrow> string" where
  "hive_tail 0 seed = []"
| "hive_tail (Suc n) seed =
     (let seed' = seed * 6364136223846793005 + 1442695040888963407
      in le32s (ucast (drop_bit 32 seed')) @ hive_tail n seed')"

definition registryHiveStub :: "string \<Rightarrow> string" where
  "registryHiveStub name =
     (let b = replicate registryHiveStubSize (CHR 0x00);
          b = overwrite b 0 ''regf'';
          b = overwrite b 4 (le32s 1);
          b = overwrite b 8 (le32s 1);
          b = overwrite b 0x14 (le32s 1);
          b = overwrite b 0x18 (le32s 6);
          b = overwrite b 0x1c (le32s 0);
          b = overwrite b 0x20 (le32s 0x1000);
          b = overwrite b 0x24 (le32s (of_nat registryHiveStubSize));
          b = overwrite b 0x28 (le32s 1);
          b = overwrite b 0x2c (le32s 1);
          label = (let l = to_upper name in if l = '''' then ''SYSTEM'' else l);
          b = hive_label 0 label b
      in overwrite b 0x200 (hive_tail ((registryHiveStubSize - 0x200) div 4) (pathSeed label)))"

section \<open>Lemmas\<close>

lemma dirNode_sel [simp]:
  "kids (dirNode name ns) = ns" "ni_name (info (dirNode name ns)) = name" "ni_dir (info (dirNode name ns))"
  "ni_mazePath (info (dirNode name ns)) = []"
  by (simp_all add: dirNode_def split: prod.split)

lemma findChildIn_fold: "findChildIn ns name = find (\<lambda>c. equal_fold (ni_name (info c)) name) ns"
  by (simp add: findChildIn_def to_upper_eq_iff)

lemma equal_fold_cong: "equal_fold p q \<Longrightarrow> equal_fold a p = equal_fold a q"
  by (simp add: equal_fold_def)

lemma findChild_cong: "equal_fold p q \<Longrightarrow> findChild t n p = findChild t n q"
  unfolding findChild_def findChildIn_fold equal_fold_def by (simp split: option.split)

text \<open>Lookup and enumeration agree: a lookup finds the first entry of the listing whose name folds
  to the one asked for.\<close>

lemma findChild_children: "findChild t n name = find (\<lambda>c. equal_fold (ni_name (info c)) name) (children t n)"
proof -
  have app: "find P (xs @ ys) = (case find P xs of None \<Rightarrow> find P ys | Some x \<Rightarrow> Some x)" for P and xs ys :: "node list"
    by (induction xs) auto
  show ?thesis
    by (auto simp: findChild_def findChildIn_fold children_def Let_def app split: option.splits)
qed

lemma sep_lower: "is_sep (lower_char c) = is_sep c"
proof -
  have "lower_char c = d \<longleftrightarrow> c = d" if "d \<in> {backslash_char, CHR ''/''}" for d
  proof -
    have n: "(of_char d :: nat) \<notin> {97..122}" "lower_char d = d"
      using that by (auto simp: backslash_char_def lower_char_def)
    show ?thesis
    proof
      assume e: "lower_char c = d"
      show "c = d"
      proof (rule ccontr)
        assume "c \<noteq> d"
        then have r: "65 \<le> (of_char c :: nat)" "(of_char c :: nat) \<le> 90"
          using e by (auto simp: lower_char_def Let_def split: if_splits)
        then have "d = char_of ((of_char c :: nat) + 32)"
          using e by (simp add: lower_char_def Let_def)
        then have "(of_char d :: nat) = of_char c + 32"
          using r by simp
        with r n(1) show False by auto
      qed
    qed (use n(2) in simp)
  qed
  then show ?thesis
    unfolding is_sep_def by auto
qed

lemma lower_dots: "to_lower x = ''.'' \<longleftrightarrow> x = ''.''" "to_lower x = ''..'' \<longleftrightarrow> x = ''..''"
proof -
  have "lower_char c = CHR ''.'' \<longleftrightarrow> c = CHR ''.''" for c
  proof
    assume e: "lower_char c = CHR ''.''"
    show "c = CHR ''.''"
    proof (rule ccontr)
      assume "c \<noteq> CHR ''.''"
      then have r: "65 \<le> (of_char c :: nat)" "(of_char c :: nat) \<le> 90"
        using e by (auto simp: lower_char_def Let_def split: if_splits)
      then have "(CHR ''.'') = char_of ((of_char c :: nat) + 32)"
        using e by (simp add: lower_char_def Let_def)
      then have "(of_char (CHR ''.'') :: nat) = of_char c + 32"
        using r by simp
      with r show False by simp
    qed
  qed (simp add: lower_char_def)
  then show "to_lower x = ''.'' \<longleftrightarrow> x = ''.''" "to_lower x = ''..'' \<longleftrightarrow> x = ''..''"
    by (auto simp: to_lower_def map_eq_Cons_conv)
qed

text \<open>Folding a path folds its parts.\<close>

lemma takeWhile_lower: "takeWhile (\<lambda>x. \<not> is_sep x) (map lower_char s) = map lower_char (takeWhile (\<lambda>x. \<not> is_sep x) s)"
  by (simp add: takeWhile_map comp_def sep_lower)

lemma dropWhile_lower: "dropWhile (\<lambda>x. \<not> is_sep x) (map lower_char s) = map lower_char (dropWhile (\<lambda>x. \<not> is_sep x) s)"
  by (simp add: dropWhile_map comp_def sep_lower)

lemma fields_lower: "fields_func is_sep (to_lower s) = map to_lower (fields_func is_sep s)"
proof -
  have "fields_func p (to_lower s) = map to_lower (fields_func p s)" if "p = is_sep" for p
    using that
    by (induction p s rule: fields_func.induct)
      (simp_all add: to_lower_def sep_lower takeWhile_lower dropWhile_lower)
  then show ?thesis by simp
qed

lemma walk_fold: "map to_lower ps = map to_lower qs \<Longrightarrow> walk t cur ps = walk t cur qs"
proof (induction ps arbitrary: cur qs)
  case (Cons p ps)
  then obtain q qs' where q: "qs = q # qs'" "to_lower p = to_lower q" "map to_lower ps = map to_lower qs'"
    by (auto simp: Cons_eq_map_conv)
  have "p = ''.'' \<or> p = ''..'' \<longleftrightarrow> q = ''.'' \<or> q = ''..''"
    using lower_dots [of p] lower_dots [of q] q(2) by simp
  moreover have "findChild t cur p = findChild t cur q"
    using q(2) by (intro findChild_cong) (simp add: equal_fold_def)
  ultimately show ?case
    using Cons.IH [OF q(3)] by (simp add: q(1) split: option.split)
qed simp

text \<open>Leading separators do not matter, so a resolution is a walk over the fields of the path.\<close>

lemma fields_trim: "fields_func is_sep (trim_left_set s [backslash_char, CHR ''/'']) = fields_func is_sep s"
  unfolding trim_left_set_def by (induction s) (auto simp: is_sep_def)

lemma resolve_walk:
  "resolve t rootName path =
     (case tr_roots t (to_upper rootName) of None \<Rightarrow> None | Some root \<Rightarrow> walk t root (fields_func is_sep path))"
proof -
  have "fields_func is_sep path = []" if "trim_left_set path [backslash_char, CHR ''/''] = []"
    using fields_trim [of path] that by simp
  then show ?thesis
    by (auto simp: resolve_def Let_def fields_trim split: option.splits)
qed

section \<open>Properties of resolution\<close>

text \<open>Resolution does not depend on the case of the root and path or on how many separators stand
  between components: a client that changes case sees the very same node.\<close>

theorem resolve_case_insensitive:
  assumes "equal_fold rootName rootName'"
    and "map to_lower (fields_func is_sep path) = map to_lower (fields_func is_sep path')"
  shows "resolve t rootName path = resolve t rootName' path'"
proof -
  have "to_upper rootName = to_upper rootName'"
    using assms(1) by (simp add: to_upper_eq_iff)
  then show ?thesis
    using walk_fold [OF assms(2)] by (simp add: resolve_walk split: option.split)
qed

text \<open>Membership, no fabrication: a component resolves exactly when a listed entry's name folds to
  it, and then to such an entry; so a guessed name fails and every listed name works.\<close>

theorem lookup_is_membership:
  "(findChild t n name \<noteq> None \<longleftrightarrow> (\<exists>c \<in> set (children t n). equal_fold (ni_name (info c)) name)) \<and>
   set_option (findChild t n name) \<subseteq> {c \<in> set (children t n). equal_fold (ni_name (info c)) name}"
  unfolding findChild_children by (auto simp: find_None_iff find_Some_iff)

text \<open>What every generated entry is.\<close>

lemma mazeChildren_child:
  assumes "c \<in> set (mazeChildren parent depth cfg)"
  shows "kids c = [] \<and> ni_mazePath (info c) = child_path parent (ni_name (info c)) \<and>
    ni_mazeDepth (info c) = (if ni_dir (info c) then depth + 1 else 0)"
proof -
  obtain dirs files nd where m: "mazeChildren parent depth cfg = dirs @ files"
    "\<forall>c \<in> set dirs. c = mazeDirNode (child_path parent (ni_name (info c))) (ni_name (info c)) (depth + 1)"
    "\<forall>c \<in> set files. c = mazeFileNode (child_path parent (ni_name (info c))) (ni_name (info c))"
    by (rule mazeChildren_split [of parent depth cfg])
  with assms consider "c = mazeDirNode (child_path parent (ni_name (info c))) (ni_name (info c)) (depth + 1)"
    | "c = mazeFileNode (child_path parent (ni_name (info c))) (ni_name (info c))"
    by auto
  then show ?thesis
    by cases (metis mazeDirNode_sel, metis mazeFileNode_sel)
qed

lemma child_path_nonempty [simp]: "child_path p n \<noteq> []"
  by (simp add: child_path_def)

lemma pickUnique_prefix:
  assumes "pickUnique corpus used s = (name, used', s')" "corpus \<noteq> []"
  shows "\<exists>b \<in> set corpus. \<exists>suf. name = b @ suf"
proof -
  have mem: "corpus ! fst (intn (int (length corpus)) s) \<in> set corpus" for s
    using intn_less [of "int (length corpus)" s] assms(2) by simp
  have t: "pick_tries n corpus used s = (Some name, s') \<Longrightarrow> name \<in> set corpus" for n s name s'
  proof (induction n arbitrary: s)
    case (Suc n)
    obtain k s1 where k: "intn (int (length corpus)) s = (k, s1)" by force
    with mem [of s] Suc show ?case by (auto split: if_splits)
  qed simp
  have l: "pick_loop corpus used i s = (name, s') \<Longrightarrow> \<exists>k s0 j. k = fst (intn (int (length corpus)) s0) \<and> name = corpus ! k @ itoa j"
    for i s name s'
  proof (induction corpus used i s rule: pick_loop.induct)
    case (1 corpus used i s)
    obtain k s1 where k: "intn (int (length corpus)) s = (k, s1)" by force
    show ?case
    proof (cases "corpus ! k @ itoa i \<in> set used")
      case True
      then have "pick_loop corpus used (i + 1) s1 = (name, s')"
        using 1(2) k by (subst (asm) pick_loop.simps) (simp add: Let_def)
      from 1(1) [OF k [symmetric] refl True this] show ?thesis by blast
    next
      case False
      with 1(2) k have "name = corpus ! k @ itoa i"
        by (subst (asm) pick_loop.simps) (simp add: Let_def)
      then show ?thesis
        using k by (metis fst_conv)
    qed
  qed
  consider s0 s1 where "pick_tries 5 corpus used s0 = (Some name, s1)" | i s0 s1 where "pick_loop corpus used i s0 = (name, s1)"
    using assms(1) by (auto simp: pickUnique_def split: prod.splits option.splits)
  then show ?thesis
  proof cases
    case 1
    with t have "name \<in> set corpus" by blast
    then show ?thesis by (metis append_Nil2)
  next
    case 2
    from l [OF this] mem show ?thesis by metis
  qed
qed

lemma dir_corpus_dots: "\<forall>b \<in> set mazeDirCorpus. b \<noteq> [] \<and> hd b \<noteq> CHR ''.''"
  by code_simp

text \<open>A level that has directories starts with one, and its name is a plain path component.\<close>

lemma mazeChildren_first:
  assumes "mz_maxDepth cfg \<le> 0" "1 \<le> mz_minDirs cfg"
  obtains nm rest where "mazeChildren parent depth cfg = mazeDirNode (child_path parent nm) nm (depth + 1) # rest"
    "nm \<noteq> ''.''" "nm \<noteq> ''..''"
proof -
  obtain kd s1 where kd: "intn (mz_maxDirs cfg - mz_minDirs cfg + 1) (pathSeed parent) = (kd, s1)" by force
  obtain kf s2 where kf: "intn (mz_maxFiles cfg - mz_minFiles cfg + 1) s1 = (kf, s2)" by force
  obtain n where n: "nat (mz_minDirs cfg + int kd) = Suc n"
    using assms(2) by (cases "nat (mz_minDirs cfg + int kd)") auto
  obtain nm u s3 where p: "pickUnique mazeDirCorpus [] s2 = (nm, u, s3)"
    by (cases "pickUnique mazeDirCorpus [] s2") auto
  have "mazeDirCorpus \<noteq> []"
    by (simp add: mazeDirCorpus_def)
  from pickUnique_prefix [OF p this] obtain b suf where b: "b \<in> set mazeDirCorpus" "nm = b @ suf"
    by blast
  then have "hd nm \<noteq> CHR ''.''" "nm \<noteq> []"
    using dir_corpus_dots by (auto simp: hd_append)
  then have dots: "nm \<noteq> ''.''" "nm \<noteq> ''..''"
    by auto
  have "\<exists>rest. mazeChildren parent depth cfg = mazeDirNode (child_path parent nm) nm (depth + 1) # rest"
    using assms(1) by (simp add: mazeChildren_def kd kf n p Let_def split: prod.splits)
  with that dots show ?thesis by blast
qed

text \<open>The maze has no bottom: with an unlimited depth and at least one directory per level, below
  any generated directory there are paths of every length that resolve to directories.\<close>

theorem maze_bottomless:
  assumes "mz_maxDepth (tr_maze t) \<le> 0" "1 \<le> mz_minDirs (tr_maze t)"
    and "ni_mazePath (info cur) \<noteq> []" "kids cur = []" "ni_dir (info cur)"
  shows "\<exists>path d. length path = n \<and> walk t cur path = Some d \<and> ni_dir (info d)"
  using assms(3-5)
proof (induction n arbitrary: cur)
  case 0
  then show ?case by auto
next
  case (Suc n)
  obtain nm rest where m: "mazeChildren (ni_mazePath (info cur)) (ni_mazeDepth (info cur)) (tr_maze t) =
      mazeDirNode (child_path (ni_mazePath (info cur)) nm) nm (ni_mazeDepth (info cur) + 1) # rest"
    and dots: "nm \<noteq> ''.''" "nm \<noteq> ''..''"
    by (rule mazeChildren_first [OF assms(1,2)])
  let ?c = "mazeDirNode (child_path (ni_mazePath (info cur)) nm) nm (ni_mazeDepth (info cur) + 1)"
  have f: "findChild t cur nm = Some ?c"
    using Suc.prems by (simp add: findChild_children children_def m)
  obtain path d where "length path = n" "walk t ?c path = Some d" "ni_dir (info d)"
    using Suc.IH [of ?c] by auto
  then show ?case
    using f dots by (intro exI [of _ "nm # path"] exI [of _ d]) simp
qed

text \<open>Generated files act as directories: a file of the maze lists a generated level of its own,
  and its entries resolve under it, so a path can go through a regular file.  The level starts at
  depth 0 again, whatever depth the file was found at.\<close>

theorem maze_file_has_children:
  assumes "f \<in> set (mazeChildren parent depth cfg)" "\<not> ni_dir (info f)"
  shows "children t f = mazeChildren (child_path parent (ni_name (info f))) 0 (tr_maze t) \<and>
    (\<forall>c \<in> set (children t f). findChild t f (ni_name (info c)) \<noteq> None)"
proof -
  have "kids f = []" "ni_mazePath (info f) = child_path parent (ni_name (info f))" "ni_mazeDepth (info f) = 0"
    using mazeChildren_child [OF assms(1)] assms(2) by simp_all
  then have "children t f = mazeChildren (child_path parent (ni_name (info f))) 0 (tr_maze t)"
    by (simp add: children_def)
  moreover have "findChild t f (ni_name (info c)) \<noteq> None" if "c \<in> set (children t f)" for c
    using that unfolding findChild_children find_None_iff by auto
  ultimately show ?thesis by blast
qed

text \<open>Timestamps are plausible whatever the path: a node is created before it is modified, and
  not modified after the installation time all nodes share.\<close>

theorem static_times_ordered:
  "case staticNodeTimes path of (created, modified) \<Rightarrow> created < modified \<and> modified \<le> baseTime"
proof -
  define c where "c = unat (lcg_next (pathSeed (to_upper path))) mod (180 * 24)"
  define m where "m = unat (lcg_next (lcg_next (pathSeed (to_upper path)))) mod (72 * 24)"
  define r where "r = unat (lcg_next (lcg_next (lcg_next (pathSeed (to_upper path))))) mod 24"
  show ?thesis
    unfolding staticNodeTimes_def Let_def c_def [symmetric] m_def [symmetric] r_def [symmetric]
    by (auto simp: hours_def)
qed

section \<open>Witnesses\<close>

definition example_tree :: tree where
  "example_tree = \<lparr>tr_roots = [''C$'' \<mapsto> dirNode [] [dirNode ''Windows'' [dirNode ''Temp'' []]]],
     tr_maze = defaultMazeConfig\<rparr>"

lemma example_fields:
  "fields_func is_sep ''Windows/Temp'' = [''Windows'', ''Temp'']"
  "fields_func is_sep ''/windows//TEMP'' = [''windows'', ''TEMP'']"
  by (simp_all add: is_sep_def backslash_char_def)

theorem resolve_case_insensitive_witness:
  "resolve example_tree ''c$'' ''/windows//TEMP'' = resolve example_tree ''C$'' ''Windows/Temp'' \<and>
   resolve example_tree ''C$'' ''Windows/Temp'' \<noteq> None"
proof
  have "equal_fold ''c$'' ''C$''" "map to_lower [''windows'', ''TEMP''] = map to_lower [''Windows'', ''Temp'']"
    by code_simp+
  then show "resolve example_tree ''c$'' ''/windows//TEMP'' = resolve example_tree ''C$'' ''Windows/Temp''"
    by (intro resolve_case_insensitive) (simp_all only: example_fields)
  have f: "findChild t n nm = Some c" if "kids n = c # cs" "ni_name (info c) = nm" for t n nm c cs
    using that by (simp add: findChild_def findChildIn_def)
  have u: "to_upper ''C$'' = ''C$''"
    by code_simp
  have "resolve example_tree ''C$'' ''Windows/Temp'' = Some (dirNode ''Temp'' [])"
    unfolding resolve_walk u example_fields
    by (simp add: example_tree_def f [OF dirNode_sel(1) dirNode_sel(2)])
  then show "resolve example_tree ''C$'' ''Windows/Temp'' \<noteq> None"
    by simp
qed

theorem maze_bottomless_witness:
  "\<exists>path d. length path = 100 \<and> walk example_tree (mazeDirNode ''DATA'' ''DATA'' 0) path = Some d \<and> ni_dir (info d)"
  by (rule maze_bottomless) (simp_all add: example_tree_def defaultMazeConfig_def)

theorem maze_file_has_children_witness:
  "\<exists>f \<in> set (mazeChildren ''DATA'' 5 defaultMazeConfig). \<not> ni_dir (info f) \<and>
     children example_tree f = mazeChildren (child_path ''DATA'' (ni_name (info f))) 0 defaultMazeConfig"
proof -
  obtain dirs files nd where m: "mazeChildren ''DATA'' 5 defaultMazeConfig = dirs @ files"
    "\<forall>c \<in> set files. c = mazeFileNode (child_path ''DATA'' (ni_name (info c))) (ni_name (info c))"
    "mz_minFiles defaultMazeConfig \<le> int (length files)"
    by (rule mazeChildren_split [of "''DATA''" 5 defaultMazeConfig])
  then obtain f where f: "f \<in> set files"
    by (cases files) (auto simp: defaultMazeConfig_def)
  with m(2) have "\<not> ni_dir (info f)"
    by (metis mazeFileNode_sel(2))
  moreover have "f \<in> set (mazeChildren ''DATA'' 5 defaultMazeConfig)"
    using f m(1) by simp
  ultimately show ?thesis
    using maze_file_has_children [of f "''DATA''" 5 defaultMazeConfig example_tree]
    by (auto simp: example_tree_def)
qed

end
