(* ===== verification/Deception_Config.thy ===== *)
theory Deception_Config
  imports Deception_Maze Go_Path "HOL-Library.AList"
begin

text \<open>
  The credential pool and its template renderer (\<open>credstore.go\<close>), and the configuration records
  of the tree (\<open>config.go\<close>) in \<open>internal/deception\<close>.
\<close>

section \<open>The credential pool\<close>

record credential =
  cr_id :: string
  cr_username :: string
  cr_password :: string
  cr_domain :: string

text \<open>\<open>CredStore\<close>: the pool by id, one entry per id.\<close>

type_synonym cred_store = "(string \<times> credential) list"

definition newCredStore :: "credential list \<Rightarrow> cred_store" where
  "newCredStore creds = fold (\<lambda>c m. AList.update (cr_id c) c m) creds []"

definition cred_get :: "cred_store option \<Rightarrow> string \<Rightarrow> credential option" where
  "cred_get s i = (case s of None \<Rightarrow> None | Some m \<Rightarrow> map_of m i)"

definition cred_all :: "cred_store option \<Rightarrow> credential list" where
  "cred_all s = (case s of None \<Rightarrow> [] | Some m \<Rightarrow> sort_key cr_id (map snd m))"

definition leakString :: "cred_store option \<Rightarrow> string \<Rightarrow> string option" where
  "leakString s i = (case cred_get s i of None \<Rightarrow> None | Some c \<Rightarrow> Some (cr_username c @ '':'' @ cr_password c))"

text \<open>The regular expression of \<open>credPlaceholder\<close>: an id over \<open>[A-Za-z0-9_-]+\<close> between
  \<open>{{cred:\<close> and a dot, one of three fields, and \<open>}}\<close>.  A match is returned as the id, the field,
  the matched text and the rest.\<close>

definition id_char :: "char \<Rightarrow> bool" where
  "id_char c \<longleftrightarrow> (let n = (of_char c :: nat) in (65 \<le> n \<and> n \<le> 90) \<or> (97 \<le> n \<and> n \<le> 122) \<or>
     (48 \<le> n \<and> n \<le> 57) \<or> n = 95 \<or> n = 45)"

definition cred_open :: string where "cred_open = ''{{cred:''"

definition match_cred :: "string \<Rightarrow> (string \<times> string \<times> string \<times> string) option" where
  "match_cred s =
     (if \<not> has_prefix s cred_open then None
      else let t = drop (length cred_open) s;
               i = takeWhile id_char t;
               u = dropWhile id_char t
        in if i = [] then None
           else case find (\<lambda>f. has_prefix u ([CHR ''.''] @ f @ ''}}'')) [''username'', ''password'', ''domain''] of
                  None \<Rightarrow> None
                | Some f \<Rightarrow> Some (i, f, cred_open @ i @ [CHR ''.''] @ f @ ''}}'', drop (length f + 3) u))"

definition cred_field :: "credential \<Rightarrow> string \<Rightarrow> string \<Rightarrow> string" where
  "cred_field c f m =
     (if f = ''username'' then cr_username c
      else if f = ''password'' then cr_password c
      else if f = ''domain'' then cr_domain c
      else m)"

lemma match_cred_shorter: "match_cred s = Some (i, f, m, rest) \<Longrightarrow> length rest < length s"
proof -
  assume "match_cred s = Some (i, f, m, rest)"
  then have "has_prefix s cred_open" "rest = drop (length f + 3) (dropWhile id_char (drop (length cred_open) s))"
    by (auto simp: match_cred_def Let_def split: if_splits option.splits)
  then have "length rest \<le> length (drop (length cred_open) s)" "length cred_open \<le> length s"
    using length_dropWhile_le [of id_char "drop (length cred_open) s"] by (auto simp: has_prefix_def)
  then show ?thesis
    by (simp add: cred_open_def)
qed

text \<open>\<open>Render\<close>: the text and the last error, the id that is unknown.\<close>

function render :: "cred_store option \<Rightarrow> string \<Rightarrow> string \<times> string option" where
  "render st [] = ([], None)"
| "render st (c # cs) =
     (case match_cred (c # cs) of
        None \<Rightarrow> (case render st cs of (out, e) \<Rightarrow> (c # out, e))
      | Some (i, f, m, rest) \<Rightarrow>
          (case render st rest of (out, e) \<Rightarrow>
             (case cred_get st i of
                None \<Rightarrow> (m @ out, case e of None \<Rightarrow> Some i | Some i' \<Rightarrow> Some i')
              | Some cr \<Rightarrow> (cred_field cr f m @ out, e))))"
  by pat_completeness auto
termination
  by (relation "measure (length \<circ> snd)") (auto dest: match_cred_shorter)

section \<open>Configuration\<close>

record file_def =
  fd_name :: string
  fd_content :: string
  fd_seedFile :: string
  fd_readOnly :: bool
  fd_system :: bool
  fd_hidden :: bool
  fd_archive :: bool

datatype dir_def = DirDef (dd_name: string) (dd_dirs: "dir_def list") (dd_files: "file_def list") (dd_maze: bool)

record range =
  rg_min :: int
  rg_max :: int

record gen_spec =
  gs_seed :: string
  gs_dirs :: range
  gs_files :: range
  gs_depth :: int

record share_def =
  sd_name :: string
  sd_type :: string
  sd_remark :: string
  sd_root :: "(dir_def list \<times> file_def list) option"
  sd_generate :: "gen_spec option"
  sd_maze :: bool

record tree_config =
  tc_shares :: "share_def list"
  tc_maze :: maze_config

end
