(* ===== verification/Deception_Build.thy ===== *)
theory Deception_Build
  imports Deception_Tree Deception_Config
begin

text \<open>
  Building the tree from configuration: the construction half of \<open>tree.go\<close> in \<open>internal/deception\<close>.  Reading a seed file is the parameter \<open>read\<close> (the
  operating system); a relative path is read under the base directory.
\<close>

section \<open>Building\<close>

definition maxSeedFileSize :: nat where "maxSeedFileSize = 2 ^ 20"
definition maxGenChildren :: int where "maxGenChildren = 1000"

datatype build_error =
  EmptyShareName | SeedUnreadable string | SeedTooLarge string | UnknownCredential string string
  | InShare string build_error

definition seed_path :: "string \<Rightarrow> string \<Rightarrow> string" where
  "seed_path baseDir p = (if has_prefix p ''/'' then p else path_join [baseDir, p])"

definition file_content ::
  "(string \<Rightarrow> string option) \<Rightarrow> cred_store option \<Rightarrow> string \<Rightarrow> file_def \<Rightarrow> build_error + string" where
  "file_content read store baseDir f =
     (if fd_seedFile f \<noteq> [] then
        (case read (seed_path baseDir (fd_seedFile f)) of
           None \<Rightarrow> Inl (SeedUnreadable (fd_name f))
         | Some d \<Rightarrow> if maxSeedFileSize < length d then Inl (SeedTooLarge (fd_name f)) else Inr d)
      else if fd_content f \<noteq> [] then
        (case store of
           None \<Rightarrow> Inr (fd_content f)
         | Some _ \<Rightarrow> (case render store (fd_content f) of
                       (out, None) \<Rightarrow> Inr out
                     | (out, Some i) \<Rightarrow> Inl (UnknownCredential (fd_name f) i)))
      else Inr [])"

definition buildFile ::
  "(string \<Rightarrow> string option) \<Rightarrow> cred_store option \<Rightarrow> string \<Rightarrow> string \<Rightarrow> file_def \<Rightarrow> build_error + node" where
  "buildFile read store baseDir prefix f =
     (case file_content read store baseDir f of
        Inl e \<Rightarrow> Inl e
      | Inr content \<Rightarrow>
          (case staticNodeTimes (child_path prefix (fd_name f)) of (created, modified) \<Rightarrow>
             Inr (Node \<lparr>ni_name = fd_name f, ni_dir = False, ni_readOnly = fd_readOnly f,
                ni_system = fd_system f,
                ni_archive = (fd_archive f \<or> (content \<noteq> [] \<and> \<not> fd_system f \<and> \<not> fd_readOnly f)),
                ni_hidden = fd_hidden f, ni_normal = (content = []), ni_content = content,
                ni_created = created, ni_modified = modified, ni_mazePath = [], ni_mazeDepth = 0\<rparr> [])))"

fun buildFiles ::
  "(string \<Rightarrow> string option) \<Rightarrow> cred_store option \<Rightarrow> string \<Rightarrow> string \<Rightarrow> file_def list \<Rightarrow> build_error + node list" where
  "buildFiles read store baseDir prefix [] = Inr []"
| "buildFiles read store baseDir prefix (f # fs) =
     (case buildFile read store baseDir prefix f of
        Inl e \<Rightarrow> Inl e
      | Inr n \<Rightarrow> (case buildFiles read store baseDir prefix fs of Inl e \<Rightarrow> Inl e | Inr ns \<Rightarrow> Inr (n # ns)))"

fun buildDir ::
    "(string \<Rightarrow> string option) \<Rightarrow> cred_store option \<Rightarrow> string \<Rightarrow> string \<Rightarrow> dir_def \<Rightarrow> build_error + node"
  and buildDirs ::
    "(string \<Rightarrow> string option) \<Rightarrow> cred_store option \<Rightarrow> string \<Rightarrow> string \<Rightarrow> dir_def list \<Rightarrow> build_error + node list"
where
  "buildDir read store baseDir prefix (DirDef name dirs files maze) =
     (let myPath = child_path prefix name in
      case staticNodeTimes myPath of (created, modified) \<Rightarrow>
      case buildDirs read store baseDir myPath dirs of
        Inl e \<Rightarrow> Inl e
      | Inr ds \<Rightarrow>
          (case buildFiles read store baseDir myPath files of
             Inl e \<Rightarrow> Inl e
           | Inr fs \<Rightarrow>
               Inr (Node \<lparr>ni_name = name, ni_dir = True, ni_readOnly = False, ni_system = False,
                  ni_archive = False, ni_hidden = False, ni_normal = False, ni_content = [],
                  ni_created = created, ni_modified = modified,
                  ni_mazePath = (if maze then myPath else []), ni_mazeDepth = 0\<rparr> (ds @ fs))))"
| "buildDirs read store baseDir prefix [] = Inr []"
| "buildDirs read store baseDir prefix (d # ds) =
     (case buildDir read store baseDir prefix d of
        Inl e \<Rightarrow> Inl e
      | Inr n \<Rightarrow> (case buildDirs read store baseDir prefix ds of Inl e \<Rightarrow> Inl e | Inr ns \<Rightarrow> Inr (n # ns)))"

definition buildGroup ::
  "(string \<Rightarrow> string option) \<Rightarrow> cred_store option \<Rightarrow> string \<Rightarrow> string \<Rightarrow> dir_def list \<times> file_def list
    \<Rightarrow> build_error + node list" where
  "buildGroup read store baseDir prefix g =
     (case buildDirs read store baseDir prefix (fst g) of
        Inl e \<Rightarrow> Inl e
      | Inr ds \<Rightarrow> (case buildFiles read store baseDir prefix (snd g) of Inl e \<Rightarrow> Inl e | Inr fs \<Rightarrow> Inr (ds @ fs)))"

section \<open>Generated static structure\<close>

definition pickCount :: "range \<Rightarrow> rng \<Rightarrow> int \<times> rng" where
  "pickCount r s =
     (let mn = (if rg_min r < 0 then 0 else rg_min r);
          mx = (if rg_max r < mn then mn else rg_max r);
          mx = (if mx > maxGenChildren then maxGenChildren else mx)
      in if mx = mn then (mn, s)
         else case intn (mx - mn + 1) s of (k, s') \<Rightarrow> (mn + int k, s'))"

definition static_copy :: "node \<Rightarrow> node list \<Rightarrow> node" where
  "static_copy n ns = Node ((info n)\<lparr>ni_mazePath := [], ni_mazeDepth := 0\<rparr>) ns"

text \<open>\<open>levels\<close> is \<open>gs.Depth - depth\<close>, the levels still to be materialized below this one.\<close>

primrec generate_levels :: "nat \<Rightarrow> gen_spec \<Rightarrow> string \<Rightarrow> node list" where
  "generate_levels 0 gs label =
     (case pickCount (gs_dirs gs) (pathSeed (gs_seed gs @ ''|'' @ label)) of (nDirs, s1) \<Rightarrow>
      case pickCount (gs_files gs) s1 of (nFiles, s2) \<Rightarrow>
      case gen_nodes (\<lambda>p nm. static_copy (mazeDirNode p nm 0) []) mazeDirCorpus label (nat nDirs) [] s2 of
        (dirs, used, s3) \<Rightarrow>
          dirs @ fst (gen_nodes (\<lambda>p nm. static_copy (mazeFileNode p nm) []) mazeFileCorpus label (nat nFiles) used s3))"
| "generate_levels (Suc k) gs label =
     (case pickCount (gs_dirs gs) (pathSeed (gs_seed gs @ ''|'' @ label)) of (nDirs, s1) \<Rightarrow>
      case pickCount (gs_files gs) s1 of (nFiles, s2) \<Rightarrow>
      case gen_nodes (\<lambda>p nm. static_copy (mazeDirNode p nm 0) (generate_levels k gs p))
             mazeDirCorpus label (nat nDirs) [] s2 of
        (dirs, used, s3) \<Rightarrow>
          dirs @ fst (gen_nodes (\<lambda>p nm. static_copy (mazeFileNode p nm) []) mazeFileCorpus label (nat nFiles) used s3))"

definition generateChildren :: "string \<Rightarrow> gen_spec \<Rightarrow> int \<Rightarrow> node list" where
  "generateChildren label gs depth = generate_levels (nat (gs_depth gs - depth)) gs label"

section \<open>Trees\<close>

definition build_share ::
  "(string \<Rightarrow> string option) \<Rightarrow> cred_store option \<Rightarrow> string \<Rightarrow> share_def \<Rightarrow> build_error + node" where
  "build_share read store baseDir sd =
     (if sd_name sd = [] then Inl EmptyShareName
      else let shareKey = to_upper (sd_name sd) in
        case (case sd_root sd of None \<Rightarrow> Inr [] | Some g \<Rightarrow> buildGroup read store baseDir shareKey g) of
          Inl e \<Rightarrow> Inl (InShare (sd_name sd) e)
        | Inr ns1 \<Rightarrow>
            (let ns2 = (case sd_generate sd of None \<Rightarrow> [] | Some gs \<Rightarrow> generateChildren shareKey gs 1);
                 root = dirNode [] (ns1 @ ns2);
                 root = (if sd_maze sd
                         then Node ((info root)\<lparr>ni_mazePath := shareKey, ni_mazeDepth := 0\<rparr>) (kids root)
                         else root)
             in Inr (stampStaticTimes shareKey root)))"

fun build_shares ::
  "(string \<Rightarrow> string option) \<Rightarrow> cred_store option \<Rightarrow> string \<Rightarrow> share_def list \<Rightarrow> (string \<rightharpoonup> node)
    \<Rightarrow> build_error + (string \<rightharpoonup> node)" where
  "build_shares read store baseDir [] roots = Inr roots"
| "build_shares read store baseDir (sd # sds) roots =
     (case build_share read store baseDir sd of
        Inl e \<Rightarrow> Inl e
      | Inr root \<Rightarrow> build_shares read store baseDir sds (roots(to_upper (sd_name sd) \<mapsto> root)))"

definition buildTree ::
  "(string \<Rightarrow> string option) \<Rightarrow> tree_config \<Rightarrow> cred_store option \<Rightarrow> string \<Rightarrow> build_error + tree" where
  "buildTree read cfg store baseDir =
     (case build_shares read store baseDir (tc_shares cfg) Map.empty of
        Inl e \<Rightarrow> Inl e
      | Inr roots \<Rightarrow> Inr \<lparr>tr_roots = roots, tr_maze = tc_maze cfg\<rparr>)"

text \<open>The stock tree.  The Windows directory is one object under two roots: stamping it for
  \<open>ADMIN$\<close> last restamps what \<open>C$\<close> shows as well.\<close>

definition crlf :: string where "crlf = [CHR 0x0D, CHR 0x0A]"

definition win_ini :: string where
  "win_ini = ''; for 16-bit app support'' @ crlf @ ''[fonts]'' @ crlf @ ''[extensions]'' @ crlf @
     ''[mci extensions]'' @ crlf @ ''[files]'' @ crlf @ ''[Mail]'' @ crlf @ ''MAPI=1'' @ crlf"

definition iisstart :: string where
  "iisstart = ''<html><head><title>IIS Windows</title></head><body><img src='' @ [CHR 0x22] @ ''iisstart.png'' @
     [CHR 0x22] @ '' alt='' @ [CHR 0x22] @ ''IIS'' @ [CHR 0x22] @ ''></body></html>''"

definition windows_dir :: node where
  "windows_dir = dirNode ''Windows'' [
     fileNode ''win.ini'' (Some win_ini) False False True,
     dirNode ''System32'' [
       fileNode ''ntoskrnl.exe'' None False True False,
       fileNode ''kernel32.dll'' None False True False,
       fileNode ''advapi32.dll'' None False True False,
       dirNode ''drivers'' [],
       dirNode ''config'' [
         fileNode ''SAM'' (Some (registryHiveStub ''SAM'')) True True False,
         fileNode ''SYSTEM'' (Some (registryHiveStub ''SYSTEM'')) True True False,
         fileNode ''SECURITY'' (Some (registryHiveStub ''SECURITY'')) True True False]],
     dirNode ''Temp'' [],
     dirNode ''SysWOW64'' [],
     dirNode ''Logs'' [
       dirNode ''CBS'' [],
       fileNode ''WindowsUpdate.log'' None False False True]]"

definition users_dir :: node where
  "users_dir = dirNode ''Users'' [
     dirNode ''Administrator'' [
       dirNode ''Desktop'' [],
       dirNode ''Documents'' [
         fileNode ''passwords.txt'' (Some baitPasswords) False False True,
         fileNode ''backup_credentials.txt'' (Some baitBackupCreds) False False True],
       dirNode ''Downloads'' [],
       dirNode ''AppData'' [dirNode ''Roaming'' [], dirNode ''Local'' []]],
     dirNode ''Public'' [dirNode ''Desktop'' [], dirNode ''Documents'' [], dirNode ''Downloads'' []]]"

definition c_root :: node where
  "c_root = dirNode [] [
     windows_dir,
     users_dir,
     dirNode ''Program Files'' [
       dirNode ''Common Files'' [], dirNode ''Internet Explorer'' [], dirNode ''Windows Defender'' [],
       dirNode ''Windows NT'' [dirNode ''Accessories'' []]],
     dirNode ''Program Files (x86)'' [],
     dirNode ''ProgramData'' [dirNode ''Microsoft'' []],
     dirNode ''inetpub'' [
       dirNode ''wwwroot'' [fileNode ''iisstart.htm'' (Some iisstart) False False True]],
     fileNode ''pagefile.sys'' None True True False,
     fileNode ''hiberfil.sys'' None True True False]"

definition defaultTree :: "maze_config \<Rightarrow> tree" where
  "defaultTree maze =
     (let c1 = stampStaticTimes ''C$'' c_root;
          ipc = stampStaticTimes ''IPC$'' (dirNode [] []);
          winNode = stampStaticTimes ''ADMIN$'' (hd (kids c1));
          c2 = Node (info c1) (winNode # tl (kids c1))
      in \<lparr>tr_roots = [''C$'' \<mapsto> c2, ''ADMIN$'' \<mapsto> winNode, ''IPC$'' \<mapsto> ipc], tr_maze = maze\<rparr>)"

section \<open>Lemmas\<close>

lemma cred_get_update: "cred_get (Some (AList.update k c m)) i = (if i = k then Some c else cred_get (Some m) i)"
  by (simp add: cred_get_def update_conv)

lemma render_plain:
  "CHR 0x7B \<notin> set pre \<Longrightarrow> render st (pre @ s) = (pre @ fst (render st s), snd (render st s))"
proof (induction pre)
  case (Cons c pre)
  then have "match_cred ((c # pre) @ s) = None"
    by (auto simp: match_cred_def has_prefix_def cred_open_def)
  with Cons show ?case
    by (simp split: prod.split)
qed simp

definition placeholder :: "string \<Rightarrow> string \<Rightarrow> string" where
  "placeholder i f = cred_open @ i @ [CHR ''.''] @ f @ ''}}''"

lemma match_placeholder:
  assumes "i \<noteq> []" "\<forall>c \<in> set i. id_char c" "f \<in> {''username'', ''password'', ''domain''}"
  shows "match_cred (placeholder i f @ post) = Some (i, f, placeholder i f, post)"
proof -
  have dot: "\<not> id_char (CHR ''.'')"
    by code_simp
  let ?t = "i @ [CHR ''.''] @ f @ ''}}'' @ post"
  have t: "takeWhile id_char ?t = i" "dropWhile id_char ?t = [CHR ''.''] @ f @ ''}}'' @ post"
    using assms(2) dot by (simp_all add: takeWhile_append2 dropWhile_append2)
  have p: "has_prefix (placeholder i f @ post) cred_open" "drop (length cred_open) (placeholder i f @ post) = ?t"
    by (simp_all add: placeholder_def has_prefix_def)
  have f: "find (\<lambda>g. has_prefix ([CHR ''.''] @ f @ ''}}'' @ post) ([CHR ''.''] @ g @ ''}}''))
      [''username'', ''password'', ''domain''] = Some f"
    using assms(3) by (auto simp: has_prefix_def)
  have d: "drop (length f + 3) ([CHR ''.''] @ f @ ''}}'' @ post) = post"
    using assms(3) by auto
  show ?thesis
    unfolding match_cred_def Let_def p(2) t f option.case d using p(1) assms(1)
    by (simp add: placeholder_def)
qed

lemma stamp_shape [simp]:
  "kids (stampStaticTimes r n) = map (stampStaticTimes (if ni_name (info n) = [] then r
      else if r = [] then ni_name (info n) else child_path r (ni_name (info n)))) (kids n)"
  "ni_name (info (stampStaticTimes r n)) = ni_name (info n)"
  "ni_dir (info (stampStaticTimes r n)) = ni_dir (info n)"
  "ni_content (info (stampStaticTimes r n)) = ni_content (info n)"
  "ni_mazePath (info (stampStaticTimes r n)) = ni_mazePath (info n)"
  by (cases n; simp add: Let_def split: prod.split)+

lemma length_le32s [simp]: "length (le32s w) = 4"
  by (simp add: le32s_def)

lemma length_le16s [simp]: "length (le16s w) = 2"
  by (simp add: le16s_def)

lemma length_hive_tail [simp]: "length (hive_tail n seed) = 4 * n"
  by (induction n arbitrary: seed) (simp_all add: Let_def)

lemma hive_label_keeps:
  "length b = 8192 \<Longrightarrow> length (hive_label i rs b) = 8192 \<and> take 0x30 (hive_label i rs b) = take 0x30 b"
proof (induction i rs b rule: hive_label.induct)
  case (2 i r rs b)
  show ?case
  proof (cases "31 \<le> i")
    case False
    let ?b = "overwrite b (0x30 + i * 2) (le16s (of_nat (of_char r)))"
    have "length ?b = 8192" "take 0x30 ?b = take 0x30 b"
      using False "2.prems" by (simp_all add: take_overwrite)
    with "2.IH" False show ?thesis by simp
  qed (use 2 in simp)
qed simp

section \<open>Properties\<close>

text \<open>A planted credential is the accepted one: wherever a placeholder stands in seeded text, the
  rendered text carries exactly the field of the credential the pool holds under that id.\<close>

theorem planted_is_accepted:
  assumes "cred_get st i = Some c" "i \<noteq> []" "\<forall>x \<in> set i. id_char x"
    and "f \<in> {''username'', ''password'', ''domain''}" "CHR 0x7B \<notin> set pre"
  shows "render st (pre @ placeholder i f @ post) =
    (pre @ cred_field c f [] @ fst (render st post), snd (render st post))"
proof -
  have m: "match_cred (placeholder i f @ post) = Some (i, f, placeholder i f, post)"
    by (rule match_placeholder [OF assms(2-4)])
  obtain x xs where x: "placeholder i f @ post = x # xs"
    by (simp add: placeholder_def cred_open_def)
  have "render st (placeholder i f @ post) = (cred_field c f (placeholder i f) @ fst (render st post), snd (render st post))"
    using m assms(1) unfolding x by (simp split: prod.split)
  moreover have "cred_field c f (placeholder i f) = cred_field c f []"
    using assms(4) by (auto simp: cred_field_def)
  ultimately show ?thesis
    using render_plain [OF assms(5)] by simp
qed

text \<open>C31. The cap on generated entries is not enforced for a large minimum: with a minimum above
  \<open>maxGenChildren\<close> every level gets the minimum itself.\<close>

theorem pickCount_cap:
  "if rg_min r \<le> maxGenChildren
   then max 0 (rg_min r) \<le> fst (pickCount r s) \<and> fst (pickCount r s) \<le> maxGenChildren \<and>
     fst (pickCount r s) \<le> max (max 0 (rg_min r)) (rg_max r)
   else fst (pickCount r s) = rg_min r"
proof -
  have k: "0 < n \<Longrightarrow> int (fst (intn n s)) < n" for n
    using intn_less [of n s] by linarith
  have z: "n \<le> 0 \<Longrightarrow> fst (intn n s) = 0" for n
    by (simp add: intn_def)
  define mn where "mn = (if rg_min r < 0 then 0 else rg_min r)"
  define mx where "mx = (let mx = (if rg_max r < mn then mn else rg_max r) in if mx > maxGenChildren then maxGenChildren else mx)"
  have p: "fst (pickCount r s) = (if mx = mn then mn else mn + int (fst (intn (mx - mn + 1) s)))"
    unfolding pickCount_def Let_def mx_def mn_def by (simp split: prod.split)
  show ?thesis
  proof (cases "mn \<le> mx")
    case True
    then show ?thesis
      using k [of "mx - mn + 1"] unfolding p by (auto simp: mx_def mn_def Let_def maxGenChildren_def split: if_splits)
  next
    case False
    then show ?thesis
      using z [of "mx - mn + 1"] unfolding p by (auto simp: mx_def mn_def Let_def maxGenChildren_def split: if_splits)
  qed
qed

text \<open>Registry stubs look like hives whatever their name: 8 KiB, beginning with the REGF
  signature.\<close>

theorem hive_stub_shape:
  "length (registryHiveStub name) = 8192 \<and> take 4 (registryHiveStub name) = ''regf''"
proof -
  let ?b = "overwrite (replicate 8192 (CHR 0x00)) 0 ''regf''"
  have keep: "length (overwrite b i xs) = 8192 \<and> take 4 (overwrite b i xs) = take 4 b"
    if "length b = 8192" "4 \<le> i" "i + length xs \<le> 8192" for b xs :: string and i
    using that by (simp add: take_overwrite)
  have "take 4 ?b = ''regf''" "length ?b = 8192"
    by (simp_all add: overwrite_def)
  moreover have "take 4 (hive_label 0 l b) = take 4 b \<and> length (hive_label 0 l b) = 8192" if "length b = 8192" for l b
    using hive_label_keeps [OF that, of 0 l] by (metis min.absorb1 numeral_le_iff semiring_norm(68,69,71,78) take_take)
  ultimately show ?thesis
    by (simp add: registryHiveStub_def registryHiveStubSize_def Let_def keep)
qed

text \<open>A pool whose SMB account is leaked by a text file.\<close>

definition example_pool :: cred_store where
  "example_pool = newCredStore [\<lparr>cr_id = ''svc'', cr_username = ''backup'', cr_password = ''Winter1!'', cr_domain = ''CORP''\<rparr>]"

theorem planted_is_accepted_witness:
  "render (Some example_pool) (''pw='' @ placeholder ''svc'' ''password'' @ ''.'') = (''pw=Winter1!.'', None)"
proof -
  have g: "cred_get (Some example_pool) ''svc'' =
      Some \<lparr>cr_id = ''svc'', cr_username = ''backup'', cr_password = ''Winter1!'', cr_domain = ''CORP''\<rparr>"
    by code_simp
  have i: "\<forall>x \<in> set ''svc''. id_char x"
    by code_simp
  have "render (Some example_pool) ''.'' = (''.'', None)"
    by code_simp
  then show ?thesis
    using planted_is_accepted [OF g _ i, of "''password''" "''pw=''" "''.''"] by (simp add: cred_field_def)
qed

lemma gen_nodes_mem:
  "c \<in> set (fst (gen_nodes mk corpus parent n used s)) \<Longrightarrow> \<exists>p nm. c = mk p nm"
proof (induction n arbitrary: used s)
  case (Suc n)
  obtain name u1 s1 where p: "pickUnique corpus used s = (name, u1, s1)" by (cases "pickUnique corpus used s") auto
  obtain ms u2 s2 where g: "gen_nodes mk corpus parent n u1 s1 = (ms, u2, s2)"
    by (cases "gen_nodes mk corpus parent n u1 s1") auto
  show ?case
    using Suc.prems Suc.IH [of u1 s1] by (auto simp: p g)
qed simp

text \<open>Below the configured depth the generated structure ends: the entries of the last
  materialized level are empty and not generative, so nothing resolves under them (the maze does not
  take over there).\<close>

theorem generated_leaves_end:
  assumes "gs_depth gs \<le> depth" "c \<in> set (generateChildren label gs depth)"
  shows "children t c = [] \<and> findChild t c name = None"
proof -
  obtain nd s1 where d: "pickCount (gs_dirs gs) (pathSeed (gs_seed gs @ ''|'' @ label)) = (nd, s1)" by force
  obtain nf s2 where f: "pickCount (gs_files gs) s1 = (nf, s2)" by force
  let ?D = "gen_nodes (\<lambda>p nm. static_copy (mazeDirNode p nm 0) []) mazeDirCorpus label (nat nd) [] s2"
  obtain dirs used s3 where D: "?D = (dirs, used, s3)" by (cases ?D)
  let ?F = "gen_nodes (\<lambda>p nm. static_copy (mazeFileNode p nm) []) mazeFileCorpus label (nat nf) used s3"
  have "c \<in> set (fst ?D) \<union> set (fst ?F)"
  proof -
    have z: "nat (gs_depth gs - depth) = 0"
      using assms(1) by simp
    from assms(2) show ?thesis
      unfolding generateChildren_def z generate_levels.simps d f prod.case D fst_conv by simp
  qed
  then have "\<exists>n. c = static_copy n []"
    using gen_nodes_mem [of c "\<lambda>p nm. static_copy (mazeDirNode p nm 0) []"]
      gen_nodes_mem [of c "\<lambda>p nm. static_copy (mazeFileNode p nm) []"] by blast
  then have "kids c = []" "ni_mazePath (info c) = []"
    by (auto simp: static_copy_def)
  then show ?thesis
    by (simp add: findChild_children children_def)
qed

theorem generated_leaves_end_witness:
  "\<exists>c. c \<in> set (generateChildren ''X'' \<lparr>gs_seed = [], gs_dirs = \<lparr>rg_min = 1, rg_max = 1\<rparr>,
       gs_files = \<lparr>rg_min = 0, rg_max = 0\<rparr>, gs_depth = 1\<rparr> 1) \<and> children example_tree c = []"
proof -
  let ?g = "\<lparr>gs_seed = [], gs_dirs = \<lparr>rg_min = 1, rg_max = 1\<rparr>, gs_files = \<lparr>rg_min = 0, rg_max = 0\<rparr>, gs_depth = 1\<rparr>"
  have "generateChildren ''X'' ?g 1 \<noteq> []"
    by (simp add: generateChildren_def pickCount_def maxGenChildren_def split: prod.splits)
  then obtain c where c: "c \<in> set (generateChildren ''X'' ?g 1)"
    by (cases "generateChildren ''X'' ?g 1") auto
  have "gs_depth ?g \<le> 1" by simp
  from generated_leaves_end [OF this c] c show ?thesis by blast
qed

text \<open>What a build keeps.\<close>

lemma build_shares_keep:
  "build_shares read store baseDir sds roots = Inr roots' \<Longrightarrow> key \<notin> (to_upper \<circ> sd_name) ` set sds \<Longrightarrow>
    roots' key = roots key"
  by (induction sds arbitrary: roots) (auto split: sum.splits)

lemma build_shares_mem:
  "build_shares read store baseDir sds roots = Inr roots' \<Longrightarrow> distinct (map (to_upper \<circ> sd_name) sds) \<Longrightarrow> sd \<in> set sds \<Longrightarrow>
    \<exists>root. build_share read store baseDir sd = Inr root \<and> roots' (to_upper (sd_name sd)) = Some root"
proof (induction sds arbitrary: roots)
  case (Cons s sds)
  then obtain root where r: "build_share read store baseDir s = Inr root"
    "build_shares read store baseDir sds (roots(to_upper (sd_name s) \<mapsto> root)) = Inr roots'"
    by (auto split: sum.splits)
  show ?case
  proof (cases "sd = s")
    case True
    then show ?thesis
      using build_shares_keep [OF r(2), of "to_upper (sd_name s)"] Cons.prems(2) r(1) by (auto simp: image_iff)
  next
    case False
    then show ?thesis
      using Cons.IH [OF r(2)] Cons.prems by auto
  qed
qed simp

section \<open>What a declaration promises\<close>

text \<open>A file of the tree as its declaration has it.\<close>

definition served_file ::
  "(string \<Rightarrow> string option) \<Rightarrow> cred_store option \<Rightarrow> string \<Rightarrow> file_def \<Rightarrow> node \<Rightarrow> bool" where
  "served_file read store baseDir f n \<longleftrightarrow>
     ni_name (info n) = fd_name f \<and> \<not> ni_dir (info n) \<and> file_content read store baseDir f = Inr (ni_content (info n)) \<and>
     ni_readOnly (info n) = fd_readOnly f \<and> ni_system (info n) = fd_system f \<and> ni_hidden (info n) = fd_hidden f \<and>
     kids n = [] \<and> ni_mazePath (info n) = []"

text \<open>A directory as its declaration has it: its entries are the declared directories, then the declared
  files, in order, and nothing else unless the declaration asks for generated entries.\<close>

fun served :: "(string \<Rightarrow> string option) \<Rightarrow> cred_store option \<Rightarrow> string \<Rightarrow> dir_def \<Rightarrow> node \<Rightarrow> bool"
  and served_all :: "(string \<Rightarrow> string option) \<Rightarrow> cred_store option \<Rightarrow> string \<Rightarrow> dir_def list \<Rightarrow> node list \<Rightarrow> bool" where
  "served read store baseDir (DirDef name dirs files maze) n \<longleftrightarrow>
     ni_dir (info n) \<and> ni_name (info n) = name \<and> (ni_mazePath (info n) \<noteq> [] \<longrightarrow> maze) \<and>
     (\<exists>ds fs generated. kids n = ds @ fs @ generated \<and> (generated \<noteq> [] \<longrightarrow> maze) \<and> served_all read store baseDir dirs ds \<and>
        list_all2 (served_file read store baseDir) files fs)"
| "served_all read store baseDir [] ns \<longleftrightarrow> ns = []"
| "served_all read store baseDir (d # ds) ns \<longleftrightarrow> (\<exists>n ns'. ns = n # ns' \<and> served read store baseDir d n \<and> served_all read store baseDir ds ns')"

lemma served_all_iff: "served_all read store baseDir ds ns = list_all2 (served read store baseDir) ds ns"
  by (induction ds arbitrary: ns) (auto simp: list_all2_Cons1)

lemma buildFiles_served:
  "buildFiles read store baseDir prefix fs = Inr ns \<Longrightarrow> list_all2 (served_file read store baseDir) fs ns"
  by (induction fs arbitrary: ns) (auto simp: buildFile_def served_file_def split: sum.splits prod.splits)

lemma buildDirs_served:
  "buildDir read store baseDir prefix d = Inr n \<Longrightarrow> served read store baseDir d n"
  "buildDirs read store baseDir prefix ds = Inr ns \<Longrightarrow> served_all read store baseDir ds ns"
proof (induction read store baseDir prefix d and read store baseDir prefix ds arbitrary: n and ns rule: buildDir_buildDirs.induct)
  case (1 read store baseDir prefix name dirs files maze)
  obtain c m where t: "staticNodeTimes (child_path prefix name) = (c, m)" by force
  obtain ds fs where b: "buildDirs read store baseDir (child_path prefix name) dirs = Inr ds"
      "buildFiles read store baseDir (child_path prefix name) files = Inr fs"
    and n: "kids n = ds @ fs" "ni_dir (info n)" "ni_name (info n) = name" "ni_mazePath (info n) = (if maze then child_path prefix name else [])"
    using 1(2) t by (auto simp: Let_def split: sum.splits)
  have "served_all read store baseDir dirs ds"
    using 1(1) [OF refl t [symmetric] b(1)] .
  then have "\<exists>ds fs generated. kids n = ds @ fs @ generated \<and> (generated \<noteq> [] \<longrightarrow> maze) \<and> served_all read store baseDir dirs ds \<and>
      list_all2 (served_file read store baseDir) files fs"
    using n(1) buildFiles_served [OF b(2)] by (intro exI [of _ ds] exI [of _ fs] exI [of _ "[]"]) simp
  with n(2-4) show ?case
    unfolding served.simps by simp
qed (auto split: sum.splits)

lemma stamp_keeps [simp]:
  "ni_readOnly (info (stampStaticTimes r n)) = ni_readOnly (info n)" "ni_system (info (stampStaticTimes r n)) = ni_system (info n)"
  "ni_hidden (info (stampStaticTimes r n)) = ni_hidden (info n)"
  by (cases n; simp add: Let_def split: prod.split)+

lemma served_file_stamp: "served_file read store baseDir f (stampStaticTimes r n) = served_file read store baseDir f n"
  by (simp add: served_file_def)

lemma served_stamp:
  "served read store baseDir d n \<Longrightarrow> served read store baseDir d (stampStaticTimes r n)"
  "served_all read store baseDir ds ns \<Longrightarrow> served_all read store baseDir ds (map (stampStaticTimes r) ns)"
proof (induction read store baseDir d n and read store baseDir ds ns arbitrary: r and r rule: served_served_all.induct)
  case (1 read store baseDir name dirs files maze n)
  then obtain ds fs gen where k: "kids n = ds @ fs @ gen" "gen \<noteq> [] \<longrightarrow> maze" "served_all read store baseDir dirs ds"
      "list_all2 (served_file read store baseDir) files fs"
    by auto
  obtain q where q: "kids (stampStaticTimes r n) = map (stampStaticTimes q) (kids n)"
    using stamp_shape(1) [of r n] that by blast
  have "served_all read store baseDir dirs (map (stampStaticTimes q) ds)"
    using 1(1) k(3) by blast
  moreover have "list_all2 (served_file read store baseDir) files (map (stampStaticTimes q) fs)"
    using k(4) by (simp add: list_all2_map2 served_file_stamp)
  moreover have "kids (stampStaticTimes r n) = map (stampStaticTimes q) ds @ map (stampStaticTimes q) fs @ map (stampStaticTimes q) gen"
    using q k(1) by simp
  ultimately have "\<exists>ds fs generated. kids (stampStaticTimes r n) = ds @ fs @ generated \<and> (generated \<noteq> [] \<longrightarrow> maze) \<and>
      served_all read store baseDir dirs ds \<and> list_all2 (served_file read store baseDir) files fs"
    using k(2) by (intro exI [of _ "map (stampStaticTimes q) ds"] exI [of _ "map (stampStaticTimes q) fs"]
        exI [of _ "map (stampStaticTimes q) gen"]) simp
  with 1(2) show ?case
    unfolding served.simps by (simp del: stamp_shape(1))
qed auto

text \<open>What stands at a path of a declaration: names are compared without case, directories come before files, and the
  components \<open>.\<close> and \<open>..\<close> are passed over.\<close>

definition find_decl :: "dir_def list \<Rightarrow> file_def list \<Rightarrow> string \<Rightarrow> (dir_def + file_def) option" where
  "find_decl dirs files p =
     (case find (\<lambda>d. equal_fold (dd_name d) p) dirs of
        Some d \<Rightarrow> Some (Inl d)
      | None \<Rightarrow> map_option Inr (find (\<lambda>f. equal_fold (fd_name f) p) files))"

fun declared_at :: "dir_def + file_def \<Rightarrow> string list \<Rightarrow> (dir_def + file_def) option" where
  "declared_at x [] = Some x"
| "declared_at x (p # ps) =
     (if p = ''.'' \<or> p = ''..'' then declared_at x ps
      else case x of
             Inr f \<Rightarrow> None
           | Inl d \<Rightarrow> (case find_decl (dd_dirs d) (dd_files d) p of None \<Rightarrow> None | Some y \<Rightarrow> declared_at y ps))"

definition served_as ::
  "(string \<Rightarrow> string option) \<Rightarrow> cred_store option \<Rightarrow> string \<Rightarrow> dir_def + file_def \<Rightarrow> node \<Rightarrow> bool" where
  "served_as read store baseDir x n = (case x of Inl d \<Rightarrow> served read store baseDir d n | Inr f \<Rightarrow> served_file read store baseDir f n)"

lemma find_list_all2:
  assumes "list_all2 R xs ys" "\<And>x y. R x y \<Longrightarrow> f x = g y"
  shows "rel_option R (find (\<lambda>x. P (f x)) xs) (find (\<lambda>y. P (g y)) ys)"
  using assms(1) by (induction rule: list_all2_induct) (auto dest: assms(2))

lemma find_append: "find P (xs @ ys) = (case find P xs of None \<Rightarrow> find P ys | Some x \<Rightarrow> Some x)"
  by (induction xs) auto

lemma served_findChild:
  assumes "served read store baseDir d n" "find_decl (dd_dirs d) (dd_files d) p = Some y"
  shows "\<exists>c. findChild t n p = Some c \<and> served_as read store baseDir y c"
proof -
  obtain ds fs gen where k: "kids n = ds @ fs @ gen" "list_all2 (served read store baseDir) (dd_dirs d) ds"
      "list_all2 (served_file read store baseDir) (dd_files d) fs"
    using assms(1) by (cases d) (auto simp: served_all_iff)
  have d: "rel_option (served read store baseDir) (find (\<lambda>d. equal_fold (dd_name d) p) (dd_dirs d)) (find (\<lambda>c. equal_fold (ni_name (info c)) p) ds)"
  proof (rule find_list_all2 [where f = dd_name and g = "\<lambda>c. ni_name (info c)" and P = "\<lambda>q. equal_fold q p", OF k(2)])
    show "served read store baseDir d' n' \<Longrightarrow> dd_name d' = ni_name (info n')" for d' n'
      by (cases d') simp
  qed
  have f: "rel_option (served_file read store baseDir) (find (\<lambda>d. equal_fold (fd_name d) p) (dd_files d)) (find (\<lambda>c. equal_fold (ni_name (info c)) p) fs)"
    by (rule find_list_all2 [where f = fd_name and g = "\<lambda>c. ni_name (info c)" and P = "\<lambda>q. equal_fold q p", OF k(3)]) (simp add: served_file_def)
  have "\<exists>c. findChildIn (kids n) p = Some c \<and> served_as read store baseDir y c"
    using assms(2) d f
    by (auto simp: findChildIn_fold k(1) find_append find_decl_def served_as_def option_rel_Some1 split: option.splits)
  then show ?thesis
    by (auto simp: findChild_def)
qed

lemma served_walk:
  "served_as read store baseDir x n \<Longrightarrow> declared_at x ps = Some y \<Longrightarrow> \<exists>c. walk t n ps = Some c \<and> served_as read store baseDir y c"
proof (induction x ps arbitrary: n rule: declared_at.induct)
  case (2 x p ps)
  show ?case
  proof (cases "p = ''.'' \<or> p = ''..''")
    case True
    with 2 show ?thesis by simp
  next
    case False
    with "2.prems"(2) obtain d z where d: "x = Inl d" "find_decl (dd_dirs d) (dd_files d) p = Some z" "declared_at z ps = Some y"
      by (auto split: sum.splits option.splits)
    have "served read store baseDir d n"
      using "2.prems"(1) by (simp add: d(1) served_as_def)
    from served_findChild [OF this d(2), of t] obtain c where c: "findChild t n p = Some c" "served_as read store baseDir z c"
      by blast
    from "2.IH"(2) [OF False d(1,2) c(2) d(3)] show ?thesis
      using False c(1) by simp
  qed
qed simp

text \<open>The declaration of a share.\<close>

definition share_decl :: "share_def \<Rightarrow> dir_def" where
  "share_decl sd =
     (case sd_root sd of
        None \<Rightarrow> DirDef [] [] [] (sd_maze sd \<or> sd_generate sd \<noteq> None)
      | Some (dirs, files) \<Rightarrow> DirDef [] dirs files (sd_maze sd \<or> sd_generate sd \<noteq> None))"

lemma share_served:
  assumes "build_share read store baseDir sd = Inr root"
  shows "served read store baseDir (share_decl sd) root"
proof -
  let ?key = "to_upper (sd_name sd)" and ?gen = "case sd_generate sd of None \<Rightarrow> [] | Some gs \<Rightarrow> generateChildren (to_upper (sd_name sd)) gs 1"
  obtain ns1 where g: "(case sd_root sd of None \<Rightarrow> Inr [] | Some g \<Rightarrow> buildGroup read store baseDir ?key g) = Inr ns1"
    using assms by (auto simp: build_share_def Let_def split: sum.splits if_splits)
  define r where "r = (if sd_maze sd
      then Node ((info (dirNode [] (ns1 @ ?gen)))\<lparr>ni_mazePath := ?key, ni_mazeDepth := 0\<rparr>) (ns1 @ ?gen) else dirNode [] (ns1 @ ?gen))"
  have root: "root = stampStaticTimes ?key r"
    using assms g by (simp add: build_share_def Let_def r_def del: stampStaticTimes.simps split: if_splits)
  have sel: "ni_dir (info r)" "ni_name (info r) = []" "kids r = ns1 @ ?gen" "ni_mazePath (info r) \<noteq> [] \<longrightarrow> sd_maze sd"
    by (simp_all add: r_def)
  have gen: "?gen \<noteq> [] \<longrightarrow> sd_generate sd \<noteq> None"
    by (cases "sd_generate sd") simp_all
  have "served read store baseDir (share_decl sd) r"
  proof (cases "sd_root sd")
    case None
    then have "ns1 = []"
      using g by simp
    then show ?thesis
      using sel gen None by (simp add: share_decl_def)
  next
    case (Some grp)
    obtain dirs files where grp: "grp = (dirs, files)" by force
    obtain ds fs where b: "buildDirs read store baseDir ?key dirs = Inr ds" "buildFiles read store baseDir ?key files = Inr fs" "ns1 = ds @ fs"
      using g Some grp by (auto simp: buildGroup_def split: sum.splits)
    then show ?thesis
      using sel gen buildDirs_served(2) [OF b(1)] buildFiles_served [OF b(2)]
      by (auto simp: share_decl_def Some grp)
  qed
  then show ?thesis
    unfolding root by (rule served_stamp(1))
qed

text \<open>C19. What is declared is served, at any depth.  When a tree is built from shares with distinct names, every path
  that a share's declaration has something at resolves, under the share's name and with the path's components in any case: a declared file
  with the content its declaration yields (seed file, or text with the credentials filled in) and its attributes, a declared
  directory, or the share itself, with a listing that starts with the declared directories and files in order and goes on only where
  generated entries are asked for.\<close>

theorem declared_is_served:
  assumes "buildTree read cfg store baseDir = Inr t" "distinct (map (to_upper \<circ> sd_name) (tc_shares cfg))"
    and "sd \<in> set (tc_shares cfg)" "equal_fold name (sd_name sd)"
    and "declared_at (Inl (share_decl sd)) (fields_func is_sep path) = Some x"
  shows "\<exists>n. resolve t name path = Some n \<and>
    (case x of
       Inr f \<Rightarrow> ni_name (info n) = fd_name f \<and> \<not> ni_dir (info n) \<and> file_content read store baseDir f = Inr (ni_content (info n)) \<and>
         ni_readOnly (info n) = fd_readOnly f \<and> ni_system (info n) = fd_system f \<and> ni_hidden (info n) = fd_hidden f
     | Inl d \<Rightarrow> ni_name (info n) = dd_name d \<and> ni_dir (info n) \<and>
         (\<exists>generated. map (\<lambda>c. (ni_name (info c), ni_dir (info c))) (children t n) =
            map (\<lambda>e. (dd_name e, True)) (dd_dirs d) @ map (\<lambda>f. (fd_name f, False)) (dd_files d) @ generated \<and>
            (generated = [] \<or> dd_maze d)))"
proof -
  obtain roots where b: "build_shares read store baseDir (tc_shares cfg) Map.empty = Inr roots"
    and t: "t = \<lparr>tr_roots = roots, tr_maze = tc_maze cfg\<rparr>"
    using assms(1) by (auto simp: buildTree_def split: sum.splits)
  obtain root where s: "build_share read store baseDir sd = Inr root" and r: "roots (to_upper (sd_name sd)) = Some root"
    using build_shares_mem [OF b assms(2,3)] by blast
  have "to_upper name = to_upper (sd_name sd)"
    using assms(4) by (simp add: to_upper_eq_iff)
  then have res: "resolve t name path = walk t root (fields_func is_sep path)"
    using r by (simp add: resolve_walk t)
  have "served_as read store baseDir (Inl (share_decl sd)) root"
    using share_served [OF s] by (simp add: served_as_def)
  from served_walk [OF this assms(5), of t] obtain n where n: "walk t root (fields_func is_sep path) = Some n" "served_as read store baseDir x n"
    by blast
  show ?thesis
  proof (cases x)
    case (Inr f)
    then show ?thesis using n res by (auto simp: served_as_def served_file_def)
  next
    case (Inl d)
    then have d: "served read store baseDir d n"
      using n(2) by (simp add: served_as_def)
    then obtain ds fs gen where k: "kids n = ds @ fs @ gen" "gen \<noteq> [] \<longrightarrow> dd_maze d" "list_all2 (served read store baseDir) (dd_dirs d) ds"
        "list_all2 (served_file read store baseDir) (dd_files d) fs" and h: "ni_dir (info n)" "ni_name (info n) = dd_name d" "ni_mazePath (info n) \<noteq> [] \<longrightarrow> dd_maze d"
      by (cases d) (auto simp: served_all_iff)
    have shown: "map (\<lambda>c. (ni_name (info c), ni_dir (info c))) ds = map (\<lambda>e. (dd_name e, True)) (dd_dirs d)"
      "map (\<lambda>c. (ni_name (info c), ni_dir (info c))) fs = map (\<lambda>f. (fd_name f, False)) (dd_files d)"
    proof -
      have sel: "served read store baseDir e c \<Longrightarrow> ni_name (info c) = dd_name e \<and> ni_dir (info c)" for e c
        by (cases e) simp
      show "map (\<lambda>c. (ni_name (info c), ni_dir (info c))) ds = map (\<lambda>e. (dd_name e, True)) (dd_dirs d)"
        using k(3) by (induction rule: list_all2_induct) (auto dest: sel)
      show "map (\<lambda>c. (ni_name (info c), ni_dir (info c))) fs = map (\<lambda>f. (fd_name f, False)) (dd_files d)"
        using k(4) by (induction rule: list_all2_induct) (auto simp: served_file_def)
    qed
    have "\<exists>more. children t n = ds @ fs @ gen @ more \<and> (more \<noteq> [] \<longrightarrow> dd_maze d)"
      using h(3) k(1) by (auto simp: children_def Let_def)
    then show ?thesis
      using n(1) res h k(2) shown Inl by (auto 4 3)
  qed
qed

definition example_file :: file_def where
  "example_file = \<lparr>fd_name = ''notes.txt'', fd_content = ''user '' @ placeholder ''svc'' ''username'', fd_seedFile = [],
     fd_readOnly = False, fd_system = False, fd_hidden = False, fd_archive = False\<rparr>"

definition example_share :: share_def where
  "example_share = \<lparr>sd_name = ''Data'', sd_type = ''disk'', sd_remark = [],
     sd_root = Some ([DirDef ''IT'' [DirDef ''Scripts'' [] [example_file] False] [] False], []), sd_generate = None, sd_maze = False\<rparr>"

theorem declared_is_served_witness:
  "\<exists>t n. buildTree (\<lambda>_. None) \<lparr>tc_shares = [example_share], tc_maze = defaultMazeConfig\<rparr> (Some example_pool) [] = Inr t \<and>
     resolve t ''DATA'' ''it/SCRIPTS/notes.txt'' = Some n \<and> ni_name (info n) = ''notes.txt'' \<and> ni_content (info n) = ''user backup''"
proof -
  let ?cfg = "\<lparr>tc_shares = [example_share], tc_maze = defaultMazeConfig\<rparr>"
  have c: "file_content (\<lambda>_. None) (Some example_pool) [] example_file = Inr ''user backup''"
    by code_simp
  have "\<exists>n. buildFile (\<lambda>_. None) (Some example_pool) [] p example_file = Inr n" for p
    using c by (simp add: buildFile_def split: prod.split)
  then have "\<exists>t. buildTree (\<lambda>_. None) ?cfg (Some example_pool) [] = Inr t"
    by (simp add: buildTree_def build_share_def buildGroup_def example_share_def Let_def
        del: stampStaticTimes.simps split: prod.split sum.split) (metis Inl_Inr_False)
  then obtain t where t: "buildTree (\<lambda>_. None) ?cfg (Some example_pool) [] = Inr t" ..
  have h: "example_share \<in> set (tc_shares ?cfg)" "distinct (map (to_upper \<circ> sd_name) (tc_shares ?cfg))"
    by simp_all
  have f: "equal_fold ''DATA'' (sd_name example_share)"
    "equal_fold ''IT'' ''it''" "equal_fold ''Scripts'' ''SCRIPTS''"
    by code_simp+
  have p: "fields_func is_sep ''it/SCRIPTS/notes.txt'' = [''it'', ''SCRIPTS'', ''notes.txt'']"
    by (simp add: is_sep_def backslash_char_def)
  have "declared_at (Inl (share_decl example_share)) (fields_func is_sep ''it/SCRIPTS/notes.txt'') = Some (Inr example_file)"
    using f(2,3) unfolding p by (simp add: share_decl_def example_share_def find_decl_def) (simp add: example_file_def)
  from declared_is_served [OF t h(2,1) f(1) this] t c show ?thesis
    by (auto simp: example_file_def)
qed

text \<open>The two views of the stock Windows directory are one: whatever follows \<open>Windows\<close> under
  \<open>C$\<close> resolves to what it resolves to under \<open>ADMIN$\<close>, timestamps included.\<close>

theorem admin_is_windows:
  "resolve (defaultTree m) ''C$'' (''Windows/'' @ path) = resolve (defaultTree m) ''ADMIN$'' path"
proof -
  let ?t = "defaultTree m"
  let ?win = "stampStaticTimes ''ADMIN$'' (hd (kids (stampStaticTimes ''C$'' c_root)))"
  have u: "to_upper ''C$'' = ''C$''" "to_upper ''ADMIN$'' = ''ADMIN$''"
    by code_simp+
  obtain c2 where r: "tr_roots ?t ''C$'' = Some c2" "tr_roots ?t ''ADMIN$'' = Some ?win" "kids c2 = ?win # tl (kids (stampStaticTimes ''C$'' c_root))"
    by (simp add: defaultTree_def Let_def)
  have "ni_name (info ?win) = ''Windows''"
    by (simp add: c_root_def windows_dir_def del: stampStaticTimes.simps)
  then have f: "findChild ?t c2 ''Windows'' = Some ?win"
    by (simp add: findChild_def findChildIn_def r(3) del: stampStaticTimes.simps)
  have "fields_func is_sep (''Windows/'' @ path) = ''Windows'' # fields_func is_sep path"
    by (simp add: is_sep_def backslash_char_def)
  then show ?thesis
    by (simp add: resolve_walk u r f del: stampStaticTimes.simps append.simps)
qed

end
