(* ===== verification/Control_Auth.thy ===== *)
theory Control_Auth
  imports Go_Strings
begin

text \<open>
  Who may do what on the control plane: \<open>authorizer.go\<close>, \<open>ops.go\<close> and \<open>peer.go\<close> of
  \<open>internal/control\<close>, with the \<open>Authorizer\<close> interface of \<open>control.go\<close> as the locale
  \<open>authorizer\<close>, which \<open>RoleAuthorizer\<close> interprets.
\<close>

section \<open>Model\<close>

record peer =
  pe_uid :: u32
  pe_gid :: u32
  pe_pid :: int
  pe_userSID :: string
  pe_groupSIDs :: "string list"
  pe_isAdmin :: bool

text \<open>The zero value of \<open>Peer\<close>, what \<open>peerCred\<close> returns with an error.\<close>

definition zero_peer :: peer where
  "zero_peer = \<lparr>pe_uid = 0, pe_gid = 0, pe_pid = 0, pe_userSID = '''', pe_groupSIDs = [], pe_isAdmin = False\<rparr>"

record rbac_role =
  ro_name :: string
  ro_uids :: "u32 list"
  ro_gids :: "u32 list"
  ro_sids :: "string list"
  ro_groups :: "string list"
  ro_allow :: "string list"

definition backslash :: char where "backslash = CHR 0x5C"

definition wellKnownGroupLabel :: "string \<Rightarrow> string" where
  "wellKnownGroupLabel sid =
     (let s = to_upper sid in
      if s = ''S-1-5-32-544'' then ''administrators''
      else if s = ''S-1-5-18'' then ''system''
      else if s = ''S-1-5-32-545'' then ''users''
      else '''')"

definition normalizeWellKnownGroup :: "string \<Rightarrow> string" where
  "normalizeWellKnownGroup name =
     (let s = to_upper (replace_char (trim_space name) (CHR ''/'') backslash) in
      if s \<in> {''BUILTIN'' @ [backslash] @ ''ADMINISTRATORS'', ''ADMINISTRATORS'',
               ''DOMAIN ALIAS'' @ [backslash] @ ''ADMINS''} then ''administrators''
      else if s \<in> {''NT AUTHORITY'' @ [backslash] @ ''SYSTEM'', ''SYSTEM''} then ''system''
      else if s \<in> {''BUILTIN'' @ [backslash] @ ''USERS'', ''USERS''} then ''users''
      else to_lower name)"

definition sidEqual :: "string \<Rightarrow> string \<Rightarrow> bool" where
  "sidEqual a b \<longleftrightarrow> equal_fold (trim_space a) (trim_space b)"

definition isBootstrapAdmin :: "peer \<Rightarrow> bool" where
  "isBootstrapAdmin p \<longleftrightarrow>
     pe_isAdmin p \<or> (\<exists>g \<in> set (pe_groupSIDs p). wellKnownGroupLabel g = ''administrators'') \<or>
     (pe_userSID p = '''' \<and> pe_uid p = 0)"

definition groupMatchesPeer :: "string \<Rightarrow> peer \<Rightarrow> bool" where
  "groupMatchesPeer entry0 p =
     (let entry = trim_space entry0 in
      if has_prefix (to_upper entry) ''S-'' then \<exists>g \<in> set (pe_groupSIDs p). sidEqual entry g
      else \<exists>g \<in> set (pe_groupSIDs p). wellKnownGroupLabel g = normalizeWellKnownGroup entry)"

definition roleMatchesPeer :: "rbac_role \<Rightarrow> peer \<Rightarrow> bool" where
  "roleMatchesPeer r p =
     (if pe_userSID p \<noteq> '''' then
        (\<exists>s \<in> set (ro_sids r). sidEqual s (pe_userSID p)) \<or> (\<exists>g \<in> set (ro_groups r). groupMatchesPeer g p)
      else pe_uid p \<in> set (ro_uids r) \<or> pe_gid p \<in> set (ro_gids r))"

definition opAllowed :: "string list \<Rightarrow> string \<Rightarrow> bool" where
  "opAllowed allow op \<longleftrightarrow>
     (\<exists>a \<in> set allow. a = ''*'' \<or> a = op \<or> (has_suffix a ''.*'' \<and> has_prefix op (butlast a)))"

text \<open>\<open>Authorize\<close>: the role granted, or \<open>None\<close> for \<open>ErrDenied\<close>.\<close>

fun authorize_roles :: "rbac_role list \<Rightarrow> peer \<Rightarrow> string \<Rightarrow> string option" where
  "authorize_roles [] p op = None"
| "authorize_roles (r # rs) p op =
     (if \<not> roleMatchesPeer r p then authorize_roles rs p op
      else if opAllowed (ro_allow r) op then Some (ro_name r)
      else authorize_roles rs p op)"

definition authorize :: "rbac_role list \<Rightarrow> peer \<Rightarrow> string \<Rightarrow> string option" where
  "authorize rs p op = (if isBootstrapAdmin p then Some ''admin'' else authorize_roles rs p op)"

definition normalizeOp :: "string \<Rightarrow> string" where
  "normalizeOp op =
     (if op = ''service.restart'' then ''services.restart''
      else if op = ''service.stop'' then ''services.stop''
      else if op = ''service.start'' then ''services.start''
      else op)"

section \<open>The authorizer interface\<close>

text \<open>What the server relies on of an \<open>Authorizer\<close>: the bootstrap administrator is never locked out.\<close>

locale authorizer =
  fixes authz :: "peer \<Rightarrow> string \<Rightarrow> string option"
  assumes bootstrap: "isBootstrapAdmin p \<Longrightarrow> authz p op \<noteq> None"
begin

lemma zero_peer_granted: "authz zero_peer op \<noteq> None"
  by (rule bootstrap) (simp add: isBootstrapAdmin_def zero_peer_def)

end

interpretation roles: authorizer "authorize rs" for rs
  by unfold_locales (simp add: authorize_def)

section \<open>Lemmas\<close>

lemma normalizeOp_idem [simp]: "normalizeOp (normalizeOp op) = normalizeOp op"
  by (simp add: normalizeOp_def)

lemma authorize_roles_Some:
  "authorize_roles rs p op = Some n \<Longrightarrow> \<exists>r \<in> set rs. roleMatchesPeer r p \<and> opAllowed (ro_allow r) op \<and> ro_name r = n"
  by (induction rs) (auto split: if_splits)

lemma authorize_roles_None:
  "authorize_roles rs p op = None \<longleftrightarrow> (\<forall>r \<in> set rs. \<not> (roleMatchesPeer r p \<and> opAllowed (ro_allow r) op))"
  by (induction rs) auto

lemma opAllowed_prefix:
  "opAllowed allow op \<longleftrightarrow> ''*'' \<in> set allow \<or> op \<in> set allow \<or>
     (\<exists>pre rest. pre @ ''.*'' \<in> set allow \<and> op = pre @ ''.'' @ rest)"
proof -
  have *: "has_suffix a ''.*'' \<and> has_prefix op (butlast a) \<longleftrightarrow> (\<exists>pre rest. a = pre @ ''.*'' \<and> op = pre @ ''.'' @ rest)" for a
    by (auto simp: has_suffix_iff has_prefix_iff butlast_append)
  show ?thesis
    unfolding opAllowed_def * by auto
qed

section \<open>Properties\<close>

text \<open>The groups the code knows by name, with the names an entry may use, and when an entry of a role
  names a group of a peer: by SID, by a known name, or, blank, any group that is not well known.\<close>

definition well_known_groups :: "(string \<times> string list) list" where
  "well_known_groups =
     [(''S-1-5-32-544'', [''ADMINISTRATORS'', ''BUILTIN'' @ [backslash] @ ''ADMINISTRATORS'', ''DOMAIN ALIAS'' @ [backslash] @ ''ADMINS'']),
      (''S-1-5-18'', [''SYSTEM'', ''NT AUTHORITY'' @ [backslash] @ ''SYSTEM'']),
      (''S-1-5-32-545'', [''USERS'', ''BUILTIN'' @ [backslash] @ ''USERS''])]"

definition names_group :: "string \<Rightarrow> string \<Rightarrow> bool" where
  "names_group e g \<longleftrightarrow>
     (if has_prefix (to_upper e) ''S-'' then equal_fold e (trim_space g)
      else (\<exists>(sid, names) \<in> set well_known_groups. to_upper g = sid \<and> to_upper (replace_char e (CHR ''/'') backslash) \<in> set names) \<or>
        (e = '''' \<and> to_upper g \<notin> fst ` set well_known_groups))"

lemma known_label:
  "wellKnownGroupLabel g = ''administrators'' \<longleftrightarrow> to_upper g = ''S-1-5-32-544''"
  "wellKnownGroupLabel g = ''system'' \<longleftrightarrow> to_upper g = ''S-1-5-18''"
  "wellKnownGroupLabel g = ''users'' \<longleftrightarrow> to_upper g = ''S-1-5-32-545''"
  "wellKnownGroupLabel g = '''' \<longleftrightarrow> to_upper g \<notin> fst ` set well_known_groups"
  "wellKnownGroupLabel g \<in> {''administrators'', ''system'', ''users'', ''''}"
  by (auto simp: wellKnownGroupLabel_def well_known_groups_def Let_def)

lemma trim_space_idem [simp]: "trim_space (trim_space s) = trim_space s"
proof -
  have rev_drop: "dropWhile P (rev (dropWhile P (rev (dropWhile P xs)))) = rev (dropWhile P (rev (dropWhile P xs)))"
    for P and xs :: string
  proof (cases "dropWhile P (rev (dropWhile P xs))")
    case (Cons y ys)
    then have "dropWhile P xs \<noteq> []" by (metis dropWhile.simps(1) list.distinct(1) rev.simps(1))
    then obtain z zs where z: "dropWhile P xs = z # zs" "\<not> P z"
      by (cases "dropWhile P xs") (auto dest: dropWhile_eq_Cons_conv [THEN iffD1])
    have "rev (dropWhile P (rev (z # zs))) = z # rev (dropWhile P (rev zs))"
      using z(2) by (simp add: dropWhile_append)
    then show ?thesis unfolding z(1) using z(2) by simp
  next
    case Nil
    then show ?thesis by (simp only: Nil) simp
  qed
  have "dropWhile P (dropWhile P xs) = dropWhile P xs" for P and xs :: string
    by (induction xs) auto
  then show ?thesis
    unfolding trim_space_def by (simp add: rev_drop)
qed

text \<open>A known name in lower case is spelt as the table has it.\<close>

lemma lower_name:
  assumes "to_lower e = l" "CHR ''/'' \<notin> set l"
  shows "to_upper (replace_char e (CHR ''/'') backslash) = to_upper l"
proof -
  have "replace_char e (CHR ''/'') backslash = e"
  proof -
    have "lower_char (CHR ''/'') = CHR ''/''" by code_simp
    then have "CHR ''/'' \<notin> set e" using assms by (force simp: to_lower_def)
    then show ?thesis by (auto simp: replace_char_def intro!: map_idI)
  qed
  then show ?thesis using assms(1) by (auto simp: to_upper_eq_iff equal_fold_def)
qed

lemma label_names_group:
  assumes "trim_space e = e" "\<not> has_prefix (to_upper e) ''S-''"
  shows "wellKnownGroupLabel g = normalizeWellKnownGroup e \<longleftrightarrow> names_group e g"
proof -
  have upper: "to_upper ''administrators'' = ''ADMINISTRATORS''" "to_upper ''system'' = ''SYSTEM''" "to_upper ''users'' = ''USERS''"
    by code_simp+
  have low: "to_lower e = ''administrators'' \<Longrightarrow> to_upper (replace_char e (CHR ''/'') backslash) = ''ADMINISTRATORS''"
    "to_lower e = ''system'' \<Longrightarrow> to_upper (replace_char e (CHR ''/'') backslash) = ''SYSTEM''"
    "to_lower e = ''users'' \<Longrightarrow> to_upper (replace_char e (CHR ''/'') backslash) = ''USERS''"
    using lower_name [of e] upper by simp_all
  have empty: "to_lower e = '''' \<longleftrightarrow> e = ''''" "replace_char '''' c d = ''''" "to_upper '''' = ''''" "to_lower '''' = ''''" for c d
    by (auto simp: to_lower_def replace_char_def to_upper_def)
  show ?thesis
    using known_label [of g] low
    by (auto simp: names_group_def normalizeWellKnownGroup_def assms Let_def well_known_groups_def empty)
qed

lemma groupMatches_names: "groupMatchesPeer e p \<longleftrightarrow> (\<exists>g \<in> set (pe_groupSIDs p). names_group (trim_space e) g)"
  by (simp add: groupMatchesPeer_def Let_def label_names_group sidEqual_def) (simp add: names_group_def)

lemma authorize_roles_find:
  "authorize_roles rs p op = map_option ro_name (find (\<lambda>r. roleMatchesPeer r p \<and> opAllowed (ro_allow r) op) rs)"
  by (induction rs) auto

text \<open>C12. The decision, exactly.  A peer that the system calls an administrator, that is in the administrators
  group, or that has no SID and the uid 0, is the bootstrap administrator.  Any other peer gets the first
  role, in the order configured, that matches it and allows the operation.  A peer with a SID is matched
  only by a SID of the role or by an entry of its groups; one without, only by its uid or gid.  The
  operation is allowed by \<open>*\<close>, by its name, or by a \<open>prefix.*\<close> entry it extends.  Everything else is
  denied, in particular everything when no roles are configured.\<close>

theorem authorize_exact:
  "authorize rs p op =
     (if pe_isAdmin p \<or> (\<exists>g \<in> set (pe_groupSIDs p). to_upper g = ''S-1-5-32-544'') \<or> (pe_userSID p = '''' \<and> pe_uid p = 0)
      then Some ''admin''
      else map_option ro_name (find (\<lambda>r.
        (if pe_userSID p \<noteq> ''''
         then (\<exists>s \<in> set (ro_sids r). equal_fold (trim_space s) (trim_space (pe_userSID p))) \<or>
           (\<exists>e \<in> set (ro_groups r). \<exists>g \<in> set (pe_groupSIDs p). names_group (trim_space e) g)
         else pe_uid p \<in> set (ro_uids r) \<or> pe_gid p \<in> set (ro_gids r)) \<and>
        (''*'' \<in> set (ro_allow r) \<or> op \<in> set (ro_allow r) \<or>
         (\<exists>pre rest. pre @ ''.*'' \<in> set (ro_allow r) \<and> op = pre @ ''.'' @ rest))) rs))"
proof -
  have "isBootstrapAdmin p \<longleftrightarrow> pe_isAdmin p \<or> (\<exists>g \<in> set (pe_groupSIDs p). to_upper g = ''S-1-5-32-544'') \<or>
      (pe_userSID p = '''' \<and> pe_uid p = 0)"
    by (simp add: isBootstrapAdmin_def known_label)
  then show ?thesis
    unfolding authorize_def authorize_roles_find roleMatchesPeer_def groupMatches_names sidEqual_def opAllowed_prefix by simp
qed

text \<open>Linux and Windows identities do not leak into each other: the uid and gid of a Windows
  peer (they are zero there) never match a role or make it an administrator.\<close>

theorem windows_peer_ignores_uid:
  assumes "pe_userSID p \<noteq> ''''"
  shows "authorize rs (p\<lparr>pe_uid := u, pe_gid := g\<rparr>) op = authorize rs p op"
proof -
  have "isBootstrapAdmin (p\<lparr>pe_uid := u, pe_gid := g\<rparr>) = isBootstrapAdmin p"
    using assms by (simp add: isBootstrapAdmin_def)
  moreover have m: "roleMatchesPeer r (p\<lparr>pe_uid := u, pe_gid := g\<rparr>) = roleMatchesPeer r p" for r
    using assms by (simp add: roleMatchesPeer_def groupMatchesPeer_def)
  moreover have "authorize_roles rs (p\<lparr>pe_uid := u, pe_gid := g\<rparr>) op = authorize_roles rs p op"
    by (induction rs) (simp_all add: m)
  ultimately show ?thesis
    by (simp add: authorize_def)
qed

text \<open>A blank entry in a role's Windows groups matches every peer that is in any group without
  a well-known label, so the role is granted to ordinary users: the label of an unknown group and
  the normal form of the blank entry are both the empty string.\<close>

theorem blank_group_matches:
  assumes "pe_userSID p \<noteq> ''''" "g \<in> set (pe_groupSIDs p)" "wellKnownGroupLabel g = ''''"
    and "r \<in> set rs" "'''' \<in> set (ro_groups r)" "op \<in> set (ro_allow r)"
  shows "authorize rs p op \<noteq> None"
proof -
  have n: "normalizeWellKnownGroup '''' = ''''" "trim_space '''' = ''''" "\<not> has_prefix (to_upper '''') ''S-''"
    by code_simp+
  then have "groupMatchesPeer '''' p"
    using assms(2,3) by (auto simp: groupMatchesPeer_def Let_def)
  then have "roleMatchesPeer r p"
    using assms(1,5) by (auto simp: roleMatchesPeer_def)
  moreover have "opAllowed (ro_allow r) op"
    using assms(6) by (auto simp: opAllowed_def)
  ultimately have "\<not> authorize_roles rs p op = None"
    unfolding authorize_roles_None using assms(4) by blast
  then show ?thesis
    by (simp add: authorize_def)
qed

text \<open>An ordinary Windows user: in Everyone and Users, not elevated.\<close>

definition example_user :: peer where
  "example_user = \<lparr>pe_uid = 0, pe_gid = 0, pe_pid = 77, pe_userSID = ''S-1-5-21-7-7-7-1001'',
     pe_groupSIDs = [''S-1-1-0'', ''S-1-5-32-545''], pe_isAdmin = False\<rparr>"

definition example_role :: "string list \<Rightarrow> rbac_role" where
  "example_role groups = \<lparr>ro_name = ''ops'', ro_uids = [0], ro_gids = [0], ro_sids = [], ro_groups = groups,
     ro_allow = [''status'']\<rparr>"

theorem windows_peer_ignores_uid_witness:
  "authorize [example_role []] (example_user\<lparr>pe_uid := 1000, pe_gid := 1000\<rparr>) ''status'' = None"
proof -
  have h: "pe_userSID example_user \<noteq> ''''"
    by (simp add: example_user_def)
  have "authorize [example_role []] example_user ''status'' = None"
    by code_simp
  then show ?thesis
    unfolding windows_peer_ignores_uid [OF h] .
qed

theorem blank_group_matches_witness:
  "authorize [example_role ['''']] example_user ''status'' \<noteq> None \<and>
   authorize [example_role []] example_user ''status'' = None"
proof
  have h: "pe_userSID example_user \<noteq> ''''" "''S-1-1-0'' \<in> set (pe_groupSIDs example_user)"
    "wellKnownGroupLabel ''S-1-1-0'' = ''''"
    by code_simp+
  show "authorize [example_role ['''']] example_user ''status'' \<noteq> None"
    by (rule blank_group_matches [OF h, where r = "example_role ['''']"]) (simp_all add: example_role_def)
  show "authorize [example_role []] example_user ''status'' = None"
    by code_simp
qed

end
