(* ===== verification/Go_Time.thy ===== *)
theory Go_Time
  imports Go_Strings
begin

text \<open>
  The parts of Go's \<open>time\<close> package the event and defense layers use.  A \<open>time\<close> is the number of
  nanoseconds since Go's zero \<open>Time\<close>, so \<open>IsZero\<close> is \<open>= 0\<close>; a \<open>duration\<close> is a signed 64-bit
  count of nanoseconds, kept as an \<open>int\<close> with the saturation of \<open>Time.Sub\<close> written out.
\<close>

type_synonym time = int
type_synonym duration = int

abbreviation second :: duration where "second \<equiv> 1000000000"
abbreviation minute :: duration where "minute \<equiv> 60 * second"
abbreviation hour :: duration where "hour \<equiv> 60 * minute"

definition max_duration :: duration where "max_duration = 9223372036854775807"
definition min_duration :: duration where "min_duration = - 9223372036854775808"

definition time_sub :: "time \<Rightarrow> time \<Rightarrow> duration" where
  "time_sub t u = max min_duration (min max_duration (t - u))"

lemma time_sub_gt: "0 \<le> c \<Longrightarrow> c < time_sub t u \<Longrightarrow> c < t - u"
  by (auto simp: time_sub_def min_duration_def max_duration_def max_def min_def split: if_splits)

section \<open>Rendering\<close>

text \<open>\<open>Duration.String\<close>: \<open>frac_digits v p\<close> is the fraction of \<open>v / 10 ^ p\<close> without its trailing
  zeros, with its point.\<close>

fun pad_digits :: "int \<Rightarrow> nat \<Rightarrow> string" where
  "pad_digits v 0 = []"
| "pad_digits v (Suc p) = pad_digits (v div 10) p @ [char_of (48 + nat (v mod 10))]"

definition frac_digits :: "int \<Rightarrow> nat \<Rightarrow> string" where
  "frac_digits v p =
     (let ds = rev (dropWhile (\<lambda>c. c = CHR ''0'') (rev (pad_digits v p)))
      in if ds = [] then [] else CHR ''.'' # ds)"

definition unsigned_duration :: "int \<Rightarrow> string" where
  "unsigned_duration u =
     (if u = 0 then ''0s''
      else if u < 1000 then itoa (nat u) @ ''ns''
      else if u < 1000000 then itoa (nat (u div 1000)) @ frac_digits u 3 @ [CHR 0xC2, CHR 0xB5, CHR ''s'']
      else if u < 1000000000 then itoa (nat (u div 1000000)) @ frac_digits u 6 @ ''ms''
      else
        let s = u div 1000000000; m = s div 60; h = m div 60
        in (if 0 < h then itoa (nat h) @ ''h'' else []) @ (if 0 < m then itoa (nat (m mod 60)) @ ''m'' else [])
           @ itoa (nat (s mod 60)) @ frac_digits u 9 @ ''s'')"

definition duration_string :: "duration \<Rightarrow> string" where
  "duration_string d = (if d < 0 then ''-'' else []) @ unsigned_duration \<bar>d\<bar>"

text \<open>\<open>%d\<close> of an \<open>int\<close>.\<close>

definition int_string :: "int \<Rightarrow> string" where
  "int_string i = (if i < 0 then ''-'' else []) @ itoa (nat \<bar>i\<bar>)"

section \<open>Parsing\<close>

definition is_digit :: "char \<Rightarrow> bool" where
  "is_digit c \<longleftrightarrow> (let n = (of_char c :: nat) in 48 \<le> n \<and> n \<le> 57)"

definition digits_value :: "string \<Rightarrow> nat" where
  "digits_value = foldl (\<lambda>a c. a * 10 + (of_char c - 48)) 0"

definition unit_value :: "string \<Rightarrow> nat option" where
  "unit_value u =
     (if u = ''ns'' then Some 1
      else if u = ''us'' \<or> u = [CHR 0xC2, CHR 0xB5, CHR ''s''] \<or> u = [CHR 0xCE, CHR 0xBC, CHR ''s''] then Some 1000
      else if u = ''ms'' then Some 1000000
      else if u = ''s'' then Some 1000000000
      else if u = ''m'' then Some 60000000000
      else if u = ''h'' then Some 3600000000000
      else None)"

text \<open>The groups of \<open>ParseDuration\<close>: integer digits, an optional fraction, a unit.  The fraction is
  taken exactly (Go computes it in floating point, which can differ by a nanosecond for fractions
  that are not whole in the unit).  The total may not exceed \<open>2 ^ 63\<close>.\<close>

function parse_groups :: "string \<Rightarrow> nat \<Rightarrow> nat option" where
  "parse_groups s d =
     (if s = [] then Some d
      else
        let ip = takeWhile is_digit s; r = dropWhile is_digit s;
            dot = (r \<noteq> [] \<and> hd r = CHR ''.'');
            fp = (if dot then takeWhile is_digit (tl r) else []);
            r' = (if dot then dropWhile is_digit (tl r) else r);
            u = takeWhile (\<lambda>c. c \<noteq> CHR ''.'' \<and> \<not> is_digit c) r';
            r'' = dropWhile (\<lambda>c. c \<noteq> CHR ''.'' \<and> \<not> is_digit c) r'
        in if ip = [] \<and> fp = [] \<or> 2 ^ 63 < digits_value ip then None
           else if u = [] then None
           else case unit_value u of
             None \<Rightarrow> None
           | Some k \<Rightarrow>
               let v = digits_value ip * k + digits_value fp * k div 10 ^ length fp
               in if 2 ^ 63 < d + v then None else parse_groups r'' (d + v))"
  by pat_completeness auto
termination
proof (relation "measure (length \<circ> fst)", goal_cases)
  case (2 s d ip r dot fp r' u r'' k v)
  have "length r \<le> length s"
    unfolding 2(3) by (rule length_dropWhile_le)
  moreover have "length r' \<le> length r"
    unfolding 2(6) 2(4)
    by (cases r) (auto intro: order.trans [OF length_dropWhile_le])
  moreover have "length r'' < length r'"
  proof -
    have "length r' = length u + length r''"
      unfolding 2(7) 2(8) by (simp flip: length_append)
    with 2(10) show ?thesis by (cases u) auto
  qed
  ultimately show ?case by simp
qed simp

declare parse_groups.simps [simp del]

definition parseDuration :: "string \<Rightarrow> duration option" where
  "parseDuration s0 =
     (let neg = (s0 \<noteq> [] \<and> hd s0 = CHR ''-'');
          s = (if s0 \<noteq> [] \<and> (hd s0 = CHR ''-'' \<or> hd s0 = CHR ''+'') then tl s0 else s0)
      in if s = ''0'' then Some 0
         else if s = [] then None
         else case parse_groups s 0 of
           None \<Rightarrow> None
         | Some d \<Rightarrow> if neg then Some (- int d) else if d = 2 ^ 63 then None else Some (int d))"

section \<open>Whole numbers are not durations\<close>

lemma is_digit_char: "a < 10 \<Longrightarrow> is_digit (char_of (48 + a :: nat))"
  by (simp add: is_digit_def)

lemma itoa_digits: "\<forall>c \<in> set (itoa n). is_digit c"
proof (induction n rule: itoa.induct)
  case (1 n)
  then show ?case
    by (subst itoa.simps) (auto simp: is_digit_char)
qed

lemma itoa_nonempty [simp]: "itoa n \<noteq> []"
  by (subst itoa.simps) simp

lemma parse_groups_digits:
  assumes "s \<noteq> []" "\<forall>c \<in> set s. is_digit c"
  shows "parse_groups s d = None"
proof -
  have "takeWhile is_digit s = s" "dropWhile is_digit s = []"
    using assms(2) by (simp_all only: takeWhile_eq_all_conv dropWhile_eq_Nil_conv)
  then show ?thesis
    using assms(1)
    by (subst parse_groups.simps) (simp add: Let_def del: takeWhile_eq_all_conv dropWhile_eq_Nil_conv)
qed

lemma itoa_0 [simp]: "itoa 0 = ''0''"
  by code_simp

lemma parse_int_string: "parseDuration (int_string i) = (if i = 0 then Some 0 else None)"
proof (cases "i = 0")
  case False
  have ne: "itoa (nat \<bar>i\<bar>) \<noteq> ''0''"
    using itoa_inj [of "nat \<bar>i\<bar>" 0] False by auto
  have "is_digit (hd (itoa n))" for n
    using itoa_digits [of n] hd_in_set [OF itoa_nonempty, of n] by blast
  moreover have "\<not> is_digit (CHR ''-'')" "\<not> is_digit (CHR ''+'')"
    by code_simp+
  ultimately have sign: "hd (itoa n) \<noteq> CHR ''-''" "hd (itoa n) \<noteq> CHR ''+''" for n
    by metis+
  have none: "parse_groups (itoa (nat \<bar>i\<bar>)) 0 = None"
    by (rule parse_groups_digits) (simp_all add: itoa_digits)
  obtain c t where it: "itoa (nat \<bar>i\<bar>) = c # t"
    by (cases "itoa (nat \<bar>i\<bar>)") auto
  have "c \<noteq> CHR ''-''" "c \<noteq> CHR ''+''"
    using sign [of "nat \<bar>i\<bar>"] by (simp_all add: it)
  with ne none False show ?thesis
    unfolding parseDuration_def int_string_def it by (simp add: Let_def)
qed (simp add: parseDuration_def int_string_def)

end
