(* ===== verification/Events.thy ===== *)
theory Events
  imports Go_Time Go_Path
begin

text \<open>
  The event taxonomy and the sinks of \<open>internal/events\<close>: \<open>events.go\<close>, \<open>sinks.go\<close> and the sink
  selection of \<open>config.go\<close>.  A sink's record of what it accepted is kept as a list of events,
  one per NDJSON line or syslog frame: the JSON rendering is not modelled.  The file system and
  the network answer through oracles, one answer per attempt.  The contract of a sink is the
  locale \<open>event_sink\<close>; the bus itself is in \<open>Event_Bus\<close>.
\<close>

section \<open>Events\<close>

datatype event_type =
    Connection | AuthAttempt | AuthSuccess | CredCapture | Enumeration
  | FileDownload | MazeDescent | Probe | Block | Control

text \<open>\<open>SevUnset\<close> is the empty string.\<close>

datatype severity = SevUnset | SevInfo | SevNotice | SevWarn | SevAlert

datatype field_value = FStr string | FBool bool | FInt int

record event =
  ev_time :: time
  ev_type :: event_type
  ev_severity :: severity
  ev_service :: string
  ev_srcIP :: string
  ev_srcPort :: string
  ev_dstPort :: u16
  ev_message :: string
  ev_fields :: "string \<rightharpoonup> field_value"

text \<open>The zero \<open>Event\<close> of a given type, what a composite literal starts from.\<close>

definition blank_event :: "event_type \<Rightarrow> event" where
  "blank_event t = \<lparr>ev_time = 0, ev_type = t, ev_severity = SevUnset, ev_service = [], ev_srcIP = [],
     ev_srcPort = [], ev_dstPort = 0, ev_message = [], ev_fields = Map.empty\<rparr>"

text \<open>\<open>net.SplitHostPort\<close>: the host and the port around the last colon, brackets removed.\<close>

definition last_index :: "char \<Rightarrow> string \<Rightarrow> nat option" where
  "last_index c s = (if c \<in> set s then Some (length s - 1 - length (takeWhile (\<lambda>x. x \<noteq> c) (rev s))) else None)"

definition split_host_port :: "string \<Rightarrow> (string \<times> string) option" where
  "split_host_port s =
     (case last_index (CHR '':'') s of
        None \<Rightarrow> None
      | Some i \<Rightarrow>
          let port = drop (i + 1) s in
          if hd s = CHR ''['' then
            (if CHR '']'' \<notin> set s then None
             else let e = length (takeWhile (\<lambda>x. x \<noteq> CHR '']'') s); host = take (e - 1) (tl s) in
               if e + 1 \<noteq> i then None
               else if CHR ''['' \<in> set (tl s) \<or> CHR '']'' \<in> set (drop (e + 1) s) then None
               else Some (host, port))
          else let host = take i s in
            if CHR '':'' \<in> set host then None
            else if CHR ''['' \<in> set s \<or> CHR '']'' \<in> set s then None
            else Some (host, port))"

definition splitHostPort :: "string \<Rightarrow> event \<Rightarrow> event" where
  "splitHostPort remoteAddr e =
     (case split_host_port remoteAddr of
        Some (host, port) \<Rightarrow> e\<lparr>ev_srcIP := host, ev_srcPort := port\<rparr>
      | None \<Rightarrow> e)"

text \<open>\<open>Emit\<close> fills in the time and the severity.\<close>

definition stamp :: "time \<Rightarrow> event \<Rightarrow> event" where
  "stamp now e =
     (let e1 = (if ev_time e = 0 then e\<lparr>ev_time := now\<rparr> else e)
      in if ev_severity e1 = SevUnset then e1\<lparr>ev_severity := SevInfo\<rparr> else e1)"

lemma stamp_sel [simp]:
  "ev_type (stamp now e) = ev_type e" "ev_srcIP (stamp now e) = ev_srcIP e"
  "ev_time (stamp now e) = (if ev_time e = 0 then now else ev_time e)"
  "ev_severity (stamp now e) \<noteq> SevUnset"
  by (simp_all add: stamp_def Let_def)

section \<open>Sinks\<close>

text \<open>The NDJSON file: \<open>fs_ok n\<close> tells whether the \<open>n\<close>-th write succeeds.\<close>

record file_sink =
  fs_lines :: "event list"
  fs_writes :: nat
  fs_ok :: "nat \<Rightarrow> bool"

definition file_write :: "file_sink \<Rightarrow> event \<Rightarrow> file_sink \<times> string option" where
  "file_write s e =
     (let s1 = s\<lparr>fs_writes := fs_writes s + 1\<rparr>
      in if fs_ok s (fs_writes s) then (s1\<lparr>fs_lines := fs_lines s @ [e]\<rparr>, None)
         else (s1, Some ''write failed''))"

definition syslogSeverity :: "severity \<Rightarrow> nat" where
  "syslogSeverity sev =
     (case sev of SevAlert \<Rightarrow> 1 | SevWarn \<Rightarrow> 4 | SevNotice \<Rightarrow> 5 | _ \<Rightarrow> 6)"

definition local0Facility :: nat where "local0Facility = 16"

text \<open>A frame: the \<open>PRI\<close> value and the event the message carries.\<close>

definition syslog_frame :: "event \<Rightarrow> nat \<times> event" where
  "syslog_frame e = (local0Facility * 8 + syslogSeverity (ev_severity e), e)"

text \<open>The syslog sink: whether a connection is held, what the collector received, and the oracles
  for the \<open>n\<close>-th dial and the \<open>n\<close>-th write.\<close>

record syslog_sink =
  sl_conn :: bool
  sl_frames :: "(nat \<times> event) list"
  sl_dials :: nat
  sl_writes :: nat
  sl_dial_ok :: "nat \<Rightarrow> bool"
  sl_write_ok :: "nat \<Rightarrow> bool"

definition syslog_connect :: "syslog_sink \<Rightarrow> syslog_sink \<times> string option" where
  "syslog_connect s =
     (let s1 = s\<lparr>sl_dials := sl_dials s + 1\<rparr>
      in if sl_dial_ok s (sl_dials s) then (s1\<lparr>sl_conn := True\<rparr>, None) else (s1, Some ''dial failed''))"

definition syslog_send :: "(nat \<times> event) \<Rightarrow> syslog_sink \<Rightarrow> syslog_sink \<times> string option" where
  "syslog_send f s =
     (let s1 = s\<lparr>sl_writes := sl_writes s + 1\<rparr>
      in if sl_write_ok s (sl_writes s) then (s1\<lparr>sl_frames := sl_frames s @ [f]\<rparr>, None)
         else (s1, Some ''send failed''))"

definition syslog_write :: "syslog_sink \<Rightarrow> event \<Rightarrow> syslog_sink \<times> string option" where
  "syslog_write s e =
     (case (if sl_conn s then (s, None) else syslog_connect s) of
        (s1, Some err) \<Rightarrow> (s1, Some err)
      | (s1, None) \<Rightarrow>
          (case syslog_send (syslog_frame e) s1 of
             (s2, None) \<Rightarrow> (s2, None)
           | (s2, Some err) \<Rightarrow>
               (case syslog_connect (s2\<lparr>sl_conn := False\<rparr>) of
                  (s3, Some _) \<Rightarrow> (s3, Some err)
                | (s3, None) \<Rightarrow> syslog_send (syslog_frame e) s3)))"

definition memory_write :: "event list \<Rightarrow> event \<Rightarrow> event list \<times> string option" where
  "memory_write m e = (m @ [e], None)"

subsection \<open>The contract of a sink\<close>

text \<open>\<open>received\<close> is what the sink has on record.  A write adds the event at most once and nothing
  else; it reports success exactly when the event is on record.\<close>

locale event_sink =
  fixes sink_write :: "'s \<Rightarrow> event \<Rightarrow> 's \<times> string option"
    and received :: "'s \<Rightarrow> event list"
  assumes delivered: "snd (sink_write s e) = None \<Longrightarrow> received (fst (sink_write s e)) = received s @ [e]"
    and refused: "snd (sink_write s e) \<noteq> None \<Longrightarrow> received (fst (sink_write s e)) = received s"
begin

text \<open>A run of writes, with the flag of each: whether it was reported a success.\<close>

fun write_all :: "'s \<Rightarrow> event list \<Rightarrow> 's \<times> bool list" where
  "write_all s [] = (s, [])"
| "write_all s (e # es) =
     (let r = sink_write s e; q = write_all (fst r) es in (fst q, (snd r = None) # snd q))"

text \<open>What is on record after a run is what was there, then the events whose write succeeded, each
  once and in order.\<close>

lemma write_all_record:
  "received (fst (write_all s es)) = received s @ map fst (filter snd (zip es (snd (write_all s es))))"
proof (induction es arbitrary: s)
  case (Cons e es)
  show ?case
    using Cons [of "fst (sink_write s e)"] delivered [of s e] refused [of s e]
    by (cases "snd (sink_write s e) = None") (simp_all add: Let_def)
qed simp

end

interpretation mem: event_sink memory_write "\<lambda>m. m"
  by unfold_locales (simp_all add: memory_write_def)

interpretation ndjson: event_sink file_write fs_lines
  by unfold_locales (simp_all add: file_write_def Let_def split: if_splits)

interpretation syslog: event_sink syslog_write "\<lambda>s. map snd (sl_frames s)"
  by unfold_locales
    (auto simp: syslog_write_def syslog_connect_def syslog_send_def syslog_frame_def Let_def
          split: if_splits prod.splits option.splits)

lemma syslog_write_frames:
  "sl_frames (fst (syslog_write s e)) \<in> {sl_frames s, sl_frames s @ [syslog_frame e]}"
  by (auto simp: syslog_write_def syslog_connect_def syslog_send_def Let_def
      split: if_splits prod.splits option.splits)

section \<open>Which sinks are configured\<close>

record syslog_config =
  sc_enabled :: bool
  sc_network :: string
  sc_address :: string

record events_config =
  ec_enabled :: bool
  ec_jsonFile :: bool
  ec_syslog :: syslog_config

datatype sink_spec = FileSpec string | SyslogSpec string string

text \<open>\<open>Init\<close>: \<open>open_file\<close> tells whether the event log can be opened.  An error value for a
  disabled bus does not exist: \<open>Inr None\<close> is the nil bus, \<open>Inr (Some ss)\<close> a bus with sinks
  \<open>ss\<close>.\<close>

definition newSyslogSink :: "string \<Rightarrow> string \<Rightarrow> string + sink_spec" where
  "newSyslogSink network address =
     (if network \<noteq> ''udp'' \<and> network \<noteq> ''tcp'' then Inl ''unsupported network''
      else Inr (SyslogSpec network address))"

definition events_init :: "(string \<Rightarrow> bool) \<Rightarrow> events_config \<Rightarrow> string \<Rightarrow> string + sink_spec list option" where
  "events_init open_file cfg logDir =
     (if \<not> ec_enabled cfg then Inr None
      else
        let path = path_join [logDir, ''events.log''] in
        if ec_jsonFile cfg \<and> logDir \<noteq> [] \<and> \<not> open_file path then Inl ''events file''
        else
          let file = (if ec_jsonFile cfg \<and> logDir \<noteq> [] then [FileSpec path] else []) in
          if sc_enabled (ec_syslog cfg) then
            (let network = (if sc_network (ec_syslog cfg) = [] then ''udp'' else sc_network (ec_syslog cfg));
                 address = (if sc_address (ec_syslog cfg) = [] then ''127.0.0.1:514'' else sc_address (ec_syslog cfg))
             in case newSyslogSink network address of
                  Inl err \<Rightarrow> Inl err
                | Inr s \<Rightarrow> Inr (Some (file @ [s])))
          else Inr (Some file))"

text \<open>With the subsystem on and no sink selected, the bus exists and is empty: it is not nil, so
  callers that test for nil attach their own sinks to it.\<close>

lemma init_no_sink_not_nil:
  "ec_enabled cfg \<Longrightarrow> \<not> ec_jsonFile cfg \<Longrightarrow> \<not> sc_enabled (ec_syslog cfg) \<Longrightarrow>
   events_init open_file cfg logDir = Inr (Some [])"
  by (simp add: events_init_def)

end
