(* ===== verification/Detector.thy ===== *)
theory Detector
  imports Events
begin

text \<open>
  The abuse detector of \<open>internal/defense\<close> (\<open>detector.go\<close>, with \<open>config.go\<close>): a score per source
  address over a sliding window.  \<open>detector_write\<close> follows \<open>Detector.Write\<close> and returns the request
  it makes of the blocker, if any.  The abstract specification scores the whole history; the code's
  pruned hit lists are shown to compute it for events in time order.
\<close>

section \<open>Model\<close>

record defense_config =
  dc_enabled :: bool
  dc_enforce :: bool
  dc_blockTTL :: duration
  dc_window :: duration
  dc_score :: int
  dc_cooldown :: duration
  dc_whitelist :: "string list"

definition withDefaults :: "defense_config \<Rightarrow> defense_config" where
  "withDefaults c =
     c\<lparr>dc_blockTTL := (if dc_blockTTL c = 0 then hour else dc_blockTTL c),
       dc_window := (if dc_window c = 0 then 60 * second else dc_window c),
       dc_score := (if dc_score c = 0 then 12 else dc_score c),
       dc_cooldown := (if dc_cooldown c = 0 then 5 * minute else dc_cooldown c)\<rparr>"

definition weight :: "event_type \<Rightarrow> int" where
  "weight t =
     (case t of
        AuthAttempt \<Rightarrow> 3
      | CredCapture \<Rightarrow> 2 | MazeDescent \<Rightarrow> 2 | FileDownload \<Rightarrow> 2
      | Enumeration \<Rightarrow> 1 | Connection \<Rightarrow> 1 | AuthSuccess \<Rightarrow> 1
      | _ \<Rightarrow> 0)"

record hit =
  hit_t :: time
  hit_w :: int

record src_state =
  st_hits :: "hit list"
  st_lastBlock :: time

definition fresh_src :: src_state where
  "fresh_src = \<lparr>st_hits = [], st_lastBlock = 0\<rparr>"

record detector =
  dt_window :: duration
  dt_cooldown :: duration
  dt_threshold :: int
  dt_src :: "string \<rightharpoonup> src_state"

definition newDetector :: "defense_config \<Rightarrow> detector" where
  "newDetector cfg =
     (let c = withDefaults cfg in
      \<lparr>dt_window = dc_window c, dt_cooldown = dc_cooldown c, dt_threshold = dc_score c,
       dt_src = Map.empty\<rparr>)"

text \<open>What the block request says.\<close>

definition block_reason :: "detector \<Rightarrow> int \<Rightarrow> string" where
  "block_reason d score =
     ''abuse score '' @ int_string score @ '' (threshold '' @ int_string (dt_threshold d) @ '') in ''
       @ duration_string (dt_window d)"

text \<open>\<open>Write\<close> at the clock reading \<open>now0\<close>: the new state and the address and reason it hands to the
  blocker.\<close>

definition detector_write :: "time \<Rightarrow> event \<Rightarrow> detector \<Rightarrow> detector \<times> (string \<times> string) option" where
  "detector_write now0 e d =
     (if ev_type e = Block \<or> ev_srcIP e = [] then (d, None)
      else
        let w = weight (ev_type e) in
        if w = 0 then (d, None)
        else
          let now = (if ev_time e = 0 then now0 else ev_time e);
              st = (case dt_src d (ev_srcIP e) of None \<Rightarrow> fresh_src | Some st \<Rightarrow> st);
              cutoff = now - dt_window d;
              old = filter (\<lambda>h. cutoff < hit_t h) (st_hits st);
              kept = old @ [\<lparr>hit_t = now, hit_w = w\<rparr>];
              score = sum_list (map hit_w old) + w;
              trigger = (dt_threshold d \<le> score \<and> dt_cooldown d < time_sub now (st_lastBlock st));
              st' = st\<lparr>st_hits := kept, st_lastBlock := (if trigger then now else st_lastBlock st)\<rparr>
          in (d\<lparr>dt_src := (dt_src d)(ev_srcIP e \<mapsto> st')\<rparr>,
              if trigger then Some (ev_srcIP e, block_reason d score) else None))"

text \<open>A run over stamped events (the bus gives every event a time), with the events that
  triggered.\<close>

fun detector_run :: "detector \<Rightarrow> event list \<Rightarrow> detector \<times> event list" where
  "detector_run d [] = (d, [])"
| "detector_run d (e # es) =
     (case detector_write 0 e d of (d', r) \<Rightarrow>
        (case detector_run d' es of (d'', ts) \<Rightarrow> (d'', (if r = None then [] else [e]) @ ts)))"

lemma detector_run_append:
  "detector_run d (es @ fs) =
     (case detector_run d es of (d', ts) \<Rightarrow>
        (case detector_run d' fs of (d'', us) \<Rightarrow> (d'', ts @ us)))"
  by (induction d es rule: detector_run.induct) (auto split: prod.splits)

lemma detector_params [simp]:
  "dt_window (fst (detector_write n e d)) = dt_window d"
  "dt_cooldown (fst (detector_write n e d)) = dt_cooldown d"
  "dt_threshold (fst (detector_write n e d)) = dt_threshold d"
  by (simp_all add: detector_write_def Let_def)

lemma detector_run_params [simp]:
  "dt_window (fst (detector_run d es)) = dt_window d"
  "dt_cooldown (fst (detector_run d es)) = dt_cooldown d"
  "dt_threshold (fst (detector_run d es)) = dt_threshold d"
proof -
  have "dt_window (fst (detector_run d es)) = dt_window d \<and>
    dt_cooldown (fst (detector_run d es)) = dt_cooldown d \<and>
    dt_threshold (fst (detector_run d es)) = dt_threshold d"
  proof (induction d es rule: detector_run.induct)
    case (2 d e es)
    obtain d' r where "detector_write 0 e d = (d', r)" by fastforce
    with 2 detector_params [of 0 e d] show ?case
      by (auto split: prod.splits)
  qed simp
  then show "dt_window (fst (detector_run d es)) = dt_window d"
    "dt_cooldown (fst (detector_run d es)) = dt_cooldown d"
    "dt_threshold (fst (detector_run d es)) = dt_threshold d"
    by auto
qed

section \<open>Specification\<close>

text \<open>The events of a history that count against an address.\<close>

definition scored :: "string \<Rightarrow> event list \<Rightarrow> event list" where
  "scored ip h = filter (\<lambda>e. ev_srcIP e = ip \<and> ip \<noteq> [] \<and> weight (ev_type e) \<noteq> 0) h"

definition window_score :: "duration \<Rightarrow> time \<Rightarrow> string \<Rightarrow> event list \<Rightarrow> int" where
  "window_score win now ip h =
     sum_list (map (\<lambda>e. weight (ev_type e)) (filter (\<lambda>e. now - win < ev_time e) (scored ip h)))"

text \<open>The blocks of an address among the events that triggered.\<close>

definition blocks_of :: "string \<Rightarrow> event list \<Rightarrow> event list" where
  "blocks_of ip ts = filter (\<lambda>e. ev_srcIP e = ip) ts"

definition last_block :: "string \<Rightarrow> event list \<Rightarrow> time" where
  "last_block ip ts = (if blocks_of ip ts = [] then 0 else ev_time (last (blocks_of ip ts)))"

section \<open>The code computes the specification\<close>

definition to_hit :: "event \<Rightarrow> hit" where
  "to_hit e = \<lparr>hit_t = ev_time e, hit_w = weight (ev_type e)\<rparr>"

definition src_of :: "detector \<Rightarrow> string \<Rightarrow> src_state" where
  "src_of d ip = (case dt_src d ip of None \<Rightarrow> fresh_src | Some st \<Rightarrow> st)"

text \<open>The hit list of an address, seen through any later window, is the history seen through it.\<close>

definition tracks :: "detector \<Rightarrow> event list \<Rightarrow> event list \<Rightarrow> bool" where
  "tracks d h ts \<longleftrightarrow> (\<forall>ip. st_lastBlock (src_of d ip) = last_block ip ts \<and>
     (\<forall>t. (\<forall>e \<in> set h. ev_time e \<le> t) \<longrightarrow>
        filter (\<lambda>x. t - dt_window d < hit_t x) (st_hits (src_of d ip)) =
        map to_hit (filter (\<lambda>e. t - dt_window d < ev_time e) (scored ip h))))"

lemma to_hit_sel [simp]: "hit_t (to_hit e) = ev_time e" "hit_w (to_hit e) = weight (ev_type e)"
  by (simp_all add: to_hit_def)

lemma scored_snoc:
  "scored ip (h @ [e]) =
     scored ip h @ (if ev_srcIP e = ip \<and> ip \<noteq> [] \<and> weight (ev_type e) \<noteq> 0 then [e] else [])"
  by (simp add: scored_def)

lemma last_block_snoc:
  "last_block ip (ts @ [e]) = (if ev_srcIP e = ip then ev_time e else last_block ip ts)"
  by (simp add: last_block_def blocks_of_def)

text \<open>One scored event.\<close>

lemma detector_write_scored:
  assumes "ev_srcIP e \<noteq> []" "weight (ev_type e) \<noteq> 0" "ev_time e \<noteq> 0"
  shows "detector_write n e d =
    (let st = src_of d (ev_srcIP e);
         old = filter (\<lambda>x. ev_time e - dt_window d < hit_t x) (st_hits st);
         score = sum_list (map hit_w old) + weight (ev_type e);
         trigger = (dt_threshold d \<le> score \<and> dt_cooldown d < time_sub (ev_time e) (st_lastBlock st))
     in (d\<lparr>dt_src := (dt_src d)(ev_srcIP e \<mapsto>
            st\<lparr>st_hits := old @ [to_hit e], st_lastBlock := (if trigger then ev_time e else st_lastBlock st)\<rparr>)\<rparr>,
         if trigger then Some (ev_srcIP e, block_reason d score) else None))"
proof -
  have "ev_type e \<noteq> Block"
    using assms(2) by (auto simp: weight_def)
  with assms show ?thesis
    by (simp add: detector_write_def src_of_def to_hit_def Let_def)
qed

lemma detector_write_other:
  "ev_srcIP e = [] \<or> weight (ev_type e) = 0 \<Longrightarrow> detector_write n e d = (d, None)"
  by (auto simp: detector_write_def)

lemma tracks_score:
  assumes "tracks d h ts" "\<forall>x \<in> set h. ev_time x \<le> ev_time e"
  shows "sum_list (map hit_w (filter (\<lambda>x. ev_time e - dt_window d < hit_t x) (st_hits (src_of d ip)))) =
    window_score (dt_window d) (ev_time e) ip h"
proof -
  have "map hit_w (filter (\<lambda>x. ev_time e - dt_window d < hit_t x) (st_hits (src_of d ip))) =
    map (\<lambda>e. weight (ev_type e)) (filter (\<lambda>x. ev_time e - dt_window d < ev_time x) (scored ip h))"
    using assms by (simp add: tracks_def comp_def)
  then show ?thesis by (simp add: window_score_def)
qed

text \<open>What the code decides, in terms of the history.\<close>

lemma tracks_trigger:
  assumes "tracks d h ts" "\<forall>x \<in> set h. ev_time x \<le> ev_time e" "ev_time e \<noteq> 0"
  shows "snd (detector_write n e d) \<noteq> None \<longleftrightarrow>
    ev_srcIP e \<noteq> [] \<and> weight (ev_type e) \<noteq> 0 \<and>
    dt_threshold d \<le> window_score (dt_window d) (ev_time e) (ev_srcIP e) h + weight (ev_type e) \<and>
    dt_cooldown d < time_sub (ev_time e) (last_block (ev_srcIP e) ts)"
proof (cases "ev_srcIP e \<noteq> [] \<and> weight (ev_type e) \<noteq> 0")
  case True
  with assms(1) show ?thesis
    by (simp add: detector_write_scored assms(3) Let_def tracks_score [OF assms(1,2)])
      (simp add: tracks_def)
qed (auto simp: detector_write_other)

lemma tracks_step:
  assumes tr: "tracks d h ts" and le: "\<forall>x \<in> set h. ev_time x \<le> ev_time e" and nz: "ev_time e \<noteq> 0"
    and w: "detector_write n e d = (d', r)"
  shows "tracks d' (h @ [e]) (ts @ (if r = None then [] else [e]))"
proof (cases "ev_srcIP e \<noteq> [] \<and> weight (ev_type e) \<noteq> 0")
  case False
  then have "d' = d" "r = None"
    using w detector_write_other [of e n d] by auto
  with tr False show ?thesis
    by (auto simp: tracks_def scored_snoc)
next
  case True
  let ?ip = "ev_srcIP e" and ?st = "src_of d (ev_srcIP e)"
  let ?old = "filter (\<lambda>x. ev_time e - dt_window d < hit_t x) (st_hits ?st)"
  have lb: "st_lastBlock (src_of d ip) = last_block ip ts" for ip
    using tr by (simp add: tracks_def)
  have src: "src_of d' ip = (if ip = ?ip
      then ?st\<lparr>st_hits := ?old @ [to_hit e], st_lastBlock := (if r = None then st_lastBlock ?st else ev_time e)\<rparr>
      else src_of d ip)" for ip
    using w True by (auto simp: detector_write_scored nz Let_def src_of_def split: if_splits)
  have win: "dt_window d' = dt_window d"
    using w detector_params(1) [of n e d] by simp
  have hits: "filter (\<lambda>x. t - dt_window d < hit_t x) (st_hits (src_of d' ip)) =
      map to_hit (filter (\<lambda>e. t - dt_window d < ev_time e) (scored ip (h @ [e])))"
    if t: "\<forall>x \<in> set (h @ [e]). ev_time x \<le> t" for ip t
  proof -
    have ih: "filter (\<lambda>x. t - dt_window d < hit_t x) (st_hits (src_of d ip)) =
        map to_hit (filter (\<lambda>e. t - dt_window d < ev_time e) (scored ip h))"
      using tr t by (simp add: tracks_def)
    have "(ev_time e - dt_window d < hit_t x \<and> t - dt_window d < hit_t x) = (t - dt_window d < hit_t x)" for x :: hit
      using t by auto
    then show ?thesis
      using ih True by (cases "ip = ?ip") (simp_all add: src scored_snoc)
  qed
  have "st_lastBlock (src_of d' ip) = last_block ip (ts @ (if r = None then [] else [e]))" for ip
    by (simp add: src lb last_block_snoc)
  with hits show ?thesis
    by (simp add: tracks_def win)
qed

lemma tracks_run:
  assumes "sorted (map ev_time h)" "\<forall>e \<in> set h. ev_time e \<noteq> 0"
  shows "tracks (fst (detector_run (newDetector cfg) h)) h (snd (detector_run (newDetector cfg) h))"
  using assms
proof (induction h rule: rev_induct)
  case Nil
  then show ?case
    by (simp add: tracks_def newDetector_def Let_def src_of_def fresh_src_def last_block_def
        blocks_of_def scored_def)
next
  case (snoc e h)
  obtain d ts where r: "detector_run (newDetector cfg) h = (d, ts)" by fastforce
  obtain d' q where w: "detector_write 0 e d = (d', q)" by fastforce
  have "tracks d h ts"
    using snoc r by (simp add: sorted_append)
  moreover have "\<forall>x \<in> set h. ev_time x \<le> ev_time e" "ev_time e \<noteq> 0"
    using snoc.prems by (simp_all add: sorted_append)
  ultimately show ?case
    using tracks_step [OF _ _ _ w] by (simp add: detector_run_append r w)
qed

section \<open>Properties\<close>

text \<open>C5. The detector blocks for the right reason: on events in time order, an event makes it ask
  for a block exactly when its source is known, its type scores, the weights of the earlier scored
  events of that source inside the window and its own reach the threshold, and the cooldown since
  the last block of that source is over.  The code's pruned hit lists lose nothing.\<close>

theorem detector_exact:
  assumes "sorted (map ev_time (h @ [e]))" "\<forall>x \<in> set (h @ [e]). ev_time x \<noteq> 0"
    and "detector_run (newDetector cfg) h = (d, ts)"
  shows "snd (detector_write now e d) \<noteq> None \<longleftrightarrow>
    ev_srcIP e \<noteq> [] \<and> weight (ev_type e) \<noteq> 0 \<and>
    dc_score (withDefaults cfg) \<le>
      window_score (dc_window (withDefaults cfg)) (ev_time e) (ev_srcIP e) h + weight (ev_type e) \<and>
    dc_cooldown (withDefaults cfg) < time_sub (ev_time e) (last_block (ev_srcIP e) ts)"
proof -
  have d: "d = fst (detector_run (newDetector cfg) h)" "ts = snd (detector_run (newDetector cfg) h)"
    by (simp_all add: assms(3))
  have tr: "tracks d h ts"
    unfolding d using assms(1,2) by (intro tracks_run) (simp_all add: sorted_append)
  have le: "\<forall>x \<in> set h. ev_time x \<le> ev_time e" "ev_time e \<noteq> 0"
    using assms(1,2) by (simp_all add: sorted_append)
  have par: "dt_window d = dc_window (withDefaults cfg)" "dt_threshold d = dc_score (withDefaults cfg)"
    "dt_cooldown d = dc_cooldown (withDefaults cfg)"
    by (simp_all add: d newDetector_def Let_def)
  show ?thesis
    unfolding tracks_trigger [OF tr le] par ..
qed

lemma lastBlock_run:
  "detector_run d es = (d', ts) \<Longrightarrow>
   st_lastBlock (src_of d' ip) = (if blocks_of ip ts = [] then st_lastBlock (src_of d ip) else last_block ip ts)"
  if "\<forall>e \<in> set es. ev_time e \<noteq> 0"
  using that
proof (induction es arbitrary: d' ts rule: rev_induct)
  case Nil
  then show ?case by (simp add: blocks_of_def)
next
  case (snoc e es)
  obtain d1 us where r: "detector_run d es = (d1, us)" by fastforce
  obtain d2 q where w: "detector_write 0 e d1 = (d2, q)" by fastforce
  have res: "d' = d2" "ts = us @ (if q = None then [] else [e])"
    using snoc.prems(1) by (simp_all add: detector_run_append r w)
  have ih: "st_lastBlock (src_of d1 ip) = (if blocks_of ip us = [] then st_lastBlock (src_of d ip) else last_block ip us)"
    using snoc r by simp
  show ?case
  proof (cases "ev_srcIP e \<noteq> [] \<and> weight (ev_type e) \<noteq> 0")
    case True
    then show ?thesis
      using w snoc.prems(2) ih
      by (auto simp: res detector_write_scored Let_def src_of_def last_block_def blocks_of_def split: if_splits)
  next
    case False
    then show ?thesis
      using w ih detector_write_other [of e 0 d1] by (auto simp: res)
  qed
qed

text \<open>The cooldown is kept: whatever the order of the events' times, two blocks of one source
  are more than the cooldown apart, the later one later.\<close>

theorem blocks_spaced:
  assumes "0 \<le> dt_cooldown d" "\<forall>e \<in> set es. ev_time e \<noteq> 0" "detector_run d es = (d', ts)"
  shows "sorted_wrt (\<lambda>a b. dt_cooldown d < ev_time b - ev_time a) (blocks_of ip ts)"
  using assms(2,3)
proof (induction es arbitrary: d' ts rule: rev_induct)
  case Nil
  then show ?case by (simp add: blocks_of_def)
next
  case (snoc e es)
  obtain d1 us where r: "detector_run d es = (d1, us)" by fastforce
  obtain d2 q where w: "detector_write 0 e d1 = (d2, q)" by fastforce
  have ts: "ts = us @ (if q = None then [] else [e])"
    using snoc.prems(2) by (simp add: detector_run_append r w)
  have ih: "sorted_wrt (\<lambda>a b. dt_cooldown d < ev_time b - ev_time a) (blocks_of ip us)"
    using snoc r by simp
  show ?case
  proof (cases "q = None \<or> ev_srcIP e \<noteq> ip")
    case True
    with ih show ?thesis by (auto simp: ts blocks_of_def)
  next
    case False
    then have sc: "ev_srcIP e \<noteq> []" "weight (ev_type e) \<noteq> 0" "ev_srcIP e = ip" "ev_time e \<noteq> 0"
      using w detector_write_other [of e 0 d1] snoc.prems(1) by auto
    have cd: "dt_cooldown d1 = dt_cooldown d"
      using r detector_run_params(2) [of d es] by simp
    have gap: "dt_cooldown d < ev_time e - st_lastBlock (src_of d1 ip)"
      using w False sc assms(1)
      by (auto simp: detector_write_scored Let_def cd split: if_splits intro: time_sub_gt)
    have "dt_cooldown d < ev_time e - ev_time a" if "a \<in> set (blocks_of ip us)" for a
    proof -
      have ne: "blocks_of ip us \<noteq> []" using that by auto
      then have lb: "st_lastBlock (src_of d1 ip) = ev_time (last (blocks_of ip us))"
        using lastBlock_run [OF _ r] snoc.prems(1) by (simp add: last_block_def)
      have "ev_time a \<le> ev_time (last (blocks_of ip us))"
      proof (cases "a = last (blocks_of ip us)")
        case False
        with that ne have "a \<in> set (butlast (blocks_of ip us))"
          by (metis append_butlast_last_id in_set_butlastD rotate1.simps(2) set_ConsD set_rotate1)
        moreover have "sorted_wrt (\<lambda>a b. dt_cooldown d < ev_time b - ev_time a)
            (butlast (blocks_of ip us) @ [last (blocks_of ip us)])"
          using ih ne by simp
        ultimately show ?thesis
          using assms(1) by (force simp: sorted_wrt_append)
      qed simp
      with gap lb show ?thesis by simp
    qed
    with ih sc(3) False show ?thesis
      by (auto simp: ts blocks_of_def sorted_wrt_append)
  qed
qed

section \<open>Examples\<close>

definition example_config :: defense_config where
  "example_config = \<lparr>dc_enabled = True, dc_enforce = False, dc_blockTTL = 0, dc_window = 0, dc_score = 6,
     dc_cooldown = 0, dc_whitelist = []\<rparr>"

definition example_attempt :: "time \<Rightarrow> event" where
  "example_attempt s = (blank_event AuthAttempt)\<lparr>ev_time := s * second, ev_srcIP := ''1.2.3.4''\<rparr>"

definition example_attempts :: "event list" where
  "example_attempts = map example_attempt [63900000000, 63900000001, 63900000030, 63900000500, 63900000501]"

lemma example_triggers:
  "map ev_time (snd (detector_run (newDetector example_config) example_attempts)) =
     [63900000001 * second, 63900000501 * second]"
  by code_simp

lemma detector_exact_witness:
  "snd (detector_write 0 (example_attempt 63900000001)
     (fst (detector_run (newDetector example_config) [example_attempt 63900000000]))) \<noteq> None"
proof -
  have "dc_score (withDefaults example_config) \<le>
      window_score (dc_window (withDefaults example_config)) (ev_time (example_attempt 63900000001))
        (ev_srcIP (example_attempt 63900000001)) [example_attempt 63900000000]
      + weight (ev_type (example_attempt 63900000001))"
    by code_simp
  moreover have "dc_cooldown (withDefaults example_config) <
      time_sub (ev_time (example_attempt 63900000001))
        (last_block (ev_srcIP (example_attempt 63900000001))
          (snd (detector_run (newDetector example_config) [example_attempt 63900000000])))"
    by code_simp
  moreover have "ev_srcIP (example_attempt 63900000001) \<noteq> []"
      "weight (ev_type (example_attempt 63900000001)) \<noteq> 0"
    by code_simp+
  moreover have "sorted (map ev_time ([example_attempt 63900000000] @ [example_attempt 63900000001]))"
      "\<forall>x \<in> set ([example_attempt 63900000000] @ [example_attempt 63900000001]). ev_time x \<noteq> 0"
    by (simp_all add: example_attempt_def)
  ultimately show ?thesis
    using detector_exact [of "[example_attempt 63900000000]" "example_attempt 63900000001" example_config]
    by (metis prod.collapse)
qed

lemma blocks_spaced_witness:
  "sorted_wrt (\<lambda>a b. 5 * minute < ev_time b - ev_time a)
     (blocks_of ''1.2.3.4'' (snd (detector_run (newDetector example_config) example_attempts)))"
proof -
  have "dt_cooldown (newDetector example_config) = 5 * minute"
    by (simp add: newDetector_def example_config_def withDefaults_def)
  moreover have "\<forall>e \<in> set example_attempts. ev_time e \<noteq> 0"
    by (simp add: example_attempts_def example_attempt_def)
  ultimately show ?thesis
    using blocks_spaced [of "newDetector example_config" example_attempts _ _ "''1.2.3.4''"]
    by (metis prod.collapse order.strict_implies_order zero_less_numeral mult_pos_pos)
qed

end
