(* ===== verification/App_Config.thy ===== *)
theory App_Config
  imports Service_Gating Deception_Config Control_Auth Detector
begin

text \<open>
  The application configuration: its records (\<open>internal/config/types.go\<close>), the loader and the
  profile manager (\<open>internal/config/loader.go\<close>).  The YAML library is a parameter: it maps a
  document to a \<open>raw_config\<close>, in which the three durations are still the text of their scalars,
  because the code unmarshals those itself (\<open>Duration.UnmarshalYAML\<close>).  Nothing in the code
  marshals a duration, so the library writes its integer value.
\<close>

section \<open>Records\<close>

record log_config =
  lc_level :: string
  lc_logDir :: string
  lc_jsonMode :: bool
  lc_toStdout :: bool

record firewall_config =
  fw_closedPortBehavior :: string
  fw_openPorts :: "u16 list"
  fw_preservePorts :: "u16 list"

record service_options =
  so_netbiosName :: string
  so_hostname :: string
  so_domain :: string
  so_serverGUID :: string
  so_macAddress :: string
  so_jitterMinMs :: int
  so_jitterMaxMs :: int

record smb_credential =
  sc_username :: string
  sc_password :: string
  sc_domain :: string

record smb_honeypot_config =
  sh_allowGuestEnum :: "bool option"
  sh_credentials :: "smb_credential list"
  sh_acceptCredentials :: "string list"
  sh_filesystem :: "tree_config option"

record ftp_honeypot_config =
  fh_allowAnonymous :: "bool option"
  fh_acceptCredentials :: "string list"
  fh_rootShare :: string
  fh_filesystem :: "tree_config option"

record leak_def =
  lk_cred :: string
  lk_via :: string
  lk_location :: string

record control_config =
  ct_enabled :: bool
  ct_socket :: string

record rbac_config =
  rb_roles :: "rbac_role list"
  rb_defaultDeny :: bool

record app_config =
  ac_profile :: string
  ac_interface :: string
  ac_services :: "string list"
  ac_closedPorts :: "u16 list"
  ac_firewall :: firewall_config
  ac_serviceOptions :: service_options
  ac_smbHoneypot :: smb_honeypot_config
  ac_ftpHoneypot :: ftp_honeypot_config
  ac_logging :: log_config
  ac_control :: control_config
  ac_rbac :: rbac_config
  ac_events :: events_config
  ac_defense :: defense_config
  ac_profilesDir :: string
  ac_servicesDir :: string
  ac_credentials :: "credential list"
  ac_credentialLeaks :: "leak_def list"
  ac_probeLogFile :: string
  ac_logLevel :: string

text \<open>The zero \<open>AppConfig\<close>.\<close>

definition zero_config :: app_config where
  "zero_config =
     \<lparr>ac_profile = [], ac_interface = [], ac_services = [], ac_closedPorts = [],
      ac_firewall = \<lparr>fw_closedPortBehavior = [], fw_openPorts = [], fw_preservePorts = []\<rparr>,
      ac_serviceOptions = \<lparr>so_netbiosName = [], so_hostname = [], so_domain = [], so_serverGUID = [],
        so_macAddress = [], so_jitterMinMs = 0, so_jitterMaxMs = 0\<rparr>,
      ac_smbHoneypot = \<lparr>sh_allowGuestEnum = None, sh_credentials = [], sh_acceptCredentials = [],
        sh_filesystem = None\<rparr>,
      ac_ftpHoneypot = \<lparr>fh_allowAnonymous = None, fh_acceptCredentials = [], fh_rootShare = [],
        fh_filesystem = None\<rparr>,
      ac_logging = \<lparr>lc_level = [], lc_logDir = [], lc_jsonMode = False, lc_toStdout = False\<rparr>,
      ac_control = \<lparr>ct_enabled = False, ct_socket = []\<rparr>,
      ac_rbac = \<lparr>rb_roles = [], rb_defaultDeny = False\<rparr>,
      ac_events = \<lparr>ec_enabled = False, ec_jsonFile = False,
        ec_syslog = \<lparr>sc_enabled = False, sc_network = [], sc_address = []\<rparr>\<rparr>,
      ac_defense = \<lparr>dc_enabled = False, dc_enforce = False, dc_blockTTL = 0, dc_window = 0, dc_score = 0,
        dc_cooldown = 0, dc_whitelist = []\<rparr>,
      ac_profilesDir = [], ac_servicesDir = [], ac_credentials = [], ac_credentialLeaks = [],
      ac_probeLogFile = [], ac_logLevel = []\<rparr>"

section \<open>Reading and writing\<close>

text \<open>A document as the YAML library sees it: a key that is absent leaves the zero value.\<close>

record raw_config =
  raw_app :: app_config
  raw_blockTTL :: "string option"
  raw_window :: "string option"
  raw_cooldown :: "string option"

definition raw_duration :: "string option \<Rightarrow> duration option" where
  "raw_duration s = (case s of None \<Rightarrow> Some 0 | Some t \<Rightarrow> parseDuration t)"

text \<open>\<open>yaml.Unmarshal\<close> of a whole configuration: fails if a duration does.\<close>

definition from_raw :: "raw_config \<Rightarrow> app_config option" where
  "from_raw r =
     (case (raw_duration (raw_blockTTL r), raw_duration (raw_window r), raw_duration (raw_cooldown r)) of
        (Some ttl, Some win, Some cd) \<Rightarrow>
          Some ((raw_app r)\<lparr>ac_defense := (ac_defense (raw_app r))\<lparr>dc_blockTTL := ttl, dc_window := win, dc_cooldown := cd\<rparr>\<rparr>)
      | _ \<Rightarrow> None)"

text \<open>\<open>yaml.Marshal\<close>: every field is written, a duration as its integer.\<close>

definition to_raw :: "app_config \<Rightarrow> raw_config" where
  "to_raw c =
     \<lparr>raw_app = c\<lparr>ac_defense := (ac_defense c)\<lparr>dc_blockTTL := 0, dc_window := 0, dc_cooldown := 0\<rparr>\<rparr>,
      raw_blockTTL = Some (int_string (dc_blockTTL (ac_defense c))),
      raw_window = Some (int_string (dc_window (ac_defense c))),
      raw_cooldown = Some (int_string (dc_cooldown (ac_defense c)))\<rparr>"

datatype file_read = NotExist | Unreadable | Content string

datatype load_error = ReadingConfig | ParsingConfig

definition default_config :: app_config where
  "default_config = zero_config
     \<lparr>ac_profilesDir := ''./profiles'', ac_servicesDir := ''./services'',
      ac_logging := \<lparr>lc_level = ''info'', lc_logDir = ''/var/log/mimic'', lc_jsonMode = True, lc_toStdout = True\<rparr>\<rparr>"

definition logging_defaults :: "string \<Rightarrow> log_config \<Rightarrow> log_config" where
  "logging_defaults legacy l =
     (let missing = (lc_level l = [] \<and> lc_logDir l = []);
          l1 = (if lc_level l = [] then l\<lparr>lc_level := (if legacy \<noteq> [] then legacy else ''info'')\<rparr> else l);
          l2 = (if lc_logDir l1 = [] then l1\<lparr>lc_logDir := ''/var/log/mimic''\<rparr> else l1)
      in if missing then l2\<lparr>lc_jsonMode := True, lc_toStdout := True\<rparr> else l2)"

definition fill_defaults :: "app_config \<Rightarrow> app_config" where
  "fill_defaults c =
     c\<lparr>ac_profilesDir := (if ac_profilesDir c = [] then ''./profiles'' else ac_profilesDir c),
       ac_servicesDir := (if ac_servicesDir c = [] then ''./services'' else ac_servicesDir c),
       ac_logging := logging_defaults (ac_logLevel c) (ac_logging c)\<rparr>"

definition loadAppConfig ::
  "(string \<Rightarrow> raw_config option) \<Rightarrow> file_read \<Rightarrow> load_error + app_config" where
  "loadAppConfig unmarshal f =
     (case f of
        NotExist \<Rightarrow> Inr default_config
      | Unreadable \<Rightarrow> Inl ReadingConfig
      | Content s \<Rightarrow>
          (case unmarshal s of
             None \<Rightarrow> Inl ParsingConfig
           | Some r \<Rightarrow> (case from_raw r of None \<Rightarrow> Inl ParsingConfig | Some c \<Rightarrow> Inr (fill_defaults c))))"

section \<open>Profiles\<close>

text \<open>What \<open>os.Stat\<close> and \<open>os.ReadDir\<close> say of a family's directory, and what reading and parsing a
  profile file gives; the manager's map is an association list.\<close>

datatype dir_listing = Absent | ListFails | Entries "(string \<times> bool) list"

type_synonym profile_map = "(string \<times> os_profile) list"

definition families :: "string list" where
  "families = [''windows'', ''linux'', ''macos'']"

fun load_entries ::
  "(string \<Rightarrow> os_profile option) \<Rightarrow> string \<Rightarrow> (string \<times> bool) list \<Rightarrow> profile_map \<Rightarrow> string + profile_map" where
  "load_entries load dir [] m = Inr m"
| "load_entries load dir ((name, is_dir) # es) m =
     (if is_dir \<or> \<not> has_suffix name ''.yaml'' then load_entries load dir es m
      else case load (path_join [dir, name]) of
        None \<Rightarrow> Inl (path_join [dir, name])
      | Some p \<Rightarrow> load_entries load dir es (AList.update (to_lower (prof_name p)) p m))"

fun load_families ::
  "(string \<Rightarrow> dir_listing) \<Rightarrow> (string \<Rightarrow> os_profile option) \<Rightarrow> string \<Rightarrow> string list \<Rightarrow> profile_map \<Rightarrow> string + profile_map" where
  "load_families list_dir load dir [] m = Inr m"
| "load_families list_dir load dir (f # fs) m =
     (case list_dir (path_join [dir, f]) of
        Absent \<Rightarrow> load_families list_dir load dir fs m
      | ListFails \<Rightarrow> Inl f
      | Entries es \<Rightarrow>
          (case load_entries load (path_join [dir, f]) es m of
             Inl e \<Rightarrow> Inl e
           | Inr m' \<Rightarrow> load_families list_dir load dir fs m'))"

definition loadAllProfiles ::
  "(string \<Rightarrow> dir_listing) \<Rightarrow> (string \<Rightarrow> os_profile option) \<Rightarrow> string \<Rightarrow> string + profile_map" where
  "loadAllProfiles list_dir load dir = load_families list_dir load dir families []"

definition getProfile :: "profile_map \<Rightarrow> string \<Rightarrow> os_profile option" where
  "getProfile m name = map_of m (to_lower name)"

definition listProfileNames :: "profile_map \<Rightarrow> string list" where
  "listProfileNames m = sort_strings (map (prof_name \<circ> snd) m)"

section \<open>Lemmas\<close>

lemma logging_defaults_set [simp]:
  "lc_level (logging_defaults g l) \<noteq> []" "lc_logDir (logging_defaults g l) \<noteq> []"
  by (simp_all add: logging_defaults_def Let_def)

lemma logging_defaults_complete:
  "lc_level l \<noteq> [] \<Longrightarrow> lc_logDir l \<noteq> [] \<Longrightarrow> logging_defaults g l = l"
  by (simp add: logging_defaults_def Let_def)

lemma logging_defaults_idem [simp]: "logging_defaults g (logging_defaults g' l) = logging_defaults g' l"
  by (simp add: logging_defaults_complete)

lemma fill_defaults_idem [simp]: "fill_defaults (fill_defaults c) = fill_defaults c"
  by (simp add: fill_defaults_def)

text \<open>The mode flags of a logging section that gives neither a level nor a directory are
  overridden.\<close>

lemma logging_flags_overridden:
  "lc_level l = [] \<Longrightarrow> lc_logDir l = [] \<Longrightarrow>
   lc_jsonMode (logging_defaults g l) \<and> lc_toStdout (logging_defaults g l)"
  by (simp add: logging_defaults_def Let_def)

text \<open>Writing a configuration and reading it back.\<close>

lemma from_to_raw:
  "from_raw (to_raw c) =
     (if dc_blockTTL (ac_defense c) = 0 \<and> dc_window (ac_defense c) = 0 \<and> dc_cooldown (ac_defense c) = 0
      then Some c else None)"
  by (auto simp: from_raw_def to_raw_def raw_duration_def parse_int_string)

definition profiles_wf :: "profile_map \<Rightarrow> bool" where
  "profiles_wf m \<longleftrightarrow> distinct (map fst m) \<and> (\<forall>(k, p) \<in> set m. k = to_lower (prof_name p))"

lemma set_alist_update: "set (AList.update k v m) \<subseteq> insert (k, v) (set m)"
  by (induction m) auto

lemma profiles_wf_update:
  "profiles_wf m \<Longrightarrow> profiles_wf (AList.update (to_lower (prof_name p)) p m)"
  using set_alist_update [of "to_lower (prof_name p)" p m]
  by (auto simp: profiles_wf_def distinct_update)

lemma load_entries_wf: "load_entries load dir es m = Inr m' \<Longrightarrow> profiles_wf m \<Longrightarrow> profiles_wf m'"
  by (induction load dir es m rule: load_entries.induct)
    (auto intro: profiles_wf_update split: if_splits option.splits)

lemma load_families_wf: "load_families ls load dir fs m = Inr m' \<Longrightarrow> profiles_wf m \<Longrightarrow> profiles_wf m'"
  by (induction ls load dir fs m rule: load_families.induct)
    (auto intro: load_entries_wf split: dir_listing.splits sum.splits)

lemma loadAllProfiles_wf: "loadAllProfiles ls load dir = Inr m \<Longrightarrow> profiles_wf m"
  unfolding loadAllProfiles_def by (erule load_families_wf) (simp add: profiles_wf_def)

text \<open>A profile is found under its name in any case, and only under its name.\<close>

lemma getProfile_name:
  "profiles_wf m \<Longrightarrow> getProfile m name = Some p \<Longrightarrow> equal_fold (prof_name p) name"
  by (auto simp: profiles_wf_def getProfile_def equal_fold_def dest: map_of_SomeD)

end
