(* ===== verification/Control_Config.thy ===== *)
theory Control_Config
  imports App_Config
begin

text \<open>
  Editing the configuration through the control plane: patches and snapshots
  (\<open>internal/control/hooks.go\<close>), validation and persistence (\<open>configctl.go\<close>), the log tail
  (\<open>logtail.go\<close>), the catalogs (\<open>services.go\<close>, \<open>profiles.go\<close>) and the callbacks a running
  instance wires up (\<open>cmd/mimic/control_hooks.go\<close>).
\<close>

section \<open>Snapshots and patches\<close>

record defense_snapshot =
  ds_enabled :: bool
  ds_enforce :: bool
  ds_whitelist :: "string list"

record config_snapshot =
  sn_path :: string
  sn_profile :: string
  sn_interface :: string
  sn_services :: "string list"
  sn_closedPorts :: "u16 list"
  sn_serviceOptions :: service_options
  sn_logging :: log_config
  sn_firewall :: firewall_config
  sn_defense :: defense_snapshot

record logging_patch =
  lp_level :: "string option"
  lp_logDir :: "string option"
  lp_jsonMode :: "bool option"
  lp_toStdout :: "bool option"

record defense_patch =
  dp_enabled :: "bool option"
  dp_enforce :: "bool option"
  dp_whitelist :: "string list option"

record config_patch =
  cp_profile :: "string option"
  cp_interface :: "string option"
  cp_services :: "string list option"
  cp_closedPorts :: "u16 list option"
  cp_serviceOptions :: "service_options option"
  cp_logging :: "logging_patch option"
  cp_firewall :: "firewall_config option"
  cp_defense :: "defense_patch option"

definition empty_patch :: config_patch where
  "empty_patch = \<lparr>cp_profile = None, cp_interface = None, cp_services = None, cp_closedPorts = None,
     cp_serviceOptions = None, cp_logging = None, cp_firewall = None, cp_defense = None\<rparr>"

definition snapshotFrom :: "app_config \<Rightarrow> string \<Rightarrow> config_snapshot" where
  "snapshotFrom c path =
     \<lparr>sn_path = path, sn_profile = ac_profile c, sn_interface = ac_interface c,
      sn_services = ac_services c, sn_closedPorts = ac_closedPorts c,
      sn_serviceOptions = ac_serviceOptions c, sn_logging = ac_logging c, sn_firewall = ac_firewall c,
      sn_defense = \<lparr>ds_enabled = dc_enabled (ac_defense c), ds_enforce = dc_enforce (ac_defense c),
                   ds_whitelist = dc_whitelist (ac_defense c)\<rparr>\<rparr>"

definition isEmpty :: "config_patch \<Rightarrow> bool" where
  "isEmpty p \<longleftrightarrow> cp_profile p = None \<and> cp_interface p = None \<and> cp_services p = None \<and>
     cp_closedPorts p = None \<and> cp_serviceOptions p = None \<and> cp_logging p = None \<and>
     cp_firewall p = None \<and> cp_defense p = None"

text \<open>\<open>put v x\<close> is the assignment guarded by \<open>v != nil\<close>.\<close>

definition put :: "'a option \<Rightarrow> 'a \<Rightarrow> 'a" where
  "put v x = (case v of None \<Rightarrow> x | Some y \<Rightarrow> y)"

definition applyLoggingPatch :: "logging_patch \<Rightarrow> log_config \<Rightarrow> log_config" where
  "applyLoggingPatch p l =
     \<lparr>lc_level = put (lp_level p) (lc_level l), lc_logDir = put (lp_logDir p) (lc_logDir l),
      lc_jsonMode = put (lp_jsonMode p) (lc_jsonMode l), lc_toStdout = put (lp_toStdout p) (lc_toStdout l)\<rparr>"

definition applyDefensePatch :: "defense_patch \<Rightarrow> defense_config \<Rightarrow> defense_config" where
  "applyDefensePatch p d =
     d\<lparr>dc_enabled := put (dp_enabled p) (dc_enabled d), dc_enforce := put (dp_enforce p) (dc_enforce d),
       dc_whitelist := put (dp_whitelist p) (dc_whitelist d)\<rparr>"

datatype config_err =
    EmptyPatch | NoConfigPath | InvalidProfile string | NoProfileOrServices
  | LoadingProfiles string | InvalidLevel string | InvalidBehavior string | InvalidServices
  | Load load_error | MkdirFails | BackupReadFails | BackupWriteFails | SaveFails

text \<open>\<open>ApplyPatch\<close> looks only at whether the patch is empty; values are not checked here.\<close>

definition applyPatch :: "config_patch \<Rightarrow> app_config \<Rightarrow> config_err + app_config" where
  "applyPatch p c =
     (if isEmpty p then Inl EmptyPatch
      else Inr (c\<lparr>ac_profile := put (cp_profile p) (ac_profile c),
                  ac_interface := put (cp_interface p) (ac_interface c),
                  ac_services := put (cp_services p) (ac_services c),
                  ac_closedPorts := put (cp_closedPorts p) (ac_closedPorts c),
                  ac_serviceOptions := put (cp_serviceOptions p) (ac_serviceOptions c),
                  ac_logging := (case cp_logging p of None \<Rightarrow> ac_logging c
                                 | Some lp \<Rightarrow> applyLoggingPatch lp (ac_logging c)),
                  ac_firewall := put (cp_firewall p) (ac_firewall c),
                  ac_defense := (case cp_defense p of None \<Rightarrow> ac_defense c
                                 | Some dp \<Rightarrow> applyDefensePatch dp (ac_defense c))\<rparr>))"

section \<open>Validation\<close>

text \<open>The directories the validation consults: the loaded profiles (or the error of loading them)
  and the services directory.\<close>

definition validateEditableConfig ::
  "app_config \<Rightarrow> string + profile_map \<Rightarrow> services_dir \<Rightarrow> config_err option" where
  "validateEditableConfig c profiles sdir =
     (if ac_profile c = [] \<and> ac_services c = [] then Some NoProfileOrServices
      else
        let profile_check =
              (if ac_profile c = [] then None
               else case profiles of
                 Inl e \<Rightarrow> Some (LoadingProfiles e)
               | Inr m \<Rightarrow> if getProfile m (ac_profile c) = None then Some (InvalidProfile (ac_profile c)) else None)
        in case profile_check of Some e \<Rightarrow> Some e | None \<Rightarrow>
          if lc_level (ac_logging c) \<noteq> [] \<and>
             to_lower (lc_level (ac_logging c)) \<notin> {''debug'', ''info'', ''warn'', ''error''}
          then Some (InvalidLevel (lc_level (ac_logging c)))
          else if to_lower (fw_closedPortBehavior (ac_firewall c)) \<notin> {[], ''reset'', ''drop'', ''filtered''}
          then Some (InvalidBehavior (fw_closedPortBehavior (ac_firewall c)))
          else if ac_services c \<noteq> [] then
            (let profile = (if ac_profile c = [] then None
                            else case profiles of Inl _ \<Rightarrow> None | Inr m \<Rightarrow> getProfile m (ac_profile c))
             in case resolveRunServices (ac_services c) sdir profile of
                  Inl _ \<Rightarrow> Some InvalidServices | Inr _ \<Rightarrow> None)
          else None)"

definition validateLoggingLevel :: "string \<Rightarrow> bool" where
  "validateLoggingLevel level \<longleftrightarrow> to_lower level \<in> {''debug'', ''info'', ''warn'', ''error'', []}"

section \<open>Persistence\<close>

text \<open>The part of the file system the callbacks touch, with what each operation would answer.
  \<open>os.WriteFile\<close> truncates before it writes: it either succeeds, fails to open and changes nothing,
  or leaves only the first bytes.\<close>

datatype write_outcome = Writes | NoOpen | Stops nat

record file_system =
  fs_files :: "string \<rightharpoonup> string"
  fs_noread :: "string \<Rightarrow> bool"
  fs_write :: "string \<Rightarrow> write_outcome"
  fs_nomkdir :: "string \<Rightarrow> bool"

definition read_file :: "file_system \<Rightarrow> string \<Rightarrow> file_read" where
  "read_file fs path =
     (case fs_files fs path of None \<Rightarrow> NotExist | Some s \<Rightarrow> if fs_noread fs path then Unreadable else Content s)"

definition write_file :: "string \<Rightarrow> string \<Rightarrow> file_system \<Rightarrow> file_system \<times> bool" where
  "write_file path s fs =
     (case fs_write fs path of
        NoOpen \<Rightarrow> (fs, False)
      | Writes \<Rightarrow> (fs\<lparr>fs_files := (fs_files fs)(path \<mapsto> s)\<rparr>, True)
      | Stops n \<Rightarrow> (fs\<lparr>fs_files := (fs_files fs)(path \<mapsto> take n s)\<rparr>, False))"

definition saveAppConfig ::
  "(raw_config \<Rightarrow> string) \<Rightarrow> string \<Rightarrow> app_config \<Rightarrow> file_system \<Rightarrow> file_system \<times> bool" where
  "saveAppConfig marshal path c fs = write_file path (marshal (to_raw c)) fs"

definition backup_path :: "string \<Rightarrow> string" where
  "backup_path path = path @ ''.bak''"

text \<open>The backup step of \<open>PersistConfig\<close>, then the whole: the resulting file system with the error or
  the backup's path (empty when there was nothing to back up).\<close>

definition backup_config :: "string \<Rightarrow> file_system \<Rightarrow> file_system \<times> (config_err + string)" where
  "backup_config path fs =
     (case read_file fs path of
        NotExist \<Rightarrow> (fs, Inr [])
      | Unreadable \<Rightarrow> (fs, Inl BackupReadFails)
      | Content s \<Rightarrow>
          (case write_file (backup_path path) s fs of
             (fs1, ok) \<Rightarrow> (fs1, if ok then Inr (backup_path path) else Inl BackupWriteFails)))"

definition persistConfig ::
  "(raw_config \<Rightarrow> string) \<Rightarrow> string \<Rightarrow> app_config \<Rightarrow> file_system \<Rightarrow> file_system \<times> (config_err + string)" where
  "persistConfig marshal path c fs =
     (if path = [] then (fs, Inl NoConfigPath)
      else if fs_nomkdir fs (path_dir path) then (fs, Inl MkdirFails)
      else
        case backup_config path fs of
          (fs1, Inl e) \<Rightarrow> (fs1, Inl e)
        | (fs1, Inr backup) \<Rightarrow>
            (case saveAppConfig marshal path c fs1 of
               (fs2, ok) \<Rightarrow> (fs2, if ok then Inr backup else Inl SaveFails)))"

section \<open>The callbacks\<close>

record config_set_result =
  cr_path :: string
  cr_restartRequired :: bool
  cr_backup :: string
  cr_message :: string

text \<open>What the instance has at hand: the YAML library, its directories and its configuration file.\<close>

record instance_env =
  ie_marshal :: "raw_config \<Rightarrow> string"
  ie_unmarshal :: "string \<Rightarrow> raw_config option"
  ie_profiles :: "string + profile_map"
  ie_services :: services_dir
  ie_cfgPath :: string

definition hook_getConfig :: "instance_env \<Rightarrow> file_system \<Rightarrow> config_err + config_snapshot" where
  "hook_getConfig env fs =
     (if ie_cfgPath env = [] then Inl NoConfigPath
      else case loadAppConfig (ie_unmarshal env) (read_file fs (ie_cfgPath env)) of
        Inl e \<Rightarrow> Inl (Load e)
      | Inr c \<Rightarrow> Inr (snapshotFrom c (ie_cfgPath env)))"

text \<open>The configuration a patch would leave, or why it is refused.\<close>

definition patched_config :: "instance_env \<Rightarrow> config_patch \<Rightarrow> file_system \<Rightarrow> config_err + app_config" where
  "patched_config env p fs =
     (if ie_cfgPath env = [] then Inl NoConfigPath
      else case loadAppConfig (ie_unmarshal env) (read_file fs (ie_cfgPath env)) of
        Inl e \<Rightarrow> Inl (Load e)
      | Inr c \<Rightarrow>
          (case applyPatch p c of
             Inl e \<Rightarrow> Inl e
           | Inr c' \<Rightarrow>
               (case validateEditableConfig c' (ie_profiles env) (ie_services env) of
                  Some e \<Rightarrow> Inl e
                | None \<Rightarrow> Inr c')))"

definition hook_setConfig ::
  "instance_env \<Rightarrow> config_patch \<Rightarrow> bool \<Rightarrow> file_system \<Rightarrow> file_system \<times> (config_err + config_set_result)" where
  "hook_setConfig env p dryRun fs =
     (case patched_config env p fs of
        Inl e \<Rightarrow> (fs, Inl e)
      | Inr c \<Rightarrow>
          let result = \<lparr>cr_path = ie_cfgPath env, cr_restartRequired = True, cr_backup = [], cr_message = []\<rparr>
          in if dryRun then (fs, Inr (result\<lparr>cr_message := ''validation ok''\<rparr>))
             else (case persistConfig (ie_marshal env) (ie_cfgPath env) c fs of
                     (fs', Inl e) \<Rightarrow> (fs', Inl e)
                   | (fs', Inr backup) \<Rightarrow>
                       (fs', Inr (result\<lparr>cr_backup := backup,
                                         cr_message := ''saved; restart required to apply''\<rparr>))))"

section \<open>Log files\<close>

definition normalizeLogName :: "string \<Rightarrow> string option" where
  "normalizeLogName name =
     (let n = to_lower (trim_space name) in
      if n = ''events'' \<or> n = ''events.log'' then Some ''events.log''
      else if n = ''mimic'' \<or> n = ''mimic.log'' then Some ''mimic.log''
      else if n = ''probes'' \<or> n = ''probes.log'' then Some ''probes.log''
      else None)"

definition defaultFallbackDir :: string where "defaultFallbackDir = ''./log/mimic''"

definition resolveLogPath :: "string \<Rightarrow> string \<Rightarrow> (string \<times> string) option" where
  "resolveLogPath logDir name =
     (case normalizeLogName name of
        None \<Rightarrow> None
      | Some f \<Rightarrow> Some (f, path_join [if logDir = [] then defaultFallbackDir else logDir, f]))"

text \<open>\<open>bufio.Scanner\<close> over lines: the pieces between newlines, the last one only if it is not empty,
  each without a trailing carriage return.  A piece that does not fit the 1 MiB buffer is an
  error.\<close>

definition max_line :: nat where "max_line = 1048576"

definition drop_cr :: "string \<Rightarrow> string" where
  "drop_cr s = (if s \<noteq> [] \<and> last s = CHR 0x0D then butlast s else s)"

definition scan_pieces :: "string \<Rightarrow> string list" where
  "scan_pieces s =
     (let ps = split_on (CHR 0x0A) s in if last ps = [] then butlast ps else ps)"

definition scan_lines :: "string \<Rightarrow> string list option" where
  "scan_lines s =
     (if \<exists>p \<in> set (scan_pieces s). max_line \<le> length p then None else Some (map drop_cr (scan_pieces s)))"

record log_tail =
  lt_file :: string
  lt_path :: string
  lt_lines :: "string list"
  lt_total :: nat
  lt_offset :: int

datatype tail_error = OpenLog | ReadLog | UnknownLog string

text \<open>The loop keeps at most \<open>n\<close> lines, dropping the oldest.\<close>

fun keep_last :: "nat \<Rightarrow> string list \<Rightarrow> string list \<Rightarrow> string list" where
  "keep_last n acc [] = acc"
| "keep_last n acc (l # ls) =
     keep_last n (if n < length (acc @ [l]) then tl (acc @ [l]) else acc @ [l]) ls"

definition clamp_lines :: "int \<Rightarrow> nat" where
  "clamp_lines n = (let n1 = (if n \<le> 0 then 50 else n) in nat (if 5000 < n1 then 5000 else n1))"

definition tailFile :: "string \<Rightarrow> int \<Rightarrow> file_read \<Rightarrow> tail_error + log_tail" where
  "tailFile path n f =
     (case f of
        NotExist \<Rightarrow> Inr \<lparr>lt_file = [], lt_path = path, lt_lines = [], lt_total = 0, lt_offset = 0\<rparr>
      | Unreadable \<Rightarrow> Inl OpenLog
      | Content s \<Rightarrow>
          (case scan_lines s of
             None \<Rightarrow> Inl ReadLog
           | Some ls \<Rightarrow>
               let kept = keep_last (clamp_lines n) [] ls in
               Inr \<lparr>lt_file = [], lt_path = path, lt_lines = kept, lt_total = length kept, lt_offset = 0\<rparr>))"

definition hook_tailLogFile :: "string \<Rightarrow> string \<Rightarrow> int \<Rightarrow> file_system \<Rightarrow> tail_error + log_tail" where
  "hook_tailLogFile logDir name n fs =
     (case resolveLogPath logDir name of
        None \<Rightarrow> Inl (UnknownLog name)
      | Some (f, path) \<Rightarrow>
          (case tailFile path n (read_file fs path) of
             Inl e \<Rightarrow> Inl e
           | Inr t \<Rightarrow> Inr (t\<lparr>lt_file := f\<rparr>)))"

text \<open>\<open>ListServices\<close>: the template services of the directory, sorted.\<close>

definition listServices :: "services_dir \<Rightarrow> config_error + string list" where
  "listServices dir = listTemplateServices dir"

section \<open>Lemmas\<close>

lemma keep_last_suffix:
  "0 < n \<Longrightarrow> length acc \<le> n \<Longrightarrow> keep_last n acc ls = drop (length acc + length ls - n) (acc @ ls)"
proof (induction ls arbitrary: acc)
  case (Cons l ls)
  show ?case
  proof (cases "n < length (acc @ [l])")
    case True
    then have len: "length acc = n" using Cons.prems by simp
    with Cons.prems obtain a as where acc: "acc = a # as" by (cases acc) auto
    have "keep_last n (as @ [l]) ls = drop (length (as @ [l]) + length ls - n) ((as @ [l]) @ ls)"
      by (rule Cons.IH) (use Cons.prems len acc in auto)
    with True len acc show ?thesis by auto
  next
    case False
    have "keep_last n (acc @ [l]) ls = drop (length (acc @ [l]) + length ls - n) ((acc @ [l]) @ ls)"
      by (rule Cons.IH) (use Cons.prems False in auto)
    with False show ?thesis by simp
  qed
qed simp

lemma clamp_lines_bounds: "0 < clamp_lines n" "clamp_lines n \<le> 5000"
  by (auto simp: clamp_lines_def Let_def nat_le_iff)

section \<open>Properties\<close>

text \<open>The log tail is the tail of the file: of a file whose lines fit the buffer it returns the
  last lines in order, as many as asked for within 1 to 5000, and never another file than one of
  the three logs in the log directory.\<close>

theorem tail_is_tail:
  assumes "hook_tailLogFile logDir name n fs = Inr t"
  shows "lt_file t \<in> {''events.log'', ''mimic.log'', ''probes.log''} \<and>
    lt_path t = path_join [if logDir = [] then defaultFallbackDir else logDir, lt_file t] \<and>
    lt_lines t = (case read_file fs (lt_path t) of
        Content s \<Rightarrow> (let ls = map drop_cr (scan_pieces s) in drop (length ls - clamp_lines n) ls)
      | _ \<Rightarrow> []) \<and>
    lt_total t = length (lt_lines t) \<and> lt_offset t = 0"
proof -
  obtain f where f: "normalizeLogName name = Some f" "f \<in> {''events.log'', ''mimic.log'', ''probes.log''}"
    using assms by (auto simp: hook_tailLogFile_def resolveLogPath_def normalizeLogName_def Let_def
        split: option.splits if_splits)
  define path where "path = path_join [if logDir = [] then defaultFallbackDir else logDir, f]"
  obtain t0 where t0: "tailFile path n (read_file fs path) = Inr t0" "t = t0\<lparr>lt_file := f\<rparr>"
    using assms by (auto simp: hook_tailLogFile_def resolveLogPath_def f path_def split: sum.splits)
  have p: "lt_path t0 = path" "lt_total t0 = length (lt_lines t0)" "lt_offset t0 = 0"
    using t0(1) by (auto simp: tailFile_def Let_def split: file_read.splits option.splits)
  have "lt_lines t0 = (case read_file fs path of
      Content s \<Rightarrow> (let ls = map drop_cr (scan_pieces s) in drop (length ls - clamp_lines n) ls) | _ \<Rightarrow> [])"
    using t0(1) clamp_lines_bounds
    by (auto simp: tailFile_def scan_lines_def Let_def keep_last_suffix split: file_read.splits option.splits if_splits)
  with f(2) p show ?thesis
    by (simp add: t0(2)) (simp add: path_def)
qed

lemma write_file_files:
  assumes "write_file path s fs = (fs', ok)"
  obtains x where "fs_files fs' = (fs_files fs)(path := x)" "ok \<Longrightarrow> x = Some s"
proof (cases "fs_write fs path")
  case NoOpen
  then have "fs' = fs" "\<not> ok" using assms by (auto simp: write_file_def)
  with that [of "fs_files fs path"] show ?thesis by simp
next
  case Writes
  then have "fs_files fs' = (fs_files fs)(path \<mapsto> s)" using assms by (auto simp: write_file_def)
  with that [of "Some s"] show ?thesis by simp
next
  case (Stops n)
  then have "fs_files fs' = (fs_files fs)(path \<mapsto> take n s)" "\<not> ok" using assms by (auto simp: write_file_def)
  with that [of "Some (take n s)"] show ?thesis by simp
qed

text \<open>The backup step writes the backup only; when it succeeds, the backup is the old text.\<close>

lemma backup_config_cases:
  assumes "backup_config path fs = (fs1, r)"
  obtains x where "fs_files fs1 = (fs_files fs)(backup_path path := x)"
    "r = Inr b \<Longrightarrow> fs_files fs path \<noteq> None \<Longrightarrow> x = fs_files fs path"
    "r = Inr b \<Longrightarrow> fs_files fs path = None \<Longrightarrow> fs_files fs1 = fs_files fs"
proof (cases "read_file fs path")
  case (Content s)
  then have old: "fs_files fs path = Some s"
    by (auto simp: read_file_def split: option.splits if_splits)
  obtain fs2 ok where w: "write_file (backup_path path) s fs = (fs2, ok)" by fastforce
  then obtain x where x: "fs_files fs2 = (fs_files fs)(backup_path path := x)" "ok \<Longrightarrow> x = Some s"
    by (rule write_file_files) blast
  have "fs1 = fs2" "r = (if ok then Inr (backup_path path) else Inl BackupWriteFails)"
    using assms Content w by (auto simp: backup_config_def)
  with x old that [of x] show ?thesis by (auto split: if_splits)
next
  case NotExist
  then have "fs_files fs path = None"
    by (auto simp: read_file_def split: option.splits if_splits)
  moreover have "fs1 = fs" using assms NotExist by (simp add: backup_config_def)
  ultimately show ?thesis using that [of "fs_files fs (backup_path path)"] by simp
next
  case Unreadable
  then have "fs1 = fs" "r = Inl BackupReadFails" using assms by (auto simp: backup_config_def)
  then show ?thesis using that [of "fs_files fs (backup_path path)"] by simp
qed

lemma persistConfig_cases:
  assumes "persistConfig marshal path c fs = (fs', r)" "path \<noteq> backup_path path"
  obtains (saved) b where "r = Inr b"
      "fs_files fs' = (case fs_files fs path of
          None \<Rightarrow> (fs_files fs)(path \<mapsto> marshal (to_raw c))
        | Some old \<Rightarrow> (fs_files fs)(backup_path path \<mapsto> old, path \<mapsto> marshal (to_raw c)))"
  | (failed) e x y where "r = Inl e" "fs_files fs' = (fs_files fs)(backup_path path := x, path := y)"
      "fs_files fs path \<in> {x, y, None}"
proof -
  consider "fs' = fs" "\<exists>e. r = Inl e"
    | fs1 q where "backup_config path fs = (fs1, q)"
      "case q of Inl e \<Rightarrow> fs' = fs1 \<and> r = Inl e
       | Inr b \<Rightarrow> (case write_file path (marshal (to_raw c)) fs1 of
                    (fs2, ok) \<Rightarrow> fs' = fs2 \<and> r = (if ok then Inr b else Inl SaveFails))"
    using assms(1)
    by (auto simp: persistConfig_def saveAppConfig_def split: if_splits prod.splits sum.splits)
  then show ?thesis
  proof cases
    case 1
    have "fs_files fs = (fs_files fs)(backup_path path := fs_files fs (backup_path path), path := fs_files fs path)"
      by simp
    with 1 failed show ?thesis by (metis insertCI)
  next
    case (2 fs1 q)
    show ?thesis
    proof (cases q)
      case (Inl e)
      from backup_config_cases [OF 2(1)] obtain x where "fs_files fs1 = (fs_files fs)(backup_path path := x)" .
      then have "fs_files fs1 = (fs_files fs)(backup_path path := x, path := fs_files fs path)"
        using assms(2) by auto
      with 2(2) Inl failed show ?thesis by auto
    next
      case (Inr b)
      from backup_config_cases [OF 2(1), of b] obtain x where x: "fs_files fs1 = (fs_files fs)(backup_path path := x)"
        "fs_files fs path \<noteq> None \<Longrightarrow> x = fs_files fs path"
        "fs_files fs path = None \<Longrightarrow> fs_files fs1 = fs_files fs"
        using Inr by metis
      obtain fs2 ok where w: "write_file path (marshal (to_raw c)) fs1 = (fs2, ok)" by fastforce
      then obtain y where y: "fs_files fs2 = (fs_files fs1)(path := y)" "ok \<Longrightarrow> y = Some (marshal (to_raw c))"
        by (rule write_file_files) blast
      have res: "fs' = fs2" "r = (if ok then Inr b else Inl SaveFails)"
        using 2(2) Inr w by auto
      show ?thesis
      proof (cases ok)
        case True
        with res x y show ?thesis by (intro saved) (auto split: option.splits)
      next
        case False
        have "fs_files fs path \<in> {x, y, None}"
          using x(2) by auto
        with False res x(1) y(1) show ?thesis
          by (intro failed [of SaveFails x y]) auto
      qed
    qed
  qed
qed

text \<open>C37. \<open>config.set\<close> touches only what it says and never loses the configuration: a dry run changes
  no file; a success replaces the configuration by the patched one and leaves the previous text, if
  there was one, in the backup; after an error the previous text is still in the configuration file
  or in the backup, and no other file has changed.\<close>

theorem set_config_effects:
  assumes "hook_setConfig env p dryRun fs = (fs', r)"
  shows "case r of
      Inr res \<Rightarrow>
        (\<exists>c. patched_config env p fs = Inr c \<and>
          (if dryRun then fs' = fs
           else fs_files fs' = (case fs_files fs (ie_cfgPath env) of
                  None \<Rightarrow> (fs_files fs)(ie_cfgPath env \<mapsto> ie_marshal env (to_raw c))
                | Some old \<Rightarrow> (fs_files fs)(backup_path (ie_cfgPath env) \<mapsto> old,
                                           ie_cfgPath env \<mapsto> ie_marshal env (to_raw c)))))
    | Inl e \<Rightarrow>
        (dryRun \<and> fs' = fs \<or>
         \<not> dryRun \<and> (\<exists>x y. fs_files fs' = (fs_files fs)(backup_path (ie_cfgPath env) := x, ie_cfgPath env := y) \<and>
           fs_files fs (ie_cfgPath env) \<in> {x, y, None}))"
proof -
  let ?p = "ie_cfgPath env" and ?b = "backup_path (ie_cfgPath env)"
  have ne: "?p \<noteq> ?b" by (simp add: backup_path_def)
  have self: "fs_files fs = (fs_files fs)(?b := fs_files fs ?b, ?p := fs_files fs ?p)" by simp
  consider (refused) e where "fs' = fs" "r = Inl e"
    | (dry) c res where "dryRun" "patched_config env p fs = Inr c" "fs' = fs" "r = Inr res"
    | (real) c q where "\<not> dryRun" "patched_config env p fs = Inr c"
        "persistConfig (ie_marshal env) ?p c fs = (fs', q)" "\<And>e. q = Inl e \<Longrightarrow> r = Inl e"
        "\<And>b. q = Inr b \<Longrightarrow> \<exists>res. r = Inr res"
    using assms by (auto simp: hook_setConfig_def Let_def split: sum.splits prod.splits if_splits)
  then show ?thesis
  proof cases
    case refused
    have "\<exists>x y. fs_files fs' = (fs_files fs)(?b := x, ?p := y) \<and> fs_files fs ?p \<in> {x, y, None}"
      unfolding refused(1)
      by (intro exI [of _ "fs_files fs ?b"] exI [of _ "fs_files fs ?p"] conjI) (rule self, simp)
    with refused show ?thesis
      by (cases dryRun) simp_all
  next
    case dry
    then show ?thesis by simp
  next
    case real
    from real(3) ne show ?thesis
    proof (cases rule: persistConfig_cases)
      case (saved b)
      from real(5) [OF saved(1)] obtain res where "r = Inr res" by blast
      with real(1,2) saved(2) show ?thesis by simp
    next
      case (failed e x y)
      from real(4) [OF failed(1)] real(1) failed(2,3) show ?thesis
        by (simp only: sum.case) blast
    qed
  qed
qed

lemma write_file_noread: "write_file path s fs = (fs', ok) \<Longrightarrow> fs_noread fs' = fs_noread fs"
  by (auto simp: write_file_def split: write_outcome.splits)

lemma persistConfig_noread: "persistConfig marshal path c fs = (fs', r) \<Longrightarrow> fs_noread fs' = fs_noread fs"
  by (auto simp: persistConfig_def saveAppConfig_def backup_config_def dest!: write_file_noread
      split: if_splits prod.splits sum.splits file_read.splits)

lemma hook_setConfig_saved:
  assumes "hook_setConfig env p False fs = (fs', Inr res)" "patched_config env p fs = Inr c"
  shows "fs_files fs' (ie_cfgPath env) = Some (ie_marshal env (to_raw c)) \<and> fs_noread fs' = fs_noread fs"
proof -
  have ne: "ie_cfgPath env \<noteq> backup_path (ie_cfgPath env)" by (simp add: backup_path_def)
  obtain b where b: "persistConfig (ie_marshal env) (ie_cfgPath env) c fs = (fs', Inr b)"
    using assms by (auto simp: hook_setConfig_def Let_def split: sum.splits prod.splits)
  from b ne have "fs_files fs' (ie_cfgPath env) = Some (ie_marshal env (to_raw c))"
    by (cases rule: persistConfig_cases) (auto split: option.splits)
  with persistConfig_noread [OF b] show ?thesis by simp
qed

text \<open>C38. What \<open>config.set\<close> saved and \<open>config.get\<close> reads back.  With a YAML library that reads back
  the document it wrote, a configuration without explicit durations comes back as the patched one
  (defaults filled in); but one that sets any of the three durations does not come back at all: they
  are written as integers, which \<open>Duration.UnmarshalYAML\<close> refuses, so the saved file cannot be
  loaded any more.\<close>

theorem config_set_reload:
  assumes "hook_setConfig env p False fs = (fs', Inr res)" "patched_config env p fs = Inr c"
    and "ie_unmarshal env (ie_marshal env (to_raw c)) = Some (to_raw c)"
    and "\<not> fs_noread fs (ie_cfgPath env)"
  shows "hook_getConfig env fs' =
    (if dc_blockTTL (ac_defense c) = 0 \<and> dc_window (ac_defense c) = 0 \<and> dc_cooldown (ac_defense c) = 0
     then Inr (snapshotFrom (fill_defaults c) (ie_cfgPath env))
     else Inl (Load ParsingConfig))"
proof -
  have "ie_cfgPath env \<noteq> []"
    using assms(2) by (auto simp: patched_config_def)
  moreover have "read_file fs' (ie_cfgPath env) = Content (ie_marshal env (to_raw c))"
    using hook_setConfig_saved [OF assms(1,2)] assms(4) by (simp add: read_file_def)
  ultimately show ?thesis
    using assms(3) by (simp add: hook_getConfig_def loadAppConfig_def from_to_raw)
qed

section \<open>Examples\<close>

definition example_raw :: raw_config where
  "example_raw = \<lparr>raw_app = zero_config\<lparr>ac_services := [''ftp_honeypot'']\<rparr>, raw_blockTTL = Some ''2h'',
     raw_window = None, raw_cooldown = None\<rparr>"

definition example_patch :: config_patch where
  "example_patch = empty_patch\<lparr>cp_interface := Some ''eth1''\<rparr>"

text \<open>The configuration the example patch leaves.\<close>

definition example_patched :: app_config where
  "example_patched = (fill_defaults (the (from_raw example_raw)))\<lparr>ac_interface := ''eth1''\<rparr>"

definition example_env :: instance_env where
  "example_env = \<lparr>ie_marshal = (\<lambda>r. ''new''),
     ie_unmarshal = (\<lambda>s. if s = ''new'' then Some (to_raw example_patched) else Some example_raw),
     ie_profiles = Inr [], ie_services = Some [], ie_cfgPath = ''/etc/mimic/config.yaml''\<rparr>"

definition example_fs :: file_system where
  "example_fs = \<lparr>fs_files = [''/etc/mimic/config.yaml'' \<mapsto> ''old''], fs_noread = (\<lambda>_. False),
     fs_write = (\<lambda>_. Writes), fs_nomkdir = (\<lambda>_. False)\<rparr>"

lemma example_duration: "parseDuration ''2h'' = Some 7200000000000"
proof -
  have "parse_groups ''2h'' 0 = Some 7200000000000"
    by (subst parse_groups.simps)
      (simp add: Let_def is_digit_def digits_value_def unit_value_def parse_groups.simps [of "[]"])
  then show ?thesis
    by (simp add: parseDuration_def Let_def)
qed

lemma example_loaded:
  "from_raw example_raw = Some ((raw_app example_raw)
     \<lparr>ac_defense := (ac_defense (raw_app example_raw))\<lparr>dc_blockTTL := 7200000000000\<rparr>\<rparr>)"
  by (simp add: from_raw_def example_raw_def raw_duration_def example_duration zero_config_def)

lemma example_services: "resolveRunServices [''ftp_honeypot''] (Some []) None = Inr [''ftp_honeypot'']"
  by code_simp

lemma patched_fields:
  "ac_profile example_patched = []" "ac_services example_patched = [''ftp_honeypot'']"
  "lc_level (ac_logging example_patched) = ''info''"
  "fw_closedPortBehavior (ac_firewall example_patched) = []"
  unfolding example_patched_def example_loaded option.sel
  by (simp_all add: example_raw_def zero_config_def fill_defaults_def logging_defaults_def Let_def)

lemma example_valid: "validateEditableConfig example_patched (Inr []) (Some []) = None"
proof -
  have "to_lower ''info'' = ''info''" "to_lower [] = []" by code_simp+
  then show ?thesis
    unfolding validateEditableConfig_def patched_fields Let_def
    by (simp add: example_services)
qed

lemma example_patched_config: "patched_config example_env example_patch example_fs = Inr example_patched"
proof -
  let ?c = "fill_defaults (the (from_raw example_raw))"
  have "loadAppConfig (ie_unmarshal example_env) (read_file example_fs (ie_cfgPath example_env)) = Inr ?c"
    by (simp add: example_env_def read_file_def example_fs_def loadAppConfig_def example_loaded)
  moreover have "applyPatch example_patch ?c = Inr example_patched"
    by (simp add: applyPatch_def example_patch_def empty_patch_def isEmpty_def put_def example_patched_def)
  moreover have "ie_cfgPath example_env \<noteq> []" "ie_profiles example_env = Inr []" "ie_services example_env = Some []"
    by (simp_all add: example_env_def)
  ultimately show ?thesis
    by (simp only: patched_config_def sum.case example_valid option.case if_False)
qed

lemma example_set:
  "hook_setConfig example_env example_patch False example_fs =
     (example_fs\<lparr>fs_files := (fs_files example_fs)
         (''/etc/mimic/config.yaml.bak'' \<mapsto> ''old'', ''/etc/mimic/config.yaml'' \<mapsto> ''new'')\<rparr>,
      Inr \<lparr>cr_path = ''/etc/mimic/config.yaml'', cr_restartRequired = True,
           cr_backup = ''/etc/mimic/config.yaml.bak'', cr_message = ''saved; restart required to apply''\<rparr>)"
proof -
  have "persistConfig (ie_marshal example_env) (ie_cfgPath example_env) example_patched example_fs =
      (example_fs\<lparr>fs_files := (fs_files example_fs)
         (''/etc/mimic/config.yaml.bak'' \<mapsto> ''old'', ''/etc/mimic/config.yaml'' \<mapsto> ''new'')\<rparr>,
       Inr ''/etc/mimic/config.yaml.bak'')"
    by (simp add: persistConfig_def backup_config_def saveAppConfig_def write_file_def read_file_def
        backup_path_def example_env_def example_fs_def)
  moreover have "ie_cfgPath example_env = ''/etc/mimic/config.yaml''"
    by (simp add: example_env_def)
  ultimately show ?thesis
    by (simp only: hook_setConfig_def example_patched_config sum.case Let_def if_False prod.case) simp
qed

lemma config_set_reload_witness:
  "hook_getConfig example_env (fst (hook_setConfig example_env example_patch False example_fs)) =
     Inl (Load ParsingConfig)"
  unfolding example_set fst_conv
proof (subst config_set_reload [OF example_set example_patched_config])
  show "ie_unmarshal example_env (ie_marshal example_env (to_raw example_patched)) = Some (to_raw example_patched)"
    by (simp add: example_env_def)
  show "\<not> fs_noread example_fs (ie_cfgPath example_env)"
    by (simp add: example_fs_def)
  have "dc_blockTTL (ac_defense example_patched) = 7200000000000"
    by (simp add: example_patched_def example_loaded fill_defaults_def)
  then show "(if dc_blockTTL (ac_defense example_patched) = 0 \<and> dc_window (ac_defense example_patched) = 0 \<and>
        dc_cooldown (ac_defense example_patched) = 0
      then Inr (snapshotFrom (fill_defaults example_patched) (ie_cfgPath example_env))
      else Inl (Load ParsingConfig)) = Inl (Load ParsingConfig)"
    by simp
qed

lemma set_config_effects_witness:
  "fs_files (fst (hook_setConfig example_env example_patch False example_fs)) =
     (fs_files example_fs)(''/etc/mimic/config.yaml.bak'' \<mapsto> ''old'', ''/etc/mimic/config.yaml'' \<mapsto> ''new'')"
proof -
  obtain fs' r where fr: "hook_setConfig example_env example_patch False example_fs = (fs', r)" by fastforce
  then obtain res where r: "r = Inr res" by (auto simp: example_set)
  have "fs_files example_fs (ie_cfgPath example_env) = Some ''old''" "ie_cfgPath example_env = ''/etc/mimic/config.yaml''"
    "backup_path (ie_cfgPath example_env) = ''/etc/mimic/config.yaml.bak''" "\<And>x. ie_marshal example_env x = ''new''"
    by (simp_all add: example_fs_def example_env_def backup_path_def)
  with set_config_effects [OF fr] r fr show ?thesis by auto
qed

lemma tail_is_tail_witness:
  "\<exists>t. hook_tailLogFile ''/var/log/mimic'' ''Mimic'' 2
      (example_fs\<lparr>fs_files := [''/var/log/mimic/mimic.log'' \<mapsto> ''one'' @ [CHR 0x0A] @ ''two'' @ [CHR 0x0A] @ ''three'' @ [CHR 0x0A]]\<rparr>) = Inr t \<and>
    lt_file t = ''mimic.log'' \<and> lt_lines t = [''two'', ''three'']"
proof -
  let ?fs = "example_fs\<lparr>fs_files := [''/var/log/mimic/mimic.log'' \<mapsto> ''one'' @ [CHR 0x0A] @ ''two'' @ [CHR 0x0A] @ ''three'' @ [CHR 0x0A]]\<rparr>"
  have n: "normalizeLogName ''Mimic'' = Some ''mimic.log''" by code_simp
  have p: "path_join [''/var/log/mimic'', ''mimic.log''] = ''/var/log/mimic/mimic.log''" by code_simp
  have s: "scan_pieces (''one'' @ [CHR 0x0A] @ ''two'' @ [CHR 0x0A] @ ''three'' @ [CHR 0x0A]) = [''one'', ''two'', ''three'']"
    by code_simp
  obtain t where t: "hook_tailLogFile ''/var/log/mimic'' ''Mimic'' 2 ?fs = Inr t"
    using s by (auto simp: hook_tailLogFile_def resolveLogPath_def n p tailFile_def read_file_def example_fs_def
        scan_lines_def max_line_def Let_def)
  then have "lt_file t = ''mimic.log''"
    by (auto simp: hook_tailLogFile_def resolveLogPath_def n split: sum.splits)
  with tail_is_tail [OF t] p have "lt_path t = ''/var/log/mimic/mimic.log''"
    "lt_lines t = (let ls = map drop_cr [''one'', ''two'', ''three''] in drop (length ls - clamp_lines 2) ls)"
    using s by (simp_all add: read_file_def example_fs_def)
  with t \<open>lt_file t = ''mimic.log''\<close> show ?thesis
    by (simp add: drop_cr_def clamp_lines_def Let_def)
qed

text \<open>A patch is refused only when it is empty.\<close>

lemma applyPatch_only_empty: "(\<exists>e. applyPatch p c = Inl e) \<longleftrightarrow> isEmpty p"
  by (simp add: applyPatch_def)

end
