(* ===== verification/Event_Ring.thy ===== *)
theory Event_Ring
  imports Events
begin

text \<open>
  The in-memory ring of recent events (\<open>Ring\<close> of \<open>internal/control/control.go\<close>), a sink of the bus
  and the store the control plane's \<open>logs\<close> operation reads.  Its contract is the locale
  \<open>recent_store\<close>: what \<open>last\<close> returns depends only on the events written, not on how they are
  kept.
\<close>

record ring =
  rb_buf :: "event list"
  rb_max :: nat

definition newRing :: "int \<Rightarrow> ring" where
  "newRing m = \<lparr>rb_buf = [], rb_max = (if m \<le> 0 then 200 else nat m)\<rparr>"

definition ring_write :: "ring \<Rightarrow> event \<Rightarrow> ring \<times> string option" where
  "ring_write r e =
     (let buf = rb_buf r @ [e] in
      (r\<lparr>rb_buf := (if rb_max r < length buf then drop (length buf - rb_max r) buf else buf)\<rparr>, None))"

text \<open>\<open>Last\<close>; a negative count makes \<open>make\<close> panic.\<close>

definition ring_last :: "int \<Rightarrow> ring \<Rightarrow> event list option" where
  "ring_last n r =
     (if n < 0 then None
      else let k = min (nat n) (length (rb_buf r)) in Some (drop (length (rb_buf r) - k) (rb_buf r)))"

definition ring_count :: "ring \<Rightarrow> nat" where
  "ring_count r = length (rb_buf r)"

section \<open>A store of recent events\<close>

definition suffix_of :: "nat \<Rightarrow> 'a list \<Rightarrow> 'a list" where
  "suffix_of n xs = drop (length xs - n) xs"

lemma suffix_of_snoc:
  "suffix_of n (suffix_of n xs @ [x]) = suffix_of n (xs @ [x])"
  by (cases "length xs < n") (auto simp: suffix_of_def drop_Cons' Suc_diff_le)

lemma suffix_of_suffix_of: "suffix_of m (suffix_of n xs) = suffix_of (min m n) xs"
proof (cases "length xs \<le> n")
  case True
  then show ?thesis by (cases "m \<le> n") (auto simp: suffix_of_def)
next
  case False
  then have "length xs - (length xs - n) - m + (length xs - n) = length xs - min m n"
    by (cases "m \<le> n") auto
  then show ?thesis by (simp add: suffix_of_def add.commute)
qed

locale recent_store =
  fixes store_write :: "'s \<Rightarrow> event \<Rightarrow> 's \<times> string option"
    and store_last :: "int \<Rightarrow> 's \<Rightarrow> event list option"
    and content :: "'s \<Rightarrow> event list"
    and capacity :: "'s \<Rightarrow> nat"
  assumes write_content: "content (fst (store_write s e)) = suffix_of (capacity s) (content s @ [e])"
    and write_capacity: "capacity (fst (store_write s e)) = capacity s"
    and last_content: "0 \<le> n \<Longrightarrow> store_last n s = Some (suffix_of (nat n) (content s))"
begin

definition write_events :: "event list \<Rightarrow> 's \<Rightarrow> 's" where
  "write_events es s = fold (\<lambda>e s. fst (store_write s e)) es s"

lemma capacity_write_events [simp]: "capacity (write_events es s) = capacity s"
  by (induction es arbitrary: s) (simp_all add: write_events_def write_capacity)

lemma content_write_events:
  "content s = [] \<Longrightarrow> content (write_events es s) = suffix_of (capacity s) es"
proof (induction es rule: rev_induct)
  case Nil
  then show ?case by (simp add: write_events_def suffix_of_def)
next
  case (snoc e es)
  then show ?case
    using capacity_write_events [of es s]
    by (simp add: write_events_def write_content suffix_of_snoc)
qed

lemma last_write_events:
  "content s = [] \<Longrightarrow> 0 \<le> n \<Longrightarrow>
   store_last n (write_events es s) = Some (suffix_of (min (nat n) (capacity s)) es)"
  by (simp add: last_content content_write_events suffix_of_suffix_of)

end

interpretation rg: recent_store ring_write ring_last rb_buf rb_max
proof
  fix s e
  show "rb_buf (fst (ring_write s e)) = suffix_of (rb_max s) (rb_buf s @ [e])"
    by (simp add: ring_write_def suffix_of_def Let_def)
  show "rb_max (fst (ring_write s e)) = rb_max s"
    by (simp add: ring_write_def Let_def)
next
  fix n s assume "0 \<le> (n :: int)"
  then show "ring_last n s = Some (suffix_of (nat n) (rb_buf s))"
    by (auto simp: ring_last_def suffix_of_def Let_def min_def)
qed

text \<open>C35. The ring serves the most recent events: after any sequence of writes, \<open>Last n\<close> returns the
  last \<open>n\<close> of them in order, fewer only if fewer were written or the ring's size is smaller, and the
  count is the number retained.\<close>

theorem ring_serves_recent:
  assumes "0 \<le> n"
  shows "ring_last n (fold (\<lambda>e r. fst (ring_write r e)) es (newRing m)) =
      Some (suffix_of (min (nat n) (rb_max (newRing m))) es) \<and>
    ring_count (fold (\<lambda>e r. fst (ring_write r e)) es (newRing m)) = min (length es) (rb_max (newRing m))"
proof -
  have e: "rb_buf (newRing m) = []" by (simp add: newRing_def)
  show ?thesis
    using rg.last_write_events [OF e assms, of es] rg.content_write_events [OF e, of es]
    by (simp add: rg.write_events_def ring_count_def suffix_of_def)
qed

lemma ring_serves_recent_witness:
  "ring_last 2 (fold (\<lambda>e r. fst (ring_write r e)) (map blank_event [Connection, AuthAttempt, Probe]) (newRing 2)) =
     Some (map blank_event [AuthAttempt, Probe])"
  using ring_serves_recent [of 2 "map blank_event [Connection, AuthAttempt, Probe]" 2]
  by (simp add: suffix_of_def newRing_def)

text \<open>The ring is a sink whose writes never fail; the newest event is always retained.\<close>

lemma ring_write_ok [simp]: "snd (ring_write r e) = None"
  by (simp add: ring_write_def Let_def)

end
