(* ===== verification/Go_Net.thy ===== *)
theory Go_Net
  imports Go_Path
begin

text \<open>
  The parts of Go's \<open>net\<close> package the defense layer uses: \<open>net.ParseIP\<close>, \<open>net.ParseCIDR\<close>,
  \<open>IP.To4\<close> and \<open>IPNet.Contains\<close>.  An \<open>IP\<close> is its 16 bytes, an IPv4 address in its mapped form,
  as \<open>ParseIP\<close> returns it; a parsed address also records whether it was written as IPv4.
\<close>

section \<open>Parsing addresses\<close>

definition digit_val :: "char \<Rightarrow> nat option" where
  "digit_val c = (let n = (of_char c :: nat) in if 48 \<le> n \<and> n \<le> 57 then Some (n - 48) else None)"

text \<open>\<open>strconv.Atoi\<close> with its error as \<open>None\<close>.\<close>

definition atoi_ok :: "string \<Rightarrow> int option" where
  "atoi_ok s =
     (let neg = (s \<noteq> [] \<and> hd s = CHR ''-'');
          ds = (if s \<noteq> [] \<and> (hd s = CHR ''-'' \<or> hd s = CHR ''+'') then tl s else s)
      in if ds = [] \<or> (\<exists>c \<in> set ds. digit_val c = None) then None
         else
           let n = foldl (\<lambda>a c. 10 * a + int (the (digit_val c))) 0 ds; v = (if neg then - n else n)
           in if - (2 ^ 63) \<le> v \<and> v < 2 ^ 63 then Some v else None)"

definition hex_val :: "char \<Rightarrow> nat option" where
  "hex_val c = (let n = (of_char c :: nat) in
     if 48 \<le> n \<and> n \<le> 57 then Some (n - 48)
     else if 97 \<le> n \<and> n \<le> 102 then Some (n - 87)
     else if 65 \<le> n \<and> n \<le> 70 then Some (n - 55)
     else None)"

text \<open>A decimal field: 1 to 3 digits, no leading zero, at most 255.\<close>

definition octet :: "string \<Rightarrow> nat option" where
  "octet s =
     (if s = [] \<or> 3 < length s \<or> (1 < length s \<and> hd s = CHR ''0'') \<or> (\<exists>c \<in> set s. digit_val c = None) then None
      else let v = foldl (\<lambda>a c. a * 10 + the (digit_val c)) 0 s in if v \<le> 255 then Some v else None)"

definition parseIPv4 :: "string \<Rightarrow> bytes option" where
  "parseIPv4 s =
     (case map octet (split_on (CHR ''.'') s) of
        [Some a, Some b, Some c, Some d] \<Rightarrow> Some [of_nat a, of_nat b, of_nat c, of_nat d]
      | _ \<Rightarrow> None)"

text \<open>One 16-bit group: its value and the rest; at most four hexadecimal digits.\<close>

definition hex_group :: "string \<Rightarrow> (int \<times> string) option" where
  "hex_group s =
     (let ds = takeWhile (\<lambda>c. hex_val c \<noteq> None) s in
      if ds = [] \<or> 4 < length ds then None
      else Some (foldl (\<lambda>a c. a * 16 + int (the (hex_val c))) 0 ds, drop (length ds) s))"

text \<open>The loop of the IPv6 parser: \<open>out\<close> are the bytes so far, \<open>ell\<close> the place of \<open>::\<close>.\<close>

fun v6_loop :: "nat \<Rightarrow> string \<Rightarrow> bytes \<Rightarrow> nat option \<Rightarrow> (bytes \<times> nat option \<times> string) option" where
  "v6_loop 0 s out ell = Some (out, ell, s)"
| "v6_loop (Suc fuel) s out ell =
     (case hex_group s of
        None \<Rightarrow> None
      | Some (v, r) \<Rightarrow>
          if r \<noteq> [] \<and> hd r = CHR ''.'' then
            (if (ell = None \<and> length out \<noteq> 12) \<or> 12 < length out then None
             else case parseIPv4 s of None \<Rightarrow> None | Some q \<Rightarrow> Some (out @ q, ell, []))
          else
            let out' = out @ [of_int (v div 256), of_int (v mod 256)] in
            if r = [] then Some (out', ell, [])
            else if hd r \<noteq> CHR '':'' then None
            else if length r = 1 then None
            else let r' = tl r in
              if hd r' = CHR '':'' then
                (if ell \<noteq> None then None
                 else if tl r' = [] then Some (out', Some (length out'), [])
                 else v6_loop fuel (tl r') out' (Some (length out')))
              else v6_loop fuel r' out' ell)"

definition v6_finish :: "bytes \<times> nat option \<times> string \<Rightarrow> bytes option" where
  "v6_finish = (\<lambda>(out, ell, s).
     if s \<noteq> [] then None
     else if length out < 16 then
       (case ell of
          None \<Rightarrow> None
        | Some e \<Rightarrow> Some (take e out @ replicate (16 - length out) 0 @ drop e out))
     else if ell \<noteq> None then None
     else Some out)"

definition parseIPv6 :: "string \<Rightarrow> bytes option" where
  "parseIPv6 s =
     (if has_prefix s ''::'' then
        (if length s = 2 then Some (replicate 16 0)
         else case v6_loop 8 (drop 2 s) [] (Some 0) of None \<Rightarrow> None | Some r \<Rightarrow> v6_finish r)
      else case v6_loop 8 s [] None of None \<Rightarrow> None | Some r \<Rightarrow> v6_finish r)"

definition v4_prefix :: bytes where
  "v4_prefix = [0, 0, 0, 0, 0, 0, 0, 0, 0, 0, 0xff, 0xff]"

text \<open>\<open>netip.ParseAddr\<close> without zones: the first dot or colon decides the family.\<close>

datatype addr = V4 bytes | V6 bytes

definition parseAddr :: "string \<Rightarrow> addr option" where
  "parseAddr s =
     (case find (\<lambda>c. c = CHR ''.'' \<or> c = CHR '':'' \<or> c = CHR 0x25) s of
        None \<Rightarrow> None
      | Some c \<Rightarrow>
          if c = CHR ''.'' then map_option V4 (parseIPv4 s)
          else if c = CHR '':'' then map_option V6 (parseIPv6 s)
          else None)"

fun as16 :: "addr \<Rightarrow> bytes" where
  "as16 (V4 q) = v4_prefix @ q"
| "as16 (V6 q) = q"

fun bit_len :: "addr \<Rightarrow> nat" where
  "bit_len (V4 q) = 32"
| "bit_len (V6 q) = 128"

definition parseIP :: "string \<Rightarrow> bytes option" where
  "parseIP s = map_option as16 (parseAddr s)"

definition to4 :: "bytes \<Rightarrow> bytes option" where
  "to4 ip =
     (if length ip = 4 then Some ip
      else if length ip = 16 \<and> take 12 ip = v4_prefix then Some (drop 12 ip)
      else None)"

section \<open>Networks\<close>

record ip_net =
  net_ip :: bytes
  net_mask :: bytes

fun mask_bytes :: "nat \<Rightarrow> nat \<Rightarrow> bytes" where
  "mask_bytes ones 0 = []"
| "mask_bytes ones (Suc n) =
     (if 8 \<le> ones then 0xff # mask_bytes (ones - 8) n
      else (NOT (mask (8 - ones))) # mask_bytes 0 n)"

definition mask_ip :: "bytes \<Rightarrow> bytes \<Rightarrow> bytes" where
  "mask_ip ip m = map2 (AND) ip m"

text \<open>\<open>dtoi\<close> over the whole mask text: decimal digits, at most the address length.\<close>

definition prefix_len :: "nat \<Rightarrow> string \<Rightarrow> nat option" where
  "prefix_len bits s =
     (if s = [] \<or> (\<exists>c \<in> set s. digit_val c = None) then None
      else let v = foldl (\<lambda>a c. a * 10 + the (digit_val c)) 0 s in if v \<le> bits then Some v else None)"

definition parseNet :: "string \<Rightarrow> ip_net option" where
  "parseNet s =
     (let addr = takeWhile (\<lambda>c. c \<noteq> CHR ''/'') s;
          rest = dropWhile (\<lambda>c. c \<noteq> CHR ''/'') s
      in if rest = [] then None
         else case parseAddr addr of
           None \<Rightarrow> None
         | Some a \<Rightarrow>
             (case prefix_len (bit_len a) (tl rest) of
                None \<Rightarrow> None
              | Some n \<Rightarrow>
                  let m = mask_bytes n (bit_len a div 8);
                      ip = (case a of V4 q \<Rightarrow> q | V6 q \<Rightarrow> q)
                  in Some \<lparr>net_ip = mask_ip ip m, net_mask = m\<rparr>))"

definition net_contains :: "ip_net \<Rightarrow> bytes \<Rightarrow> bool" where
  "net_contains n ip0 =
     (let nn = (case to4 (net_ip n) of Some q \<Rightarrow> q | None \<Rightarrow> net_ip n);
          m = (if length (net_mask n) = 16 \<and> length nn = 4 then drop 12 (net_mask n) else net_mask n);
          ip = (case to4 ip0 of Some q \<Rightarrow> q | None \<Rightarrow> ip0)
      in length nn = length m \<and> length ip = length nn \<and> mask_ip nn m = mask_ip ip m)"

end
