(* ===== verification/Blocker.thy ===== *)
theory Blocker
  imports Detector Go_Net
begin

text \<open>
  The blocker of \<open>internal/defense\<close> (\<open>blocker.go\<close>): the whitelist, the dry run and the firewall
  commands.  Running \<open>nft\<close> is an oracle: \<open>nft done cmd\<close> is the error output of \<open>cmd\<close> after the
  commands \<open>done\<close>, \<open>None\<close> when it succeeds.  What the detector needs of a blocker is the locale
  \<open>responder\<close>.
\<close>

section \<open>Model\<close>

definition parseCIDR :: "string \<Rightarrow> ip_net option" where
  "parseCIDR s0 =
     (let s = trim_space s0 in
      if s = [] then None
      else
        let s' = (if CHR ''/'' \<notin> set s
                  then (case parseIP s of
                          None \<Rightarrow> s
                        | Some ip \<Rightarrow> s @ ''/'' @ itoa (if to4 ip = None then 128 else 32))
                  else s)
        in parseNet s')"

record blocker =
  bl_enforce :: bool
  bl_ttl :: duration
  bl_whitelist :: "ip_net list"
  bl_ensured :: bool
  bl_done :: "string list list"  \<comment> \<open>the commands run so far\<close>

definition newBlocker :: "defense_config \<Rightarrow> blocker" where
  "newBlocker cfg =
     (let c = withDefaults cfg in
      \<lparr>bl_enforce = dc_enforce c, bl_ttl = dc_blockTTL c,
       bl_whitelist = List.map_filter parseCIDR (dc_whitelist c), bl_ensured = False, bl_done = []\<rparr>)"

definition whitelisted :: "blocker \<Rightarrow> bytes \<Rightarrow> bool" where
  "whitelisted b ip \<longleftrightarrow> (\<exists>n \<in> set (bl_whitelist b). net_contains n ip)"

text \<open>The standard library's \<open>IP.String\<close> for an IPv4 address.\<close>

definition dotted :: "bytes \<Rightarrow> string" where
  "dotted q = join_with (CHR ''.'') (map (\<lambda>b. itoa (unat b)) q)"

type_synonym nft = "string list list \<Rightarrow> string list \<Rightarrow> string option"

definition setup_commands :: "string list list" where
  "setup_commands =
     [[''nft'', ''add'', ''table'', ''inet'', ''mimic_block''],
      [''nft'', ''add'', ''set'', ''inet'', ''mimic_block'', ''blocked'', ''{ type ipv4_addr ; flags timeout ; }''],
      [''nft'', ''add'', ''chain'', ''inet'', ''mimic_block'', ''input'',
       ''{ type filter hook input priority -150 ; policy accept ; }''],
      [''nft'', ''add'', ''rule'', ''inet'', ''mimic_block'', ''input'', ''ip'', ''saddr'', ''@blocked'', ''drop'']]"

fun ensure :: "nft \<Rightarrow> string list list \<Rightarrow> string list list \<Rightarrow> string list list \<times> string option" where
  "ensure nft done [] = (done, None)"
| "ensure nft done (c # cs) =
     (case nft done c of
        Some out \<Rightarrow> (done @ [c], Some (''nft setup (['' @ join_with (CHR 0x20) c @ '']): '' @ trim_space out))
      | None \<Rightarrow> ensure nft (done @ [c]) cs)"

text \<open>The element's timeout in whole seconds.  (Go converts through a floating-point number; the
  result is the same for durations below \<open>2 ^ 53\<close> nanoseconds.)\<close>

definition ttl_text :: "duration \<Rightarrow> string" where
  "ttl_text ttl = int_string (if ttl < 0 then - (- ttl div second) else ttl div second) @ ''s''"

definition add_command :: "blocker \<Rightarrow> bytes \<Rightarrow> string list" where
  "add_command b q =
     [''nft'', ''add'', ''element'', ''inet'', ''mimic_block'', ''blocked'',
      ''{ '' @ dotted q @ '' timeout '' @ ttl_text (bl_ttl b) @ '' }'']"

definition nftBlock :: "nft \<Rightarrow> bytes \<Rightarrow> blocker \<Rightarrow> blocker \<times> string option" where
  "nftBlock nft ip b =
     (case to4 ip of
        None \<Rightarrow> (b, Some ''ipv6 blocking not supported'')
      | Some q \<Rightarrow>
          (case (if bl_ensured b then (bl_done b, None) else ensure nft (bl_done b) setup_commands) of
             (dn, Some err) \<Rightarrow> (b\<lparr>bl_done := dn\<rparr>, Some err)
           | (dn, None) \<Rightarrow>
               let c = add_command b q; b' = b\<lparr>bl_ensured := True, bl_done := dn @ [c]\<rparr> in
               (case nft dn c of
                  Some out \<Rightarrow> (b', Some (''nft add element: '' @ trim_space out))
                | None \<Rightarrow> (b', None))))"

text \<open>\<open>Block\<close>: the new state and the event it emits, if any.\<close>

definition block_event :: "blocker \<Rightarrow> string \<Rightarrow> string \<Rightarrow> bool \<Rightarrow> string option \<Rightarrow> event" where
  "block_event b ipStr reason enforced err =
     (blank_event Block)
       \<lparr>ev_severity := SevAlert, ev_srcIP := ipStr,
        ev_message := (if enforced then ''source blocked''
                       else ''abuse detected (alert-only; would block source)''),
        ev_fields :=
          ([''reason'' \<mapsto> FStr reason, ''ttl'' \<mapsto> FStr (duration_string (bl_ttl b)),
            ''dry_run'' \<mapsto> FBool (\<not> bl_enforce b), ''enforced'' \<mapsto> FBool enforced]
           ++ (case err of None \<Rightarrow> Map.empty | Some e \<Rightarrow> [''error'' \<mapsto> FStr e]))\<rparr>"

definition block_source :: "nft \<Rightarrow> string \<Rightarrow> string \<Rightarrow> blocker \<Rightarrow> blocker \<times> event option" where
  "block_source nft ipStr reason b =
     (case parseIP ipStr of
        None \<Rightarrow> (b, None)
      | Some ip \<Rightarrow>
          if whitelisted b ip then (b, None)
          else if \<not> bl_enforce b then (b, Some (block_event b ipStr reason False None))
          else
            (case nftBlock nft ip b of
               (b', Some err) \<Rightarrow> (b', Some (block_event b ipStr reason False (Some err)))
             | (b', None) \<Rightarrow> (b', Some (block_event b ipStr reason True None))))"

section \<open>The contract with the detector\<close>

text \<open>A responder acts on a source and may emit an event.  The law: whatever it emits is a
  \<open>Block\<close> event, which the detector must not score.\<close>

locale responder =
  fixes act :: "string \<Rightarrow> string \<Rightarrow> 'b \<Rightarrow> 'b \<times> event option"
  assumes emits_block: "act ip reason b = (b', Some ev) \<Longrightarrow> ev_type ev = Block"
begin

text \<open>No feedback: the event a responder emits leaves any detector as it is and asks for nothing.\<close>

lemma no_feedback:
  "act ip reason b = (b', Some ev) \<Longrightarrow> detector_write now (stamp t ev) d = (d, None)"
  using emits_block by (simp add: detector_write_def)

end

interpretation blk: responder "block_source nft"
  by unfold_locales
    (auto simp: block_source_def block_event_def blank_event_def split: option.splits if_splits prod.splits)

section \<open>What a whitelist entry covers\<close>

lemma digit_val_char [simp]: "k < 10 \<Longrightarrow> digit_val (char_of (48 + k :: nat)) = Some k"
  by (simp add: digit_val_def)

lemma itoa_digit_val: "c \<in> set (itoa n) \<Longrightarrow> digit_val c \<noteq> None"
  using itoa_digits [of n] by (auto simp: digit_val_def is_digit_def Let_def)

lemma foldl_itoa [simp]: "foldl (\<lambda>a c. a * 10 + the (digit_val c)) 0 (itoa n) = n"
proof (induction n rule: itoa.induct)
  case (1 n)
  show ?case
  proof (cases "n < 10")
    case True
    then show ?thesis by (subst itoa.simps) simp
  next
    case False
    with 1 show ?thesis by (subst itoa.simps) simp
  qed
qed

lemma length_itoa: "n < 10 ^ Suc k \<Longrightarrow> length (itoa n) \<le> Suc k"
proof (induction k arbitrary: n)
  case 0
  then show ?case by (subst itoa.simps) simp
next
  case (Suc k)
  then have "n div 10 < 10 ^ Suc k" by (simp add: less_mult_imp_div_less)
  with Suc.IH show ?case by (subst itoa.simps) simp
qed

lemma itoa_lead: "n \<noteq> 0 \<Longrightarrow> hd (itoa n) \<noteq> CHR ''0''"
proof (induction n rule: itoa.induct)
  case (1 n)
  show ?case
  proof (cases "n < 10")
    case True
    have "digit_val (CHR ''0'') = Some 0" by code_simp
    with digit_val_char [OF True] 1 have "char_of (48 + n) \<noteq> CHR ''0''" by auto
    with True show ?thesis by (subst itoa.simps) simp
  next
    case False
    with 1 show ?thesis by (subst itoa.simps) auto
  qed
qed

lemma octet_itoa: "n < 256 \<Longrightarrow> octet (itoa n) = Some n"
proof -
  assume n: "n < 256"
  then have "length (itoa n) \<le> 3" using length_itoa [of n 2] by simp
  moreover have "n = 0" if "hd (itoa n) = CHR ''0''" using that itoa_lead by blast
  ultimately show "octet (itoa n) = Some n"
    using n itoa_digit_val [of _ n] by (auto simp: octet_def Let_def)
qed

lemma octet_unat [simp]: "octet (itoa (unat (b :: byte))) = Some (unat b)"
  using unsigned_less [of b] by (intro octet_itoa) simp

lemma digit_not_sep: "is_digit c \<Longrightarrow> c \<notin> {CHR ''.'', CHR '':'', CHR ''/'', CHR 0x25}"
  by (auto simp: is_digit_def)

lemma itoa_plain: "CHR ''.'' \<notin> set (itoa n)" "CHR '':'' \<notin> set (itoa n)" "CHR ''/'' \<notin> set (itoa n)"
  "CHR 0x25 \<notin> set (itoa n)"
  using itoa_digits [of n] digit_not_sep by auto

lemma length4E:
  assumes "length q = 4" obtains a b c d where "q = [a, b, c, d]"
  using assms by (auto simp: eval_nat_numeral length_Suc_conv)

lemma parseIPv4_dotted [simp]: "length q = 4 \<Longrightarrow> parseIPv4 (dotted q) = Some q"
  by (erule length4E)
    (simp add: dotted_def parseIPv4_def split_on_append split_on_plain itoa_plain)

lemma find_prefix: "\<forall>x \<in> set a. \<not> P x \<Longrightarrow> find P (a @ s) = find P s"
  by (induction a) auto

lemma parseAddr_dotted [simp]: "length q = 4 \<Longrightarrow> parseAddr (dotted q) = Some (V4 q)"
proof (erule length4E)
  fix a b c d assume q: "q = [a, b, c, d]"
  have "find (\<lambda>c. c = CHR ''.'' \<or> c = CHR '':'' \<or> c = CHR 0x25) (dotted q) = Some (CHR ''.'')"
    unfolding q dotted_def using itoa_plain [of "unat a"]
    by (simp, subst find_prefix) auto
  with q show "parseAddr (dotted q) = Some (V4 q)"
    by (simp add: parseAddr_def)
qed

lemma parseIP_dotted [simp]: "length q = 4 \<Longrightarrow> parseIP (dotted q) = Some (v4_prefix @ q)"
  by (simp add: parseIP_def)

lemma to4_prefix [simp]: "length q = 4 \<Longrightarrow> to4 (v4_prefix @ q) = Some q"
  by (simp add: to4_def v4_prefix_def)

lemma dotted_chars: "length q = 4 \<Longrightarrow> c \<in> set (dotted q) \<Longrightarrow> is_digit c \<or> c = CHR ''.''"
  by (erule length4E) (auto simp: dotted_def dest: bspec [OF itoa_digits])

lemma prefix_len_itoa: "n \<le> 32 \<Longrightarrow> prefix_len 32 (itoa n) = Some n"
  using itoa_digit_val [of _ n] by (auto simp: prefix_len_def Let_def)

lemma trim_space_plain: "s \<noteq> [] \<Longrightarrow> \<not> is_space (hd s) \<Longrightarrow> \<not> is_space (last s) \<Longrightarrow> trim_space s = s"
proof -
  assume s: "s \<noteq> []" "\<not> is_space (hd s)" "\<not> is_space (last s)"
  then have "dropWhile is_space s = s"
    by (cases s) auto
  moreover have "dropWhile is_space (rev s) = rev s"
    using s by (cases s rule: rev_cases) auto
  ultimately show "trim_space s = s"
    by (simp add: trim_space_def)
qed

lemma digit_not_space: "is_digit c \<Longrightarrow> \<not> is_space c"
  by (auto simp: is_digit_def is_space_def Let_def)

lemma parseCIDR_dotted:
  assumes "length q = 4" "n \<le> 32"
  shows "parseCIDR (dotted q @ CHR ''/'' # itoa n) =
    Some \<lparr>net_ip = mask_ip q (mask_bytes n 4), net_mask = mask_bytes n 4\<rparr>"
proof -
  let ?s = "dotted q @ CHR ''/'' # itoa n"
  have "is_digit (hd (itoa k))" for k
    using itoa_digits [of k] hd_in_set [of "itoa k"] by simp
  then have ne: "dotted q \<noteq> []" "is_digit (hd (dotted q))"
    using assms(1) by (auto elim!: length4E simp: dotted_def)
  have "is_digit (last (itoa n))"
    using itoa_digits [of n] last_in_set [of "itoa n"] by simp
  then have trim: "trim_space ?s = ?s"
    using ne by (intro trim_space_plain) (simp_all add: digit_not_space)
  have slash: "CHR ''/'' \<notin> set (dotted q)"
    using dotted_chars [OF assms(1)] digit_not_sep by fastforce
  have tw: "takeWhile (\<lambda>c. c \<noteq> CHR ''/'') ?s = dotted q"
    "dropWhile (\<lambda>c. c \<noteq> CHR ''/'') ?s = CHR ''/'' # itoa n"
    using slash by (auto simp: takeWhile_append dropWhile_append)
  show ?thesis
    using assms by (simp add: parseCIDR_def trim parseNet_def tw prefix_len_itoa Let_def)
qed

text \<open>Addresses and masks as 32-bit words.\<close>

definition addr32 :: "bytes \<Rightarrow> u32" where
  "addr32 q = be32 (q ! 0) (q ! 1) (q ! 2) (q ! 3)"

lemma be32_and: "be32 a b c d AND be32 a' b' c' d' = be32 (a AND a') (b AND b') (c AND c') (d AND d')"
  unfolding be32_def
  apply (rule bit_word_eqI)
  subgoal for n
    by (cases "8 \<le> n"; cases "16 \<le> n"; cases "24 \<le> n") (auto simp: bit_simps dest: bit_imp_le_length)
  done

lemma be32_inj: "be32 a b c d = be32 a' b' c' d' \<longleftrightarrow> a = a' \<and> b = b' \<and> c = c' \<and> d = d'"
proof -
  have "(ucast (drop_bit 24 (be32 a b c d)) :: byte) = a" for a b c d
    unfolding be32_def by (rule bit_word_eqI) (auto simp: bit_simps dest: bit_imp_le_length)
  moreover have "(ucast (drop_bit 16 (be32 a b c d)) :: byte) = b" for a b c d
    unfolding be32_def by (rule bit_word_eqI) (auto simp: bit_simps dest: bit_imp_le_length)
  moreover have "(ucast (drop_bit 8 (be32 a b c d)) :: byte) = c" for a b c d
    unfolding be32_def by (rule bit_word_eqI) (auto simp: bit_simps dest: bit_imp_le_length)
  moreover have "(ucast (be32 a b c d) :: byte) = d" for a b c d
    unfolding be32_def by (rule bit_word_eqI) (auto simp: bit_simps)
  ultimately show ?thesis by metis
qed

lemma addr32_mask: "n \<le> 32 \<Longrightarrow> addr32 (mask_bytes n 4) = NOT (mask (32 - n))"
proof -
  have "\<forall>n \<in> set [0..<33]. addr32 (mask_bytes n 4) = NOT (mask (32 - n))"
    by code_simp
  then show "n \<le> 32 \<Longrightarrow> addr32 (mask_bytes n 4) = NOT (mask (32 - n))" by simp
qed

lemma length_mask_bytes [simp]: "length (mask_bytes n k) = k"
  by (induction n k rule: mask_bytes.induct) auto

lemma length_mask_ip [simp]: "length (mask_ip q m) = min (length q) (length m)"
  by (simp add: mask_ip_def)

lemma addr32_mask_ip: "length q = 4 \<Longrightarrow> length m = 4 \<Longrightarrow> addr32 (mask_ip q m) = addr32 q AND addr32 m"
  by (auto elim!: length4E simp: addr32_def mask_ip_def be32_and)

lemma addr32_inj: "length q = 4 \<Longrightarrow> length r = 4 \<Longrightarrow> addr32 q = addr32 r \<longleftrightarrow> q = r"
  by (auto elim!: length4E simp: addr32_def be32_inj)

lemma and_not_mask_eq: "x AND NOT (mask k) = y AND NOT (mask k) \<longleftrightarrow> drop_bit k x = drop_bit k (y :: u32)"
proof -
  have "w AND NOT (mask k) = push_bit k (drop_bit k w)" for w :: u32
    by (rule bit_word_eqI) (auto simp: bit_simps)
  moreover have "drop_bit k (w AND NOT (mask k)) = drop_bit k w" for w :: u32
    by (rule bit_word_eqI) (auto simp: bit_simps dest: bit_imp_le_length)
  ultimately show ?thesis by metis
qed

lemma mask_ip_eq:
  assumes "length q = 4" "length r = 4" "n \<le> 32"
  shows "mask_ip (mask_ip q (mask_bytes n 4)) (mask_bytes n 4) = mask_ip r (mask_bytes n 4) \<longleftrightarrow>
    drop_bit (32 - n) (addr32 q) = drop_bit (32 - n) (addr32 r)"
proof -
  let ?m = "mask_bytes n 4"
  have "mask_ip (mask_ip q ?m) ?m = mask_ip r ?m \<longleftrightarrow>
      addr32 (mask_ip (mask_ip q ?m) ?m) = addr32 (mask_ip r ?m)"
    using assms by (simp add: addr32_inj)
  also have "\<dots> \<longleftrightarrow> addr32 q AND NOT (mask (32 - n)) = addr32 r AND NOT (mask (32 - n))"
    using assms by (simp add: addr32_mask_ip addr32_mask and.assoc)
  finally show ?thesis
    by (simp add: and_not_mask_eq)
qed

lemma contains_dotted:
  assumes "length q = 4" "n \<le> 32"
  shows "net_contains \<lparr>net_ip = mask_ip q (mask_bytes n 4), net_mask = mask_bytes n 4\<rparr> ip \<longleftrightarrow>
    (\<exists>r. to4 ip = Some r \<and> drop_bit (32 - n) (addr32 q) = drop_bit (32 - n) (addr32 r))"
proof (cases "to4 ip")
  case None
  then have "length ip \<noteq> 4" by (auto simp: to4_def split: if_splits)
  with None assms show ?thesis
    by (simp add: net_contains_def to4_def [of "mask_ip q (mask_bytes n 4)"] Let_def)
next
  case (Some r)
  then have "length r = 4" by (auto simp: to4_def split: if_splits)
  with Some assms show ?thesis
    by (simp add: net_contains_def to4_def [of "mask_ip q (mask_bytes n 4)"] Let_def mask_ip_eq)
qed

section \<open>Properties\<close>

lemma block_source_cases:
  "block_source nft ip reason b = (b', r) \<Longrightarrow>
   bl_enforce b' = bl_enforce b \<and> bl_whitelist b' = bl_whitelist b \<and> bl_ttl b' = bl_ttl b"
  by (auto simp: block_source_def nftBlock_def Let_def split: option.splits if_splits prod.splits)

text \<open>If the configuration whitelists \<open>q/n\<close>, a source whose address agrees with \<open>q\<close> in the first
  \<open>n\<close> bits is skipped.\<close>

lemma whitelist_skips:
  assumes "dotted q @ CHR ''/'' # itoa n \<in> set (dc_whitelist cfg)" "length q = 4" "n \<le> 32"
    and "length r = 4" "drop_bit (32 - n) (addr32 r) = drop_bit (32 - n) (addr32 q)"
    and "bl_whitelist b = bl_whitelist (newBlocker cfg)"
  shows "block_source nft (dotted r) reason b = (b, None)"
proof -
  let ?net = "\<lparr>net_ip = mask_ip q (mask_bytes n 4), net_mask = mask_bytes n 4\<rparr>"
  have "?net \<in> set (bl_whitelist b)"
    using assms(1) parseCIDR_dotted [OF assms(2,3)]
    by (force simp: assms(6) newBlocker_def withDefaults_def Let_def map_filter_def image_iff)
  moreover have "net_contains ?net (v4_prefix @ r)"
    using assms by (simp add: contains_dotted)
  ultimately have "whitelisted b (v4_prefix @ r)"
    by (auto simp: whitelisted_def)
  with assms(4) show ?thesis
    by (simp add: block_source_def)
qed

lemma map_filter_all: "\<forall>x \<in> set xs. f x = None \<Longrightarrow> List.map_filter f xs = []"
  by (induction xs) (auto simp: map_filter_def)

text \<open>C963. A bare IPv4-mapped entry protects nothing: it is completed with \<open>/32\<close>, which the parser
  reads over 128 bits, so the source written in the same way is blocked all the same.\<close>

theorem mapped_entry_useless:
  "bl_whitelist (newBlocker (example_config\<lparr>dc_whitelist := [''::ffff:10.0.0.5'']\<rparr>)) \<noteq> [] \<and>
   snd (block_source nft ''::ffff:10.0.0.5'' reason
     (newBlocker (example_config\<lparr>dc_whitelist := [''::ffff:10.0.0.5'']\<rparr>))) \<noteq> None"
proof -
  let ?b = "newBlocker (example_config\<lparr>dc_whitelist := [''::ffff:10.0.0.5'']\<rparr>)"
  have "bl_whitelist ?b \<noteq> []" by code_simp
  moreover have "parseIP ''::ffff:10.0.0.5'' = Some (v4_prefix @ [10, 0, 0, 5])" by code_simp
  moreover have "\<not> whitelisted ?b (v4_prefix @ [10, 0, 0, 5])" by code_simp
  moreover have "\<not> bl_enforce ?b" by code_simp
  ultimately show ?thesis
    by (simp add: block_source_def)
qed

text \<open>The firewall commands a state has run are consistent with its flag.\<close>

fun all_ok :: "nft \<Rightarrow> string list list \<Rightarrow> string list list \<Rightarrow> bool" where
  "all_ok nft done [] \<longleftrightarrow> True"
| "all_ok nft done (c # cs) \<longleftrightarrow> nft done c = None \<and> all_ok nft (done @ [c]) cs"

definition prepared :: "nft \<Rightarrow> blocker \<Rightarrow> bool" where
  "prepared nft b \<longleftrightarrow> (bl_ensured b \<longrightarrow>
     (\<exists>pre post. bl_done b = pre @ setup_commands @ post \<and> all_ok nft pre setup_commands))"

lemma ensure_ok: "ensure nft dn cs = (dn', None) \<Longrightarrow> dn' = dn @ cs \<and> all_ok nft dn cs"
  by (induction nft dn cs rule: ensure.induct) (auto split: option.splits)

lemma ensure_failed: "ensure nft dn cs = (dn', Some err) \<Longrightarrow> dn' \<noteq> [] \<and> last dn' \<in> set cs"
  by (induction nft dn cs rule: ensure.induct) (auto split: option.splits)

lemma add_not_setup: "add_command b q \<notin> set setup_commands"
  by (simp add: add_command_def setup_commands_def)

lemma nftBlock_cases:
  assumes "nftBlock nft ip b = (b', r)"
  obtains (v6) "to4 ip = None" "b' = b" "r \<noteq> None"
  | (failed) dn where "\<not> bl_ensured b" "b' = b\<lparr>bl_done := dn\<rparr>" "r \<noteq> None"
      "dn \<noteq> []" "last dn \<in> set setup_commands"
  | (add) q dn where "to4 ip = Some q" "b' = b\<lparr>bl_ensured := True, bl_done := dn @ [add_command b q]\<rparr>"
      "r = None \<longleftrightarrow> nft dn (add_command b q) = None"
      "bl_ensured b \<and> dn = bl_done b \<or>
       \<not> bl_ensured b \<and> dn = bl_done b @ setup_commands \<and> all_ok nft (bl_done b) setup_commands"
proof (cases "to4 ip")
  case None
  with assms v6 show ?thesis by (auto simp: nftBlock_def)
next
  case (Some q)
  obtain dn e where dn: "(if bl_ensured b then (bl_done b, None) else ensure nft (bl_done b) setup_commands) = (dn, e)"
    by fastforce
  show ?thesis
  proof (cases e)
    case (Some err)
    then have f: "\<not> bl_ensured b" "b' = b\<lparr>bl_done := dn\<rparr>" "r = Some err"
      using assms dn \<open>to4 ip = Some q\<close> by (auto simp: nftBlock_def split: if_splits)
    with dn Some have "dn \<noteq> [] \<and> last dn \<in> set setup_commands"
      by (auto dest: ensure_failed)
    with f failed show ?thesis by blast
  next
    case None
    then have res: "b' = b\<lparr>bl_ensured := True, bl_done := dn @ [add_command b q]\<rparr>"
      "r = None \<longleftrightarrow> nft dn (add_command b q) = None"
      using assms dn Some by (auto simp: nftBlock_def Let_def split: option.splits)
    have "bl_ensured b \<and> dn = bl_done b \<or>
       \<not> bl_ensured b \<and> dn = bl_done b @ setup_commands \<and> all_ok nft (bl_done b) setup_commands"
      using dn None by (cases "bl_ensured b") (auto dest: ensure_ok)
    from add [OF Some res(1,2) this] show ?thesis .
  qed
qed

text \<open>Before the command that adds a source, the set-up has succeeded.\<close>

lemma added_prepared:
  assumes "prepared nft b"
    and "bl_ensured b \<and> dn = bl_done b \<or>
       \<not> bl_ensured b \<and> dn = bl_done b @ setup_commands \<and> all_ok nft (bl_done b) setup_commands"
  shows "\<exists>p post. dn = p @ setup_commands @ post \<and> all_ok nft p setup_commands"
  using assms(2)
proof
  assume d: "\<not> bl_ensured b \<and> dn = bl_done b @ setup_commands \<and> all_ok nft (bl_done b) setup_commands"
  show ?thesis
    by (rule exI [of _ "bl_done b"], rule exI [of _ "[]"]) (use d in simp)
qed (use assms(1) in \<open>auto simp: prepared_def\<close>)

lemma nftBlock_prepared:
  assumes "prepared nft b" "nftBlock nft ip b = (b', r)"
  shows "prepared nft b'"
  using assms(2)
proof (cases rule: nftBlock_cases)
  case (add q dn)
  then obtain p post where "dn = p @ setup_commands @ post" "all_ok nft p setup_commands"
    using added_prepared [OF assms(1)] by blast
  with add(2) show ?thesis
    unfolding prepared_def by (intro impI exI [of _ p] exI [of _ "post @ [add_command b q]"]) simp
qed (use assms(1) in \<open>auto simp: prepared_def\<close>)

lemma prepared_step: "prepared nft b \<Longrightarrow> prepared nft (fst (block_source nft ip reason b))"
  by (auto simp: block_source_def split: option.splits prod.splits intro: nftBlock_prepared)

lemma prepared_new: "prepared nft (newBlocker cfg)"
  by (simp add: prepared_def newBlocker_def Let_def)

lemma block_event_enforced [simp]:
  "ev_fields (block_event b ipStr reason enforced err) ''enforced'' = Some (FBool enforced)"
  by (cases err) (simp_all add: block_event_def map_add_def)

text \<open>C33. The event tells the truth about the firewall: a block event says \<open>enforced\<close> exactly when
  enforcement is on and the command that adds the source, with the configured timeout, has run and
  succeeded, after a successful set-up of the table, set, chain and rule.  In alert-only mode no
  command runs at all.\<close>

theorem enforced_is_true:
  assumes "block_source nft ipStr reason b = (b', Some ev)" "prepared nft b"
  shows "(ev_fields ev ''enforced'' = Some (FBool True) \<longleftrightarrow>
      bl_enforce b \<and> (\<exists>ip q pre p post. parseIP ipStr = Some ip \<and> to4 ip = Some q \<and>
        bl_done b' = pre @ [add_command b q] \<and> nft pre (add_command b q) = None \<and>
        pre = p @ setup_commands @ post \<and> all_ok nft p setup_commands)) \<and>
    (bl_enforce b \<or> bl_done b' = bl_done b)"
proof -
  obtain ip where ip: "parseIP ipStr = Some ip" "\<not> whitelisted b ip"
    using assms(1) by (auto simp: block_source_def split: option.splits if_splits)
  show ?thesis
  proof (cases "bl_enforce b")
    case False
    with assms(1) ip have "b' = b" "ev = block_event b ipStr reason False None"
      by (auto simp: block_source_def)
    with False show ?thesis by simp
  next
    case True
    obtain r where r: "nftBlock nft ip b = (b', r)" "ev = block_event b ipStr reason (r = None) r"
      using assms(1) ip True by (auto simp: block_source_def split: option.splits prod.splits)
    from r(1) show ?thesis
    proof (cases rule: nftBlock_cases)
      case v6
      with r(2) ip(1) True show ?thesis by auto
    next
      case (failed dn)
      then have "last (bl_done b') \<noteq> add_command b q" for q
        using add_not_setup by auto
      then have "bl_done b' \<noteq> pre @ [add_command b q]" for pre q
        by (metis last_snoc)
      with failed r(2) True show ?thesis by auto
    next
      case (add q dn)
      then obtain p post where p: "dn = p @ setup_commands @ post" "all_ok nft p setup_commands"
        using added_prepared [OF assms(2)] by blast
      from add r(2) ip(1) p True show ?thesis
        by auto
    qed
  qed
qed

section \<open>Examples\<close>

definition example_enforcing :: defense_config where
  "example_enforcing = example_config\<lparr>dc_enforce := True, dc_whitelist := [''10.0.0.0/8'']\<rparr>"

lemma example_address: "dotted [10, 1, 2, 3] = ''10.1.2.3''" "dotted [10, 0, 0, 0] @ CHR ''/'' # itoa 8 = ''10.0.0.0/8''"
  "dotted [192, 0, 2, 7] = ''192.0.2.7''"
  by code_simp+

lemma enforced_is_true_witness:
  "\<exists>b' ev. block_source (\<lambda>_ _. None) ''192.0.2.7'' ''scan'' (newBlocker example_enforcing) = (b', Some ev) \<and>
     ev_fields ev ''enforced'' = Some (FBool True) \<and>
     last (bl_done b') = add_command (newBlocker example_enforcing) [192, 0, 2, 7]"
proof -
  let ?b = "newBlocker example_enforcing"
  have ip: "parseIP ''192.0.2.7'' = Some (v4_prefix @ [192, 0, 2, 7])"
    using parseIP_dotted [of "[192, 0, 2, 7]"] by (simp add: example_address)
  have en: "bl_enforce ?b"
    by (simp add: newBlocker_def Let_def withDefaults_def example_enforcing_def)
  have "\<not> whitelisted ?b (v4_prefix @ [192, 0, 2, 7])"
    by code_simp
  moreover have "to4 (v4_prefix @ [192, 0, 2, 7]) = Some [192, 0, 2, 7]" by simp
  moreover have "\<not> bl_ensured ?b" "ensure (\<lambda>_ _. None) (bl_done ?b) setup_commands = (bl_done ?b @ setup_commands, None)"
    by (simp_all add: newBlocker_def Let_def setup_commands_def)
  ultimately obtain b' ev where r: "block_source (\<lambda>_ _. None) ''192.0.2.7'' ''scan'' ?b = (b', Some ev)"
    "ev_fields ev ''enforced'' = Some (FBool True)"
    using en by (simp add: block_source_def ip nftBlock_def Let_def)
  from enforced_is_true [OF r(1) prepared_new] r(2) obtain ipp q pre where
    q: "parseIP ''192.0.2.7'' = Some ipp" "to4 ipp = Some q" "bl_done b' = pre @ [add_command ?b q]"
    by blast
  then have "q = [192, 0, 2, 7]" by (auto simp: ip)
  with q r show ?thesis by auto
qed

end
