(* ===== verification/Event_Bus.thy ===== *)
theory Event_Bus
  imports Event_Ring Blocker
begin

text \<open>
  The event pipeline of a running instance: the bus of \<open>internal/events/events.go\<close> with the sinks
  \<open>run.go\<close> registers on it.  The detector is one of the sinks, and the blocker it calls emits
  events on the same bus, so \<open>Emit\<close> re-enters itself.  The nesting is modelled with fuel:
  \<open>emit nft 0\<close> is \<open>None\<close>; \<open>emit_depth\<close> shows that a depth of 2 is enough for every event, every
  list of sinks and every answer of the firewall.
\<close>

section \<open>Model\<close>

datatype sink =
    File_Sink file_sink
  | Syslog_Sink syslog_sink
  | Ring_Sink ring
  | Memory_Sink "event list"
  | Detector_Sink detector

fun sink_name :: "sink \<Rightarrow> string" where
  "sink_name (File_Sink s) = ''ndjson-file''"
| "sink_name (Syslog_Sink s) = ''syslog''"
| "sink_name (Ring_Sink r) = ''control-ring''"
| "sink_name (Memory_Sink m) = ''memory''"
| "sink_name (Detector_Sink d) = ''detector''"

text \<open>The world of the bus: its sinks, the blocker behind the detectors, the clock (\<open>w_clock n\<close> is
  the \<open>n\<close>-th reading of it) and what was handed to \<open>onError\<close>.\<close>

record world =
  w_sinks :: "sink list"
  w_blocker :: blocker
  w_clock :: "nat \<Rightarrow> time"
  w_reads :: nat
  w_errors :: "(string \<times> string) list"

definition set_sink :: "nat \<Rightarrow> sink \<Rightarrow> world \<Rightarrow> world" where
  "set_sink i s w = w\<lparr>w_sinks := (w_sinks w)[i := s]\<rparr>"

text \<open>\<open>Write\<close> of a sink that keeps its state to itself.\<close>

fun plain_write :: "event \<Rightarrow> sink \<Rightarrow> sink \<times> string option" where
  "plain_write e (File_Sink s) = (case file_write s e of (s', r) \<Rightarrow> (File_Sink s', r))"
| "plain_write e (Syslog_Sink s) = (case syslog_write s e of (s', r) \<Rightarrow> (Syslog_Sink s', r))"
| "plain_write e (Ring_Sink s) = (case ring_write s e of (s', r) \<Rightarrow> (Ring_Sink s', r))"
| "plain_write e (Memory_Sink s) = (case memory_write s e of (s', r) \<Rightarrow> (Memory_Sink s', r))"
| "plain_write e (Detector_Sink d) = (Detector_Sink d, None)"

text \<open>The \<open>Write\<close> of the \<open>i\<close>-th sink; \<open>re_emit\<close> is the global \<open>Emit\<close> the blocker calls.\<close>

definition write_sink :: "(event \<Rightarrow> world \<Rightarrow> world option) \<Rightarrow> nft \<Rightarrow> event \<Rightarrow> nat \<Rightarrow> world \<Rightarrow> (world \<times> string option) option" where
  "write_sink re_emit nft e i w =
     (case w_sinks w ! i of
        Detector_Sink d \<Rightarrow>
          (case detector_write (w_clock w (w_reads w)) e d of
             (d', None) \<Rightarrow> Some (set_sink i (Detector_Sink d') w, None)
           | (d', Some (ip, reason)) \<Rightarrow>
               (case block_source nft ip reason (w_blocker w) of
                  (b, None) \<Rightarrow> Some ((set_sink i (Detector_Sink d') w)\<lparr>w_blocker := b\<rparr>, None)
                | (b, Some be) \<Rightarrow>
                    map_option (\<lambda>w'. (w', None))
                      (re_emit be ((set_sink i (Detector_Sink d') w)\<lparr>w_blocker := b\<rparr>))))
      | s \<Rightarrow> (case plain_write e s of (s', r) \<Rightarrow> Some (set_sink i s' w, r)))"

definition report :: "string \<Rightarrow> string option \<Rightarrow> world \<Rightarrow> world" where
  "report name r w = (case r of None \<Rightarrow> w | Some err \<Rightarrow> w\<lparr>w_errors := w_errors w @ [(name, err)]\<rparr>)"

fun deliver :: "(event \<Rightarrow> world \<Rightarrow> world option) \<Rightarrow> nft \<Rightarrow> event \<Rightarrow> nat list \<Rightarrow> world \<Rightarrow> world option" where
  "deliver re_emit nft e [] w = Some w"
| "deliver re_emit nft e (i # is) w =
     (case write_sink re_emit nft e i w of
        None \<Rightarrow> None
      | Some (w', r) \<Rightarrow> deliver re_emit nft e is (report (sink_name (w_sinks w ! i)) r w'))"

fun emit :: "nft \<Rightarrow> nat \<Rightarrow> event \<Rightarrow> world \<Rightarrow> world option" where
  "emit nft 0 e w = None"
| "emit nft (Suc n) e w =
     deliver (emit nft n) nft (stamp (w_clock w (w_reads w)) e) [0..<length (w_sinks w)]
       (if ev_time e = 0 then w\<lparr>w_reads := w_reads w + 1\<rparr> else w)"

fun emit_all :: "nft \<Rightarrow> event list \<Rightarrow> world \<Rightarrow> world option" where
  "emit_all nft [] w = Some w"
| "emit_all nft (e # es) w = (case emit nft 2 e w of None \<Rightarrow> None | Some w' \<Rightarrow> emit_all nft es w')"

text \<open>The pipeline \<open>run\<close> builds: the sinks of the configuration (the event log unless another sink is
  chosen; the subsystem cannot be switched off), the control ring if the control plane is on, then
  the detector.\<close>

definition run_events_config :: "events_config \<Rightarrow> events_config" where
  "run_events_config cfg =
     (let c = cfg\<lparr>ec_enabled := True\<rparr>
      in if \<not> ec_jsonFile c \<and> \<not> sc_enabled (ec_syslog c) then c\<lparr>ec_jsonFile := True\<rparr> else c)"

definition run_pipeline ::
  "(string \<Rightarrow> bool) \<Rightarrow> (sink_spec \<Rightarrow> sink) \<Rightarrow> events_config \<Rightarrow> string \<Rightarrow> bool \<Rightarrow> defense_config \<Rightarrow>
   string + sink list \<times> blocker" where
  "run_pipeline open_file env ecfg logDir control dcfg =
     (case events_init open_file (run_events_config ecfg) logDir of
        Inl err \<Rightarrow> Inl err
      | Inr None \<Rightarrow> Inr ([], newBlocker dcfg)
      | Inr (Some specs) \<Rightarrow>
          Inr (map env specs @ (if control then [Ring_Sink (newRing 200)] else []) @ [Detector_Sink (newDetector dcfg)],
               newBlocker dcfg))"

text \<open>Neither \<open>events.enabled\<close> nor \<open>defense.enabled\<close> has any effect on it.\<close>

lemma run_pipeline_switches:
  "run_pipeline open_file env (ecfg\<lparr>ec_enabled := x\<rparr>) logDir control (dcfg\<lparr>dc_enabled := y\<rparr>) =
   run_pipeline open_file env ecfg logDir control dcfg"
proof -
  have "newDetector (dcfg\<lparr>dc_enabled := y\<rparr>) = newDetector dcfg" "newBlocker (dcfg\<lparr>dc_enabled := y\<rparr>) = newBlocker dcfg"
    "run_events_config (ecfg\<lparr>ec_enabled := x\<rparr>) = run_events_config ecfg"
    by (simp_all add: newDetector_def newBlocker_def withDefaults_def run_events_config_def Let_def)
  then show ?thesis by (simp only: run_pipeline_def)
qed

text \<open>So every running instance has a bus, with the detector as its last sink.\<close>

lemma run_pipeline_detector:
  "run_pipeline open_file env ecfg logDir control dcfg = Inr (ss, b) \<Longrightarrow> ss \<noteq> [] \<and> last ss = Detector_Sink (newDetector dcfg)"
  by (auto simp: run_pipeline_def run_events_config_def events_init_def Let_def split: sum.splits if_splits)

section \<open>The feedback path ends\<close>

fun is_detector :: "sink \<Rightarrow> bool" where
  "is_detector (Detector_Sink d) = True"
| "is_detector _ = False"

lemma write_sink_plain:
  "\<not> is_detector (w_sinks w ! i) \<Longrightarrow>
   write_sink re nft e i w =
     Some (set_sink i (fst (plain_write e (w_sinks w ! i))) w, snd (plain_write e (w_sinks w ! i)))"
  by (cases "w_sinks w ! i") (auto simp: write_sink_def split: prod.splits)

text \<open>No sink re-emits a \<open>Block\<close> event.\<close>

lemma write_sink_block:
  assumes "ev_type e = Block"
  shows "write_sink re nft e i w =
    Some (set_sink i (fst (plain_write e (w_sinks w ! i))) w, snd (plain_write e (w_sinks w ! i)))"
proof (cases "is_detector (w_sinks w ! i)")
  case True
  with assms show ?thesis
    by (cases "w_sinks w ! i") (simp_all add: write_sink_def detector_write_def)
qed (simp add: write_sink_plain)

lemma deliver_block_Some: "ev_type e = Block \<Longrightarrow> \<exists>w'. deliver re nft e is w = Some w'"
  by (induction "is" arbitrary: w) (simp_all add: write_sink_block)

lemma deliver_block_eq: "ev_type e = Block \<Longrightarrow> deliver re nft e is w = deliver re' nft e is w"
  by (induction "is" arbitrary: w) (simp_all add: write_sink_block)

lemma emit_block_Some: "ev_type e = Block \<Longrightarrow> \<exists>w'. emit nft (Suc n) e w = Some w'"
  by (simp add: deliver_block_Some)

lemma emit_block_eq: "ev_type e = Block \<Longrightarrow> emit nft (Suc n) e w = emit nft (Suc m) e w"
  using deliver_block_eq [of "stamp (w_clock w (w_reads w)) e" "emit nft n" nft _ _ "emit nft m"] by simp

text \<open>So two handlers that agree on \<open>Block\<close> events, and return on them, cannot be told apart.\<close>

lemma write_sink_eq:
  assumes "\<And>be w. ev_type be = Block \<Longrightarrow> re be w = re' be w"
  shows "write_sink re nft e i w = write_sink re' nft e i w"
proof (cases "w_sinks w ! i")
  case (Detector_Sink d)
  obtain d' req where d': "detector_write (w_clock w (w_reads w)) e d = (d', req)" by fastforce
  show ?thesis
  proof (cases req)
    case (Some q)
    obtain ip reason where q: "q = (ip, reason)" by fastforce
    obtain b be where b: "block_source nft ip reason (w_blocker w) = (b, be)" by fastforce
    show ?thesis
      using Detector_Sink d' Some q b assms blk.emits_block [of nft ip reason "w_blocker w" b]
      by (cases be) (simp_all add: write_sink_def)
  qed (simp add: write_sink_def Detector_Sink d')
qed (simp_all add: write_sink_def)

lemma write_sink_Some:
  assumes "\<And>be w. ev_type be = Block \<Longrightarrow> \<exists>w'. re be w = Some w'"
  shows "\<exists>r. write_sink re nft e i w = Some r"
proof (cases "w_sinks w ! i")
  case (Detector_Sink d)
  obtain d' req where d': "detector_write (w_clock w (w_reads w)) e d = (d', req)" by fastforce
  show ?thesis
  proof (cases req)
    case (Some q)
    obtain ip reason where q: "q = (ip, reason)" by fastforce
    obtain b be where b: "block_source nft ip reason (w_blocker w) = (b, be)" by fastforce
    show ?thesis
    proof (cases be)
      case (Some ev)
      with b have "ev_type ev = Block" using blk.emits_block by blast
      from assms [OF this] obtain w' where
        "re ev ((set_sink i (Detector_Sink d') w)\<lparr>w_blocker := b\<rparr>) = Some w'" by blast
      then show ?thesis
        using Detector_Sink d' \<open>req = Some q\<close> q b Some by (simp add: write_sink_def)
    qed (use Detector_Sink d' Some q b in \<open>simp add: write_sink_def\<close>)
  qed (simp add: write_sink_def Detector_Sink d')
qed (auto simp: write_sink_def split: prod.splits)

lemma deliver_eq:
  assumes "\<And>be w. ev_type be = Block \<Longrightarrow> re be w = re' be w"
  shows "deliver re nft e is w = deliver re' nft e is w"
  by (induction "is" arbitrary: w) (simp_all add: write_sink_eq [of re re', OF assms] split: option.splits)

lemma deliver_Some:
  assumes "\<And>be w. ev_type be = Block \<Longrightarrow> \<exists>w'. re be w = Some w'"
  shows "\<exists>w'. deliver re nft e is w = Some w'"
proof (induction "is" arbitrary: w)
  case (Cons i "is")
  obtain w1 r where "write_sink re nft e i w = Some (w1, r)"
    using write_sink_Some [of re, OF assms] by fastforce
  with Cons show ?case by simp
qed simp

lemma emit_two: "emit nft (Suc (Suc n)) e w = emit nft 2 e w"
  unfolding numeral_2_eq_2 emit.simps(2) [of nft "Suc n"] emit.simps(2) [of nft "Suc 0"]
  by (rule deliver_eq) (rule emit_block_eq)

lemma emit_two_Some: "\<exists>w'. emit nft 2 e w = Some w'"
  unfolding numeral_2_eq_2 emit.simps(2) [of nft "Suc 0"]
  by (rule deliver_Some) (rule emit_block_Some)

text \<open>C40. \<open>Emit\<close> returns, and the detector cannot feed itself: whatever sinks are registered and
  whatever the firewall answers, two levels of nesting are enough for any event, and more fuel
  changes nothing.\<close>

theorem emit_returns:
  "\<exists>w'. emit nft 2 e w = Some w' \<and> (\<forall>n. emit nft (n + 2) e w = Some w')"
  using emit_two_Some [of nft e w] by (metis add_2_eq_Suc' emit_two)

section \<open>What a running pipeline records\<close>

text \<open>What a sink has on record.\<close>

fun on_record :: "sink \<Rightarrow> event list" where
  "on_record (File_Sink s) = fs_lines s"
| "on_record (Syslog_Sink s) = map snd (sl_frames s)"
| "on_record (Ring_Sink r) = rb_buf r"
| "on_record (Memory_Sink m) = m"
| "on_record (Detector_Sink d) = []"

definition plain_sinks :: "sink list \<Rightarrow> bool" where
  "plain_sinks ss \<longleftrightarrow> (\<forall>s \<in> set ss. \<not> is_detector s)"

definition write_plain :: "event \<Rightarrow> sink list \<Rightarrow> sink list" where
  "write_plain e ss = map (\<lambda>s. fst (plain_write e s)) ss"

lemma is_detector_plain [simp]: "is_detector (fst (plain_write e s)) = is_detector s"
  by (cases s) (auto split: prod.splits)

lemma plain_sinks_write [simp]: "plain_sinks (write_plain e ss) = plain_sinks ss"
  by (simp add: plain_sinks_def write_plain_def)

lemma length_write_plain [simp]: "length (write_plain e ss) = length ss"
  by (simp add: write_plain_def)

definition failures :: "event \<Rightarrow> sink list \<Rightarrow> (string \<times> string) list" where
  "failures e ss =
     List.map_filter (\<lambda>s. map_option (Pair (sink_name s)) (snd (plain_write e s))) ss"

lemma deliver_append:
  "deliver re nft e (is @ js) w =
     (case deliver re nft e is w of None \<Rightarrow> None | Some w' \<Rightarrow> deliver re nft e js w')"
  by (induction "is" arbitrary: w) (auto split: option.splits)

lemma set_sink_mid:
  "w_sinks w = pre @ s # post \<Longrightarrow> set_sink (length pre) s' w = w\<lparr>w_sinks := pre @ s' # post\<rparr>"
  by (simp add: set_sink_def)

lemma report_eq:
  "report n r w = w\<lparr>w_errors := w_errors w @ (case r of None \<Rightarrow> [] | Some err \<Rightarrow> [(n, err)])\<rparr>"
  by (cases r) (simp_all add: report_def)

text \<open>Delivering to a stretch of sinks that keep to themselves.\<close>

lemma deliver_plain:
  assumes "\<forall>s \<in> set ss. \<not> is_detector s \<or> ev_type e = Block" "w_sinks w = pre @ ss @ post"
  shows "deliver re nft e [length pre..<length pre + length ss] w =
    Some (w\<lparr>w_sinks := pre @ write_plain e ss @ post, w_errors := w_errors w @ failures e ss\<rparr>)"
  using assms
proof (induction ss arbitrary: pre w)
  case Nil
  then show ?case by (simp add: write_plain_def failures_def)
next
  case (Cons s ss)
  let ?r = "plain_write e s"
  let ?w = "w\<lparr>w_sinks := (pre @ [fst ?r]) @ ss @ post,
    w_errors := w_errors w @ (case snd ?r of None \<Rightarrow> [] | Some err \<Rightarrow> [(sink_name s, err)])\<rparr>"
  have nth: "w_sinks w ! length pre = s"
    using Cons.prems(2) by simp
  have "write_sink re nft e (length pre) w = Some (set_sink (length pre) (fst ?r) w, snd ?r)"
    using Cons.prems(1) write_sink_block [of e re nft "length pre" w] write_sink_plain [of w "length pre"] nth
    by auto
  moreover have "set_sink (length pre) (fst ?r) w = w\<lparr>w_sinks := pre @ fst ?r # ss @ post\<rparr>"
    using Cons.prems(2) by (intro set_sink_mid [where s = s]) simp
  moreover have up: "[length pre..<length pre + length (s # ss)] =
      length pre # [length (pre @ [fst ?r])..<length (pre @ [fst ?r]) + length ss]"
    using upt_conv_Cons [of "length pre" "length pre + Suc (length ss)"] by simp
  moreover have "deliver re nft e [length (pre @ [fst ?r])..<length (pre @ [fst ?r]) + length ss] ?w =
      Some (?w\<lparr>w_sinks := (pre @ [fst ?r]) @ write_plain e ss @ post,
               w_errors := w_errors ?w @ failures e ss\<rparr>)"
    by (rule Cons.IH) (use Cons.prems in simp_all)
  ultimately show ?case
    by (simp add: nth report_eq write_plain_def failures_def map_filter_def split: option.splits)
qed

text \<open>The world after one event in a pipeline that ends with the detector.\<close>

definition after_event :: "nft \<Rightarrow> sink list \<Rightarrow> detector \<Rightarrow> event \<Rightarrow> world \<Rightarrow> world" where
  "after_event nft ss d e w =
     (let now = w_clock w (w_reads w);
          reads = (if ev_time e = 0 then w_reads w + 1 else w_reads w);
          now' = w_clock w reads;
          e' = stamp now e;
          (d', req) = detector_write now' e' d;
          ss1 = write_plain e' ss;
          w1 = w\<lparr>w_sinks := ss1 @ [Detector_Sink d'], w_reads := reads,
                 w_errors := w_errors w @ failures e' ss\<rparr>
      in case req of
           None \<Rightarrow> w1
         | Some (ip, reason) \<Rightarrow>
             (case block_source nft ip reason (w_blocker w) of
                (b, None) \<Rightarrow> w1\<lparr>w_blocker := b\<rparr>
              | (b, Some be) \<Rightarrow>
                  w1\<lparr>w_blocker := b, w_sinks := write_plain (stamp now' be) ss1 @ [Detector_Sink d'],
                     w_reads := reads + 1,
                     w_errors := w_errors w1 @ failures (stamp now' be) ss1\<rparr>))"

lemma block_source_time:
  "block_source nft ip reason b = (b', Some be) \<Longrightarrow> ev_time be = 0 \<and> ev_type be = Block"
  by (auto simp: block_source_def block_event_def blank_event_def split: option.splits if_splits prod.splits)

lemma emit_one_block:
  assumes "ev_type e = Block" "ev_time e = 0" "w_sinks w = ss"
  shows "emit nft (Suc n) e w =
    Some (w\<lparr>w_sinks := write_plain (stamp (w_clock w (w_reads w)) e) ss, w_reads := w_reads w + 1,
            w_errors := w_errors w @ failures (stamp (w_clock w (w_reads w)) e) ss\<rparr>)"
  using assms deliver_plain [of ss "stamp (w_clock w (w_reads w)) e" "w\<lparr>w_reads := w_reads w + 1\<rparr>" "[]" "[]"]
  by simp

lemma failures_detector [simp]: "failures e (ss @ [Detector_Sink d]) = failures e ss"
  by (simp add: failures_def map_filter_def)

lemma write_plain_detector [simp]:
  "write_plain e (ss @ [Detector_Sink d]) = write_plain e ss @ [Detector_Sink d]"
  by (simp add: write_plain_def)

lemma emit_after_event:
  assumes "plain_sinks ss" "w_sinks w = ss @ [Detector_Sink d]"
  shows "emit nft 2 e w = Some (after_event nft ss d e w)"
proof -
  let ?e = "stamp (w_clock w (w_reads w)) e"
  let ?w0 = "if ev_time e = 0 then w\<lparr>w_reads := w_reads w + 1\<rparr> else w"
  let ?w1 = "?w0\<lparr>w_sinks := write_plain ?e ss @ [Detector_Sink d], w_errors := w_errors w @ failures ?e ss\<rparr>"
  have first: "deliver (emit nft 1) nft ?e [0..<length ss] ?w0 = Some ?w1"
    using deliver_plain [of ss ?e ?w0 "[]" "[Detector_Sink d]"] assms by (auto simp: plain_sinks_def)
  obtain d' req where dw: "detector_write (w_clock w (w_reads ?w0)) ?e d = (d', req)" by fastforce
  have nth: "w_sinks ?w1 ! length ss = Detector_Sink d"
    by (simp add: nth_append)
  have set: "set_sink (length ss) (Detector_Sink d') ?w1 = ?w1\<lparr>w_sinks := write_plain ?e ss @ [Detector_Sink d']\<rparr>"
    using set_sink_mid [of ?w1 "write_plain ?e ss" "Detector_Sink d" "[]" "Detector_Sink d'"] by simp
  have "emit nft 2 e w = deliver (emit nft 1) nft ?e ([0..<length ss] @ [length ss]) ?w0"
    using assms(2) by (simp add: numeral_2_eq_2)
  also have "\<dots> = deliver (emit nft 1) nft ?e [length ss] ?w1"
    by (simp only: deliver_append first option.case)
  also have "\<dots> = Some (after_event nft ss d e w)"
  proof (cases req)
    case None
    then show ?thesis
      using nth set dw by (auto simp: write_sink_def after_event_def report_def Let_def)
  next
    case (Some q)
    obtain ip reason where q: "q = (ip, reason)" by fastforce
    obtain b be where b: "block_source nft ip reason (w_blocker w) = (b, be)" by fastforce
    show ?thesis
    proof (cases be)
      case None
      then show ?thesis
        using nth set dw b Some q by (auto simp: write_sink_def after_event_def report_def Let_def)
    next
      case (Some ev)
      then have "ev_time ev = 0" "ev_type ev = Block"
        using b block_source_time by blast+
      then show ?thesis
        using nth set dw b Some q \<open>req = Some q\<close>
        by (auto simp: write_sink_def after_event_def report_def Let_def emit_one_block simp del: emit.simps)
    qed
  qed
  finally show ?thesis .
qed

text \<open>What the detector's verdict on an event adds to the logs.\<close>

definition alarm :: "nft \<Rightarrow> detector \<Rightarrow> blocker \<Rightarrow> time \<Rightarrow> event \<Rightarrow> event list" where
  "alarm nft d b now e =
     (case snd (detector_write now e d) of
        None \<Rightarrow> []
      | Some (ip, reason) \<Rightarrow> (case snd (block_source nft ip reason b) of None \<Rightarrow> [] | Some be \<Rightarrow> [be]))"

lemma file_write_lines:
  "\<forall>n. fs_ok s n \<Longrightarrow> \<exists>s'. fst (plain_write e (File_Sink s)) = File_Sink s' \<and>
     fs_lines s' = fs_lines s @ [e] \<and> (\<forall>n. fs_ok s' n)"
  by (simp add: file_write_def Let_def)

text \<open>C20. The event log is complete and in order: with a log file that accepts its writes, one \<open>Emit\<close>
  appends the event with its time and severity filled in, and right after it the block event if
  the detector's verdict leads to one, whatever the other sinks do.\<close>

theorem event_log_complete:
  assumes "plain_sinks ss" "w_sinks w = ss @ [Detector_Sink d]"
    and "i < length ss" "ss ! i = File_Sink s" "\<forall>n. fs_ok s n"
    and "e' = stamp (w_clock w (w_reads w)) e"
    and "now' = w_clock w (if ev_time e = 0 then w_reads w + 1 else w_reads w)"
  shows "\<exists>w' s'. emit nft 2 e w = Some w' \<and> w_sinks w' ! i = File_Sink s' \<and>
    fs_lines s' = fs_lines s @ e' # map (stamp now') (alarm nft d (w_blocker w) now' e')"
proof -
  obtain s1 where s1: "write_plain e' ss ! i = File_Sink s1" "fs_lines s1 = fs_lines s @ [e']" "\<forall>n. fs_ok s1 n"
    using file_write_lines [OF assms(5), of e'] assms(3,4) by (auto simp: write_plain_def)
  obtain d' req where dw: "detector_write now' e' d = (d', req)" by fastforce
  have len: "i < length (write_plain e' ss)" using assms(3) by simp
  have em: "emit nft 2 e w = Some (after_event nft ss d e w)"
    using assms(1,2) by (rule emit_after_event)
  show ?thesis
  proof (cases req)
    case None
    then have "w_sinks (after_event nft ss d e w) ! i = File_Sink s1" "alarm nft d (w_blocker w) now' e' = []"
      using dw s1 len by (simp_all add: after_event_def alarm_def assms(6,7)[symmetric] nth_append)
    with em s1 show ?thesis by auto
  next
    case (Some q)
    obtain ip reason where q: "q = (ip, reason)" by fastforce
    obtain b be where b: "block_source nft ip reason (w_blocker w) = (b, be)" by fastforce
    show ?thesis
    proof (cases be)
      case None
      then have "w_sinks (after_event nft ss d e w) ! i = File_Sink s1" "alarm nft d (w_blocker w) now' e' = []"
        using dw s1 len Some q b by (simp_all add: after_event_def alarm_def assms(6,7)[symmetric] nth_append)
      with em s1 show ?thesis by auto
    next
      case (Some ev)
      obtain s2 where s2: "write_plain (stamp now' ev) (write_plain e' ss) ! i = File_Sink s2"
          "fs_lines s2 = fs_lines s1 @ [stamp now' ev]"
        using file_write_lines [OF s1(3), of "stamp now' ev"] len s1(1)
        by (auto simp: write_plain_def [of "stamp now' ev"])
      have "w_sinks (after_event nft ss d e w) ! i = File_Sink s2" "alarm nft d (w_blocker w) now' e' = [ev]"
        using dw s2 len Some \<open>req = Some q\<close> q b
        by (simp_all add: after_event_def alarm_def assms(6,7)[symmetric] nth_append Let_def)
      with em s1 s2 show ?thesis by auto
    qed
  qed
qed

section \<open>Protected sources\<close>

lemma detector_write_source: "detector_write now e d = (d', Some (ip, reason)) \<Longrightarrow> ip = ev_srcIP e"
  by (auto simp: detector_write_def Let_def split: if_splits)

lemma write_sink_blocker:
  assumes "\<And>reason. block_source nft (ev_srcIP e) reason (w_blocker w) = (w_blocker w, None)"
    and "write_sink re nft e i w = Some (w', r)"
  shows "w_blocker w' = w_blocker w"
proof (cases "w_sinks w ! i")
  case (Detector_Sink d)
  obtain d' req where dw: "detector_write (w_clock w (w_reads w)) e d = (d', req)" by fastforce
  show ?thesis
  proof (cases req)
    case (Some q)
    then obtain ip reason where "req = Some (ip, reason)" "ip = ev_srcIP e"
      using detector_write_source dw by (cases q) blast
    with assms Detector_Sink dw show ?thesis
      by (auto simp: write_sink_def set_sink_def)
  qed (use assms(2) Detector_Sink dw in \<open>auto simp: write_sink_def set_sink_def\<close>)
qed (use assms(2) in \<open>auto simp: write_sink_def set_sink_def split: prod.splits\<close>)

lemma deliver_blocker:
  assumes "\<And>reason. block_source nft (ev_srcIP e) reason (w_blocker w) = (w_blocker w, None)"
    and "deliver re nft e is w = Some w'"
  shows "w_blocker w' = w_blocker w"
  using assms
proof (induction "is" arbitrary: w)
  case (Cons i "is")
  obtain w1 r where w1: "write_sink re nft e i w = Some (w1, r)"
    using Cons.prems(2) by (auto split: option.splits)
  then have b: "w_blocker w1 = w_blocker w"
    using write_sink_blocker [OF Cons.prems(1)] by blast
  show ?case
    using Cons.IH [of "report (sink_name (w_sinks w ! i)) r w1"] Cons.prems w1
    by (simp add: report_eq b)
qed simp

text \<open>C6. A whitelisted source is safe from the whole pipeline: if \<open>q/n\<close> is whitelisted, no run of
  events whose sources all lie in that network, whatever the events, the sinks and the order, makes
  the blocker run a command.\<close>

theorem whitelisted_network_safe:
  assumes "dotted q @ CHR ''/'' # itoa n \<in> set (dc_whitelist cfg)" "length q = 4" "n \<le> 32"
    and "bl_whitelist (w_blocker w) = bl_whitelist (newBlocker cfg)"
    and "\<forall>e \<in> set es. \<exists>r. ev_srcIP e = dotted r \<and> length r = 4 \<and>
          drop_bit (32 - n) (addr32 r) = drop_bit (32 - n) (addr32 q)"
    and "emit_all nft es w = Some w'"
  shows "w_blocker w' = w_blocker w"
  using assms(4-)
proof (induction es arbitrary: w)
  case (Cons e es)
  obtain w1 where w1: "emit nft 2 e w = Some w1" "emit_all nft es w1 = Some w'"
    using Cons.prems(3) by (auto simp del: emit.simps split: option.splits)
  have skip: "block_source nft (ev_srcIP e) reason (w_blocker w) = (w_blocker w, None)" for reason
    using Cons.prems whitelist_skips [OF assms(1-3)] by auto
  have "w_blocker w1 = w_blocker w"
    using deliver_blocker [of nft "stamp (w_clock w (w_reads w)) e"
        "if ev_time e = 0 then w\<lparr>w_reads := w_reads w + 1\<rparr> else w" "emit nft (Suc 0)"
        "[0..<length (w_sinks w)]" w1] w1(1) skip
    by (simp add: numeral_2_eq_2 split: if_splits)
  with Cons.IH [of w1] Cons.prems w1(2) show ?case by simp
qed simp

section \<open>Examples\<close>

definition example_world :: "defense_config \<Rightarrow> world" where
  "example_world cfg =
     \<lparr>w_sinks = [File_Sink \<lparr>fs_lines = [], fs_writes = 0, fs_ok = \<lambda>_. True\<rparr>, Ring_Sink (newRing 200),
                 Detector_Sink (newDetector cfg)],
      w_blocker = newBlocker cfg, w_clock = \<lambda>n. 63900000000 * second + int n, w_reads = 0, w_errors = []\<rparr>"

lemma emit_all_Some: "\<exists>w'. emit_all nft es w = Some w'"
proof (induction es arbitrary: w)
  case (Cons e es)
  obtain w1 where "emit nft 2 e w = Some w1" using emit_two_Some by blast
  with Cons show ?case by (simp del: emit.simps)
qed simp

definition example_login :: "string \<Rightarrow> event" where
  "example_login ip = (blank_event AuthAttempt)\<lparr>ev_srcIP := ip\<rparr>"

lemma event_log_complete_witness:
  "\<exists>w' s'. emit (\<lambda>_ _. None) 2 (example_login ''192.0.2.7'') (example_world (example_config\<lparr>dc_score := 3\<rparr>)) = Some w' \<and>
     w_sinks w' ! 0 = File_Sink s' \<and> map ev_type (fs_lines s') = [AuthAttempt, Block]"
proof -
  let ?cfg = "example_config\<lparr>dc_score := 3\<rparr>"
  let ?w = "example_world ?cfg"
  let ?e = "stamp (w_clock ?w 0) (example_login ''192.0.2.7'')"
  have "map ev_type (alarm (\<lambda>_ _. None) (newDetector ?cfg) (newBlocker ?cfg) (63900000000 * second + 1) ?e) = [Block]"
    by code_simp
  moreover have "ev_time (example_login ''192.0.2.7'') = 0" "ev_type ?e = AuthAttempt"
    by (simp_all add: example_login_def blank_event_def)
  ultimately show ?thesis
    using event_log_complete [of "take 2 (w_sinks ?w)" ?w "newDetector ?cfg" 0
        "\<lparr>fs_lines = [], fs_writes = 0, fs_ok = \<lambda>_. True\<rparr>" ?e "example_login ''192.0.2.7''"
        "63900000000 * second + 1" "\<lambda>_ _. None"]
    by (auto simp: example_world_def plain_sinks_def comp_def simp del: emit.simps)
qed

lemma whitelisted_network_safe_witness:
  "\<exists>w'. emit_all (\<lambda>_ _. None) (replicate 9 (example_login ''10.1.2.3'')) (example_world example_enforcing) = Some w' \<and>
     bl_enforce (w_blocker w') \<and> bl_done (w_blocker w') = []"
proof -
  let ?w = "example_world example_enforcing"
  obtain w' where w': "emit_all (\<lambda>_ _. None) (replicate 9 (example_login ''10.1.2.3'')) ?w = Some w'"
    using emit_all_Some by blast
  have "drop_bit 24 (addr32 [10, 1, 2, 3]) = drop_bit 24 (addr32 [10, 0, 0, 0])"
    by code_simp
  then have "\<exists>r. ev_srcIP (example_login ''10.1.2.3'') = dotted r \<and> length r = 4 \<and>
      drop_bit (32 - 8) (addr32 r) = drop_bit (32 - 8) (addr32 [10, 0, 0, 0])"
    by (intro exI [of _ "[10, 1, 2, 3]"]) (simp add: example_address example_login_def blank_event_def)
  then have "\<forall>e \<in> set (replicate 9 (example_login ''10.1.2.3'')). \<exists>r. ev_srcIP e = dotted r \<and> length r = 4 \<and>
      drop_bit (32 - 8) (addr32 r) = drop_bit (32 - 8) (addr32 [10, 0, 0, 0])"
    by auto
  then have "w_blocker w' = w_blocker ?w"
    using whitelisted_network_safe [OF _ _ _ _ _ w', of "[10, 0, 0, 0]" 8 example_enforcing]
    by (simp add: example_address(2) example_enforcing_def example_world_def)
  with w' show ?thesis
    by (simp add: example_world_def newBlocker_def Let_def withDefaults_def example_enforcing_def)
qed

end
