(* ===== verification/Control_Server.thy ===== *)
theory Control_Server
  imports Control_Config Event_Bus
begin

text \<open>
  The control-plane server of \<open>internal/control/control.go\<close>: one request per connection, authorized,
  audited and dispatched (\<open>Server.handle\<close>, \<open>audit\<close>), and its wiring to a running instance
  (\<open>cmd/mimic/control_hooks.go\<close>).  Reading the peer's credentials and decoding the JSON request are
  inputs; the state \<open>'w\<close> the callbacks act on is a parameter until the instance fixes it.
\<close>

section \<open>Requests and responses\<close>

record request =
  rq_op :: string
  rq_n :: int
  rq_lines :: int
  rq_file :: string
  rq_patch :: "config_patch option"
  rq_dryRun :: bool

record status =
  sx_profile :: string
  sx_edition :: string
  sx_services :: "string list"
  sx_pid :: int
  sx_uptimeSec :: int
  sx_events :: nat

record profile_catalog =
  pc_names :: "string list"
  pc_families :: "(string \<times> string list) list"

datatype payload =
    Pong | StatusData status | EventsData "event list" | TailData log_tail
  | ProfilesData profile_catalog | ServicesData "string list" | SnapshotData config_snapshot
  | SetData config_set_result | MessageData string

record response =
  rs_ok :: bool
  rs_role :: string
  rs_error :: string
  rs_data :: "payload option"

definition refuse :: "string \<Rightarrow> string \<Rightarrow> response" where
  "refuse role err = \<lparr>rs_ok = False, rs_role = role, rs_error = err, rs_data = None\<rparr>"

definition grant :: "string \<Rightarrow> payload \<Rightarrow> response" where
  "grant role d = \<lparr>rs_ok = True, rs_role = role, rs_error = [], rs_data = Some d\<rparr>"

definition answer :: "string \<Rightarrow> ('d \<Rightarrow> payload) \<Rightarrow> string + 'd \<Rightarrow> response" where
  "answer role f r = (case r of Inl err \<Rightarrow> refuse role err | Inr d \<Rightarrow> grant role (f d))"

definition em_dash :: string where "em_dash = [CHR 0xE2, CHR 0x80, CHR 0x94]"

definition accessDeniedMessage :: "peer \<Rightarrow> string" where
  "accessDeniedMessage p =
     (if pe_userSID p \<noteq> [] then
        ''access denied '' @ em_dash @ '' Windows control plane requires BUILTIN'' @ [backslash] @ ''Administrators ''
        @ ''(if mimic.exe was rebuilt, restart mimic run so the control server picks up auth fixes; ''
        @ ''otherwise add rbac.roles for your user SID, or confirm whoami /user matches the elevated shell running ctl)''
      else ''access denied '' @ em_dash @ '' Linux control plane requires root (uid 0) or an rbac.roles entry in config'')"

section \<open>The server\<close>

text \<open>Callbacks; a nil one is \<open>None\<close>.\<close>

record 'w hooks =
  hk_getConfig :: "('w \<Rightarrow> string + config_snapshot) option"
  hk_setConfig :: "(config_patch \<Rightarrow> bool \<Rightarrow> 'w \<Rightarrow> 'w \<times> (string + config_set_result)) option"
  hk_listProfiles :: "('w \<Rightarrow> string + profile_catalog) option"
  hk_listServices :: "('w \<Rightarrow> string + string list) option"
  hk_restart :: "('w \<Rightarrow> 'w \<times> string option) option"
  hk_stop :: "('w \<Rightarrow> 'w \<times> string option) option"
  hk_tailLogFile :: "(string \<Rightarrow> int \<Rightarrow> 'w \<Rightarrow> string + log_tail) option"

record 'w server =
  sv_authz :: "peer \<Rightarrow> string \<Rightarrow> string option"
  sv_status :: "'w \<Rightarrow> status"
  sv_ring :: "'w \<Rightarrow> ring"
  sv_uptime :: "'w \<Rightarrow> int"
  sv_emit :: "event \<Rightarrow> 'w \<Rightarrow> 'w"
  sv_hooks :: "'w hooks option"

definition audit_event :: "peer \<Rightarrow> string \<Rightarrow> string \<Rightarrow> bool \<Rightarrow> event" where
  "audit_event p op role allowed =
     (blank_event Control)
       \<lparr>ev_severity := (if allowed then SevInfo else SevWarn), ev_service := ''control'',
        ev_message := (if allowed then ''control access granted'' else ''control access denied''),
        ev_fields := [''op'' \<mapsto> FStr op, ''role'' \<mapsto> FStr role, ''allowed'' \<mapsto> FBool allowed,
          ''peer_uid'' \<mapsto> FInt (uint (pe_uid p)), ''peer_gid'' \<mapsto> FInt (uint (pe_gid p)),
          ''peer_pid'' \<mapsto> FInt (pe_pid p), ''peer_user_sid'' \<mapsto> FStr (pe_userSID p),
          ''peer_is_admin'' \<mapsto> FBool (pe_isAdmin p), ''peer_group_count'' \<mapsto> FInt (int (length (pe_groupSIDs p)))]\<rparr>"

definition the_hook :: "'w server \<Rightarrow> ('w hooks \<Rightarrow> 'f option) \<Rightarrow> 'f option" where
  "the_hook sv h = (case sv_hooks sv of None \<Rightarrow> None | Some hk \<Rightarrow> h hk)"

text \<open>The cases of the operation switch.\<close>

datatype operation =
    Ping | Status | Logs | LogsFile | ProfilesList | ServicesList | ConfigGet | ConfigSet | ConfigValidate
  | Restart | Stop | Start | Unknown string

definition operations :: "(string \<times> operation) list" where
  "operations =
     [(''ping'', Ping), (''status'', Status), (''logs'', Logs), (''logs.file'', LogsFile),
      (''profiles.list'', ProfilesList), (''services.list'', ServicesList), (''config.get'', ConfigGet),
      (''config.set'', ConfigSet), (''config.validate'', ConfigValidate), (''services.restart'', Restart),
      (''services.stop'', Stop), (''services.start'', Start)]"

definition operation_of :: "string \<Rightarrow> operation" where
  "operation_of op = (case map_of operations op of None \<Rightarrow> Unknown op | Some x \<Rightarrow> x)"

definition unavailable :: "string \<Rightarrow> string \<Rightarrow> response" where
  "unavailable role op = refuse role (op @ '' not available'')"

definition scheduled :: "string \<Rightarrow> string \<Rightarrow> 'w \<times> string option \<Rightarrow> 'w \<times> response" where
  "scheduled role msg r =
     (case r of (w, Some err) \<Rightarrow> (w, refuse role err) | (w, None) \<Rightarrow> (w, grant role (MessageData msg)))"

definition run_set :: "'w server \<Rightarrow> string \<Rightarrow> bool \<Rightarrow> request \<Rightarrow> 'w \<Rightarrow> 'w \<times> response" where
  "run_set sv role dryRun rq w =
     (case the_hook sv hk_setConfig of
        None \<Rightarrow> (w, unavailable role ''config.set'')
      | Some f \<Rightarrow>
          (case rq_patch rq of
             None \<Rightarrow> (w, refuse role ''missing patch'')
           | Some p \<Rightarrow> (case f p dryRun w of (w', r) \<Rightarrow> (w', answer role SetData r))))"

text \<open>An authorized operation: the new state and the response.\<close>

fun run_operation :: "'w server \<Rightarrow> string \<Rightarrow> operation \<Rightarrow> request \<Rightarrow> 'w \<Rightarrow> 'w \<times> response" where
  "run_operation sv role Ping rq w = (w, grant role Pong)"
| "run_operation sv role Status rq w =
     (w, grant role (StatusData ((sv_status sv w)\<lparr>sx_uptimeSec := sv_uptime sv w, sx_events := ring_count (sv_ring sv w)\<rparr>)))"
| "run_operation sv role Logs rq w =
     (w, grant role (EventsData (the (ring_last (if rq_n rq \<le> 0 then 20 else rq_n rq) (sv_ring sv w)))))"
| "run_operation sv role LogsFile rq w =
     (w, case the_hook sv hk_tailLogFile of
           None \<Rightarrow> unavailable role ''logs.file''
         | Some f \<Rightarrow> answer role TailData (f (rq_file rq) (if rq_lines rq \<le> 0 then 50 else rq_lines rq) w))"
| "run_operation sv role ProfilesList rq w =
     (w, case the_hook sv hk_listProfiles of
           None \<Rightarrow> unavailable role ''profiles.list'' | Some f \<Rightarrow> answer role ProfilesData (f w))"
| "run_operation sv role ServicesList rq w =
     (w, case the_hook sv hk_listServices of
           None \<Rightarrow> unavailable role ''services.list'' | Some f \<Rightarrow> answer role ServicesData (f w))"
| "run_operation sv role ConfigGet rq w =
     (w, case the_hook sv hk_getConfig of
           None \<Rightarrow> unavailable role ''config.get'' | Some f \<Rightarrow> answer role SnapshotData (f w))"
| "run_operation sv role ConfigSet rq w = run_set sv role (rq_dryRun rq) rq w"
| "run_operation sv role ConfigValidate rq w = run_set sv role True rq w"
| "run_operation sv role Restart rq w =
     (case the_hook sv hk_restart of
        None \<Rightarrow> (w, unavailable role ''services.restart'')
      | Some f \<Rightarrow> scheduled role ''restart scheduled'' (f w))"
| "run_operation sv role Stop rq w =
     (case the_hook sv hk_stop of
        None \<Rightarrow> (w, unavailable role ''services.stop'')
      | Some f \<Rightarrow> scheduled role ''stop scheduled'' (f w))"
| "run_operation sv role Start rq w = (w, refuse role ''services.start not implemented'')"
| "run_operation sv role (Unknown op) rq w = (w, refuse role (''unknown op: '' @ op))"

text \<open>\<open>handle\<close>: \<open>cred\<close> is what \<open>peerCred\<close> returned (\<open>None\<close> for an error, with the zero peer) and
  \<open>rq\<close> the decoded request (\<open>None\<close> when it does not decode).\<close>

definition handle :: "'w server \<Rightarrow> peer option \<Rightarrow> request option \<Rightarrow> 'w \<Rightarrow> 'w \<times> response" where
  "handle sv cred rq w =
     (case rq of
        None \<Rightarrow> (w, refuse [] ''bad request'')
      | Some r \<Rightarrow>
          let p = (case cred of None \<Rightarrow> zero_peer | Some p \<Rightarrow> p);
              op = normalizeOp (rq_op r);
              role = sv_authz sv p op;
              w1 = sv_emit sv
                (audit_event p op (case role of None \<Rightarrow> [] | Some n \<Rightarrow> n) (role \<noteq> None \<and> cred \<noteq> None)) w
          in if cred = None then (w1, refuse [] ''peer authentication failed'')
             else (case role of
                     None \<Rightarrow> (w1, refuse [] (accessDeniedMessage p))
                   | Some n \<Rightarrow> run_operation sv n (operation_of op) r w1))"

section \<open>Lemmas\<close>

lemma refuse_sel [simp]: "rs_ok (refuse role err) = False" "rs_data (refuse role err) = None" "rs_role (refuse role err) = role"
  by (simp_all add: refuse_def)

lemma grant_sel [simp]: "rs_ok (grant role d)" "rs_role (grant role d) = role" "rs_data (grant role d) = Some d"
  by (simp_all add: grant_def)

lemma answer_sel [simp]: "rs_ok (answer role f r) = (\<exists>d. r = Inr d)" "rs_role (answer role f r) = role"
  by (cases r; simp add: answer_def)+

lemma scheduled_sel [simp]: "rs_role (snd (scheduled role m r)) = role" "fst (scheduled role m r) = fst r"
  by (cases r; cases "snd r"; simp add: scheduled_def)+

lemma run_set_role [simp]: "rs_role (snd (run_set sv role d rq w)) = role"
  by (simp add: run_set_def unavailable_def split: option.splits prod.splits)

lemma run_operation_role: "rs_role (snd (run_operation sv role op rq w)) = role"
  by (cases op) (simp_all add: unavailable_def split: option.splits)

text \<open>Only these operations can change state.\<close>

definition writing :: "operation \<Rightarrow> bool" where
  "writing op \<longleftrightarrow> op \<in> {ConfigSet, ConfigValidate, Restart, Stop}"

lemma run_operation_reads: "\<not> writing op \<Longrightarrow> fst (run_operation sv role op rq w) = w"
  by (cases op) (simp_all add: writing_def)

lemma operation_of_normalize:
  "operation_of (normalizeOp ''service.restart'') = Restart" "operation_of (normalizeOp ''service.stop'') = Stop"
  by code_simp+

end
