(* ===== verification/Instance.thy ===== *)
theory Instance
  imports Control_Server
begin

text \<open>
  The control plane of a running instance: the server of \<open>Control_Server\<close> with the callbacks of
  \<open>cmd/mimic/control_hooks.go\<close> over the instance's event pipeline, its file system and the two
  channels that ask \<open>run\<close> to restart or stop.
\<close>

section \<open>Model\<close>

text \<open>A signal channel: the delayed closers that are still asleep, and whether it is closed.\<close>

record signal =
  sg_pending :: nat
  sg_closed :: bool

definition idle :: signal where
  "idle = \<lparr>sg_pending = 0, sg_closed = False\<rparr>"

text \<open>Accepting a request starts a goroutine that closes the channel 200 ms later; closing a closed
  channel panics.\<close>

definition request_signal :: "signal \<Rightarrow> signal" where
  "request_signal s = s\<lparr>sg_pending := sg_pending s + 1\<rparr>"

definition fire :: "signal \<Rightarrow> signal option" where
  "fire s =
     (if sg_pending s = 0 then Some s
      else if sg_closed s then None
      else Some \<lparr>sg_pending = sg_pending s - 1, sg_closed = True\<rparr>)"

record instance_state =
  is_world :: world
  is_fs :: file_system
  is_restart :: signal
  is_stop :: signal

text \<open>The fixed surroundings of an instance: what \<open>instance_env\<close> holds, the roles, the status fields
  that do not change, the log directory, the rendering of errors, the answer of
  \<open>ScheduleRestart\<close> and the firewall.\<close>

record surroundings = instance_env +
  su_roles :: "rbac_role list"
  su_status :: status
  su_uptime :: int
  su_logDir :: string
  su_errorText :: "config_err \<Rightarrow> string"
  su_tailText :: "tail_error \<Rightarrow> string"
  su_schedule :: "string option"
  su_nft :: nft

definition listProfiles :: "profile_map \<Rightarrow> profile_catalog" where
  "listProfiles m =
     (let names = (\<lambda>f. sort_strings (map (prof_name \<circ> snd) (filter (\<lambda>(k, p). prof_family p = f) m)));
          fams = remdups (map (prof_family \<circ> snd) m)
      in \<lparr>pc_names = listProfileNames m,
          pc_families = fold (\<lambda>f acc. AList.update (to_lower f) (names f) acc) fams []\<rparr>)"

text \<open>The ring the server and the bus share.\<close>

fun ring_in :: "sink list \<Rightarrow> ring" where
  "ring_in [] = newRing 200"
| "ring_in (Ring_Sink r # ss) = r"
| "ring_in (_ # ss) = ring_in ss"

definition text_error :: "('e \<Rightarrow> string) \<Rightarrow> 'e + 'a \<Rightarrow> string + 'a" where
  "text_error f r = (case r of Inl e \<Rightarrow> Inl (f e) | Inr x \<Rightarrow> Inr x)"

definition buildControlHooks :: "surroundings \<Rightarrow> instance_state hooks" where
  "buildControlHooks su =
     \<lparr>hk_getConfig = Some (\<lambda>s. text_error (su_errorText su) (hook_getConfig (instance_env.truncate su) (is_fs s))),
      hk_setConfig = Some (\<lambda>p dry s.
        case hook_setConfig (instance_env.truncate su) p dry (is_fs s) of
          (fs, r) \<Rightarrow> (s\<lparr>is_fs := fs\<rparr>, text_error (su_errorText su) r)),
      hk_listProfiles = Some (\<lambda>s. case ie_profiles su of Inl e \<Rightarrow> Inl e | Inr m \<Rightarrow> Inr (listProfiles m)),
      hk_listServices = Some (\<lambda>s. case listServices (ie_services su) of
          Inl _ \<Rightarrow> Inl ''reading services dir'' | Inr ns \<Rightarrow> Inr ns),
      hk_restart = Some (\<lambda>s. case su_schedule su of
          Some err \<Rightarrow> (s, Some (''scheduling restart: '' @ err))
        | None \<Rightarrow> (s\<lparr>is_restart := request_signal (is_restart s)\<rparr>, None)),
      hk_stop = Some (\<lambda>s. (s\<lparr>is_stop := request_signal (is_stop s)\<rparr>, None)),
      hk_tailLogFile = Some (\<lambda>name n s.
        text_error (su_tailText su) (hook_tailLogFile (su_logDir su) name n (is_fs s)))\<rparr>"

definition emit_on :: "nft \<Rightarrow> event \<Rightarrow> instance_state \<Rightarrow> instance_state" where
  "emit_on nft e s = s\<lparr>is_world := the (emit nft 2 e (is_world s))\<rparr>"

definition control_server :: "surroundings \<Rightarrow> instance_state server" where
  "control_server su =
     \<lparr>sv_authz = authorize (su_roles su), sv_status = (\<lambda>s. su_status su),
      sv_ring = (\<lambda>s. ring_in (w_sinks (is_world s))), sv_uptime = (\<lambda>s. su_uptime su),
      sv_emit = emit_on (su_nft su), sv_hooks = Some (buildControlHooks su)\<rparr>"

section \<open>Lemmas\<close>

text \<open>Control events are not scored, so an audit event is delivered and nothing else happens.\<close>

lemma audit_type [simp]: "ev_type (audit_event p op role a) = Control" "ev_time (audit_event p op role a) = 0"
  by (simp_all add: audit_event_def blank_event_def)

lemma detector_ignores_control: "ev_type e = Control \<Longrightarrow> detector_write n e d = (d, None)"
  by (rule detector_write_other) (simp add: weight_def)

lemma emit_control:
  assumes "ev_type e = Control" "plain_sinks ss" "w_sinks w = ss @ [Detector_Sink d]"
  shows "emit nft 2 e w =
    Some (w\<lparr>w_sinks := write_plain (stamp (w_clock w (w_reads w)) e) ss @ [Detector_Sink d],
            w_reads := (if ev_time e = 0 then w_reads w + 1 else w_reads w),
            w_errors := w_errors w @ failures (stamp (w_clock w (w_reads w)) e) ss\<rparr>)"
  unfolding emit_after_event [OF assms(2,3)]
  using detector_ignores_control [of "stamp (w_clock w (w_reads w)) e"] assms(1)
  by (simp add: after_event_def Let_def)

text \<open>The audit event of a request.\<close>

definition audit_of :: "surroundings \<Rightarrow> peer option \<Rightarrow> request \<Rightarrow> event" where
  "audit_of su cred r =
     (let p = (case cred of None \<Rightarrow> zero_peer | Some p \<Rightarrow> p); op = normalizeOp (rq_op r);
          role = authorize (su_roles su) p op
      in audit_event p op (case role of None \<Rightarrow> [] | Some n \<Rightarrow> n) (role \<noteq> None \<and> cred \<noteq> None))"

definition authorized :: "surroundings \<Rightarrow> peer option \<Rightarrow> request \<Rightarrow> bool" where
  "authorized su cred r \<longleftrightarrow>
     (case cred of None \<Rightarrow> False | Some p \<Rightarrow> authorize (su_roles su) p (normalizeOp (rq_op r)) \<noteq> None)"

lemma audit_allowed: "ev_fields (audit_of su cred r) ''allowed'' = Some (FBool (authorized su cred r))"
  by (auto simp: audit_of_def audit_event_def authorized_def Let_def split: option.splits)

lemma handle_unauthorized:
  "\<not> authorized su cred r \<Longrightarrow> handle (control_server su) cred (Some r) s = (s', resp) \<Longrightarrow>
   s' = emit_on (su_nft su) (audit_of su cred r) s \<and> \<not> rs_ok resp \<and> rs_data resp = None"
  by (auto simp: handle_def control_server_def authorized_def audit_of_def Let_def split: option.splits)

lemma handle_authorized:
  "authorized su cred r \<Longrightarrow> \<exists>n. handle (control_server su) cred (Some r) s =
     run_operation (control_server su) n (operation_of (normalizeOp (rq_op r))) r
       (emit_on (su_nft su) (audit_of su cred r) s)"
  by (auto simp: handle_def control_server_def authorized_def audit_of_def Let_def split: option.splits)

lemma emit_on_sel [simp]:
  "is_fs (emit_on nft e s) = is_fs s" "is_restart (emit_on nft e s) = is_restart s" "is_stop (emit_on nft e s) = is_stop s"
  by (simp_all add: emit_on_def)

text \<open>An operation of the control plane does not touch the event pipeline.\<close>

lemma run_operation_world:
  "is_world (fst (run_operation (control_server su) n op r s)) = is_world s"
  by (cases op)
    (simp_all add: run_set_def the_hook_def control_server_def buildControlHooks_def split: option.splits prod.splits)

lemma stamp_fields [simp]: "ev_fields (stamp now e) = ev_fields e"
  by (simp add: stamp_def Let_def)

fun handle_all :: "surroundings \<Rightarrow> (peer option \<times> request) list \<Rightarrow> instance_state \<Rightarrow> instance_state" where
  "handle_all su [] s = s"
| "handle_all su ((cred, r) # rs) s = handle_all su rs (fst (handle (control_server su) cred (Some r) s))"

text \<open>The delayed closers of a channel, one after the other.\<close>

fun fire_all :: "nat \<Rightarrow> signal \<Rightarrow> signal option" where
  "fire_all 0 s = Some s"
| "fire_all (Suc n) s = (case fire s of None \<Rightarrow> None | Some s' \<Rightarrow> fire_all n s')"

lemma handle_stop:
  assumes "authorized su cred r" "operation_of (normalizeOp (rq_op r)) = Stop"
  shows "is_stop (fst (handle (control_server su) cred (Some r) s)) = request_signal (is_stop s)"
  using handle_authorized [OF assms(1), of s] assms(2)
  by (auto simp: the_hook_def control_server_def buildControlHooks_def)

section \<open>Properties\<close>

text \<open>C4. Complete mediation, with an audit trail.  Every request a peer gets decoded leaves exactly one
  audit event in the event log, which says whether it was authorized; and unless the peer was
  authenticated and some role of the configuration (or the bootstrap rule) grants it the
  operation, nothing else happens: no file changes, nothing is restarted or stopped, and the answer
  carries no data.\<close>

theorem control_mediation:
  assumes "handle (control_server su) cred (Some r) s = (s', resp)"
    and "plain_sinks ss" "w_sinks (is_world s) = ss @ [Detector_Sink d]"
    and "i < length ss" "ss ! i = File_Sink fl" "\<forall>n. fs_ok fl n"
  shows "(\<exists>fl' e. w_sinks (is_world s') ! i = File_Sink fl' \<and> fs_lines fl' = fs_lines fl @ [e] \<and>
      ev_type e = Control \<and> ev_fields e ''allowed'' = Some (FBool (authorized su cred r))) \<and>
    (authorized su cred r \<or>
      is_fs s' = is_fs s \<and> is_restart s' = is_restart s \<and> is_stop s' = is_stop s \<and>
      \<not> rs_ok resp \<and> rs_data resp = None)"
proof -
  let ?a = "audit_of su cred r" and ?w = "is_world s"
  let ?e = "stamp (w_clock ?w (w_reads ?w)) ?a"
  have ty: "ev_type ?a = Control" by (simp add: audit_of_def Let_def)
  have world: "is_world s' = is_world (emit_on (su_nft su) ?a s)"
  proof (cases "authorized su cred r")
    case True
    from handle_authorized [OF this, of s] assms(1) run_operation_world show ?thesis
      by (metis fst_conv)
  next
    case False
    with handle_unauthorized [OF this assms(1)] show ?thesis by simp
  qed
  have sinks: "w_sinks (is_world s') = write_plain ?e ss @ [Detector_Sink d]"
    unfolding world emit_on_def using emit_control [OF ty assms(2,3), of "su_nft su"] by simp
  obtain fl' where fl': "fst (plain_write ?e (File_Sink fl)) = File_Sink fl'" "fs_lines fl' = fs_lines fl @ [?e]"
    using file_write_lines [OF assms(6), of ?e] by blast
  have "w_sinks (is_world s') ! i = File_Sink fl'"
    using fl'(1) assms(4,5) by (simp add: sinks nth_append write_plain_def)
  with fl'(2) ty audit_allowed have "\<exists>fl' e. w_sinks (is_world s') ! i = File_Sink fl' \<and> fs_lines fl' = fs_lines fl @ [e] \<and>
      ev_type e = Control \<and> ev_fields e ''allowed'' = Some (FBool (authorized su cred r))"
    by auto
  moreover have "authorized su cred r \<or> is_fs s' = is_fs s \<and> is_restart s' = is_restart s \<and>
      is_stop s' = is_stop s \<and> \<not> rs_ok resp \<and> rs_data resp = None"
    using handle_unauthorized [OF _ assms(1)] by auto
  ultimately show ?thesis by blast
qed

text \<open>An unauthenticated request is audited under the bootstrap role all the same: the zero peer has
  uid 0.\<close>

lemma unauthenticated_audit_role:
  "ev_fields (audit_of su None r) ''role'' = Some (FStr ''admin'')"
  by (simp add: audit_of_def audit_event_def authorize_def isBootstrapAdmin_def zero_peer_def Let_def)

lemma fire_all_closed: "sg_closed s \<Longrightarrow> sg_pending s = Suc n \<Longrightarrow> fire_all (Suc n) s = None"
  by (simp add: fire_def)

lemma fire_all_open:
  "\<not> sg_closed s \<Longrightarrow> fire_all (sg_pending s) s = None \<longleftrightarrow> 2 \<le> sg_pending s"
proof (cases "sg_pending s")
  case (Suc n)
  assume op: "\<not> sg_closed s"
  then have f: "fire s = Some \<lparr>sg_pending = n, sg_closed = True\<rparr>"
    by (simp add: fire_def Suc)
  show ?thesis
  proof (cases n)
    case (Suc m)
    with f fire_all_closed [of "\<lparr>sg_pending = n, sg_closed = True\<rparr>" m] \<open>sg_pending s = Suc n\<close> show ?thesis
      by (simp del: fire_all.simps add: fire_all.simps(2) [of "Suc m"])
  qed (use f Suc in simp)
qed simp

text \<open>One stop request is all a run survives: of the stop requests a run accepts, each closes the
  stop channel 200 ms later, so when all their timers run, two or more of them make the program
  panic (close of a closed channel).\<close>

theorem repeated_stop_panics:
  assumes "\<forall>(cred, r) \<in> set rs. authorized su cred r \<and> operation_of (normalizeOp (rq_op r)) = Stop"
    and "is_stop s = idle"
  shows "fire_all (length rs) (is_stop (handle_all su rs s)) = None \<longleftrightarrow> 2 \<le> length rs"
proof -
  have "is_stop (handle_all su rs s) = (is_stop s)\<lparr>sg_pending := sg_pending (is_stop s) + length rs\<rparr>"
    using assms(1)
  proof (induction rs arbitrary: s)
    case (Cons q rs)
    obtain cred r where "q = (cred, r)" by fastforce
    with Cons show ?case by (simp add: handle_stop request_signal_def)
  qed simp
  with assms(2) show ?thesis
    using fire_all_open [of "is_stop (handle_all su rs s)"] by (simp add: idle_def)
qed

section \<open>Examples\<close>

definition example_su :: surroundings where
  "example_su = instance_env.extend example_env
     \<lparr>su_roles = [], su_status = \<lparr>sx_profile = [], sx_edition = [], sx_services = [], sx_pid = 1, sx_uptimeSec = 0, sx_events = 0\<rparr>,
      su_uptime = 0, su_logDir = ''/var/log/mimic'', su_errorText = (\<lambda>_. ''error''), su_tailText = (\<lambda>_. ''error''),
      su_schedule = None, su_nft = (\<lambda>_ _. None)\<rparr>"

definition example_state :: instance_state where
  "example_state = \<lparr>is_world = example_world example_config, is_fs = example_fs, is_restart = idle, is_stop = idle\<rparr>"

definition example_user :: peer where
  "example_user = zero_peer\<lparr>pe_uid := 1000, pe_gid := 1000\<rparr>"

definition example_request :: "string \<Rightarrow> request" where
  "example_request op = \<lparr>rq_op = op, rq_n = 0, rq_lines = 0, rq_file = [], rq_patch = Some example_patch, rq_dryRun = False\<rparr>"

lemma example_unauthorized: "\<not> authorized example_su (Some example_user) (example_request ''config.set'')"
  by (simp add: authorized_def authorize_def example_su_def instance_env.extend_def isBootstrapAdmin_def
      example_user_def zero_peer_def)

lemma example_root: "authorized example_su (Some zero_peer) (example_request op)"
  by (simp add: authorized_def authorize_def isBootstrapAdmin_def zero_peer_def)

lemma control_mediation_witness:
  "\<exists>s' resp fl. handle (control_server example_su) (Some example_user) (Some (example_request ''config.set'')) example_state = (s', resp) \<and>
     w_sinks (is_world s') ! 0 = File_Sink fl \<and> length (fs_lines fl) = 1 \<and> is_fs s' = example_fs \<and> \<not> rs_ok resp"
proof -
  obtain s' resp where h: "handle (control_server example_su) (Some example_user)
      (Some (example_request ''config.set'')) example_state = (s', resp)" by fastforce
  let ?fl = "\<lparr>fs_lines = [], fs_writes = 0, fs_ok = \<lambda>_. True\<rparr>"
  have w: "w_sinks (is_world example_state) = [File_Sink ?fl, Ring_Sink (newRing 200)] @ [Detector_Sink (newDetector example_config)]"
    by (simp add: example_state_def example_world_def)
  have "plain_sinks [File_Sink ?fl, Ring_Sink (newRing 200)]"
    by (simp add: plain_sinks_def)
  from control_mediation [OF h this w, of 0 ?fl] example_unauthorized obtain fl e where
    "w_sinks (is_world s') ! 0 = File_Sink fl" "fs_lines fl = [e]" "is_fs s' = is_fs example_state" "\<not> rs_ok resp"
    by auto
  with h show ?thesis
    by (intro exI [of _ s'] exI [of _ resp] exI [of _ fl]) (simp add: example_state_def)
qed

lemma repeated_stop_panics_witness:
  "fire_all 2 (is_stop (handle_all example_su (replicate 2 (Some zero_peer, example_request ''service.stop'')) example_state)) = None"
proof -
  have "operation_of (normalizeOp (rq_op (example_request ''service.stop''))) = Stop"
    by code_simp
  then show ?thesis
    using repeated_stop_panics [of "replicate 2 (Some zero_peer, example_request ''service.stop'')" example_su example_state]
      example_root by (simp add: example_state_def)
qed

end
