(* ===== verification/Go_Bytes.thy ===== *)
theory Go_Bytes
  imports Go_Net "HOL-Library.Sublist"
begin

text \<open>
  Byte slices beside strings: the conversions \<open>[]byte(s)\<close> and \<open>string(b)\<close> (a Go string is its
  bytes, so both are total and inverse to each other), \<open>bytes.Index\<close>, \<open>bytes.Contains\<close> and
  \<open>hex.DecodeString\<close>, the little-endian stores of \<open>encoding/binary\<close>, and \<open>copy\<close>, which moves
  as many bytes as both sides have.
\<close>

section \<open>Strings and bytes\<close>

definition byte_of :: "char \<Rightarrow> byte" where
  "byte_of c = of_nat (of_char c)"

definition char_of_byte :: "byte \<Rightarrow> char" where
  "char_of_byte b = char_of (unat b)"

abbreviation bytes_of :: "string \<Rightarrow> bytes" where
  "bytes_of s \<equiv> map byte_of s"

abbreviation string_of :: "bytes \<Rightarrow> string" where
  "string_of b \<equiv> map char_of_byte b"

lemma of_char_less: "(of_char c :: nat) < 256"
  by (metis of_char_mod_256 mod_less_divisor zero_less_numeral)

lemma char_of_byte_of [simp]: "char_of_byte (byte_of c) = c"
  by (simp add: char_of_byte_def byte_of_def unat_of_nat of_char_less)

lemma byte_of_char_of [simp]: "byte_of (char_of_byte b) = b"
proof -
  have "unat b < 256" using unsigned_less [of b, where ?'a = nat] by simp
  then show ?thesis by (simp add: char_of_byte_def byte_of_def)
qed

lemma byte_of_inj [simp]: "byte_of c = byte_of d \<longleftrightarrow> c = d"
  by (metis char_of_byte_of)

lemma char_of_byte_inj [simp]: "char_of_byte c = char_of_byte d \<longleftrightarrow> c = d"
  by (metis byte_of_char_of)

lemma string_of_bytes_of [simp]: "string_of (bytes_of s) = s"
  by (simp add: o_def map_idI)

lemma bytes_of_string_of [simp]: "bytes_of (string_of b) = b"
  by (simp add: o_def map_idI)

section \<open>Searching\<close>

definition starts_with :: "'a list \<Rightarrow> 'a list \<Rightarrow> bool" where
  "starts_with s p \<longleftrightarrow> take (length p) s = p"

fun index_of :: "'a list \<Rightarrow> 'a list \<Rightarrow> nat option" where
  "index_of s sep =
     (if starts_with s sep then Some 0
      else case s of [] \<Rightarrow> None | _ # t \<Rightarrow> map_option Suc (index_of t sep))"

declare index_of.simps [simp del]

definition bytes_contains :: "'a list \<Rightarrow> 'a list \<Rightarrow> bool" where
  "bytes_contains s sep \<longleftrightarrow> index_of s sep \<noteq> None"

lemma starts_with_iff: "starts_with s p \<longleftrightarrow> (\<exists>t. s = p @ t)"
  by (auto simp: starts_with_def) (metis append_take_drop_id)

lemma starts_with_append [simp]: "starts_with (p @ t) p"
  by (simp add: starts_with_def)

lemma index_of_first:
  "index_of s sep = Some i \<longleftrightarrow>
     starts_with (drop i s) sep \<and> i \<le> length s \<and> (\<forall>j < i. \<not> starts_with (drop j s) sep)"
proof (induction s arbitrary: i)
  case Nil
  then show ?case by (subst index_of.simps) auto
next
  case (Cons x s)
  show ?case
  proof (cases "starts_with (x # s) sep")
    case True
    then show ?thesis by (subst index_of.simps) (auto intro: gr0I)
  next
    case False
    have all: "(\<forall>j < Suc k. \<not> starts_with (drop j (x # s)) sep) \<longleftrightarrow> (\<forall>j < k. \<not> starts_with (drop j s) sep)"
      for k
      using False by (simp add: All_less_Suc2)
    show ?thesis
      using False by (subst index_of.simps, cases i) (auto simp: Cons.IH all)
  qed
qed

lemma index_of_None: "index_of s sep = None \<longleftrightarrow> (\<nexists>a b. s = a @ sep @ b)"
proof (induction s)
  case Nil
  then show ?case by (subst index_of.simps) (auto simp: starts_with_def)
next
  case (Cons x s)
  have "(\<exists>a b. x # s = a @ sep @ b) \<longleftrightarrow> starts_with (x # s) sep \<or> (\<exists>a b. s = a @ sep @ b)"
    by (auto simp: starts_with_iff Cons_eq_append_conv) 
  with Cons.IH show ?case by (subst index_of.simps) auto
qed

lemma bytes_contains_iff: "bytes_contains s sep \<longleftrightarrow> sublist sep s"
  by (auto simp: bytes_contains_def index_of_None sublist_def)

section \<open>Hexadecimal\<close>

definition hex_byte :: "char \<Rightarrow> char \<Rightarrow> byte option" where
  "hex_byte a b =
     (case (hex_val a, hex_val b) of (Some x, Some y) \<Rightarrow> Some (of_nat (16 * x + y)) | _ \<Rightarrow> None)"

fun hex_decode :: "string \<Rightarrow> bytes option" where
  "hex_decode [] = Some []"
| "hex_decode [_] = None"
| "hex_decode (a # b # s) =
     (case hex_byte a b of None \<Rightarrow> None | Some x \<Rightarrow> map_option (Cons x) (hex_decode s))"

definition hex_digit :: "nat \<Rightarrow> char" where
  "hex_digit n = char_of (if n < 10 then 48 + n else 87 + n)"

definition hex_encode :: "bytes \<Rightarrow> string" where
  "hex_encode bs = concat (map (\<lambda>b. [hex_digit (unat b div 16), hex_digit (unat b mod 16)]) bs)"

lemma hex_val_digit [simp]: "n < 16 \<Longrightarrow> hex_val (hex_digit n) = Some n"
  by (auto simp: hex_val_def hex_digit_def Let_def)

lemma hex_byte_encode [simp]:
  "hex_byte (hex_digit (unat b div 16)) (hex_digit (unat b mod 16)) = Some b"
proof -
  have "unat b < 256" using unsigned_less [of b, where ?'a = nat] by simp
  then have "unat b div 16 < 16" by auto
  then show ?thesis by (simp add: hex_byte_def)
qed

lemma hex_decode_encode [simp]: "hex_decode (hex_encode bs) = Some bs"
  by (induction bs) (simp_all add: hex_encode_def)

section \<open>Little-endian stores and copying\<close>

definition enc_le :: "nat \<Rightarrow> 'a::len word \<Rightarrow> bytes" where
  "enc_le n v = map (\<lambda>i. ucast (drop_bit (8 * i) v)) [0..<n]"

lemma length_enc_le [simp]: "length (enc_le n v) = n"
  by (simp add: enc_le_def)

text \<open>\<open>copy(b[i:], xs)\<close>, and \<open>copy(b[i:e], xs)\<close> for \<open>e = i + n\<close>; the caller has checked that the
  slice exists.\<close>

definition copy_to :: "bytes \<Rightarrow> nat \<Rightarrow> bytes \<Rightarrow> bytes" where
  "copy_to b i xs = overwrite b i (take (length b - i) xs)"

definition copy_within :: "bytes \<Rightarrow> nat \<Rightarrow> nat \<Rightarrow> bytes \<Rightarrow> bytes" where
  "copy_within b i n xs = overwrite b i (take n xs)"

lemma length_copy_to [simp]: "i \<le> length b \<Longrightarrow> length (copy_to b i xs) = length b"
  by (simp add: copy_to_def)

lemma length_copy_within [simp]: "i + n \<le> length b \<Longrightarrow> length (copy_within b i n xs) = length b"
  by (simp add: copy_within_def)

end
