(* ===== verification/Probe_Matcher.thy ===== *)
theory Probe_Matcher
  imports Go_Bytes
begin

text \<open>
  Signature matching of the emulated services (\<open>internal/services/matcher.go\<close>): a manifest's
  probes are compiled once, gated by the options of the run, and incoming data is matched against
  them in manifest order.

  A pattern is text in which \<open>\xNN\<close> is a byte, a dot is any byte and everything else is itself.
  The reference semantics below reads a pattern as a list of such symbols; the compiled matcher
  is shown to agree with it.  The \<open>Requires\<close> map of a probe is an association list: only whether
  all its entries hold is ever asked.
\<close>

section \<open>Probe configuration\<close>

record signature =
  sg_pattern :: string
  sg_contains :: string
  sg_offset :: int
  sg_minLength :: int
  sg_maxLength :: int

record rewrite_rule =
  rr_offset :: int
  rr_length :: int
  rr_type :: string
  rr_token :: string

record probe_config =
  pc_name :: string
  pc_signature :: signature
  pc_responseFile :: string
  pc_rules :: "rewrite_rule list"
  pc_requires :: "(string \<times> string) list"

type_synonym options = "string \<rightharpoonup> string"

text \<open>\<open>r.options[k]\<close>: the zero value when the key is absent.\<close>

definition opt_get :: "options \<Rightarrow> string \<Rightarrow> string" where
  "opt_get opts k = (case opts k of None \<Rightarrow> [] | Some v \<Rightarrow> v)"

section \<open>Compiling a pattern\<close>

abbreviation (input) dot :: char where "dot \<equiv> CHR ''.''"

definition esc :: char where "esc = CHR 0x5C"

text \<open>The byte that a \<open>\xNN\<close> at the head of the text stands for.\<close>

definition hex_escape :: "string \<Rightarrow> byte option" where
  "hex_escape s =
     (case s of c0 # c1 # c2 # c3 # _ \<Rightarrow>
        (if c0 = esc \<and> c1 = CHR ''x'' then hex_byte c2 c3 else None)
      | _ \<Rightarrow> None)"

fun parseHexPattern :: "string \<Rightarrow> bytes" where
  "parseHexPattern [] = []"
| "parseHexPattern (c # s) =
     (case hex_escape (c # s) of
        Some b \<Rightarrow> b # parseHexPattern (drop 3 s)
      | None \<Rightarrow> byte_of c # parseHexPattern s)"

type_synonym segment = "bytes option"  \<comment> \<open>\<open>None\<close>: the nil segment, one wildcard byte\<close>

definition flush :: "string \<Rightarrow> segment list" where
  "flush cur = (if cur = [] then [] else [Some (parseHexPattern cur)])"

fun wild_loop :: "string \<Rightarrow> string \<Rightarrow> segment list" where
  "wild_loop cur [] = flush cur"
| "wild_loop cur (c # s) =
     (if c = dot then flush cur @ None # wild_loop [] s
      else if 3 \<le> length s \<and> c = esc \<and> hd s = CHR ''x''
      then wild_loop (cur @ take 4 (c # s)) (drop 3 s)
      else wild_loop (cur @ [c]) s)"

definition parsePatternWithWildcards :: "string \<Rightarrow> segment list" where
  "parsePatternWithWildcards p = wild_loop [] p"

record compiled_probe =
  cp_config :: probe_config
  cp_hexPrefix :: bytes
  cp_hasWildcard :: bool
  cp_segments :: "segment list"
  cp_contains :: bytes

definition trim_prefix :: "string \<Rightarrow> string \<Rightarrow> string" where
  "trim_prefix s p = (if has_prefix s p then drop (length p) s else s)"

definition trim_suffix :: "string \<Rightarrow> string \<Rightarrow> string" where
  "trim_suffix s p = (if has_suffix s p then take (length s - length p) s else s)"

definition compile_pattern :: "string \<Rightarrow> compiled_probe \<Rightarrow> compiled_probe" where
  "compile_pattern pattern cp =
     (if pattern = [] then cp
      else
        let p = trim_suffix (trim_prefix pattern ''^'') ''$'' in
        if dot \<in> set p then cp\<lparr>cp_hasWildcard := True, cp_segments := parsePatternWithWildcards p\<rparr>
        else cp\<lparr>cp_hexPrefix := parseHexPattern p\<rparr>)"

definition compile_probe :: "probe_config \<Rightarrow> compiled_probe" where
  "compile_probe p =
     (let sg = pc_signature p;
          cp = \<lparr>cp_config = p, cp_hexPrefix = [], cp_hasWildcard = False, cp_segments = [],
                cp_contains = (if sg_contains sg \<noteq> [] then parseHexPattern (sg_contains sg) else [])\<rparr>
      in compile_pattern (sg_pattern sg) cp)"

definition probeRequirementsMet :: "probe_config \<Rightarrow> options \<Rightarrow> bool" where
  "probeRequirementsMet p opts \<longleftrightarrow>
     (\<forall>(k, required) \<in> set (pc_requires p). case opts k of None \<Rightarrow> True | Some actual \<Rightarrow> actual = required)"

type_synonym matcher = "compiled_probe list"

definition newProbeMatcher :: "probe_config list \<Rightarrow> options \<Rightarrow> matcher" where
  "newProbeMatcher probes opts = map compile_probe (filter (\<lambda>p. probeRequirementsMet p opts) probes)"

section \<open>Matching\<close>

text \<open>The loop of \<open>matchWithWildcards\<close> at position \<open>pos\<close> of the data.\<close>

fun match_segments :: "bytes \<Rightarrow> nat \<Rightarrow> segment list \<Rightarrow> bool" where
  "match_segments data pos [] \<longleftrightarrow> True"
| "match_segments data pos (None # segs) \<longleftrightarrow>
     pos + 1 \<le> length data \<and> match_segments data (pos + 1) segs"
| "match_segments data pos (Some seg # segs) \<longleftrightarrow>
     pos + length seg \<le> length data \<and> take (length seg) (drop pos data) = seg \<and>
     match_segments data (pos + length seg) segs"

definition matchWithWildcards :: "bytes \<Rightarrow> segment list \<Rightarrow> bool" where
  "matchWithWildcards data segs = match_segments data 0 segs"

definition matchProbe :: "compiled_probe \<Rightarrow> bytes \<Rightarrow> bool" where
  "matchProbe cp data =
     (let sg = pc_signature (cp_config cp); n = int (length data) in
      if sg_minLength sg > 0 \<and> n < sg_minLength sg then False
      else if sg_maxLength sg > 0 \<and> n > sg_maxLength sg then False
      else if cp_contains cp \<noteq> [] then bytes_contains data (cp_contains cp)
      else if sg_offset sg > 0 \<and> sg_offset sg \<ge> n then False
      else
        let searchData = (if sg_offset sg > 0 then drop (nat (sg_offset sg)) data else data) in
        if cp_hasWildcard cp then matchWithWildcards searchData (cp_segments cp)
        else if cp_hexPrefix cp \<noteq> [] then starts_with searchData (cp_hexPrefix cp)
        else if sg_minLength sg = 0 \<and> data \<noteq> [] then False
        else True)"

fun match_first :: "matcher \<Rightarrow> bytes \<Rightarrow> probe_config option" where
  "match_first [] data = None"
| "match_first (cp # pm) data = (if matchProbe cp data then Some (cp_config cp) else match_first pm data)"

fun matchByName :: "matcher \<Rightarrow> string \<Rightarrow> probe_config option" where
  "matchByName [] name = None"
| "matchByName (cp # pm) name =
     (if pc_name (cp_config cp) = name then Some (cp_config cp) else matchByName pm name)"

section \<open>Reference semantics of patterns\<close>

datatype symbol = Lit char | Hex byte | Wild

fun denote :: "symbol \<Rightarrow> byte \<Rightarrow> bool" where
  "denote (Lit c) b \<longleftrightarrow> b = byte_of c"
| "denote (Hex x) b \<longleftrightarrow> b = x"
| "denote Wild b \<longleftrightarrow> True"

fun render :: "symbol \<Rightarrow> string" where
  "render (Lit c) = [c]"
| "render (Hex x) = esc # CHR ''x'' # hex_encode [x]"
| "render Wild = [dot]"

abbreviation render_all :: "symbol list \<Rightarrow> string" where
  "render_all syms \<equiv> concat (map render syms)"

text \<open>Plain characters are those with no meaning of their own.\<close>

definition plain :: "symbol \<Rightarrow> bool" where
  "plain y \<longleftrightarrow> (case y of Lit c \<Rightarrow> c \<noteq> dot \<and> c \<noteq> esc | _ \<Rightarrow> True)"

text \<open>In the text of a substring search only the backslash has a meaning, and a dot is a dot.\<close>

definition literal :: "symbol \<Rightarrow> bool" where
  "literal y \<longleftrightarrow> (case y of Lit c \<Rightarrow> c \<noteq> esc | Hex _ \<Rightarrow> True | Wild \<Rightarrow> False)"

definition symbols_match :: "symbol list \<Rightarrow> bytes \<Rightarrow> bool" where
  "symbols_match syms data \<longleftrightarrow> length syms \<le> length data \<and> list_all2 denote syms (take (length syms) data)"

fun fixed_byte :: "symbol \<Rightarrow> byte" where
  "fixed_byte (Lit c) = byte_of c"
| "fixed_byte (Hex x) = x"
| "fixed_byte Wild = 0"




section \<open>The compiled matcher agrees with the reference semantics\<close>

abbreviation wild_free :: "symbol list \<Rightarrow> bool" where
  "wild_free syms \<equiv> Wild \<notin> set syms"

lemma hex_encode_one [simp]:
  "hex_encode [x] = [hex_digit (unat x div 16), hex_digit (unat x mod 16)]"
  by (simp add: hex_encode_def)

lemma hex_digit_plain: "n < 16 \<Longrightarrow> hex_digit n \<noteq> dot"
  using hex_val_digit [of n] by (auto simp: hex_val_def)

lemma hex_escape_hex [simp]: "hex_escape (esc # CHR ''x'' # hex_encode [x] @ s) = Some x"
  by (simp add: hex_escape_def)

lemma hex_escape_plain [simp]: "c \<noteq> esc \<Longrightarrow> hex_escape (c # s) = None"
  by (auto simp: hex_escape_def split: list.splits)

lemma parse_Hex: "parseHexPattern (render (Hex x) @ s) = x # parseHexPattern s"
  using hex_escape_hex [of x s] by simp

lemma parse_render_all:
  "\<forall>y \<in> set syms. literal y \<Longrightarrow>
     parseHexPattern (render_all syms) = map fixed_byte syms"
proof (induction syms)
  case (Cons y ys)
  then show ?case
  proof (cases y)
    case (Hex x)
    with Cons show ?thesis by (simp only: list.map concat.simps parse_Hex) simp
  qed (auto simp: literal_def)
qed simp

lemma plain_literal: "plain y \<Longrightarrow> y \<noteq> Wild \<Longrightarrow> literal y"
  by (cases y) (auto simp: plain_def literal_def)

lemma render_nonempty [simp]: "render y \<noteq> []"
  by (cases y) auto

lemma symbols_match_append:
  "symbols_match (a @ b) d \<longleftrightarrow> symbols_match a d \<and> symbols_match b (drop (length a) d)"
proof -
  have "take (length a + length b) d = take (length a) d @ take (length b) (drop (length a) d)"
    by (simp add: take_add)
  then show ?thesis
    by (auto simp: symbols_match_def list_all2_append min_def)
qed

lemma symbols_match_Nil [simp]: "symbols_match [] d"
  by (simp add: symbols_match_def)

lemma symbols_match_Wild [simp]: "symbols_match (Wild # b) d \<longleftrightarrow> d \<noteq> [] \<and> symbols_match b (tl d)"
  by (cases d) (auto simp: symbols_match_def)

lemma denote_fixed: "y \<noteq> Wild \<Longrightarrow> denote y b \<longleftrightarrow> b = fixed_byte y"
  by (cases y) auto

lemma symbols_match_fixed:
  "wild_free syms \<Longrightarrow> symbols_match syms d \<longleftrightarrow> starts_with d (map fixed_byte syms)"
proof (induction syms arbitrary: d)
  case (Cons y ys)
  then show ?case
    by (cases d) (auto simp: symbols_match_def starts_with_def denote_fixed)
qed (simp add: starts_with_def)

lemma starts_with_at:
  "starts_with (drop pos d) seg \<longleftrightarrow> (seg = [] \<or> pos + length seg \<le> length d) \<and> take (length seg) (drop pos d) = seg"
  by (auto simp: starts_with_def dest: arg_cong [where f = length])

lemma match_flush:
  assumes "\<forall>y \<in> set pre. plain y" and "wild_free pre" and "pos \<le> length d"
  shows "match_segments d pos (flush (render_all pre) @ segs) \<longleftrightarrow>
    symbols_match pre (drop pos d) \<and> match_segments d (pos + length pre) segs"
proof (cases pre)
  case (Cons y ys)
  then have "flush (render_all pre) = [Some (map fixed_byte pre)]"
    using assms parse_render_all [of pre] plain_literal by (auto simp: flush_def)
  with assms Cons show ?thesis
    by (auto simp: symbols_match_fixed starts_with_at)
qed (simp add: flush_def)

lemma wild_loop_hex:
  "wild_loop cur (render (Hex x) @ s) = wild_loop (cur @ render (Hex x)) s"
  by (simp add: esc_def)

lemma match_wild_loop:
  assumes "\<forall>y \<in> set pre \<union> set syms. plain y" and "wild_free pre" and "pos \<le> length d"
  shows "match_segments d pos (wild_loop (render_all pre) (render_all syms)) \<longleftrightarrow>
    symbols_match (pre @ syms) (drop pos d)"
  using assms
proof (induction syms arbitrary: pre pos)
  case Nil
  then show ?case using match_flush [of pre pos d "[]"] by simp
next
  case (Cons y ys)
  have step: "wild_loop (render_all pre) (render_all (y # ys)) = wild_loop (render_all (pre @ [y])) (render_all ys)"
    if "y \<noteq> Wild"
  proof (cases y)
    case (Hex x)
    then show ?thesis using wild_loop_hex [of "render_all pre" x "render_all ys"] by simp
  qed (use that Cons.prems in \<open>auto simp: plain_def\<close>)
  show ?case
  proof (cases "y = Wild")
    case False
    with Cons.IH [of "pre @ [y]" pos] Cons.prems step show ?thesis by auto
  next
    case True
    have rest: "match_segments d (Suc p) (wild_loop [] (render_all ys)) \<longleftrightarrow> symbols_match ys (drop (Suc p) d)"
      if "Suc p \<le> length d" for p
      using Cons.IH [of "[]" "Suc p"] Cons.prems that by simp
    show ?thesis
      using True Cons.prems match_flush [of pre pos d "None # wild_loop [] (render_all ys)"] rest [of "pos + length pre"]
      by (auto simp: symbols_match_append tl_drop Suc_le_eq drop_Suc add.commute)
  qed
qed

text \<open>A signature read as symbols: the pattern with optional anchors, and the substring.\<close>

definition pattern_text :: "bool \<Rightarrow> bool \<Rightarrow> symbol list \<Rightarrow> string" where
  "pattern_text a z syms = (if a then ''^'' else []) @ render_all syms @ (if z then ''$'' else [])"

definition reads_as :: "signature \<Rightarrow> symbol list \<Rightarrow> symbol list \<Rightarrow> bool" where
  "reads_as sg pat sub \<longleftrightarrow>
     (\<forall>y \<in> set pat. plain y) \<and> (\<forall>y \<in> set sub. literal y) \<and> sg_contains sg = render_all sub \<and>
     (\<exists>a z. sg_pattern sg = pattern_text a z pat \<and>
       (\<not> a \<longrightarrow> pat \<noteq> [] \<longrightarrow> hd pat \<noteq> Lit (CHR ''^'')) \<and>
       (\<not> z \<longrightarrow> pat \<noteq> [] \<longrightarrow> last pat \<noteq> Lit (CHR ''$'')))"

text \<open>What a signature accepts, without compiling it.\<close>

definition accepts :: "signature \<Rightarrow> symbol list \<Rightarrow> symbol list \<Rightarrow> bytes \<Rightarrow> bool" where
  "accepts sg pat sub data \<longleftrightarrow>
     (let n = int (length data) in
      (0 < sg_minLength sg \<longrightarrow> sg_minLength sg \<le> n) \<and> (0 < sg_maxLength sg \<longrightarrow> n \<le> sg_maxLength sg) \<and>
      (if sub \<noteq> [] then sublist (map fixed_byte sub) data
       else (0 < sg_offset sg \<longrightarrow> sg_offset sg < n) \<and>
         (if pat \<noteq> [] then symbols_match pat (drop (nat (sg_offset sg)) data)
          else sg_minLength sg \<noteq> 0 \<or> data = [])))"

lemma has_prefix_one: "has_prefix s [c] \<longleftrightarrow> s \<noteq> [] \<and> hd s = c"
  by (cases s) (auto simp: has_prefix_def)

lemma has_suffix_one: "has_suffix s [c] \<longleftrightarrow> s \<noteq> [] \<and> last s = c"
  by (cases s rule: rev_cases) (auto simp: has_suffix_def)

lemma hex_digit_not [simp]:
  "n < 16 \<Longrightarrow> hex_digit n \<noteq> CHR ''$''" "n < 16 \<Longrightarrow> hex_digit n \<noteq> CHR ''^''"
  using hex_val_digit [of n] by (auto simp: hex_val_def)

lemma unat_div16 [simp]: "unat (x :: byte) div 16 < 16"
proof -
  have "unat x < 256" using unsigned_less [of x, where ?'a = nat] by simp
  then show ?thesis by auto
qed

lemma hd_render: "hd (render y) = CHR ''^'' \<longleftrightarrow> y = Lit (CHR ''^'')"
  by (cases y) (auto simp: esc_def)

lemma last_render: "last (render y) = CHR ''$'' \<longleftrightarrow> y = Lit (CHR ''$'')"
  by (cases y) auto

lemma hd_render_all: "pat \<noteq> [] \<Longrightarrow> hd (render_all pat) = hd (render (hd pat))"
  by (cases pat) auto

lemma last_render_all: "pat \<noteq> [] \<Longrightarrow> last (render_all pat) = last (render (last pat))"
  by (cases pat rule: rev_cases) auto

lemma dot_render_all: "\<forall>y \<in> set pat. plain y \<Longrightarrow> dot \<in> set (render_all pat) \<longleftrightarrow> \<not> wild_free pat"
proof (induction pat)
  case (Cons y ys)
  then show ?case
    using hex_digit_plain by (cases y) (auto simp: plain_def esc_def dest: sym)
qed simp

lemma trim_anchors:
  assumes "reads_as sg pat sub"
  shows "trim_suffix (trim_prefix (sg_pattern sg) ''^'') ''$'' = render_all pat"
proof -
  obtain a z where sg: "sg_pattern sg = pattern_text a z pat"
    and a: "\<not> a \<Longrightarrow> pat \<noteq> [] \<Longrightarrow> hd pat \<noteq> Lit (CHR ''^'')"
    and z: "\<not> z \<Longrightarrow> pat \<noteq> [] \<Longrightarrow> last pat \<noteq> Lit (CHR ''$'')"
    using assms by (auto simp: reads_as_def)
  have pre: "trim_prefix (sg_pattern sg) ''^'' = render_all pat @ (if z then ''$'' else [])"
    using a by (cases a; cases "pat = []")
      (auto simp: sg pattern_text_def trim_prefix_def has_prefix_one hd_render hd_render_all hd_append)
  show ?thesis
    unfolding pre using z
    by (cases z; cases "pat = []")
      (auto simp: trim_suffix_def has_suffix_one last_render last_render_all)
qed

lemma compile_reads:
  assumes r: "reads_as (pc_signature p) pat sub"
  shows "cp_config (compile_probe p) = p"
    and "cp_contains (compile_probe p) = map fixed_byte sub"
    and "cp_hasWildcard (compile_probe p) \<longleftrightarrow> \<not> wild_free pat"
    and "\<not> wild_free pat \<Longrightarrow> cp_segments (compile_probe p) = wild_loop [] (render_all pat)"
    and "wild_free pat \<Longrightarrow> cp_hexPrefix (compile_probe p) = map fixed_byte pat"
proof -
  have pl: "\<forall>y \<in> set pat. plain y" and sub: "\<forall>y \<in> set sub. literal y"
    and co: "sg_contains (pc_signature p) = render_all sub"
    using r by (auto simp: reads_as_def)
  have dots: "dot \<in> set (render_all pat) \<longleftrightarrow> \<not> wild_free pat"
    using pl by (rule dot_render_all)
  have empty: "pat = []" if "sg_pattern (pc_signature p) = []"
    using r that by (auto simp: reads_as_def pattern_text_def)
  have fixed: "parseHexPattern (render_all pat) = map fixed_byte pat" if "wild_free pat"
    using pl that plain_literal by (intro parse_render_all) auto
  note defs = compile_probe_def compile_pattern_def Let_def trim_anchors [OF r] dots
    parsePatternWithWildcards_def
  show "cp_config (compile_probe p) = p" by (simp add: defs)
  show "cp_contains (compile_probe p) = map fixed_byte sub"
    using parse_render_all [OF sub] by (auto simp: defs co)
  show "cp_hasWildcard (compile_probe p) \<longleftrightarrow> \<not> wild_free pat"
    using empty by (auto simp: defs simp del: set_concat)
  show "cp_segments (compile_probe p) = wild_loop [] (render_all pat)" if "\<not> wild_free pat"
    using that empty by (auto simp: defs simp del: set_concat)
  show "cp_hexPrefix (compile_probe p) = map fixed_byte pat" if "wild_free pat"
    using that empty fixed by (auto simp: defs simp del: set_concat)
qed

lemma matchProbe_accepts:
  assumes "reads_as (pc_signature p) pat sub"
  shows "matchProbe (compile_probe p) data \<longleftrightarrow> accepts (pc_signature p) pat sub data"
proof -
  note c = compile_reads [OF assms]
  have pl: "\<forall>y \<in> set pat. plain y" using assms by (simp add: reads_as_def)
  have wild: "matchWithWildcards d (cp_segments (compile_probe p)) \<longleftrightarrow> symbols_match pat d"
    if "\<not> wild_free pat" for d
    using match_wild_loop [of "[]" pat 0 d] pl that c by (simp add: matchWithWildcards_def)
  have fixed: "starts_with d (cp_hexPrefix (compile_probe p)) \<longleftrightarrow> symbols_match pat d" if "wild_free pat" for d
    using that c by (simp add: symbols_match_fixed)
  have off: "(if 0 < sg_offset sg then drop (nat (sg_offset sg)) data else data) = drop (nat (sg_offset sg)) data"
    for sg :: signature by simp
  show ?thesis
  proof (cases "wild_free pat")
    case True
    have "cp_hexPrefix (compile_probe p) = [] \<longleftrightarrow> pat = []" using True c by simp
    with True show ?thesis
      unfolding matchProbe_def accepts_def Let_def c(1,2) off
      by (simp add: c(3) fixed bytes_contains_iff not_less not_le)
  next
    case False
    then have "pat \<noteq> []" by auto
    with False show ?thesis
      unfolding matchProbe_def accepts_def Let_def c(1,2) off
      by (simp add: c(3) wild bytes_contains_iff not_less not_le)
  qed
qed

text \<open>C21. Compiled matching is matching the manifest: for probes whose patterns are read as
  symbols, \<open>Match\<close> returns the first probe in manifest order whose \<open>requires\<close> conditions hold and
  whose signature accepts the data byte for byte, and nothing when there is none.\<close>

theorem match_exact:
  assumes "\<forall>p \<in> set probes. reads_as (pc_signature p) (pat p) (sub p)"
  shows "match_first (newProbeMatcher probes opts) data =
    find (\<lambda>p. probeRequirementsMet p opts \<and> accepts (pc_signature p) (pat p) (sub p) data) probes"
  using assms
  by (induction probes) (auto simp: newProbeMatcher_def matchProbe_accepts compile_reads(1))

text \<open>The signatures of the SMB and Redis manifests, as the theorem reads them.\<close>

definition smb1_probe :: probe_config where
  "smb1_probe = \<lparr>pc_name = ''smb1_negotiate'',
     pc_signature = \<lparr>sg_pattern = CHR 0x5C # ''x00...'' @ CHR 0x5C # ''xffSMBr'', sg_contains = [],
       sg_offset = 0, sg_minLength = 36, sg_maxLength = 0\<rparr>,
     pc_responseFile = ''r.bin'', pc_rules = [], pc_requires = [(''smb1_enabled'', ''true'')]\<rparr>"

definition any_probe :: probe_config where
  "any_probe = \<lparr>pc_name = ''any'',
     pc_signature = \<lparr>sg_pattern = [], sg_contains = ''PING'', sg_offset = 0, sg_minLength = 4, sg_maxLength = 0\<rparr>,
     pc_responseFile = ''pong.bin'', pc_rules = [], pc_requires = []\<rparr>"

definition smb1_symbols :: "symbol list" where
  "smb1_symbols = [Hex 0, Wild, Wild, Wild, Hex 255, Lit (CHR ''S''), Lit (CHR ''M''), Lit (CHR ''B''), Lit (CHR ''r'')]"

lemma example_reads:
  "reads_as (pc_signature smb1_probe) smb1_symbols []"
  "reads_as (pc_signature any_probe) [] (map Lit ''PING'')"
proof -
  have a: "sg_pattern (pc_signature smb1_probe) = pattern_text False False smb1_symbols"
    "sg_pattern (pc_signature any_probe) = pattern_text False False []"
    "sg_contains (pc_signature any_probe) = render_all (map Lit ''PING'')"
    by code_simp+
  have b: "\<forall>y \<in> set smb1_symbols. plain y" "\<forall>y \<in> set (map Lit ''PING''). literal y"
    by code_simp+
  show "reads_as (pc_signature smb1_probe) smb1_symbols []"
    using a(1) b(1) by (auto simp: reads_as_def smb1_probe_def smb1_symbols_def)
  show "reads_as (pc_signature any_probe) [] (map Lit ''PING'')"
    using a(2,3) b(2) by (auto simp: reads_as_def)
qed

lemma match_exact_witness:
  "match_first (newProbeMatcher [smb1_probe, any_probe] [''smb1_enabled'' \<mapsto> ''false''])
     (bytes_of ''*1 PING'') = Some any_probe"
proof -
  have distinct: "smb1_probe \<noteq> any_probe" by (simp add: smb1_probe_def any_probe_def)
  have gated: "\<not> probeRequirementsMet smb1_probe [''smb1_enabled'' \<mapsto> ''false'']"
    by (simp add: probeRequirementsMet_def smb1_probe_def)
  have open_for_all: "probeRequirementsMet any_probe o'" for o'
    by (simp add: probeRequirementsMet_def any_probe_def)
  have "sublist (map fixed_byte (map Lit ''PING'')) (bytes_of ''*1 PING'')"
    by (simp add: sublist_def) (metis append_Nil append_Nil2 append_Cons)
  then have acc: "accepts (pc_signature any_probe) [] (map Lit ''PING'') (bytes_of ''*1 PING'')"
    by (simp add: accepts_def any_probe_def)
  show ?thesis
    using match_exact [of "[smb1_probe, any_probe]" "\<lambda>p. if p = smb1_probe then smb1_symbols else []"
        "\<lambda>p. if p = smb1_probe then [] else map Lit ''PING''" "[''smb1_enabled'' \<mapsto> ''false'']" "bytes_of ''*1 PING''"]
      example_reads distinct gated open_for_all acc by auto
qed

text \<open>Greetings stay greetings: a probe with neither pattern nor substring nor minimum length
  is returned only for the empty buffer of a fresh connection, whatever its other fields are.\<close>

theorem banner_only_on_connect:
  assumes "match_first (newProbeMatcher probes opts) data = Some p" and "data \<noteq> []"
  shows "sg_pattern (pc_signature p) \<noteq> [] \<or> sg_contains (pc_signature p) \<noteq> [] \<or>
    sg_minLength (pc_signature p) \<noteq> 0"
proof -
  have "\<exists>q. p = q \<and> matchProbe (compile_probe q) data"
    using assms(1)
    by (induction probes)
      (auto simp: newProbeMatcher_def compile_probe_def compile_pattern_def Let_def split: if_splits)
  then show ?thesis
    using assms(2) by (auto simp: matchProbe_def compile_probe_def compile_pattern_def Let_def split: if_splits)
qed

lemma banner_only_on_connect_witness:
  "sg_minLength (pc_signature any_probe) \<noteq> 0 \<or> sg_contains (pc_signature any_probe) \<noteq> []"
  using banner_only_on_connect [of "[any_probe]" Map.empty "bytes_of ''PING''" any_probe]
  by (simp add: newProbeMatcher_def probeRequirementsMet_def any_probe_def compile_probe_def compile_pattern_def
      matchProbe_def Let_def)

text \<open>A length-only probe needs a minimum: with only a maximum it never matches data.\<close>

lemma max_length_alone_never_matches:
  assumes "sg_pattern (pc_signature p) = []" and "sg_contains (pc_signature p) = []"
    and "sg_minLength (pc_signature p) = 0" and "data \<noteq> []"
  shows "\<not> matchProbe (compile_probe p) data"
  using assms by (auto simp: matchProbe_def compile_probe_def compile_pattern_def Let_def)

end
