(* ===== verification/Go_Date.thy ===== *)
theory Go_Date
  imports Main
begin

text \<open>
  Civil dates of Go's \<open>time\<close> package: the date of a day number and the digits that
  \<open>Time.Format\<close> prints.
\<close>

text \<open>The civil date of a day number counted from 1 January 1970, in the proleptic Gregorian
  calendar of \<open>time.Time\<close>: years start on 1 March inside an era of 400 years.\<close>

definition civil_of_days :: "int \<Rightarrow> int \<times> nat \<times> nat" where
  "civil_of_days z0 =
     (let z = z0 + 719468;
          era = z div 146097; doe = z mod 146097;
          yoe = (doe - doe div 1460 + doe div 36524 - doe div 146096) div 365;
          doy = doe - (365 * yoe + yoe div 4 - yoe div 100);
          mp = (5 * doy + 2) div 153;
          d = doy - (153 * mp + 2) div 5 + 1;
          m = (if mp < 10 then mp + 3 else mp - 9);
          y = yoe + era * 400 + (if m \<le> 2 then 1 else 0)
      in (y, nat m, nat d))"

definition month_names :: "string list" where
  "month_names = [''Jan'', ''Feb'', ''Mar'', ''Apr'', ''May'', ''Jun'', ''Jul'', ''Aug'', ''Sep'', ''Oct'', ''Nov'', ''Dec'']"

definition day_names :: "string list" where
  "day_names = [''Sun'', ''Mon'', ''Tue'', ''Wed'', ''Thu'', ''Fri'', ''Sat'']"

definition two_digits :: "nat \<Rightarrow> string" where
  "two_digits n = [char_of (48 + n div 10 mod 10), char_of (48 + n mod 10)]"

text \<open>A year from 0 to 9999; the clock of an \<open>int64\<close> of nanoseconds stays between 1677 and 2262.\<close>

definition four_digits :: "int \<Rightarrow> string" where
  "four_digits y = two_digits (nat (y div 100)) @ two_digits (nat (y mod 100))"

end
