(* ===== verification/Rewrite_Rules.thy ===== *)
theory Rewrite_Rules
  imports Probe_Matcher Deception_Config Go_Date
begin

text \<open>
  Rewriting a response template (\<open>internal/services/responder.go\<close>): \<open>applyRule\<close> and the encoders
  it calls.

  What the process observes at run time is a record \<open>surrounds\<close>: the clock in nanoseconds, the
  bytes the random source would deliver (\<open>None\<close> for its error) and the host's egress address.
  A rule either fails with an error value, or panics (\<open>None\<close>), or leaves the new response.  The
  sum \<open>Offset + Length\<close> is taken on 64-bit machine integers, as in Go.
\<close>

section \<open>Encoders\<close>

definition upper_ascii :: "byte \<Rightarrow> byte" where
  "upper_ascii b = (if 97 \<le> b \<and> b \<le> 122 then b - 32 else b)"

text \<open>The first 15 bytes upper-cased, padded with spaces, and the suffix.\<close>

definition formatNetBIOSName :: "string \<Rightarrow> byte \<Rightarrow> bytes" where
  "formatNetBIOSName name sfx =
     map (\<lambda>i. if i < length name then upper_ascii (byte_of (name ! i)) else 32) [0..<15] @ [sfx]"

definition encode_nibbles :: "bytes \<Rightarrow> bytes" where
  "encode_nibbles bs = concat (map (\<lambda>b. [65 + drop_bit 4 b, 65 + (b AND 0x0F)]) bs)"

definition encodeNetBIOSName :: "string \<Rightarrow> int \<Rightarrow> bytes" where
  "encodeNetBIOSName name maxLen =
     (let encoded = encode_nibbles (formatNetBIOSName name 0)
      in if 0 < maxLen \<and> maxLen < int (length encoded) then take (nat maxLen) encoded else encoded)"

definition parseMAC :: "string \<Rightarrow> bytes option" where
  "parseMAC mac =
     (let clean = filter (\<lambda>c. c \<noteq> CHR '':'' \<and> c \<noteq> CHR ''-'' \<and> c \<noteq> CHR ''.'') mac
      in if length clean \<noteq> 12 then None else hex_decode clean)"

text \<open>The generator of \<open>generateGUID\<close> and \<open>generateRandomMAC\<close>: a 64-bit linear congruence started
  from the clock, whose right shifts are arithmetic.\<close>

definition lcg :: "u64 \<Rightarrow> u64" where
  "lcg n = n * 1103515245 + 12345"

fun lcg_bytes :: "nat \<Rightarrow> nat \<Rightarrow> nat \<Rightarrow> u64 \<Rightarrow> bytes" where
  "lcg_bytes 0 i w s = []"
| "lcg_bytes (Suc k) i w s = ucast (signed_drop_bit (i * w) s) # lcg_bytes k (Suc i) w (lcg s)"

definition generateGUID :: "u64 \<Rightarrow> bytes" where
  "generateGUID now =
     (let g = lcg_bytes 16 0 4 now;
          g1 = g[6 := (g ! 6 AND 0x0F) OR 0x40]
      in g1[8 := (g1 ! 8 AND 0x3F) OR 0x80])"

definition generateRandomMAC :: "u64 \<Rightarrow> string" where
  "generateRandomMAC now =
     (let m = lcg_bytes 6 0 8 now in hex_encode (m[0 := (m ! 0 OR 0x02) AND 0xFE]))"

definition responder_parseIPv4 :: "string \<Rightarrow> bytes option" where
  "responder_parseIPv4 s = (case parseIP (trim_space s) of None \<Rightarrow> None | Some ip \<Rightarrow> to4 ip)"

section \<open>The current date as an HTTP header value\<close>

definition http_date :: "int \<Rightarrow> string" where
  "http_date nanos =
     (let secs = nanos div 1000000000; day = secs div 86400; sod = nat (secs mod 86400);
          (y, m, d) = civil_of_days day
      in day_names ! nat ((day + 4) mod 7) @ '', '' @ two_digits d @ '' '' @ month_names ! (m - 1) @ '' '' @
         four_digits y @ '' '' @ two_digits (sod div 3600) @ '':'' @ two_digits (sod mod 3600 div 60) @ '':'' @
         two_digits (sod mod 60) @ '' GMT'')"

section \<open>Applying a rule\<close>

record surrounds =
  su_now :: int                              \<comment> \<open>\<open>time.Now().UnixNano()\<close>\<close>
  su_random :: "(nat \<Rightarrow> byte) option"      \<comment> \<open>what \<open>crypto/rand.Read\<close> fills a buffer with\<close>
  su_hostIP :: "bytes option"                \<comment> \<open>\<open>hostEgressIPv4()\<close>\<close>

datatype rule_error =
    OffsetOutOfBounds | LengthExceeds | TooShort string | RandomFails | BadToken string
  | UnknownCredential string | UnknownType string

type_synonym outcome = "(rule_error + bytes) option"  \<comment> \<open>\<open>None\<close>: a panic\<close>

definition wrap64 :: "int \<Rightarrow> int" where
  "wrap64 i = (i + 2 ^ 63) mod 2 ^ 64 - 2 ^ 63"

definition filetime :: "int \<Rightarrow> u64" where
  "filetime nanos =
     of_int (if nanos < 0 then - (- nanos div 100) else nanos div 100) + 116444736000000000"

definition unix_seconds :: "int \<Rightarrow> u64" where
  "unix_seconds nanos = of_int (nanos div 1000000000)"

text \<open>The first non-empty of the values.\<close>

definition first_set :: "string list \<Rightarrow> string" where
  "first_set vs = (case filter (\<lambda>v. v \<noteq> []) vs of [] \<Rightarrow> [] | v # _ \<Rightarrow> v)"

text \<open>\<open>nameBytes = nameBytes[:len]\<close> when longer, then \<open>copy(response[off:fin], nameBytes)\<close>.  Both
  slices are checked: a negative length panics in the first.\<close>

definition put_text :: "bytes \<Rightarrow> int \<Rightarrow> int \<Rightarrow> int \<Rightarrow> bytes \<Rightarrow> outcome" where
  "put_text response off len fin t =
     (if (len < 0 \<and> len < int (length t)) \<or> fin < off then None
      else Some (Inr (copy_within response (nat off) (nat (fin - off)) (take (nat len) t))))"

text \<open>\<open>copy(response[off:fin], t)\<close> and \<open>binary.LittleEndian.PutUint64(response[off:], v)\<close>.\<close>

definition put_slice :: "bytes \<Rightarrow> int \<Rightarrow> int \<Rightarrow> bytes \<Rightarrow> outcome" where
  "put_slice response off fin t =
     (if fin < off then None else Some (Inr (copy_within response (nat off) (nat (fin - off)) t)))"

definition put_uint :: "bytes \<Rightarrow> int \<Rightarrow> bytes \<Rightarrow> outcome" where
  "put_uint response off v = map_option Inr (copy_at response (nat off) v)"

definition put_copy :: "bytes \<Rightarrow> int \<Rightarrow> bytes \<Rightarrow> outcome" where
  "put_copy response off t = Some (Inr (copy_to response (nat off) t))"

text \<open>\<open>host_ip\<close>: the scan replaces and goes on one byte further, so it also looks at windows that
  overlap a replacement.\<close>

function replace_ip :: "bytes \<Rightarrow> bytes \<Rightarrow> bytes \<Rightarrow> bytes" where
  "replace_ip capIP host xs =
     (if length xs < 4 then xs
      else let ys = (if take 4 xs = capIP then copy_within xs 0 4 host else xs)
           in hd ys # replace_ip capIP host (tl ys))"
  by pat_completeness auto
termination
  by (relation "measure (\<lambda>(_, _, xs). length xs)") auto

declare replace_ip.simps [simp del]

text \<open>\<open>dcerpc_callid\<close>: the walk over the fragments of a reply.\<close>

definition frag_len :: "bytes \<Rightarrow> nat" where
  "frag_len xs = unat (xs ! 8) + 256 * unat (xs ! 9)"

function set_call_ids :: "bytes \<Rightarrow> bytes \<Rightarrow> bytes" where
  "set_call_ids callID xs =
     (if length xs < 16 \<or> xs ! 0 \<noteq> 5 \<or> frag_len xs < 16 \<or> length xs < frag_len xs then xs
      else copy_within (take (frag_len xs) xs) 12 4 callID @ set_call_ids callID (drop (frag_len xs) xs))"
  by pat_completeness auto
termination
  by (relation "measure (\<lambda>(_, xs). length xs)") auto

declare set_call_ids.simps [simp del]

definition put_date :: "bytes \<Rightarrow> bytes \<Rightarrow> bytes" where
  "put_date response now =
     (case index_of response (bytes_of ''Date: '') of
        Some idx \<Rightarrow> if idx + 6 + length now \<le> length response then overwrite response (idx + 6) now else response
      | None \<Rightarrow> response)"

text \<open>The switch over the rule type, after the bounds checks; \<open>fin\<close> is \<open>Offset + Length\<close>.\<close>

definition rule_action ::
  "surrounds \<Rightarrow> options \<Rightarrow> int \<Rightarrow> cred_store option \<Rightarrow> bytes \<Rightarrow> rewrite_rule \<Rightarrow> int \<Rightarrow> bytes \<Rightarrow> outcome" where
  "rule_action su opts boot store probe rule fin response =
     (let off = rr_offset rule; len = rr_length rule; t = rr_type rule; same = Some (Inr response) in
      if t = ''timestamp'' then
        (if len < 8 then Some (Inl (TooShort t)) else put_uint response off (enc_le 8 (filetime (su_now su))))
      else if t = ''timestamp_past'' then
        (if len < 8 then Some (Inl (TooShort t)) else put_uint response off (enc_le 8 (filetime boot)))
      else if t = ''timestamp_unix'' then
        (if 8 \<le> len then put_uint response off (enc_le 8 (unix_seconds (su_now su)))
         else if 4 \<le> len then put_uint response off (enc_le 4 (unix_seconds (su_now su)))
         else same)
      else if t = ''guid'' then
        (if len < 16 then Some (Inl (TooShort t)) else put_copy response off (generateGUID (of_int (su_now su))))
      else if t = ''random'' then
        (if fin < off then None
         else case su_random su of
             None \<Rightarrow> Some (Inl RandomFails)
           | Some f \<Rightarrow> put_slice response off fin (map f [0..<nat (fin - off)]))
      else if t \<in> {''seq'', ''ip'', ''port''} then same
      else if t = ''echo'' then
        (if fin \<le> int (length probe) then put_slice response off fin (take (nat (fin - off)) (drop (nat off) probe))
         else same)
      else if t = ''netbios_name'' then
        put_slice response off fin
          (encodeNetBIOSName (first_set [opt_get opts ''netbios_name'', ''WORKSTATION'']) len)
      else if t = ''hostname'' then
        put_text response off len fin
          (bytes_of (first_set [opt_get opts ''hostname'', opt_get opts ''netbios_name'', ''workstation'']))
      else if t = ''domain'' then
        put_text response off len fin (bytes_of (first_set [opt_get opts ''domain'', ''WORKGROUP'']))
      else if t = ''mac_address'' then
        (case parseMAC (first_set [opt_get opts ''mac_address'', generateRandomMAC (of_int (su_now su))]) of
           Some m \<Rightarrow> if length m = 6 \<and> 6 \<le> len then put_copy response off m else same
         | None \<Rightarrow> same)
      else if t = ''nbns_name'' then
        (if 16 \<le> len
         then put_copy response off (formatNetBIOSName (first_set [opt_get opts ''netbios_name'', ''WORKSTATION'']) 0)
         else same)
      else if t = ''nbns_domain'' then
        (if 16 \<le> len
         then put_copy response off (formatNetBIOSName (first_set [opt_get opts ''domain'', ''WORKGROUP'']) 0)
         else same)
      else if t = ''http_date'' then Some (Inr (put_date response (bytes_of (http_date (su_now su)))))
      else if t = ''dcerpc_callid'' then
        (if length probe < 16 \<or> probe ! 0 \<noteq> 5 then same
         else Some (Inr (set_call_ids (take 4 (drop 12 probe)) response)))
      else if t = ''host_ip'' then
        (case responder_parseIPv4 (rr_token rule) of
           None \<Rightarrow> Some (Inl (BadToken (rr_token rule)))
         | Some capIP \<Rightarrow>
             (case su_hostIP su of None \<Rightarrow> same | Some host \<Rightarrow> Some (Inr (replace_ip capIP host response))))
      else if t = ''leak'' then
        (case store of
           None \<Rightarrow> same
         | Some _ \<Rightarrow>
             (case leakString store (rr_token rule) of
                None \<Rightarrow> Some (Inl (UnknownCredential (rr_token rule)))
              | Some ls \<Rightarrow>
                  put_text (overwrite response (nat off) (replicate (nat (fin - off)) 0)) off len fin (bytes_of ls)))
      else Some (Inl (UnknownType t)))"

definition applyRule ::
  "surrounds \<Rightarrow> options \<Rightarrow> int \<Rightarrow> cred_store option \<Rightarrow> bytes \<Rightarrow> rewrite_rule \<Rightarrow> bytes \<Rightarrow> outcome" where
  "applyRule su opts boot store probe rule response =
     (let n = int (length response); fin = wrap64 (rr_offset rule + rr_length rule) in
      if rr_offset rule < 0 \<or> n \<le> rr_offset rule then Some (Inl OffsetOutOfBounds)
      else if n < fin then Some (Inl LengthExceeds)
      else rule_action su opts boot store probe rule fin response)"

fun applyRules ::
  "surrounds \<Rightarrow> options \<Rightarrow> int \<Rightarrow> cred_store option \<Rightarrow> bytes \<Rightarrow> rewrite_rule list \<Rightarrow> bytes \<Rightarrow> outcome" where
  "applyRules su opts boot store probe [] response = Some (Inr response)"
| "applyRules su opts boot store probe (rule # rules) response =
     (case applyRule su opts boot store probe rule response of
        None \<Rightarrow> None
      | Some (Inl e) \<Rightarrow> Some (Inl e)
      | Some (Inr r) \<Rightarrow> applyRules su opts boot store probe rules r)"

section \<open>Rules are safe and stay in their window\<close>

lemma wrap64_id: "- (2 ^ 63) \<le> i \<Longrightarrow> i < 2 ^ 63 \<Longrightarrow> wrap64 i = i"
  by (simp add: wrap64_def)

text \<open>\<open>b'\<close> has the length of \<open>b\<close> and differs from it at most in \<open>[i, i + n)\<close>.\<close>

definition same_outside :: "nat \<Rightarrow> nat \<Rightarrow> bytes \<Rightarrow> bytes \<Rightarrow> bool" where
  "same_outside i n b b' \<longleftrightarrow>
     length b' = length b \<and> (\<forall>j < length b. j < i \<or> i + n \<le> j \<longrightarrow> b' ! j = b ! j)"

lemma same_outside_refl [simp]: "same_outside i n b b"
  by (simp add: same_outside_def)

lemma same_outside_trans:
  "same_outside i n a b \<Longrightarrow> same_outside i n b c \<Longrightarrow> same_outside i n a c"
  by (simp add: same_outside_def)

lemma same_outside_overwrite:
  "length xs \<le> n \<Longrightarrow> i + length xs \<le> length b \<Longrightarrow> same_outside i n b (overwrite b i xs)"
  by (auto simp: same_outside_def nth_overwrite_out)

lemma same_outside_within:
  "i + n \<le> length b \<Longrightarrow> same_outside i n b (copy_within b i n xs)"
  unfolding copy_within_def by (intro same_outside_overwrite) auto

lemma same_outside_copy_to:
  "length xs \<le> n \<Longrightarrow> i \<le> length b \<Longrightarrow> same_outside i n b (copy_to b i xs)"
  unfolding copy_to_def by (intro same_outside_overwrite) auto

lemma length_nibbles [simp]: "length (encode_nibbles bs) = 2 * length bs"
  by (induction bs) (auto simp: encode_nibbles_def)

lemma length_formatNetBIOSName [simp]: "length (formatNetBIOSName name s) = 16"
  by (simp add: formatNetBIOSName_def)

lemma length_lcg_bytes [simp]: "length (lcg_bytes k i w s) = k"
  by (induction k i w s rule: lcg_bytes.induct) auto

lemma length_generateGUID [simp]: "length (generateGUID now) = 16"
  by (simp add: generateGUID_def Let_def)

lemma length_replace_ip [simp]: "length (replace_ip c h xs) = length xs"
proof (induction c h xs rule: replace_ip.induct)
  case (1 c h xs)
  then show ?case by (subst replace_ip.simps) (auto simp: Let_def)
qed

lemma length_set_call_ids [simp]: "length (set_call_ids c xs) = length xs"
proof (induction c xs rule: set_call_ids.induct)
  case (1 c xs)
  then show ?case by (subst set_call_ids.simps) auto
qed

lemma length_put_date [simp]: "length (put_date r now) = length r"
  by (auto simp: put_date_def split: option.splits)

text \<open>What is left of a rule in range: a window of naturals.\<close>

definition window_ok :: "bytes \<Rightarrow> int \<Rightarrow> int \<Rightarrow> bool" where
  "window_ok r off len \<longleftrightarrow> 0 \<le> off \<and> 0 \<le> len \<and> off + len \<le> int (length r)"

text \<open>An outcome that does not panic and, if it succeeds, leaves everything outside the window.\<close>

definition tame :: "bytes \<Rightarrow> int \<Rightarrow> int \<Rightarrow> outcome \<Rightarrow> bool" where
  "tame r off len res \<longleftrightarrow>
     (case res of None \<Rightarrow> False | Some (Inl _) \<Rightarrow> True | Some (Inr r') \<Rightarrow> same_outside (nat off) (nat len) r r')"

named_theorems tame_intros \<open>the stores of a rule stay in its window\<close>

lemma tame_same [tame_intros]: "tame r off len (Some (Inr r))"
  by (simp add: tame_def)

lemma tame_error [tame_intros]: "tame r off len (Some (Inl e))"
  by (simp add: tame_def)

lemma window_nat: "window_ok r off len \<Longrightarrow> nat off + nat len \<le> length r"
  by (auto simp: window_ok_def)

lemma tame_put_slice [tame_intros]: "window_ok r off len \<Longrightarrow> tame r off len (put_slice r off (off + len) t)"
  using window_nat [of r off len] by (auto simp: tame_def put_slice_def window_ok_def intro: same_outside_within)

lemma tame_put_text [tame_intros]: "window_ok r off len \<Longrightarrow> tame r off len (put_text r off len (off + len) t)"
  using window_nat [of r off len] by (auto simp: tame_def put_text_def window_ok_def intro: same_outside_within)

lemma tame_put_uint [tame_intros]:
  "window_ok r off len \<Longrightarrow> int (length v) \<le> len \<Longrightarrow> tame r off len (put_uint r off v)"
  using window_nat [of r off len]
  by (auto simp: tame_def put_uint_def copy_at_def window_ok_def intro!: same_outside_overwrite)

lemma tame_put_copy [tame_intros]:
  "window_ok r off len \<Longrightarrow> int (length t) \<le> len \<Longrightarrow> tame r off len (put_copy r off t)"
  using window_nat [of r off len]
  by (auto simp: tame_def put_copy_def window_ok_def intro!: same_outside_copy_to)

lemma tame_leak [tame_intros]:
  assumes "window_ok r off len"
  shows "tame r off len (put_text (overwrite r (nat off) (replicate (nat len) 0)) off len (off + len) t)"
proof -
  let ?z = "overwrite r (nat off) (replicate (nat len) 0)"
  have "same_outside (nat off) (nat len) r ?z"
    using window_nat [OF assms] by (intro same_outside_overwrite) auto
  moreover have "tame ?z off len (put_text ?z off len (off + len) t)"
    using assms window_nat [OF assms] by (intro tame_put_text) (simp add: window_ok_def)
  ultimately show ?thesis
    by (auto simp: tame_def intro: same_outside_trans split: option.splits sum.splits)
qed

text \<open>The three types whose effect is not bounded by the window: they search the whole response.\<close>

definition searching :: "string set" where
  "searching = {''http_date'', ''dcerpc_callid'', ''host_ip''}"

lemma tame_if [tame_intros]:
  "(P \<Longrightarrow> tame r off len x) \<Longrightarrow> (\<not> P \<Longrightarrow> tame r off len y) \<Longrightarrow> tame r off len (if P then x else y)"
  by simp

lemma tame_option [tame_intros]:
  "(v = None \<Longrightarrow> tame r off len x) \<Longrightarrow> (\<And>z. v = Some z \<Longrightarrow> tame r off len (f z)) \<Longrightarrow>
     tame r off len (case v of None \<Rightarrow> x | Some z \<Rightarrow> f z)"
  by (cases v) auto

lemma tame_random [tame_intros]:
  "window_ok r off len \<Longrightarrow> tame r off len (if off + len < off then None else x) = tame r off len x"
  by (simp add: window_ok_def)

lemma tame_action:
  assumes "window_ok r (rr_offset rule) (rr_length rule)" and "rr_type rule \<notin> searching"
  shows "tame r (rr_offset rule) (rr_length rule)
    (rule_action su opts boot store probe rule (rr_offset rule + rr_length rule) r)"
proof -
  have n: "\<not> rr_offset rule + rr_length rule < rr_offset rule" "nat (rr_length rule) = nat (rr_offset rule + rr_length rule - rr_offset rule)"
    using assms by (auto simp: window_ok_def)
  show ?thesis
    using assms
    unfolding rule_action_def Let_def if_not_P [OF n(1)]
    by (intro tame_intros) (auto simp: searching_def intro: tame_leak)
qed

lemma searching_action:
  assumes "rr_type rule \<in> searching"
  shows "\<exists>res. rule_action su opts boot store probe rule fin r = Some res \<and> (\<forall>r'. res = Inr r' \<longrightarrow> length r' = length r)"
  using assms unfolding searching_def rule_action_def Let_def
  by (elim insertE emptyE) (auto split: option.splits)

definition rule_in_int64 :: "rewrite_rule \<Rightarrow> bool" where
  "rule_in_int64 rule \<longleftrightarrow> 0 \<le> rr_length rule \<and> rr_offset rule + rr_length rule < 2 ^ 63"

text \<open>C36. A rewrite rule never panics and never changes the length of a response, and all rules but
  the three that search the response change no byte outside their own window; so a template keeps
  its framing whatever values are written into it.\<close>

theorem rule_stays_in_window:
  assumes "rule_in_int64 rule"
  shows "\<exists>res. applyRule su opts boot store probe rule response = Some res \<and>
    (\<forall>r. res = Inr r \<longrightarrow> length r = length response \<and>
      (rr_type rule \<notin> searching \<longrightarrow>
        same_outside (nat (rr_offset rule)) (nat (rr_length rule)) response r))"
proof (cases "rr_offset rule < 0 \<or> int (length response) \<le> rr_offset rule")
  case False
  then have fin: "wrap64 (rr_offset rule + rr_length rule) = rr_offset rule + rr_length rule"
    using assms by (intro wrap64_id) (auto simp: rule_in_int64_def)
  show ?thesis
  proof (cases "int (length response) < rr_offset rule + rr_length rule")
    case True
    with False fin show ?thesis by (simp add: applyRule_def)
  next
    case small: False
    have run: "applyRule su opts boot store probe rule response =
        rule_action su opts boot store probe rule (rr_offset rule + rr_length rule) response"
      using False small fin by (simp add: applyRule_def)
    show ?thesis
    proof (cases "rr_type rule \<in> searching")
      case True
      with searching_action [OF True] run show ?thesis by fastforce
    next
      case other: False
      have "window_ok response (rr_offset rule) (rr_length rule)"
        using False small assms by (auto simp: window_ok_def rule_in_int64_def)
      from tame_action [OF this other, of su opts boot store probe] show ?thesis
        unfolding run tame_def
        by (cases "rule_action su opts boot store probe rule (rr_offset rule + rr_length rule) response")
          (auto simp: same_outside_def split: sum.splits)
    qed
  qed
qed (simp add: applyRule_def)

definition example_rule :: rewrite_rule where
  "example_rule = \<lparr>rr_offset = 2, rr_length = 4, rr_type = ''hostname'', rr_token = []\<rparr>"

definition example_surrounds :: surrounds where
  "example_surrounds = \<lparr>su_now = 0, su_random = None, su_hostIP = None\<rparr>"

lemma rule_stays_in_window_witness:
  "\<exists>res. applyRule example_surrounds [''hostname'' \<mapsto> ''server''] 0 None [] example_rule (replicate 8 0) = Some res \<and>
    (\<forall>r. res = Inr r \<longrightarrow> length r = 8 \<and> same_outside 2 4 (replicate 8 0) r)"
proof -
  have "rule_in_int64 example_rule" "rr_type example_rule \<notin> searching"
    by (auto simp: rule_in_int64_def example_rule_def searching_def)
  from rule_stays_in_window [OF this(1)] this(2) show ?thesis
    by (fastforce simp: example_rule_def)
qed

text \<open>The length is not checked: a negative one panics where the value is cut to size.\<close>

lemma negative_length_panics:
  "applyRule example_surrounds Map.empty 0 None [] (example_rule\<lparr>rr_length := -1\<rparr>) (replicate 8 0) = None"
  by code_simp

section \<open>Replayed DCE/RPC replies\<close>

text \<open>A connection-oriented fragment: version 5 and its own length in the header.\<close>

definition wf_fragment :: "bytes \<Rightarrow> bool" where
  "wf_fragment f \<longleftrightarrow> 16 \<le> length f \<and> f ! 0 = 5 \<and> frag_len f = length f"

lemma set_call_ids_fragments:
  "\<forall>f \<in> set frags. wf_fragment f \<Longrightarrow>
     set_call_ids c (concat frags) = concat (map (\<lambda>f. overwrite f 12 (take 4 c)) frags)"
proof (induction frags)
  case Nil
  then show ?case by (simp add: set_call_ids.simps)
next
  case (Cons f frags)
  then have f: "16 \<le> length f" "f ! 0 = 5" "frag_len f = length f" by (auto simp: wf_fragment_def)
  then have "frag_len (f @ concat frags) = length f" "(f @ concat frags) ! 0 = 5"
    by (auto simp: frag_len_def nth_append)
  with f Cons show ?case
    by (subst set_call_ids.simps) (simp add: copy_within_def)
qed

text \<open>Every fragment of a replayed reply answers the client's call: the call id of the probe
  is copied into the header of each fragment, wherever the fragments start, and nothing else
  changes.\<close>

theorem callid_in_every_fragment:
  assumes "rr_type rule = ''dcerpc_callid''" and "rr_offset rule = 0" and "rr_length rule = 0"
    and "\<forall>f \<in> set frags. wf_fragment f" and "frags \<noteq> []"
    and "16 \<le> length probe" and "probe ! 0 = 5"
  shows "applyRule su opts boot store probe rule (concat frags) =
    Some (Inr (concat (map (\<lambda>f. overwrite f 12 (take 4 (drop 12 probe))) frags)))"
proof -
  have "concat frags \<noteq> []"
    using assms(4,5) by (cases frags) (auto simp: wf_fragment_def)
  then show ?thesis
    using assms set_call_ids_fragments [OF assms(4), of "take 4 (drop 12 probe)"]
    by (simp add: applyRule_def rule_action_def wrap64_def)
qed

definition example_fragment :: "nat \<Rightarrow> bytes" where
  "example_fragment n = [5, 0, 2, 3, 16, 0, 0, 0, of_nat (16 + n), 0, 0, 0, 1, 0, 0, 0] @ replicate n 7"

lemma callid_in_every_fragment_witness:
  "applyRule example_surrounds Map.empty 0 None ([5, 0, 0, 3] @ replicate 8 0 @ [9, 8, 7, 6])
     \<lparr>rr_offset = 0, rr_length = 0, rr_type = ''dcerpc_callid'', rr_token = []\<rparr>
     (concat [example_fragment 2, example_fragment 1]) =
   Some (Inr ([5, 0, 2, 3, 16, 0, 0, 0, 18, 0, 0, 0, 9, 8, 7, 6, 7, 7,
               5, 0, 2, 3, 16, 0, 0, 0, 17, 0, 0, 0, 9, 8, 7, 6, 7]))"
proof -
  have wf: "\<forall>f \<in> set [example_fragment 2, example_fragment 1]. wf_fragment f"
    by code_simp
  have "concat (map (\<lambda>f. overwrite f 12 (take 4 (drop 12 ([5, 0, 0, 3] @ replicate 8 0 @ [9, 8, 7, 6]))))
      [example_fragment 2, example_fragment 1]) =
    [5, 0, 2, 3, 16, 0, 0, 0, 18, 0, 0, 0, 9, 8, 7, 6, 7, 7,
     5, 0, 2, 3, 16, 0, 0, 0, 17, 0, 0, 0, 9, 8, 7, 6, 7]"
    by code_simp
  then show ?thesis
    using callid_in_every_fragment [of _ "[example_fragment 2, example_fragment 1]"
        "[5, 0, 0, 3] @ replicate 8 0 @ [9, 8, 7, 6]", OF _ _ _ wf] by simp
qed

section \<open>NetBIOS names\<close>

fun decode_nibbles :: "bytes \<Rightarrow> bytes" where
  "decode_nibbles (a # b # r) = (push_bit 4 (a - 65) OR (b - 65)) # decode_nibbles r"
| "decode_nibbles _ = []"

lemma nibbles_back: "push_bit 4 (drop_bit 4 b) OR (b AND 0x0F) = (b :: byte)"
proof -
  have "(0x0F :: byte) = mask 4" by (simp add: mask_eq_exp_minus_1)
  then have "b AND 0x0F = take_bit 4 b" by (simp add: take_bit_eq_mask)
  moreover have "push_bit 4 (drop_bit 4 b) OR take_bit 4 b = b"
    by (rule bit_word_eqI) (auto simp: bit_simps)
  ultimately show ?thesis by simp
qed

lemma decode_encode_nibbles [simp]: "decode_nibbles (encode_nibbles bs) = bs"
  by (induction bs) (simp_all add: encode_nibbles_def nibbles_back)

lemma length_encoded_name [simp]: "length (encodeNetBIOSName name 32) = 32"
  by (simp add: encodeNetBIOSName_def)

lemma encodeNetBIOSName_32: "encodeNetBIOSName name 32 = encode_nibbles (formatNetBIOSName name 0)"
  by (simp add: encodeNetBIOSName_def)

lemma padded_name:
  assumes "length name \<le> 15" and "CHR '' '' \<notin> set name"
  shows "takeWhile (\<lambda>b. b \<noteq> 32) (take 15 (formatNetBIOSName name s)) = map (upper_ascii \<circ> byte_of) name"
proof -
  have sp: "upper_ascii (byte_of c) \<noteq> 32" if "c \<in> set name" for c
  proof
    assume h: "upper_ascii (byte_of c) = 32"
    have "byte_of c = 32"
    proof (cases "97 \<le> byte_of c \<and> byte_of c \<le> 122")
      case True
      with h have "byte_of c = 64" by (simp add: upper_ascii_def diff_eq_eq)
      with True show ?thesis by simp
    next
      case False
      with h show ?thesis by (simp only: upper_ascii_def if_False)
    qed
    then have "char_of_byte (byte_of c) = char_of_byte 32" by simp
    moreover have "char_of_byte 32 = CHR '' ''" by code_simp
    ultimately have "c = CHR '' ''" unfolding char_of_byte_of by simp
    with that assms(2) show False by simp
  qed
  have "take 15 (formatNetBIOSName name s) =
      map (upper_ascii \<circ> byte_of) name @ replicate (15 - length name) 32"
    using assms(1)
    by (intro nth_equalityI) (auto simp: formatNetBIOSName_def nth_append)
  moreover have "takeWhile (\<lambda>b. b \<noteq> 32) (map (upper_ascii \<circ> byte_of) name @ replicate n 32) =
      map (upper_ascii \<circ> byte_of) name @ takeWhile (\<lambda>b. b \<noteq> 32) (replicate n 32)" for n
    using sp by (intro takeWhile_append2) auto
  ultimately show ?thesis
    by (simp add: takeWhile_replicate)
qed

text \<open>The NetBIOS name in a response is the configured one: the 32 bytes that a
  \<open>netbios_name\<close> rule writes decode to a padded name and the workstation suffix, and a
  name of at most 15 characters without spaces is read back upper-cased.\<close>

theorem netbios_name_roundtrip:
  assumes "rr_type rule = ''netbios_name''" and "rr_length rule = 32"
    and "0 \<le> rr_offset rule" and "rr_offset rule + 32 \<le> int (length response)"
    and "length response < 2 ^ 62"
    and "opts ''netbios_name'' = Some name" and "name \<noteq> []" and "length name \<le> 15" and "CHR '' '' \<notin> set name"
  shows "\<exists>r. applyRule su opts boot store probe rule response = Some (Inr r) \<and>
    (let field = decode_nibbles (take 32 (drop (nat (rr_offset rule)) r))
     in takeWhile (\<lambda>b. b \<noteq> 32) (take 15 field) = map (upper_ascii \<circ> byte_of) name \<and> drop 15 field = [0])"
proof -
  let ?off = "nat (rr_offset rule)" and ?enc = "encodeNetBIOSName name 32"
  have "applyRule su opts boot store probe rule response = Some (Inr (overwrite response ?off ?enc))"
    using assms
    by (simp add: applyRule_def rule_action_def wrap64_id put_slice_def copy_within_def
        first_set_def opt_get_def)
  moreover have "take 32 (drop ?off (overwrite response ?off ?enc)) = ?enc"
    using assms by (intro take_drop_overwrite_in) auto
  moreover have "drop 15 (formatNetBIOSName name 0) = [0]"
    by (simp add: formatNetBIOSName_def)
  ultimately show ?thesis
    using padded_name [OF assms(8,9)] by (simp add: encodeNetBIOSName_32 Let_def)
qed

lemma netbios_name_roundtrip_witness:
  "\<exists>r. applyRule example_surrounds [''netbios_name'' \<mapsto> ''dc01''] 0 None []
      \<lparr>rr_offset = 3, rr_length = 32, rr_type = ''netbios_name'', rr_token = []\<rparr> (replicate 40 0) = Some (Inr r) \<and>
    (let field = decode_nibbles (take 32 (drop 3 r))
     in takeWhile (\<lambda>b. b \<noteq> 32) (take 15 field) = bytes_of ''DC01'' \<and> drop 15 field = [0])"
proof -
  have "map (upper_ascii \<circ> byte_of) ''dc01'' = bytes_of ''DC01''" by code_simp
  then show ?thesis
    using netbios_name_roundtrip [of "\<lparr>rr_offset = 3, rr_length = 32, rr_type = ''netbios_name'', rr_token = []\<rparr>"
        "replicate 40 0" "[''netbios_name'' \<mapsto> ''dc01'']" "''dc01''" example_surrounds 0 None "[]"]
    by simp
qed

end
