(* ===== verification/Responder.thy ===== *)
theory Responder
  imports Rewrite_Rules Go_Time
begin

text \<open>
  The responder of \<open>internal/services/responder.go\<close>: templates read from a service directory and
  cached, credential leaks, the two HTTP header fixes and the rewrite rules; and the built-in HTTP
  answers of \<open>tlsterm.go\<close> that a TLS port serves.

  A template directory is a function from file names to contents.  White space and letter case are
  those of ASCII.
\<close>

section \<open>Credential leaks in text\<close>

text \<open>The regular expression \<open>\{\{leak:([A-Za-z0-9_-]+)\}\}\<close> at the head of a text: the id and
  what follows the match.\<close>

definition leak_open :: string where "leak_open = ''{{leak:''"

definition match_leak :: "string \<Rightarrow> (string \<times> string) option" where
  "match_leak s =
     (if starts_with s leak_open then
        let r = drop 7 s; i = takeWhile id_char r; q = dropWhile id_char r in
        if i \<noteq> [] \<and> starts_with q ''}}'' then Some (i, drop 2 q) else None
      else None)"

lemma match_leak_length: "match_leak s = Some (i, q) \<Longrightarrow> length q < length s"
proof -
  assume "match_leak s = Some (i, q)"
  then have "starts_with s leak_open" and q: "q = drop 2 (dropWhile id_char (drop 7 s))"
    by (auto simp: match_leak_def Let_def split: if_splits)
  then have "s \<noteq> []" by (auto simp: starts_with_def leak_open_def)
  moreover have "length (dropWhile id_char (drop 7 s)) \<le> length s - 7"
    by (metis length_drop length_dropWhile_le)
  ultimately show ?thesis unfolding q by (cases s) auto
qed

function replace_leaks :: "cred_store option \<Rightarrow> string \<Rightarrow> string" where
  "replace_leaks store [] = []"
| "replace_leaks store (c # s) =
     (case match_leak (c # s) of
        Some (i, q) \<Rightarrow>
          (case leakString store i of
             Some ls \<Rightarrow> ls
           | None \<Rightarrow> take (length (c # s) - length q) (c # s)) @ replace_leaks store q
      | None \<Rightarrow> c # replace_leaks store s)"
  by pat_completeness auto
termination
  by (relation "measure (\<lambda>(_, s). length s)") (auto dest: match_leak_length)

definition applyLeak :: "cred_store option \<Rightarrow> bytes \<Rightarrow> bytes" where
  "applyLeak store response =
     (if store = None \<or> \<not> str_contains (string_of response) leak_open then response
      else bytes_of (replace_leaks store (string_of response)))"

section \<open>HTTP headers\<close>

definition cr_lf :: bytes where "cr_lf = [13, 10]"
definition blank_line :: bytes where "blank_line = [13, 10, 13, 10]"

definition re_space :: "char \<Rightarrow> bool" where
  "re_space c \<longleftrightarrow> (of_char c :: nat) \<in> {9, 10, 12, 13, 32}"

text \<open>\<open>(?i)Content-Length:\s*\d+\<close> at the head of a text: what follows the match.\<close>

definition match_clen :: "string \<Rightarrow> string option" where
  "match_clen s =
     (if 15 \<le> length s \<and> equal_fold (take 15 s) ''Content-Length:'' then
        let r = dropWhile re_space (drop 15 s) in
        if r \<noteq> [] \<and> is_digit (hd r) then Some (dropWhile is_digit r) else None
      else None)"

lemma match_clen_length: "match_clen s = Some q \<Longrightarrow> length q < length s"
proof -
  assume "match_clen s = Some q"
  then have "length q \<le> length (dropWhile re_space (drop 15 s))" "15 \<le> length s"
    by (auto simp: match_clen_def Let_def length_dropWhile_le split: if_splits)
  moreover have "length (dropWhile re_space (drop 15 s)) \<le> length s - 15"
    by (metis length_drop length_dropWhile_le)
  ultimately show ?thesis by linarith
qed

fun has_clen :: "string \<Rightarrow> bool" where
  "has_clen [] \<longleftrightarrow> False"
| "has_clen (c # s) \<longleftrightarrow> match_clen (c # s) \<noteq> None \<or> has_clen s"

function replace_clen :: "string \<Rightarrow> string \<Rightarrow> string" where
  "replace_clen t [] = []"
| "replace_clen t (c # s) =
     (case match_clen (c # s) of Some q \<Rightarrow> t @ replace_clen t q | None \<Rightarrow> c # replace_clen t s)"
  by pat_completeness auto
termination
  by (relation "measure (\<lambda>(_, s). length s)") (auto dest: match_clen_length)

definition fixHTTPContentLength :: "bytes \<Rightarrow> bytes" where
  "fixHTTPContentLength response =
     (if length response < 12 \<or> \<not> starts_with response (bytes_of ''HTTP/'') then response
      else case index_of response blank_line of
        None \<Rightarrow> response
      | Some sep \<Rightarrow>
          let header = string_of (take sep response) in
          if \<not> has_clen header then response
          else
            let bodyLen = length response - sep - 4
            in bytes_of (replace_clen (''Content-Length: '' @ itoa bodyLen) header) @ drop sep response)"

definition serverStringFor :: "string \<Rightarrow> string" where
  "serverStringFor osName =
     (let n = to_lower osName in
      if str_contains n ''ubuntu'' then ''nginx/1.18.0 (Ubuntu)''
      else if str_contains n ''kali'' then ''nginx/1.26.0 (Debian)''
      else if str_contains n ''debian'' then ''nginx/1.22.1''
      else if str_contains n ''rocky'' then ''Apache/2.4.57 (Rocky Linux)''
      else if str_contains n ''alma'' then ''Apache/2.4.57 (AlmaLinux)''
      else if str_contains n ''rhel'' \<or> str_contains n ''red hat'' \<or> str_contains n ''centos''
      then ''Apache/2.4.37 (Red Hat Enterprise Linux)''
      else if str_contains n ''fedora'' then ''Apache/2.4.62 (Fedora Linux)''
      else if str_contains n ''arch'' then ''nginx/1.27.4''
      else if n = [] then []
      else ''nginx'')"

definition webServerForOS :: "string \<Rightarrow> string" where
  "webServerForOS osName =
     (let n = to_lower osName in
      if str_contains n ''rocky'' \<or> str_contains n ''rhel'' \<or> str_contains n ''alma'' \<or>
         str_contains n ''centos'' \<or> str_contains n ''fedora'' \<or> str_contains n ''red hat''
      then ''apache'' else ''nginx'')"

definition applyServerHeader :: "options \<Rightarrow> bytes \<Rightarrow> bytes" where
  "applyServerHeader opts response =
     (if \<not> equal_fold (opt_get opts ''os_family'') ''linux'' \<or> \<not> starts_with response (bytes_of ''HTTP/'')
      then response
      else
        let srv = serverStringFor (opt_get opts ''os_name'') in
        if srv = [] then response
        else case index_of response (bytes_of ''Server: '') of
          None \<Rightarrow> response
        | Some idx \<Rightarrow>
            let valStart = idx + 8 in
            (case index_of (drop valStart response) cr_lf of
               None \<Rightarrow> response
             | Some rel \<Rightarrow> take valStart response @ bytes_of srv @ drop (valStart + rel) response))"

section \<open>Responses\<close>

record responder_state =
  rs_baseDir :: string
  rs_cache :: "string \<rightharpoonup> bytes"
  rs_options :: options
  rs_boot :: int
  rs_store :: "cred_store option"

datatype response_error = ReadingTemplate string | ApplyingRule rule_error

type_synonym files = "string \<rightharpoonup> bytes"

text \<open>The remainder of Go, which has the sign of the dividend.\<close>

definition go_rem :: "int \<Rightarrow> int \<Rightarrow> int" where
  "go_rem a b = (if a < 0 then - (- a mod b) else a mod b)"

text \<open>The two readings of the clock are arguments; \<open>>>\<close> rounds towards minus infinity.\<close>

definition fakeBootTime :: "int \<Rightarrow> int \<Rightarrow> int" where
  "fakeBootTime now now' =
     (let hours = 2 + go_rem (now div 2 ^ 32) 24; minutes = go_rem (now div 2 ^ 16) 60
      in now' - hours * 3600 * second - minutes * 60 * second)"

definition newResponderWithOptions :: "int \<Rightarrow> int \<Rightarrow> string \<Rightarrow> options \<Rightarrow> responder_state" where
  "newResponderWithOptions now now' baseDir opts =
     \<lparr>rs_baseDir = baseDir, rs_cache = Map.empty, rs_options = opts, rs_boot = fakeBootTime now now', rs_store = None\<rparr>"

definition setCredStore :: "cred_store option \<Rightarrow> responder_state \<Rightarrow> responder_state" where
  "setCredStore s r = r\<lparr>rs_store := s\<rparr>"

definition loadTemplate :: "files \<Rightarrow> string \<Rightarrow> responder_state \<Rightarrow> responder_state \<times> (response_error + bytes)" where
  "loadTemplate fs filename r =
     (case rs_cache r filename of
        Some data \<Rightarrow> (r, Inr data)
      | None \<Rightarrow>
          let path = path_join [rs_baseDir r, filename] in
          (case fs path of
             None \<Rightarrow> (r, Inl (ReadingTemplate path))
           | Some data \<Rightarrow> (r\<lparr>rs_cache := (rs_cache r)(filename \<mapsto> data)\<rparr>, Inr data)))"

text \<open>What \<open>GetResponse\<close> does to a copy of the template.\<close>

definition text_stages :: "responder_state \<Rightarrow> bytes \<Rightarrow> bytes" where
  "text_stages r template =
     applyServerHeader (rs_options r) (fixHTTPContentLength (applyLeak (rs_store r) template))"

definition render_template ::
  "surrounds \<Rightarrow> responder_state \<Rightarrow> bytes \<Rightarrow> rewrite_rule list \<Rightarrow> bytes \<Rightarrow> (response_error + bytes) option" where
  "render_template su r probe rules template =
     (case applyRules su (rs_options r) (rs_boot r) (rs_store r) probe rules (text_stages r template) of
        None \<Rightarrow> None
      | Some (Inl e) \<Rightarrow> Some (Inl (ApplyingRule e))
      | Some (Inr b) \<Rightarrow> Some (Inr b))"

definition getResponse ::
  "surrounds \<Rightarrow> files \<Rightarrow> string \<Rightarrow> bytes \<Rightarrow> rewrite_rule list \<Rightarrow> responder_state \<Rightarrow>
     responder_state \<times> (response_error + bytes) option" where
  "getResponse su fs filename probe rules r =
     (case loadTemplate fs filename r of
        (r', Inl e) \<Rightarrow> (r', Some (Inl e))
      | (r', Inr template) \<Rightarrow> (r', render_template su r' probe rules template))"

definition clearCache :: "responder_state \<Rightarrow> responder_state" where
  "clearCache r = r\<lparr>rs_cache := Map.empty\<rparr>"

section \<open>Built-in HTTP answers over TLS\<close>

definition request_fields :: "bytes \<Rightarrow> string list" where
  "request_fields req =
     (case index_of req [10] of
        None \<Rightarrow> []
      | Some lineEnd \<Rightarrow>
          fields_func is_space (rev (dropWhile (\<lambda>c. c = char_of_byte 13) (rev (string_of (take lineEnd req))))))"

definition parseHTTPMethod :: "bytes \<Rightarrow> string" where
  "parseHTTPMethod req = (case request_fields req of [] \<Rightarrow> [] | m # _ \<Rightarrow> m)"

definition parseHTTPPath :: "bytes \<Rightarrow> string" where
  "parseHTTPPath req = (case request_fields req of _ # p # _ \<Rightarrow> p | _ \<Rightarrow> [])"

definition quote :: string where "quote = [CHR 0x22]"
definition nl :: string where "nl = [char_of_byte 13, char_of_byte 10]"

definition iisWelcomeBody :: string where
  "iisWelcomeBody =
     ''<!DOCTYPE html><html><head><title>IIS Windows Server</title></head>'' @
     ''<body><img src='' @ quote @ ''iisstart.png'' @ quote @ '' alt='' @ quote @ ''IIS'' @ quote @ ''></body></html>''"

definition iisHTTP404Body :: string where
  "iisHTTP404Body =
     ''<!DOCTYPE html PUBLIC '' @ quote @ ''-//W3C//DTD XHTML 1.0 Strict//EN'' @ quote @ '' '' @
     quote @ ''http://www.w3.org/TR/xhtml1/DTD/xhtml1-strict.dtd'' @ quote @ ''>'' @ nl @
     ''<html xmlns='' @ quote @ ''http://www.w3.org/1999/xhtml'' @ quote @ ''>'' @ nl @ ''<head>'' @ nl @
     ''<title>404 - File or directory not found.</title>'' @ nl @ ''</head>'' @ nl @
     ''<body><h2>404 - File or directory not found.</h2></body>'' @ nl @ ''</html>'' @ nl"

definition iisHTTPResponseWithStatus :: "int \<Rightarrow> string \<Rightarrow> string \<Rightarrow> bytes" where
  "iisHTTPResponseWithStatus now statusLine body =
     bytes_of (statusLine @ nl @ ''Content-Type: text/html'' @ nl @ ''Server: Microsoft-IIS/10.0'' @ nl @
       ''Date: '' @ http_date now @ nl @ ''Connection: close'' @ nl @
       ''Content-Length: '' @ itoa (length body) @ nl @ nl @ body)"

definition iisHTTPResponse :: "int \<Rightarrow> bytes \<Rightarrow> bytes" where
  "iisHTTPResponse now req =
     (if parseHTTPPath req \<in> {''/'', ''/index.html'', ''/iisstart.png''}
      then iisHTTPResponseWithStatus now ''HTTP/1.1 200 OK'' iisWelcomeBody
      else iisHTTPResponseWithStatus now ''HTTP/1.1 404 Not Found'' iisHTTP404Body)"

definition linuxHTTPResponseFile :: "string \<Rightarrow> string \<Rightarrow> string \<Rightarrow> string" where
  "linuxHTTPResponseFile meth path osName =
     (let apache = (webServerForOS osName = ''apache'') in
      if meth = ''HEAD'' then ''responses/nginx_200_headers.bin''
      else if path = ''/'' \<or> path = ''/index.html''
      then (if apache then ''responses/apache_200_full.bin'' else ''responses/nginx_200_full.bin'')
      else (if apache then ''responses/apache_404.bin'' else ''responses/nginx_404.bin''))"

definition http_date_rule :: rewrite_rule where
  "http_date_rule = \<lparr>rr_offset = 0, rr_length = 0, rr_type = ''http_date'', rr_token = []\<rparr>"

definition tlsBackendHTTPResponse :: "surrounds \<Rightarrow> files \<Rightarrow> bytes \<Rightarrow> string \<Rightarrow> responder_state \<Rightarrow> bytes option" where
  "tlsBackendHTTPResponse su fs req httpServiceDir r =
     (if \<not> equal_fold (opt_get (rs_options r) ''os_family'') ''linux'' then Some (iisHTTPResponse (su_now su) req)
      else
        let hr = setCredStore (rs_store r)
              (newResponderWithOptions (su_now su) (su_now su) httpServiceDir (rs_options r));
            name = linuxHTTPResponseFile (parseHTTPMethod req) (parseHTTPPath req) (opt_get (rs_options r) ''os_name'')
        in case snd (getResponse su fs name req [http_date_rule] hr) of
             None \<Rightarrow> None
           | Some (Inl _) \<Rightarrow> Some (iisHTTPResponse (su_now su) req)
           | Some (Inr resp) \<Rightarrow> Some (if resp = [] then iisHTTPResponse (su_now su) req else resp))"

section \<open>The body survives, and its length is told\<close>

lemma has_clen_None: "\<not> has_clen s \<Longrightarrow> replace_clen t s = s"
  by (induction s) auto

lemma has_clen_later: "match_clen m \<noteq> None \<Longrightarrow> has_clen (h @ m)"
proof (induction h)
  case Nil
  then show ?case by (cases m) (auto simp: match_clen_def)
qed simp

lemma replace_clen_first:
  assumes "\<forall>i < length h. match_clen (drop i (h @ m)) = None" and "match_clen m = Some q"
  shows "replace_clen t (h @ m) = h @ t @ replace_clen t q"
  using assms
proof (induction h)
  case Nil
  then show ?case by (cases m) (auto simp: match_clen_def)
next
  case (Cons c h)
  have "match_clen (drop i (h @ m)) = None" if "i < length h" for i
    using Cons.prems(1) that by (metis Suc_less_eq append_Cons drop_Suc_Cons length_Cons)
  moreover have "match_clen (c # h @ m) = None"
    using Cons.prems(1) by force
  ultimately show ?case using Cons by simp
qed

text \<open>A header with exactly one \<open>Content-Length\<close>: \<open>h1\<close>, the field \<open>m\<close>, and \<open>h2\<close>.\<close>

definition one_clen :: "string \<Rightarrow> string \<Rightarrow> string \<Rightarrow> bool" where
  "one_clen h1 m h2 \<longleftrightarrow>
     (\<forall>i < length h1. match_clen (drop i (h1 @ m @ h2)) = None) \<and> match_clen (m @ h2) = Some h2 \<and> \<not> has_clen h2"

text \<open>After a leak has changed the body, the header tells the body's real length: in an HTTP
  response with one \<open>Content-Length\<close> field, whatever number it held, the field is replaced by the
  number of bytes after the first blank line, and the rest is untouched.\<close>

theorem content_length_is_body_length:
  assumes "one_clen h1 m h2" and "has_prefix h1 ''HTTP/''"
    and "index_of (bytes_of (h1 @ m @ h2) @ blank_line @ body) blank_line = Some (length (h1 @ m @ h2))"
    and "12 \<le> length (h1 @ m @ h2)"
  shows "fixHTTPContentLength (bytes_of (h1 @ m @ h2) @ blank_line @ body) =
    bytes_of (h1 @ ''Content-Length: '' @ itoa (length body) @ h2) @ blank_line @ body"
proof -
  let ?r = "bytes_of (h1 @ m @ h2) @ blank_line @ body"
  have pre: "starts_with ?r (bytes_of ''HTTP/'')"
    using assms(2) by (auto simp: has_prefix_iff starts_with_iff)
  have hdr: "string_of (take (length (h1 @ m @ h2)) ?r) = h1 @ m @ h2"
    by (simp add: o_def map_idI)
  have "has_clen (h1 @ m @ h2)"
    using assms(1) by (intro has_clen_later) (auto simp: one_clen_def)
  moreover have "replace_clen t (h1 @ m @ h2) = h1 @ t @ h2" for t
    using assms(1) by (simp add: one_clen_def replace_clen_first has_clen_None)
  moreover have "length ?r - length (h1 @ m @ h2) - 4 = length body" "12 \<le> length ?r"
    using assms(4) by (simp_all add: blank_line_def)
  ultimately show ?thesis
    using assms(3) pre by (simp only: fixHTTPContentLength_def hdr option.case Let_def if_False simp_thms) simp
qed

lemma match_clen_head: "s \<noteq> [] \<Longrightarrow> lower_char (hd s) \<noteq> CHR ''c'' \<Longrightarrow> match_clen s = None"
proof -
  assume s: "s \<noteq> []" "lower_char (hd s) \<noteq> CHR ''c''"
  have "hd (to_lower ''Content-Length:'') = CHR ''c''" by code_simp
  moreover have "hd (to_lower (take 15 s)) = lower_char (hd s)" using s by (cases s) (auto simp: to_lower_def)
  ultimately have "\<not> equal_fold (take 15 s) ''Content-Length:''" using s by (auto simp: equal_fold_def)
  then show ?thesis by (simp add: match_clen_def)
qed

lemma no_clen_before:
  assumes "\<forall>c \<in> set h. lower_char c \<noteq> CHR ''c''"
  shows "\<forall>i < length h. match_clen (drop i (h @ m)) = None"
proof (intro allI impI)
  fix i assume i: "i < length h"
  then have "hd (drop i (h @ m)) = h ! i" "drop i (h @ m) \<noteq> []" by (simp_all add: hd_drop_conv_nth nth_append)
  with assms i show "match_clen (drop i (h @ m)) = None" by (intro match_clen_head) auto
qed

lemma content_length_is_body_length_witness:
  "fixHTTPContentLength (bytes_of (''HTTP/1.1 200 OK'' @ nl @ ''Content-Length: 99'') @ blank_line @ [1, 2, 3]) =
    bytes_of (''HTTP/1.1 200 OK'' @ nl @ ''Content-Length: 3'') @ blank_line @ [1, 2, 3]"
proof -
  let ?h1 = "''HTTP/1.1 200 OK'' @ nl" and ?m = "''Content-Length: 99''"
  have len: "itoa (length [1, 2, 3 :: byte]) = ''3''" by code_simp
  have "\<forall>c \<in> set ?h1. lower_char c \<noteq> CHR ''c''"
    by code_simp
  moreover have "match_clen ?m = Some []"
    by (simp add: match_clen_def Let_def re_space_def is_digit_def equal_fold_refl)
  ultimately have one: "one_clen ?h1 ?m []"
    using no_clen_before [of ?h1 ?m] by (simp add: one_clen_def)
  have "index_of (bytes_of (?h1 @ ?m) @ blank_line @ [1, 2, 3]) blank_line = Some (length (?h1 @ ?m))"
    by (simp add: index_of.simps starts_with_def byte_of_def nl_def blank_line_def)
  then show ?thesis
    using content_length_is_body_length [of ?h1 ?m "[]" "[1, 2, 3]"] one len by (simp add: has_prefix_def)
qed

section \<open>The Server header agrees with the page\<close>

lemma has_prefix_literal [simp]: "has_prefix (c # s) (d # p) \<longleftrightarrow> c = d \<and> has_prefix s p" "has_prefix s []"
  by (auto simp: has_prefix_def)

text \<open>The page and the header name the same web server: unless a name mixes distributions, the
  page of \<open>webServerForOS\<close> is Apache's exactly when the \<open>Server\<close> value of \<open>serverStringFor\<close> is, and
  otherwise both are nginx.\<close>

theorem page_matches_server_header:
  assumes "os \<noteq> []"
    and "\<forall>d \<in> {''ubuntu'', ''kali'', ''debian''}. \<not> str_contains (to_lower os) d"
  shows "(has_prefix (serverStringFor os) ''Apache'' \<longleftrightarrow> webServerForOS os = ''apache'') \<and>
    (has_prefix (serverStringFor os) ''nginx'' \<longleftrightarrow> webServerForOS os = ''nginx'')"
  using assms by (auto simp: serverStringFor_def webServerForOS_def Let_def to_lower_def)

lemma page_matches_server_header_witness:
  "has_prefix (serverStringFor ''Rocky'') ''Apache'' \<and> webServerForOS ''Rocky'' = ''apache''"
proof -
  have "webServerForOS ''Rocky'' = ''apache''"
    "\<forall>d \<in> {''ubuntu'', ''kali'', ''debian''}. \<not> str_contains (to_lower ''Rocky'') d"
    by code_simp+
  then show ?thesis using page_matches_server_header [of "''Rocky''"] by simp
qed

section \<open>Templates\<close>

lemma loadTemplate_cached:
  "loadTemplate fs name r = (r', Inr t) \<Longrightarrow> loadTemplate fs' name r' = (r', Inr t)"
  by (auto simp: loadTemplate_def Let_def split: option.splits)

lemma loadTemplate_frame:
  "loadTemplate fs name r = (r', x) \<Longrightarrow>
     rs_options r' = rs_options r \<and> rs_boot r' = rs_boot r \<and> rs_store r' = rs_store r \<and>
     rs_baseDir r' = rs_baseDir r \<and> (\<forall>k v. rs_cache r k = Some v \<longrightarrow> rs_cache r' k = Some v)"
  by (auto simp: loadTemplate_def Let_def split: option.splits)

lemma render_template_cong:
  "rs_options a = rs_options b \<Longrightarrow> rs_boot a = rs_boot b \<Longrightarrow> rs_store a = rs_store b \<Longrightarrow>
     render_template su a probe rules t = render_template su b probe rules t"
  by (simp add: render_template_def text_stages_def)

text \<open>Templates are read once and never spoiled: once a template has been served, every later
  request for it is answered from the same template bytes, whatever was written into earlier
  responses, whatever other templates were requested in between and whatever became of the file.\<close>

theorem template_read_once:
  assumes "loadTemplate fs name r = (r1, Inr t)"
  shows "snd (getResponse su2 fs2 name probe2 rules2 (fst (getResponse su1 fs1 other probe1 rules1 r1))) =
    render_template su2 r probe2 rules2 t"
proof -
  let ?r2 = "fst (getResponse su1 fs1 other probe1 rules1 r1)"
  obtain r2 x where l: "loadTemplate fs1 other r1 = (r2, x)" by fastforce
  then have r2: "?r2 = r2" by (cases x) (simp_all add: getResponse_def)
  have "rs_cache r1 name = Some t"
    using assms by (auto simp: loadTemplate_def Let_def split: option.splits)
  with loadTemplate_frame [OF l] have "rs_cache r2 name = Some t" by blast
  then have "loadTemplate fs2 name r2 = (r2, Inr t)" by (simp add: loadTemplate_def)
  then show ?thesis
    using loadTemplate_frame [OF l] loadTemplate_frame [OF assms] render_template_cong [of r2 r su2 probe2 rules2 t]
    unfolding r2 by (simp add: getResponse_def)
qed

definition example_responder :: responder_state where
  "example_responder = newResponderWithOptions 0 0 ''/svc'' Map.empty"

lemma template_read_once_witness:
  "snd (getResponse example_surrounds Map.empty ''b.bin'' [] []
      (fst (getResponse example_surrounds Map.empty ''x'' [] [] (fst (loadTemplate [''/svc/b.bin'' \<mapsto> [1, 2]] ''b.bin'' example_responder))))) =
    Some (Inr [1, 2])"
proof -
  let ?fs = "[''/svc/b.bin'' \<mapsto> [1, 2 :: byte]]"
  have path: "path_join [''/svc'', ''b.bin''] = ''/svc/b.bin''" by code_simp
  have l: "loadTemplate ?fs ''b.bin'' example_responder = (fst (loadTemplate ?fs ''b.bin'' example_responder), Inr [1, 2])"
    by (simp add: loadTemplate_def example_responder_def newResponderWithOptions_def Let_def path)
  have "render_template example_surrounds example_responder [] [] [1, 2] = Some (Inr [1, 2])"
    by (simp add: render_template_def text_stages_def applyLeak_def fixHTTPContentLength_def applyServerHeader_def
        example_responder_def newResponderWithOptions_def starts_with_def)
  then show ?thesis
    using template_read_once [OF l, of example_surrounds Map.empty "[]" "[]" example_surrounds Map.empty "''x''" "[]" "[]"]
    by simp
qed

text \<open>The fake boot time lies between 2 hours and 25 hours 59 minutes before the responder's start.\<close>

lemma boot_time_range:
  assumes "0 \<le> now"
  shows "now' - 26 * 3600 * second < fakeBootTime now now' \<and> fakeBootTime now now' \<le> now' - 2 * 3600 * second"
proof -
  have "0 \<le> now div 2 ^ 32" "0 \<le> now div 2 ^ 16" using assms by simp_all
  then have "0 \<le> go_rem (now div 2 ^ 32) 24" "go_rem (now div 2 ^ 32) 24 \<le> 23"
    "0 \<le> go_rem (now div 2 ^ 16) 60" "go_rem (now div 2 ^ 16) 60 \<le> 59"
    unfolding go_rem_def using pos_mod_bound [of 24 "now div 2 ^ 32"] pos_mod_bound [of 60 "now div 2 ^ 16"] by auto
  moreover have "now' - 26 * 3600 * second < now' - (2 + h) * 3600 * second - m * 60 * second \<and>
      now' - (2 + h) * 3600 * second - m * 60 * second \<le> now' - 2 * 3600 * second"
    if "0 \<le> h" "h \<le> 23" "0 \<le> m" "m \<le> 59" for h m :: int
    using that by simp
  ultimately show ?thesis unfolding fakeBootTime_def Let_def by blast
qed

end
