(* ===== verification/Listener.thy ===== *)
theory Listener
  imports Responder Events
begin

text \<open>
  The fake service listener (\<open>internal/services/listener.go\<close>): what one connection or one UDP
  socket is answered, which events and probe-log lines it leaves and how the counters move.

  A connection is the list of what its reads return, each with what the process observes at that
  time (a \<open>tick\<close>): the clock and the random source, the template files, whether the listener has
  been stopped, the jitter generator and whether the write that follows succeeds.  When the list
  ends the peer is gone.  A handler returns the listener and its \<open>action\<close>s in order, or \<open>None\<close> if
  it panics.  The TLS library is an oracle of the tick: whether the handshake completes, after
  which the next tick is the decrypted request.
\<close>

section \<open>Configuration and state\<close>

record service_config =
  sv_name :: string
  sv_port :: u16
  sv_protocol :: string
  sv_stateful :: bool
  sv_speaksFirst :: bool
  sv_tls :: bool
  sv_tlsBackend :: string
  sv_defaultResponse :: string
  sv_probes :: "probe_config list"

record listener_stats =
  st_connections :: u64
  st_probesMatched :: u64
  st_probesMissed :: u64
  st_bytesReceived :: u64
  st_bytesSent :: u64

definition zero_stats :: listener_stats where
  "zero_stats = \<lparr>st_connections = 0, st_probesMatched = 0, st_probesMissed = 0, st_bytesReceived = 0, st_bytesSent = 0\<rparr>"

record listener =
  ls_config :: service_config
  ls_baseDir :: string
  ls_matcher :: matcher
  ls_responder :: responder_state
  ls_stats :: listener_stats
  ls_options :: options
  ls_jitterMinMs :: int
  ls_jitterMaxMs :: int

text \<open>\<open>strconv.Atoi\<close> with its error dropped: the value, or 0 for a text that is no number.  A value
  beyond the 64 bits of an \<open>int\<close> is cut to them.\<close>

definition digits_int :: "string \<Rightarrow> int" where
  "digits_int s = foldl (\<lambda>a c. 10 * a + int (the (digit_val c))) 0 s"

definition atoi :: "string \<Rightarrow> int" where
  "atoi s =
     (let neg = (s \<noteq> [] \<and> hd s = CHR ''-'');
          ds = (if s \<noteq> [] \<and> (hd s = CHR ''-'' \<or> hd s = CHR ''+'') then tl s else s)
      in if ds = [] \<or> (\<exists>c \<in> set ds. digit_val c = None) then 0
         else if neg then max (- (2 ^ 63)) (- digits_int ds) else min (2 ^ 63 - 1) (digits_int ds))"

definition newListenerWithOptions :: "int \<Rightarrow> int \<Rightarrow> service_config \<Rightarrow> string \<Rightarrow> options \<Rightarrow> listener" where
  "newListenerWithOptions now now' cfg baseDir opts =
     \<lparr>ls_config = cfg, ls_baseDir = baseDir, ls_matcher = newProbeMatcher (sv_probes cfg) opts,
      ls_responder = newResponderWithOptions now now' baseDir opts, ls_stats = zero_stats, ls_options = opts,
      ls_jitterMinMs = atoi (opt_get opts ''jitter_min_ms''), ls_jitterMaxMs = atoi (opt_get opts ''jitter_max_ms'')\<rparr>"

text \<open>How long \<open>applyJitter\<close> sleeps, in milliseconds; \<open>rnd n\<close> is \<open>rand.Intn(n)\<close>.\<close>

definition jitter_delay :: "int \<Rightarrow> int \<Rightarrow> (int \<Rightarrow> int) \<Rightarrow> int" where
  "jitter_delay jmin jmax rnd =
     (if jmax \<le> 0 then 0
      else
        let lo = (if jmin > jmax then jmax else jmin); hi = (if jmin > jmax then jmin else jmax) in
        if hi \<le> 0 then 0
        else let delay = (if hi > lo then lo + rnd (hi - lo) else lo) in if 0 < delay then delay else 0)"

section \<open>One exchange\<close>

datatype read = Data bytes | Closed

record tick =
  tk_su :: surrounds
  tk_files :: files
  tk_stopped :: bool
  tk_rnd :: "int \<Rightarrow> int"
  tk_writes :: bool
  tk_handshake :: bool
  tk_read :: read

datatype action =
    Emit event
  | ProbeLog "string option" bytes  \<comment> \<open>the matched probe's name, if any, and the data\<close>
  | Sleep int
  | Send bytes

abbreviation bump_sent :: "nat \<Rightarrow> listener \<Rightarrow> listener" where
  "bump_sent n l \<equiv> l\<lparr>ls_stats := (ls_stats l)\<lparr>st_bytesSent := st_bytesSent (ls_stats l) + of_nat n\<rparr>\<rparr>"

abbreviation bump_received :: "nat \<Rightarrow> listener \<Rightarrow> listener" where
  "bump_received n l \<equiv> l\<lparr>ls_stats := (ls_stats l)\<lparr>st_bytesReceived := st_bytesReceived (ls_stats l) + of_nat n\<rparr>\<rparr>"

abbreviation bump_matched :: "listener \<Rightarrow> listener" where
  "bump_matched l \<equiv> l\<lparr>ls_stats := (ls_stats l)\<lparr>st_probesMatched := st_probesMatched (ls_stats l) + 1\<rparr>\<rparr>"

abbreviation bump_missed :: "listener \<Rightarrow> listener" where
  "bump_missed l \<equiv> l\<lparr>ls_stats := (ls_stats l)\<lparr>st_probesMissed := st_probesMissed (ls_stats l) + 1\<rparr>\<rparr>"

abbreviation bump_connections :: "listener \<Rightarrow> listener" where
  "bump_connections l \<equiv> l\<lparr>ls_stats := (ls_stats l)\<lparr>st_connections := st_connections (ls_stats l) + 1\<rparr>\<rparr>"

definition listener_event :: "listener \<Rightarrow> string \<Rightarrow> event \<Rightarrow> action" where
  "listener_event l remoteAddr ev =
     Emit (splitHostPort remoteAddr (ev\<lparr>ev_service := sv_name (ls_config l), ev_dstPort := sv_port (ls_config l)\<rparr>))"

definition probe_event :: "listener \<Rightarrow> string \<Rightarrow> string \<Rightarrow> probe_config \<Rightarrow> action" where
  "probe_event l remoteAddr msg p =
     listener_event l remoteAddr
       ((blank_event Probe)\<lparr>ev_message := sv_name (ls_config l) @ msg, ev_fields := [''probe'' \<mapsto> FStr (pc_name p)]\<rparr>)"

definition plain_event :: "listener \<Rightarrow> string \<Rightarrow> event_type \<Rightarrow> string \<Rightarrow> action" where
  "plain_event l remoteAddr t msg =
     listener_event l remoteAddr ((blank_event t)\<lparr>ev_message := sv_name (ls_config l) @ msg\<rparr>)"

text \<open>\<open>l.responder.GetResponse\<close> at a tick; \<open>None\<close> if it panics.\<close>

definition respond :: "tick \<Rightarrow> string \<Rightarrow> bytes \<Rightarrow> rewrite_rule list \<Rightarrow> listener \<Rightarrow>
    (listener \<times> (response_error + bytes)) option" where
  "respond t name probe rules l =
     (case getResponse (tk_su t) (tk_files t) name probe rules (ls_responder l) of
        (r, None) \<Rightarrow> None
      | (r, Some res) \<Rightarrow> Some (l\<lparr>ls_responder := r\<rparr>, res))"

text \<open>The jitter before a reply, and the reply: the new state, the actions and whether the write
  succeeded.\<close>

definition pause :: "tick \<Rightarrow> listener \<Rightarrow> action list" where
  "pause t l =
     (let d = jitter_delay (ls_jitterMinMs l) (ls_jitterMaxMs l) (tk_rnd t) in if 0 < d then [Sleep d] else [])"

definition reply :: "tick \<Rightarrow> bytes \<Rightarrow> listener \<Rightarrow> listener \<times> action list \<times> bool" where
  "reply t resp l =
     (if tk_writes t then (bump_sent (length resp) l, pause t l @ [Send resp], True)
      else (l, pause t l, False))"

section \<open>Connections\<close>

definition send_banner :: "tick \<Rightarrow> string \<Rightarrow> listener \<Rightarrow> (listener \<times> action list) option" where
  "send_banner t remoteAddr l =
     (case match_first (ls_matcher l) [] of
        None \<Rightarrow> Some (l, [])
      | Some m \<Rightarrow>
          (case respond t (pc_responseFile m) [] (pc_rules m) l of
             None \<Rightarrow> None
           | Some (l1, Inl _) \<Rightarrow> Some (l1, [])
           | Some (l1, Inr resp) \<Rightarrow>
               if resp = [] then Some (l1, [])
               else (case reply t resp l1 of
                       (l2, as, True) \<Rightarrow>
                         Some (bump_matched l2, as @ [probe_event l remoteAddr '' banner sent'' m])
                     | (l2, as, False) \<Rightarrow> Some (l2, as))))"

definition sendDefaultResponse :: "tick \<Rightarrow> bytes \<Rightarrow> listener \<Rightarrow> (listener \<times> action list) option" where
  "sendDefaultResponse t probe l =
     (if sv_defaultResponse (ls_config l) = [] then Some (l, [])
      else (case respond t (sv_defaultResponse (ls_config l)) probe [] l of
              None \<Rightarrow> None
            | Some (l1, Inl _) \<Rightarrow> Some (l1, [])
            | Some (l1, Inr resp) \<Rightarrow>
                if resp = [] then Some (l1, [])
                else (case reply t resp l1 of (l2, as, _) \<Rightarrow> Some (l2, as))))"

text \<open>\<open>handleStatefulConversation\<close>: the loop after the first answer.\<close>

fun stateful :: "string \<Rightarrow> tick list \<Rightarrow> listener \<Rightarrow> (listener \<times> action list) option" where
  "stateful addr [] l = Some (l, [])"
| "stateful addr (t # ts) l =
     (if tk_stopped t then Some (l, [])
      else case tk_read t of
        Closed \<Rightarrow> Some (l, [])
      | Data probe \<Rightarrow>
          let l0 = bump_received (length probe) l in
          (case match_first (ls_matcher l) probe of
             None \<Rightarrow> map_option (map_prod id (\<lambda>as. ProbeLog None probe # as)) (stateful addr ts (bump_missed l0))
           | Some m \<Rightarrow>
               let l1 = bump_matched l0; log = [ProbeLog (Some (pc_name m)) probe, probe_event l addr '' command'' m] in
               (case respond t (pc_responseFile m) probe (pc_rules m) l1 of
                  None \<Rightarrow> None
                | Some (l2, Inl _) \<Rightarrow> map_option (map_prod id (\<lambda>as. log @ as)) (stateful addr ts l2)
                | Some (l2, Inr resp) \<Rightarrow>
                    if resp = [] then map_option (map_prod id (\<lambda>as. log @ as)) (stateful addr ts l2)
                    else (case reply t resp l2 of
                            (l3, out, False) \<Rightarrow> Some (l3, log @ out)
                          | (l3, out, True) \<Rightarrow>
                              map_option (map_prod id (\<lambda>as. log @ out @ as)) (stateful addr ts l3)))))"

text \<open>The first exchange of a plain connection, after the banner.\<close>

fun first_exchange :: "string \<Rightarrow> tick list \<Rightarrow> listener \<Rightarrow> (listener \<times> action list) option" where
  "first_exchange addr [] l = Some (l, [])"
| "first_exchange addr (t # ts) l =
     (case tk_read t of
        Closed \<Rightarrow> Some (l, [])
      | Data probe \<Rightarrow>
          let l0 = bump_received (length probe) l in
          (case match_first (ls_matcher l) probe of
             None \<Rightarrow>
               map_option (map_prod id (\<lambda>as. ProbeLog None probe # as)) (sendDefaultResponse t probe (bump_missed l0))
           | Some m \<Rightarrow>
               let l1 = bump_matched l0;
                   log = [ProbeLog (Some (pc_name m)) probe, probe_event l addr '' probe matched'' m] in
               (case respond t (pc_responseFile m) probe (pc_rules m) l1 of
                  None \<Rightarrow> None
                | Some (l2, Inl _) \<Rightarrow> Some (l2, log)
                | Some (l2, Inr resp) \<Rightarrow>
                    if resp = [] then Some (l2, log)
                    else (case reply t resp l2 of
                            (l3, out, False) \<Rightarrow> Some (l3, log @ out)
                          | (l3, out, True) \<Rightarrow>
                              if sv_stateful (ls_config l3)
                              then map_option (map_prod id (\<lambda>as. log @ out @ as)) (stateful addr ts l3)
                              else Some (l3, log @ out)))))"

section \<open>TLS ports\<close>

definition tls_common_name :: "options \<Rightarrow> string" where
  "tls_common_name opts = first_set [opt_get opts ''netbios_name'', opt_get opts ''hostname'', ''WORKSTATION'']"

text \<open>\<open>prefixConn\<close>: the bytes already read come back first, then those of the connection.  \<open>inner\<close>
  reads at most so many bytes of the connection below.\<close>

definition prefix_read :: "(nat \<Rightarrow> 'c \<Rightarrow> bytes \<times> 'c) \<Rightarrow> nat \<Rightarrow> bytes \<times> 'c \<Rightarrow> bytes \<times> bytes \<times> 'c" where
  "prefix_read inner n c =
     (case c of (pre, conn) \<Rightarrow>
        if pre \<noteq> [] then (take n pre, drop n pre, conn)
        else (case inner n conn of (out, conn') \<Rightarrow> (out, [], conn')))"

definition serveTLSBackend :: "tick \<Rightarrow> tick list \<Rightarrow> string \<Rightarrow> listener \<Rightarrow> (listener \<times> action list) option" where
  "serveTLSBackend t ts addr l =
     (if sv_tlsBackend (ls_config l) = ''http'' then
        let u = (case ts of [] \<Rightarrow> t\<lparr>tk_read := Closed\<rparr> | u # _ \<Rightarrow> u);
            req = (case tk_read u of Closed \<Rightarrow> [] | Data d \<Rightarrow> d);
            httpDir = path_join [path_dir (ls_baseDir l), ''http''] in
        (case tlsBackendHTTPResponse (tk_su u) (tk_files u) req httpDir (ls_responder l) of
           None \<Rightarrow> None
         | Some resp \<Rightarrow>
             (case reply u resp l of
                (l1, as, True) \<Rightarrow> Some (l1, as @ [plain_event l addr Probe '' HTTPS request served''])
              | (l1, as, False) \<Rightarrow> Some (l1, as)))
      else Some (l, []))"

definition handleTLSConn :: "tick list \<Rightarrow> string \<Rightarrow> listener \<Rightarrow> (listener \<times> action list) option" where
  "handleTLSConn ticks addr l =
     (case ticks of
        [] \<Rightarrow> Some (l, [])
      | t # ts \<Rightarrow>
          (case tk_read t of
             Closed \<Rightarrow> Some (l, [])
           | Data hello \<Rightarrow>
               if hello = [] then Some (l, [])
               else
                 let l0 = bump_received (length hello) l in
                 (case match_first (ls_matcher l) hello of
                    Some m \<Rightarrow>
                      let l1 = bump_matched l0; log = ProbeLog (Some (pc_name m)) hello in
                      (case respond t (pc_responseFile m) hello (pc_rules m) l1 of
                         None \<Rightarrow> None
                       | Some (l2, Inl _) \<Rightarrow> Some (l2, [log])
                       | Some (l2, Inr resp) \<Rightarrow>
                           if resp = [] then Some (l2, [log])
                           else (case reply t resp l2 of (l3, as, _) \<Rightarrow> Some (l3, log # as)))
                  | None \<Rightarrow>
                      if \<not> tk_handshake t then Some (l0, [])
                      else map_option (map_prod id (\<lambda>as. plain_event l addr Connection '' TLS handshake completed'' # as))
                             (serveTLSBackend t ts addr l0))))"

text \<open>\<open>handleTCPConn\<close>; \<open>t0\<close> is the tick of the accept.\<close>

definition handleTCPConn :: "tick \<Rightarrow> tick list \<Rightarrow> string \<Rightarrow> listener \<Rightarrow> (listener \<times> action list) option" where
  "handleTCPConn t0 ticks addr l =
     map_option (map_prod id (\<lambda>as. plain_event l addr Connection '' connection'' # as))
       (if sv_tls (ls_config l) then handleTLSConn ticks addr l
        else if sv_speaksFirst (ls_config l) then
          (case send_banner t0 addr l of
             None \<Rightarrow> None
           | Some (l1, as) \<Rightarrow> map_option (map_prod id (\<lambda>bs. as @ bs)) (first_exchange addr ticks l1))
        else first_exchange addr ticks l)"

text \<open>One accepted connection of \<open>serveTCP\<close>.\<close>

definition accept_conn :: "tick \<Rightarrow> tick list \<Rightarrow> string \<Rightarrow> listener \<Rightarrow> (listener \<times> action list) option" where
  "accept_conn t0 ticks addr l = handleTCPConn t0 ticks addr (bump_connections l)"

section \<open>UDP\<close>

text \<open>\<open>serveUDP\<close>: a read error or a timeout starts the next round; \<open>WriteToUDP\<close> reports 0 bytes when
  it fails.\<close>

fun serveUDP :: "tick list \<Rightarrow> listener \<Rightarrow> (listener \<times> action list) option" where
  "serveUDP [] l = Some (l, [])"
| "serveUDP (t # ts) l =
     (if tk_stopped t then Some (l, [])
      else case tk_read t of
        Closed \<Rightarrow> serveUDP ts l
      | Data probe \<Rightarrow>
          let l0 = bump_received (length probe) (bump_connections l) in
          (case match_first (ls_matcher l) probe of
             None \<Rightarrow> map_option (map_prod id (\<lambda>as. ProbeLog None probe # as)) (serveUDP ts (bump_missed l0))
           | Some m \<Rightarrow>
               let l1 = bump_matched l0; log = [ProbeLog (Some (pc_name m)) probe] in
               (case respond t (pc_responseFile m) probe (pc_rules m) l1 of
                  None \<Rightarrow> None
                | Some (l2, Inl _) \<Rightarrow> map_option (map_prod id (\<lambda>as. log @ as)) (serveUDP ts l2)
                | Some (l2, Inr resp) \<Rightarrow>
                    if resp = [] then map_option (map_prod id (\<lambda>as. log @ as)) (serveUDP ts l2)
                    else (case reply t resp l2 of
                            (l3, out, _) \<Rightarrow> map_option (map_prod id (\<lambda>as. log @ out @ as)) (serveUDP ts l3)))))"

section \<open>The jitter\<close>

lemma jitter_delay_bounds:
  assumes "\<forall>n > 0. 0 \<le> rnd n \<and> rnd n < n"
  shows "0 \<le> jitter_delay jmin jmax rnd \<and> jitter_delay jmin jmax rnd \<le> max 0 (max jmin jmax)"
proof -
  have r: "0 \<le> rnd n" "rnd n < n" if "0 < n" for n using assms that by auto
  show ?thesis
    using r [of "max jmin jmax - min jmin jmax"]
    by (auto simp: jitter_delay_def Let_def max_def min_def split: if_splits)
qed

section \<open>The counters\<close>

text \<open>What the actions of a handler account for.\<close>

fun sent_bytes :: "action list \<Rightarrow> nat" where
  "sent_bytes [] = 0"
| "sent_bytes (Send b # as) = length b + sent_bytes as"
| "sent_bytes (_ # as) = sent_bytes as"

fun logged :: "bool \<Rightarrow> action list \<Rightarrow> nat" where
  "logged hit [] = 0"
| "logged hit (ProbeLog n _ # as) = (if (n \<noteq> None) = hit then 1 else 0) + logged hit as"
| "logged hit (_ # as) = logged hit as"

lemma sent_bytes_append [simp]: "sent_bytes (as @ bs) = sent_bytes as + sent_bytes bs"
  by (induction as rule: sent_bytes.induct) auto

lemma logged_append [simp]: "logged h (as @ bs) = logged h as + logged h bs"
  by (induction h as rule: logged.induct) auto

lemma pause_accounts [simp]: "sent_bytes (pause t l) = 0" "logged h (pause t l) = 0"
  by (auto simp: pause_def Let_def)

lemma event_accounts [simp]:
  "sent_bytes [probe_event l a m p] = 0" "logged h [probe_event l a m p] = 0"
  "sent_bytes (plain_event l a t m # as) = sent_bytes as" "logged h (plain_event l a t m # as) = logged h as"
  "sent_bytes (probe_event l a m p # as) = sent_bytes as" "logged h (probe_event l a m p # as) = logged h as"
  by (simp_all add: probe_event_def plain_event_def listener_event_def)

text \<open>\<open>l'\<close> is \<open>l\<close> after the actions \<open>as\<close>, of which \<open>n\<close> were banners: nothing but the counters and the
  template cache has moved, and the counters tell what was done.\<close>

definition same_setup :: "listener \<Rightarrow> listener \<Rightarrow> bool" where
  "same_setup l l' \<longleftrightarrow>
     ls_config l' = ls_config l \<and> ls_baseDir l' = ls_baseDir l \<and> ls_matcher l' = ls_matcher l \<and>
     ls_options l' = ls_options l \<and> ls_jitterMinMs l' = ls_jitterMinMs l \<and> ls_jitterMaxMs l' = ls_jitterMaxMs l \<and>
     rs_options (ls_responder l') = rs_options (ls_responder l) \<and> rs_boot (ls_responder l') = rs_boot (ls_responder l) \<and>
     rs_store (ls_responder l') = rs_store (ls_responder l) \<and> rs_baseDir (ls_responder l') = rs_baseDir (ls_responder l)"

definition accounts :: "nat \<Rightarrow> listener \<Rightarrow> listener \<Rightarrow> action list \<Rightarrow> bool" where
  "accounts n l l' as \<longleftrightarrow>
     same_setup l l' \<and> st_connections (ls_stats l') = st_connections (ls_stats l) \<and>
     st_bytesSent (ls_stats l') = st_bytesSent (ls_stats l) + of_nat (sent_bytes as) \<and>
     st_probesMatched (ls_stats l') = st_probesMatched (ls_stats l) + of_nat (logged True as + n) \<and>
     st_probesMissed (ls_stats l') = st_probesMissed (ls_stats l) + of_nat (logged False as)"

lemma accounts_Nil [simp]: "accounts 0 l l []"
  by (simp add: accounts_def same_setup_def)

lemma accounts_trans:
  "accounts m l l1 as \<Longrightarrow> accounts n l1 l2 bs \<Longrightarrow> k = m + n \<Longrightarrow> cs = as @ bs \<Longrightarrow> accounts k l l2 cs"
  by (simp add: accounts_def same_setup_def)

lemma accounts_event:
  "accounts n l l' as \<Longrightarrow> accounts n l l' (plain_event k a t m # as)"
  "accounts n l l' as \<Longrightarrow> accounts n l l' (probe_event k a s p # as)"
  "accounts n l l' as \<Longrightarrow> accounts n l l' (as @ [plain_event k a t m])"
  "accounts n l l' as \<Longrightarrow> accounts n l l' (as @ [probe_event k a s p])"
  by (simp_all add: accounts_def)

lemma accounts_respond: "respond t name probe rules l = Some (l', x) \<Longrightarrow> accounts 0 l l' []"
proof -
  assume "respond t name probe rules l = Some (l', x)"
  then obtain r where g: "fst (getResponse (tk_su t) (tk_files t) name probe rules (ls_responder l)) = r"
    and l': "l' = l\<lparr>ls_responder := r\<rparr>"
    by (auto simp: respond_def split: prod.splits option.splits)
  obtain r1 y where "loadTemplate (tk_files t) name (ls_responder l) = (r1, y)" by fastforce
  moreover from this have "r = r1" using g by (cases y) (auto simp: getResponse_def)
  ultimately show ?thesis
    using loadTemplate_frame [of "tk_files t" name "ls_responder l" r1 y] l'
    by (simp add: accounts_def same_setup_def)
qed

lemma accounts_reply: "reply t resp l = (l', as, ok) \<Longrightarrow> accounts 0 l l' as"
  by (auto simp: reply_def accounts_def same_setup_def split: if_splits)

lemma accounts_received [simp]: "accounts n (bump_received k l) l' as \<longleftrightarrow> accounts n l l' as"
  by (simp add: accounts_def same_setup_def)

lemma accounts_received' [simp]: "accounts n l (bump_received k l') as \<longleftrightarrow> accounts n l l' as"
  by (simp add: accounts_def same_setup_def)

lemma accounts_matched: "accounts n (bump_matched l) l' as \<Longrightarrow> accounts n l l' (ProbeLog (Some m) d # as)"
  by (simp add: accounts_def same_setup_def algebra_simps)

lemma accounts_missed: "accounts n (bump_missed l) l' as \<Longrightarrow> accounts n l l' (ProbeLog None d # as)"
  by (simp add: accounts_def same_setup_def algebra_simps)

lemma accounts_match:
  assumes "respond t name d rules (bump_matched (bump_received k l)) = Some (l2, x)"
    and "accounts n l2 l' as"
  shows "accounts n l l' (ProbeLog (Some m) d # probe_event q a s p # as)"
proof -
  have "accounts n (bump_matched l) l' (probe_event q a s p # as)"
    using accounts_respond [OF assms(1)] assms(2)
    by (intro accounts_event) (auto simp: accounts_def same_setup_def)
  then show ?thesis by (rule accounts_matched)
qed

lemma accounts_stateful: "stateful addr ts l = Some (l', as) \<Longrightarrow> accounts 0 l l' as"
proof (induction addr ts l arbitrary: l' as rule: stateful.induct)
  case (2 addr t ts l)
  show ?case
  proof (cases "tk_stopped t \<or> tk_read t = Closed")
    case True
    with "2.prems" show ?thesis by (auto split: if_splits)
  next
    case False
    then obtain d where d: "tk_read t = Data d" and run: "\<not> tk_stopped t" by (cases "tk_read t") auto
    let ?l0 = "bump_received (length d) l"
    show ?thesis
    proof (cases "match_first (ls_matcher l) d")
      case None
      with "2.prems" run d obtain bs where bs: "stateful addr ts (bump_missed ?l0) = Some (l', bs)" "as = ProbeLog None d # bs"
        by (auto simp: Let_def)
      have "accounts 0 (bump_missed ?l0) l' bs"
        using "2.IH"(1) [OF run d refl None] bs(1) by blast
      then show ?thesis unfolding bs(2) by (intro accounts_missed) (simp add: accounts_def same_setup_def)
    next
      case (Some m)
      then obtain l2 x where r: "respond t (pc_responseFile m) d (pc_rules m) (bump_matched ?l0) = Some (l2, x)"
        using "2.prems" run d by (auto simp: Let_def split: option.splits)
      show ?thesis
      proof (cases "(\<exists>b. x = Inr b \<and> b \<noteq> [])")
        case False
        then obtain bs where bs: "stateful addr ts l2 = Some (l', bs)"
            "as = ProbeLog (Some (pc_name m)) d # probe_event l addr '' command'' m # bs"
          using "2.prems" run d Some r by (cases x) (auto simp: Let_def split: if_splits)
        have "accounts 0 l2 l' bs"
          using "2.IH"(2,3) [OF run d refl Some refl refl r] bs(1) False by (cases x) (auto simp: Let_def)
        then show ?thesis unfolding bs(2) by (rule accounts_match [OF r])
      next
        case True
        then obtain b where b: "x = Inr b" "b \<noteq> []" by blast
        obtain l3 out ok where rp: "reply t b l2 = (l3, out, ok)" by (metis prod_cases3)
        show ?thesis
        proof (cases ok)
          case False
          with "2.prems" run d Some r b rp have "l' = l3" "as = ProbeLog (Some (pc_name m)) d # probe_event l addr '' command'' m # out"
            by (auto simp: Let_def)
          then show ?thesis using accounts_match [OF r accounts_reply [OF rp]] by simp
        next
          case True
          with "2.prems" run d Some r b rp obtain bs where bs: "stateful addr ts l3 = Some (l', bs)"
            "as = ProbeLog (Some (pc_name m)) d # probe_event l addr '' command'' m # out @ bs"
            by (auto simp: Let_def)
          have "accounts 0 l3 l' bs"
            using "2.IH"(4) [OF run d refl Some refl refl r refl b rp [symmetric] refl] bs(1) True by simp
          then show ?thesis
            unfolding bs(2) using accounts_match [OF r accounts_trans [OF accounts_reply [OF rp] _ refl refl]] by simp
        qed
      qed
    qed
  qed
qed simp

lemma accounts_default: "sendDefaultResponse t d l = Some (l', as) \<Longrightarrow> accounts 0 l l' as"
  by (auto simp: sendDefaultResponse_def split: if_splits option.splits sum.splits prod.splits
      dest!: accounts_respond accounts_reply intro: accounts_trans)

lemma accounts_first_exchange: "first_exchange addr ts l = Some (l', as) \<Longrightarrow> accounts 0 l l' as"
proof (cases ts)
  case (Cons t ts')
  assume run: "first_exchange addr ts l = Some (l', as)"
  show ?thesis
  proof (cases "tk_read t")
    case (Data d)
    let ?l0 = "bump_received (length d) l"
    show ?thesis
    proof (cases "match_first (ls_matcher l) d")
      case None
      with run Cons Data obtain bs where bs: "sendDefaultResponse t d (bump_missed ?l0) = Some (l', bs)" "as = ProbeLog None d # bs"
        by (auto simp: Let_def)
      have "accounts 0 (bump_missed l) l' bs"
        using accounts_default [OF bs(1)] by (simp add: accounts_def same_setup_def)
      then show ?thesis unfolding bs(2) by (rule accounts_missed)
    next
      case (Some m)
      let ?log = "\<lambda>bs. ProbeLog (Some (pc_name m)) d # probe_event l addr '' probe matched'' m # bs"
      obtain l2 x where r: "respond t (pc_responseFile m) d (pc_rules m) (bump_matched ?l0) = Some (l2, x)"
        using run Cons Data Some by (auto simp: Let_def split: option.splits)
      consider (none) "l' = l2" "as = ?log []"
        | (out) b l3 out ok bs where "reply t b l2 = (l3, out, ok)" "accounts 0 l3 l' bs" "as = ?log (out @ bs)"
      proof (cases "\<exists>b. x = Inr b \<and> b \<noteq> []")
        case True
        then obtain b where b: "x = Inr b" "b \<noteq> []" by blast
        obtain l3 out ok where rp: "reply t b l2 = (l3, out, ok)" by (metis prod_cases3)
        show ?thesis
        proof (cases "ok \<and> sv_stateful (ls_config l3)")
          case True
          with run Cons Data Some r b rp obtain bs where "stateful addr ts' l3 = Some (l', bs)" "as = ?log (out @ bs)"
            by (auto simp: Let_def)
          with out [OF rp] accounts_stateful show ?thesis by blast
        next
          case False
          with run Cons Data Some r b rp have "l' = l3" "as = ?log out"
            by (auto simp: Let_def split: if_splits bool.splits)
          with out [OF rp, of "[]"] show ?thesis by simp
        qed
      next
        case False
        with run Cons Data Some r none show ?thesis by (cases x) (auto simp: Let_def split: if_splits)
      qed
      then show ?thesis
      proof cases
        case none
        then show ?thesis using accounts_match [OF r accounts_Nil] by simp
      next
        case out
        then show ?thesis
          using accounts_match [OF r accounts_trans [OF accounts_reply [OF out(1)] out(2) refl refl]] by simp
      qed
    qed
  qed (use run Cons in auto)
qed simp

lemma accounts_banner:
  assumes "send_banner t addr l = Some (l', as)"
  shows "\<exists>n \<le> 1. accounts n l l' as \<and> logged h as = 0"
proof (cases "match_first (ls_matcher l) []")
  case (Some m)
  with assms obtain l1 x where r: "respond t (pc_responseFile m) [] (pc_rules m) l = Some (l1, x)"
    by (auto simp: send_banner_def split: option.splits)
  show ?thesis
  proof (cases "\<exists>b. x = Inr b \<and> b \<noteq> []")
    case True
    then obtain b where b: "x = Inr b" "b \<noteq> []" by blast
    obtain l2 out ok where rp: "reply t b l1 = (l2, out, ok)" by (metis prod_cases3)
    have o: "accounts 0 l l2 out"
      using accounts_trans [OF accounts_respond [OF r] accounts_reply [OF rp]] by simp
    have lg: "logged h out = 0" using rp by (auto simp: reply_def split: if_splits)
    show ?thesis
    proof (cases ok)
      case True
      with assms Some r b rp have "l' = bump_matched l2" "as = out @ [probe_event l addr '' banner sent'' m]"
        by (simp_all add: send_banner_def)
      with o lg have "accounts 1 l l' as \<and> logged h as = 0"
        by (simp add: accounts_def same_setup_def algebra_simps)
      then show ?thesis by (metis order_refl)
    next
      case False
      with assms Some r b rp o lg show ?thesis by (simp add: send_banner_def) (metis zero_le)
    qed
  next
    case False
    with assms Some r have "l' = l1 \<and> as = []" by (cases x) (auto simp: send_banner_def split: if_splits)
    with accounts_respond [OF r] show ?thesis by (auto intro!: exI [of _ 0])
  qed
qed (use assms in \<open>auto simp: send_banner_def\<close>)

lemma accounts_backend: "serveTLSBackend t ts addr l = Some (l', as) \<Longrightarrow> accounts 0 l l' as"
  by (auto simp: serveTLSBackend_def Let_def split: if_splits option.splits prod.splits bool.splits
      dest!: accounts_reply intro: accounts_event)

lemma accounts_tls:
  assumes "handleTLSConn ticks addr l = Some (l', as)"
  shows "accounts 0 l l' as"
proof (cases "\<exists>t ts d. ticks = t # ts \<and> tk_read t = Data d \<and> d \<noteq> []")
  case True
  then obtain t ts d where t: "ticks = t # ts" "tk_read t = Data d" "d \<noteq> []" by blast
  let ?l0 = "bump_received (length d) l"
  show ?thesis
  proof (cases "match_first (ls_matcher l) d")
    case None
    with assms t show ?thesis
      by (auto simp: handleTLSConn_def Let_def split: if_splits dest!: accounts_backend intro!: accounts_event)
  next
    case (Some m)
    then obtain l2 x where r: "respond t (pc_responseFile m) d (pc_rules m) (bump_matched ?l0) = Some (l2, x)"
      using assms t by (auto simp: handleTLSConn_def Let_def split: option.splits)
    obtain bs where bs: "accounts 0 l2 l' bs" "as = ProbeLog (Some (pc_name m)) d # bs"
    proof (cases "\<exists>b. x = Inr b \<and> b \<noteq> []")
      case True
      then obtain b where b: "x = Inr b" "b \<noteq> []" by blast
      obtain l3 out ok where rp: "reply t b l2 = (l3, out, ok)" by (metis prod_cases3)
      with assms t Some r b have "l' = l3" "as = ProbeLog (Some (pc_name m)) d # out"
        by (auto simp: handleTLSConn_def Let_def)
      with that accounts_reply [OF rp] show ?thesis by blast
    next
      case False
      with assms t Some r have "l' = l2" "as = [ProbeLog (Some (pc_name m)) d]"
        by (cases x; auto simp: handleTLSConn_def Let_def split: if_splits)+
      with that [of "[]"] show ?thesis by simp
    qed
    have "accounts 0 (bump_matched l) l' bs"
      using accounts_respond [OF r] bs(1) by (auto simp: accounts_def same_setup_def)
    then show ?thesis unfolding bs(2) by (rule accounts_matched)
  qed
next
  case False
  with assms show ?thesis
    by (auto simp: handleTLSConn_def Let_def split: list.splits read.splits if_splits)
qed

text \<open>C33. The counters are honest: over a connection the \<open>bytes_sent\<close> counter grows by exactly the
  bytes written to the peer, \<open>probes_missed\<close> by the unmatched and \<open>probes_matched\<close> by the matched
  lines of the probe log, plus at most one for a banner; and configuration, matcher and options
  are never changed by traffic.\<close>

theorem counters_account:
  assumes "handleTCPConn t0 ticks addr l = Some (l', as)"
  shows "st_bytesSent (ls_stats l') = st_bytesSent (ls_stats l) + of_nat (sent_bytes as) \<and>
    st_probesMissed (ls_stats l') = st_probesMissed (ls_stats l) + of_nat (logged False as) \<and>
    (\<exists>banners \<le> (if sv_speaksFirst (ls_config l) \<and> \<not> sv_tls (ls_config l) then 1 else 0).
       st_probesMatched (ls_stats l') = st_probesMatched (ls_stats l) + of_nat (logged True as + banners)) \<and>
    same_setup l l'"
proof -
  have "\<exists>banners \<le> (if sv_speaksFirst (ls_config l) \<and> \<not> sv_tls (ls_config l) then 1 else 0). accounts banners l l' as"
  proof (cases "sv_tls (ls_config l) \<or> \<not> sv_speaksFirst (ls_config l)")
    case True
    with assms show ?thesis
      by (auto simp: handleTCPConn_def split: if_splits dest!: accounts_tls accounts_first_exchange intro!: accounts_event)
  next
    case False
    with assms obtain l1 bs cs where b: "send_banner t0 addr l = Some (l1, bs)"
      and c: "first_exchange addr ticks l1 = Some (l', cs)"
      and as: "as = plain_event l addr Connection '' connection'' # bs @ cs"
      by (auto simp: handleTCPConn_def split: option.splits)
    obtain n where n: "n \<le> 1" "accounts n l l1 bs" using accounts_banner [OF b] by blast
    have "accounts n l l' (bs @ cs)"
      using accounts_trans [OF n(2) accounts_first_exchange [OF c]] by simp
    with n(1) False show ?thesis unfolding as by (auto intro!: accounts_event)
  qed
  then show ?thesis by (auto simp: accounts_def)
qed

definition example_tick :: "read \<Rightarrow> tick" where
  "example_tick r = \<lparr>tk_su = example_surrounds, tk_files = [''/svc/pong.bin'' \<mapsto> [43, 80]], tk_stopped = False,
     tk_rnd = (\<lambda>_. 0), tk_writes = True, tk_handshake = False, tk_read = r\<rparr>"

definition example_listener :: listener where
  "example_listener = newListenerWithOptions 0 0
     \<lparr>sv_name = ''redis'', sv_port = 6379, sv_protocol = ''tcp'', sv_stateful = True, sv_speaksFirst = False,
      sv_tls = False, sv_tlsBackend = [], sv_defaultResponse = [], sv_probes = [any_probe]\<rparr> ''/svc'' Map.empty"

lemma example_match:
  "match_first (ls_matcher example_listener) (bytes_of ''PING'') = Some any_probe"
  "match_first (ls_matcher example_listener) [1] = None"
  by (simp_all add: example_listener_def newListenerWithOptions_def newProbeMatcher_def probeRequirementsMet_def
      any_probe_def compile_probe_def compile_pattern_def matchProbe_def Let_def bytes_contains_def index_of.simps
      starts_with_def esc_def)

lemma example_path: "path_join [''/svc'', ''pong.bin''] = ''/svc/pong.bin''"
  by code_simp

lemma example_respond:
  assumes "rs_options (ls_responder l) = Map.empty" and "rs_store (ls_responder l) = None"
    and "rs_baseDir (ls_responder l) = ''/svc''" and "rs_cache (ls_responder l) = Map.empty"
  shows "\<exists>r'. respond (example_tick r) ''pong.bin'' d [] l = Some (l\<lparr>ls_responder := r'\<rparr>, Inr [43, 80])"
  using assms
  by (simp add: respond_def getResponse_def loadTemplate_def Let_def example_path example_tick_def
      render_template_def text_stages_def applyLeak_def fixHTTPContentLength_def applyServerHeader_def
      starts_with_def opt_get_def) (rule exI, rule refl)

lemma example_pause: "ls_jitterMaxMs l = 0 \<Longrightarrow> pause t l = []"
  by (simp add: pause_def jitter_delay_def)

lemma example_run:
  "\<exists>l' as. handleTCPConn (example_tick Closed) [example_tick (Data (bytes_of ''PING'')), example_tick (Data [1])]
     ''10.0.0.9:4000'' example_listener = Some (l', as) \<and> sent_bytes as = 2 \<and> logged False as = 1 \<and> logged True as = 1"
proof -
  let ?l1 = "bump_matched (bump_received (length (bytes_of ''PING'')) example_listener)"
  have cfg: "\<not> sv_tls (ls_config example_listener)" "\<not> sv_speaksFirst (ls_config example_listener)"
    "sv_stateful (ls_config example_listener)" "ls_jitterMaxMs example_listener = 0"
    by (simp_all add: example_listener_def newListenerWithOptions_def opt_get_def atoi_def)
  have pc: "pc_responseFile any_probe = ''pong.bin''" "pc_rules any_probe = []"
    by (simp_all add: any_probe_def)
  have rd: "tk_read (example_tick x) = x" "\<not> tk_stopped (example_tick x)" "tk_writes (example_tick x)" for x
    by (simp_all add: example_tick_def)
  obtain r' where r: "respond (example_tick (Data (bytes_of ''PING''))) ''pong.bin'' (bytes_of ''PING'') [] ?l1 =
      Some (?l1\<lparr>ls_responder := r'\<rparr>, Inr [43, 80])"
    using example_respond [of ?l1]
    by (auto simp: example_listener_def newListenerWithOptions_def newResponderWithOptions_def)
  show ?thesis
    using r example_match cfg by (simp add: handleTCPConn_def Let_def rd pc reply_def example_pause)
qed

lemma counters_account_witness:
  "\<exists>l' as. handleTCPConn (example_tick Closed) [example_tick (Data (bytes_of ''PING'')), example_tick (Data [1])]
     ''10.0.0.9:4000'' example_listener = Some (l', as) \<and>
     st_bytesSent (ls_stats l') = 2 \<and> st_probesMissed (ls_stats l') = 1"
proof -
  obtain l' as where run: "handleTCPConn (example_tick Closed) [example_tick (Data (bytes_of ''PING'')), example_tick (Data [1])]
      ''10.0.0.9:4000'' example_listener = Some (l', as)" "sent_bytes as = 2" "logged False as = 1"
    using example_run by blast
  have "st_bytesSent (ls_stats example_listener) = 0" "st_probesMissed (ls_stats example_listener) = 0"
    by (simp_all add: example_listener_def newListenerWithOptions_def zero_stats_def)
  with counters_account [OF run(1)] run show ?thesis by auto
qed

section \<open>A conversation is its requests\<close>

text \<open>The directory does not change, the listener keeps running and the peer keeps reading.\<close>

definition steady :: "files \<Rightarrow> tick list \<Rightarrow> bool" where
  "steady fs ts \<longleftrightarrow> (\<forall>t \<in> set ts. tk_files t = fs \<and> \<not> tk_stopped t \<and> tk_writes t)"

fun sends :: "action list \<Rightarrow> bytes list" where
  "sends [] = []"
| "sends (Send b # as) = b # sends as"
| "sends (_ # as) = sends as"

text \<open>What the peer asked until it closed.\<close>

fun requests :: "tick list \<Rightarrow> (tick \<times> bytes) list" where
  "requests [] = []"
| "requests (t # ts) = (case tk_read t of Closed \<Rightarrow> [] | Data d \<Rightarrow> (t, d) # requests ts)"

text \<open>The reply to one request, without cache: the rendering of the first matching probe's file.\<close>

definition file_reply :: "tick \<Rightarrow> files \<Rightarrow> string \<Rightarrow> bytes \<Rightarrow> rewrite_rule list \<Rightarrow> responder_state \<Rightarrow> bytes list" where
  "file_reply t fs name d rules r =
     (case fs (path_join [rs_baseDir r, name]) of
        None \<Rightarrow> []
      | Some tmpl \<Rightarrow>
          (case render_template (tk_su t) r d rules tmpl of
             Some (Inr b) \<Rightarrow> if b = [] then [] else [b]
           | _ \<Rightarrow> []))"

definition answer_to :: "files \<Rightarrow> listener \<Rightarrow> tick \<times> bytes \<Rightarrow> bytes list" where
  "answer_to fs l q =
     (case q of (t, d) \<Rightarrow>
        (case match_first (ls_matcher l) d of
           None \<Rightarrow> []
         | Some m \<Rightarrow> file_reply t fs (pc_responseFile m) d (pc_rules m) (ls_responder l)))"

definition default_to :: "files \<Rightarrow> listener \<Rightarrow> tick \<times> bytes \<Rightarrow> bytes list" where
  "default_to fs l q =
     (case q of (t, d) \<Rightarrow>
        if match_first (ls_matcher l) d = None \<and> sv_defaultResponse (ls_config l) \<noteq> []
        then file_reply t fs (sv_defaultResponse (ls_config l)) d [] (ls_responder l) else [])"

definition cache_ok :: "files \<Rightarrow> responder_state \<Rightarrow> bool" where
  "cache_ok fs r \<longleftrightarrow> (\<forall>name t. rs_cache r name = Some t \<longrightarrow> fs (path_join [rs_baseDir r, name]) = Some t)"

lemma loadTemplate_ok:
  assumes "loadTemplate fs name r = (r', x)" and "cache_ok fs r"
  shows "cache_ok fs r' \<and> x = (case fs (path_join [rs_baseDir r, name]) of
    None \<Rightarrow> Inl (ReadingTemplate (path_join [rs_baseDir r, name])) | Some t \<Rightarrow> Inr t)"
proof (cases "rs_cache r name")
  case (Some t)
  with assms have "fs (path_join [rs_baseDir r, name]) = Some t" by (simp add: cache_ok_def)
  with assms Some show ?thesis by (simp add: loadTemplate_def)
next
  case None
  with assms show ?thesis
    by (cases "fs (path_join [rs_baseDir r, name])") (auto simp: loadTemplate_def Let_def cache_ok_def split: if_splits)
qed

lemma respond_ok:
  assumes "respond t name d rules l = Some (l', x)" and "cache_ok fs (ls_responder l)" and "tk_files t = fs"
  shows "cache_ok fs (ls_responder l') \<and> same_setup l l' \<and>
    (case x of Inr b \<Rightarrow> if b = [] then [] else [b] | Inl _ \<Rightarrow> []) = file_reply t fs name d rules (ls_responder l)"
proof -
  obtain r1 y where ld: "loadTemplate fs name (ls_responder l) = (r1, y)" by fastforce
  note ok = loadTemplate_ok [OF ld assms(2)] and fr = loadTemplate_frame [OF ld]
  have "same_setup l l'" using accounts_respond [OF assms(1)] by (simp add: accounts_def)
  moreover have "render_template su r1 d rules tmpl = render_template su (ls_responder l) d rules tmpl" for su tmpl
    using fr by (intro render_template_cong) auto
  moreover have "ls_responder l' = r1"
    using assms(1,3) ld by (cases y) (auto simp: respond_def getResponse_def split: option.splits)
  ultimately show ?thesis
    using assms(1,3) ok ld
    by (cases "fs (path_join [rs_baseDir (ls_responder l), name])")
      (auto simp: respond_def getResponse_def file_reply_def split: option.splits sum.splits)
qed

lemma file_reply_cong:
  "same_setup l l' \<Longrightarrow> file_reply t fs name d rules (ls_responder l') = file_reply t fs name d rules (ls_responder l)"
  using render_template_cong [of "ls_responder l'" "ls_responder l"] by (simp add: file_reply_def same_setup_def cong: option.case_cong)

lemma answer_to_cong: "same_setup l l' \<Longrightarrow> answer_to fs l' = answer_to fs l"
  using file_reply_cong by (auto simp: answer_to_def same_setup_def fun_eq_iff split: option.splits)

lemma same_setup_stats [simp]:
  "same_setup (l\<lparr>ls_stats := s\<rparr>) l' = same_setup l l'" "same_setup l (l'\<lparr>ls_stats := s\<rparr>) = same_setup l l'"
  "same_setup l l"
  by (simp_all add: same_setup_def)

lemma same_setup_trans: "same_setup a b \<Longrightarrow> same_setup b c \<Longrightarrow> same_setup a c"
  by (simp add: same_setup_def)

lemma sends_append [simp]: "sends (as @ bs) = sends as @ sends bs"
  by (induction as rule: sends.induct) auto

lemma sends_event [simp]:
  "sends (plain_event l a t m # as) = sends as" "sends (probe_event l a s p # as) = sends as"
  by (simp_all add: plain_event_def probe_event_def listener_event_def)

lemma sends_pause [simp]: "sends (pause t l) = []"
  by (simp add: pause_def Let_def)

lemma reply_steady:
  "reply t b l = (l', out, ok) \<Longrightarrow> tk_writes t \<Longrightarrow>
     ok \<and> sends out = [b] \<and> same_setup l l' \<and> ls_responder l' = ls_responder l"
  by (auto simp: reply_def same_setup_def)

lemma stateful_sends:
  "stateful addr ts l = Some (l', as) \<Longrightarrow> cache_ok fs (ls_responder l) \<Longrightarrow> steady fs ts \<Longrightarrow>
     sends as = concat (map (answer_to fs l) (requests ts))"
proof (induction addr ts l arbitrary: l' as rule: stateful.induct)
  case (2 addr t ts l)
  from "2.prems"(3) have st: "\<not> tk_stopped t" "tk_files t = fs" "tk_writes t" "steady fs ts"
    by (auto simp: steady_def)
  show ?case
  proof (cases "tk_read t")
    case Closed
    with "2.prems" st show ?thesis by simp
  next
    case (Data d)
    let ?l0 = "bump_received (length d) l"
    show ?thesis
    proof (cases "match_first (ls_matcher l) d")
      case None
      with "2.prems" st Data obtain bs where bs: "stateful addr ts (bump_missed ?l0) = Some (l', bs)" "as = ProbeLog None d # bs"
        by (auto simp: Let_def)
      have "sends bs = concat (map (answer_to fs (bump_missed ?l0)) (requests ts))"
        using "2.IH"(1) [OF st(1) Data refl None] bs(1) "2.prems"(2) st(4) by simp
      moreover have "answer_to fs (bump_missed ?l0) = answer_to fs l"
        by (rule answer_to_cong) (simp add: same_setup_def)
      moreover have "answer_to fs l (t, d) = []"
        using None by (simp add: answer_to_def)
      ultimately show ?thesis
        using Data bs(2) by simp
    next
      case (Some m)
      then obtain l2 x where r: "respond t (pc_responseFile m) d (pc_rules m) (bump_matched ?l0) = Some (l2, x)"
        using "2.prems" st Data by (auto simp: Let_def split: option.splits)
      have ok: "cache_ok fs (ls_responder l2)" "same_setup l l2"
        "(case x of Inr b \<Rightarrow> if b = [] then [] else [b] | Inl _ \<Rightarrow> []) = answer_to fs l (t, d)"
        using respond_ok [OF r _ st(2)] "2.prems"(2) Some by (simp_all add: answer_to_def)
      show ?thesis
      proof (cases "(\<exists>b. x = Inr b \<and> b \<noteq> [])")
        case False
        then obtain bs where bs: "stateful addr ts l2 = Some (l', bs)"
            "as = ProbeLog (Some (pc_name m)) d # probe_event l addr '' command'' m # bs"
          using "2.prems" st Data Some r by (cases x) (auto simp: Let_def split: if_splits)
        have "sends bs = concat (map (answer_to fs l2) (requests ts))"
          using "2.IH"(2,3) [OF st(1) Data refl Some refl refl r refl] bs(1) False ok(1) st(4) by (cases x) (auto simp: Let_def)
        then show ?thesis
          using False ok(3) Data answer_to_cong [OF ok(2)] unfolding bs(2) by (cases x) auto
      next
        case True
        then obtain b where b: "x = Inr b" "b \<noteq> []" by blast
        obtain l3 out ok' where rp: "reply t b l2 = (l3, out, ok')" by (metis prod_cases3)
        note rs = reply_steady [OF rp st(3)]
        with "2.prems" st Data Some r b rp obtain bs where bs: "stateful addr ts l3 = Some (l', bs)"
          "as = ProbeLog (Some (pc_name m)) d # probe_event l addr '' command'' m # out @ bs"
          by (auto simp: Let_def)
        have "sends bs = concat (map (answer_to fs l3) (requests ts))"
          using "2.IH"(4) [OF st(1) Data refl Some refl refl r refl b rp [symmetric] refl] bs(1) rs ok(1) st(4) by simp
        moreover have "answer_to fs l3 = answer_to fs l"
          using answer_to_cong [OF ok(2)] answer_to_cong [of l2 l3] rs by simp
        ultimately show ?thesis
          using ok(3) Data rs b unfolding bs(2) by simp
      qed
    qed
  qed
qed simp

lemma default_sends:
  assumes "sendDefaultResponse t d (bump_missed (bump_received (length d) l)) = Some (l', cs)" and "cache_ok fs (ls_responder l)"
    and "tk_files t = fs" and "tk_writes t" and "match_first (ls_matcher l) d = None"
  shows "sends cs = default_to fs l (t, d)"
proof (cases "sv_defaultResponse (ls_config l) = []")
  case True
  with assms(1) show ?thesis by (simp add: sendDefaultResponse_def default_to_def)
next
  case False
  with assms(1) obtain l2 x where r: "respond t (sv_defaultResponse (ls_config l)) d [] (bump_missed (bump_received (length d) l)) = Some (l2, x)"
    by (auto simp: sendDefaultResponse_def split: option.splits)
  have "(case x of Inr b \<Rightarrow> if b = [] then [] else [b] | Inl _ \<Rightarrow> []) = default_to fs l (t, d)"
    using respond_ok [OF r _ assms(3)] assms(2,5) False by (simp add: default_to_def)
  then show ?thesis
    using assms(1,4) False r by (cases x) (auto simp: sendDefaultResponse_def reply_def split: if_splits)
qed

lemma matched_sends:
  assumes "first_exchange addr (t # ts) l = Some (l', bs)" and t: "tk_read t = Data d" and m: "match_first (ls_matcher l) d = Some m"
    and "sv_stateful (ls_config l)" and "cache_ok fs (ls_responder l)"
    and st: "tk_files t = fs" "tk_writes t" "steady fs ts"
  shows "sends bs = concat (map (answer_to fs l) (if answer_to fs l (t, d) = [] then [] else (t, d) # requests ts))"
proof -
  let ?log = "\<lambda>bs. ProbeLog (Some (pc_name m)) d # probe_event l addr '' probe matched'' m # bs"
  note run = assms(1)
  obtain l2 x where r: "respond t (pc_responseFile m) d (pc_rules m) (bump_matched (bump_received (length d) l)) = Some (l2, x)"
    using run t m by (auto simp: Let_def split: option.splits)
  have ok: "cache_ok fs (ls_responder l2)" "same_setup l l2"
    "(case x of Inr b \<Rightarrow> if b = [] then [] else [b] | Inl _ \<Rightarrow> []) = answer_to fs l (t, d)"
    using respond_ok [OF r _ st(1)] assms(5) m by (simp_all add: answer_to_def)
  show ?thesis
  proof (cases "\<exists>b. x = Inr b \<and> b \<noteq> []")
    case False
    then have "bs = ?log []" "answer_to fs l (t, d) = []"
      using run t m r ok(3) by (cases x; auto simp: Let_def split: if_splits)+
    then show ?thesis by simp
  next
    case True
    then obtain b where b: "x = Inr b" "b \<noteq> []" by blast
    obtain l3 out ok' where rp: "reply t b l2 = (l3, out, ok')" by (metis prod_cases3)
    note rs = reply_steady [OF rp st(2)]
    have cfg: "sv_stateful (ls_config l3)"
      using same_setup_trans [OF ok(2)] rs assms(4) by (auto simp: same_setup_def)
    with run t m r b rp rs obtain cs where c: "stateful addr ts l3 = Some (l', cs)" "bs = ?log (out @ cs)"
      by (auto simp: Let_def)
    have "sends cs = concat (map (answer_to fs l3) (requests ts))"
      using stateful_sends [OF c(1)] rs ok(1) st(3) by simp
    moreover have "answer_to fs l3 = answer_to fs l"
      using answer_to_cong [OF ok(2)] answer_to_cong [of l2 l3] rs by simp
    moreover have "answer_to fs l (t, d) = [b]" using ok(3) b by simp
    ultimately show ?thesis unfolding c(2) using rs by simp
  qed
qed

text \<open>C32. A stateful service is a request-response machine: on a plain connection to a listener that
  waits for the client, what is sent is exactly the reply of the first matching probe to every
  request, in the order of the requests and whatever was cached before, as long as the first
  request gets such a reply; otherwise the connection gets at most the default response.\<close>

theorem conversation_replies:
  assumes "handleTCPConn t0 ticks addr l = Some (l', as)"
    and "\<not> sv_tls (ls_config l)" and "\<not> sv_speaksFirst (ls_config l)" and "sv_stateful (ls_config l)"
    and "cache_ok fs (ls_responder l)" and "steady fs ticks"
  shows "sends as =
    (case requests ticks of
       [] \<Rightarrow> []
     | q # qs \<Rightarrow> if answer_to fs l q = [] then default_to fs l q else concat (map (answer_to fs l) (q # qs)))"
proof -
  obtain bs where run: "first_exchange addr ticks l = Some (l', bs)" and as: "as = plain_event l addr Connection '' connection'' # bs"
    using assms(1-3) by (auto simp: handleTCPConn_def)
  show ?thesis
  proof (cases "\<exists>t ts d. ticks = t # ts \<and> tk_read t = Data d")
    case False
    with run as show ?thesis by (cases ticks) (auto split: read.splits)
  next
    case True
    then obtain t ts d where t: "ticks = t # ts" "tk_read t = Data d" by blast
    with assms(6) have st: "tk_files t = fs" "tk_writes t" "steady fs ts" by (auto simp: steady_def)
    show ?thesis
    proof (cases "match_first (ls_matcher l) d")
      case None
      with run t obtain cs where
        c: "sendDefaultResponse t d (bump_missed (bump_received (length d) l)) = Some (l', cs)" "bs = ProbeLog None d # cs"
        by (auto simp: Let_def)
      then show ?thesis
        unfolding as c(2) using default_sends [OF c(1) assms(5) st(1,2) None] t None by (simp add: answer_to_def)
    next
      case (Some m)
      show ?thesis
        unfolding as using matched_sends [OF run [unfolded t(1)] t(2) Some assms(4,5) st] t Some by (simp add: default_to_def)
    qed
  qed
qed

lemma conversation_replies_witness:
  "\<exists>l' as. handleTCPConn (example_tick Closed) [example_tick (Data (bytes_of ''PING'')), example_tick (Data [1])]
     ''10.0.0.9:4000'' example_listener = Some (l', as) \<and> sends as = [[43, 80]]"
proof -
  let ?fs = "[''/svc/pong.bin'' \<mapsto> [43, 80 :: byte]]" and ?q = "(example_tick (Data (bytes_of ''PING'')), bytes_of ''PING'')"
  obtain l' as where run: "handleTCPConn (example_tick Closed) [example_tick (Data (bytes_of ''PING'')), example_tick (Data [1])]
      ''10.0.0.9:4000'' example_listener = Some (l', as)"
    using example_run by blast
  have rq: "requests [example_tick (Data (bytes_of ''PING'')), example_tick (Data [1])] = [?q, (example_tick (Data [1]), [1])]"
    by (simp add: example_tick_def)
  have cfg: "\<not> sv_tls (ls_config example_listener)" "\<not> sv_speaksFirst (ls_config example_listener)"
    "sv_stateful (ls_config example_listener)" "cache_ok ?fs (ls_responder example_listener)"
    "steady ?fs [example_tick (Data (bytes_of ''PING'')), example_tick (Data [1])]"
    by (simp_all add: example_listener_def newListenerWithOptions_def newResponderWithOptions_def cache_ok_def
        steady_def example_tick_def)
  have pc: "pc_responseFile any_probe = ''pong.bin''" "pc_rules any_probe = []"
    by (simp_all add: any_probe_def)
  have r: "rs_options (ls_responder example_listener) = Map.empty" "rs_store (ls_responder example_listener) = None"
    "rs_baseDir (ls_responder example_listener) = ''/svc''"
    by (simp_all add: example_listener_def newListenerWithOptions_def newResponderWithOptions_def)
  have a: "answer_to ?fs example_listener ?q = [[43, 80]]"
    using example_match(1)
    by (simp add: answer_to_def pc file_reply_def r example_path render_template_def text_stages_def
        applyLeak_def fixHTTPContentLength_def applyServerHeader_def starts_with_def opt_get_def)
  have b: "answer_to ?fs example_listener (example_tick (Data [1]), [1]) = []"
    by (simp add: answer_to_def example_match)
  have "sends as = [[43, 80]]"
    unfolding conversation_replies [OF run cfg(1-5)] rq using a b by simp
  with run show ?thesis by blast
qed

text \<open>A service that does not speak first stays silent until it is spoken to: nothing is sent on
  a connection whose peer sends nothing.\<close>

theorem silent_until_spoken_to:
  assumes "handleTCPConn t0 ticks addr l = Some (l', as)"
    and "\<not> sv_speaksFirst (ls_config l)" and "requests ticks = []"
  shows "sends as = []"
proof -
  have "ticks = [] \<or> (\<exists>t ts. ticks = t # ts \<and> tk_read t = Closed)"
    using assms(3) by (cases ticks) (auto split: read.splits)
  then show ?thesis
    using assms(1,2) by (auto simp: handleTCPConn_def handleTLSConn_def split: if_splits)
qed

lemma silent_until_spoken_to_witness:
  "\<exists>l' as. handleTCPConn (example_tick Closed) [example_tick Closed] ''10.0.0.9:4000'' example_listener = Some (l', as) \<and>
    sends as = []"
proof -
  have cfg: "\<not> sv_tls (ls_config example_listener)" "\<not> sv_speaksFirst (ls_config example_listener)"
    by (simp_all add: example_listener_def newListenerWithOptions_def)
  have rd: "tk_read (example_tick Closed) = Closed" by (simp add: example_tick_def)
  have "\<exists>l' as. handleTCPConn (example_tick Closed) [example_tick Closed] ''10.0.0.9:4000'' example_listener = Some (l', as)"
    by (simp add: handleTCPConn_def cfg rd)
  then obtain l' as where run:
    "handleTCPConn (example_tick Closed) [example_tick Closed] ''10.0.0.9:4000'' example_listener = Some (l', as)" by blast
  from silent_until_spoken_to [OF run cfg(2)] rd have "sends as = []" by simp
  with run show ?thesis by blast
qed

end
