(* ===== verification/Dynamic_Rpc.thy ===== *)
theory Dynamic_Rpc
  imports Listener
begin

text \<open>
  The dynamic RPC ports an endpoint-mapper reply advertises: \<open>internal/services/epm_ports.go\<close>
  finds them in the bytes of the reply, \<open>dynamic_rpc.go\<close> answers on them.
\<close>

section \<open>Finding the advertised ports\<close>

definition windowsDynamicPortMin :: u16 where "windowsDynamicPortMin = 49152"

definition epmFloorTCP :: bytes where "epmFloorTCP = [0x01, 0x00, 0x07, 0x02, 0x00]"
definition epmFloorIP :: bytes where "epmFloorIP = [0x01, 0x00, 0x09, 0x04, 0x00]"

text \<open>\<open>find_ip_loop fuel j\<close> is the loop of \<open>findEPMIPFloor\<close> at \<open>j\<close>.\<close>

fun find_ip_loop :: "nat \<Rightarrow> nat \<Rightarrow> nat \<Rightarrow> bytes \<Rightarrow> bytes option" where
  "find_ip_loop 0 j limit data = None"
| "find_ip_loop (Suc k) j limit data =
     (if limit < j + 9 then None
      else if take 5 (drop j data) = epmFloorIP then Some (take 4 (drop (j + 5) data))
      else find_ip_loop k (j + 1) limit data)"

definition findEPMIPFloor :: "bytes \<Rightarrow> nat \<Rightarrow> bytes option" where
  "findEPMIPFloor data from =
     (let limit = min (from + 30) (length data) in find_ip_loop 31 from limit data)"

text \<open>The port a TCP floor at \<open>i\<close> contributes, if any.\<close>

definition port_at :: "bytes \<Rightarrow> bytes option \<Rightarrow> nat \<Rightarrow> u16 option" where
  "port_at data hostIP i =
     (if take 5 (drop i data) \<noteq> epmFloorTCP then None
      else
        let port = be16 (data ! (i + 5)) (data ! (i + 6)) in
        if port < windowsDynamicPortMin then None
        else case findEPMIPFloor data (i + 7) of
          None \<Rightarrow> None
        | Some ip \<Rightarrow> if hostIP \<noteq> None \<and> hostIP \<noteq> Some ip then None else Some port)"

definition extractNcacnIPTCPPorts :: "bytes \<Rightarrow> bytes option \<Rightarrow> u16 list" where
  "extractNcacnIPTCPPorts data hostIP =
     sort (remdups (List.map_filter (port_at data hostIP) [0..<length data - 6]))"

section \<open>Answering on them\<close>

definition handleDynamicRPCConn :: "read \<Rightarrow> bytes \<Rightarrow> bytes \<Rightarrow> bytes option" where
  "handleDynamicRPCConn rd bindAck bindNack =
     (case rd of
        Closed \<Rightarrow> None
      | Data buf \<Rightarrow>
          if length buf < 3 \<or> buf ! 0 \<noteq> 5 then None
          else
            let template = (if buf ! 2 = 0x0B then bindAck else bindNack) in
            Some (if 16 \<le> length buf \<and> 16 \<le> length template
                  then overwrite template 12 (take 4 (drop 12 buf)) else template))"

definition epmLookupRewriteRules :: "probe_config list \<Rightarrow> rewrite_rule list" where
  "epmLookupRewriteRules probes =
     (case find (\<lambda>p. pc_name p = ''dcerpc_ept_lookup'') probes of None \<Rightarrow> [] | Some p \<Rightarrow> pc_rules p)"

definition eptLookupProbeBytes :: bytes where
  "eptLookupProbeBytes =
     [0x05, 0, 0, 0x03, 0x10, 0, 0, 0] @ enc_le 2 (64 :: u16) @ replicate 12 0 @ enc_le 2 (2 :: u16) @ replicate 40 0"

section \<open>What is found\<close>

lemma find_ip_loop_Some:
  "find_ip_loop k j limit data = Some ip \<Longrightarrow> limit \<le> length data \<Longrightarrow>
     \<exists>i \<ge> j. i + 9 \<le> limit \<and> take 5 (drop i data) = epmFloorIP \<and> ip = take 4 (drop (i + 5) data)"
proof (induction k j limit data rule: find_ip_loop.induct)
  case (2 k j limit data)
  show ?case
  proof (cases "limit < j + 9 \<or> take 5 (drop j data) = epmFloorIP")
    case True
    with "2.prems" show ?thesis by (auto split: if_splits intro!: exI [of _ j])
  next
    case False
    with "2.prems" have "find_ip_loop k (j + 1) limit data = Some ip" by simp
    with "2.IH" False "2.prems" show ?thesis by (auto split: if_splits dest: Suc_leD)
  qed
qed simp

lemma sorted_extract: "sorted (extractNcacnIPTCPPorts data h)" "distinct (extractNcacnIPTCPPorts data h)"
  by (simp_all add: extractNcacnIPTCPPorts_def)

lemma map_filter_set: "x \<in> set (List.map_filter f xs) \<longleftrightarrow> (\<exists>y \<in> set xs. f y = Some x)"
  by (force simp: List.map_filter_def)

text \<open>Only ports the reply really advertises for this host are opened: every extracted port is
  in the Windows dynamic range and stands big-endian in a TCP floor of the reply, followed within
  30 bytes by an IP floor that carries the host's address when that is known; the list is sorted
  and free of duplicates.\<close>

theorem extracted_ports_advertised:
  "sorted (extractNcacnIPTCPPorts data hostIP) \<and> distinct (extractNcacnIPTCPPorts data hostIP) \<and>
   (\<forall>port \<in> set (extractNcacnIPTCPPorts data hostIP).
      49152 \<le> port \<and>
      (\<exists>i j. i + 7 \<le> length data \<and> take 5 (drop i data) = epmFloorTCP \<and> take 2 (drop (i + 5) data) = enc16 port \<and>
        i + 7 \<le> j \<and> j + 9 \<le> i + 37 \<and> j + 9 \<le> length data \<and> take 5 (drop j data) = epmFloorIP \<and>
        (\<forall>h. hostIP = Some h \<longrightarrow> take 4 (drop (j + 5) data) = h)))"
proof -
  have "49152 \<le> port \<and>
      (\<exists>i j. i + 7 \<le> length data \<and> take 5 (drop i data) = epmFloorTCP \<and> take 2 (drop (i + 5) data) = enc16 port \<and>
        i + 7 \<le> j \<and> j + 9 \<le> i + 37 \<and> j + 9 \<le> length data \<and> take 5 (drop j data) = epmFloorIP \<and>
        (\<forall>h. hostIP = Some h \<longrightarrow> take 4 (drop (j + 5) data) = h))"
    if port: "port \<in> set (extractNcacnIPTCPPorts data hostIP)" for port
  proof -
    obtain i where i: "i < length data - 6" "port_at data hostIP i = Some port"
      using port by (auto simp: extractNcacnIPTCPPorts_def map_filter_set)
    then obtain ip where ip: "findEPMIPFloor data (i + 7) = Some ip" "hostIP = None \<or> hostIP = Some ip"
      and tcp: "take 5 (drop i data) = epmFloorTCP" "port = be16 (data ! (i + 5)) (data ! (i + 6))" "\<not> port < 49152"
      by (auto simp: port_at_def Let_def windowsDynamicPortMin_def split: if_splits option.splits)
    obtain j where j: "j \<ge> i + 7" "j + 9 \<le> min (i + 7 + 30) (length data)" "take 5 (drop j data) = epmFloorIP"
        "ip = take 4 (drop (j + 5) data)"
      using find_ip_loop_Some [OF ip(1) [unfolded findEPMIPFloor_def Let_def]] by auto
    have "take 2 (drop (i + 5) data) = [data ! (i + 5), data ! (i + 6)]"
      using i(1) by (simp add: numeral_2_eq_2 take_Suc_conv_app_nth add.commute)
    also have "\<dots> = enc16 port" by (simp add: tcp(2) enc16_be16)
    finally show ?thesis
      using i j ip tcp by (intro conjI exI [of _ i] exI [of _ j]) (auto simp: not_less)
  qed
  then show ?thesis using sorted_extract [of data hostIP] by blast
qed

end
