(* ===== verification/Service_Manager.thy ===== *)
theory Service_Manager
  imports Dynamic_Rpc Service_Gating App_Config
begin

text \<open>
  The service manager (\<open>internal/services/manager.go\<close>) and what starting and stopping a listener
  does to the host's sockets (\<open>Start\<close>, \<open>Stop\<close> and \<open>startDynamicRPCPorts\<close> of \<open>listener.go\<close>,
  \<open>startDynamicRPCPool\<close> of \<open>dynamic_rpc.go\<close>), and the options \<open>run\<close> sets before the services
  start (\<open>cmd/mimic/run.go\<close>).

  A socket is a protocol and a port.  The host is the sockets other programs hold and the ones
  this process has bound.  A service's manifest is read through an oracle.
\<close>

section \<open>Sockets\<close>

type_synonym socket = "string \<times> u16"

record host =
  ho_foreign :: "socket set"
  ho_bound :: "socket list"

datatype start_error =
    NotLoaded string | AlreadyRunning string | AddrInUse socket | UnsupportedProtocol string
  | EpmTemplate response_error | ReadingBindAck | ReadingBindNack

definition bind_socket :: "socket \<Rightarrow> host \<Rightarrow> host \<times> start_error option" where
  "bind_socket s h =
     (if s \<in> ho_foreign h \<or> s \<in> set (ho_bound h) then (h, Some (AddrInUse s))
      else (h\<lparr>ho_bound := s # ho_bound h\<rparr>, None))"

definition close_sockets :: "socket list \<Rightarrow> host \<Rightarrow> host" where
  "close_sockets ss h = h\<lparr>ho_bound := filter (\<lambda>s. s \<notin> set ss) (ho_bound h)\<rparr>"

text \<open>\<open>startDynamicRPCPool\<close>: all ports or none.  \<open>got\<close> are the sockets of the pool so far.\<close>

fun bind_pool :: "u16 list \<Rightarrow> socket list \<Rightarrow> host \<Rightarrow> host \<times> (start_error + socket list)" where
  "bind_pool [] got h = (h, Inr got)"
| "bind_pool (p # ps) got h =
     (case bind_socket (''tcp'', p) h of
        (h1, Some e) \<Rightarrow> (close_sockets got h1, Inl e)
      | (h1, None) \<Rightarrow> bind_pool ps ((''tcp'', p) # got) h1)"

definition startDynamicRPCPool :: "files \<Rightarrow> string \<Rightarrow> u16 list \<Rightarrow> host \<Rightarrow> host \<times> (start_error + socket list)" where
  "startDynamicRPCPool fs baseDir ports h =
     (if ports = [] then (h, Inr [])
      else case fs (path_join [baseDir, ''responses'', ''bind_ack.bin'']) of
        None \<Rightarrow> (h, Inl ReadingBindAck)
      | Some _ \<Rightarrow>
          (case fs (path_join [baseDir, ''responses'', ''bind_nack.bin'']) of
             None \<Rightarrow> (h, Inl ReadingBindNack)
           | Some _ \<Rightarrow> bind_pool ports [] h))"

text \<open>The outer option is a panic in \<open>GetResponse\<close>.\<close>

definition startDynamicRPCPorts ::
  "tick \<Rightarrow> listener \<Rightarrow> host \<Rightarrow> (listener \<times> host \<times> (start_error + socket list)) option" where
  "startDynamicRPCPorts t l h =
     (case respond t ''responses/epm_lookup.bin'' eptLookupProbeBytes
             (epmLookupRewriteRules (sv_probes (ls_config l))) l of
        None \<Rightarrow> None
      | Some (l1, Inl e) \<Rightarrow> Some (l1, h, Inl (EpmTemplate e))
      | Some (l1, Inr resp) \<Rightarrow>
          Some (l1, startDynamicRPCPool (tk_files t) (ls_baseDir l1)
            (extractNcacnIPTCPPorts resp (su_hostIP (tk_su t))) h))"

text \<open>\<open>Start\<close>: the listener and the sockets it then holds.\<close>

definition start_listener ::
  "tick \<Rightarrow> listener \<Rightarrow> host \<Rightarrow> (host \<times> (start_error + listener \<times> socket list)) option" where
  "start_listener t l h =
     (let cfg = ls_config l; main = (sv_protocol cfg, sv_port cfg) in
      if sv_protocol cfg \<noteq> ''tcp'' \<and> sv_protocol cfg \<noteq> ''udp'' then Some (h, Inl (UnsupportedProtocol (sv_protocol cfg)))
      else case bind_socket main h of
        (h1, Some e) \<Rightarrow> Some (h1, Inl e)
      | (h1, None) \<Rightarrow>
          if sv_name cfg = ''msrpc'' \<and> sv_stateful cfg \<and> sv_protocol cfg = ''tcp'' then
            (case startDynamicRPCPorts t l h1 of
               None \<Rightarrow> None
             | Some (l2, h2, Inl e) \<Rightarrow> Some (close_sockets [main] h2, Inl e)
             | Some (l2, h2, Inr pool) \<Rightarrow> Some (h2, Inr (l2, main # pool)))
          else Some (h1, Inr (l, [main])))"

section \<open>The manager\<close>

record emulator =
  em_config :: service_config
  em_responsesDir :: string
  em_listener :: "(listener \<times> socket list) option"
  em_running :: bool

record manager =
  mg_servicesDir :: string
  mg_services :: "(string \<times> emulator) list"  \<comment> \<open>at most one entry per name\<close>
  mg_options :: options
  mg_store :: "cred_store option"

definition newManager :: "string \<Rightarrow> manager" where
  "newManager dir = \<lparr>mg_servicesDir = dir, mg_services = [], mg_options = Map.empty, mg_store = None\<rparr>"

definition setOption :: "string \<Rightarrow> string \<Rightarrow> manager \<Rightarrow> manager" where
  "setOption k v m = m\<lparr>mg_options := (mg_options m)(k \<mapsto> v)\<rparr>"

definition getOption :: "manager \<Rightarrow> string \<Rightarrow> string" where
  "getOption m k = opt_get (mg_options m) k"

definition mgr_setCredStore :: "cred_store option \<Rightarrow> manager \<Rightarrow> manager" where
  "mgr_setCredStore s m = m\<lparr>mg_store := s\<rparr>"

definition set_if :: "bool \<Rightarrow> string \<Rightarrow> string \<Rightarrow> manager \<Rightarrow> manager" where
  "set_if c k v m = (if c then setOption k v m else m)"

definition setProfileOptions :: "os_profile option \<Rightarrow> manager \<Rightarrow> manager" where
  "setProfileOptions profile m =
     (case profile of
        None \<Rightarrow> m
      | Some p \<Rightarrow>
          let m1 = setOption ''smb1_enabled'' (if smbc_smb1Enabled (prof_smb p) then ''true'' else ''false'') m;
              m2 = set_if (smbc_dialect (prof_smb p) \<noteq> []) ''smb_dialect'' (smbc_dialect (prof_smb p)) m1;
              m3 = set_if (prof_family p \<noteq> []) ''os_family'' (prof_family p) m2;
              m4 = set_if (prof_name p \<noteq> []) ''os_name'' (prof_name p) m3;
              m5 = set_if (equal_fold (prof_family p) ''linux'') ''os_server'' (webServerForOS (prof_name p)) m4;
              m6 = set_if (prof_version p \<noteq> []) ''os_version'' (prof_version p) m5
          in set_if (resolvedEdition p \<noteq> []) ''os_edition'' (resolvedEdition p) m6)"

text \<open>The options \<open>run\<close> sets, in its order.\<close>

definition run_options :: "service_options \<Rightarrow> os_profile option \<Rightarrow> manager \<Rightarrow> manager" where
  "run_options so profile m =
     (let m1 = set_if (so_netbiosName so \<noteq> []) ''netbios_name'' (so_netbiosName so) m;
          m2 = set_if (so_domain so \<noteq> []) ''domain'' (so_domain so) m1;
          m3 = set_if (so_hostname so \<noteq> []) ''hostname'' (so_hostname so) m2;
          m4 = set_if (so_macAddress so \<noteq> []) ''mac_address'' (so_macAddress so) m3;
          m5 = setProfileOptions profile m4;
          m6 = set_if (0 < so_jitterMinMs so) ''jitter_min_ms'' (int_string (so_jitterMinMs so)) m5
      in set_if (0 < so_jitterMaxMs so) ''jitter_max_ms'' (int_string (so_jitterMaxMs so)) m6)"

datatype manifest = NoManifest | BadManifest | Manifest service_config

datatype load_service_error = ReadingManifest | ParsingManifest

definition loadService :: "(string \<Rightarrow> manifest) \<Rightarrow> string \<Rightarrow> manager \<Rightarrow> load_service_error + manager" where
  "loadService manifests name m =
     (let serviceDir = path_join [mg_servicesDir m, name] in
      case manifests (path_join [serviceDir, ''manifest.yaml'']) of
        NoManifest \<Rightarrow> Inl ReadingManifest
      | BadManifest \<Rightarrow> Inl ParsingManifest
      | Manifest cfg \<Rightarrow>
          Inr (m\<lparr>mg_services :=
                AList.update name \<lparr>em_config = cfg, em_responsesDir = serviceDir, em_listener = None, em_running = False\<rparr>
                  (mg_services m)\<rparr>))"

text \<open>\<open>StartService\<close>; the tick carries the clock and the template files.\<close>

definition startService :: "tick \<Rightarrow> string \<Rightarrow> manager \<Rightarrow> host \<Rightarrow> (manager \<times> host \<times> start_error option) option" where
  "startService t name m h =
     (case map_of (mg_services m) name of
        None \<Rightarrow> Some (m, h, Some (NotLoaded name))
      | Some svc \<Rightarrow>
          if em_running svc then Some (m, h, Some (AlreadyRunning name))
          else
            let now = su_now (tk_su t);
                l0 = newListenerWithOptions now now (em_config svc) (em_responsesDir svc) (mg_options m);
                l1 = (if mg_store m \<noteq> None
                      then l0\<lparr>ls_responder := setCredStore (mg_store m) (ls_responder l0)\<rparr> else l0)
            in (case start_listener t l1 h of
                  None \<Rightarrow> None
                | Some (h1, Inl e) \<Rightarrow> Some (m, h1, Some e)
                | Some (h1, Inr held) \<Rightarrow>
                    Some (m\<lparr>mg_services :=
                            AList.update name (svc\<lparr>em_listener := Some held, em_running := True\<rparr>) (mg_services m)\<rparr>,
                          h1, None)))"

definition stop_emulator :: "emulator \<Rightarrow> host \<Rightarrow> host" where
  "stop_emulator svc h = (case em_listener svc of None \<Rightarrow> h | Some (_, ss) \<Rightarrow> close_sockets ss h)"

definition stopService :: "string \<Rightarrow> manager \<Rightarrow> host \<Rightarrow> manager \<times> host \<times> start_error option" where
  "stopService name m h =
     (case map_of (mg_services m) name of
        None \<Rightarrow> (m, h, Some (NotLoaded name))
      | Some svc \<Rightarrow>
          if \<not> em_running svc then (m, h, None)
          else (m\<lparr>mg_services := AList.update name (svc\<lparr>em_running := False\<rparr>) (mg_services m)\<rparr>,
                stop_emulator svc h, None))"

fun stop_loop :: "(string \<times> emulator) list \<Rightarrow> host \<Rightarrow> (string \<times> emulator) list \<times> host" where
  "stop_loop [] h = ([], h)"
| "stop_loop ((name, svc) # svcs) h =
     (let stopping = (em_running svc \<and> em_listener svc \<noteq> None);
          h1 = (if stopping then stop_emulator svc h else h);
          svc1 = (if stopping then svc\<lparr>em_running := False\<rparr> else svc)
      in case stop_loop svcs h1 of (rest, h2) \<Rightarrow> ((name, svc1) # rest, h2))"

definition stopAll :: "manager \<Rightarrow> host \<Rightarrow> manager \<times> host" where
  "stopAll m h = (case stop_loop (mg_services m) h of (svcs, h') \<Rightarrow> (m\<lparr>mg_services := svcs\<rparr>, h'))"

text \<open>\<open>os.ReadDir\<close> order: by name.\<close>

definition mgr_listServices :: "services_dir \<Rightarrow> string list option" where
  "mgr_listServices dir =
     map_option (\<lambda>es. map de_name (filter (\<lambda>e. de_isDir e \<and> de_hasManifest e) es)) dir"

definition getServiceInfo :: "manager \<Rightarrow> string \<Rightarrow> (service_config \<times> bool) option" where
  "getServiceInfo m name = map_option (\<lambda>svc. (em_config svc, em_running svc)) (map_of (mg_services m) name)"

definition getServiceStats :: "manager \<Rightarrow> string \<Rightarrow> listener_stats option" where
  "getServiceStats m name =
     (case map_of (mg_services m) name of
        None \<Rightarrow> None
      | Some svc \<Rightarrow>
          if \<not> em_running svc then None
          else map_option (\<lambda>(l, _). ls_stats l) (em_listener svc))"

definition templateServicePort :: "manager \<Rightarrow> string \<Rightarrow> u16" where
  "templateServicePort m name = (case getServiceInfo m name of Some (cfg, _) \<Rightarrow> sv_port cfg | None \<Rightarrow> 0)"

section \<open>Starting is all or nothing\<close>

lemma update_split:
  "map_of al k = Some v \<Longrightarrow> \<exists>xs ys. al = xs @ (k, v) # ys \<and> (\<forall>w. AList.update k w al = xs @ (k, w) # ys)"
proof (induction al)
  case (Cons p al)
  show ?case
  proof (cases "fst p = k")
    case True
    with Cons.prems have "p # al = [] @ (k, v) # al" "\<forall>w. AList.update k w (p # al) = [] @ (k, w) # al"
      by (cases p; simp)+
    then show ?thesis by blast
  next
    case False
    with Cons obtain xs ys where "al = xs @ (k, v) # ys" "\<forall>w. AList.update k w al = xs @ (k, w) # ys"
      by (cases p) auto
    with False have "p # al = (p # xs) @ (k, v) # ys" "\<forall>w. AList.update k w (p # al) = (p # xs) @ (k, w) # ys"
      by (cases p; simp)+
    then show ?thesis by blast
  qed
qed simp

lemma update_new: "map_of al k = None \<Longrightarrow> AList.update k w al = al @ [(k, w)]"
  by (induction al) auto

lemma close_sockets_prefix [simp]:
  "set got \<inter> set base = {} \<Longrightarrow> ho_bound h = got @ base \<Longrightarrow> ho_bound (close_sockets got h) = base"
  by (auto simp: close_sockets_def filter_empty_conv intro!: filter_True)

lemma bind_pool_bound:
  "bind_pool ps got h = (h', r) \<Longrightarrow> ho_bound h = got @ base \<Longrightarrow> distinct (got @ base) \<Longrightarrow>
     ho_foreign h' = ho_foreign h \<and>
     (case r of Inl _ \<Rightarrow> ho_bound h' = base
      | Inr got' \<Rightarrow> ho_bound h' = got' @ base \<and> distinct (got' @ base))"
proof (induction ps got h arbitrary: h' rule: bind_pool.induct)
  case (2 p ps got h)
  show ?case
  proof (cases "bind_socket (''tcp'', p) h")
    case (Pair h1 e)
    show ?thesis
    proof (cases e)
      case None
      with Pair "2.prems"(2,3) have h1: "ho_bound h1 = ((''tcp'', p) # got) @ base" "ho_foreign h1 = ho_foreign h"
        "distinct (((''tcp'', p) # got) @ base)"
        by (auto simp: bind_socket_def split: if_splits)
      have "bind_pool ps ((''tcp'', p) # got) h1 = (h', r)" using "2.prems"(1) Pair None by simp
      from "2.IH" [OF Pair [symmetric] None this h1(1,3)] h1(2) show ?thesis by simp
    next
      case (Some err)
      with Pair have "h1 = h" by (auto simp: bind_socket_def split: if_splits)
      with Some Pair "2.prems" have "h' = close_sockets got h" "r = Inl err" by auto
      with "2.prems"(2,3) show ?thesis by (auto simp: close_sockets_def filter_empty_conv intro!: filter_True)
    qed
  qed
qed auto

lemma pool_bound:
  assumes "startDynamicRPCPool fs dir ps h = (h', r)" and "distinct (ho_bound h)"
  shows "ho_foreign h' = ho_foreign h \<and>
     (case r of Inl _ \<Rightarrow> ho_bound h' = ho_bound h
      | Inr got \<Rightarrow> ho_bound h' = got @ ho_bound h \<and> distinct (got @ ho_bound h))"
  using assms bind_pool_bound [of ps "[]" h h' r "ho_bound h"]
  by (auto simp: startDynamicRPCPool_def split: if_splits option.splits)

lemma dynamic_ports_bound:
  assumes "startDynamicRPCPorts t l h = Some (l', h', r)" and "distinct (ho_bound h)"
  shows "ho_foreign h' = ho_foreign h \<and>
     (case r of Inl _ \<Rightarrow> ho_bound h' = ho_bound h
      | Inr got \<Rightarrow> ho_bound h' = got @ ho_bound h \<and> distinct (got @ ho_bound h))"
proof -
  consider (err) e where "h' = h" "r = Inl e"
    | (pool) fs dir ps where "startDynamicRPCPool fs dir ps h = (h', r)"
    using assms(1) by (auto simp: startDynamicRPCPorts_def split: option.splits sum.splits)
  then show ?thesis
  proof cases
    case pool
    then show ?thesis using assms(2) by (rule pool_bound)
  qed simp
qed

lemma start_listener_bound:
  assumes "start_listener t l h = Some (h', r)" and "distinct (ho_bound h)"
  shows "ho_foreign h' = ho_foreign h \<and>
     (case r of Inl _ \<Rightarrow> ho_bound h' = ho_bound h
      | Inr (_, ss) \<Rightarrow> set (ho_bound h') = set ss \<union> set (ho_bound h) \<and> distinct ss \<and>
          distinct (ho_bound h') \<and> set ss \<inter> set (ho_bound h) = {})"
proof -
  let ?main = "(sv_protocol (ls_config l), sv_port (ls_config l))"
  show ?thesis
  proof (cases "bind_socket ?main h")
    case (Pair h1 e)
    show ?thesis
    proof (cases e)
      case (Some err)
      with Pair assms(1) show ?thesis
        by (auto simp: start_listener_def Let_def bind_socket_def split: if_splits)
    next
      case None
      with Pair have h1: "ho_bound h1 = ?main # ho_bound h" "ho_foreign h1 = ho_foreign h" "?main \<notin> set (ho_bound h)"
        by (auto simp: bind_socket_def split: if_splits)
      have d1: "distinct (ho_bound h1)" using h1 assms(2) by simp
      show ?thesis
      proof (cases "startDynamicRPCPorts t l h1")
        case None
        with assms \<open>e = None\<close> Pair h1 d1 show ?thesis
          by (auto simp: start_listener_def Let_def split: if_splits)
      next
        case (Some q)
        obtain l2 h2 r2 where q: "q = (l2, h2, r2)" by (metis prod_cases3)
        note h2 = dynamic_ports_bound [OF Some [unfolded q] d1]
        have cl: "ho_bound (close_sockets [?main] h2) = ho_bound h" if "ho_bound h2 = ho_bound h1"
          using that h1 by (auto simp: close_sockets_def intro!: filter_True)
        show ?thesis
          using assms(1) \<open>e = None\<close> Pair Some q h1 h2 cl d1
          by (cases r2) (auto simp: start_listener_def Let_def close_sockets_def split: if_splits)
      qed
    qed
  qed
qed

section \<open>No socket is lost\<close>

definition held_by :: "emulator \<Rightarrow> socket list" where
  "held_by svc = (if em_running svc then (case em_listener svc of Some (_, ss) \<Rightarrow> ss | None \<Rightarrow> []) else [])"

definition held :: "manager \<Rightarrow> socket list" where
  "held m = concat (map (held_by \<circ> snd) (mg_services m))"

text \<open>The sockets the process holds are exactly those of its running services and the lost ones, none twice.\<close>

definition sockets_accounted :: "socket list \<Rightarrow> manager \<Rightarrow> host \<Rightarrow> bool" where
  "sockets_accounted lost m h \<longleftrightarrow>
     distinct (map fst (mg_services m)) \<and> distinct (ho_bound h) \<and> distinct (lost @ held m) \<and>
     set (ho_bound h) = set lost \<union> set (held m)"

lemma held_split:
  assumes "mg_services m = xs @ (name, svc) # ys"
  shows "held (m\<lparr>mg_services := xs @ (name, new) # ys\<rparr>) =
      concat (map (held_by \<circ> snd) xs) @ held_by new @ concat (map (held_by \<circ> snd) ys)"
    and "held m = concat (map (held_by \<circ> snd) xs) @ held_by svc @ concat (map (held_by \<circ> snd) ys)"
  using assms by (simp_all add: held_def)

lemma accounted_start:
  assumes "sockets_accounted lost m h" and "startService t name m h = Some (m', h', e)"
  shows "sockets_accounted lost m' h' \<and> (e \<noteq> None \<longrightarrow> m' = m \<and> ho_bound h' = ho_bound h)"
proof (cases "map_of (mg_services m) name")
  case (Some svc)
  show ?thesis
  proof (cases "em_running svc")
    case False
    obtain xs ys where sp: "mg_services m = xs @ (name, svc) # ys"
        "\<forall>w. AList.update name w (mg_services m) = xs @ (name, w) # ys"
      using update_split [OF Some] by blast
    obtain l res where st: "start_listener t l h = Some (h', res)"
      and out: "m' = (case res of Inl _ \<Rightarrow> m | Inr new \<Rightarrow> m\<lparr>mg_services := xs @ (name, svc\<lparr>em_listener := Some new, em_running := True\<rparr>) # ys\<rparr>)"
        "e = (case res of Inl err \<Rightarrow> Some err | Inr _ \<Rightarrow> None)"
      using assms(2) Some False sp(2) by (auto simp: startService_def Let_def split: option.splits sum.splits)
    have d: "distinct (ho_bound h)" using assms(1) by (simp add: sockets_accounted_def)
    note b = start_listener_bound [OF st d]
    show ?thesis
    proof (cases res)
      case (Inl err)
      with assms(1) out b show ?thesis by (simp add: sockets_accounted_def)
    next
      case (Inr new)
      obtain l' ss where new: "new = (l', ss)" by fastforce
      have "held_by svc = []" using False by (simp add: held_by_def)
      with held_split(2) [OF sp(1)] have h0: "held m = concat (map (held_by \<circ> snd) xs) @ concat (map (held_by \<circ> snd) ys)"
        by simp
      have h1: "held m' = concat (map (held_by \<circ> snd) xs) @ ss @ concat (map (held_by \<circ> snd) ys)"
        using out(1) Inr new held_split(1) [OF sp(1)] by (simp add: held_by_def)
      have keys: "map fst (mg_services m') = map fst (mg_services m)" using out(1) Inr sp(1) by simp
      show ?thesis
        using assms(1) b out(2) Inr new h0 h1 keys by (auto simp: sockets_accounted_def)
    qed
  qed (use assms Some in \<open>auto simp: startService_def\<close>)
qed (use assms in \<open>auto simp: startService_def\<close>)

text \<open>What a service of that name holds: the sockets that are lost when it is loaded again.\<close>

definition held_named :: "manager \<Rightarrow> string \<Rightarrow> socket list" where
  "held_named m name = (case map_of (mg_services m) name of None \<Rightarrow> [] | Some svc \<Rightarrow> held_by svc)"

lemma accounted_load:
  assumes "sockets_accounted lost m h" and "loadService manifests name m = Inr m'"
  shows "sockets_accounted (held_named m name @ lost) m' h"
proof -
  obtain new where new: "m' = m\<lparr>mg_services := AList.update name new (mg_services m)\<rparr>" "held_by new = []"
    using assms(2) by (auto simp: loadService_def Let_def held_by_def split: manifest.splits)
  show ?thesis
  proof (cases "map_of (mg_services m) name")
    case None
    then have "held m' = held m" "name \<notin> fst ` set (mg_services m)"
      using new by (simp_all add: held_def update_new map_of_eq_None_iff)
    moreover have "map fst (mg_services m') = map fst (mg_services m) @ [name]"
      using new(1) None by (simp add: update_new)
    ultimately show ?thesis using assms(1) None by (auto simp: sockets_accounted_def held_named_def)
  next
    case (Some svc)
    obtain xs ys where sp: "mg_services m = xs @ (name, svc) # ys"
        "\<forall>w. AList.update name w (mg_services m) = xs @ (name, w) # ys"
      using update_split [OF Some] by blast
    have "held m' = concat (map (held_by \<circ> snd) xs) @ concat (map (held_by \<circ> snd) ys)"
      using held_split(1) [OF sp(1), of new] new sp(2) by simp
    moreover have "map fst (mg_services m') = map fst (mg_services m)" using new(1) sp by simp
    moreover have "held_named m name = held_by svc" using Some by (simp add: held_named_def)
    ultimately show ?thesis using assms(1) held_split(2) [OF sp(1)] by (auto simp: sockets_accounted_def)
  qed
qed

lemma stop_emulator_bound:
  "em_running svc \<Longrightarrow> ho_bound (stop_emulator svc h) = filter (\<lambda>s. s \<notin> set (held_by svc)) (ho_bound h)"
  by (auto simp: stop_emulator_def held_by_def close_sockets_def split: option.splits)

lemma accounted_stop:
  assumes "sockets_accounted lost m h" and "stopService name m h = (m', h', e)"
  shows "sockets_accounted lost m' h'"
proof (cases "\<exists>svc. map_of (mg_services m) name = Some svc \<and> em_running svc")
  case True
  then obtain svc where svc: "map_of (mg_services m) name = Some svc" "em_running svc" by blast
  obtain xs ys where sp: "mg_services m = xs @ (name, svc) # ys"
      "\<forall>w. AList.update name w (mg_services m) = xs @ (name, w) # ys"
    using update_split [OF svc(1)] by blast
  let ?ss = "held_by svc"
  have m': "m' = m\<lparr>mg_services := xs @ (name, svc\<lparr>em_running := False\<rparr>) # ys\<rparr>" and h': "h' = stop_emulator svc h"
    using assms(2) svc sp(2) by (auto simp: stopService_def)
  have bound: "ho_bound h' = filter (\<lambda>s. s \<notin> set ?ss) (ho_bound h)"
    unfolding h' using svc(2) by (rule stop_emulator_bound)
  have "held m' = concat (map (held_by \<circ> snd) xs) @ concat (map (held_by \<circ> snd) ys)"
    unfolding m' held_split(1) [OF sp(1)] by (simp add: held_by_def)
  moreover have "map fst (mg_services m') = map fst (mg_services m)" unfolding m' using sp(1) by simp
  ultimately show ?thesis
    using assms(1) bound held_split(2) [OF sp(1)] by (auto simp: sockets_accounted_def)
next
  case False
  with assms show ?thesis by (auto simp: stopService_def split: option.splits)
qed

lemma stop_loop_frees:
  "stop_loop svcs h = (svcs', h') \<Longrightarrow>
     map fst svcs' = map fst svcs \<and> concat (map (held_by \<circ> snd) svcs') = [] \<and>
     ho_bound h' = filter (\<lambda>s. s \<notin> set (concat (map (held_by \<circ> snd) svcs))) (ho_bound h)"
proof (induction svcs arbitrary: h svcs' h')
  case (Cons p svcs)
  obtain name svc where p: "p = (name, svc)" by fastforce
  let ?stop = "em_running svc \<and> em_listener svc \<noteq> None"
  let ?h1 = "if ?stop then stop_emulator svc h else h" and ?svc1 = "if ?stop then svc\<lparr>em_running := False\<rparr> else svc"
  obtain rest h2 where r: "stop_loop svcs ?h1 = (rest, h2)" by fastforce
  have "stop_loop (p # svcs) h = ((name, ?svc1) # rest, h2)"
    unfolding p stop_loop.simps Let_def r prod.case ..
  with Cons.prems have out: "svcs' = (name, ?svc1) # rest" "h' = h2" by simp_all
  have h1: "ho_bound ?h1 = filter (\<lambda>s. s \<notin> set (held_by svc)) (ho_bound h)"
  proof (cases ?stop)
    case True
    then have "em_running svc" by simp
    from stop_emulator_bound [OF this, of h] if_P [OF True, of "stop_emulator svc h" h] show ?thesis by simp
  next
    case False
    then have "held_by svc = []" by (cases "em_listener svc") (simp_all add: held_by_def)
    with if_not_P [OF False, of "stop_emulator svc h" h] show ?thesis by (simp only:) simp
  qed
  have "held_by ?svc1 = []"
    by (cases "em_listener svc") (auto simp: held_by_def)
  with Cons.IH [OF r] h1 show ?case
    unfolding out p by (auto intro!: filter_cong)
qed simp

lemma accounted_stopAll:
  assumes "sockets_accounted lost m h" and "stopAll m h = (m', h')"
  shows "sockets_accounted lost m' h' \<and> held m' = [] \<and> set (ho_bound h') = set lost"
proof -
  obtain svcs where s: "stop_loop (mg_services m) h = (svcs, h')" "m' = m\<lparr>mg_services := svcs\<rparr>"
    using assms(2) by (auto simp: stopAll_def split: prod.splits)
  note frees = stop_loop_frees [OF s(1)]
  have "ho_bound h' = filter (\<lambda>x. x \<notin> set (held m)) (ho_bound h)"
    using frees by (simp add: held_def)
  moreover have "held m' = []" "map fst (mg_services m') = map fst (mg_services m)"
    using frees s(2) by (simp_all add: held_def)
  ultimately show ?thesis
    using assms(1) by (auto simp: sockets_accounted_def)
qed

text \<open>The states the manager can be in, under any sequence of its operations.  \<open>lost\<close> collects the sockets of
  running services that were loaded again: the new entry replaces the one that knows its listener.\<close>

definition free_host :: "socket set \<Rightarrow> host" where
  "free_host foreign = \<lparr>ho_foreign = foreign, ho_bound = []\<rparr>"

inductive manager_reach :: "(string \<Rightarrow> manifest) \<Rightarrow> socket set \<Rightarrow> manager \<Rightarrow> host \<Rightarrow> socket list \<Rightarrow> bool"
  for manifests foreign where
  reach_new: "manager_reach manifests foreign (newManager dir) (free_host foreign) []"
| reach_option: "manager_reach manifests foreign m h lost \<Longrightarrow> manager_reach manifests foreign (setOption k v m) h lost"
| reach_profile: "manager_reach manifests foreign m h lost \<Longrightarrow> manager_reach manifests foreign (setProfileOptions p m) h lost"
| reach_store: "manager_reach manifests foreign m h lost \<Longrightarrow> manager_reach manifests foreign (mgr_setCredStore st m) h lost"
| reach_load: "manager_reach manifests foreign m h lost \<Longrightarrow> loadService manifests name m = Inr m' \<Longrightarrow>
    manager_reach manifests foreign m' h (held_named m name @ lost)"
| reach_start: "manager_reach manifests foreign m h lost \<Longrightarrow> startService t name m h = Some (m', h', e) \<Longrightarrow>
    manager_reach manifests foreign m' h' lost"
| reach_stop: "manager_reach manifests foreign m h lost \<Longrightarrow> stopService name m h = (m', h', e) \<Longrightarrow>
    manager_reach manifests foreign m' h' lost"
| reach_stop_all: "manager_reach manifests foreign m h lost \<Longrightarrow> stopAll m h = (m', h') \<Longrightarrow>
    manager_reach manifests foreign m' h' lost"

lemma profile_keeps_services: "mg_services (setProfileOptions p m) = mg_services m"
  by (simp add: setProfileOptions_def set_if_def setOption_def Let_def split: option.splits)

lemma reach_accounted: "manager_reach manifests foreign m h lost \<Longrightarrow> sockets_accounted lost m h"
proof (induction rule: manager_reach.induct)
  case (reach_new dir)
  then show ?case by (simp add: sockets_accounted_def newManager_def free_host_def held_def)
next
  case (reach_option m h lost k v)
  then show ?case by (simp add: sockets_accounted_def setOption_def held_def)
next
  case (reach_profile m h lost p)
  then show ?case by (simp add: sockets_accounted_def held_def profile_keeps_services)
next
  case (reach_store m h lost st)
  then show ?case by (simp add: sockets_accounted_def mgr_setCredStore_def held_def)
next
  case (reach_load m h lost name m')
  then show ?case using accounted_load by blast
next
  case (reach_start m h lost t name m' h' e)
  then show ?case using accounted_start by blast
next
  case (reach_stop m h lost name m' h' e)
  then show ?case using accounted_stop by blast
next
  case (reach_stop_all m h lost m' h')
  then show ?case using accounted_stopAll by blast
qed

text \<open>C31. Which sockets outlive the services.  In every state the manager reaches, by any sequence of its
  operations, the process holds, each once, the sockets of the running services and those lost when a running
  service was loaded again, and no others; a failed start changes nothing; and stopping all frees
  everything but the lost ones.\<close>

theorem sockets_never_leak:
  assumes "manager_reach manifests foreign m h lost"
  shows "set (ho_bound h) = set (held m) \<union> set lost \<and> set (held m) \<inter> set lost = {} \<and> distinct (ho_bound h) \<and>
    (\<forall>t name m' h' e. startService t name m h = Some (m', h', Some e) \<longrightarrow> m' = m \<and> ho_bound h' = ho_bound h) \<and>
    set (ho_bound (snd (stopAll m h))) = set lost"
proof -
  have acc: "sockets_accounted lost m h" using assms by (rule reach_accounted)
  obtain m' h' where s: "stopAll m h = (m', h')" by fastforce
  show ?thesis using acc accounted_start [OF acc] accounted_stopAll [OF acc s] s by (auto simp: sockets_accounted_def)
qed

definition redis_config :: service_config where
  "redis_config = \<lparr>sv_name = ''redis'', sv_port = 6379, sv_protocol = ''tcp'', sv_stateful = True, sv_speaksFirst = False,
     sv_tls = False, sv_tlsBackend = [], sv_defaultResponse = [], sv_probes = [any_probe]\<rparr>"

text \<open>A run that starts its service and then loads it again loses the socket of the first.\<close>

lemma sockets_never_leak_witness:
  "\<exists>m h. manager_reach (\<lambda>_. Manifest redis_config) {} m h [] \<and> held m = [(''tcp'', 6379)] \<and>
     ho_bound (snd (stopAll m h)) = [] \<and>
   (\<exists>m'. manager_reach (\<lambda>_. Manifest redis_config) {} m' h [(''tcp'', 6379)] \<and> held m' = [] \<and>
     set (ho_bound (snd (stopAll m' h))) = {(''tcp'', 6379)})"
proof -
  let ?mf = "\<lambda>_. Manifest redis_config"
  let ?em = "\<lparr>em_config = redis_config, em_responsesDir = path_join [''/svc'', ''redis''], em_listener = None, em_running = False\<rparr>"
  obtain m1 where m1: "loadService ?mf ''redis'' (newManager ''/svc'') = Inr m1" "mg_services m1 = [(''redis'', ?em)]" "mg_store m1 = None"
    by (simp add: loadService_def newManager_def Let_def)
  have r1: "manager_reach ?mf {} m1 (free_host {}) []"
    using reach_load [OF reach_new m1(1)] by (simp add: held_named_def newManager_def)
  obtain m2 h2 l where s: "startService (example_tick Closed) ''redis'' m1 (free_host {}) = Some (m2, h2, None)"
      "ho_bound h2 = [(''tcp'', 6379)]" "mg_services m2 = [(''redis'', ?em\<lparr>em_listener := Some (l, [(''tcp'', 6379)]), em_running := True\<rparr>)]"
    using m1(2,3)
    by (simp add: startService_def Let_def start_listener_def newListenerWithOptions_def redis_config_def
        bind_socket_def free_host_def)
  have r2: "manager_reach ?mf {} m2 h2 []"
    by (rule reach_start [OF r1 s(1)])
  obtain m3 where m3: "loadService ?mf ''redis'' m2 = Inr m3" "held m3 = []"
    using s(3) by (simp add: loadService_def Let_def held_def held_by_def)
  have r3: "manager_reach ?mf {} m3 h2 [(''tcp'', 6379)]"
    using reach_load [OF r2 m3(1)] s(3) by (simp add: held_named_def held_by_def)
  have "held m2 = [(''tcp'', 6379)]"
    using s(3) by (simp add: held_def held_by_def)
  with r2 r3 m3(2) sockets_never_leak [OF r2] sockets_never_leak [OF r3] show ?thesis by auto
qed

section \<open>What a profile switches off\<close>

lemma set_if_options: "mg_options (set_if c k v m) = (if c then (mg_options m)(k \<mapsto> v) else mg_options m)"
  by (simp add: set_if_def setOption_def)

lemma profile_smb1:
  "mg_options (setProfileOptions (Some p) m) ''smb1_enabled'' =
     Some (if smbc_smb1Enabled (prof_smb p) then ''true'' else ''false'')"
  by (simp add: setProfileOptions_def Let_def set_if_options setOption_def)

lemma run_smb1:
  "mg_options (run_options so (Some p) m) ''smb1_enabled'' =
     Some (if smbc_smb1Enabled (prof_smb p) then ''true'' else ''false'')"
  by (simp add: run_options_def Let_def set_if_options profile_smb1)

lemma match_first_config: "match_first (newProbeMatcher probes opts) d = Some q \<Longrightarrow> q \<in> set probes \<and> probeRequirementsMet q opts"
  by (induction probes)
    (auto simp: newProbeMatcher_def compile_probe_def compile_pattern_def Let_def split: if_splits)

text \<open>A profile without SMBv1 has no SMBv1: whatever the service options are, a listener built with
  the options of such a run never selects a probe that requires \<open>smb1_enabled\<close>, on any data.\<close>

theorem smb1_gate:
  assumes "\<not> smbc_smb1Enabled (prof_smb p)"
    and "match_first (ls_matcher (newListenerWithOptions now now' cfg dir (mg_options (run_options so (Some p) m)))) d = Some q"
  shows "(''smb1_enabled'', ''true'') \<notin> set (pc_requires q)"
proof
  assume req: "(''smb1_enabled'', ''true'') \<in> set (pc_requires q)"
  have "probeRequirementsMet q (mg_options (run_options so (Some p) m))"
    using assms(2) match_first_config by (auto simp: newListenerWithOptions_def)
  with req run_smb1 [of so p m] assms(1) show False by (auto simp: probeRequirementsMet_def)
qed

lemma smb1_gate_witness:
  "(''smb1_enabled'', ''true'') \<notin> set (pc_requires any_probe)"
proof -
  have w: "\<not> smbc_smb1Enabled (prof_smb windows_11)" by (simp add: windows_11_def)
  have "match_first (ls_matcher (newListenerWithOptions 0 0 redis_config [] opts)) (bytes_of ''PING'') = Some any_probe" for opts
    by (simp add: newListenerWithOptions_def redis_config_def newProbeMatcher_def probeRequirementsMet_def
      any_probe_def compile_probe_def compile_pattern_def matchProbe_def Let_def bytes_contains_def index_of.simps
      starts_with_def esc_def)
  then show ?thesis by (rule smb1_gate [OF w])
qed

end
