(* ===== verification/Port_Firewall.thy ===== *)
theory Port_Firewall
  imports Blocker Service_Gating App_Config
begin

text \<open>
  Packet disposition on Linux: the closed ports and the answers to scanner probes
  (\<open>internal/services/closed.go\<close>), the default-drop firewall (\<open>firewall.go\<close>), and how \<open>run\<close> sets
  them up and takes them down (\<open>cmd/mimic/run.go\<close>).

  Running \<open>nft\<close> is the oracle of the theory \<open>Blocker\<close>.  All managers share one table, of which
  \<open>kernel\<close> keeps what the documentation of \<open>nft\<close> says the commands that succeeded leave in it:
  the rules of its input chain in the order they were added, none once the table is deleted.  Deleting a
  table that is already gone is an error of \<open>nft\<close> which the code ignores; it leaves no rules either way.
\<close>

section \<open>The shared table\<close>

record kernel =
  kn_done :: "string list list"
  kn_rules :: "string list list"

definition add_rule :: "string list \<Rightarrow> string list" where
  "add_rule args = [''nft'', ''add'', ''rule'', ''inet'', ''mimic_reject'', ''input''] @ args"

definition delete_table :: "string list" where
  "delete_table = [''nft'', ''delete'', ''table'', ''inet'', ''mimic_reject'']"

definition rules_after :: "string list \<Rightarrow> string list list \<Rightarrow> string list list" where
  "rules_after cmd rules =
     (if cmd = delete_table then []
      else if take 6 cmd = add_rule [] then rules @ [drop 6 cmd]
      else rules)"

definition run_nft :: "nft \<Rightarrow> string list \<Rightarrow> kernel \<Rightarrow> kernel \<times> string option" where
  "run_nft nft cmd k =
     (case nft (kn_done k) cmd of
        Some out \<Rightarrow> (k\<lparr>kn_done := kn_done k @ [cmd]\<rparr>, Some out)
      | None \<Rightarrow> (k\<lparr>kn_done := kn_done k @ [cmd], kn_rules := rules_after cmd (kn_rules k)\<rparr>, None))"

fun run_all :: "nft \<Rightarrow> string list list \<Rightarrow> kernel \<Rightarrow> kernel \<times> string option" where
  "run_all nft [] k = (k, None)"
| "run_all nft (c # cs) k =
     (case run_nft nft c k of (k1, Some e) \<Rightarrow> (k1, Some e) | (k1, None) \<Rightarrow> run_all nft cs k1)"

definition table_commands :: "string list list" where
  "table_commands =
     [[''nft'', ''add'', ''table'', ''inet'', ''mimic_reject''],
      [''nft'', ''add'', ''chain'', ''inet'', ''mimic_reject'', ''input'',
       ''{ type filter hook input priority -100 ; policy accept ; }'']]"

definition nftEnsureTable :: "nft \<Rightarrow> kernel \<Rightarrow> kernel \<times> string option" where
  "nftEnsureTable nft k = run_all nft table_commands k"

definition nftDeleteTable :: "nft \<Rightarrow> kernel \<Rightarrow> kernel" where
  "nftDeleteTable nft k = fst (run_nft nft delete_table k)"

definition nftAddRule :: "nft \<Rightarrow> string list \<Rightarrow> kernel \<Rightarrow> kernel \<times> string option" where
  "nftAddRule nft args k = run_nft nft (add_rule args) k"

section \<open>Closed ports\<close>

definition closed_rule :: "u16 \<Rightarrow> string list" where
  "closed_rule port = [''tcp'', ''dport'', itoa (unat port), ''reject'', ''with'', ''tcp'', ''reset'']"

definition closed_start :: "nft \<Rightarrow> u16 \<Rightarrow> kernel \<Rightarrow> kernel \<times> string option" where
  "closed_start nft port k =
     (case nftEnsureTable nft k of
        (k1, Some e) \<Rightarrow> (k1, Some e)
      | (k1, None) \<Rightarrow> run_nft nft (add_rule (closed_rule port)) k1)"

text \<open>\<open>ClosedPortManager\<close>: the ports of its listeners.\<close>

definition addPort :: "nft \<Rightarrow> u16 \<Rightarrow> u16 list \<Rightarrow> kernel \<Rightarrow> u16 list \<times> kernel \<times> string option" where
  "addPort nft port m k =
     (case closed_start nft port k of
        (k1, Some e) \<Rightarrow> (m, k1, Some e)
      | (k1, None) \<Rightarrow> (m @ [port], k1, None))"

definition closed_stopAll :: "nft \<Rightarrow> kernel \<Rightarrow> u16 list \<times> kernel" where
  "closed_stopAll nft k = ([], nftDeleteTable nft k)"

fun addPorts :: "nft \<Rightarrow> u16 list \<Rightarrow> u16 list \<Rightarrow> kernel \<Rightarrow> u16 list \<times> kernel \<times> string option" where
  "addPorts nft [] m k = (m, k, None)"
| "addPorts nft (p # ps) m k =
     (case addPort nft p m k of
        (m1, k1, Some e) \<Rightarrow> (case closed_stopAll nft k1 of (m2, k2) \<Rightarrow> (m2, k2, Some e))
      | (m1, k1, None) \<Rightarrow> addPorts nft ps m1 k1)"

section \<open>Scanner probes\<close>

definition t2_rule :: "string list" where
  "t2_rule = [''tcp'', ''flags'', ''&'', ''(fin|syn|rst|psh|ack|urg)'', ''=='', ''0x00'', ''reject'', ''with'', ''tcp'', ''reset'']"

definition t3_rule :: "string list" where
  "t3_rule = [''tcp'', ''flags'', ''&'', ''(fin|syn|psh|urg)'', ''=='', ''(fin|syn|psh|urg)'', ''reject'', ''with'', ''tcp'', ''reset'']"

text \<open>\<open>ProbeResponseManager\<close>: whether it is active.  A rule that fails is only logged.\<close>

definition probe_start :: "nft \<Rightarrow> bool \<Rightarrow> kernel \<Rightarrow> bool \<times> kernel \<times> string option" where
  "probe_start nft active k =
     (case nftEnsureTable nft k of
        (k1, Some e) \<Rightarrow> (active, k1, Some e)
      | (k1, None) \<Rightarrow> (True, fst (nftAddRule nft t3_rule (fst (nftAddRule nft t2_rule k1))), None))"

definition probe_stop :: "nft \<Rightarrow> bool \<Rightarrow> kernel \<Rightarrow> bool \<times> kernel" where
  "probe_stop nft active k = (if active then (False, nftDeleteTable nft k) else (active, k))"

section \<open>The default-drop firewall\<close>

definition mergePorts :: "u16 list \<Rightarrow> u16 list \<Rightarrow> u16 list" where
  "mergePorts a b = sort (remdups (a @ b))"

fun join_strings :: "string \<Rightarrow> string list \<Rightarrow> string" where
  "join_strings sep [] = []"
| "join_strings sep [x] = x"
| "join_strings sep (x # xs) = x @ sep @ join_strings sep xs"

definition portSetExpr :: "u16 list \<Rightarrow> string" where
  "portSetExpr ports = ''{ '' @ join_strings '', '' (map (\<lambda>p. itoa (unat p)) ports) @ '' }''"

definition established_rule :: "string list" where
  "established_rule = [''ct'', ''state'', ''established,related'', ''accept'']"

definition loopback_rule :: "string list" where "loopback_rule = [''iifname'', ''lo'', ''accept'']"

definition allow_rule :: "u16 list \<Rightarrow> string list" where
  "allow_rule ports = [''tcp'', ''dport'', portSetExpr ports, ''accept'']"

definition drop_rule :: "string list" where "drop_rule = [''meta'', ''l4proto'', ''tcp'', ''drop'']"

definition ping_rule :: "string list" where
  "ping_rule = [''ip'', ''protocol'', ''icmp'', ''icmp'', ''type'', ''echo-request'', ''drop'']"

definition drop_rules :: "u16 list \<Rightarrow> u16 list \<Rightarrow> string list list" where
  "drop_rules openPorts preservePorts =
     (let allow = mergePorts openPorts preservePorts in
      [established_rule, loopback_rule] @ (if allow \<noteq> [] then [allow_rule allow] else []) @ [drop_rule])"

text \<open>\<open>FirewallManager\<close>: whether it is active.\<close>

definition enableDrop :: "nft \<Rightarrow> u16 list \<Rightarrow> u16 list \<Rightarrow> bool \<Rightarrow> kernel \<Rightarrow> bool \<times> kernel \<times> string option" where
  "enableDrop nft openPorts preservePorts active k =
     (case nftEnsureTable nft k of
        (k1, Some e) \<Rightarrow> (active, k1, Some e)
      | (k1, None) \<Rightarrow>
          (case run_all nft (map add_rule (drop_rules openPorts preservePorts)) k1 of
             (k2, Some e) \<Rightarrow> (active, k2, Some e)
           | (k2, None) \<Rightarrow> (True, k2, None)))"

definition enableICMPDrop :: "nft \<Rightarrow> kernel \<Rightarrow> kernel \<times> string option" where
  "enableICMPDrop nft k =
     (case nftEnsureTable nft k of
        (k1, Some e) \<Rightarrow> (k1, Some e)
      | (k1, None) \<Rightarrow> nftAddRule nft ping_rule k1)"

definition firewall_stop :: "nft \<Rightarrow> bool \<Rightarrow> kernel \<Rightarrow> bool \<times> kernel" where
  "firewall_stop nft active k = (if active then (False, nftDeleteTable nft k) else (active, k))"

section \<open>What a run sets up\<close>

definition merge_add :: "u16 \<Rightarrow> u16 list \<Rightarrow> u16 list" where
  "merge_add p out = (if p = 0 then out else if p \<in> set out then out else out @ [p])"

definition mergeUint16 :: "u16 list \<Rightarrow> u16 list \<Rightarrow> u16 list" where
  "mergeUint16 a b = fold merge_add b (fold merge_add a [])"

text \<open>The managers of a run, \<open>None\<close> for a nil pointer.\<close>

record disposition =
  ds_closed :: "u16 list option"
  ds_probe :: "bool option"
  ds_fw :: "bool option"

definition setup_closed :: "nft \<Rightarrow> app_config \<Rightarrow> kernel \<Rightarrow> u16 list option \<times> kernel" where
  "setup_closed nft cfg k =
     (if ac_closedPorts cfg = [] then (None, k)
      else case addPorts nft (ac_closedPorts cfg) [] k of
        (m, k1, Some _) \<Rightarrow> (None, k1)
      | (m, k1, None) \<Rightarrow> (Some m, k1))"

definition setup_probe :: "nft \<Rightarrow> os_profile option \<Rightarrow> kernel \<Rightarrow> bool option \<times> kernel" where
  "setup_probe nft profile k =
     (case profile of
        None \<Rightarrow> (None, k)
      | Some p \<Rightarrow>
          if \<not> equal_fold (prof_family p) ''windows'' then (None, k)
          else case probe_start nft False k of
            (a, k1, Some _) \<Rightarrow> (None, k1)
          | (a, k1, None) \<Rightarrow> (Some a, k1))"

definition auto_drop :: "app_config \<Rightarrow> os_profile option \<Rightarrow> bool" where
  "auto_drop cfg profile \<longleftrightarrow>
     (case profile of None \<Rightarrow> False | Some p \<Rightarrow> resolvedEdition p = ''workstation'') \<and>
     to_lower (fw_closedPortBehavior (ac_firewall cfg)) \<noteq> ''reset''"

definition wants_drop :: "app_config \<Rightarrow> os_profile option \<Rightarrow> bool" where
  "wants_drop cfg profile \<longleftrightarrow>
     to_lower (fw_closedPortBehavior (ac_firewall cfg)) \<in> {''drop'', ''filtered''} \<or> auto_drop cfg profile"

definition persona_ports :: "app_config \<Rightarrow> os_profile option \<Rightarrow> services_dir \<Rightarrow> u16 list" where
  "persona_ports cfg profile dir =
     (if auto_drop cfg profile
      then mergeUint16 (fw_openPorts (ac_firewall cfg)) (serviceListenPorts (ac_services cfg) profile dir)
      else fw_openPorts (ac_firewall cfg))"

definition setup_firewall ::
  "nft \<Rightarrow> app_config \<Rightarrow> os_profile option \<Rightarrow> services_dir \<Rightarrow> kernel \<Rightarrow> bool option \<times> kernel" where
  "setup_firewall nft cfg profile dir k =
     (let (fw, k1) =
        (if wants_drop cfg profile then
           (case enableDrop nft (persona_ports cfg profile dir) (fw_preservePorts (ac_firewall cfg)) False k of
              (a, k1, Some _) \<Rightarrow> (None, k1)
            | (a, k1, None) \<Rightarrow> (Some a, k1))
         else (None, k))
      in if auto_drop cfg profile
         then (Some (case fw of None \<Rightarrow> False | Some a \<Rightarrow> a), fst (enableICMPDrop nft k1))
         else (fw, k1))"

definition setup_disposition ::
  "nft \<Rightarrow> app_config \<Rightarrow> os_profile option \<Rightarrow> services_dir \<Rightarrow> kernel \<Rightarrow> disposition \<times> kernel" where
  "setup_disposition nft cfg profile dir k =
     (let (c, k1) = setup_closed nft cfg k;
          (p, k2) = setup_probe nft profile k1;
          (f, k3) = setup_firewall nft cfg profile dir k2
      in (\<lparr>ds_closed = c, ds_probe = p, ds_fw = f\<rparr>, k3))"

text \<open>The teardown of a signal, a service stop, a restart or a control stop; and that of an error a
  goroutine reports while the main loop runs, which leaves the firewall out.\<close>

definition teardown_shared :: "nft \<Rightarrow> disposition \<Rightarrow> kernel \<Rightarrow> kernel" where
  "teardown_shared nft d k =
     (let k1 = (if ds_closed d \<noteq> None then snd (closed_stopAll nft k) else k)
      in (case ds_probe d of None \<Rightarrow> k1 | Some a \<Rightarrow> snd (probe_stop nft a k1)))"

definition teardown :: "nft \<Rightarrow> disposition \<Rightarrow> kernel \<Rightarrow> kernel" where
  "teardown nft d k =
     (let k1 = teardown_shared nft d k
      in (case ds_fw d of None \<Rightarrow> k1 | Some a \<Rightarrow> snd (firewall_stop nft a k1)))"

definition teardown_on_error :: "nft \<Rightarrow> disposition \<Rightarrow> kernel \<Rightarrow> kernel" where
  "teardown_on_error nft d k = teardown_shared nft d k"

section \<open>The rules of a run\<close>

definition willing :: "nft \<Rightarrow> bool" where
  "willing nft \<longleftrightarrow> (\<forall>dn c. nft dn c = None)"

lemma rules_after_add [simp]: "rules_after (add_rule args) rules = rules @ [args]"
  by (simp add: rules_after_def add_rule_def delete_table_def)

lemma rules_after_table [simp]: "c \<in> set table_commands \<Longrightarrow> rules_after c rules = rules"
  by (auto simp: rules_after_def table_commands_def add_rule_def delete_table_def)

lemma rules_after_delete [simp]: "rules_after delete_table rules = []"
  by (simp add: rules_after_def)

lemma run_nft_rules:
  "run_nft nft c k = (k', e) \<Longrightarrow> kn_rules k' = (if e = None then rules_after c (kn_rules k) else kn_rules k)"
  by (auto simp: run_nft_def split: option.splits)

text \<open>A sequence of commands leaves what a prefix of it leaves, and all of it when none failed.\<close>

lemma run_all_rules:
  "run_all nft cs k = (k', e) \<Longrightarrow>
     \<exists>n \<le> length cs. kn_rules k' = fold rules_after (take n cs) (kn_rules k) \<and> (e = None \<longleftrightarrow> n = length cs)"
proof (induction nft cs k arbitrary: k' rule: run_all.induct)
  case (2 nft c cs k)
  show ?case
  proof (cases "run_nft nft c k")
    case (Pair k1 e1)
    show ?thesis
    proof (cases e1)
      case None
      with Pair "2.prems" have "run_all nft cs k1 = (k', e)" by simp
      from "2.IH" [OF Pair [symmetric] None this] obtain n where
        "n \<le> length cs" "kn_rules k' = fold rules_after (take n cs) (kn_rules k1)" "e = None \<longleftrightarrow> n = length cs" by blast
      then show ?thesis
        using run_nft_rules [OF Pair] None by (intro exI [of _ "Suc n"]) simp
    next
      case (Some err)
      with Pair "2.prems" run_nft_rules [OF Pair] show ?thesis by (intro exI [of _ 0]) auto
    qed
  qed
qed simp

lemma fold_table [simp]: "set cs \<subseteq> set table_commands \<Longrightarrow> fold rules_after cs rules = rules"
  by (induction cs) auto

lemma fold_add [simp]: "fold rules_after (map add_rule rs) rules = rules @ rs"
  by (induction rs arbitrary: rules) auto

lemma ensure_rules: "nftEnsureTable nft k = (k', e) \<Longrightarrow> kn_rules k' = kn_rules k"
  using run_all_rules [of nft table_commands k k' e] set_take_subset [of _ table_commands]
  by (auto simp: nftEnsureTable_def)

lemma add_all_rules:
  assumes "run_all nft (map add_rule rs) k = (k', e)"
  shows "\<exists>n \<le> length rs. kn_rules k' = kn_rules k @ take n rs \<and> (e = None \<longleftrightarrow> n = length rs)"
  using run_all_rules [OF assms] by (auto simp: take_map)

lemma willing_run_nft: "willing nft \<Longrightarrow> snd (run_nft nft c k) = None"
  by (simp add: run_nft_def willing_def)

lemma willing_run_all: "willing nft \<Longrightarrow> snd (run_all nft cs k) = None"
proof (induction cs arbitrary: k)
  case (Cons c cs)
  then show ?case using willing_run_nft [of nft c k] by (auto split: prod.splits option.splits)
qed simp

lemma willing_ensure: "willing nft \<Longrightarrow> \<exists>k'. nftEnsureTable nft k = (k', None) \<and> kn_rules k' = kn_rules k"
  using willing_run_all [of nft table_commands k] ensure_rules [of nft k]
  by (cases "nftEnsureTable nft k") (auto simp: nftEnsureTable_def)

lemma willing_add: "willing nft \<Longrightarrow> \<exists>k'. nftAddRule nft r k = (k', None) \<and> kn_rules k' = kn_rules k @ [r]"
  using willing_run_nft [of nft "add_rule r" k] run_nft_rules [of nft "add_rule r" k]
  by (cases "run_nft nft (add_rule r) k") (auto simp: nftAddRule_def)

lemma willing_closed:
  assumes "willing nft"
  shows "\<exists>k'. addPorts nft ps m k = (m @ ps, k', None) \<and> kn_rules k' = kn_rules k @ map closed_rule ps"
proof (induction ps arbitrary: m k)
  case (Cons p ps)
  obtain k1 where k1: "nftEnsureTable nft k = (k1, None)" "kn_rules k1 = kn_rules k"
    using willing_ensure [OF assms] by blast
  obtain k2 where k2: "run_nft nft (add_rule (closed_rule p)) k1 = (k2, None)" "kn_rules k2 = kn_rules k1 @ [closed_rule p]"
    using willing_add [OF assms, of "closed_rule p" k1] by (auto simp: nftAddRule_def)
  obtain k' where "addPorts nft ps (m @ [p]) k2 = ((m @ [p]) @ ps, k', None)"
      "kn_rules k' = kn_rules k2 @ map closed_rule ps"
    using Cons.IH by blast
  with k1 k2 show ?case by (simp add: addPort_def closed_start_def)
qed simp

definition windows_profile :: "os_profile option \<Rightarrow> bool" where
  "windows_profile profile \<longleftrightarrow> (\<exists>p. profile = Some p \<and> equal_fold (prof_family p) ''windows'')"

lemma willing_rules:
  assumes w: "willing nft" and k: "kn_rules k = []"
  shows "kn_rules (snd (setup_disposition nft cfg profile dir k)) =
    map closed_rule (ac_closedPorts cfg) @ (if windows_profile profile then [t2_rule, t3_rule] else []) @
    (if wants_drop cfg profile
     then drop_rules (persona_ports cfg profile dir) (fw_preservePorts (ac_firewall cfg)) else []) @
    (if auto_drop cfg profile then [ping_rule] else [])"
proof -
  obtain c k1 where c: "setup_closed nft cfg k = (c, k1)" by fastforce
  then have r1: "kn_rules k1 = map closed_rule (ac_closedPorts cfg)"
    using willing_closed [OF w, of "ac_closedPorts cfg" "[]" k] k by (auto simp: setup_closed_def split: if_splits)
  obtain p k2 where p: "setup_probe nft profile k1 = (p, k2)" by fastforce
  have r2: "kn_rules k2 = kn_rules k1 @ (if windows_profile profile then [t2_rule, t3_rule] else [])"
  proof (cases "windows_profile profile")
    case True
    obtain ka where ka: "nftEnsureTable nft k1 = (ka, None)" "kn_rules ka = kn_rules k1"
      using willing_ensure [OF w] by blast
    obtain kb where kb: "nftAddRule nft t2_rule ka = (kb, None)" "kn_rules kb = kn_rules ka @ [t2_rule]"
      using willing_add [OF w] by blast
    obtain kc where "nftAddRule nft t3_rule kb = (kc, None)" "kn_rules kc = kn_rules kb @ [t3_rule]"
      using willing_add [OF w] by blast
    with True p ka kb show ?thesis by (auto simp: setup_probe_def windows_profile_def probe_start_def)
  next
    case False
    with p show ?thesis by (auto simp: setup_probe_def windows_profile_def split: option.splits)
  qed
  obtain fw k3 where fw: "(if wants_drop cfg profile then
      (case enableDrop nft (persona_ports cfg profile dir) (fw_preservePorts (ac_firewall cfg)) False k2 of
         (a, k1, Some _) \<Rightarrow> (None, k1) | (a, k1, None) \<Rightarrow> (Some a, k1)) else (None, k2)) = (fw, k3)" by fastforce
  have r3: "kn_rules k3 = kn_rules k2 @ (if wants_drop cfg profile
      then drop_rules (persona_ports cfg profile dir) (fw_preservePorts (ac_firewall cfg)) else [])"
  proof (cases "wants_drop cfg profile")
    case True
    let ?rs = "drop_rules (persona_ports cfg profile dir) (fw_preservePorts (ac_firewall cfg))"
    obtain ka where ka: "nftEnsureTable nft k2 = (ka, None)" "kn_rules ka = kn_rules k2"
      using willing_ensure [OF w] by blast
    obtain kb e where kb: "run_all nft (map add_rule ?rs) ka = (kb, e)" by fastforce
    with willing_run_all [OF w, of "map add_rule ?rs" ka] have "e = None" by simp
    with add_all_rules [OF kb] have "kn_rules kb = kn_rules ka @ ?rs" by auto
    with True fw ka kb \<open>e = None\<close> show ?thesis by (auto simp: enableDrop_def)
  next
    case False
    with fw show ?thesis by simp
  qed
  have "kn_rules (snd (setup_firewall nft cfg profile dir k2)) =
      kn_rules k3 @ (if auto_drop cfg profile then [ping_rule] else [])"
  proof (cases "auto_drop cfg profile")
    case True
    obtain ka where ka: "nftEnsureTable nft k3 = (ka, None)" "kn_rules ka = kn_rules k3"
      using willing_ensure [OF w] by blast
    obtain kb where "nftAddRule nft ping_rule ka = (kb, None)" "kn_rules kb = kn_rules ka @ [ping_rule]"
      using willing_add [OF w] by blast
    with True fw ka show ?thesis by (simp add: setup_firewall_def enableICMPDrop_def)
  next
    case False
    with fw show ?thesis by (simp add: setup_firewall_def)
  qed
  moreover have "snd (setup_disposition nft cfg profile dir k) = snd (setup_firewall nft cfg profile dir k2)"
    by (simp add: setup_disposition_def c p case_prod_beta)
  ultimately show ?thesis
    using r1 r2 r3 by simp
qed

section \<open>What a packet meets\<close>

record packet =
  pk_established :: bool
  pk_loopback :: bool
  pk_tcp :: bool
  pk_dport :: u16
  pk_noFlags :: bool      \<comment> \<open>the T2 probe\<close>
  pk_xmasFlags :: bool    \<comment> \<open>the T3 probe\<close>
  pk_echo :: bool         \<comment> \<open>an ICMP echo request\<close>

datatype verdict = Accepted | Dropped | ResetSent

definition verdict_of :: "string list \<Rightarrow> verdict" where
  "verdict_of rule = (if last rule = ''accept'' then Accepted else if last rule = ''drop'' then Dropped else ResetSent)"

text \<open>The first rule that matches decides; the policy of the chain accepts.\<close>

fun chain_verdict :: "(string list \<Rightarrow> packet \<Rightarrow> bool) \<Rightarrow> string list list \<Rightarrow> packet \<Rightarrow> verdict" where
  "chain_verdict hit [] p = Accepted"
| "chain_verdict hit (r # rs) p = (if hit r p then verdict_of r else chain_verdict hit rs p)"

text \<open>What the documentation of \<open>nft\<close> says the rules match.\<close>

definition nft_documented :: "(string list \<Rightarrow> packet \<Rightarrow> bool) \<Rightarrow> bool" where
  "nft_documented hit \<longleftrightarrow>
     (\<forall>p. hit established_rule p = pk_established p \<and> hit loopback_rule p = pk_loopback p \<and>
       hit drop_rule p = pk_tcp p \<and> hit ping_rule p = pk_echo p \<and>
       hit t2_rule p = (pk_tcp p \<and> pk_noFlags p) \<and> hit t3_rule p = (pk_tcp p \<and> pk_xmasFlags p) \<and>
       (\<forall>port. hit (closed_rule port) p = (pk_tcp p \<and> pk_dport p = port)) \<and>
       (\<forall>ports. ports \<noteq> [] \<longrightarrow> hit (allow_rule ports) p = (pk_tcp p \<and> pk_dport p \<in> set ports)))"

lemma chain_verdict_append:
  "chain_verdict hit (rs @ ss) p = (if \<exists>r \<in> set rs. hit r p then chain_verdict hit rs p else chain_verdict hit ss p)"
  by (induction rs) auto

lemma chain_verdict_same:
  "\<forall>r \<in> set rs. verdict_of r = v \<Longrightarrow> \<exists>r \<in> set rs. hit r p \<Longrightarrow> chain_verdict hit rs p = v"
  by (induction rs) auto

lemma verdicts [simp]:
  "verdict_of established_rule = Accepted" "verdict_of loopback_rule = Accepted" "verdict_of (allow_rule ps) = Accepted"
  "verdict_of drop_rule = Dropped" "verdict_of ping_rule = Dropped" "verdict_of t2_rule = ResetSent"
  "verdict_of t3_rule = ResetSent" "verdict_of (closed_rule port) = ResetSent"
  by (simp_all add: verdict_of_def established_rule_def loopback_rule_def allow_rule_def drop_rule_def ping_rule_def
      t2_rule_def t3_rule_def closed_rule_def)

lemma mergePorts_set: "set (mergePorts a b) = set a \<union> set b" "mergePorts a b = [] \<longleftrightarrow> a = [] \<and> b = []"
  by (simp_all add: mergePorts_def sort_key_const flip: set_empty)

lemma drop_verdict:
  assumes "nft_documented hit"
  shows "chain_verdict hit (drop_rules opn keep @ rs) p =
    (if pk_established p \<or> pk_loopback p \<or> (pk_tcp p \<and> pk_dport p \<in> set opn \<union> set keep) then Accepted
     else if pk_tcp p then Dropped else chain_verdict hit rs p)"
  using assms mergePorts_set [of opn keep]
  by (cases "mergePorts opn keep = []") (auto simp: drop_rules_def Let_def nft_documented_def)

lemma stages:
  "(A \<Longrightarrow> a = v) \<Longrightarrow> (B \<Longrightarrow> b = v) \<Longrightarrow> c = w \<Longrightarrow>
     (if A then a else if B then b else c) = (if A then v else if B then v else w)"
  by simp

text \<open>C34. The persona a scanner meets: when the commands of a run succeed on a clean table, a closed
  port answers with a reset, a Windows profile also resets the two malformed probes, and under
  default drop everything established, local, served or preserved is accepted, all other TCP is
  dropped and, for a workstation, so are pings.\<close>

theorem persona_seen:
  assumes "willing nft" and "nft_documented hit" and "kn_rules k = []"
  shows "chain_verdict hit (kn_rules (snd (setup_disposition nft cfg profile dir k))) p =
    (if pk_tcp p \<and> pk_dport p \<in> set (ac_closedPorts cfg) then ResetSent
     else if windows_profile profile \<and> pk_tcp p \<and> (pk_noFlags p \<or> pk_xmasFlags p) then ResetSent
     else if \<not> wants_drop cfg profile then Accepted
     else if pk_established p \<or> pk_loopback p then Accepted
     else if pk_tcp p then
       (if pk_dport p \<in> set (persona_ports cfg profile dir) \<union> set (fw_preservePorts (ac_firewall cfg))
        then Accepted else Dropped)
     else if auto_drop cfg profile \<and> pk_echo p then Dropped
     else Accepted)"
proof -
  let ?closed = "map closed_rule (ac_closedPorts cfg)"
  let ?probe = "if windows_profile profile then [t2_rule, t3_rule] else []"
  let ?rest = "(if wants_drop cfg profile
      then drop_rules (persona_ports cfg profile dir) (fw_preservePorts (ac_firewall cfg)) else []) @
    (if auto_drop cfg profile then [ping_rule] else [])"
  have hits: "(\<exists>r \<in> set ?closed. hit r p) \<longleftrightarrow> pk_tcp p \<and> pk_dport p \<in> set (ac_closedPorts cfg)"
    "(\<exists>r \<in> set ?probe. hit r p) \<longleftrightarrow> windows_profile profile \<and> pk_tcp p \<and> (pk_noFlags p \<or> pk_xmasFlags p)"
    using assms(2) by (auto simp: nft_documented_def)
  have "chain_verdict hit ?closed p = ResetSent" if "\<exists>r \<in> set ?closed. hit r p"
    using that by (intro chain_verdict_same) auto
  moreover have "chain_verdict hit ?probe p = ResetSent" if "\<exists>r \<in> set ?probe. hit r p"
    using that by (intro chain_verdict_same) auto
  moreover have "chain_verdict hit ?rest p =
      (if \<not> wants_drop cfg profile then Accepted
       else if pk_established p \<or> pk_loopback p then Accepted
       else if pk_tcp p then
         (if pk_dport p \<in> set (persona_ports cfg profile dir) \<union> set (fw_preservePorts (ac_firewall cfg))
          then Accepted else Dropped)
       else if auto_drop cfg profile \<and> pk_echo p then Dropped else Accepted)"
  proof (cases "wants_drop cfg profile")
    case True
    then show ?thesis using assms(2) by (simp add: drop_verdict [OF assms(2)]) (auto simp: nft_documented_def)
  next
    case False
    then have "\<not> auto_drop cfg profile" by (simp add: wants_drop_def)
    with False show ?thesis by simp
  qed
  ultimately show ?thesis
    unfolding willing_rules [OF assms(1,3)] chain_verdict_append [of hit ?closed] chain_verdict_append [of hit ?probe] hits
    by (rule stages)
qed

text \<open>A reading of the rules, to show that such an \<open>nft\<close> can exist.\<close>

definition set_members :: "string \<Rightarrow> string list" where
  "set_members e = split_on (CHR '','') (filter (\<lambda>c. c \<notin> {CHR '' '', CHR ''{'', CHR ''}''}) e)"

definition reading :: "string list \<Rightarrow> packet \<Rightarrow> bool" where
  "reading r p =
     (if r = established_rule then pk_established p
      else if r = loopback_rule then pk_loopback p
      else if r = drop_rule then pk_tcp p
      else if r = ping_rule then pk_echo p
      else if r = t2_rule then pk_tcp p \<and> pk_noFlags p
      else if r = t3_rule then pk_tcp p \<and> pk_xmasFlags p
      else if length r = 7 then r = closed_rule (pk_dport p) \<and> pk_tcp p
      else if length r = 4 then itoa (unat (pk_dport p)) \<in> set (set_members (r ! 2)) \<and> pk_tcp p
      else False)"

lemma itoa_no: "c \<notin> set (itoa n)" if "c \<in> {CHR '' '', CHR ''{'', CHR ''}'', CHR '',''}"
  using itoa_digits [of n] that by (auto simp: is_digit_def)

lemma filter_itoa: "filter (\<lambda>c. c \<notin> {CHR '' '', CHR ''{'', CHR ''}''}) (itoa n) = itoa n"
  using itoa_no by (auto intro!: filter_True)

lemma filter_join:
  "filter (\<lambda>c. c \<notin> {CHR '' '', CHR ''{'', CHR ''}''}) (join_strings '', '' (map (\<lambda>p. itoa (unat (p :: u16))) ps)) =
     join_with (CHR '','') (map (\<lambda>p. itoa (unat p)) ps)"
proof (induction ps)
  case (Cons p ps)
  then show ?case using filter_itoa by (cases ps) auto
qed simp

lemma set_members_ports: "ps \<noteq> [] \<Longrightarrow> set_members (portSetExpr ps) = map (\<lambda>p. itoa (unat p)) ps"
  using split_join [of "map (\<lambda>p. itoa (unat p)) ps" "CHR '',''"] itoa_no filter_join [of ps]
  by (auto simp: set_members_def portSetExpr_def)

lemma reading_documented: "nft_documented reading"
proof -
  have inj: "itoa (unat p) = itoa (unat q) \<longleftrightarrow> p = q" for p q :: u16
    using itoa_inj [of "unat p" "unat q"] by (auto simp: word_unat_eq_iff)
  have closed: "closed_rule a = closed_rule b \<longleftrightarrow> a = b" for a b
    by (simp add: closed_rule_def inj)
  have members: "itoa (unat q) \<in> set (set_members (portSetExpr ps)) \<longleftrightarrow> q \<in> set ps" if "ps \<noteq> []" for q ps
    using that by (auto simp: set_members_ports inj image_iff)
  note defs = established_rule_def loopback_rule_def drop_rule_def ping_rule_def t2_rule_def t3_rule_def
  have "reading (closed_rule port) p = (pk_tcp p \<and> pk_dport p = port)" for port p
    using closed [of port "pk_dport p"] by (auto simp: reading_def defs) (auto simp: closed_rule_def)
  moreover have "reading (allow_rule ps) p = (pk_tcp p \<and> pk_dport p \<in> set ps)" if "ps \<noteq> []" for ps p
    using members [OF that, of "pk_dport p"] by (auto simp: reading_def defs allow_rule_def)
  ultimately show ?thesis
    unfolding nft_documented_def by (auto simp: reading_def defs)
qed

definition workstation_config :: app_config where
  "workstation_config = zero_config\<lparr>ac_services := [''rdp''], ac_closedPorts := [8080],
     ac_firewall := \<lparr>fw_closedPortBehavior = [], fw_openPorts = [], fw_preservePorts = [22]\<rparr>\<rparr>"

definition syn_to :: "u16 \<Rightarrow> packet" where
  "syn_to port = \<lparr>pk_established = False, pk_loopback = False, pk_tcp = True, pk_dport = port, pk_noFlags = False,
     pk_xmasFlags = False, pk_echo = False\<rparr>"

lemma windows_11_edition: "resolvedEdition windows_11 = ''workstation''"
  by code_simp

lemma persona_seen_witness:
  "chain_verdict reading (kn_rules (snd (setup_disposition (\<lambda>_ _. None) workstation_config (Some windows_11) None
     \<lparr>kn_done = [], kn_rules = []\<rparr>))) (syn_to 445) = Dropped"
proof -
  have w: "auto_drop workstation_config (Some windows_11)"
    by (simp add: auto_drop_def windows_11_edition workstation_config_def to_lower_def)
  have p: "445 \<notin> set (persona_ports workstation_config (Some windows_11) None)"
    by (simp add: persona_ports_def w) code_simp
  show ?thesis
    using persona_seen [of "\<lambda>_ _. None" reading "\<lparr>kn_done = [], kn_rules = []\<rparr>" workstation_config "Some windows_11" None "syn_to 445"]
      reading_documented w p
    by (simp add: willing_def wants_drop_def syn_to_def workstation_config_def)
qed

section \<open>Taking it down\<close>

text \<open>Whatever fails, the default-drop rule is in the table only when the manager knows.\<close>

lemma addPorts_rules:
  "addPorts nft ps m k = (m', k', e) \<Longrightarrow> set (kn_rules k') \<subseteq> set (kn_rules k) \<union> range closed_rule"
proof (induction nft ps m k arbitrary: m' k' e rule: addPorts.induct)
  case (2 nft p ps m k)
  obtain m1 k1 e1 where a: "addPort nft p m k = (m1, k1, e1)" by (metis prod_cases3)
  have k1: "set (kn_rules k1) \<subseteq> set (kn_rules k) \<union> range closed_rule"
    using a ensure_rules [of nft k]
    by (auto simp: addPort_def closed_start_def split: prod.splits option.splits dest!: run_nft_rules)
  show ?case
  proof (cases e1)
    case None
    with a "2.prems" have "addPorts nft ps m1 k1 = (m', k', e)" by simp
    from "2.IH" [OF a [symmetric] refl None this] k1 show ?thesis by blast
  next
    case (Some err)
    with a "2.prems" have "k' = fst (run_nft nft delete_table k1)"
      by (simp add: closed_stopAll_def nftDeleteTable_def)
    then have "kn_rules k' = kn_rules k1 \<or> kn_rules k' = []"
      by (cases "run_nft nft delete_table k1") (auto dest!: run_nft_rules)
    with k1 show ?thesis by auto
  qed
qed simp

lemma probe_rules:
  assumes "probe_start nft a k = (a', k', e)"
  shows "set (kn_rules k') \<subseteq> set (kn_rules k) \<union> {t2_rule, t3_rule}"
proof -
  obtain k1 e1 where k1: "nftEnsureTable nft k = (k1, e1)" by fastforce
  obtain k2 e2 where k2: "nftAddRule nft t2_rule k1 = (k2, e2)" by fastforce
  obtain k3 e3 where k3: "nftAddRule nft t3_rule k2 = (k3, e3)" by fastforce
  have "kn_rules k1 = kn_rules k" using ensure_rules [OF k1] .
  moreover have "set (kn_rules k2) \<subseteq> set (kn_rules k1) \<union> {t2_rule}" "set (kn_rules k3) \<subseteq> set (kn_rules k2) \<union> {t3_rule}"
    using k2 k3 by (auto simp: nftAddRule_def dest!: run_nft_rules split: if_splits)
  ultimately show ?thesis
    using assms k1 k2 k3 by (cases e1) (auto simp: probe_start_def)
qed

lemma drop_rule_last: "n < length (drop_rules a b) \<Longrightarrow> drop_rule \<notin> set (take n (drop_rules a b))"
  by (cases "mergePorts a b = []"; cases n rule: nat.exhaust)
    (auto simp: drop_rules_def Let_def drop_rule_def established_rule_def loopback_rule_def allow_rule_def
      take_Cons' split: if_splits)

lemma enableDrop_rules:
  assumes "enableDrop nft a b act k = (act', k', e)" and "drop_rule \<in> set (kn_rules k')"
  shows "drop_rule \<in> set (kn_rules k) \<or> (act' \<and> e = None)"
proof -
  obtain k1 e1 where k1: "nftEnsureTable nft k = (k1, e1)" by fastforce
  show ?thesis
  proof (cases e1)
    case None
    obtain k2 e2 where k2: "run_all nft (map add_rule (drop_rules a b)) k1 = (k2, e2)" by fastforce
    obtain n where n: "n \<le> length (drop_rules a b)" "kn_rules k2 = kn_rules k1 @ take n (drop_rules a b)"
        "e2 = None \<longleftrightarrow> n = length (drop_rules a b)"
      using add_all_rules [OF k2] by blast
    show ?thesis
    proof (cases e2)
      case None
      with assms(1) k1 k2 \<open>e1 = None\<close> show ?thesis by (simp add: enableDrop_def)
    next
      case (Some err)
      with n have "drop_rule \<notin> set (take n (drop_rules a b))" by (intro drop_rule_last) auto
      with assms k1 k2 Some \<open>e1 = None\<close> n(2) ensure_rules [OF k1] show ?thesis by (simp add: enableDrop_def)
    qed
  next
    case (Some err)
    with assms k1 ensure_rules [OF k1] show ?thesis by (simp add: enableDrop_def)
  qed
qed

lemma setup_drop_known:
  assumes "setup_disposition nft cfg profile dir k = (d, k')" and "kn_rules k = []"
    and "drop_rule \<in> set (kn_rules k')"
  shows "ds_fw d = Some True"
proof -
  obtain c k1 where c: "setup_closed nft cfg k = (c, k1)" by fastforce
  obtain p k2 where p: "setup_probe nft profile k1 = (p, k2)" by fastforce
  have k1: "drop_rule \<notin> set (kn_rules k1)"
    using c assms(2) by (auto simp: setup_closed_def closed_rule_def drop_rule_def dest!: addPorts_rules split: if_splits prod.splits option.splits)
  have k2: "drop_rule \<notin> set (kn_rules k2)"
    using p k1 by (auto simp: setup_probe_def t2_rule_def t3_rule_def drop_rule_def dest!: probe_rules split: if_splits prod.splits option.splits)
  have d: "ds_fw d = fst (setup_firewall nft cfg profile dir k2)" "k' = snd (setup_firewall nft cfg profile dir k2)"
    using assms(1) c p by (auto simp: setup_disposition_def split: prod.splits)
  have ping: "drop_rule \<in> set (kn_rules k0)" if "drop_rule \<in> set (kn_rules (fst (enableICMPDrop nft k0)))" for k0
  proof -
    obtain ka ea where ka: "nftEnsureTable nft k0 = (ka, ea)" by fastforce
    obtain kb eb where kb: "run_nft nft (add_rule ping_rule) ka = (kb, eb)" by fastforce
    have "drop_rule \<in> set (kn_rules ka)" if "drop_rule \<in> set (kn_rules kb)"
      using that run_nft_rules [OF kb] by (auto simp: ping_rule_def drop_rule_def split: if_splits)
    with that ka kb ensure_rules [OF ka] show ?thesis
      by (cases ea) (simp_all add: enableICMPDrop_def nftAddRule_def)
  qed
  show ?thesis
  proof (cases "wants_drop cfg profile")
    case False
    then have "\<not> auto_drop cfg profile" by (simp add: wants_drop_def)
    with False d k2 assms(3) show ?thesis by (simp add: setup_firewall_def)
  next
    case True
    obtain a k3 e where e: "enableDrop nft (persona_ports cfg profile dir) (fw_preservePorts (ac_firewall cfg)) False k2 = (a, k3, e)"
      by (metis prod_cases3)
    have "drop_rule \<in> set (kn_rules k3)"
      using assms(3) d(2) True e ping by (cases e) (auto simp: setup_firewall_def split: if_splits)
    with enableDrop_rules [OF e] k2 have "a" "e = None" by auto
    with d(1) True e show ?thesis by (simp add: setup_firewall_def)
  qed
qed

lemma delete_rules: "nft (kn_done k) delete_table = None \<Longrightarrow> kn_rules (nftDeleteTable nft k) = []"
  by (simp add: nftDeleteTable_def run_nft_def)

text \<open>C35. The default drop does not outlive an orderly stop: starting from a clean table, whichever
  commands failed during the setup, the teardown of a signal, a stop or a restart leaves no
  default-drop rule behind, provided that deleting the table works.\<close>

theorem default_drop_removed:
  assumes "setup_disposition nft cfg profile dir k = (d, k')" and "kn_rules k = []"
    and "\<forall>dn. nft dn delete_table = None"
  shows "drop_rule \<notin> set (kn_rules (teardown nft d k'))"
proof (cases "ds_fw d = Some True")
  case True
  then show ?thesis using assms(3) by (simp add: teardown_def firewall_stop_def Let_def delete_rules)
next
  case False
  with setup_drop_known [OF assms(1,2)] have "drop_rule \<notin> set (kn_rules k')" by blast
  moreover have "kn_rules (teardown nft d k') \<in> {kn_rules k', []}"
    using False assms(3)
    by (auto simp: teardown_def teardown_shared_def Let_def closed_stopAll_def probe_stop_def firewall_stop_def
        delete_rules split: option.splits)
  ultimately show ?thesis by auto
qed

lemma default_drop_removed_witness:
  "drop_rule \<notin> set (kn_rules (teardown (\<lambda>_ _. None)
     (fst (setup_disposition (\<lambda>_ _. None) workstation_config (Some windows_11) None \<lparr>kn_done = [], kn_rules = []\<rparr>))
     (snd (setup_disposition (\<lambda>_ _. None) workstation_config (Some windows_11) None \<lparr>kn_done = [], kn_rules = []\<rparr>))))"
  by (rule default_drop_removed [OF prod.collapse [symmetric]]) simp_all

text \<open>The teardown after an error in the main loop is another matter: with neither closed ports nor
  a Windows profile, the drop rule stays in the kernel after the process has gone.\<close>

lemma error_leaves_drop:
  "case setup_disposition (\<lambda>_ _. None) (zero_config\<lparr>ac_firewall := \<lparr>fw_closedPortBehavior = ''drop'', fw_openPorts = [], fw_preservePorts = []\<rparr>\<rparr>)
      None None \<lparr>kn_done = [], kn_rules = []\<rparr> of
     (d, k) \<Rightarrow> drop_rule \<in> set (kn_rules (teardown_on_error (\<lambda>_ _. None) d k)) \<and> kn_rules (teardown (\<lambda>_ _. None) d k) = []"
  by code_simp

end
