(* ===== verification/Ftp_Honeypot.thy ===== *)
theory Ftp_Honeypot
  imports Deception_Build Events Go_Date
begin

text \<open>
  The FTP honeypot (\<open>internal/honeypot/ftp/server.go\<close>): its construction, the control-connection
  state machine and the transfers.

  A control connection is the list of the lines the client sends, each with what the process
  observes while it handles it (a \<open>ftp_tick\<close>).  A handler returns the session and the
  actions in order.  A node's time is in seconds since 1970, as in the theory \<open>Deception_Maze\<close>.
\<close>

section \<open>Construction\<close>

record ftp_config =
  fc_port :: u16
  fc_banner :: string
  fc_osName :: string
  fc_tree :: "tree option"
  fc_filesystem :: "tree_config option"
  fc_rootShare :: string
  fc_configDir :: string
  fc_allowAnonymous :: bool
  fc_credStore :: "cred_store option"
  fc_acceptCredentials :: "string list"
  fc_pasvHost :: string

record ftp_server =
  fv_cfg :: ftp_config
  fv_tree :: tree
  fv_rootKey :: string
  fv_creds :: "string \<rightharpoonup> string"

text \<open>The root to serve; \<open>any\<close> is the key a map iteration yields first.\<close>

definition pickRoot :: "string \<Rightarrow> tree \<Rightarrow> string" where
  "pickRoot any t =
     (if tr_roots t ''C$'' \<noteq> None then ''C$'' else if tr_roots t = Map.empty then [] else any)"

definition accepted_creds :: "cred_store option \<Rightarrow> string list \<Rightarrow> string \<rightharpoonup> string" where
  "accepted_creds store want =
     fold (\<lambda>c m. if want \<noteq> [] \<and> cr_id c \<notin> set want then m else m(to_lower (cr_username c) \<mapsto> cr_password c))
       (cred_all store) Map.empty"

definition newFtpServer :: "(string \<Rightarrow> string option) \<Rightarrow> string \<Rightarrow> ftp_config \<Rightarrow> ftp_server" where
  "newFtpServer read any cfg0 =
     (let cfg1 = (if fc_port cfg0 = 0 then cfg0\<lparr>fc_port := 21\<rparr> else cfg0);
          cfg2 = (if fc_banner cfg1 = [] then cfg1\<lparr>fc_banner := ''Microsoft FTP Service''\<rparr> else cfg1);
          cfg = (if fc_osName cfg2 = [] then cfg2\<lparr>fc_osName := ''Windows_NT''\<rparr> else cfg2);
          t = (case fc_tree cfg of
                 Some t \<Rightarrow> t
               | None \<Rightarrow>
                   (case fc_filesystem cfg of
                      None \<Rightarrow> defaultTree defaultMazeConfig
                    | Some fs \<Rightarrow>
                        (case buildTree read fs (fc_credStore cfg) (fc_configDir cfg) of
                           Inl _ \<Rightarrow> defaultTree defaultMazeConfig
                         | Inr t \<Rightarrow> t)));
          key = to_upper (fc_rootShare cfg)
      in \<lparr>fv_cfg = cfg, fv_tree = t,
          fv_rootKey = (if tr_roots t key = None then pickRoot any t else key),
          fv_creds = (if fc_credStore cfg = None then Map.empty
                      else accepted_creds (fc_credStore cfg) (fc_acceptCredentials cfg))\<rparr>)"

section \<open>Paths\<close>

definition base_name :: "string \<Rightarrow> string" where
  "base_name p =
     (if p = [] then ''.''
      else
        let q = rev (dropWhile (\<lambda>c. c = CHR ''/'') (rev p)) in
        if q = [] then ''/'' else rev (takeWhile (\<lambda>c. c \<noteq> CHR ''/'') (rev q)))"

definition resolvePath :: "string \<Rightarrow> string \<Rightarrow> string" where
  "resolvePath cwd arg0 =
     (let arg = replace_char arg0 backslash_char (CHR ''/'');
          p = path_clean (if arg \<noteq> [] \<and> hd arg = CHR ''/'' then arg else cwd @ ''/'' @ arg)
      in if p = ''.'' \<or> p = [] then ''/'' else p)"

definition toTreePath :: "string \<Rightarrow> string" where
  "toTreePath p = (if p \<noteq> [] \<and> hd p = CHR ''/'' then tl p else p)"

section \<open>Rendering\<close>

definition pad_left :: "nat \<Rightarrow> string \<Rightarrow> string" where
  "pad_left w s = replicate (w - length s) (CHR '' '') @ s"

text \<open>\<open>%02d\<close>\<close>

definition d2 :: "nat \<Rightarrow> string" where
  "d2 n = (if n < 10 then ''0'' @ itoa n else itoa n)"

definition zero_time :: int where "zero_time = -62135596800"

definition formatListLine :: "node \<Rightarrow> string" where
  "formatListLine n =
     (let t = (if ni_modified (info n) = zero_time then baseTime else ni_modified (info n));
          (y, m, d) = civil_of_days (t div 86400); sod = nat (t mod 86400);
          hour = sod div 3600; minute = sod mod 3600 div 60;
          ampm = (if 12 \<le> hour then ''PM'' else ''AM'');
          h12 = (if hour mod 12 = 0 then 12 else hour mod 12);
          date = d2 m @ ''-'' @ d2 d @ ''-'' @ d2 (nat (y mod 100)) @ ''  '' @ d2 h12 @ '':'' @ d2 minute @ ampm
      in if ni_dir (info n) then date @ ''       <DIR>          '' @ ni_name (info n) @ crlf
         else date @ ''       '' @ pad_left 14 (itoa (node_size n)) @ '' '' @ ni_name (info n) @ crlf)"

definition mdtm :: "int \<Rightarrow> string" where
  "mdtm t =
     (let (y, m, d) = civil_of_days (t div 86400); sod = nat (t mod 86400)
      in four_digits y @ two_digits m @ two_digits d @ two_digits (sod div 3600) @
         two_digits (sod mod 3600 div 60) @ two_digits (sod mod 60))"

section \<open>Sessions\<close>

record ftp_session =
  fs_user :: string
  fs_authed :: bool
  fs_cwd :: string
  fs_data :: bool  \<comment> \<open>a data listener is open\<close>
  fs_remote :: string

record ftp_tick =
  ft_localIP :: "string option"
  ft_listen :: "nat option"  \<comment> \<open>the port of a new data listener\<close>
  ft_accept :: bool

datatype ftp_action =
    Reply nat string
  | Raw string
  | DataSent string
  | Audit event

definition ftp_event :: "ftp_server \<Rightarrow> ftp_session \<Rightarrow> event \<Rightarrow> ftp_action" where
  "ftp_event s sess ev =
     Audit (splitHostPort (fs_remote sess) (ev\<lparr>ev_service := ''ftp'', ev_dstPort := fc_port (fv_cfg s)\<rparr>))"

definition splitCmd :: "string \<Rightarrow> string \<times> string" where
  "splitCmd line =
     (let c = takeWhile (\<lambda>x. x \<noteq> CHR '' '') line; r = dropWhile (\<lambda>x. x \<noteq> CHR '' '') line
      in (to_upper c, if r = [] then [] else tl r))"

definition login_ok :: "ftp_server \<Rightarrow> string \<Rightarrow> string \<Rightarrow> bool" where
  "login_ok s user pass \<longleftrightarrow>
     (let u = to_lower user in
      if fc_allowAnonymous (fv_cfg s) \<and> (u = ''anonymous'' \<or> u = ''ftp'') then True
      else fv_creds s u = Some pass)"

definition handlePass :: "ftp_server \<Rightarrow> ftp_session \<Rightarrow> string \<Rightarrow> ftp_session \<times> ftp_action list" where
  "handlePass s sess pass =
     (let fields = [''username'' \<mapsto> FStr (fs_user sess), ''password'' \<mapsto> FStr pass] in
      if login_ok s (fs_user sess) pass then
        (sess\<lparr>fs_authed := True\<rparr>,
         [ftp_event s sess ((blank_event AuthSuccess)\<lparr>ev_severity := SevWarn, ev_message := ''FTP login success'', ev_fields := fields\<rparr>),
          Reply 230 ''User logged in.''])
      else
        (sess,
         [ftp_event s sess ((blank_event AuthAttempt)\<lparr>ev_severity := SevNotice, ev_message := ''FTP login failed'', ev_fields := fields\<rparr>),
          Reply 530 ''Login incorrect.'']))"

definition node_at :: "ftp_server \<Rightarrow> string \<Rightarrow> node option" where
  "node_at s path = resolve (fv_tree s) (fv_rootKey s) (toTreePath path)"

definition no_data :: string where
  "no_data = ''Can'' @ [CHR 0x27] @ ''t open data connection.''"

definition handlePasv :: "ftp_server \<Rightarrow> ftp_tick \<Rightarrow> ftp_session \<Rightarrow> ftp_session \<times> ftp_action list" where
  "handlePasv s t sess =
     (let host = (if fc_pasvHost (fv_cfg s) \<noteq> [] then fc_pasvHost (fv_cfg s)
                  else case ft_localIP t of Some ip \<Rightarrow> ip | None \<Rightarrow> ''127.0.0.1'') in
      case ft_listen t of
        None \<Rightarrow> (sess\<lparr>fs_data := False\<rparr>, [Reply 425 no_data])
      | Some port \<Rightarrow>
          let parts = split_on (CHR ''.'') host;
              ip = (if length parts = 4 then parts else [''127'', ''0'', ''0'', ''1'']) in
          (sess\<lparr>fs_data := True\<rparr>,
           [Reply 227 (''Entering Passive Mode ('' @ join_with (CHR '','') (ip @ [itoa (port div 256), itoa (port mod 256)]) @ '').'')]))"

text \<open>\<open>acceptData\<close> closes the listener whether or not the client connected.\<close>

definition acceptData :: "ftp_tick \<Rightarrow> ftp_session \<Rightarrow> ftp_session \<times> bool" where
  "acceptData t sess = (if fs_data sess then (sess\<lparr>fs_data := False\<rparr>, ft_accept t) else (sess, False))"

definition list_line :: "bool \<Rightarrow> node \<Rightarrow> string" where
  "list_line long n = (if long then formatListLine n else ni_name (info n) @ crlf)"

definition handleList :: "ftp_server \<Rightarrow> ftp_tick \<Rightarrow> ftp_session \<Rightarrow> string \<Rightarrow> bool \<Rightarrow> ftp_session \<times> ftp_action list" where
  "handleList s t sess arg long =
     (let target = (if arg \<noteq> [] \<and> hd arg \<noteq> CHR ''-'' then resolvePath (fs_cwd sess) arg else fs_cwd sess) in
      case node_at s target of
        None \<Rightarrow> (sess, [Reply 550 ''Not a directory.''])
      | Some n \<Rightarrow>
          if \<not> ni_dir (info n) then (sess, [Reply 550 ''Not a directory.''])
          else if \<not> fs_data sess then (sess, [Reply 425 ''Use PASV first.''])
          else
            let (sess', ok) = acceptData t sess; op = Reply 150 ''Opening ASCII mode data connection.'' in
            if \<not> ok then (sess', [op, Reply 425 no_data])
            else
              let cs = children (fv_tree s) n; maze = (ni_mazePath (info n) \<noteq> []) in
              (sess',
               [op, DataSent (concat (map (list_line long) cs)),
                ftp_event s sess' ((blank_event (if maze then MazeDescent else Enumeration))
                  \<lparr>ev_severity := SevNotice, ev_message := ''FTP directory listing'',
                   ev_fields := [''path'' \<mapsto> FStr target, ''entries'' \<mapsto> FInt (int (length cs)), ''maze'' \<mapsto> FBool maze]\<rparr>),
                Reply 226 ''Transfer complete.'']))"

definition handleRetr :: "ftp_server \<Rightarrow> ftp_tick \<Rightarrow> ftp_session \<Rightarrow> string \<Rightarrow> ftp_session \<times> ftp_action list" where
  "handleRetr s t sess arg =
     (case node_at s (resolvePath (fs_cwd sess) arg) of
        None \<Rightarrow> (sess, [Reply 550 (arg @ '': The system cannot find the file specified.'')])
      | Some n \<Rightarrow>
          if ni_dir (info n) then (sess, [Reply 550 (arg @ '': The system cannot find the file specified.'')])
          else if \<not> fs_data sess then (sess, [Reply 425 ''Use PASV first.''])
          else
            let (sess', ok) = acceptData t sess;
                op = Reply 150 (''Opening BINARY mode data connection for '' @ base_name arg @ '' ('' @ itoa (node_size n) @ '' bytes).'')
            in if \<not> ok then (sess', [op, Reply 425 no_data])
               else
                 (sess',
                  [op, DataSent (ni_content (info n)),
                   ftp_event s sess' ((blank_event FileDownload)
                     \<lparr>ev_severity := SevNotice, ev_message := ''FTP file download'',
                      ev_fields := [''file'' \<mapsto> FStr arg, ''bytes'' \<mapsto> FInt (int (node_size n))]\<rparr>),
                   Reply 226 ''Transfer complete.'']))"

definition dispatchAuthed ::
  "ftp_server \<Rightarrow> ftp_tick \<Rightarrow> ftp_session \<Rightarrow> string \<Rightarrow> string \<Rightarrow> ftp_session \<times> ftp_action list" where
  "dispatchAuthed s t sess cmd arg =
     (if cmd = ''CWD'' \<or> cmd = ''XCWD'' then
        let target = resolvePath (fs_cwd sess) arg in
        case node_at s target of
          Some n \<Rightarrow>
            if ni_dir (info n) then (sess\<lparr>fs_cwd := target\<rparr>, [Reply 250 (''Directory changed to '' @ target @ ''.'')])
            else (sess, [Reply 550 (arg @ '': The system cannot find the path specified.'')])
        | None \<Rightarrow> (sess, [Reply 550 (arg @ '': The system cannot find the path specified.'')])
      else if cmd = ''CDUP'' then
        let up = resolvePath (fs_cwd sess) ''..''
        in (sess\<lparr>fs_cwd := up\<rparr>, [Reply 250 (''Directory changed to '' @ up @ ''.'')])
      else if cmd = ''PASV'' then handlePasv s t sess
      else if cmd = ''LIST'' then handleList s t sess arg True
      else if cmd = ''NLST'' then handleList s t sess arg False
      else if cmd = ''RETR'' then handleRetr s t sess arg
      else if cmd = ''SIZE'' then
        (sess,
         [case node_at s (resolvePath (fs_cwd sess) arg) of
            Some n \<Rightarrow> if ni_dir (info n) then Reply 550 (arg @ '': not a regular file.'')
                      else Reply 213 (itoa (node_size n))
          | None \<Rightarrow> Reply 550 (arg @ '': not a regular file.'')])
      else if cmd = ''MDTM'' then
        (sess,
         [case node_at s (resolvePath (fs_cwd sess) arg) of
            Some n \<Rightarrow> Reply 213 (mdtm (ni_modified (info n)))
          | None \<Rightarrow> Reply 550 ''not found.''])
      else (sess, [Reply 502 (cmd @ '' not implemented.'')]))"

definition features :: string where
  "features =
     ''211-Features:'' @ crlf @ '' PASV'' @ crlf @ '' UTF8'' @ crlf @ '' SIZE'' @ crlf @ '' MDTM'' @ crlf @ ''211 End'' @ crlf"

text \<open>One command; the Boolean is false when the connection is to close.\<close>

definition ftp_dispatch ::
  "ftp_server \<Rightarrow> ftp_tick \<Rightarrow> ftp_session \<Rightarrow> string \<Rightarrow> string \<Rightarrow> ftp_session \<times> ftp_action list \<times> bool" where
  "ftp_dispatch s t sess cmd arg =
     (if cmd = ''USER'' then
        (sess\<lparr>fs_user := arg, fs_authed := False\<rparr>, [Reply 331 (''Password required for '' @ arg @ ''.'')], True)
      else if cmd = ''PASS'' then let (sess', acts) = handlePass s sess arg in (sess', acts, True)
      else if cmd = ''QUIT'' then (sess, [Reply 221 ''Goodbye.''], False)
      else if cmd = ''SYST'' then (sess, [Reply 215 ''Windows_NT''], True)
      else if cmd = ''FEAT'' then (sess, [Raw features], True)
      else if cmd = ''OPTS'' \<or> cmd = ''NOOP'' then (sess, [Reply 200 ''OK''], True)
      else if cmd = ''TYPE'' then (sess, [Reply 200 (''Type set to '' @ arg @ ''.'')], True)
      else if cmd = ''PWD'' \<or> cmd = ''XPWD'' then
        (sess, [Reply 257 (go_quote (fs_cwd sess) @ '' is current directory.'')], True)
      else if \<not> fs_authed sess then (sess, [Reply 530 ''Not logged in.''], True)
      else let (sess', acts) = dispatchAuthed s t sess cmd arg in (sess', acts, True))"

definition trim_eol :: "string \<Rightarrow> string" where
  "trim_eol line = rev (dropWhile (\<lambda>c. c = CHR 0x0D \<or> c = CHR 0x0A) (rev line))"

text \<open>The command loop over the lines read; it ends with the last of them (a read error or the
  deadline) or when a command closes the connection.\<close>

fun ftp_loop :: "ftp_server \<Rightarrow> ftp_session \<Rightarrow> (string \<times> ftp_tick) list \<Rightarrow> ftp_session \<times> ftp_action list" where
  "ftp_loop s sess [] = (sess, [])"
| "ftp_loop s sess ((line0, t) # rest) =
     (let line = trim_eol line0 in
      if line = [] then ftp_loop s sess rest
      else
        let (cmd, arg) = splitCmd line; (sess', acts, go) = ftp_dispatch s t sess cmd arg in
        if go then let (sess'', more) = ftp_loop s sess' rest in (sess'', acts @ more)
        else (sess', acts))"

definition new_session :: "string \<Rightarrow> ftp_session" where
  "new_session remote = \<lparr>fs_user = [], fs_authed = False, fs_cwd = ''/'', fs_data = False, fs_remote = remote\<rparr>"

definition ftp_handle :: "ftp_server \<Rightarrow> string \<Rightarrow> (string \<times> ftp_tick) list \<Rightarrow> ftp_session \<times> ftp_action list" where
  "ftp_handle s remote lines =
     (let sess = new_session remote; (sess', acts) = ftp_loop s sess lines
      in (sess'\<lparr>fs_data := False\<rparr>,
          ftp_event s sess ((blank_event Connection)\<lparr>ev_message := ''FTP connection opened''\<rparr>) #
          Reply 220 (fc_banner (fv_cfg s)) # acts))"

section \<open>The protocol the server promises\<close>

text \<open>The promise, as an automaton over the actions of one connection: its state tells whether the
  client is logged in and whether a data listener is open.  A login is announced for accepted
  credentials only, a listener opens for a logged-in client only, and a transfer needs both and
  uses the listener up.\<close>

fun ftp_spec :: "ftp_server \<Rightarrow> bool \<times> bool \<Rightarrow> ftp_action \<Rightarrow> (bool \<times> bool) option" where
  "ftp_spec s (a, d) (Audit e) =
     (if ev_type e = AuthSuccess then
        (case (ev_fields e ''username'', ev_fields e ''password'') of
           (Some (FStr u), Some (FStr p)) \<Rightarrow> if login_ok s u p then Some (True, d) else None
         | _ \<Rightarrow> None)
      else Some (a, d))"
| "ftp_spec s (a, d) (Reply code text) =
     (if code = 331 then Some (False, d)
      else if code = 227 then (if a then Some (a, True) else None)
      else if code = 425 then Some (a, False)
      else Some (a, d))"
| "ftp_spec s (a, d) (Raw text) = Some (a, d)"
| "ftp_spec s (a, d) (DataSent bytes) = (if a \<and> d then Some (a, False) else None)"

fun spec_run :: "ftp_server \<Rightarrow> bool \<times> bool \<Rightarrow> ftp_action list \<Rightarrow> (bool \<times> bool) option" where
  "spec_run s st [] = Some st"
| "spec_run s st (a # acts) = (case ftp_spec s st a of None \<Rightarrow> None | Some st' \<Rightarrow> spec_run s st' acts)"

lemma spec_run_append [simp]:
  "spec_run s st (xs @ ys) = (case spec_run s st xs of None \<Rightarrow> None | Some st' \<Rightarrow> spec_run s st' ys)"
  by (induction s st xs rule: spec_run.induct) (auto split: option.split)

abbreviation abs_session :: "ftp_session \<Rightarrow> bool \<times> bool" where
  "abs_session sess \<equiv> (fs_authed sess, fs_data sess)"

abbreviation simulates :: "ftp_server \<Rightarrow> ftp_session \<Rightarrow> ftp_session \<times> ftp_action list \<Rightarrow> bool" where
  "simulates s sess r \<equiv> spec_run s (abs_session sess) (snd r) = Some (abs_session (fst r))"

lemma split_keeps [simp]:
  "ev_type (splitHostPort r e) = ev_type e" "ev_fields (splitHostPort r e) = ev_fields e"
  by (simp_all add: splitHostPort_def split: option.split)

lemma spec_event [simp]:
  "ftp_spec s st (ftp_event s' sess e) = ftp_spec s st (Audit e)"
  by (cases st) (simp add: ftp_event_def)

lemma blank_type [simp]: "ev_type (blank_event t) = t"
  by (simp add: blank_event_def)

lemma handlePass_simulates: "simulates s sess (handlePass s sess pass)"
  by (simp add: handlePass_def Let_def)

lemma handlePasv_simulates: "fs_authed sess \<Longrightarrow> simulates s sess (handlePasv s t sess)"
  by (simp add: handlePasv_def Let_def split: option.split)

lemma handleList_simulates: "fs_authed sess \<Longrightarrow> simulates s sess (handleList s t sess arg long)"
  by (simp add: handleList_def Let_def acceptData_def split: option.split)

lemma handleRetr_simulates: "fs_authed sess \<Longrightarrow> simulates s sess (handleRetr s t sess arg)"
  by (simp add: handleRetr_def Let_def acceptData_def split: option.split)

lemmas handler_simulates = handlePass_simulates handlePasv_simulates handleList_simulates handleRetr_simulates

lemma dispatchAuthed_simulates: "fs_authed sess \<Longrightarrow> simulates s sess (dispatchAuthed s t sess cmd arg)"
  using handler_simulates
  by (simp add: dispatchAuthed_def Let_def split: option.split)

lemma dispatch_simulates:
  "spec_run s (abs_session sess) (fst (snd (ftp_dispatch s t sess cmd arg))) =
   Some (abs_session (fst (ftp_dispatch s t sess cmd arg)))"
  using handlePass_simulates [of s sess arg] dispatchAuthed_simulates [of sess s t cmd arg]
  by (simp add: ftp_dispatch_def Let_def case_prod_beta)

lemma loop_simulates: "simulates s sess (ftp_loop s sess lines)"
proof (induction lines arbitrary: sess)
  case (Cons l rest)
  obtain line0 t where l: "l = (line0, t)" by (cases l)
  obtain cmd arg where c: "splitCmd (trim_eol line0) = (cmd, arg)" by fastforce
  obtain sess' acts go where d: "ftp_dispatch s t sess cmd arg = (sess', acts, go)"
    by (cases "ftp_dispatch s t sess cmd arg")
  show ?case
    using Cons.IH [of sess] Cons.IH [of sess'] dispatch_simulates [of s sess t cmd arg]
    by (auto simp: l c d Let_def split: prod.split)
qed simp

text \<open>C25. The FTP server refines its protocol: the actions of any control connection, for any lines
  the client sends and whatever happens to its data connections, are a run of the automaton, and
  the session's own flags are the automaton's state at every end of the loop.\<close>

theorem ftp_refines_protocol:
  "spec_run s (False, False) (snd (ftp_handle s remote lines)) =
   Some (abs_session (fst (ftp_loop s (new_session remote) lines)))"
proof -
  have "abs_session (new_session remote) = (False, False)"
    by (simp add: new_session_def)
  then show ?thesis
    using loop_simulates [of s "new_session remote" lines]
    by (cases "ftp_loop s (new_session remote) lines") (simp add: ftp_handle_def Let_def)
qed

section \<open>Paths and the current directory\<close>

lemma split_on_sep: "split_on sep (a @ sep # s) = split_on sep a @ split_on sep s"
proof (induction a)
  case (Cons c a)
  then show ?case by (cases "split_on sep a") auto
qed simp

lemma clean_comps_append [simp]: "clean_comps r acc (xs @ ys) = clean_comps r (clean_comps r acc xs) ys"
  by (induction r acc xs rule: clean_comps.induct) auto

text \<open>A component that names an entry, and the absolute path of a list of them.\<close>

definition good_comp :: "string \<Rightarrow> bool" where
  "good_comp c \<longleftrightarrow> c \<noteq> [] \<and> c \<noteq> ''.'' \<and> c \<noteq> ''..'' \<and> (\<forall>x \<in> set c. \<not> is_sep x)"

definition slashed :: "string list \<Rightarrow> string" where
  "slashed cs = CHR ''/'' # join_with (CHR ''/'') cs"

lemma good_no_slash: "good_comp c \<Longrightarrow> CHR ''/'' \<notin> set c"
  by (auto simp: good_comp_def is_sep_def)

lemma clean_good: "\<forall>c \<in> set cs. good_comp c \<Longrightarrow> clean_comps r acc cs = rev cs @ acc"
  by (induction cs arbitrary: acc) (auto simp: good_comp_def)

lemma clean_is_good:
  assumes "\<forall>c \<in> set acc. good_comp c" "\<forall>c \<in> set cs. \<forall>x \<in> set c. \<not> is_sep x"
  shows "\<forall>c \<in> set (clean_comps True acc cs). good_comp c"
  using assms
proof (induction cs arbitrary: acc)
  case (Cons c cs)
  have tl: "\<forall>x \<in> set (tl acc). good_comp x"
    using Cons.prems(1) by (cases acc) auto
  have sep: "\<forall>c \<in> set cs. \<forall>x \<in> set c. \<not> is_sep x"
    using Cons.prems(2) by simp
  consider "c = [] \<or> c = ''.''" | "c = ''..''" "acc \<noteq> [] \<and> hd acc \<noteq> ''..''"
    | "c = ''..''" "\<not> (acc \<noteq> [] \<and> hd acc \<noteq> ''..'')" | "c \<noteq> []" "c \<noteq> ''.''" "c \<noteq> ''..''"
    by blast
  then show ?case
  proof cases
    case 4
    then have "\<forall>x \<in> set (c # acc). good_comp x"
      using Cons.prems by (simp add: good_comp_def)
    from Cons.IH [OF this sep] 4 show ?thesis by simp
  qed (simp_all add: Cons.IH [OF Cons.prems(1) sep] Cons.IH [OF tl sep])
qed simp

lemma split_slashed:
  "\<forall>c \<in> set cs. good_comp c \<Longrightarrow> split_on (CHR ''/'') (slashed cs) = [] # (if cs = [] then [[]] else cs)"
  by (auto simp: slashed_def split_join good_no_slash)

lemma clean_slashed:
  assumes "\<forall>c \<in> set cs. good_comp c"
  shows "clean_comps True [] (split_on (CHR ''/'') (slashed cs)) = rev cs"
  using assms by (simp add: split_slashed clean_good)

lemma split_no_sep:
  assumes "backslash_char \<notin> set s"
  shows "\<forall>c \<in> set (split_on (CHR ''/'') s). \<forall>x \<in> set c. \<not> is_sep x"
proof (intro ballI)
  fix c x assume c: "c \<in> set (split_on (CHR ''/'') s)" and x: "x \<in> set c"
  have "set c \<subseteq> set s"
    using c
  proof (induction s arbitrary: c)
    case (Cons a s)
    then show ?case by (cases "split_on (CHR ''/'') s") (fastforce split: if_splits)+
  qed simp
  then show "\<not> is_sep x"
    using assms x split_on_free [OF c] by (auto simp: is_sep_def)
qed

lemma replace_backslash: "backslash_char \<notin> set (replace_char s backslash_char (CHR ''/''))"
  by (induction s) (auto simp: replace_char_def backslash_char_def)

definition path_comps :: "string list \<Rightarrow> string \<Rightarrow> string list" where
  "path_comps cs arg0 =
     (let arg = replace_char arg0 backslash_char (CHR ''/'')
      in rev (clean_comps True (if arg \<noteq> [] \<and> hd arg = CHR ''/'' then [] else rev cs) (split_on (CHR ''/'') arg)))"

lemma path_clean_rooted:
  "path_clean (CHR ''/'' # p) = slashed (rev (clean_comps True [] (split_on (CHR ''/'') (CHR ''/'' # p))))"
  by (simp add: path_clean_def slashed_def Let_def)

lemma slashed_not [simp]: "slashed cs \<noteq> ''.''" "slashed cs \<noteq> []"
  by (simp_all add: slashed_def)

lemma resolvePath_comps:
  assumes "\<forall>c \<in> set cs. good_comp c"
  shows "resolvePath (slashed cs) arg = slashed (path_comps cs arg)"
    and "\<forall>c \<in> set (path_comps cs arg). good_comp c"
proof -
  define a where "a = replace_char arg backslash_char (CHR ''/'')"
  have sep: "\<forall>c \<in> set (split_on (CHR ''/'') a). \<forall>x \<in> set c. \<not> is_sep x"
    unfolding a_def by (rule split_no_sep [OF replace_backslash])
  show "\<forall>c \<in> set (path_comps cs arg). good_comp c"
    using clean_is_good [OF _ sep, of "rev cs"] clean_is_good [OF _ sep, of "[]"] assms
    by (simp add: path_comps_def a_def [symmetric] Let_def)
  show "resolvePath (slashed cs) arg = slashed (path_comps cs arg)"
  proof (cases "a \<noteq> [] \<and> hd a = CHR ''/''")
    case True
    then obtain p where "a = CHR ''/'' # p" by (cases a) auto
    then show ?thesis
      by (simp add: resolvePath_def path_comps_def a_def [symmetric] Let_def path_clean_rooted)
  next
    case False
    have "path_clean (slashed cs @ CHR ''/'' # a) = slashed (rev (clean_comps True (rev cs) (split_on (CHR ''/'') a)))"
      using path_clean_rooted [of "join_with (CHR ''/'') cs @ CHR ''/'' # a"] clean_slashed [OF assms]
        split_on_sep [of "CHR ''/''" "slashed cs" a]
      by (simp add: slashed_def del: split_on.simps)
    with False show ?thesis
      by (auto simp: resolvePath_def path_comps_def a_def [symmetric] Let_def)
  qed
qed

lemma fields_append_sep:
  assumes "\<forall>x \<in> set c. \<not> P x" "c \<noteq> []" "P y"
  shows "fields_func P (c @ y # s) = c # fields_func P s" "fields_func P c = [c]"
proof -
  obtain d ds where c: "c = d # ds" using assms(2) by (cases c) auto
  have "takeWhile (\<lambda>x. \<not> P x) (ds @ y # s) = ds" "dropWhile (\<lambda>x. \<not> P x) (ds @ y # s) = y # s"
    "takeWhile (\<lambda>x. \<not> P x) ds = ds" "dropWhile (\<lambda>x. \<not> P x) ds = []"
    using assms by (auto simp: c takeWhile_append dropWhile_append dropWhile_eq_Nil_conv)
  then show "fields_func P (c @ y # s) = c # fields_func P s" "fields_func P c = [c]"
    using assms(1,3) by (simp_all add: c dropWhile_eq_Nil_conv [THEN iffD2])
qed

lemma fields_join: "\<forall>c \<in> set cs. good_comp c \<Longrightarrow> fields_func is_sep (join_with (CHR ''/'') cs) = cs"
proof (induction "CHR ''/''" cs rule: join_with.induct)
  case (2 c)
  then show ?case
    using fields_append_sep(2) [of c is_sep "CHR ''/''"] by (simp add: good_comp_def is_sep_def)
next
  case (3 c d ds)
  then show ?case
    using fields_append_sep(1) [of c is_sep "CHR ''/''"] by (simp add: good_comp_def is_sep_def)
qed simp

lemma node_at_slashed:
  assumes "\<forall>c \<in> set cs. good_comp c"
  shows "node_at s (slashed cs) =
    (case tr_roots (fv_tree s) (to_upper (fv_rootKey s)) of None \<Rightarrow> None | Some r \<Rightarrow> walk (fv_tree s) r cs)"
  by (simp add: fields_join [OF assms] node_at_def resolve_walk toTreePath_def slashed_def cong: option.case_cong)

lemma walk_append: "walk t r (xs @ ys) = (case walk t r xs of None \<Rightarrow> None | Some n \<Rightarrow> walk t n ys)"
  by (induction t r xs rule: walk.induct) (auto split: option.split)

definition cwd_ok :: "ftp_server \<Rightarrow> string \<Rightarrow> bool" where
  "cwd_ok s cwd \<longleftrightarrow> (\<exists>cs. (\<forall>c \<in> set cs. good_comp c) \<and> cwd = slashed cs \<and> node_at s cwd \<noteq> None)"

lemma handlers_keep_cwd [simp]:
  "fs_cwd (fst (handlePass s sess p)) = fs_cwd sess"
  "fs_cwd (fst (handlePasv s t sess)) = fs_cwd sess"
  "fs_cwd (fst (handleList s t sess arg long)) = fs_cwd sess"
  "fs_cwd (fst (handleRetr s t sess arg)) = fs_cwd sess"
  by (simp_all add: handlePass_def handlePasv_def handleList_def handleRetr_def acceptData_def Let_def
      split: option.split)

lemma path_comps_up: "\<forall>c \<in> set cs. good_comp c \<Longrightarrow> path_comps cs ''..'' = butlast cs"
  by (cases cs rule: rev_cases) (auto simp: path_comps_def replace_char_def backslash_char_def good_comp_def)

lemma parent_exists:
  assumes good: "\<forall>c \<in> set cs. good_comp c" and n: "node_at s (slashed cs) \<noteq> None"
  shows "node_at s (slashed (butlast cs)) \<noteq> None"
proof (cases cs rule: rev_cases)
  case (snoc ds d)
  then have "\<forall>c \<in> set ds. good_comp c" using good by simp
  then show ?thesis
    using n unfolding node_at_slashed [OF good]
    by (simp add: snoc walk_append node_at_slashed split: option.splits)
qed (use n in simp)

lemma cwd_okI: "\<forall>c \<in> set cs. good_comp c \<Longrightarrow> node_at s (slashed cs) \<noteq> None \<Longrightarrow> cwd_ok s (slashed cs)"
  unfolding cwd_ok_def by blast

lemma cwd_okE:
  assumes "cwd_ok s cwd"
  obtains cs where "\<forall>c \<in> set cs. good_comp c" "cwd = slashed cs" "node_at s (slashed cs) \<noteq> None"
  using assms unfolding cwd_ok_def by blast

lemma cwd_ok_up: "cwd_ok s cwd \<Longrightarrow> cwd_ok s (resolvePath cwd ''..'')"
proof (erule cwd_okE)
  fix cs assume cs: "\<forall>c \<in> set cs. good_comp c" "cwd = slashed cs" "node_at s (slashed cs) \<noteq> None"
  have "\<forall>c \<in> set (butlast cs). good_comp c"
    using cs(1) by (blast dest: in_set_butlastD)
  then show "cwd_ok s (resolvePath cwd ''..'')"
    unfolding cs(2) resolvePath_comps(1) [OF cs(1)] path_comps_up [OF cs(1)]
    by (rule cwd_okI [OF _ parent_exists [OF cs(1,3)]])
qed

lemma cwd_ok_down: "cwd_ok s cwd \<Longrightarrow> node_at s (resolvePath cwd arg) = Some n \<Longrightarrow> cwd_ok s (resolvePath cwd arg)"
proof (erule cwd_okE)
  fix cs assume cs: "\<forall>c \<in> set cs. good_comp c" "cwd = slashed cs"
    and n: "node_at s (resolvePath cwd arg) = Some n"
  show "cwd_ok s (resolvePath cwd arg)"
    using n unfolding cs(2) resolvePath_comps(1) [OF cs(1)]
    by (intro cwd_okI resolvePath_comps(2) [OF cs(1)]) simp
qed

lemma dispatchAuthed_cwd: "cwd_ok s (fs_cwd sess) \<Longrightarrow> cwd_ok s (fs_cwd (fst (dispatchAuthed s t sess cmd arg)))"
  by (simp add: dispatchAuthed_def Let_def cwd_ok_up cwd_ok_down split: option.split)

lemma dispatch_cwd: "cwd_ok s (fs_cwd sess) \<Longrightarrow> cwd_ok s (fs_cwd (fst (ftp_dispatch s t sess cmd arg)))"
  using dispatchAuthed_cwd [of s sess t cmd arg] by (simp add: ftp_dispatch_def Let_def case_prod_beta)

lemma loop_cwd: "cwd_ok s (fs_cwd sess) \<Longrightarrow> cwd_ok s (fs_cwd (fst (ftp_loop s sess lines)))"
proof (induction lines arbitrary: sess)
  case (Cons l rest)
  obtain line0 t where l: "l = (line0, t)" by (cases l)
  obtain cmd arg where c: "splitCmd (trim_eol line0) = (cmd, arg)" by fastforce
  obtain sess' acts go where d: "ftp_dispatch s t sess cmd arg = (sess', acts, go)"
    by (cases "ftp_dispatch s t sess cmd arg")
  have "cwd_ok s (fs_cwd sess')"
    using dispatch_cwd [OF Cons.prems, of t cmd arg] by (simp add: d)
  then show ?case
    using Cons.IH Cons.prems by (simp add: l c d Let_def case_prod_beta)
qed simp

text \<open>C39. The current directory of a session is always an absolute, normalized path of components
  that are neither empty nor dots nor contain a separator, and it always names an entry of the
  tree: no sequence of commands, however its paths are written, leaves the served root.\<close>

theorem cwd_stays_in_tree:
  assumes "tr_roots (fv_tree s) (to_upper (fv_rootKey s)) \<noteq> None"
  shows "cwd_ok s (fs_cwd (fst (ftp_handle s remote lines)))"
proof -
  have "cwd_ok s (slashed [])"
    using assms by (auto simp: cwd_ok_def node_at_slashed intro: exI [of _ "[]"])
  then have "cwd_ok s (fs_cwd (new_session remote))"
    by (simp add: new_session_def slashed_def)
  from loop_cwd [OF this] show ?thesis
    by (simp add: ftp_handle_def Let_def case_prod_beta)
qed

section \<open>What is listed can be fetched\<close>

lemma find_unique: "c \<in> set xs \<Longrightarrow> P c \<Longrightarrow> (\<And>d. d \<in> set xs \<Longrightarrow> P d \<Longrightarrow> d = c) \<Longrightarrow> find P xs = Some c"
proof (induction xs)
  case (Cons x xs)
  show ?case
  proof (cases "P x")
    case True
    have "x = c" by (rule Cons.prems(3) [OF _ True]) simp
    with True show ?thesis by simp
  next
    case False
    with Cons.prems(1,2) have "c \<in> set xs" by auto
    from Cons.IH [OF this Cons.prems(2) Cons.prems(3)] have "find P xs = Some c" by simp
    with False show ?thesis by simp
  qed
qed simp

lemma replace_absent: "a \<notin> set s \<Longrightarrow> replace_char s a b = s"
  by (induction s) (auto simp: replace_char_def)

lemma path_comps_name:
  assumes "good_comp nm"
  shows "path_comps cs nm = cs @ [nm]"
proof -
  have n: "backslash_char \<notin> set nm" "CHR ''/'' \<notin> set nm"
    using assms by (auto simp: good_comp_def is_sep_def)
  have hd: "\<not> (nm \<noteq> [] \<and> hd nm = CHR ''/'')"
    using n(2) by (cases nm) auto
  have "clean_comps True (rev cs) [nm] = nm # rev cs"
    using assms clean_good [of "[nm]"] by simp
  then show ?thesis
    unfolding path_comps_def Let_def replace_absent [OF n(1)] if_not_P [OF hd] split_on_plain [OF n(2)] by simp
qed

lemma listed_resolves:
  assumes cs: "\<forall>c \<in> set cs. good_comp c" and n: "node_at s (slashed cs) = Some n"
    and c: "c \<in> set (children (fv_tree s) n)" "good_comp (ni_name (info c))"
    and d: "distinct (map (\<lambda>c. to_lower (ni_name (info c))) (children (fv_tree s) n))"
  shows "node_at s (resolvePath (slashed cs) (ni_name (info c))) = Some c"
proof -
  let ?nm = "ni_name (info c)"
  have p: "resolvePath (slashed cs) ?nm = slashed (cs @ [?nm])"
    using resolvePath_comps(1) [OF cs, of ?nm] path_comps_name [OF c(2)] by simp
  have "findChild (fv_tree s) n ?nm = Some c"
    unfolding findChild_children
  proof (rule find_unique [OF c(1)])
    fix e assume e: "e \<in> set (children (fv_tree s) n)" "equal_fold (ni_name (info e)) ?nm"
    have "inj_on (\<lambda>c. to_lower (ni_name (info c))) (set (children (fv_tree s) n))"
      using d by (simp add: distinct_map)
    from inj_onD [OF this _ e(1) c(1)] show "e = c"
      using e(2) by (simp add: equal_fold_def)
  qed simp
  moreover have all: "\<forall>c \<in> set (cs @ [?nm]). good_comp c"
    using cs c(2) by simp
  ultimately show ?thesis
    using n c(2) unfolding p node_at_slashed [OF cs] node_at_slashed [OF all]
    by (auto simp: walk_append good_comp_def split: option.splits)
qed

text \<open>C35. Whatever a directory listing shows can be fetched: a listed file, asked for by its name in
  the directory it was listed in, is sent with exactly its content, and \<open>SIZE\<close> announced its
  length.\<close>

theorem listed_file_downloads:
  assumes "cwd_ok s (fs_cwd sess)" "node_at s (fs_cwd sess) = Some n"
    and "c \<in> set (children (fv_tree s) n)" "good_comp (ni_name (info c))" "\<not> ni_dir (info c)"
    and "distinct (map (\<lambda>c. to_lower (ni_name (info c))) (children (fv_tree s) n))"
    and "fs_data sess" "ft_accept t"
  shows "DataSent (ni_content (info c)) \<in> set (snd (dispatchAuthed s t sess ''RETR'' (ni_name (info c)))) \<and>
    snd (dispatchAuthed s t sess ''SIZE'' (ni_name (info c))) = [Reply 213 (itoa (length (ni_content (info c))))]"
proof -
  obtain cs where cs: "\<forall>c \<in> set cs. good_comp c" "fs_cwd sess = slashed cs"
    using assms(1) by (auto simp: cwd_ok_def)
  then have r: "node_at s (resolvePath (fs_cwd sess) (ni_name (info c))) = Some c"
    using listed_resolves [of cs s n c] assms(2-4,6) by simp
  then have "DataSent (ni_content (info c)) \<in> set (snd (dispatchAuthed s t sess ''RETR'' (ni_name (info c))))"
    using assms(5,7,8) by (simp add: dispatchAuthed_def handleRetr_def acceptData_def Let_def)
  then show ?thesis
    using r assms(5) by (simp add: dispatchAuthed_def node_size_def)
qed

section \<open>Witnesses\<close>

definition notes_file :: node where
  "notes_file = fileNode ''notes.txt'' (Some ''hello'') False False True"

definition example_ftp :: ftp_server where
  "example_ftp =
     \<lparr>fv_cfg = \<lparr>fc_port = 21, fc_banner = ''Microsoft FTP Service'', fc_osName = ''Windows_NT'', fc_tree = None,
        fc_filesystem = None, fc_rootShare = ''C$'', fc_configDir = [], fc_allowAnonymous = True,
        fc_credStore = None, fc_acceptCredentials = [], fc_pasvHost = []\<rparr>,
      fv_tree = \<lparr>tr_roots = [''C$'' \<mapsto> dirNode [] [notes_file]], tr_maze = defaultMazeConfig\<rparr>,
      fv_rootKey = ''C$'', fv_creds = Map.empty\<rparr>"

abbreviation example_ftick :: ftp_tick where
  "example_ftick \<equiv> \<lparr>ft_localIP = Some ''10.0.0.5'', ft_listen = Some 50000, ft_accept = True\<rparr>"

lemma example_ftp_root: "tr_roots (fv_tree example_ftp) (to_upper (fv_rootKey example_ftp)) = Some (dirNode [] [notes_file])"
proof -
  have "to_upper ''C$'' = ''C$''" by code_simp
  then show ?thesis by (simp add: example_ftp_def)
qed

lemma notes_sel: "ni_name (info notes_file) = ''notes.txt''" "\<not> ni_dir (info notes_file)"
  "ni_content (info notes_file) = ''hello''"
  by (simp_all add: notes_file_def fileNode_def split: prod.split)

theorem cwd_stays_in_tree_witness:
  "cwd_ok example_ftp (fs_cwd (fst (ftp_handle example_ftp ''192.0.2.7:4000''
     [(''USER anonymous'', example_ftick), (''PASS x'', example_ftick), (''CWD ../../etc'', example_ftick),
      (''CDUP'', example_ftick)])))"
  by (rule cwd_stays_in_tree) (simp add: example_ftp_root)

theorem listed_file_downloads_witness:
  "DataSent ''hello'' \<in> set (snd (dispatchAuthed example_ftp example_ftick
     ((new_session ''192.0.2.7:4000'')\<lparr>fs_authed := True, fs_data := True\<rparr>) ''RETR'' ''notes.txt''))"
proof -
  let ?s = "(new_session ''192.0.2.7:4000'')\<lparr>fs_authed := True, fs_data := True\<rparr>"
  have root: "fs_cwd ?s = slashed []" "node_at example_ftp (slashed []) = Some (dirNode [] [notes_file])"
    by (simp_all add: new_session_def slashed_def node_at_slashed [of "[]", unfolded slashed_def, simplified] example_ftp_root)
  have ok: "cwd_ok example_ftp (fs_cwd ?s)"
    unfolding root(1) by (rule cwd_okI) (simp_all add: root)
  have "good_comp (ni_name (info notes_file))"
    unfolding notes_sel by (simp add: good_comp_def is_sep_def backslash_char_def)
  from listed_file_downloads [OF ok _ _ this notes_sel(2), of "dirNode [] [notes_file]" example_ftick]
  show ?thesis
    using root(2) by (simp add: root(1) children_def notes_sel)
qed

end
