(* ===== verification/Go_Utf16.thy ===== *)
theory Go_Utf16
  imports Go_Bytes
begin

unbundle bit_operations_syntax

text \<open>
  Little-endian loads of \<open>encoding/binary\<close>, a sequence of stores into a fresh buffer, and the text
  conversions \<open>[]rune(s)\<close>, \<open>string(runes)\<close> and those of \<open>unicode/utf16\<close>.
\<close>

section \<open>Little-endian loads and stores\<close>

definition dec_le :: "bytes \<Rightarrow> 'a::len word" where
  "dec_le bs = foldr (\<lambda>b acc. push_bit 8 acc OR ucast b) bs 0"

abbreviation le16 :: "bytes \<Rightarrow> nat \<Rightarrow> u16" where "le16 b i \<equiv> dec_le (take 2 (drop i b))"
abbreviation le32 :: "bytes \<Rightarrow> nat \<Rightarrow> u32" where "le32 b i \<equiv> dec_le (take 4 (drop i b))"
abbreviation le64 :: "bytes \<Rightarrow> nat \<Rightarrow> u64" where "le64 b i \<equiv> dec_le (take 8 (drop i b))"

text \<open>The stores \<open>copy(b[i:], xs)\<close> and \<open>PutUintN(b[i:], v)\<close> of a list, in order; every slice exists.\<close>

definition stores :: "bytes \<Rightarrow> (nat \<times> bytes) list \<Rightarrow> bytes" where
  "stores b ws = foldl (\<lambda>b (i, xs). overwrite b i xs) b ws"

definition zeros :: "nat \<Rightarrow> bytes" where "zeros n = replicate n 0"

lemma dec_le_Nil [simp]: "dec_le [] = 0"
  by (simp add: dec_le_def)

lemma dec_le_Cons: "dec_le (b # bs) = push_bit 8 (dec_le bs) OR ucast b"
  by (simp add: dec_le_def)

lemma bit_dec_le:
  "bit (dec_le bs :: 'a::len word) i \<longleftrightarrow> i < LENGTH('a) \<and> i div 8 < length bs \<and> bit (bs ! (i div 8)) (i mod 8)"
proof (induction bs arbitrary: i)
  case (Cons b bs)
  show ?case
  proof (cases "i < 8")
    case True
    then show ?thesis
      by (auto simp: dec_le_Cons bit_simps dest: bit_imp_le_length)
  next
    case False
    then obtain j where j: "i = j + 8" by (metis add.commute le_add_diff_inverse not_less)
    have "\<not> bit b (j + 8)"
      by (auto dest: bit_imp_le_length)
    moreover have "(j + 8) div 8 = Suc (j div 8)" "(j + 8) mod 8 = j mod 8"
      by simp_all
    ultimately show ?thesis
      using Cons.IH [of j] by (auto simp: j dec_le_Cons bit_simps)
  qed
qed simp

lemma dec_enc_le [simp]:
  assumes "LENGTH('a::len) \<le> 8 * n"
  shows "dec_le (enc_le n (v :: 'a word)) = v"
proof (rule bit_word_eqI)
  fix i assume "i < LENGTH('a)"
  then have "i div 8 < n" "i mod 8 < 8" using assms by auto
  then show "bit (dec_le (enc_le n v) :: 'a word) i = bit v i"
    using \<open>i < LENGTH('a)\<close>
    by (simp add: bit_dec_le enc_le_def bit_simps mult_div_mod_eq)
qed

lemma enc_le_simps [simp]:
  "enc_le 1 v = [ucast v]" "enc_le 2 v = [ucast v, ucast (drop_bit 8 v)]"
  "enc_le 4 v = [ucast v, ucast (drop_bit 8 v), ucast (drop_bit 16 v), ucast (drop_bit 24 v)]"
  by (simp_all add: enc_le_def upt_conv_Cons)

declare enc_le_simps [simp del]

lemma stores_simps [simp]: "stores b [] = b" "stores b ((i, xs) # ws) = stores (overwrite b i xs) ws"
  by (simp_all add: stores_def)

lemma length_zeros [simp]: "length (zeros n) = n"
  by (simp add: zeros_def)

text \<open>Reading back one of the stores: it was not overlapped by a later one.\<close>

fun fits :: "nat \<Rightarrow> (nat \<times> bytes) list \<Rightarrow> bool" where
  "fits l [] = True"
| "fits l ((i, xs) # ws) = (i + length xs \<le> l \<and> fits l ws)"

fun untouched :: "nat \<Rightarrow> nat \<Rightarrow> (nat \<times> bytes) list \<Rightarrow> bool" where
  "untouched n k [] = True"
| "untouched n k ((i, xs) # ws) = ((n + k \<le> i \<or> i + length xs \<le> n) \<and> untouched n k ws)"

fun stored :: "nat \<Rightarrow> nat \<Rightarrow> (nat \<times> bytes) list \<Rightarrow> bytes option" where
  "stored n k [] = None"
| "stored n k ((i, xs) # ws) =
     (if i = n \<and> length xs = k \<and> untouched n k ws then Some xs else stored n k ws)"

lemma length_stores [simp]: "fits (length b) ws \<Longrightarrow> length (stores b ws) = length b"
  by (induction "length b" ws arbitrary: b rule: fits.induct) auto

lemma read_untouched:
  "fits (length b) ws \<Longrightarrow> untouched n k ws \<Longrightarrow> take k (drop n (stores b ws)) = take k (drop n b)"
  by (induction "length b" ws arbitrary: b rule: fits.induct) (auto simp: take_drop_overwrite_out)

lemma read_stored:
  "fits (length b) ws \<Longrightarrow> stored n k ws = Some xs \<Longrightarrow> take k (drop n (stores b ws)) = xs"
proof (induction "length b" ws arbitrary: b rule: fits.induct)
  case (2 i ys ws)
  then show ?case
    by (auto simp: read_untouched take_drop_overwrite_in split: if_splits)
qed simp

section \<open>Text\<close>

definition is_cont :: "nat \<Rightarrow> bool" where "is_cont c \<longleftrightarrow> 0x80 \<le> c \<and> c < 0xC0"

text \<open>The rune that a multi-byte sequence starting with \<open>b\<close> encodes, with the number of bytes it
  takes beyond the first; None when the sequence is not well-formed.\<close>

definition utf8_seq :: "nat \<Rightarrow> nat list \<Rightarrow> (nat \<times> nat) option" where
  "utf8_seq b bs =
     (if 0xC2 \<le> b \<and> b < 0xE0 then
        (case bs of
           c # _ \<Rightarrow> if is_cont c then Some ((b - 0xC0) * 64 + (c - 0x80), 1) else None
         | _ \<Rightarrow> None)
      else if 0xE0 \<le> b \<and> b < 0xF0 then
        (case bs of
           c # d # _ \<Rightarrow>
             if is_cont c \<and> is_cont d \<and> (b = 0xE0 \<longrightarrow> 0xA0 \<le> c) \<and> (b = 0xED \<longrightarrow> c < 0xA0)
             then Some ((b - 0xE0) * 4096 + (c - 0x80) * 64 + (d - 0x80), 2) else None
         | _ \<Rightarrow> None)
      else if 0xF0 \<le> b \<and> b < 0xF5 then
        (case bs of
           c # d # e # _ \<Rightarrow>
             if is_cont c \<and> is_cont d \<and> is_cont e \<and> (b = 0xF0 \<longrightarrow> 0x90 \<le> c) \<and> (b = 0xF4 \<longrightarrow> c < 0x90)
             then Some ((b - 0xF0) * 262144 + (c - 0x80) * 4096 + (d - 0x80) * 64 + (e - 0x80), 3) else None
         | _ \<Rightarrow> None)
      else None)"

function runes_of :: "nat list \<Rightarrow> nat list" where
  "runes_of [] = []"
| "runes_of (b # bs) =
     (if b < 0x80 then b # runes_of bs
      else case utf8_seq b bs of
             Some (r, n) \<Rightarrow> r # runes_of (drop n bs)
           | None \<Rightarrow> 0xFFFD # runes_of bs)"
  by pat_completeness auto
termination
  by (relation "measure length") auto

definition runes :: "string \<Rightarrow> nat list" where
  "runes s = runes_of (map of_char s)"

definition utf8_rune :: "nat \<Rightarrow> nat list" where
  "utf8_rune r =
     (if r < 0x80 then [r]
      else if r < 0x800 then [0xC0 + r div 64, 0x80 + r mod 64]
      else if 0x10FFFF < r \<or> (0xD800 \<le> r \<and> r < 0xE000) then [0xEF, 0xBF, 0xBD]
      else if r < 0x10000 then [0xE0 + r div 4096, 0x80 + r div 64 mod 64, 0x80 + r mod 64]
      else [0xF0 + r div 262144, 0x80 + r div 4096 mod 64, 0x80 + r div 64 mod 64, 0x80 + r mod 64])"

definition string_of_runes :: "nat list \<Rightarrow> string" where
  "string_of_runes rs = concat (map (map char_of \<circ> utf8_rune) rs)"

definition utf16_rune :: "nat \<Rightarrow> u16 list" where
  "utf16_rune r =
     (if r < 0xD800 \<or> (0xE000 \<le> r \<and> r < 0x10000) then [of_nat r]
      else if 0x10000 \<le> r \<and> r \<le> 0x10FFFF then
        [of_nat (0xD800 + (r - 0x10000) div 1024), of_nat (0xDC00 + (r - 0x10000) mod 1024)]
      else [0xFFFD])"

definition utf16_encode :: "nat list \<Rightarrow> u16 list" where
  "utf16_encode rs = concat (map utf16_rune rs)"

fun utf16_decode :: "u16 list \<Rightarrow> nat list" where
  "utf16_decode [] = []"
| "utf16_decode (u # us) =
     (let r = unat u in
      if r < 0xD800 \<or> 0xE000 \<le> r then r # utf16_decode us
      else case us of
             [] \<Rightarrow> [0xFFFD]
           | v # vs \<Rightarrow>
               let q = unat v in
               if r < 0xDC00 \<and> 0xDC00 \<le> q \<and> q < 0xE000
               then (0x10000 + (r - 0xD800) * 1024 + (q - 0xDC00)) # utf16_decode vs
               else 0xFFFD # utf16_decode us)"

text \<open>The 16-bit words of a buffer; an odd last byte is not read.\<close>

fun words16 :: "bytes \<Rightarrow> u16 list" where
  "words16 (a # b # bs) = dec_le [a, b] # words16 bs"
| "words16 _ = []"

definition utf16LE :: "string \<Rightarrow> bytes" where
  "utf16LE s = concat (map (enc_le 2) (utf16_encode (runes s)))"

definition utf16_string :: "bytes \<Rightarrow> string" where
  "utf16_string raw = string_of_runes (utf16_decode (words16 raw))"

section \<open>Lemmas on text\<close>

definition ascii :: "string \<Rightarrow> bool" where
  "ascii s \<longleftrightarrow> (\<forall>c \<in> set s. (of_char c :: nat) < 128)"

lemma ascii_simps [simp]: "ascii []" "ascii (c # s) \<longleftrightarrow> (of_char c :: nat) < 128 \<and> ascii s"
  "ascii (s @ t) \<longleftrightarrow> ascii s \<and> ascii t"
  by (auto simp: ascii_def)

lemma runes_ascii: "ascii s \<Longrightarrow> runes s = map of_char s"
  unfolding runes_def by (induction s) auto

lemma utf16_encode_small: "\<forall>r \<in> set rs. r < 0xD800 \<Longrightarrow> utf16_encode rs = map of_nat rs"
  by (induction rs) (auto simp: utf16_encode_def utf16_rune_def)

lemma utf16_decode_small: "\<forall>u \<in> set us. unat u < 0xD800 \<Longrightarrow> utf16_decode us = map unat us"
  by (induction us) auto

lemma words16_enc [simp]: "words16 (enc_le 2 v @ bs) = v # words16 bs"
proof -
  have "dec_le (enc_le 2 v) = v" by simp
  then show ?thesis by (simp add: enc_le_simps)
qed

lemma words16_concat [simp]: "words16 (concat (map (enc_le 2) us)) = us"
  by (induction us) auto

lemma string_of_runes_ascii: "ascii s \<Longrightarrow> string_of_runes (map of_char s) = s"
  by (induction s) (auto simp: string_of_runes_def utf8_rune_def)

lemma utf16_encode_ascii: "ascii s \<Longrightarrow> utf16_encode (runes s) = map (\<lambda>c. of_nat (of_char c)) s"
  by (subst utf16_encode_small) (auto simp: runes_ascii ascii_def dest: order.strict_trans)

lemma length_utf16LE_ascii: "ascii s \<Longrightarrow> length (utf16LE s) = 2 * length s"
  by (simp add: utf16LE_def utf16_encode_ascii length_concat o_def sum_list_triv)

lemma utf16_roundtrip: "ascii s \<Longrightarrow> utf16_string (utf16LE s) = s"
proof -
  assume s: "ascii s"
  have u: "unat (of_nat (of_char c) :: u16) = of_char c" for c
    by (simp add: unat_of_nat order.strict_trans [OF of_char_less])
  have "utf16_decode (map (\<lambda>c. of_nat (of_char c)) s) = map of_char s"
    by (subst utf16_decode_small) (auto simp: u order.strict_trans [OF of_char_less])
  then show ?thesis
    by (simp add: utf16_string_def utf16LE_def utf16_encode_ascii s string_of_runes_ascii del: map_map)
qed

end
