(* ===== verification/Smb_Proto.thy ===== *)
theory Smb_Proto
  imports Go_Utf16 Go_Path
begin

text \<open>
  The framing of the SMB honeypot: the NetBIOS session handshake of port 139
  (\<open>internal/honeypot/smb/nbss.go\<close>) and the SMB2 header, packets and frames of \<open>proto.go\<close>.  A
  connection is read from the list of the bytes it still delivers.
\<close>

section \<open>Protocol constants and headers\<close>

definition CmdNegotiate :: u16 where "CmdNegotiate = 0"
definition CmdSessionSetup :: u16 where "CmdSessionSetup = 1"
definition CmdLogoff :: u16 where "CmdLogoff = 2"
definition CmdTreeConnect :: u16 where "CmdTreeConnect = 3"
definition CmdTreeDisconnect :: u16 where "CmdTreeDisconnect = 4"
definition CmdCreate :: u16 where "CmdCreate = 5"
definition CmdClose :: u16 where "CmdClose = 6"
definition CmdRead :: u16 where "CmdRead = 8"
definition CmdWrite :: u16 where "CmdWrite = 9"
definition CmdIOCtl :: u16 where "CmdIOCtl = 11"
definition CmdQueryDirectory :: u16 where "CmdQueryDirectory = 14"
definition CmdQueryInfo :: u16 where "CmdQueryInfo = 16"

lemmas cmd_defs = CmdNegotiate_def CmdSessionSetup_def CmdLogoff_def CmdTreeConnect_def CmdTreeDisconnect_def
  CmdCreate_def CmdClose_def CmdRead_def CmdWrite_def CmdIOCtl_def CmdQueryDirectory_def CmdQueryInfo_def

definition StatusSuccess :: u32 where "StatusSuccess = 0"
definition StatusMoreProcessing :: u32 where "StatusMoreProcessing = 0xC0000016"
definition StatusAccessDenied :: u32 where "StatusAccessDenied = 0xC0000022"
definition StatusLogonFailure :: u32 where "StatusLogonFailure = 0xC000006D"
definition StatusNotSupported :: u32 where "StatusNotSupported = 0xC00000BB"
definition StatusInvalidParam :: u32 where "StatusInvalidParam = 0xC000000D"
definition StatusObjectNotFound :: u32 where "StatusObjectNotFound = 0xC0000034"
definition StatusNoMoreFiles :: u32 where "StatusNoMoreFiles = 0x80000006"
definition StatusEndOfFile :: u32 where "StatusEndOfFile = 0xC0000011"
definition StatusNotADirectory :: u32 where "StatusNotADirectory = 0xC0000103"
definition StatusBadNetworkName :: u32 where "StatusBadNetworkName = 0xC00000CC"

lemmas status_defs = StatusSuccess_def StatusMoreProcessing_def StatusAccessDenied_def StatusLogonFailure_def
  StatusNotSupported_def StatusInvalidParam_def StatusObjectNotFound_def StatusNoMoreFiles_def
  StatusEndOfFile_def StatusNotADirectory_def StatusBadNetworkName_def

definition pktHdrLen :: nat where "pktHdrLen = 68"
definition maxFrameSize :: nat where "maxFrameSize = 16 * 1024 * 1024"

record smb2_header =
  h2_status :: u32
  h2_command :: u16
  h2_credits :: u16
  h2_flags :: u32
  h2_messageID :: u64
  h2_processID :: u32
  h2_treeID :: u32
  h2_sessionID :: u64

definition magic2 :: bytes where "magic2 = [0xFE, 0x53, 0x4D, 0x42]"

definition parseHeader :: "bytes \<Rightarrow> smb2_header option" where
  "parseHeader b =
     (if length b < pktHdrLen then None
      else if take 4 (drop 4 b) \<noteq> magic2 then None
      else Some \<lparr>h2_status = le32 b 12, h2_command = le16 b 16, h2_credits = le16 b 18, h2_flags = le32 b 20,
                 h2_messageID = le64 b 28, h2_processID = le32 b 36, h2_treeID = le32 b 40,
                 h2_sessionID = le64 b 44\<rparr>)"

text \<open>The 4-byte transport header: a zero and the length in three bytes.\<close>

definition transport_header :: "nat \<Rightarrow> bytes" where
  "transport_header n = [0, of_nat (n div 65536), of_nat (n div 256), of_nat n]"

definition frame_length :: "bytes \<Rightarrow> nat" where
  "frame_length h = unat (h ! 1) * 65536 + unat (h ! 2) * 256 + unat (h ! 3)"

definition buildPacket :: "smb2_header \<Rightarrow> u32 \<Rightarrow> u64 \<Rightarrow> u32 \<Rightarrow> bytes \<Rightarrow> bytes" where
  "buildPacket req status sessionID treeID body =
     stores (zeros (pktHdrLen + length body))
       [(0, transport_header (64 + length body)),
        (4, magic2),
        (8, enc_le 2 (64 :: u16)),
        (12, enc_le 4 status),
        (16, enc_le 2 (h2_command req)),
        (18, enc_le 2 (1 :: u16)),
        (20, enc_le 4 (1 :: u32)),
        (28, enc_le 8 (h2_messageID req)),
        (40, enc_le 4 treeID),
        (44, enc_le 8 sessionID),
        (68, body)]"

definition buildErrorBody :: bytes where "buildErrorBody = [9, 0, 0, 0, 0, 0, 0, 0, 0]"

datatype frame_error = ShortRead | TooLong

definition readFrame :: "bytes \<Rightarrow> frame_error + bytes \<times> bytes" where
  "readFrame s =
     (if length s < 4 then Inl ShortRead
      else
        let n = frame_length s in
        if n = 0 then Inr (take 4 s, drop 4 s)
        else if maxFrameSize < n then Inl TooLong
        else if length s < 4 + n then Inl ShortRead
        else Inr (take (4 + n) s, drop (4 + n) s))"

text \<open>\<open>t\<close> is a time in nanoseconds since 1970; \<open>UnixNano\<close> and the division are on \<open>int64\<close>.\<close>

definition windowsFiletime :: "int \<Rightarrow> bytes" where
  "windowsFiletime t =
     enc_le 8 (word_of_int (let n = sint (word_of_int t :: u64) in (if n < 0 then - (- n div 100) else n div 100))
       + 116444736000000000 :: u64)"

section \<open>The NetBIOS session handshake\<close>

definition nbssPositiveResponse :: bytes where "nbssPositiveResponse = [0x82, 0, 0, 0]"
definition nbssNegativeResponse :: bytes where "nbssNegativeResponse = [0x83, 0, 0, 1, 0x8F]"

definition extractCalledName :: "bytes \<Rightarrow> bytes" where
  "extractCalledName payload =
     (let i = length (takeWhile (\<lambda>c. \<not> (65 \<le> c \<and> c \<le> 80)) payload)
      in if i + 32 \<le> length payload then drop i payload else payload)"

fun decode_pairs :: "nat \<Rightarrow> bytes \<Rightarrow> bytes" where
  "decode_pairs (Suc n) (a # b # rest) =
     (let hi = unat (a - 65); lo = unat (b - 65) in
      if 15 < hi \<or> 15 < lo then []
      else
        let c = of_nat (hi * 16 + lo) in
        if c = 32 then [] else c # decode_pairs n rest)"
| "decode_pairs _ _ = []"

definition trim_right_set :: "string \<Rightarrow> char list \<Rightarrow> string" where
  "trim_right_set s cs = rev (dropWhile (\<lambda>c. c \<in> set cs) (rev s))"

definition decodeFirstLevelNBName :: "bytes \<Rightarrow> string" where
  "decodeFirstLevelNBName encoded = trim_right_set (string_of (decode_pairs 16 encoded)) '' ''"

abbreviation NUL :: char where "NUL \<equiv> CHR 0x00"

definition looksLikeIPv4NBName :: "string \<Rightarrow> bool" where
  "looksLikeIPv4NBName name =
     (let parts = split_on (CHR ''.'') (trim_space (takeWhile (\<lambda>c. c \<noteq> NUL) name))
      in length parts = 4 \<and>
         (\<forall>p \<in> set parts.
            let q = trim_space p in q \<noteq> [] \<and> length q \<le> 3 \<and> (\<forall>c \<in> set q. CHR ''0'' \<le> c \<and> c \<le> CHR ''9'')))"

definition sessionRequestAccepted :: "bytes \<Rightarrow> string \<Rightarrow> bool" where
  "sessionRequestAccepted payload computerName =
     (let calledBytes = extractCalledName payload in
      if length calledBytes < 32 then False
      else
        let called = decodeFirstLevelNBName (take 32 calledBytes) in
        if called = [] then False
        else
          let upper = to_upper (trim_space called) in
          if has_prefix upper ''*'' then True
          else if str_contains upper ''SMBSERVER'' then True
          else if looksLikeIPv4NBName upper then True
          else
            let host0 = to_upper (trim_space computerName);
                host = (if host0 = [] then ''WORKSTATION'' else host0);
                base = trim_space (takeWhile (\<lambda>c. c \<noteq> NUL) (trim_right_set upper [NUL]))
            in base = host \<or> has_prefix base host)"

text \<open>The handshake: what is written, and the bytes left to read when SMB may begin (None when the
  connection is closed).\<close>

definition negotiateNetBIOSSession :: "string \<Rightarrow> bytes \<Rightarrow> bytes \<times> bytes option" where
  "negotiateNetBIOSSession computerName s =
     (if length s < 4 then ([], None)
      else if s ! 0 \<noteq> 0x81 then (nbssNegativeResponse, None)
      else
        let n = frame_length s in
        if length s < 4 + n then ([], None)
        else if \<not> sessionRequestAccepted (take n (drop 4 s)) computerName then (nbssNegativeResponse, None)
        else (nbssPositiveResponse, Some (drop (4 + n) s)))"

section \<open>Lemmas\<close>

lemma length_transport [simp]: "length (transport_header n) = 4"
  by (simp add: transport_header_def)

lemma length_magic2 [simp]: "length magic2 = 4"
  by (simp add: magic2_def)

lemma length_buildPacket [simp]: "length (buildPacket req st sid tid body) = 68 + length body"
  by (simp add: buildPacket_def pktHdrLen_def)

lemma frame_length_transport:
  assumes "n < 2 ^ 24"
  shows "frame_length (transport_header n @ xs) = n"
proof -
  have "n div 65536 = n div 256 div 256"
    using div_mult2_eq [of n 256 256] by simp
  moreover have "n div 256 div 256 * 256 + n div 256 mod 256 = n div 256" "n div 256 * 256 + n mod 256 = n"
    by simp_all
  ultimately have "n div 65536 * 65536 + n div 256 mod 256 * 256 + n mod 256 = n"
    by linarith
  moreover have "n div 65536 < 256" using assms by auto
  ultimately show ?thesis
    by (simp add: frame_length_def transport_header_def unat_of_nat)
qed

lemma packet_fields:
  "take 4 (drop 0 (buildPacket req st sid tid body)) = transport_header (64 + length body)"
  "take 4 (drop 4 (buildPacket req st sid tid body)) = magic2"
  "take 4 (drop 12 (buildPacket req st sid tid body)) = enc_le 4 st"
  "take 2 (drop 16 (buildPacket req st sid tid body)) = enc_le 2 (h2_command req)"
  "take 2 (drop 18 (buildPacket req st sid tid body)) = enc_le 2 (1 :: u16)"
  "take 4 (drop 20 (buildPacket req st sid tid body)) = enc_le 4 (1 :: u32)"
  "take 8 (drop 28 (buildPacket req st sid tid body)) = enc_le 8 (h2_messageID req)"
  "take 4 (drop 40 (buildPacket req st sid tid body)) = enc_le 4 tid"
  "take 8 (drop 44 (buildPacket req st sid tid body)) = enc_le 8 sid"
  "take (length body) (drop 68 (buildPacket req st sid tid body)) = body"
  unfolding buildPacket_def
  by (rule read_stored; simp add: pktHdrLen_def)+

lemma packet_process: "take 4 (drop 36 (buildPacket req st sid tid body)) = enc_le 4 (0 :: u32)"
  unfolding buildPacket_def
  by (subst read_untouched) (simp_all add: pktHdrLen_def zeros_def enc_le_def numeral_eq_Suc)

text \<open>What the server builds, a client reads back: a response is one frame of the transport, its
  header parses to the values the handler gave, and what follows the header is the body.\<close>

theorem packet_roundtrip:
  assumes "64 + length body < 2 ^ 24"
  shows "readFrame (buildPacket req st sid tid body @ rest) = Inr (buildPacket req st sid tid body, rest) \<and>
    parseHeader (buildPacket req st sid tid body) =
      Some \<lparr>h2_status = st, h2_command = h2_command req, h2_credits = 1, h2_flags = 1,
            h2_messageID = h2_messageID req, h2_processID = 0, h2_treeID = tid, h2_sessionID = sid\<rparr> \<and>
    drop pktHdrLen (buildPacket req st sid tid body) = body"
proof (intro conjI)
  let ?p = "buildPacket req st sid tid body"
  have "take 4 ?p = transport_header (64 + length body)"
    using packet_fields(1) by simp
  then have p: "?p = transport_header (64 + length body) @ drop 4 ?p"
    by (metis append_take_drop_id)
  have "frame_length (?p @ rest) = 64 + length body"
    using frame_length_transport [OF assms, of "drop 4 ?p @ rest"] p by (metis append.assoc)
  then show "readFrame (?p @ rest) = Inr (?p, rest)"
    using assms by (simp add: readFrame_def maxFrameSize_def)
  show "drop pktHdrLen ?p = body"
    using packet_fields(10) [of body req st sid tid] by (simp add: pktHdrLen_def)
  show "parseHeader ?p =
      Some \<lparr>h2_status = st, h2_command = h2_command req, h2_credits = 1, h2_flags = 1,
            h2_messageID = h2_messageID req, h2_processID = 0, h2_treeID = tid, h2_sessionID = sid\<rparr>"
    by (simp add: parseHeader_def pktHdrLen_def packet_fields packet_process)
qed

lemma frame_never_too_long: "readFrame s \<noteq> Inl TooLong"
proof -
  have b: "unat (x :: byte) \<le> 255" for x
    using unsigned_less [of x, where ?'a = nat] by simp
  have "frame_length s \<le> maxFrameSize"
    unfolding frame_length_def maxFrameSize_def using b [of "s ! 1"] b [of "s ! 2"] b [of "s ! 3"] by simp
  then show ?thesis
    by (auto simp: readFrame_def Let_def)
qed

theorem packet_roundtrip_witness:
  "readFrame (buildPacket \<lparr>h2_status = 0, h2_command = 3, h2_credits = 1, h2_flags = 0, h2_messageID = 7,
       h2_processID = 0, h2_treeID = 0, h2_sessionID = 5\<rparr> 0 5 1 [9, 0] @ [0xFE]) =
   Inr (buildPacket \<lparr>h2_status = 0, h2_command = 3, h2_credits = 1, h2_flags = 0, h2_messageID = 7,
       h2_processID = 0, h2_treeID = 0, h2_sessionID = 5\<rparr> 0 5 1 [9, 0], [0xFE])"
  using packet_roundtrip [of "[9, 0]"] by simp

end
