(* ===== verification/Smb_Ntlm.thy ===== *)
theory Smb_Ntlm
  imports Smb_Proto
begin

text \<open>
  NTLM and SPNEGO messages of the SMB honeypot (\<open>internal/honeypot/smb/ntlm.go\<close>): the tokens and
  the challenge the server builds, and the parser of the client's authentication message.
\<close>

section \<open>DER\<close>

definition asn1Build :: "byte \<Rightarrow> bytes \<Rightarrow> bytes" where
  "asn1Build tag content =
     (let l = length content;
          len = (if l < 128 then [of_nat l]
                 else if l < 256 then [0x81, of_nat l]
                 else [0x82, of_nat (l div 256), of_nat l])
      in tag # len @ content)"

definition asn1CTX :: "nat \<Rightarrow> bytes \<Rightarrow> bytes" where "asn1CTX n content = asn1Build (0xA0 + of_nat n) content"
definition asn1APP :: "nat \<Rightarrow> bytes \<Rightarrow> bytes" where "asn1APP n content = asn1Build (0x60 + of_nat n) content"

definition ntlmsspOID :: bytes where
  "ntlmsspOID = [0x2b, 0x06, 0x01, 0x04, 0x01, 0x82, 0x37, 0x02, 0x02, 0x0a]"

definition spnegoOID :: bytes where "spnegoOID = [0x2b, 0x06, 0x01, 0x05, 0x05, 0x02]"

definition buildSPNEGONegotiateToken :: bytes where
  "buildSPNEGONegotiateToken =
     (let mechTypes = asn1CTX 0 (asn1Build 0x30 (asn1Build 0x06 ntlmsspOID));
          negTokenInit = asn1CTX 0 (asn1Build 0x30 mechTypes)
      in asn1APP 0 (asn1Build 0x06 spnegoOID @ negTokenInit))"

definition buildSPNEGOAcceptToken :: bytes where
  "buildSPNEGOAcceptToken = asn1CTX 1 (asn1Build 0x30 (asn1CTX 0 (asn1Build 0x0A [0])))"

definition buildSPNEGOChallengeToken :: "bytes \<Rightarrow> bytes" where
  "buildSPNEGOChallengeToken challenge =
     asn1CTX 1 (asn1Build 0x30
       (asn1CTX 0 (asn1Build 0x0A [1]) @ asn1CTX 1 (asn1Build 0x06 ntlmsspOID) @
        asn1CTX 2 (asn1Build 0x04 challenge)))"

section \<open>The challenge\<close>

definition ntlm_magic :: bytes where
  "ntlm_magic = [0x4E, 0x54, 0x4C, 0x4D, 0x53, 0x53, 0x50, 0x00]"

definition ntlmFlags :: u32 where "ntlmFlags = 0xE28A8215"

definition av_pair :: "u16 \<Rightarrow> bytes \<Rightarrow> bytes" where
  "av_pair k v = enc_le 2 k @ enc_le 2 (of_nat (length v) :: u16) @ v"

definition buildTargetInfo :: "int \<Rightarrow> string \<Rightarrow> string \<Rightarrow> bytes" where
  "buildTargetInfo now computerName domainName =
     av_pair 2 (utf16LE domainName) @ av_pair 1 (utf16LE computerName) @
     av_pair 4 (utf16LE domainName) @ av_pair 3 (utf16LE computerName) @
     av_pair 7 (windowsFiletime now) @ av_pair 0 []"

definition buildNTLMChallenge ::
  "int \<Rightarrow> string \<Rightarrow> string \<Rightarrow> bytes \<Rightarrow> byte \<Rightarrow> byte \<Rightarrow> u16 \<Rightarrow> bytes" where
  "buildNTLMChallenge now computerName domainName challenge major minor build =
     (let targetName = utf16LE domainName;
          targetInfo = buildTargetInfo now computerName domainName;
          tn = length targetName; ti = length targetInfo
      in stores (zeros (56 + tn + ti))
           [(0, ntlm_magic), (8, enc_le 4 (2 :: u32)),
            (12, enc_le 2 (of_nat tn :: u16)), (14, enc_le 2 (of_nat tn :: u16)), (16, enc_le 4 (56 :: u32)),
            (20, enc_le 4 ntlmFlags), (24, challenge),
            (40, enc_le 2 (of_nat ti :: u16)), (42, enc_le 2 (of_nat ti :: u16)),
            (44, enc_le 4 (56 + of_nat tn :: u32)),
            (48, [major]), (49, [minor]), (50, enc_le 2 build), (55, [15]),
            (56, targetName), (56 + tn, targetInfo)])"

section \<open>The authentication message\<close>

definition ntlm_field :: "bytes \<Rightarrow> nat \<Rightarrow> bytes" where
  "ntlm_field blob off =
     (if length blob < off + 8 then []
      else
        let len = unat (le16 blob off); offset = unat (le32 blob (off + 4)) in
        if len = 0 \<or> length blob < offset + len then []
        else take len (drop offset blob))"

definition ntlm_string :: "bytes \<Rightarrow> nat \<Rightarrow> string" where
  "ntlm_string blob off = (let raw = ntlm_field blob off in if length raw < 2 then [] else utf16_string raw)"

record ntlm_creds =
  nc_domain :: string
  nc_username :: string
  nc_workstation :: string
  nc_ntResponse :: bytes
  nc_lmResponse :: bytes
  nc_flags :: u32
  nc_sessionKey :: bytes

definition findNTLMBlob :: "bytes \<Rightarrow> bytes option" where
  "findNTLMBlob b = map_option (\<lambda>i. drop i b) (index_of b ntlm_magic)"

datatype ntlm_error = NoMagic | AuthTooShort | NotType3

definition parseNTLMAuth :: "bytes \<Rightarrow> ntlm_error + ntlm_creds" where
  "parseNTLMAuth b =
     (case findNTLMBlob b of
        None \<Rightarrow> Inl NoMagic
      | Some msg \<Rightarrow>
          if length msg < 52 then Inl AuthTooShort
          else if le32 msg 8 \<noteq> 3 then Inl NotType3
          else Inr \<lparr>nc_domain = ntlm_string msg 28, nc_username = ntlm_string msg 36,
                    nc_workstation = ntlm_string msg 44, nc_ntResponse = ntlm_field msg 20,
                    nc_lmResponse = ntlm_field msg 12,
                    nc_flags = (if 64 \<le> length msg then le32 msg 60 else 0),
                    nc_sessionKey = ntlm_field msg 52\<rparr>)"

section \<open>Lemmas\<close>

text \<open>The reading side of DER, for lengths of at most two bytes.\<close>

fun der_read :: "bytes \<Rightarrow> (byte \<times> bytes \<times> bytes) option" where
  "der_read (tag # l # rest) =
     (if l < 0x80 then
        (if unat l \<le> length rest then Some (tag, take (unat l) rest, drop (unat l) rest) else None)
      else
        case rest of
          a # r1 \<Rightarrow>
            if l = 0x81 then
              (if unat a \<le> length r1 then Some (tag, take (unat a) r1, drop (unat a) r1) else None)
            else
              (case r1 of
                 b # r2 \<Rightarrow>
                   let n = unat a * 256 + unat b in
                   if l = 0x82 \<and> n \<le> length r2 then Some (tag, take n r2, drop n r2) else None
               | [] \<Rightarrow> None)
        | [] \<Rightarrow> None)"
| "der_read _ = None"

text \<open>DER elements read back: any element of fewer than 65536 bytes of content is read as its tag,
  exactly its content and exactly what follows it.\<close>

theorem der_roundtrip:
  assumes "length content < 65536"
  shows "der_read (asn1Build tag content @ rest) = Some (tag, content, rest)"
proof -
  let ?l = "length content"
  consider "?l < 128" | "128 \<le> ?l" "?l < 256" | "256 \<le> ?l" by linarith
  then show ?thesis
  proof cases
    case 1
    then have "(of_nat ?l :: byte) < 0x80" "unat (of_nat ?l :: byte) = ?l"
      by (simp_all add: word_less_nat_alt unat_of_nat)
    with 1 show ?thesis by (simp add: asn1Build_def)
  next
    case 2
    then have "unat (of_nat ?l :: byte) = ?l"
      by (simp add: unat_of_nat)
    with 2 show ?thesis by (simp add: asn1Build_def)
  next
    case 3
    have "unat (of_nat (?l div 256) :: byte) * 256 + unat (of_nat ?l :: byte) = ?l"
      using assms by (simp add: unat_of_nat)
    with 3 show ?thesis by (simp add: asn1Build_def Let_def del: unat_of_nat)
  qed
qed

theorem der_roundtrip_witness:
  "der_read (asn1Build 0x04 (replicate 300 7) @ [1, 2]) = Some (0x04, replicate 300 7, [1, 2])"
  by (rule der_roundtrip) simp

lemma length_ntlm_magic: "length ntlm_magic = 8"
  by (simp add: ntlm_magic_def)

lemma length_targetInfo:
  "length (buildTargetInfo now cn dn) = 32 + 2 * length (utf16LE cn) + 2 * length (utf16LE dn)"
  by (simp add: buildTargetInfo_def av_pair_def windowsFiletime_def)

text \<open>The challenge is self-consistent: read with the descriptor reader the server applies to the
  client's messages, its two descriptors yield exactly the target name and the target information,
  and the message parses as a challenge, not as an authentication.\<close>

theorem challenge_descriptors:
  assumes "length challenge = 8" "length (utf16LE dn) < 8192" "length (utf16LE cn) < 8192" "dn \<noteq> []"
    and "ascii dn" and msg: "msg = buildNTLMChallenge now cn dn challenge major minor build"
  shows "ntlm_field msg 12 = utf16LE dn \<and> ntlm_field msg 40 = buildTargetInfo now cn dn \<and>
    take 8 (drop 24 msg) = challenge \<and> parseNTLMAuth msg = Inl NotType3"
proof -
  define tn where "tn = length (utf16LE dn)"
  define ti where "ti = length (buildTargetInfo now cn dn)"
  have bounds: "tn < 8192" "ti < 65536" "0 < tn" "0 < ti"
    using assms(2-5) by (auto simp: tn_def ti_def length_targetInfo length_utf16LE_ascii)
  have len: "length msg = 56 + tn + ti"
    unfolding msg buildNTLMChallenge_def Let_def
    using assms(1) by (subst length_stores) (simp_all add: ntlm_magic_def tn_def ti_def)
  note r = msg buildNTLMChallenge_def Let_def
  have f: "take 2 (drop 12 msg) = enc_le 2 (of_nat tn :: u16)" "take 4 (drop 16 msg) = enc_le 4 (56 :: u32)"
    "take 2 (drop 40 msg) = enc_le 2 (of_nat ti :: u16)" "take 4 (drop 44 msg) = enc_le 4 (56 + of_nat tn :: u32)"
    "take tn (drop 56 msg) = utf16LE dn" "take ti (drop (56 + tn) msg) = buildTargetInfo now cn dn"
    "take 8 (drop 24 msg) = challenge" "take 8 (drop 0 msg) = ntlm_magic" "take 4 (drop 8 msg) = enc_le 4 (2 :: u32)"
    unfolding r by (rule read_stored; use assms(1) bounds in \<open>simp add: ntlm_magic_def tn_def ti_def\<close>)+
  have u: "unat (of_nat tn :: u16) = tn" "unat (of_nat ti :: u16) = ti" "unat (56 + of_nat tn :: u32) = 56 + tn"
    using bounds by (simp_all add: unat_of_nat unat_word_ariths)
  have "starts_with msg ntlm_magic"
    using f(8) length_ntlm_magic by (simp add: starts_with_def)
  then have "findNTLMBlob msg = Some msg"
    by (subst findNTLMBlob_def, subst index_of.simps) simp
  then show ?thesis
    using f bounds u len ti_def by (simp add: ntlm_field_def parseNTLMAuth_def)
qed

theorem challenge_descriptors_witness:
  "ntlm_field (buildNTLMChallenge 0 ''PC'' ''CORP'' [1, 2, 3, 4, 5, 6, 7, 8] 10 0 22000) 12 = utf16LE ''CORP''"
proof -
  have "ascii ''CORP''" "ascii ''PC''" by simp_all
  then show ?thesis
    using challenge_descriptors [of "[1, 2, 3, 4, 5, 6, 7, 8]" "''CORP''" "''PC''" _ 0 10 0 22000, OF _ _ _ _ _ refl]
    by (simp add: length_utf16LE_ascii)
qed

end
