(* ===== verification/Smb_Crypto.thy ===== *)
theory Smb_Crypto
  imports Smb_Ntlm
begin

unbundle bit_operations_syntax

text \<open>
  The cryptography of the SMB honeypot: MD4, the check of an NTLMv2 proof
  (\<open>internal/honeypot/smb/credentials.go\<close>), the derivation of signing keys, AES-CMAC and the signing
  of a response (\<open>signing.go\<close>).  The primitives of \<open>crypto/*\<close> are the fields of \<open>crypto\<close>, given
  a key and a message; what a theorem needs of them is one of its hypotheses.
\<close>

record crypto =
  hmac_md5 :: "bytes \<Rightarrow> bytes \<Rightarrow> bytes"
  hmac_sha256 :: "bytes \<Rightarrow> bytes \<Rightarrow> bytes"
  sha512 :: "bytes \<Rightarrow> bytes"
  aes_block :: "bytes \<Rightarrow> bytes \<Rightarrow> bytes"
  rc4 :: "bytes \<Rightarrow> bytes \<Rightarrow> bytes"

section \<open>MD4\<close>

type_synonym md4_state = "u32 \<times> u32 \<times> u32 \<times> u32"

definition md4_f :: "u32 \<Rightarrow> u32 \<Rightarrow> u32 \<Rightarrow> u32" where "md4_f x y z = (x AND y) OR (NOT x AND z)"
definition md4_g :: "u32 \<Rightarrow> u32 \<Rightarrow> u32 \<Rightarrow> u32" where "md4_g x y z = (x AND y) OR (x AND z) OR (y AND z)"
definition md4_h :: "u32 \<Rightarrow> u32 \<Rightarrow> u32 \<Rightarrow> u32" where "md4_h x y z = x XOR y XOR z"

definition rotl32 :: "nat \<Rightarrow> u32 \<Rightarrow> u32" where "rotl32 n x = push_bit n x OR drop_bit (32 - n) x"

text \<open>One step updates the first register and rotates the roles, so the next step of the code's
  sequence \<open>a, d, c, b\<close> is again a step on the first.\<close>

fun md4_step :: "(u32 \<Rightarrow> u32 \<Rightarrow> u32 \<Rightarrow> u32) \<Rightarrow> u32 \<Rightarrow> u32 list \<Rightarrow> md4_state \<Rightarrow> nat \<times> nat \<Rightarrow> md4_state" where
  "md4_step F c x (r0, r1, r2, r3) (k, s) = (r3, rotl32 s (r0 + F r1 r2 r3 + x ! k + c), r1, r2)"

definition md4_order1 :: "(nat \<times> nat) list" where
  "md4_order1 = zip [0, 1, 2, 3, 4, 5, 6, 7, 8, 9, 10, 11, 12, 13, 14, 15] (concat (replicate 4 [3, 7, 11, 19]))"

definition md4_order2 :: "(nat \<times> nat) list" where
  "md4_order2 = zip [0, 4, 8, 12, 1, 5, 9, 13, 2, 6, 10, 14, 3, 7, 11, 15] (concat (replicate 4 [3, 5, 9, 13]))"

definition md4_order3 :: "(nat \<times> nat) list" where
  "md4_order3 = zip [0, 8, 4, 12, 2, 10, 6, 14, 1, 9, 5, 13, 3, 11, 7, 15] (concat (replicate 4 [3, 9, 11, 15]))"

definition md4_block :: "md4_state \<Rightarrow> u32 list \<Rightarrow> md4_state" where
  "md4_block st x =
     (case st of (aa, bb, cc, dd) \<Rightarrow>
        let st1 = foldl (md4_step md4_f 0 x) st md4_order1;
            st2 = foldl (md4_step md4_g 0x5A827999 x) st1 md4_order2
        in case foldl (md4_step md4_h 0x6ED9EBA1 x) st2 md4_order3 of
             (a, b, c, d) \<Rightarrow> (a + aa, b + bb, c + cc, d + dd))"

definition md4_pad :: "bytes \<Rightarrow> bytes" where
  "md4_pad msg = msg @ [0x80] @ zeros ((119 - length msg mod 64) mod 64) @ enc_le 8 (of_nat (length msg) * 8 :: u64)"

fun blocks :: "nat \<Rightarrow> 'a list \<Rightarrow> 'a list list" where
  "blocks n [] = []"
| "blocks n (x # xs) = (if n = 0 then [] else take n (x # xs) # blocks n (drop n (x # xs)))"

declare blocks.simps(2) [simp del]

definition md4Sum :: "bytes \<Rightarrow> bytes" where
  "md4Sum msg =
     (case foldl (\<lambda>st blk. md4_block st (map dec_le (blocks 4 blk)))
             (0x67452301, 0xEFCDAB89, 0x98BADCFE, 0x10325476) (blocks 64 (md4_pad msg)) of
        (a, b, c, d) \<Rightarrow> enc_le 4 a @ enc_le 4 b @ enc_le 4 c @ enc_le 4 d)"

section \<open>Credentials\<close>

record smb_cred =
  sc_username :: string
  sc_password :: string
  sc_domain :: string

definition matchCredential :: "smb_cred list \<Rightarrow> string \<Rightarrow> smb_cred option" where
  "matchCredential creds user = find (\<lambda>c. equal_fold (sc_username c) user) creds"

definition ntowfv2 :: "crypto \<Rightarrow> string \<Rightarrow> string \<Rightarrow> string \<Rightarrow> bytes" where
  "ntowfv2 C password user domain = hmac_md5 C (md4Sum (utf16LE password)) (utf16LE (to_upper user @ domain))"

definition verifyCredential :: "crypto \<Rightarrow> smb_cred \<Rightarrow> string \<Rightarrow> string \<Rightarrow> bytes \<Rightarrow> bytes \<Rightarrow> bool" where
  "verifyCredential C cred user domain challenge ntResponse =
     (if length ntResponse \<le> 16 then False
      else
        let proof' = take 16 ntResponse; blob = drop 16 ntResponse in
        proof' = hmac_md5 C (ntowfv2 C (sc_password cred) user domain) (challenge @ blob))"

definition ntlmSessionBaseKey :: "crypto \<Rightarrow> smb_cred \<Rightarrow> string \<Rightarrow> string \<Rightarrow> bytes \<Rightarrow> bytes option" where
  "ntlmSessionBaseKey C cred user domain ntResponse =
     (if length ntResponse < 16 then None
      else Some (hmac_md5 C (ntowfv2 C (sc_password cred) user domain) (take 16 ntResponse)))"

section \<open>Signing keys\<close>

definition ntlmNegotiateKeyExch :: u32 where "ntlmNegotiateKeyExch = 0x40000000"

definition dialectSMB1 :: u16 where "dialectSMB1 = 0x0101"
definition dialect202 :: u16 where "dialect202 = 0x0202"
definition dialect210 :: u16 where "dialect210 = 0x0210"
definition dialect300 :: u16 where "dialect300 = 0x0300"
definition dialect302 :: u16 where "dialect302 = 0x0302"
definition dialect311 :: u16 where "dialect311 = 0x0311"

lemmas dialect_defs = dialectSMB1_def dialect202_def dialect210_def dialect300_def dialect302_def dialect311_def

text \<open>A nil key is the empty list.\<close>

definition exportedSessionKey :: "crypto \<Rightarrow> bytes \<Rightarrow> u32 \<Rightarrow> bytes \<Rightarrow> bytes" where
  "exportedSessionKey C kek flags encrypted =
     (if length kek < 16 then []
      else if flags AND ntlmNegotiateKeyExch \<noteq> 0 \<and> length encrypted = 16 then
        (if length kek \<le> 256 then rc4 C kek encrypted else kek)
      else kek)"

definition kdfCounterMode :: "crypto \<Rightarrow> bytes \<Rightarrow> bytes \<Rightarrow> bytes \<Rightarrow> bytes" where
  "kdfCounterMode C ki label context =
     take 16 (hmac_sha256 C ki ([0, 0, 0, 1] @ label @ [0] @ context @ [0, 0, 0, 0x80]))"

definition deriveSigningKey :: "crypto \<Rightarrow> bytes \<Rightarrow> u16 \<Rightarrow> bytes \<Rightarrow> bytes" where
  "deriveSigningKey C key dialect preauth =
     (if length key < 16 then []
      else if dialect311 \<le> dialect then
        (if preauth = [] then [] else kdfCounterMode C key (bytes_of ''SMBSigningKey'' @ [0]) preauth)
      else if dialect = dialect300 \<or> dialect = dialect302 then
        kdfCounterMode C key (bytes_of ''SMB2AESCMAC'' @ [0]) (bytes_of ''SmbSign'' @ [0])
      else key)"

section \<open>AES-CMAC and the signature\<close>

definition xor_bytes :: "bytes \<Rightarrow> bytes \<Rightarrow> bytes" where
  "xor_bytes a b = map2 (XOR) a b"

text \<open>The doubling walks from the last byte to the first with the carry of the one before.\<close>

definition cmacDouble :: "bytes \<Rightarrow> bytes" where
  "cmacDouble b =
     (let out = map (\<lambda>i. push_bit 1 (b ! i) OR (if i + 1 < length b then drop_bit 7 (b ! (i + 1)) else 0)) [0..<length b];
          n = length b - 1
      in if b ! 0 AND 0x80 \<noteq> 0 then out[n := out ! n XOR 0x87] else out)"

definition aesCMAC :: "crypto \<Rightarrow> bytes \<Rightarrow> bytes \<Rightarrow> bytes" where
  "aesCMAC C key msg =
     (if length key \<notin> {16, 24, 32} then zeros 16
      else
        let E = aes_block C key;
            k1 = cmacDouble (E (zeros 16)); k2 = cmacDouble k1;
            n0 = (length msg + 15) div 16;
            complete = (n0 \<noteq> 0 \<and> length msg mod 16 = 0);
            n = (if n0 = 0 then 1 else n0);
            rem = drop ((n - 1) * 16) msg;
            last = (if complete then xor_bytes rem k1
                    else xor_bytes (rem @ [0x80] @ zeros (15 - length rem)) k2);
            x = foldl (\<lambda>x i. E (xor_bytes x (take 16 (drop (i * 16) msg)))) (zeros 16) [0..<n - 1]
        in E (xor_bytes x last))"

definition smb2_mac :: "crypto \<Rightarrow> bytes \<Rightarrow> u16 \<Rightarrow> bytes \<Rightarrow> bytes" where
  "smb2_mac C key dialect msg =
     take 16 (if dialect300 \<le> dialect then aesCMAC C (take 16 key) msg else hmac_sha256 C key msg)"

definition signFrame :: "crypto \<Rightarrow> bytes \<Rightarrow> bytes \<Rightarrow> u16 \<Rightarrow> bytes" where
  "signFrame C frame key dialect =
     (if length frame < pktHdrLen \<or> length key < 16 then frame
      else
        let msg = drop 4 frame;
            msg = stores msg [(16, enc_le 4 (le32 msg 16 OR 8)), (48, zeros 16)]
        in take 4 frame @ overwrite msg 48 (smb2_mac C key dialect msg))"

section \<open>Test vector\<close>

lemma blocks_append: "length a = n \<Longrightarrow> 0 < n \<Longrightarrow> blocks n (a @ b) = a # blocks n b"
  by (cases a) (auto simp: blocks.simps(2))

lemma blocks_replicate: "0 < n \<Longrightarrow> blocks n (replicate (k * n) x) = replicate k (replicate n x)"
proof (induction k)
  case (Suc k)
  then show ?case
    by (simp add: replicate_add blocks_append)
qed simp

lemma md4_first_block:
  "md4_block (0x67452301, 0xEFCDAB89, 0x98BADCFE, 0x10325476) (0x80 # replicate 15 0) =
   (0xe0cfd631, 0x31e96ad1, 0xd7593cb7, 0xc089c0e0)"
  by code_simp

text \<open>The hash of the empty password, the first test vector of RFC 1320.\<close>

lemma md4_empty:
  "md4Sum [] = enc_le 4 (0xe0cfd631 :: u32) @ enc_le 4 (0x31e96ad1 :: u32) @ enc_le 4 (0xd7593cb7 :: u32) @
     enc_le 4 (0xc089c0e0 :: u32)"
proof -
  have "enc_le 8 (0 :: u64) = zeros 8"
    by (simp add: enc_le_def zeros_def map_replicate_const)
  then have p: "md4_pad [] = [0x80, 0, 0, 0] @ replicate (15 * 4) 0"
    by (simp add: md4_pad_def zeros_def flip: replicate_add replicate_Suc)
  have z: "(dec_le (replicate 4 0) :: u32) = 0"
    by (simp add: dec_le_def numeral_eq_Suc)
  have "blocks 64 (md4_pad []) = [md4_pad []]"
    using blocks_append [of "md4_pad []" 64 "[]"] by (simp add: p)
  moreover have "map dec_le (blocks 4 (md4_pad [])) = (0x80 :: u32) # replicate 15 0"
    unfolding p by (subst blocks_append, simp, simp, subst blocks_replicate, simp) (simp add: dec_le_Cons z)
  ultimately show ?thesis
    by (simp add: md4Sum_def md4_first_block)
qed

section \<open>A client that knows the password\<close>

text \<open>What a client sends: the proof over its blob, and the session key it picked, encrypted.\<close>

definition client_response :: "crypto \<Rightarrow> string \<Rightarrow> string \<Rightarrow> string \<Rightarrow> bytes \<Rightarrow> bytes \<Rightarrow> bytes" where
  "client_response C password user domain challenge blob =
     hmac_md5 C (ntowfv2 C password user domain) (challenge @ blob) @ blob"

definition client_base_key :: "crypto \<Rightarrow> string \<Rightarrow> string \<Rightarrow> string \<Rightarrow> bytes \<Rightarrow> bytes" where
  "client_base_key C password user domain response =
     hmac_md5 C (ntowfv2 C password user domain) (take 16 response)"

text \<open>A client that knows the seeded password is accepted, and both sides sign with the same key:
  the response it computes verifies, and the signing key the server derives from it is the one the
  client derives from the session key it chose, for every dialect.\<close>

theorem password_holder_accepted:
  assumes "\<And>k m. length (hmac_md5 C k m) = 16" "\<And>k m. rc4 C k (rc4 C k m) = m" "\<And>k m. length (rc4 C k m) = length m"
    and "blob \<noteq> []" "length chosen = 16"
    and resp: "resp = client_response C (sc_password cred) user domain challenge blob"
  shows "verifyCredential C cred user domain challenge resp \<and>
    (\<exists>base. ntlmSessionBaseKey C cred user domain resp = Some base \<and>
       deriveSigningKey C
         (exportedSessionKey C base ntlmNegotiateKeyExch
            (rc4 C (client_base_key C (sc_password cred) user domain resp) chosen)) dialect preauth =
       deriveSigningKey C chosen dialect preauth)"
  using assms(1-5) unfolding resp
  by (cases blob)
    (simp_all add: client_response_def client_base_key_def verifyCredential_def ntlmSessionBaseKey_def
      exportedSessionKey_def ntlmNegotiateKeyExch_def)

definition toy_crypto :: crypto where
  "toy_crypto = \<lparr>hmac_md5 = \<lambda>k m. take 16 (k @ m @ zeros 16), hmac_sha256 = \<lambda>k m. take 32 (k @ m @ zeros 32),
     sha512 = \<lambda>m. take 64 (m @ zeros 64), aes_block = \<lambda>k m. m, rc4 = \<lambda>k m. map (\<lambda>b. b XOR 0x5A) m\<rparr>"

theorem password_holder_accepted_witness:
  "verifyCredential toy_crypto \<lparr>sc_username = ''svc'', sc_password = ''x'', sc_domain = []\<rparr> ''SVC'' [] [1]
     (client_response toy_crypto ''x'' ''SVC'' [] [1] [9])"
  using password_holder_accepted [of toy_crypto "[9]" "zeros 16" _ "\<lparr>sc_username = ''svc'', sc_password = ''x'', sc_domain = []\<rparr>" "''SVC''" "[]" "[1]", OF _ _ _ _ _ refl]
  by (simp add: toy_crypto_def o_def xor.assoc)

section \<open>Doubling and signatures\<close>

lemma bit_double: "bit (w * 2 :: 'a::len word) n \<longleftrightarrow> 0 < n \<and> n < LENGTH('a) \<and> bit w (n - 1)"
  using bit_double_iff [of w n] by (auto simp: mult.commute)

lemma byte_high: "(b :: byte) AND 0x80 \<noteq> 0 \<longleftrightarrow> bit b 7"
  using and_exp_eq_0_iff_not_bit [of b 7] by simp

lemma or_8_and_8: "(x OR 8) AND 8 = (8 :: u32)"
  by (rule bit_word_eqI) (auto simp: bit_simps)

lemma byte_bit_beyond: "8 \<le> n \<Longrightarrow> \<not> bit (b :: byte) n"
  by (auto dest: bit_imp_le_length)

lemma bit_cmacDouble:
  assumes "length b = 16" "q < 16" "m < 8"
  shows "bit (cmacDouble b ! (15 - q)) m \<longleftrightarrow>
    ((if m = 0 then q \<noteq> 0 \<and> bit (b ! (16 - q)) 7 else bit (b ! (15 - q)) (m - 1)) \<noteq>
     (q = 0 \<and> bit (b ! 0) 7 \<and> bit (0x87 :: byte) m))"
proof -
  have j: "15 - q < 16" "Suc (15 - q) = 16 - q" using assms(2) by auto
  have base: "bit (push_bit 1 (b ! (15 - q)) OR (if 15 - q + 1 < length b then drop_bit 7 (b ! (15 - q + 1)) else 0)) m
      \<longleftrightarrow> (if m = 0 then q \<noteq> 0 \<and> bit (b ! (16 - q)) 7 else bit (b ! (15 - q)) (m - 1))"
    using assms by (cases m) (auto simp: bit_simps bit_double j byte_bit_beyond)
  show ?thesis
  proof (cases "bit (b ! 0) 7")
    case True
    then have "cmacDouble b ! (15 - q) =
        (push_bit 1 (b ! (15 - q)) OR (if 15 - q + 1 < length b then drop_bit 7 (b ! (15 - q + 1)) else 0)) XOR
        (if q = 0 then 0x87 else 0)"
      using assms(1,2) j by (auto simp: cmacDouble_def Let_def byte_high nth_list_update simp del: upt_Suc)
    with True show ?thesis
      using base by (simp add: bit_xor_iff)
  next
    case False
    then have "cmacDouble b ! (15 - q) =
        push_bit 1 (b ! (15 - q)) OR (if 15 - q + 1 < length b then drop_bit 7 (b ! (15 - q + 1)) else 0)"
      using assms(1,2) j by (simp add: cmacDouble_def Let_def byte_high del: upt_Suc)
    with False show ?thesis
      using base by simp
  qed
qed

lemma length_cmacDouble [simp]: "length (cmacDouble b) = length b"
  by (simp add: cmacDouble_def Let_def)

text \<open>The subkey doubling of CMAC on 16 bytes is the doubling of the field of 128-bit words: a
  shift by one, reduced by 0x87 when the top bit falls out.\<close>

theorem cmacDouble_is_doubling:
  assumes "length b = 16"
  shows "(dec_le (rev (cmacDouble b)) :: 128 word) =
    push_bit 1 (dec_le (rev b)) XOR (if bit (dec_le (rev b) :: 128 word) 127 then 0x87 else 0)"
proof (rule bit_word_eqI)
  fix i assume i: "i < LENGTH(128)"
  define q where "q = i div 8"
  define m where "m = i mod 8"
  have qm: "q < 16" "m < 8" "i = 8 * q + m" using i by (auto simp: q_def m_def)
  have top: "bit (dec_le (rev b) :: 128 word) 127 \<longleftrightarrow> bit (b ! 0) 7"
    using assms by (simp add: bit_dec_le rev_nth)
  have "bit (0x87 :: 128 word) i \<longleftrightarrow> q = 0 \<and> bit (0x87 :: byte) m"
  proof (cases "q = 0")
    case True
    have "(0x87 :: 128 word) = ucast (0x87 :: byte)" by simp
    with True qm show ?thesis by (simp only: bit_ucast_iff) simp
  next
    case False
    have "(0x87 :: 128 word) = ucast (0x87 :: byte)" by simp
    with False qm show ?thesis by (simp only: bit_ucast_iff) (simp add: byte_bit_beyond)
  qed
  moreover have "bit (push_bit 1 (dec_le (rev b) :: 128 word)) i \<longleftrightarrow>
      (if m = 0 then q \<noteq> 0 \<and> bit (b ! (16 - q)) 7 else bit (b ! (15 - q)) (m - 1))"
  proof (cases "m = 0")
    case True
    show ?thesis
    proof (cases q)
      case 0
      then show ?thesis using True qm by (simp add: bit_double)
    next
      case (Suc q')
      have "i - 1 = 8 * q' + 7" using Suc True qm by simp
      then have "(i - 1) div 8 = q'" "(i - 1) mod 8 = 7" by simp_all
      then show ?thesis using True Suc qm i assms
        by (simp add: bit_double bit_dec_le rev_nth)
    qed
  next
    case False
    have "i - 1 = 8 * q + (m - 1)" using False qm by simp
    moreover have "m - 1 < 8" using qm by simp
    ultimately have "(i - 1) div 8 = q" "(i - 1) mod 8 = m - 1" by simp_all
    moreover have "0 < i" "i - 1 < 128" using i False by (auto simp: m_def intro: gr0I)
    ultimately show ?thesis using False qm(1) i assms
      by (simp add: bit_double bit_dec_le rev_nth)
  qed
  moreover have "bit (dec_le (rev (cmacDouble b)) :: 128 word) i \<longleftrightarrow> bit (cmacDouble b ! (15 - q)) m"
    using i assms qm(1) by (simp add: bit_dec_le rev_nth q_def m_def)
  ultimately show "bit (dec_le (rev (cmacDouble b)) :: 128 word) i \<longleftrightarrow>
      bit (push_bit 1 (dec_le (rev b)) XOR (if bit (dec_le (rev b) :: 128 word) 127 then 0x87 else 0) :: 128 word) i"
    unfolding bit_cmacDouble [OF assms qm(1,2)] top by (simp add: bit_xor_iff)
qed

theorem cmacDouble_is_doubling_witness:
  "(dec_le (rev (cmacDouble (0x80 # zeros 15))) :: 128 word) =
   push_bit 1 (dec_le (rev (0x80 # zeros 15))) XOR (if bit (dec_le (rev (0x80 # zeros 15)) :: 128 word) 127 then 0x87 else 0)"
  by (rule cmacDouble_is_doubling) simp

text \<open>What a client checks.\<close>

definition signature_ok :: "crypto \<Rightarrow> bytes \<Rightarrow> u16 \<Rightarrow> bytes \<Rightarrow> bool" where
  "signature_ok C key dialect frame \<longleftrightarrow>
     take 16 (drop 52 frame) = smb2_mac C key dialect (overwrite (drop 4 frame) 48 (zeros 16)) \<and>
     le32 frame 20 AND 8 = 8"

text \<open>A signed response verifies, and signing changes nothing but the signed flag and the
  signature field: the transport header, every other header field and the body are as built.\<close>

theorem signed_frame_verifies:
  assumes "68 \<le> length frame" "16 \<le> length key"
    and mac: "\<And>m. length (smb2_mac C key dialect m) = 16"
    and r: "r = signFrame C frame key dialect"
  shows "signature_ok C key dialect r \<and> length r = length frame \<and> take 20 r = take 20 frame \<and>
    le32 r 20 = le32 frame 20 OR 8 \<and> take 28 (drop 24 r) = take 28 (drop 24 frame) \<and> drop 68 r = drop 68 frame"
proof -
  define w where "w = enc_le 4 (le32 frame 20 OR 8)"
  define msg where "msg = stores (drop 4 frame) [(16, w), (48, zeros 16)]"
  define s where "s = smb2_mac C key dialect msg"
  have lens: "length w = 4" "length s = 16" "length msg = length frame - 4"
    using assms(1) mac by (simp_all add: w_def s_def msg_def)
  have "le32 (drop 4 frame) 16 = le32 frame 20" by (simp add: add.commute)
  then have r': "r = take 4 frame @ overwrite msg 48 s"
    using assms(1,2) by (simp add: r signFrame_def pktHdrLen_def Let_def msg_def s_def w_def)
  have take20: "take 4 frame @ drop 4 (take 20 frame) = take 20 frame"
    using append_take_drop_id [of 4 "take 20 frame"] by simp
  have flat: "r = take 20 frame @ w @ take 28 (drop 24 frame) @ s @ drop 68 frame"
    using assms(1) lens(1,2)
    by (simp add: r' msg_def overwrite_def min_def) (simp add: take_drop add.commute take20)
  have "overwrite (overwrite msg 48 s) 48 (zeros 16) = msg"
    using assms(1) lens by (simp add: msg_def overwrite_def)
  then have "overwrite (drop 4 r) 48 (zeros 16) = msg"
    using assms(1) by (simp add: r')
  moreover have "take 16 (drop 52 r) = s"
    using assms(1) lens by (simp add: flat)
  moreover have "take 4 (drop 20 r) = w"
    using assms(1) lens by (simp add: flat)
  ultimately show ?thesis
    using assms(1) lens(1,2)
    by (simp add: signature_ok_def s_def [symmetric]) (simp add: flat w_def or_8_and_8)
qed

theorem signed_frame_verifies_witness:
  "signature_ok toy_crypto (zeros 16) dialect202 (signFrame toy_crypto (zeros 70) (zeros 16) dialect202)"
proof -
  have "length (smb2_mac toy_crypto (zeros 16) dialect202 m) = 16" for m
    by (simp add: smb2_mac_def dialect_defs toy_crypto_def)
  from signed_frame_verifies [OF _ _ this refl, of "zeros 70"] show ?thesis by simp
qed

end
