(* ===== verification/Smb_Rpc.thy ===== *)
theory Smb_Rpc
  imports Smb_Crypto Deception_Config Deception_Maze
begin

text \<open>
  The named pipes of the SMB honeypot: DCE/RPC binding, fragments and dispatch
  (\<open>internal/honeypot/smb/pipe.go\<close>), the encodings of \<open>ndr_rpc.go\<close>, and the SRVSVC, SAMR and
  LSARPC interfaces (\<open>srvsvc.go\<close>, \<open>samr.go\<close>, \<open>lsarpc.go\<close>, \<open>rpcenv.go\<close>).  A nil byte slice is
  the empty list; the code's \<open>append([]byte(nil), xs...)\<close> is nil exactly when \<open>xs\<close> is empty.
\<close>

section \<open>NDR encodings\<close>

abbreviation u16b :: "u16 \<Rightarrow> bytes" where "u16b v \<equiv> enc_le 2 v"
abbreviation u32b :: "u32 \<Rightarrow> bytes" where "u32b v \<equiv> enc_le 4 v"

definition ndr_wstring :: "string \<Rightarrow> bytes" where
  "ndr_wstring s =
     (let chars = utf16_encode (runes (s @ [NUL])); n = length chars
      in u32b (of_nat n) @ u32b 0 @ u32b (of_nat n) @ concat (map u16b chars) @ zeros ((4 - 2 * n mod 4) mod 4))"

definition samr_handle :: "byte \<Rightarrow> bytes" where "samr_handle tag = tag # zeros 19"

definition rpc_string_header :: "string \<Rightarrow> u32 \<Rightarrow> bytes" where
  "rpc_string_header s referent =
     (let n = of_nat (length s * 2) :: u16 in u16b n @ u16b (n + 2) @ u32b referent)"

definition rpc_string_body :: "string \<Rightarrow> bytes" where
  "rpc_string_body s = ndr_wstring (s @ [NUL])"

definition rpc_string_header_no_null :: "string \<Rightarrow> u32 \<Rightarrow> bytes" where
  "rpc_string_header_no_null s referent =
     (let n = of_nat (length s * 2) :: u16 in u16b n @ u16b n @ u32b referent)"

definition ndr_wstring_no_null :: "string \<Rightarrow> bytes" where
  "ndr_wstring_no_null s =
     (let n = length s
      in u32b (of_nat n) @ u32b 0 @ u32b (of_nat n) @ concat (map (\<lambda>c. u16b (ucast (byte_of c))) s) @
         (if 2 * n mod 4 \<noteq> 0 then [0, 0] else []))"

definition workstationSIDBody :: bytes where
  "workstationSIDBody =
     [0x04, 0, 0, 0, 0x01, 0x04, 0, 0, 0, 0, 0, 0x05, 0x15, 0, 0, 0,
      0xd2, 0x02, 0x96, 0x49, 0xd2, 0x02, 0x96, 0x49, 0xd2, 0x02, 0x96, 0x49]"

definition skipNDRWString :: "bytes \<Rightarrow> nat \<Rightarrow> nat option" where
  "skipNDRWString b pos =
     (if length b < pos + 12 then None
      else
        let n = unat (le32 b (pos + 8)); p = pos + 12 + n * 2
        in Some (if n * 2 mod 4 \<noteq> 0 then p + (4 - n * 2 mod 4) else p))"

definition readNDRWString :: "bytes \<Rightarrow> nat \<Rightarrow> (string \<times> nat) option" where
  "readNDRWString b pos =
     (if length b < pos + 12 then None
      else
        let n = unat (le32 b (pos + 8)); p = pos + 12 in
        if length b < p + n * 2 then None
        else
          let q = p + n * 2
          in Some (trim_right_set (utf16_string (take (n * 2) (drop p b))) [NUL],
                   if n * 2 mod 4 \<noteq> 0 then q + (4 - n * 2 mod 4) else q))"

definition dcerpc_response :: "u32 \<Rightarrow> u16 \<Rightarrow> bytes \<Rightarrow> bytes" where
  "dcerpc_response callID ctxID stub =
     [5, 0, 2, 3, 0x10, 0, 0, 0] @ u16b (of_nat (24 + length stub)) @ u16b 0 @ u32b callID @
     u32b (of_nat (length stub)) @ u16b ctxID @ u16b 0 @ stub"

section \<open>Shares\<close>

record share_info =
  si_name :: string
  si_type :: u32
  si_remark :: string

definition ShareTypeDisk :: u32 where "ShareTypeDisk = 0"
definition ShareTypeIPC :: u32 where "ShareTypeIPC = 3"
definition ShareTypeSpecial :: u32 where "ShareTypeSpecial = 0x80000000"

definition sharesFromTreeConfig :: "tree_config \<Rightarrow> share_info list" where
  "sharesFromTreeConfig tc =
     map (\<lambda>sd.
        let ty = to_lower (sd_type sd) in
        if ty = ''ipc'' then
          \<lparr>si_name = sd_name sd, si_type = ShareTypeIPC OR ShareTypeSpecial,
           si_remark = (if sd_remark sd = [] then ''Remote IPC'' else sd_remark sd)\<rparr>
        else if ty = ''disk_special'' then
          \<lparr>si_name = sd_name sd, si_type = ShareTypeDisk OR ShareTypeSpecial, si_remark = sd_remark sd\<rparr>
        else \<lparr>si_name = sd_name sd, si_type = ShareTypeDisk, si_remark = sd_remark sd\<rparr>) (tc_shares tc)"

definition defaultShares :: "share_info list" where
  "defaultShares =
     [\<lparr>si_name = ''IPC$'', si_type = ShareTypeIPC OR ShareTypeSpecial, si_remark = ''Remote IPC''\<rparr>,
      \<lparr>si_name = ''ADMIN$'', si_type = ShareTypeDisk OR ShareTypeSpecial, si_remark = ''Remote Admin''\<rparr>,
      \<lparr>si_name = ''C$'', si_type = ShareTypeDisk OR ShareTypeSpecial, si_remark = ''Default share''\<rparr>]"

definition first_ref :: u32 where "first_ref = 0x00020000"

text \<open>The fixed parts, with referents counted up from the one given (fewer than \<open>2 ^ 30\<close> shares, so
  that no referent is 0).\<close>

fun share_heads1 :: "u32 \<Rightarrow> share_info list \<Rightarrow> bytes" where
  "share_heads1 ref [] = []"
| "share_heads1 ref (sh # shs) =
     u32b ref @ u32b (si_type sh) @
     (if si_remark sh \<noteq> [] then u32b (ref + 4) @ share_heads1 (ref + 8) shs
      else u32b 0 @ share_heads1 (ref + 4) shs)"

definition encodeNetShareEnumLevel1 :: "share_info list \<Rightarrow> bytes" where
  "encodeNetShareEnumLevel1 shares =
     (let n = of_nat (length shares) :: u32
      in u32b 1 @ u32b 1 @ u32b first_ref @ u32b n @ u32b (first_ref + 4) @ u32b n @
         share_heads1 (first_ref + 8) shares @
         concat (map (\<lambda>sh. ndr_wstring (si_name sh) @ (if si_remark sh \<noteq> [] then ndr_wstring (si_remark sh) else [])) shares) @
         u32b n @ u32b 0 @ u32b 0)"

fun ref_list :: "u32 \<Rightarrow> 'a list \<Rightarrow> bytes" where
  "ref_list ref [] = []"
| "ref_list ref (_ # xs) = u32b ref @ ref_list (ref + 4) xs"

definition encodeNetShareEnumLevel0 :: "share_info list \<Rightarrow> bytes" where
  "encodeNetShareEnumLevel0 shares =
     (let n = of_nat (length shares) :: u32
      in u32b 0 @ u32b 0 @ u32b first_ref @ u32b n @ u32b (first_ref + 4) @ u32b n @
         ref_list (first_ref + 8) shares @ concat (map (\<lambda>sh. ndr_wstring (si_name sh)) shares) @
         u32b n @ u32b 0 @ u32b 0)"

definition parseNetShareEnumLevel :: "bytes \<Rightarrow> u32" where
  "parseNetShareEnumLevel stub =
     (if length stub < 4 then 0
      else
        case (if le32 stub 0 \<noteq> 0 then skipNDRWString stub 4 else Some 4) of
          None \<Rightarrow> 0
        | Some pos \<Rightarrow> if pos + 4 \<le> length stub then le32 stub pos else 0)"

definition encodeNetShareGetInfoLevel1 :: "share_info \<Rightarrow> bytes" where
  "encodeNetShareGetInfoLevel1 sh =
     u32b 1 @ u32b 1 @ u32b 1 @ u32b (si_type sh) @ u32b (if si_remark sh \<noteq> [] then 1 else 0) @
     ndr_wstring (si_name sh) @ (if si_remark sh \<noteq> [] then ndr_wstring (si_remark sh) else []) @ u32b 0"

definition parseNetShareGetInfoStub :: "bytes \<Rightarrow> string \<times> u32" where
  "parseNetShareGetInfoStub stub =
     (if length stub < 4 then ([], 0)
      else
        case (if le32 stub 0 \<noteq> 0 then skipNDRWString stub 4 else Some 4) of
          None \<Rightarrow> ([], 0)
        | Some pos \<Rightarrow>
            (case readNDRWString stub pos of
               None \<Rightarrow> ([], 0)
             | Some (name, p) \<Rightarrow> (name, if p + 4 \<le> length stub then le32 stub p else 0)))"

definition lookupShareInfo :: "string \<Rightarrow> share_info list \<Rightarrow> share_info" where
  "lookupShareInfo name shares =
     (case find (\<lambda>sh. equal_fold (si_name sh) name) shares of
        Some sh \<Rightarrow> sh
      | None \<Rightarrow>
          if equal_fold name ''IPC$'' then
            \<lparr>si_name = ''IPC$'', si_type = ShareTypeIPC OR ShareTypeSpecial, si_remark = ''Remote IPC''\<rparr>
          else \<lparr>si_name = name, si_type = ShareTypeDisk, si_remark = []\<rparr>)"

definition encodeNetSessEnumLevel10Empty :: bytes where
  "encodeNetSessEnumLevel10Empty = u32b 10 @ u32b first_ref @ u32b 0 @ u32b 0 @ u32b 0 @ u32b 0 @ u32b 0"

section \<open>Accounts\<close>

record bait_user =
  bu_rid :: u32
  bu_name :: string

record rpc_env =
  re_computerName :: string
  re_domainName :: string
  re_users :: "bait_user list"
  re_authenticated :: bool

definition builtin_users :: "bait_user list" where
  "builtin_users =
     [\<lparr>bu_rid = 500, bu_name = ''Administrator''\<rparr>, \<lparr>bu_rid = 501, bu_name = ''Guest''\<rparr>,
      \<lparr>bu_rid = 503, bu_name = ''DefaultAccount''\<rparr>, \<lparr>bu_rid = 504, bu_name = ''WDAGUtilityAccount''\<rparr>]"

fun add_users :: "string set \<Rightarrow> u32 \<Rightarrow> smb_cred list \<Rightarrow> bait_user list" where
  "add_users seen rid [] = []"
| "add_users seen rid (c # cs) =
     (let u = to_lower (sc_username c) in
      if sc_username c = [] \<or> u \<in> seen then add_users seen rid cs
      else \<lparr>bu_rid = rid, bu_name = sc_username c\<rparr> # add_users (insert u seen) (rid + 1) cs)"

definition baitUsers :: "smb_cred list \<Rightarrow> bait_user list" where
  "baitUsers creds = builtin_users @ add_users (set (map (\<lambda>u. to_lower (bu_name u)) builtin_users)) 1000 creds"

definition accountDomainName :: "rpc_env \<Rightarrow> string" where
  "accountDomainName env = (if re_computerName env \<noteq> [] then re_computerName env else ''WORKSTATION'')"

definition lookupBaitName :: "bait_user list \<Rightarrow> u32 \<Rightarrow> string option" where
  "lookupBaitName users rid = map_option bu_name (find (\<lambda>u. bu_rid u = rid) users)"

section \<open>SAMR\<close>

definition hex_const :: "string \<Rightarrow> bytes" where
  "hex_const s = (case hex_decode s of Some b \<Rightarrow> b | None \<Rightarrow> [])"

definition samrUserAllTemplateHex :: string where
  "samrUserAllTemplateHex =
     ''342c00001500bdbd00000000000000000000000000000000000000000000000000000000000000000000000000000000'' @
     ''000000000000000000000000c8e5000000000000e9fa000000000000c498000000000000d32b00000000000065500000'' @
     ''0000000039f70000000000008974000000000000f01d0000000000004e55000000000000007b0000000000000bf60000'' @
     ''0000000030d900000000000022fe000000000000d3560000ddccbbaa01020000100200000000000000000000dfe70000'' @
     replicate 376 (CHR ''0'')"

definition samrUserIDOffset :: nat where "samrUserIDOffset = 168"

definition encodeSamrConnectStub :: bytes where "encodeSamrConnectStub = samr_handle 1 @ u32b 0"

definition encodeSamrConnect5Stub :: bytes where
  "encodeSamrConnect5Stub = u32b 1 @ u32b 1 @ u32b 3 @ u32b 1 @ samr_handle 1 @ u32b 0"

definition encodeSamrEnumerateDomainsStub :: "string \<Rightarrow> bytes" where
  "encodeSamrEnumerateDomainsStub name =
     u32b 0 @ u32b 0x0002000c @ u32b 1 @ u32b 0x00020004 @ u32b 1 @ u32b 0 @
     rpc_string_header name 0x00020008 @ rpc_string_body name @ u32b 1 @ u32b 0"

definition encodeSamrLookupDomainStub :: bytes where
  "encodeSamrLookupDomainStub = u32b 0x00020004 @ workstationSIDBody @ u32b 0"

fun user_heads :: "u32 \<Rightarrow> bait_user list \<Rightarrow> bytes" where
  "user_heads ref [] = []"
| "user_heads ref (u # us) = u32b (bu_rid u) @ rpc_string_header (bu_name u) ref @ user_heads (ref + 4) us"

definition encodeSamrEnumerateUsersStub :: "bait_user list \<Rightarrow> bytes" where
  "encodeSamrEnumerateUsersStub users =
     (let n = of_nat (length users) :: u32 in
      if n = 0 then u32b n @ u32b 0x0002000c @ u32b 0 @ u32b 0 @ u32b 0 @ u32b 0
      else u32b n @ u32b 0x0002000c @ u32b n @ u32b 0x00020010 @ u32b n @ user_heads 0x00020014 users @
           concat (map (\<lambda>u. rpc_string_body (bu_name u)) users) @ u32b n @ u32b 0)"

definition encodeSamrEnumUsersDenied :: bytes where
  "encodeSamrEnumUsersDenied = u32b 0 @ u32b 0 @ u32b 0 @ u32b 0xC0000022"

definition encodeSamrOpenUserStub :: "u32 \<Rightarrow> bytes" where
  "encodeSamrOpenUserStub rid = stores (zeros 20) [(0, [3]), (4, u32b rid)] @ u32b 0"

definition encodeSamrQueryUserAllStub :: "u32 \<Rightarrow> bytes" where
  "encodeSamrQueryUserAllStub rid =
     (let b = hex_const samrUserAllTemplateHex in
      if length b < samrUserIDOffset + 4 then u32b 0xC0000022 else overwrite b samrUserIDOffset (u32b rid))"

definition encodeSamrQueryDomainInfo :: "u16 \<Rightarrow> bytes" where
  "encodeSamrQueryDomainInfo cls =
     (if cls = 1 then hex_const ''755600000100bdbd07000000010000000000000000000000000000000000000000000000''
      else if cls = 8 then hex_const ''01fc00000800bdbd0000000000000000000000000000000000000000''
      else if cls = 12 then hex_const ''4ace00000c00bdbd000000000000000000000000000000000a00bfbf00000000''
      else u32b 0 @ u32b 0xC0000003)"

definition encodeSamrCloseStub :: bytes where "encodeSamrCloseStub = samr_handle 1 @ u32b 0"

definition encodeSamrOpenDomainStub :: bytes where "encodeSamrOpenDomainStub = samr_handle 1 @ u32b 0"

text \<open>The answer to a SAMR call; \<open>stub\<close> is what follows the 24-byte header.\<close>

definition samr_stub :: "u16 \<Rightarrow> bytes \<Rightarrow> rpc_env \<Rightarrow> bytes" where
  "samr_stub opnum stub env =
     (if opnum = 0 \<or> opnum = 57 \<or> opnum = 62 then encodeSamrConnectStub
      else if opnum = 64 then encodeSamrConnect5Stub
      else if opnum = 6 then encodeSamrEnumerateDomainsStub (accountDomainName env)
      else if opnum = 5 then encodeSamrLookupDomainStub
      else if opnum = 7 then encodeSamrOpenDomainStub
      else if opnum = 8 then encodeSamrQueryDomainInfo (if 22 \<le> length stub then le16 stub 20 else 0)
      else if opnum = 13 then
        (if \<not> re_authenticated env then encodeSamrEnumUsersDenied else encodeSamrEnumerateUsersStub (re_users env))
      else if opnum = 34 then
        (if \<not> re_authenticated env then samr_handle 0 @ u32b 0xC0000022
         else encodeSamrOpenUserStub (if 28 \<le> length stub then le32 stub 24 else 0))
      else if opnum = 47 then encodeSamrQueryUserAllStub (if 8 \<le> length stub then le32 stub 4 else 0)
      else if opnum = 1 then encodeSamrCloseStub
      else u32b 0xC00000BB)"

definition handleSamrRequest :: "u16 \<Rightarrow> bytes \<Rightarrow> u32 \<Rightarrow> rpc_env \<Rightarrow> bytes" where
  "handleSamrRequest ctxID data callID env =
     (if length data < 24 then []
      else dcerpc_response callID ctxID (samr_stub (le16 data 22) (drop 24 data) env))"

section \<open>LSARPC\<close>

definition parsePolicyInformationClass :: "bytes \<Rightarrow> u32" where
  "parsePolicyInformationClass stub = (if length stub < 22 then 0 else ucast (le16 stub 20))"

definition userSIDPrefix :: bytes where
  "userSIDPrefix = [0x01, 0x05] @ take 22 (drop 6 workstationSIDBody)"

function parseLookupSidRIDs :: "bytes \<Rightarrow> u32 list" where
  "parseLookupSidRIDs stub =
     (if length stub < length userSIDPrefix + 4 then []
      else if take (length userSIDPrefix) stub = userSIDPrefix then
        le32 stub (length userSIDPrefix) # parseLookupSidRIDs (drop (length userSIDPrefix + 4) stub)
      else parseLookupSidRIDs (drop 1 stub))"
  by pat_completeness auto
termination
  by (relation "measure length") auto

declare parseLookupSidRIDs.simps [simp del]

fun name_heads :: "u32 \<Rightarrow> (u16 \<times> string \<times> u32) list \<Rightarrow> bytes" where
  "name_heads ref [] = []"
| "name_heads ref ((use, name, idx) # rs) =
     u16b use @ u16b 0 @ rpc_string_header_no_null name ref @ u32b idx @ name_heads (ref + 4) rs"

definition lookup_result :: "bait_user list \<Rightarrow> u32 \<Rightarrow> u16 \<times> string \<times> u32" where
  "lookup_result users rid =
     (case lookupBaitName users rid of Some name \<Rightarrow> (1, name, 0) | None \<Rightarrow> (8, [], 0xFFFFFFFF))"

definition encodeLsarLookupSids :: "u32 list \<Rightarrow> rpc_env \<Rightarrow> bytes" where
  "encodeLsarLookupSids rids env =
     (let domain = accountDomainName env;
          results = map (lookup_result (re_users env)) rids;
          mapped = length (filter (\<lambda>rid. lookupBaitName (re_users env) rid \<noteq> None) rids);
          n = of_nat (length rids) :: u32
      in u32b first_ref @ u32b 1 @ u32b (first_ref + 4) @ u32b 0 @ u32b 1 @
         rpc_string_header_no_null domain (first_ref + 8) @ u32b (first_ref + 12) @
         ndr_wstring_no_null domain @ workstationSIDBody @
         u32b n @ u32b (first_ref + 16) @ u32b n @ name_heads (first_ref + 20) results @
         concat (map (\<lambda>(use, name, idx). ndr_wstring_no_null name) results) @
         u32b (of_nat mapped) @
         u32b (if mapped = 0 then 0xC0000073 else if mapped < length rids then 0x107 else 0))"

definition encodeLsarOpenPolicyStub :: bytes where "encodeLsarOpenPolicyStub = samr_handle 2 @ u32b 0"

definition encodeLsarCloseStub :: bytes where "encodeLsarCloseStub = samr_handle 2 @ u32b 0"

definition encodeLsarPrimaryDomainStub :: "string \<Rightarrow> bytes" where
  "encodeLsarPrimaryDomainStub name =
     u32b 0x0002000c @ u32b 3 @ rpc_string_header name 0x00020008 @ u32b 0x00020010 @
     rpc_string_body name @ workstationSIDBody @ u32b 0"

definition encodeLsarAccountDomainStub :: "string \<Rightarrow> bytes" where
  "encodeLsarAccountDomainStub name =
     u32b 0x0002000c @ u32b 5 @ rpc_string_header name 0x00020008 @ u32b 0x00020010 @
     rpc_string_body name @ workstationSIDBody @ u32b 0"

definition encodeLsarDnsDomainStub :: "string \<Rightarrow> bytes" where
  "encodeLsarDnsDomainStub name =
     u32b 0x0002000c @ u32b 12 @ rpc_string_header name 0x00020008 @ rpc_string_header name 0x00020010 @
     rpc_string_header name 0x00020014 @ zeros 16 @ u32b 0x00020018 @
     rpc_string_body name @ rpc_string_body name @ rpc_string_body name @ workstationSIDBody @ u32b 0"

definition encodeLsarQueryPolicyStub :: "u32 \<Rightarrow> string \<Rightarrow> bytes" where
  "encodeLsarQueryPolicyStub cls name =
     (if cls = 3 then encodeLsarPrimaryDomainStub name
      else if cls = 5 then encodeLsarAccountDomainStub name
      else if cls = 12 then encodeLsarDnsDomainStub name
      else u32b 0xC00000BB)"

definition lsar_stub :: "u16 \<Rightarrow> bytes \<Rightarrow> rpc_env \<Rightarrow> bytes" where
  "lsar_stub opnum stub env =
     (if opnum = 6 \<or> opnum = 44 then encodeLsarOpenPolicyStub
      else if opnum = 7 \<or> opnum = 46 then
        encodeLsarQueryPolicyStub (parsePolicyInformationClass stub) (accountDomainName env)
      else if opnum = 15 then encodeLsarLookupSids (parseLookupSidRIDs stub) env
      else if opnum = 0 then encodeLsarCloseStub
      else u32b 0xC00000BB)"

definition handleLsarpcRequest :: "u16 \<Rightarrow> bytes \<Rightarrow> u32 \<Rightarrow> rpc_env \<Rightarrow> bytes" where
  "handleLsarpcRequest ctxID data callID env =
     (if length data < 24 then []
      else dcerpc_response callID ctxID (lsar_stub (le16 data 22) (drop 24 data) env))"

section \<open>Pipes\<close>

record pipe_context =
  pc_shares :: "share_info list"
  pc_env :: rpc_env

record pipe_state =
  ps_name :: string
  ps_bound :: bool
  ps_ctxID :: u16
  ps_pending :: bytes
  ps_reasmHdr :: bytes
  ps_reasm :: bytes

definition newPipeState :: "string \<Rightarrow> pipe_state" where
  "newPipeState name = \<lparr>ps_name = name, ps_bound = False, ps_ctxID = 0, ps_pending = [], ps_reasmHdr = [], ps_reasm = []\<rparr>"

definition srvsvc_stub :: "u16 \<Rightarrow> bytes \<Rightarrow> share_info list \<Rightarrow> bytes" where
  "srvsvc_stub opnum stub shares =
     (if opnum = 15 \<or> opnum = 7 then
        (if (if stub \<noteq> [] then parseNetShareEnumLevel stub else 0) = 1
         then encodeNetShareEnumLevel1 shares else encodeNetShareEnumLevel0 shares)
      else if opnum = 16 then
        (if stub \<noteq> [] then encodeNetShareGetInfoLevel1 (lookupShareInfo (fst (parseNetShareGetInfoStub stub)) shares)
         else u32b 0 @ u32b 0 @ u32b 2310)
      else if opnum = 13 then u32b 0 @ u32b 0 @ u32b 5
      else if opnum = 12 then encodeNetSessEnumLevel10Empty
      else if opnum = 32 then u32b 123
      else u32b 1)"

definition pipe_handleRequest :: "pipe_state \<Rightarrow> bytes \<Rightarrow> u32 \<Rightarrow> pipe_context \<Rightarrow> bytes" where
  "pipe_handleRequest p data callID ctx =
     (if length data < 24 then []
      else if ps_name p = ''samr'' then handleSamrRequest (ps_ctxID p) data callID (pc_env ctx)
      else if ps_name p = ''lsarpc'' then handleLsarpcRequest (ps_ctxID p) data callID (pc_env ctx)
      else dcerpc_response callID (ps_ctxID p) (srvsvc_stub (le16 data 22) (drop 24 data) (pc_shares ctx)))"

definition ndrTransferSyntaxUUID :: bytes where
  "ndrTransferSyntaxUUID =
     [0x04, 0x5d, 0x88, 0x8a, 0xeb, 0x1c, 0xc9, 0x11, 0x9f, 0xe8, 0x08, 0x00, 0x2b, 0x10, 0x48, 0x60]"

definition buildBindAck :: "pipe_state \<Rightarrow> bytes \<Rightarrow> u32 \<Rightarrow> pipe_state \<times> bytes" where
  "buildBindAck p data callID =
     (let ctx = (if 30 \<le> length data then le16 data 28 else ps_ctxID p);
          path = bytes_of ([backslash_char] @ ''PIPE'' @ [backslash_char] @ ps_name p) @ [0];
          secLen = of_nat (length path) :: u16;
          after = 26 + secLen;
          pad = (4 - after mod 4) mod 4
      in (p\<lparr>ps_ctxID := ctx, ps_bound := True\<rparr>,
          [5, 0, 12, 3, 0x10, 0, 0, 0] @ u16b (54 + secLen + pad) @ u16b 0 @ u32b callID @
          u16b 4280 @ u16b 4280 @ u32b 0x53F0 @ u16b secLen @ path @ zeros (unat pad) @
          u16b 1 @ u16b 0 @ u16b 0 @ u16b 0 @ ndrTransferSyntaxUUID @ u32b 2))"

definition pipe_write :: "pipe_state \<Rightarrow> bytes \<Rightarrow> pipe_context \<Rightarrow> pipe_state" where
  "pipe_write p data ctx =
     (if length data < 16 then p
      else
        let ptype = data ! 2; callID = le32 data 12 in
        if ptype = 11 then (case buildBindAck p data callID of (p', ack) \<Rightarrow> p'\<lparr>ps_pending := ack\<rparr>)
        else if ptype = 0 then
          (if \<not> ps_bound p then p
           else
             let flags = data ! 3; fst_frag = (flags AND 1 \<noteq> 0); last_frag = (flags AND 2 \<noteq> 0) in
             if fst_frag \<and> last_frag \<and> ps_reasm p = [] then p\<lparr>ps_pending := pipe_handleRequest p data callID ctx\<rparr>
             else if length data < 24 then p
             else
               let p1 = (if fst_frag then p\<lparr>ps_reasmHdr := take 24 data, ps_reasm := drop 24 data\<rparr>
                         else if ps_reasm p \<noteq> [] then p\<lparr>ps_reasm := ps_reasm p @ drop 24 data\<rparr>
                         else p)
               in if last_frag \<and> ps_reasm p1 \<noteq> [] then
                    p1\<lparr>ps_pending := pipe_handleRequest p1 (ps_reasmHdr p1 @ ps_reasm p1) callID ctx,
                       ps_reasm := [], ps_reasmHdr := []\<rparr>
                  else p1\<lparr>ps_pending := []\<rparr>)
        else p)"

definition pipe_read :: "pipe_state \<Rightarrow> pipe_state \<times> bytes" where
  "pipe_read p = (p\<lparr>ps_pending := []\<rparr>, ps_pending p)"

definition pipe_transceive :: "pipe_state \<Rightarrow> bytes \<Rightarrow> pipe_context \<Rightarrow> pipe_state \<times> bytes" where
  "pipe_transceive p data ctx = pipe_read (pipe_write p data ctx)"

definition canonicalizePipeName :: "string \<Rightarrow> string" where
  "canonicalizePipeName path =
     (let s = trim_left_set (to_lower (replace_char path (CHR ''/'') backslash_char)) [backslash_char];
          t = (if has_prefix s (''pipe'' @ [backslash_char]) then drop 5 s else s)
      in trim_left_set t [backslash_char])"

section \<open>Fragments\<close>

lemma handleRequest_cong:
  assumes "drop 22 d = drop 22 e" "length d = length e" "ps_name p = ps_name q" "ps_ctxID p = ps_ctxID q"
  shows "pipe_handleRequest p d callID ctx = pipe_handleRequest q e callID ctx"
proof -
  have "drop 24 d = drop 24 e"
    using arg_cong [OF assms(1), of "drop 2"] by simp
  with assms show ?thesis
    by (simp add: pipe_handleRequest_def handleSamrRequest_def handleLsarpcRequest_def)
qed

text \<open>The 24-byte header of a request PDU: the type at offset 2, the flags \<open>FIRST\<close> and \<open>LAST\<close> at offset 3, the call
  identifier at 12 and the operation at 22.  The rest - version, data representation, the lengths of the fragment and of its
  trailer, the allocation hint, the context - is each PDU's own.\<close>

definition pdu_header :: "bool \<Rightarrow> bool \<Rightarrow> bytes \<Rightarrow> bool" where
  "pdu_header frst lst H \<longleftrightarrow> length H = 24 \<and> H ! 2 = 0 \<and> (H ! 3 AND 1 \<noteq> 0) = frst \<and> (H ! 3 AND 2 \<noteq> 0) = lst"

abbreviation write_all_pdus :: "pipe_state \<Rightarrow> bytes list \<Rightarrow> pipe_context \<Rightarrow> pipe_state" where
  "write_all_pdus p pdus ctx \<equiv> foldl (\<lambda>p d. pipe_write p d ctx) p pdus"

lemma pdu_sel:
  assumes "pdu_header frst lst H"
  shows "length (H @ c) = 24 + length c" "(H @ c) ! 2 = 0" "((H @ c) ! 3 AND 1 \<noteq> 0) = frst" "((H @ c) ! 3 AND 2 \<noteq> 0) = lst"
    "drop 24 (H @ c) = c" "le32 (H @ c) 12 = le32 H 12" "take 24 (H @ c) = H" "drop 22 (H @ c) = drop 22 H @ c"
  using assms by (simp_all add: pdu_header_def nth_append)

lemma pdu_write:
  assumes "pdu_header frst lst H" "ps_bound p"
  shows "pipe_write p (H @ c) ctx =
    (if frst \<and> lst \<and> ps_reasm p = [] then p\<lparr>ps_pending := pipe_handleRequest p (H @ c) (le32 H 12) ctx\<rparr>
     else
       let p1 = (if frst then p\<lparr>ps_reasmHdr := H, ps_reasm := c\<rparr>
                 else if ps_reasm p \<noteq> [] then p\<lparr>ps_reasm := ps_reasm p @ c\<rparr> else p)
       in if lst \<and> ps_reasm p1 \<noteq> [] then
            p1\<lparr>ps_pending := pipe_handleRequest p1 (ps_reasmHdr p1 @ ps_reasm p1) (le32 H 12) ctx, ps_reasm := [], ps_reasmHdr := []\<rparr>
          else p1\<lparr>ps_pending := []\<rparr>)"
  unfolding pipe_write_def Let_def pdu_sel [OF assms(1)] using assms(2) by simp

text \<open>A fragment that is neither the first nor the last adds to what is being assembled, and is dropped when nothing is.\<close>

lemma middle_fragments:
  assumes "ps_bound p" "\<forall>(H, c) \<in> set fs. pdu_header False False H"
  shows "write_all_pdus p (map (\<lambda>(H, c). H @ c) fs) ctx =
    p\<lparr>ps_reasm := (if ps_reasm p = [] then [] else ps_reasm p @ concat (map snd fs)),
      ps_pending := (if fs = [] then ps_pending p else [])\<rparr>"
  using assms
proof (induction fs arbitrary: p)
  case (Cons f fs)
  obtain H c where f: "f = (H, c)" by force
  then have "pdu_header False False H"
    using Cons.prems(2) by simp
  from pdu_write [OF this Cons.prems(1), of c ctx]
  have "pipe_write p (H @ c) ctx = p\<lparr>ps_reasm := (if ps_reasm p = [] then [] else ps_reasm p @ c), ps_pending := []\<rparr>"
    by (simp add: Let_def)
  then show ?case
    using Cons by (simp add: f)
qed simp

text \<open>C28. A request may come in any number of fragments, each with a header of its own: wherever its stub is cut, the pipe
  answers after the last of them exactly what it answers to the request in one piece with the operation of the first and the call
  identifier of the last, whatever else the headers say.  Unless the first fragment carries no byte of the stub: then all that follows is dropped and
  the request is never answered.\<close>

theorem fragments_answered_alike:
  assumes "ps_bound p" "ps_reasm p = []"
    and "pdu_header True False H1" "\<forall>(H, c) \<in> set fs. pdu_header False False H" "pdu_header False True Hn"
    and "pdu_header True True H" "drop 22 H = drop 22 H1" "le32 H 12 = le32 Hn 12"
  shows "write_all_pdus p ((H1 @ c1) # map (\<lambda>(H, c). H @ c) fs @ [Hn @ cn]) ctx =
    (if c1 = [] then p\<lparr>ps_reasmHdr := H1, ps_pending := []\<rparr>
     else (pipe_write p (H @ c1 @ concat (map snd fs) @ cn) ctx)\<lparr>ps_reasmHdr := []\<rparr>)"
proof -
  let ?all = "c1 @ concat (map snd fs) @ cn"
  define p1 where "p1 = p\<lparr>ps_reasmHdr := H1, ps_reasm := c1, ps_pending := []\<rparr>"
  define p2 where "p2 = p1\<lparr>ps_reasm := (if c1 = [] then [] else c1 @ concat (map snd fs))\<rparr>"
  have first: "pipe_write p (H1 @ c1) ctx = p1"
    using pdu_write [OF assms(3,1)] by (simp add: p1_def)
  have bound: "ps_bound p1" "ps_bound p2"
    using assms(1) by (simp_all add: p1_def p2_def)
  have middle: "write_all_pdus p1 (map (\<lambda>(H, c). H @ c) fs) ctx = p2"
    unfolding middle_fragments [OF bound(1) assms(4)] by (simp add: p1_def p2_def)
  have last: "write_all_pdus p ((H1 @ c1) # map (\<lambda>(H, c). H @ c) fs @ [Hn @ cn]) ctx = pipe_write p2 (Hn @ cn) ctx"
    by (simp add: first middle)
  show ?thesis
  proof (cases "c1 = []")
    case True
    then show ?thesis
      unfolding last pdu_write [OF assms(5) bound(2)] using assms(2) by (simp add: p2_def p1_def Let_def)
  next
    case False
    define p3 where "p3 = p2\<lparr>ps_reasm := ?all\<rparr>"
    have "pipe_handleRequest p3 (H1 @ ?all) (le32 Hn 12) ctx = pipe_handleRequest p (H @ ?all) (le32 H 12) ctx"
      unfolding assms(8) using pdu_sel(1,8) [OF assms(3)] pdu_sel(1,8) [OF assms(6)] assms(7)
      by (intro handleRequest_cong) (simp_all add: p3_def p2_def p1_def)
    moreover have "pipe_write p2 (Hn @ cn) ctx =
        p3\<lparr>ps_pending := pipe_handleRequest p3 (H1 @ ?all) (le32 Hn 12) ctx, ps_reasm := [], ps_reasmHdr := []\<rparr>"
      unfolding pdu_write [OF assms(5) bound(2)] using False by (simp add: p3_def p2_def p1_def Let_def)
    moreover have "pipe_write p (H @ ?all) ctx = p\<lparr>ps_pending := pipe_handleRequest p (H @ ?all) (le32 H 12) ctx\<rparr>"
      using pdu_write [OF assms(6,1)] assms(2) by simp
    ultimately show ?thesis
      unfolding last using False assms(2) by (simp add: p3_def p2_def p1_def)
  qed
qed

section \<open>Accounts: what SAMR and LSARPC tell\<close>

text \<open>SAMR tells an unauthenticated client nothing about the accounts: the answer to any request is
  the same for every list of users.\<close>

theorem samr_hides_users:
  assumes "\<not> re_authenticated env"
  shows "handleSamrRequest ctxID data callID env = handleSamrRequest ctxID data callID (env\<lparr>re_users := us\<rparr>)"
  using assms by (simp add: handleSamrRequest_def samr_stub_def accountDomainName_def)

text \<open>LSARPC has no such gate: whether the session is authenticated plays no role in it.\<close>

lemma lsarpc_ignores_authentication:
  "handleLsarpcRequest ctxID data callID (env\<lparr>re_authenticated := a\<rparr>) = handleLsarpcRequest ctxID data callID env"
  by (simp add: handleLsarpcRequest_def lsar_stub_def encodeLsarLookupSids_def accountDomainName_def)

lemma add_users_rids:
  "unat rid + length cs < 2 ^ 32 \<Longrightarrow> map bu_rid (add_users seen rid cs) =
     map (\<lambda>i. rid + of_nat i) [0..<length (add_users seen rid cs)]"
proof (induction seen rid cs rule: add_users.induct)
  case (2 seen rid c cs)
  show ?case
  proof (cases "sc_username c = [] \<or> to_lower (sc_username c) \<in> seen")
    case False
    have r: "unat (rid + 1) + length cs < 2 ^ 32"
      using "2.prems" by (simp add: unat_word_ariths)
    have "map (\<lambda>i. rid + of_nat i) [0..<Suc n] = rid # map (\<lambda>i. rid + 1 + of_nat i) [0..<n]" for n
      by (simp add: upt_rec [of 0 "Suc n"] map_Suc_upt [symmetric] o_def add.assoc del: upt_Suc)
    with False "2.IH"(2) [OF refl] r show ?thesis by simp
  qed (use "2.IH"(1) "2.prems" in simp)
qed simp

lemma length_add_users: "length (add_users seen rid cs) \<le> length cs"
  by (induction seen rid cs rule: add_users.induct) (auto simp: Let_def)

lemma add_users_names:
  "distinct (map (\<lambda>u. to_lower (bu_name u)) (add_users seen rid cs)) \<and>
   set (map (\<lambda>u. to_lower (bu_name u)) (add_users seen rid cs)) \<inter> seen = {} \<and>
   set (map (\<lambda>u. to_lower (bu_name u)) (add_users seen rid cs)) \<union> seen \<supseteq> {to_lower (sc_username c) | c. c \<in> set cs \<and> sc_username c \<noteq> []}"
  (is "?P seen rid cs")
proof (induction seen rid cs rule: add_users.induct)
  case (2 seen rid c cs)
  show ?case
  proof (cases "sc_username c = [] \<or> to_lower (sc_username c) \<in> seen")
    case True
    then have "add_users seen rid (c # cs) = add_users seen rid cs" by simp
    with True "2.IH"(1) [OF refl True] show ?thesis by auto
  next
    case False
    then have e: "add_users seen rid (c # cs) =
        \<lparr>bu_rid = rid, bu_name = sc_username c\<rparr> # add_users (insert (to_lower (sc_username c)) seen) (rid + 1) cs"
      by simp
    have ih: "?P (insert (to_lower (sc_username c)) seen) (rid + 1) cs"
      using "2.IH"(2) [OF refl False] .
    show ?thesis unfolding e using ih False by auto
  qed
qed simp

lemma bait_rids_distinct:
  assumes "length creds < 2 ^ 31"
  shows "distinct (map bu_rid (baitUsers creds))"
proof -
  let ?us = "add_users (set (map (\<lambda>u. to_lower (bu_name u)) builtin_users)) 1000 creds"
  have eq: "map bu_rid ?us = map (\<lambda>i. 1000 + of_nat i) [0..<length ?us]"
    by (rule add_users_rids) (use assms in simp)
  have len: "length ?us < 2 ^ 31"
    using length_add_users [of _ 1000 creds] assms by (meson le_less_trans)
  have u: "unat (1000 + of_nat i :: u32) = 1000 + i" if "i < length ?us" for i
    using that len by (simp add: unat_word_ariths unat_of_nat)
  have "inj_on (\<lambda>i. 1000 + of_nat i :: u32) {0..<length ?us}"
    by (rule inj_onI) (use u in \<open>metis add_left_cancel atLeastLessThan_iff\<close>)
  then have "distinct (map bu_rid ?us)"
    unfolding eq by (simp add: distinct_map)
  moreover have "bu_rid u \<notin> set (map bu_rid ?us)" if "u \<in> set builtin_users" for u
  proof
    assume "bu_rid u \<in> set (map bu_rid ?us)"
    then obtain i where i: "i < length ?us" "bu_rid u = 1000 + of_nat i"
      unfolding eq by auto
    have "unat (bu_rid u) < 1000"
      using that by (auto simp: builtin_users_def)
    then show False using i u [of i] by simp
  qed
  moreover have "distinct (map bu_rid builtin_users)"
    by (simp add: builtin_users_def)
  ultimately show ?thesis
    unfolding baitUsers_def map_append distinct_append by auto
qed

lemma lookup_of_member:
  "distinct (map bu_rid us) \<Longrightarrow> u \<in> set us \<Longrightarrow> lookupBaitName us (bu_rid u) = Some (bu_name u)"
  unfolding lookupBaitName_def by (induction us) auto

lemma prefix_head: "userSIDPrefix = 0x01 # tl userSIDPrefix" "length userSIDPrefix = 24"
  by (simp_all add: userSIDPrefix_def workstationSIDBody_def)

lemma parse_skips: "1 \<notin> set gap \<Longrightarrow> parseLookupSidRIDs (gap @ s) = parseLookupSidRIDs s"
proof (induction gap)
  case (Cons b gap)
  then have "take (length userSIDPrefix) (b # gap @ s) \<noteq> userSIDPrefix"
    using prefix_head by (metis list.set_intros(1) list.sel(1) take_Suc_Cons numeral_eq_Suc)
  moreover have "parseLookupSidRIDs s' = []" if "length s' < 28" for s'
    using that by (subst parseLookupSidRIDs.simps) (simp add: prefix_head(2))
  ultimately show ?case
    using Cons by (subst parseLookupSidRIDs.simps) (auto simp: prefix_head(2))
qed simp

lemma parse_sid: "parseLookupSidRIDs (userSIDPrefix @ u32b rid @ s) = rid # parseLookupSidRIDs s"
  by (subst parseLookupSidRIDs.simps) (simp add: prefix_head(2))

lemma parse_sids:
  "1 \<notin> set gap \<Longrightarrow> 1 \<notin> set rest \<Longrightarrow>
   parseLookupSidRIDs (concat (map (\<lambda>rid. gap @ userSIDPrefix @ u32b rid) rids) @ rest) = rids"
proof (induction rids)
  case Nil
  have "parseLookupSidRIDs (rest @ []) = parseLookupSidRIDs []"
    using Nil by (intro parse_skips)
  also have "\<dots> = []"
    by (subst parseLookupSidRIDs.simps) (simp add: prefix_head(2))
  finally show ?case by simp
next
  case (Cons rid rids)
  then show ?case by (simp add: parse_skips parse_sid)
qed

text \<open>The two account interfaces agree: the accounts have pairwise different identifiers, every
  seeded user name is among them, and a LookupSids request that lists identifiers the way clients
  marshal them (with the maximum count before each SID) is read as exactly those identifiers, each
  account's own being answered with the name that enumeration gives.\<close>

theorem sids_resolve_to_enumerated_names:
  assumes "length creds < 2 ^ 31" "1 \<notin> set rest"
  shows "distinct (map bu_rid (baitUsers creds)) \<and>
    (\<forall>c \<in> set creds. sc_username c \<noteq> [] \<longrightarrow> (\<exists>u \<in> set (baitUsers creds). equal_fold (bu_name u) (sc_username c))) \<and>
    parseLookupSidRIDs (concat (map (\<lambda>rid. [5, 0, 0, 0] @ userSIDPrefix @ u32b rid) rids) @ rest) = rids \<and>
    (\<forall>u \<in> set (baitUsers creds). lookup_result (baitUsers creds) (bu_rid u) = (1, bu_name u, 0))"
proof (intro conjI ballI impI)
  fix c assume "c \<in> set creds" "sc_username c \<noteq> []"
  with add_users_names [of "set (map (\<lambda>u. to_lower (bu_name u)) builtin_users)" 1000 creds]
  have "to_lower (sc_username c) \<in> (\<lambda>u. to_lower (bu_name u)) ` set (baitUsers creds)"
    by (auto simp: baitUsers_def)
  then show "\<exists>u \<in> set (baitUsers creds). equal_fold (bu_name u) (sc_username c)"
    by (auto simp: equal_fold_def)
next
  fix u assume "u \<in> set (baitUsers creds)"
  then show "lookup_result (baitUsers creds) (bu_rid u) = (1, bu_name u, 0)"
    using lookup_of_member bait_rids_distinct [OF assms(1)] by (simp add: lookup_result_def)
qed (use assms parse_sids [of "[5, 0, 0, 0]"] bait_rids_distinct in auto)

section \<open>Strings on the wire\<close>

lemma trim_right_keeps: "NUL \<notin> set s \<Longrightarrow> trim_right_set (s @ [NUL]) [NUL] = s"
  by (cases s rule: rev_cases) (auto simp: trim_right_set_def)

lemma utf16_ascii_nul:
  assumes "ascii s"
  shows "utf16_string (concat (map u16b (utf16_encode (runes (s @ [NUL]))))) = s @ [NUL]"
    and "length (utf16_encode (runes (s @ [NUL]))) = Suc (length s)"
proof -
  have a: "ascii (s @ [NUL])" using assms by simp
  show "utf16_string (concat (map u16b (utf16_encode (runes (s @ [NUL]))))) = s @ [NUL]"
    using utf16_roundtrip [OF a] by (simp add: utf16LE_def)
  show "length (utf16_encode (runes (s @ [NUL]))) = Suc (length s)"
    using utf16_encode_ascii [OF a] by simp
qed

text \<open>A string written in NDR reads back: at any position of a message, the reader gives the
  string and the position after its padding, where the next field starts.\<close>

theorem ndr_string_roundtrip:
  assumes "ascii s" "NUL \<notin> set s" "length s < 2 ^ 31"
  shows "readNDRWString (pre @ ndr_wstring s @ rest) (length pre) = Some (s, length pre + length (ndr_wstring s))"
proof -
  define chars where "chars = utf16_encode (runes (s @ [NUL]))"
  define n where "n = length chars"
  define pad where "pad = (4 - 2 * n mod 4) mod 4"
  define body where "body = concat (map u16b chars)"
  have n: "n < 2 ^ 32" "n = Suc (length s)"
    using assms(1,3) utf16_ascii_nul(2) [OF assms(1)] by (simp_all add: n_def chars_def)
  have lb: "length body = 2 * n"
    by (simp add: body_def n_def length_concat o_def sum_list_triv)
  have w: "ndr_wstring s = u32b (of_nat n) @ u32b 0 @ u32b (of_nat n) @ body @ zeros pad"
    by (simp add: ndr_wstring_def Let_def chars_def n_def pad_def body_def)
  have un: "unat (of_nat n :: u32) = n"
    using n(1) by (simp add: unat_of_nat)
  have "length pre + 12 + n * 2 + pad = (if n * 2 mod 4 \<noteq> 0
      then length pre + 12 + n * 2 + (4 - n * 2 mod 4) else length pre + 12 + n * 2)"
    by (auto simp: pad_def mult.commute)
  moreover have "utf16_string body = s @ [NUL]"
    unfolding body_def chars_def by (rule utf16_ascii_nul(1) [OF assms(1)])
  ultimately show ?thesis
    using lb un trim_right_keeps [OF assms(2)]
    by (simp add: w readNDRWString_def Let_def mult.commute)
qed

lemma getinfo_roundtrip:
  assumes "ascii s" "NUL \<notin> set s" "length s < 2 ^ 31"
  shows "parseNetShareGetInfoStub (u32b 0 @ ndr_wstring s @ u32b level) = (s, level)"
  using ndr_string_roundtrip [OF assms, of "u32b 0" "u32b level"]
  by (simp add: parseNetShareGetInfoStub_def)

section \<open>Witnesses\<close>

definition example_env :: rpc_env where
  "example_env = \<lparr>re_computerName = ''PC'', re_domainName = [], re_users = builtin_users, re_authenticated = False\<rparr>"

theorem ndr_string_roundtrip_witness:
  "readNDRWString ([9] @ ndr_wstring ''C$'' @ [7]) 1 = Some (''C$'', 1 + length (ndr_wstring ''C$''))"
proof -
  have "ascii ''C$''" "NUL \<notin> set ''C$''" "length ''C$'' < 2 ^ 31" by simp_all
  from ndr_string_roundtrip [OF this, of "[9]"] show ?thesis by simp
qed

theorem samr_hides_users_witness:
  "handleSamrRequest 0 (zeros 30) 1 example_env = handleSamrRequest 0 (zeros 30) 1 (example_env\<lparr>re_users := []\<rparr>)"
  by (rule samr_hides_users) (simp add: example_env_def)

theorem sids_resolve_to_enumerated_names_witness:
  "parseLookupSidRIDs (concat (map (\<lambda>rid. [5, 0, 0, 0] @ userSIDPrefix @ u32b rid) [500, 1000]) @ [0, 0]) = [500, 1000]"
  using sids_resolve_to_enumerated_names [of "[\<lparr>sc_username = ''svc'', sc_password = [], sc_domain = []\<rparr>]" "[0, 0]" "[500, 1000]"]
  by simp

text \<open>A SAMR EnumDomainUsers request in one PDU, and the header of a fragment of it with its own length, flags and allocation hint.\<close>

definition request_header :: "byte \<Rightarrow> u16 \<Rightarrow> u32 \<Rightarrow> bytes" where
  "request_header flags frag_len alloc = [5, 0, 0, flags, 0x10, 0, 0, 0] @ u16b frag_len @ u16b 0 @ u32b 7 @ u32b alloc @ u16b 0 @ u16b 13"

theorem fragments_answered_alike_witness:
  "write_all_pdus ((newPipeState ''samr'')\<lparr>ps_bound := True\<rparr>)
     [request_header 1 25 3 @ [1], request_header 0 26 2 @ [2, 3], request_header 2 24 0 @ []] \<lparr>pc_shares = [], pc_env = example_env\<rparr> =
   (pipe_write ((newPipeState ''samr'')\<lparr>ps_bound := True\<rparr>) (request_header 3 27 3 @ [1, 2, 3])
     \<lparr>pc_shares = [], pc_env = example_env\<rparr>)\<lparr>ps_reasmHdr := []\<rparr>"
proof -
  have h: "pdu_header True False (request_header 1 25 3)" "pdu_header False False (request_header 0 26 2)"
    "pdu_header False True (request_header 2 24 0)" "pdu_header True True (request_header 3 27 3)"
    by (simp_all add: pdu_header_def request_header_def)
  have "drop 22 (request_header 3 27 3) = drop 22 (request_header 1 25 3)" "le32 (request_header 3 27 3) 12 = le32 (request_header 2 24 0) 12"
    by (simp_all add: request_header_def)
  from fragments_answered_alike [OF _ _ h(1) _ h(3,4) this, of "(newPipeState ''samr'')\<lparr>ps_bound := True\<rparr>" "[(request_header 0 26 2, [2, 3])]" "\<lparr>pc_shares = [], pc_env = example_env\<rparr>" "[1]" "[]"]
  show ?thesis
    using h(2) by (simp add: newPipeState_def)
qed

end
