(* ===== verification/Smb_Vfs.thy ===== *)
theory Smb_Vfs
  imports Smb_Rpc Deception_Build
begin

unbundle bit_operations_syntax

text \<open>
  The file system the SMB honeypot serves (\<open>internal/honeypot/smb/vfs.go\<close>, \<open>maze.go\<close>): the
  conversion of the deception tree, resolution, open handles and the enumeration of a directory.
  Times are in seconds since 1970 as in the tree; the code's \<open>time.Time\<close> carries the same instant.
\<close>

section \<open>Nodes\<close>

definition FileAttrReadOnly :: u32 where "FileAttrReadOnly = 0x01"
definition FileAttrHidden :: u32 where "FileAttrHidden = 0x02"
definition FileAttrSystem :: u32 where "FileAttrSystem = 0x04"
definition FileAttrDirectory :: u32 where "FileAttrDirectory = 0x10"
definition FileAttrArchive :: u32 where "FileAttrArchive = 0x20"
definition FileAttrNormal :: u32 where "FileAttrNormal = 0x80"

lemmas attr_defs = FileAttrReadOnly_def FileAttrHidden_def FileAttrSystem_def FileAttrDirectory_def
  FileAttrArchive_def FileAttrNormal_def

record vfs_info =
  vi_name :: string
  vi_attrs :: u32
  vi_content :: bytes
  vi_created :: int
  vi_modified :: int
  vi_mazePath :: string
  vi_mazeDepth :: int

datatype vfs_node = VNode (vinfo: vfs_info) (vkids: "vfs_node list")

definition smbAttrs :: "node_info \<Rightarrow> u32" where
  "smbAttrs n =
     (if ni_dir n then FileAttrDirectory else 0) OR (if ni_readOnly n then FileAttrReadOnly else 0) OR
     (if ni_system n then FileAttrSystem else 0) OR (if ni_archive n then FileAttrArchive else 0) OR
     (if ni_hidden n then FileAttrHidden else 0) OR (if ni_normal n then FileAttrNormal else 0)"

fun vfsNodeFrom :: "node \<Rightarrow> vfs_node" where
  "vfsNodeFrom (Node n ns) =
     VNode \<lparr>vi_name = ni_name n, vi_attrs = smbAttrs n, vi_content = bytes_of (ni_content n),
            vi_created = ni_created n, vi_modified = ni_modified n, vi_mazePath = ni_mazePath n,
            vi_mazeDepth = ni_mazeDepth n\<rparr> (map vfsNodeFrom ns)"

record vfs =
  vf_shares :: "string \<rightharpoonup> vfs_node"
  vf_maze :: maze_config

definition vfsFromTree :: "tree \<Rightarrow> vfs" where
  "vfsFromTree t = \<lparr>vf_shares = map_option vfsNodeFrom \<circ> tr_roots t, vf_maze = tr_maze t\<rparr>"

definition buildMazeChildren :: "string \<Rightarrow> int \<Rightarrow> maze_config \<Rightarrow> vfs_node list" where
  "buildMazeChildren path depth cfg = map vfsNodeFrom (mazeChildren path depth cfg)"

definition isAdminShare :: "string \<Rightarrow> bool" where
  "isAdminShare name \<longleftrightarrow> to_upper name = ''C$'' \<or> to_upper name = ''ADMIN$''"

definition isRegistryHiveFile :: "string \<Rightarrow> bool" where
  "isRegistryHiveFile name \<longleftrightarrow> to_upper name \<in> {''SAM'', ''SYSTEM'', ''SECURITY''}"

definition vn_isDir :: "vfs_node \<Rightarrow> bool" where
  "vn_isDir n \<longleftrightarrow> vi_attrs (vinfo n) AND FileAttrDirectory \<noteq> 0"

definition vn_size :: "vfs_node \<Rightarrow> nat" where "vn_size n = length (vi_content (vinfo n))"

definition vn_allocSize :: "vfs_node \<Rightarrow> nat" where
  "vn_allocSize n =
     (if vn_isDir n then 0
      else if vn_size n = 0 then 4096 else (vn_size n + 4095) div 4096 * 4096)"

section \<open>Resolution\<close>

definition vn_findChild :: "vfs_node \<Rightarrow> string \<Rightarrow> vfs_node option" where
  "vn_findChild n name = find (\<lambda>c. to_upper (vi_name (vinfo c)) = to_upper name) (vkids n)"

fun vfs_walk :: "vfs \<Rightarrow> vfs_node \<Rightarrow> string list \<Rightarrow> vfs_node option" where
  "vfs_walk v cur [] = Some cur"
| "vfs_walk v cur (part # parts) =
     (if part = ''.'' \<or> part = ''..'' then vfs_walk v cur parts
      else
        case (case vn_findChild cur part of
                Some c \<Rightarrow> Some c
              | None \<Rightarrow>
                  if vi_mazePath (vinfo cur) \<noteq> [] then
                    find (\<lambda>gc. equal_fold (vi_name (vinfo gc)) part)
                      (buildMazeChildren (vi_mazePath (vinfo cur)) (vi_mazeDepth (vinfo cur)) (vf_maze v))
                  else None) of
          None \<Rightarrow> None
        | Some child \<Rightarrow> vfs_walk v child parts)"

definition vfs_resolve :: "vfs \<Rightarrow> string \<Rightarrow> string \<Rightarrow> vfs_node option" where
  "vfs_resolve v shareName filePath0 =
     (case vf_shares v (to_upper shareName) of
        None \<Rightarrow> None
      | Some root \<Rightarrow>
          let filePath = trim_left_set filePath0 [backslash_char, CHR ''/''] in
          if filePath = [] then Some root else vfs_walk v root (fields_func is_sep filePath))"

definition listMazeChildren :: "vfs \<Rightarrow> vfs_node \<Rightarrow> vfs_node list" where
  "listMazeChildren v n =
     (if \<not> mz_enabled (vf_maze v) \<or> vi_mazePath (vinfo n) = [] then []
      else buildMazeChildren (vi_mazePath (vinfo n)) (vi_mazeDepth (vinfo n)) (vf_maze v))"

section \<open>Handles\<close>

text \<open>An open handle: exactly one of node and pipe is present.\<close>

record file_handle =
  fh_node :: "vfs_node option"
  fh_shareName :: string
  fh_dirIdx :: nat
  fh_mazeChildren :: "vfs_node list option"
  fh_pipe :: "pipe_state option"

definition effectiveChildren :: "vfs \<Rightarrow> vfs_node \<Rightarrow> file_handle \<Rightarrow> file_handle \<times> vfs_node list" where
  "effectiveChildren v n h =
     (if vi_mazePath (vinfo n) = [] then (h, vkids n)
      else case fh_mazeChildren h of
             Some cs \<Rightarrow> (h, cs)
           | None \<Rightarrow> let cs = vkids n @ listMazeChildren v n in (h\<lparr>fh_mazeChildren := Some cs\<rparr>, cs))"

definition nextChild :: "vfs \<Rightarrow> vfs_node \<Rightarrow> file_handle \<Rightarrow> file_handle \<times> (string \<times> vfs_node) option" where
  "nextChild v n h0 =
     (let (h, cs) = effectiveChildren v n h0; h' = h\<lparr>fh_dirIdx := fh_dirIdx h + 1\<rparr> in
      if fh_dirIdx h = 0 then (h', Some (''.'', n))
      else if fh_dirIdx h = 1 then (h', Some (''..'', n))
      else
        let idx = fh_dirIdx h - 2 in
        if length cs \<le> idx then (h, None)
        else (h', Some (vi_name (vinfo (cs ! idx)), cs ! idx)))"

definition hasMoreChildren :: "vfs \<Rightarrow> vfs_node \<Rightarrow> file_handle \<Rightarrow> file_handle \<times> bool" where
  "hasMoreChildren v n h0 = (let (h, cs) = effectiveChildren v n h0 in (h, fh_dirIdx h < 2 + length cs))"

definition sec :: "int \<Rightarrow> int" where "sec t = t * 1000000000"

text \<open>The four times of a node, as every SMB structure lists them.\<close>

definition node_times :: "vfs_node \<Rightarrow> bytes" where
  "node_times n =
     windowsFiletime (sec (vi_created (vinfo n))) @ windowsFiletime (sec (vi_modified (vinfo n))) @
     windowsFiletime (sec (vi_modified (vinfo n))) @ windowsFiletime (sec (vi_modified (vinfo n)))"

definition buildDirEntry :: "string \<Rightarrow> vfs_node \<Rightarrow> byte \<Rightarrow> bytes" where
  "buildDirEntry name n infoClass =
     (let nameBuf = utf16LE name;
          nameOff = (if infoClass = 1 then 64 else if infoClass = 2 then 68 else if infoClass = 37 then 104 else 94);
          total = nameOff + length nameBuf;
          aligned = (total + 7) div 8 * 8
      in stores (zeros aligned)
           [(8, node_times n), (40, enc_le 8 (of_nat (vn_size n) :: u64)),
            (48, enc_le 8 (of_nat (vn_allocSize n) :: u64)), (56, enc_le 4 (vi_attrs (vinfo n))),
            (60, enc_le 4 (of_nat (length nameBuf) :: u32)), (nameOff, nameBuf)])"

section \<open>Refinement of the deception tree\<close>

lemma vinfo_from [simp]:
  "vi_name (vinfo (vfsNodeFrom n)) = ni_name (info n)"
  "vi_mazePath (vinfo (vfsNodeFrom n)) = ni_mazePath (info n)"
  "vi_mazeDepth (vinfo (vfsNodeFrom n)) = ni_mazeDepth (info n)"
  "vi_content (vinfo (vfsNodeFrom n)) = bytes_of (ni_content (info n))"
  "vi_attrs (vinfo (vfsNodeFrom n)) = smbAttrs (info n)"
  "vkids (vfsNodeFrom n) = map vfsNodeFrom (kids n)"
  by (cases n; simp)+

lemma find_map: "find P (map f xs) = map_option f (find (P \<circ> f) xs)"
  by (induction xs) auto

lemma vn_isDir_from [simp]: "vn_isDir (vfsNodeFrom n) = ni_dir (info n)"
proof -
  have "bit (smbAttrs i AND FileAttrDirectory) 4 = ni_dir i" for i
    by (simp add: smbAttrs_def attr_defs bit_simps)
  moreover have "smbAttrs i AND FileAttrDirectory = 0" if "\<not> ni_dir i" for i
    using that by (simp add: smbAttrs_def attr_defs)
  ultimately show ?thesis
    unfolding vn_isDir_def vinfo_from by (metis bit_0_eq bot_apply bot_bool_def)
qed

lemma walk_refines: "vfs_walk (vfsFromTree t) (vfsNodeFrom cur) parts = map_option vfsNodeFrom (walk t cur parts)"
proof (induction parts arbitrary: cur)
  case (Cons p parts)
  have "(case vn_findChild (vfsNodeFrom cur) p of
           Some c \<Rightarrow> Some c
         | None \<Rightarrow>
             if vi_mazePath (vinfo (vfsNodeFrom cur)) \<noteq> [] then
               find (\<lambda>gc. equal_fold (vi_name (vinfo gc)) p)
                 (buildMazeChildren (vi_mazePath (vinfo (vfsNodeFrom cur))) (vi_mazeDepth (vinfo (vfsNodeFrom cur)))
                   (vf_maze (vfsFromTree t)))
             else None) = map_option vfsNodeFrom (findChild t cur p)"
    by (simp add: vn_findChild_def findChild_def findChildIn_def buildMazeChildren_def vfsFromTree_def find_map o_def
        split: option.split)
  then show ?case
    using Cons.IH by (simp split: option.split)
qed simp

text \<open>C27. The SMB file system refines the deception tree: every lookup, on any share and path, finds
  the conversion of what the shared tree holds there, and nothing where the tree holds nothing.\<close>

theorem vfs_refines_tree:
  "vfs_resolve (vfsFromTree t) share path = map_option vfsNodeFrom (resolve t share path)"
  unfolding vfs_resolve_def resolve_def
  by (simp add: vfsFromTree_def Let_def walk_refines [unfolded vfsFromTree_def] split: option.split)

text \<open>A listing, too, shows what the tree's own enumeration shows as long as the maze is enabled;
  with the maze disabled it shows the planted entries only, although resolution still finds the
  generated ones.\<close>

lemma listing_refines:
  assumes "mz_enabled (tr_maze t)" "fh_mazeChildren h = None"
  shows "snd (effectiveChildren (vfsFromTree t) (vfsNodeFrom n) h) = map vfsNodeFrom (children t n)"
  using assms
  by (auto simp: effectiveChildren_def listMazeChildren_def children_def vfsFromTree_def buildMazeChildren_def Let_def)

lemma disabled_maze_lists_less:
  assumes "\<not> mz_enabled (tr_maze t)" "fh_mazeChildren h = None" "kids n = []" "ni_mazePath (info n) \<noteq> []"
    and "gc \<in> set (mazeChildren (ni_mazePath (info n)) (ni_mazeDepth (info n)) (tr_maze t))"
    and "ni_name (info gc) \<noteq> ''.''" "ni_name (info gc) \<noteq> ''..''"
  shows "snd (effectiveChildren (vfsFromTree t) (vfsNodeFrom n) h) = [] \<and>
    vfs_walk (vfsFromTree t) (vfsNodeFrom n) [ni_name (info gc)] \<noteq> None"
proof -
  have "findChild t n (ni_name (info gc)) \<noteq> None"
    using assms(3,4,5) by (auto simp: findChild_def findChildIn_def find_None_iff)
  then have "walk t n [ni_name (info gc)] \<noteq> None"
    using assms(6,7) by (auto split: option.split)
  then have "vfs_walk (vfsFromTree t) (vfsNodeFrom n) [ni_name (info gc)] \<noteq> None"
    unfolding walk_refines by simp
  then show ?thesis
    using assms by (simp add: effectiveChildren_def listMazeChildren_def vfsFromTree_def)
qed

end
