(* ===== verification/Smb_Session.thy ===== *)
theory Smb_Session
  imports Smb_Vfs Events "HOL-Library.Signed_Division"
begin

unbundle bit_operations_syntax

text \<open>
  The state of the SMB honeypot: the server with its counters (\<open>internal/honeypot/smb/server.go\<close>),
  the session of one connection (\<open>session.go\<close>), and dialect negotiation (\<open>negotiate.go\<close>).  A
  connection is handled by one goroutine, so a session is plain state; what several connections share
  (the counters, the last session and handle numbers) is the record \<open>smb_shared\<close>.
\<close>

section \<open>The server\<close>

record smb_server_config =
  sm_port :: u16
  sm_netBIOSPort :: bool
  sm_computerName :: string
  sm_domainName :: string
  sm_maze :: maze_config
  sm_shares :: "share_info list"
  sm_maxDialect :: u16
  sm_smb1Enabled :: bool
  sm_signingRequired :: bool
  sm_osVersion :: string
  sm_allowGuestEnum :: "bool option"
  sm_credentials :: "smb_cred list"
  sm_filesystem :: "tree_config option"
  sm_credStore :: "cred_store option"
  sm_configDir :: string

record smb_server =
  sv_cfg :: smb_server_config
  sv_guid :: bytes
  sv_bootTime :: int
  sv_allowGuest :: bool
  sv_vfs :: vfs

text \<open>The pseudo-random bytes of the code are the clock, stirred; \<open>ns\<close> is \<open>UnixNano\<close> on 64 bits,
  shifted arithmetically.\<close>

fun stir :: "nat \<Rightarrow> (nat \<Rightarrow> nat) \<Rightarrow> u64 \<Rightarrow> u64 \<Rightarrow> nat \<Rightarrow> u64 \<Rightarrow> bytes" where
  "stir 0 sh a c i ns = []"
| "stir (Suc n) sh a c i ns = ucast (signed_drop_bit (sh i) ns) # stir n sh a c (i + 1) (ns * a + c)"

definition genChallenge :: "u64 \<Rightarrow> bytes" where
  "genChallenge ns = stir 8 (\<lambda>i. i * 8) 6364136223846793005 1442695040888963407 0 ns"

definition generateGUID_smb :: "u64 \<Rightarrow> bytes" where
  "generateGUID_smb ns =
     (let g = stir 16 (\<lambda>i. i * 4) 1103515245 12345 0 ns
      in g[6 := (g ! 6 AND 0x0F) OR 0x40, 8 := (g ! 8 AND 0x3F) OR 0x80])"

text \<open>The boot time shown: 2 to 25 hours and up to an hour before now (nanoseconds).\<close>

definition fakeBootTime_smb :: "u64 \<Rightarrow> int \<Rightarrow> int" where
  "fakeBootTime_smb ns now =
     (let h = 2 + sint (signed_drop_bit 32 ns) smod 24; m = sint (signed_drop_bit 16 ns) smod 60
      in now - h * 3600000000000 - m * 60000000000)"

definition newSmbServer :: "(string \<Rightarrow> string option) \<Rightarrow> u64 \<Rightarrow> u64 \<Rightarrow> int \<Rightarrow> smb_server_config \<Rightarrow> smb_server" where
  "newSmbServer read ns ns' now cfg0 =
     (let cfg1 = (if sm_port cfg0 = 0 then cfg0\<lparr>sm_port := 445\<rparr> else cfg0);
          cfg2 = (if sm_computerName cfg1 = [] then cfg1\<lparr>sm_computerName := ''WORKSTATION''\<rparr> else cfg1);
          cfg3 = (if sm_domainName cfg2 = [] then cfg2\<lparr>sm_domainName := ''WORKGROUP''\<rparr> else cfg2);
          cfg4 = (if sm_maxDialect cfg3 = 0 then cfg3\<lparr>sm_maxDialect := dialect311\<rparr> else cfg3);
          maze = (if mz_minDirs (sm_maze cfg4) = 0 then defaultMazeConfig else sm_maze cfg4);
          default = vfsFromTree (defaultTree maze);
          (vfs, cfg5) =
            (case sm_filesystem cfg4 of
               None \<Rightarrow> (default, cfg4)
             | Some fs0 \<Rightarrow>
                 let fs = (if mz_minDirs (tc_maze fs0) = 0 then fs0\<lparr>tc_maze := maze\<rparr> else fs0) in
                 (case buildTree read fs (sm_credStore cfg4) (sm_configDir cfg4) of
                    Inl _ \<Rightarrow> (default, cfg4)
                  | Inr t \<Rightarrow>
                      (vfsFromTree t,
                       if sm_shares cfg4 = [] then cfg4\<lparr>sm_shares := sharesFromTreeConfig fs\<rparr> else cfg4)));
          cfg = (if sm_shares cfg5 = [] then cfg5\<lparr>sm_shares := defaultShares\<rparr> else cfg5)
      in \<lparr>sv_cfg = cfg, sv_guid = generateGUID_smb ns', sv_bootTime = fakeBootTime_smb ns now,
          sv_allowGuest = (case sm_allowGuestEnum cfg of None \<Rightarrow> True | Some b \<Rightarrow> b), sv_vfs = vfs\<rparr>)"

record smb_shared =
  sg_nextSession :: u64
  sg_handleSeq :: u64
  sg_connections :: u64
  sg_authentications :: u64
  sg_treeConnects :: u64
  sg_credentials :: u64

section \<open>Sessions\<close>

datatype session_state = StateNew | StateNegotiated | StateSetupPending | StateAuthenticated

fun state_rank :: "session_state \<Rightarrow> nat" where
  "state_rank StateNew = 0"
| "state_rank StateNegotiated = 1"
| "state_rank StateSetupPending = 2"
| "state_rank StateAuthenticated = 3"

lemma state_rank_inj: "state_rank a = state_rank b \<Longrightarrow> a = b"
  by (cases a; cases b) auto

instantiation session_state :: linorder
begin

definition less_eq_session_state :: "session_state \<Rightarrow> session_state \<Rightarrow> bool" where
  "less_eq_session_state a b \<longleftrightarrow> state_rank a \<le> state_rank b"

definition less_session_state :: "session_state \<Rightarrow> session_state \<Rightarrow> bool" where
  "less_session_state a b \<longleftrightarrow> state_rank a < state_rank b"

instance
  by standard (auto simp: less_eq_session_state_def less_session_state_def dest: state_rank_inj)

end

lemma below_authenticated [simp]: "st < StateAuthenticated \<longleftrightarrow> st \<noteq> StateAuthenticated"
  by (cases st) (simp_all add: less_session_state_def)

record smb_session =
  ss_id :: u64
  ss_remote :: string
  ss_state :: session_state
  ss_dialect :: u16
  ss_challenge :: bytes
  ss_trees :: "u32 \<rightharpoonup> string"
  ss_nextTree :: u32
  ss_handles :: "u64 \<rightharpoonup> file_handle"
  ss_smb1Trees :: "u16 \<rightharpoonup> string"
  ss_smb1Handles :: "u16 \<rightharpoonup> pipe_state"
  ss_smb1NextTID :: u16
  ss_smb1NextFID :: u16
  ss_preauth :: bytes
  ss_signingKey :: bytes
  ss_signingActive :: bool
  ss_guest :: bool
  ss_seeded :: bool

definition newSession :: "string \<Rightarrow> smb_session" where
  "newSession remote =
     \<lparr>ss_id = 0, ss_remote = remote, ss_state = StateNew, ss_dialect = 0, ss_challenge = zeros 8,
      ss_trees = Map.empty, ss_nextTree = 0, ss_handles = Map.empty, ss_smb1Trees = Map.empty,
      ss_smb1Handles = Map.empty, ss_smb1NextTID = 0, ss_smb1NextFID = 0, ss_preauth = [],
      ss_signingKey = [], ss_signingActive = False, ss_guest = False, ss_seeded = False\<rparr>"

definition preauthInit :: "smb_session \<Rightarrow> smb_session" where
  "preauthInit s = (if ss_preauth s = [] then s\<lparr>ss_preauth := zeros 64\<rparr> else s)"

definition preauthUpdate :: "crypto \<Rightarrow> bytes \<Rightarrow> smb_session \<Rightarrow> smb_session" where
  "preauthUpdate C msg s = (if ss_preauth s = [] then s else s\<lparr>ss_preauth := sha512 C (ss_preauth s @ msg)\<rparr>)"

definition canAccessAdminShare :: "smb_session \<Rightarrow> bool" where
  "canAccessAdminShare s = (if ss_seeded s then True else \<not> ss_guest s)"

definition allocTree :: "string \<Rightarrow> smb_session \<Rightarrow> smb_session \<times> u32" where
  "allocTree path s =
     (let k = ss_nextTree s + 1 in (s\<lparr>ss_nextTree := k, ss_trees := (ss_trees s)(k \<mapsto> path)\<rparr>, k))"

definition freeTree :: "u32 \<Rightarrow> smb_session \<Rightarrow> smb_session" where
  "freeTree k s = s\<lparr>ss_trees := (ss_trees s)(k := None)\<rparr>"

definition treePathFor :: "smb_session \<Rightarrow> u32 \<Rightarrow> string" where
  "treePathFor s k = (case ss_trees s k of None \<Rightarrow> [] | Some p \<Rightarrow> p)"

text \<open>A new handle gets the next number of the process-wide sequence.\<close>

definition alloc_handle :: "file_handle \<Rightarrow> smb_shared \<Rightarrow> smb_session \<Rightarrow> smb_shared \<times> smb_session \<times> u64" where
  "alloc_handle h g s =
     (let k = sg_handleSeq g + 1 in (g\<lparr>sg_handleSeq := k\<rparr>, s\<lparr>ss_handles := (ss_handles s)(k \<mapsto> h)\<rparr>, k))"

definition allocHandle :: "vfs_node \<Rightarrow> string \<Rightarrow> smb_shared \<Rightarrow> smb_session \<Rightarrow> smb_shared \<times> smb_session \<times> u64" where
  "allocHandle n share =
     alloc_handle \<lparr>fh_node = Some n, fh_shareName = share, fh_dirIdx = 0, fh_mazeChildren = None, fh_pipe = None\<rparr>"

definition allocPipeHandle :: "pipe_state \<Rightarrow> smb_shared \<Rightarrow> smb_session \<Rightarrow> smb_shared \<times> smb_session \<times> u64" where
  "allocPipeHandle p =
     alloc_handle \<lparr>fh_node = None, fh_shareName = [], fh_dirIdx = 0, fh_mazeChildren = None, fh_pipe = Some p\<rparr>"

definition put_handle :: "u64 \<Rightarrow> file_handle \<Rightarrow> smb_session \<Rightarrow> smb_session" where
  "put_handle k h s = s\<lparr>ss_handles := (ss_handles s)(k \<mapsto> h)\<rparr>"

definition freeHandle :: "u64 \<Rightarrow> smb_session \<Rightarrow> smb_session" where
  "freeHandle k s = s\<lparr>ss_handles := (ss_handles s)(k := None)\<rparr>"

definition resetDir :: "file_handle \<Rightarrow> file_handle" where
  "resetDir h = h\<lparr>fh_dirIdx := 0, fh_mazeChildren := None\<rparr>"

section \<open>Negotiation\<close>

definition supportedDialects :: "u16 list" where
  "supportedDialects = [dialect311, dialect302, dialect300, dialect210, dialect202]"

definition DialectFromString :: "string \<Rightarrow> u16" where
  "DialectFromString s =
     (if s = ''1.0'' then dialectSMB1
      else if s = ''2.0'' \<or> s = ''2.0.2'' then dialect202
      else if s = ''2.1'' then dialect210
      else if s = ''3.0'' then dialect300
      else if s = ''3.0.2'' then dialect302
      else if s = ''3.1.1'' then dialect311
      else 0)"

definition selectDialect :: "u16 list \<Rightarrow> u16 \<Rightarrow> u16" where
  "selectDialect offered max0 =
     (let mx = (if max0 = 0 then dialect311 else max0) in
      case find (\<lambda>d. d \<le> mx \<and> d \<in> set offered) supportedDialects of Some d \<Rightarrow> d | None \<Rightarrow> 0)"

definition smb2ParseDialects :: "bytes \<Rightarrow> u16 list" where
  "smb2ParseDialects body =
     (if length body < 38 then supportedDialects
      else
        let count = unat (le16 body 2) in
        if count = 0 \<or> length body < 36 + count * 2 then supportedDialects
        else words16 (take (count * 2) (drop 36 body)))"

definition append_context :: "u16 \<Rightarrow> bytes \<Rightarrow> bytes" where
  "append_context ty data = u16b ty @ u16b (of_nat (length data)) @ zeros 4 @ data"

definition buildNegotiateContexts :: "smb_server \<Rightarrow> u64 \<Rightarrow> bytes" where
  "buildNegotiateContexts sv ns =
     append_context 1 (u16b 1 @ u16b 32 @ u16b 1 @ stir 32 (\<lambda>_. 0) 1103515245 12345 0 ns) @
     append_context 0x000F (utf16LE (sm_computerName (sv_cfg sv)) @ [0, 0])"

text \<open>What the process observes while it handles a frame: the clock, in nanoseconds and as the
  64-bit seed of what is drawn.\<close>

record smb_tick =
  tk_now :: int
  tk_ns :: u64

definition negotiate_body :: "smb_server \<Rightarrow> smb_tick \<Rightarrow> u16 \<Rightarrow> bytes" where
  "negotiate_body sv t dialect =
     (let spnego = buildSPNEGONegotiateToken;
          has_ctx = (dialect = dialect311);
          ctxOff = (if has_ctx then (128 + length spnego + 7) div 8 * 8 else 0);
          secMode = (if sm_signingRequired (sv_cfg sv) then 3 else 1 :: u16);
          b = stores (zeros 64)
            [(0, u16b 65), (2, u16b secMode), (4, u16b dialect), (6, u16b (if has_ctx then 2 else 0)),
             (8, take 16 (sv_guid sv)), (24, u32b 0x1F), (28, u32b 8388608), (32, u32b 8388608),
             (36, u32b 8388608), (40, windowsFiletime (tk_now t)), (48, windowsFiletime (sv_bootTime sv)),
             (56, u16b 128), (58, u16b (of_nat (length spnego))), (60, u32b (of_nat ctxOff))];
          body = b @ spnego
      in if has_ctx then body @ zeros ((8 - length body mod 8) mod 8) @ buildNegotiateContexts sv (tk_ns t) else body)"

definition buildNegotiateResponse ::
  "smb_server \<Rightarrow> smb_tick \<Rightarrow> smb_session \<Rightarrow> smb2_header \<Rightarrow> u16 list \<Rightarrow> smb_session \<times> bytes" where
  "buildNegotiateResponse sv t s req offered =
     (let dialect = selectDialect offered (sm_maxDialect (sv_cfg sv)) in
      if dialect = 0 then (s, buildPacket req StatusNotSupported 0 0 buildErrorBody)
      else
        (s\<lparr>ss_state := StateNegotiated, ss_dialect := dialect\<rparr>,
         buildPacket req StatusSuccess 0 0 (negotiate_body sv t dialect)))"

definition handleNegotiate :: "smb_server \<Rightarrow> smb_tick \<Rightarrow> smb_session \<Rightarrow> smb2_header \<Rightarrow> bytes \<Rightarrow> smb_session \<times> bytes" where
  "handleNegotiate sv t s req body = buildNegotiateResponse sv t s req (smb2ParseDialects body)"

lemma find_greatest:
  "sorted_wrt (\<ge>) xs \<Longrightarrow> find P xs = Some (d :: 'a::linorder) \<Longrightarrow>
   d \<in> set xs \<and> P d \<and> (\<forall>e \<in> set xs. P e \<longrightarrow> e \<le> d)"
  by (induction xs) (auto split: if_splits)

lemma supported_descending: "sorted_wrt (\<ge>) supportedDialects" "0 \<notin> set supportedDialects"
  by (simp_all add: supportedDialects_def dialect_defs)

text \<open>The dialect chosen is the best possible: it is one the client offered, one the server
  supports and not above the profile's ceiling, every such dialect is at most it, and none is chosen
  exactly when there is none.\<close>

theorem dialect_is_best:
  assumes "mx \<noteq> 0" "d = selectDialect offered mx"
  shows "(d \<noteq> 0 \<longrightarrow> d \<in> set offered \<and> d \<in> set supportedDialects \<and> d \<le> mx) \<and>
    (\<forall>e \<in> set offered. e \<in> set supportedDialects \<and> e \<le> mx \<longrightarrow> e \<le> d \<and> d \<noteq> 0)"
proof (cases "find (\<lambda>d. d \<le> mx \<and> d \<in> set offered) supportedDialects")
  case None
  then have "\<forall>e \<in> set supportedDialects. \<not> (e \<le> mx \<and> e \<in> set offered)"
    by (auto simp: find_None_iff)
  with None assms show ?thesis
    by (auto simp: selectDialect_def)
next
  case (Some e)
  have "d = e" using Some assms by (simp add: selectDialect_def)
  with find_greatest [OF supported_descending(1) Some] supported_descending(2) show ?thesis by metis
qed

theorem dialect_is_best_witness:
  "selectDialect [dialect202, dialect302, dialect311] dialect302 \<noteq> 0 \<and>
   dialect202 \<le> selectDialect [dialect202, dialect302, dialect311] dialect302"
proof -
  have "dialect302 \<noteq> 0" "dialect202 \<le> dialect302" "dialect202 \<in> set supportedDialects"
    by (simp_all add: dialect_defs supportedDialects_def word_le_nat_alt)
  then show ?thesis
    using dialect_is_best [OF _ refl, of dialect302 "[dialect202, dialect302, dialect311]"] by simp
qed

end
