(* ===== verification/Smb_Server.thy ===== *)
theory Smb_Server
  imports Smb_Session
begin

unbundle bit_operations_syntax

text \<open>
  The SMB2 handlers of the honeypot (\<open>internal/honeypot/smb/server.go\<close>).  A handler takes the shared
  counters, the session and the request and returns them updated with the response and the events it
  emits; a handler that can panic returns an option, None for the panic.
\<close>

section \<open>Helpers\<close>

type_synonym smb_result = "smb_shared \<times> smb_session \<times> bytes \<times> event list"

definition smb_event :: "smb_server \<Rightarrow> smb_session \<Rightarrow> event \<Rightarrow> event" where
  "smb_event sv s ev = splitHostPort (ss_remote s) (ev\<lparr>ev_service := ''smb'', ev_dstPort := sm_port (sv_cfg sv)\<rparr>)"

definition split3 :: "string \<Rightarrow> string list" where
  "split3 s =
     (case split_on (CHR ''.'') s of
        a # b # c # rest \<Rightarrow> [a, b, join_with (CHR ''.'') (c # rest)]
      | parts \<Rightarrow> parts)"

definition osVersionTriple :: "smb_server \<Rightarrow> byte \<times> byte \<times> u16" where
  "osVersionTriple sv =
     (let parts = split3 (sm_osVersion (sv_cfg sv));
          num = (\<lambda>i d. if i < length parts then (case atoi_ok (parts ! i) of Some v \<Rightarrow> v | None \<Rightarrow> d) else d)
      in (word_of_int (num 0 10), word_of_int (num 1 0), word_of_int (num 2 19041)))"

definition extractSecBuf :: "bytes \<Rightarrow> bytes \<Rightarrow> bytes" where
  "extractSecBuf body frame =
     (if length body < 16 then []
      else
        let start = 4 + unat (le16 body 12); len = unat (le16 body 14)
        in if len = 0 \<or> length frame < start + len then [] else take len (drop start frame))"

definition extractTreePath :: "bytes \<Rightarrow> bytes \<Rightarrow> string" where
  "extractTreePath body frame =
     (if length body < 8 then []
      else
        let start = 4 + unat (le16 body 4); len = unat (le16 body 6)
        in if len = 0 \<or> length frame < start + len then [] else utf16_string (take len (drop start frame)))"

definition shareFromTree :: "string \<Rightarrow> string" where
  "shareFromTree path =
     (let s = trim_left_set path [backslash_char, CHR ''/''];
          rest = dropWhile (\<lambda>c. \<not> is_sep c) s
      in to_upper (if rest = [] then s else tl rest))"

definition isKnownShare :: "smb_server \<Rightarrow> string \<Rightarrow> bool" where
  "isKnownShare sv name \<longleftrightarrow>
     equal_fold name ''IPC$'' \<or> (\<exists>sh \<in> set (sm_shares (sv_cfg sv)). equal_fold (si_name sh) name)"

definition pipeContext :: "smb_server \<Rightarrow> bool \<Rightarrow> pipe_context" where
  "pipeContext sv authenticated =
     \<lparr>pc_shares = sm_shares (sv_cfg sv),
      pc_env = \<lparr>re_computerName = sm_computerName (sv_cfg sv), re_domainName = sm_domainName (sv_cfg sv),
                re_users = baitUsers (sm_credentials (sv_cfg sv)), re_authenticated = authenticated\<rparr>\<rparr>"

definition buildSessionSetupBody :: "u16 \<Rightarrow> bytes \<Rightarrow> bytes" where
  "buildSessionSetupBody flags secBuf = u16b 9 @ u16b flags @ u16b 72 @ u16b (of_nat (length secBuf)) @ secBuf"

definition inc_auth :: "smb_shared \<Rightarrow> smb_shared" where
  "inc_auth g = g\<lparr>sg_authentications := sg_authentications g + 1\<rparr>"

section \<open>Session setup\<close>

definition assign_id :: "smb_shared \<Rightarrow> smb_session \<Rightarrow> smb_shared \<times> smb_session" where
  "assign_id g s =
     (if ss_id s = 0 then let k = sg_nextSession g + 1 in (g\<lparr>sg_nextSession := k\<rparr>, s\<lparr>ss_id := k\<rparr>) else (g, s))"

definition doChallenge :: "smb_server \<Rightarrow> smb_tick \<Rightarrow> smb_shared \<Rightarrow> smb_session \<Rightarrow> smb2_header \<Rightarrow> smb_result" where
  "doChallenge sv t g0 s0 req =
     (let (g, s) = assign_id g0 s0; challenge = genChallenge (tk_ns t); (major, minor, build) = osVersionTriple sv;
          spnego = buildSPNEGOChallengeToken
            (buildNTLMChallenge (tk_now t) (sm_computerName (sv_cfg sv)) (sm_domainName (sv_cfg sv)) challenge major minor build)
      in (g, s\<lparr>ss_challenge := challenge, ss_state := StateSetupPending\<rparr>,
          buildPacket req StatusMoreProcessing (ss_id s) 0 (buildSessionSetupBody 0 spnego), []))"

definition guest_or_deny :: "smb_server \<Rightarrow> smb_shared \<Rightarrow> smb_session \<Rightarrow> smb2_header \<Rightarrow> event list \<Rightarrow> smb_result" where
  "guest_or_deny sv g s req evs =
     (if \<not> sv_allowGuest sv then
        (g, s, buildPacket req StatusLogonFailure (ss_id s) 0 (buildSessionSetupBody 0 []), evs)
      else
        (inc_auth g, s\<lparr>ss_state := StateAuthenticated, ss_guest := True\<rparr>,
         buildPacket req StatusSuccess (ss_id s) 0 (buildSessionSetupBody 1 buildSPNEGOAcceptToken), evs))"

definition doAnonymous :: "smb_server \<Rightarrow> smb_shared \<Rightarrow> smb_session \<Rightarrow> smb2_header \<Rightarrow> smb_result" where
  "doAnonymous sv g0 s0 req = (let (g, s) = assign_id g0 s0 in guest_or_deny sv g s req [])"

definition setupSigning :: "crypto \<Rightarrow> smb_session \<Rightarrow> smb_cred \<Rightarrow> ntlm_creds \<Rightarrow> smb_session \<times> bool" where
  "setupSigning C s cred auth =
     (case ntlmSessionBaseKey C cred (nc_username auth) (nc_domain auth) (nc_ntResponse auth) of
        None \<Rightarrow> (s, False)
      | Some base \<Rightarrow>
          let sk = deriveSigningKey C (exportedSessionKey C base (nc_flags auth) (nc_sessionKey auth)) (ss_dialect s) (ss_preauth s)
          in if length sk < 16 then (s, False) else (s\<lparr>ss_signingKey := sk, ss_signingActive := True\<rparr>, True))"

definition doAccept ::
  "crypto \<Rightarrow> smb_server \<Rightarrow> smb_shared \<Rightarrow> smb_session \<Rightarrow> smb2_header \<Rightarrow> bytes \<Rightarrow> smb_result" where
  "doAccept C sv g0 s0 req ntlmBlob =
     (let (g1, s) = assign_id g0 s0 in
      case parseNTLMAuth ntlmBlob of
        Inl _ \<Rightarrow> guest_or_deny sv g1 s req []
      | Inr creds \<Rightarrow>
          let g = g1\<lparr>sg_credentials := sg_credentials g1 + 1\<rparr>;
              captured = smb_event sv s ((blank_event CredCapture)\<lparr>ev_severity := SevAlert,
                ev_message := ''SMB NTLM credential captured'',
                ev_fields := [''username'' \<mapsto> FStr (nc_username creds), ''domain'' \<mapsto> FStr (nc_domain creds),
                  ''workstation'' \<mapsto> FStr (nc_workstation creds)]\<rparr>)
          in case (if nc_username creds = [] then None
                   else case matchCredential (sm_credentials (sv_cfg sv)) (nc_username creds) of
                          None \<Rightarrow> None
                        | Some cred \<Rightarrow>
                            if verifyCredential C cred (nc_username creds) (nc_domain creds) (ss_challenge s) (nc_ntResponse creds)
                            then Some cred else None) of
               None \<Rightarrow> guest_or_deny sv g s req [captured]
             | Some cred \<Rightarrow>
                 let (s', signing) = setupSigning C
                       (s\<lparr>ss_state := StateAuthenticated, ss_seeded := True, ss_guest := False\<rparr>) cred creds
                 in (inc_auth g, s',
                     buildPacket req StatusSuccess (ss_id s) 0
                       (buildSessionSetupBody (if signing then 0 else 1) buildSPNEGOAcceptToken),
                     [captured,
                      smb_event sv s ((blank_event AuthSuccess)\<lparr>ev_severity := SevWarn,
                        ev_message := ''SMB seeded credential authenticated'',
                        ev_fields := [''username'' \<mapsto> FStr (nc_username creds), ''domain'' \<mapsto> FStr (nc_domain creds)]\<rparr>)]))"

definition handleSessionSetup ::
  "crypto \<Rightarrow> smb_server \<Rightarrow> smb_tick \<Rightarrow> smb_shared \<Rightarrow> smb_session \<Rightarrow> smb2_header \<Rightarrow> bytes \<Rightarrow> bytes \<Rightarrow> smb_result" where
  "handleSessionSetup C sv t g s req body frame =
     (let secBuf = extractSecBuf body frame;
          refuse = (g, s, buildPacket req StatusLogonFailure (ss_id s) 0 (buildSessionSetupBody 0 []), []);
          blob = (case findNTLMBlob secBuf of None \<Rightarrow> [] | Some b \<Rightarrow> b)
      in if length blob < 12 then (if secBuf = [] then doAnonymous sv g s req else refuse)
         else
           let msgType = le32 blob 8 in
           if msgType = 1 then doChallenge sv t g s req
           else if msgType = 3 then doAccept C sv g s req blob
           else refuse)"

section \<open>Trees and files\<close>

definition handleTreeConnect ::
  "smb_server \<Rightarrow> smb_shared \<Rightarrow> smb_session \<Rightarrow> smb2_header \<Rightarrow> bytes \<Rightarrow> bytes \<Rightarrow> smb_result" where
  "handleTreeConnect sv g s req body frame =
     (let deny = (\<lambda>st. (g, s, buildPacket req st (ss_id s) 0 buildErrorBody, [])) in
      if ss_state s < StateAuthenticated then deny StatusAccessDenied
      else
        let path = extractTreePath body frame; share = shareFromTree path in
        if \<not> canAccessAdminShare s \<and> isAdminShare share then deny StatusAccessDenied
        else if \<not> isKnownShare sv share then deny StatusBadNetworkName
        else
          let (s', tree) = allocTree path s;
              tcBody = stores (zeros 16)
                [(0, u16b 16), (2, [if equal_fold share ''IPC$'' then 2 else 1]), (4, u32b 0x800), (12, u32b 0x001f01ff)]
          in (g\<lparr>sg_treeConnects := sg_treeConnects g + 1\<rparr>, s',
              buildPacket req StatusSuccess (ss_id s) tree tcBody, []))"

definition pipe_open_body :: "smb_server \<Rightarrow> u64 \<Rightarrow> bytes" where
  "pipe_open_body sv k =
     (let ft = windowsFiletime (sv_bootTime sv)
      in stores (zeros 88) [(0, u16b 89), (4, u32b 1), (8, ft @ ft @ ft @ ft), (56, u32b 0x80), (72, enc_le 8 k)])"

definition file_open_body :: "vfs_node \<Rightarrow> u64 \<Rightarrow> bytes" where
  "file_open_body n k =
     stores (zeros 88)
       [(0, u16b 89), (4, u32b 1), (8, node_times n), (40, enc_le 8 (of_nat (vn_allocSize n) :: u64)),
        (48, enc_le 8 (of_nat (vn_size n) :: u64)), (56, u32b (vi_attrs (vinfo n))), (72, enc_le 8 k)]"

definition create_path :: "bytes \<Rightarrow> bytes \<Rightarrow> string" where
  "create_path body frame =
     (let start = 4 + unat (le16 body 44); len = unat (le16 body 46)
      in if len = 0 \<or> length frame < start + len then [] else utf16_string (take len (drop start frame)))"

definition handleCreate ::
  "smb_server \<Rightarrow> smb_shared \<Rightarrow> smb_session \<Rightarrow> smb2_header \<Rightarrow> bytes \<Rightarrow> bytes \<Rightarrow> smb_result" where
  "handleCreate sv g s req body frame =
     (let reply = (\<lambda>st. buildPacket req st (ss_id s) (h2_treeID req)) in
      if ss_state s < StateAuthenticated then (g, s, reply StatusAccessDenied buildErrorBody, [])
      else if length body < 57 then (g, s, reply StatusInvalidParam buildErrorBody, [])
      else
        let path = create_path body frame; share = shareFromTree (treePathFor s (h2_treeID req)) in
        if equal_fold share ''IPC$'' then
          let name0 = canonicalizePipeName path; name = (if name0 = [] then ''srvsvc'' else name0);
              (g', s', k) = allocPipeHandle (newPipeState name) g s
          in (g', s', reply StatusSuccess (pipe_open_body sv k), [])
        else
          case vfs_resolve (sv_vfs sv) share path of
            None \<Rightarrow> (g, s, reply StatusObjectNotFound buildErrorBody, [])
          | Some n \<Rightarrow>
              let (g', s', k) = allocHandle n share g s in (g', s', reply StatusSuccess (file_open_body n k), []))"

definition handleClose ::
  "smb_tick \<Rightarrow> smb_shared \<Rightarrow> smb_session \<Rightarrow> smb2_header \<Rightarrow> bytes \<Rightarrow> smb_result" where
  "handleClose t g s req body =
     (let reply = (\<lambda>st. buildPacket req st (ss_id s) (h2_treeID req)); k = le64 body 16 in
      if length body < 24 then (g, s, reply StatusInvalidParam buildErrorBody, [])
      else
        case ss_handles s k of
          None \<Rightarrow> (g, s, reply StatusInvalidParam buildErrorBody, [])
        | Some h \<Rightarrow>
            (g, freeHandle k s,
             reply StatusSuccess
               (case fh_node h of
                  Some n \<Rightarrow>
                    stores (zeros 60)
                      [(0, u16b 60), (8, node_times n), (40, enc_le 8 (of_nat (vn_allocSize n) :: u64)),
                       (48, enc_le 8 (of_nat (vn_size n) :: u64)), (56, u32b (vi_attrs (vinfo n)))]
                | None \<Rightarrow>
                    let now = windowsFiletime (tk_now t) in stores (zeros 60) [(0, u16b 60), (8, now @ now @ now @ now)]),
             []))"

section \<open>Enumeration\<close>

lemma effectiveChildren_again [simp]:
  "effectiveChildren v n (fst (effectiveChildren v n h)) = (fst (effectiveChildren v n h), snd (effectiveChildren v n h))"
  by (auto simp: effectiveChildren_def Let_def split: option.splits)

lemma effectiveChildren_idx [simp]:
  "fh_dirIdx (fst (effectiveChildren v n h)) = fh_dirIdx h"
  "snd (effectiveChildren v n (h\<lparr>fh_dirIdx := i\<rparr>)) = snd (effectiveChildren v n h)"
  "fst (effectiveChildren v n (h\<lparr>fh_dirIdx := i\<rparr>)) = (fst (effectiveChildren v n h))\<lparr>fh_dirIdx := i\<rparr>"
  by (auto simp: effectiveChildren_def Let_def split: option.splits)

text \<open>The packing loop of a query: entries are added while there are any and, after the first, as
  long as they fit.\<close>

function query_loop ::
  "vfs \<Rightarrow> vfs_node \<Rightarrow> byte \<Rightarrow> nat \<Rightarrow> file_handle \<Rightarrow> bytes list \<Rightarrow> nat \<Rightarrow> file_handle \<times> bytes list" where
  "query_loop v n cls out h packed sz =
     (case hasMoreChildren v n h of (h1, m) \<Rightarrow>
        if \<not> m then (h1, packed)
        else
          (case nextChild v n h1 of
            (h2, None) \<Rightarrow> (h2, packed)
          | (h2, Some (name, c)) \<Rightarrow>
              let e = buildDirEntry name c cls in
              if out < sz + length e \<and> packed \<noteq> [] then (h2\<lparr>fh_dirIdx := fh_dirIdx h2 - 1\<rparr>, packed)
              else query_loop v n cls out h2 (packed @ [e]) (sz + length e)))"
  by pat_completeness auto
termination
  by (relation "measure (\<lambda>(v, n, cls, out, h, packed, sz). 2 + length (snd (effectiveChildren v n h)) - fh_dirIdx h)")
    (auto simp: hasMoreChildren_def nextChild_def Let_def case_prod_beta split: if_splits)

declare query_loop.simps [simp del]

fun chain_entries :: "bytes list \<Rightarrow> bytes" where
  "chain_entries [] = []"
| "chain_entries [e] = e"
| "chain_entries (e # es) = overwrite e 0 (u32b (of_nat (length e))) @ chain_entries es"

definition info_reply :: "bytes \<Rightarrow> bytes" where
  "info_reply buf = u16b 9 @ u16b 72 @ u32b (of_nat (length buf)) @ buf"

definition handleQueryDirectory ::
  "smb_server \<Rightarrow> smb_shared \<Rightarrow> smb_session \<Rightarrow> smb2_header \<Rightarrow> bytes \<Rightarrow> smb_result" where
  "handleQueryDirectory sv g s req body =
     (let reply = (\<lambda>st. buildPacket req st (ss_id s) (h2_treeID req)); k = le64 body 16; v = sv_vfs sv in
      if length body < 32 then (g, s, reply StatusInvalidParam buildErrorBody, [])
      else
        case ss_handles s k of
          None \<Rightarrow> (g, s, reply StatusInvalidParam buildErrorBody, [])
        | Some h0 \<Rightarrow>
            (case fh_node h0 of
               None \<Rightarrow> (g, s, reply StatusInvalidParam buildErrorBody, [])
             | Some n \<Rightarrow>
                 if \<not> vn_isDir n then (g, s, reply StatusNotADirectory buildErrorBody, [])
                 else
                   let h1 = (if body ! 3 AND 1 \<noteq> 0 then resetDir h0 else h0); (h2, m) = hasMoreChildren v n h1 in
                   if \<not> m then (g, put_handle k h2 s, reply StatusNoMoreFiles buildErrorBody, [])
                   else
                     let (h3, packed) = query_loop v n (body ! 2) (unat (le32 body 28)) h2 [] 0
                     in (g, put_handle k h3 s, reply StatusSuccess (info_reply (chain_entries packed)), [])))"

section \<open>Information\<close>

definition basic_info :: "vfs_node \<Rightarrow> bytes" where
  "basic_info n = stores (zeros 40) [(0, node_times n), (32, u32b (vi_attrs (vinfo n)))]"

definition standard_info :: "vfs_node \<Rightarrow> bytes" where
  "standard_info n =
     stores (zeros 24)
       [(0, enc_le 8 (of_nat (vn_allocSize n) :: u64)), (8, enc_le 8 (of_nat (vn_size n) :: u64)), (16, u32b 1),
        (21, [if vn_isDir n then 1 else 0])]"

definition network_open_info :: "vfs_node \<Rightarrow> bytes" where
  "network_open_info n =
     stores (zeros 56)
       [(0, node_times n), (32, enc_le 8 (of_nat (vn_allocSize n) :: u64)), (40, enc_le 8 (of_nat (vn_size n) :: u64)),
        (48, u32b (vi_attrs (vinfo n)))]"

definition all_info :: "vfs_node \<Rightarrow> bytes" where
  "all_info n =
     (let name = utf16LE (vi_name (vinfo n))
      in stores (zeros (100 + length name))
           [(0, node_times n), (32, u32b (vi_attrs (vinfo n))), (40, enc_le 8 (of_nat (vn_allocSize n) :: u64)),
            (48, enc_le 8 (of_nat (vn_size n) :: u64)), (56, u32b 1), (61, [if vn_isDir n then 1 else 0]),
            (76, u32b 0x001f01ff), (96, u32b (of_nat (length name))), (100, name)])"

definition fs_info :: "byte \<Rightarrow> bytes option" where
  "fs_info cls =
     (if cls = 1 then
        (let label = utf16LE ''Windows''
         in Some (stores (zeros (18 + length label))
              [(0, windowsFiletime (sec baseTime)), (8, u32b 0x12345678), (12, u32b (of_nat (length label))), (18, label)]))
      else if cls = 3 then
        Some (enc_le 8 (25165824 :: u64) @ enc_le 8 (12582912 :: u64) @ u32b 8 @ u32b 512)
      else if cls = 5 then
        (let name = utf16LE ''NTFS'' in Some (u32b 0x0002003F @ u32b 255 @ u32b (of_nat (length name)) @ name))
      else if cls = 7 then
        Some (enc_le 8 (25165824 :: u64) @ enc_le 8 (12582912 :: u64) @ enc_le 8 (12582912 :: u64) @ u32b 8 @ u32b 512)
      else None)"

text \<open>A pipe handle has no node: the four file classes dereference it.\<close>

definition handleQueryInfo ::
  "smb_shared \<Rightarrow> smb_session \<Rightarrow> smb2_header \<Rightarrow> bytes \<Rightarrow> smb_result option" where
  "handleQueryInfo g s req body =
     (let reply = (\<lambda>st b. (g, s, buildPacket req st (ss_id s) (h2_treeID req) b, [])); k = le64 body 32 in
      if length body < 40 then Some (reply StatusInvalidParam buildErrorBody)
      else
        case ss_handles s k of
          None \<Rightarrow> Some (reply StatusInvalidParam buildErrorBody)
        | Some h \<Rightarrow>
            let ty = body ! 2; cls = body ! 3 in
            if ty = 1 then
              (if cls \<notin> {4, 5, 34, 18} then Some (reply StatusNotSupported buildErrorBody)
               else
                 case fh_node h of
                   None \<Rightarrow> None
                 | Some n \<Rightarrow>
                     Some (reply StatusSuccess
                       (info_reply (if cls = 4 then basic_info n else if cls = 5 then standard_info n
                                    else if cls = 34 then network_open_info n else all_info n))))
            else if ty = 2 then
              (case fs_info cls of
                 None \<Rightarrow> Some (reply StatusNotSupported buildErrorBody)
               | Some b \<Rightarrow> Some (reply StatusSuccess (info_reply b)))
            else Some (reply StatusNotSupported buildErrorBody))"

section \<open>Reading, writing, pipes\<close>

definition read_reply :: "bytes \<Rightarrow> bytes" where
  "read_reply data = stores (zeros 16) [(0, u16b 17), (2, [80]), (4, u32b (of_nat (length data)))] @ data"

definition handleRead ::
  "smb_server \<Rightarrow> smb_shared \<Rightarrow> smb_session \<Rightarrow> smb2_header \<Rightarrow> bytes \<Rightarrow> smb_result" where
  "handleRead sv g s req body =
     (let reply = (\<lambda>st. buildPacket req st (ss_id s) (h2_treeID req));
          bad = (\<lambda>st. (g, s, reply st buildErrorBody, []));
          readLen = unat (le32 body 4); offset = unat (le64 body 8); k = le64 body 24
      in if length body < 48 then bad StatusInvalidParam
         else
           case ss_handles s k of
             None \<Rightarrow> bad StatusInvalidParam
           | Some h \<Rightarrow>
               (case (fh_pipe h, fh_node h) of
                  (Some p, _) \<Rightarrow>
                    let (p', data) = pipe_read p; s' = put_handle k (h\<lparr>fh_pipe := Some p'\<rparr>) s in
                    if data = [] then (g, s', reply StatusEndOfFile buildErrorBody, [])
                    else (g, s', reply StatusSuccess (read_reply data), [])
                | (None, None) \<Rightarrow> bad StatusInvalidParam
                | (None, Some n) \<Rightarrow>
                    if vn_isDir n then bad StatusInvalidParam
                    else if isRegistryHiveFile (vi_name (vinfo n)) then bad StatusAccessDenied
                    else
                      let content = vi_content (vinfo n) in
                      if length content \<le> offset then bad StatusEndOfFile
                      else
                        (g, s, reply StatusSuccess (read_reply (take readLen (drop offset content))),
                         if offset = 0 then
                           [smb_event sv s ((blank_event FileDownload)\<lparr>ev_severity := SevNotice,
                              ev_message := ''SMB file read'',
                              ev_fields := [''file'' \<mapsto> FStr (vi_name (vinfo n)), ''share'' \<mapsto> FStr (fh_shareName h),
                                ''bytes'' \<mapsto> FInt (int (vn_size n))]\<rparr>)]
                         else [])))"

definition handleWrite ::
  "smb_server \<Rightarrow> smb_shared \<Rightarrow> smb_session \<Rightarrow> smb2_header \<Rightarrow> bytes \<Rightarrow> bytes \<Rightarrow> smb_result" where
  "handleWrite sv g s req body frame =
     (let reply = (\<lambda>st. buildPacket req st (ss_id s) (h2_treeID req));
          writeLen = le32 body 4; k = le64 body 24; start = 4 + unat (le16 body 2)
      in if length body < 48 then (g, s, reply StatusInvalidParam buildErrorBody, [])
         else
           case ss_handles s k of
             None \<Rightarrow> (g, s, reply StatusInvalidParam buildErrorBody, [])
           | Some h \<Rightarrow>
               let s' =
                 (case fh_pipe h of
                    None \<Rightarrow> s
                  | Some p \<Rightarrow>
                      if start + unat writeLen \<le> length frame then
                        put_handle k (h\<lparr>fh_pipe := Some (pipe_write p (take (unat writeLen) (drop start frame))
                          (pipeContext sv (\<not> ss_guest s)))\<rparr>) s
                      else s)
               in (g, s', reply StatusSuccess (stores (zeros 16) [(0, u16b 17), (4, u32b writeLen)]), []))"

definition handleIOCtl ::
  "smb_server \<Rightarrow> smb_shared \<Rightarrow> smb_session \<Rightarrow> smb2_header \<Rightarrow> bytes \<Rightarrow> bytes \<Rightarrow> smb_result" where
  "handleIOCtl sv g s req body frame =
     (let reply = (\<lambda>st. buildPacket req st (ss_id s) (h2_treeID req));
          bad = (\<lambda>st. (g, s, reply st buildErrorBody, []));
          ctl = le32 body 4; k = le64 body 24
      in if length body < 56 then bad StatusInvalidParam
         else if ctl \<noteq> 0x0011C017 then bad StatusNotSupported
         else
           case ss_handles s k of
             None \<Rightarrow> bad StatusInvalidParam
           | Some h \<Rightarrow>
               (case fh_pipe h of
                  None \<Rightarrow> bad StatusInvalidParam
                | Some p \<Rightarrow>
                    let start = 4 + unat (le32 body 32); n = unat (le32 body 36);
                        input = (if 0 < n \<and> start + n \<le> length frame then take n (drop start frame) else []);
                        (p', out) = pipe_transceive p input (pipeContext sv (\<not> ss_guest s));
                        resp = stores (zeros 48)
                          ([(0, u16b 49), (4, u32b ctl), (16, enc_le 8 k)] @
                           (if out \<noteq> [] then [(36, u32b 112), (40, u32b (of_nat (length out)))] else []))
                    in (g, put_handle k (h\<lparr>fh_pipe := Some p'\<rparr>) s, reply StatusSuccess (resp @ out), [])))"

section \<open>A directory is listed completely\<close>

definition dir_entries :: "vfs \<Rightarrow> vfs_node \<Rightarrow> file_handle \<Rightarrow> (string \<times> vfs_node) list" where
  "dir_entries v n h =
     (''.'', n) # (''..'', n) # map (\<lambda>c. (vi_name (vinfo c), c)) (snd (effectiveChildren v n h))"

lemma dir_entries_idx [simp]:
  "dir_entries v n (h\<lparr>fh_dirIdx := i\<rparr>) = dir_entries v n h"
  "dir_entries v n (fst (effectiveChildren v n h)) = dir_entries v n h"
  by (simp_all add: dir_entries_def)

lemma nextChild_nth:
  assumes "fh_dirIdx h < length (dir_entries v n h)"
  shows "nextChild v n h =
    ((fst (effectiveChildren v n h))\<lparr>fh_dirIdx := Suc (fh_dirIdx h)\<rparr>, Some (dir_entries v n h ! fh_dirIdx h))"
proof -
  consider "fh_dirIdx h = 0" | "fh_dirIdx h = 1" | j where "fh_dirIdx h = Suc (Suc j)"
    by (metis One_nat_def not0_implies_Suc)
  then show ?thesis
    by cases (use assms in \<open>auto simp: nextChild_def dir_entries_def Let_def case_prod_beta\<close>)
qed

lemma hasMore_iff:
  "hasMoreChildren v n h = (fst (effectiveChildren v n h), fh_dirIdx h < length (dir_entries v n h))"
  by (simp add: hasMoreChildren_def dir_entries_def case_prod_beta)

abbreviation dir_buf :: "byte \<Rightarrow> string \<times> vfs_node \<Rightarrow> bytes" where
  "dir_buf cls e \<equiv> buildDirEntry (fst e) (snd e) cls"

lemma query_loop_takes:
  "\<exists>k. query_loop v n cls out h packed sz =
       ((fst (effectiveChildren v n h))\<lparr>fh_dirIdx := fh_dirIdx h + k\<rparr>,
        packed @ map (dir_buf cls) (take k (drop (fh_dirIdx h) (dir_entries v n h)))) \<and>
     (packed = [] \<and> fh_dirIdx h < length (dir_entries v n h) \<longrightarrow> 0 < k) \<and>
     fh_dirIdx h + k \<le> max (fh_dirIdx h) (length (dir_entries v n h))"
proof (induction v n cls out h packed sz rule: query_loop.induct)
  case (1 v n cls out h packed sz)
  let ?es = "dir_entries v n h" and ?i = "fh_dirIdx h" and ?h1 = "fst (effectiveChildren v n h)"
  show ?case
  proof (cases "?i < length ?es")
    case False
    then show ?thesis
      by (intro exI [of _ 0]) (simp add: query_loop.simps [of v n cls out h] hasMore_iff)
  next
    case True
    let ?h2 = "?h1\<lparr>fh_dirIdx := Suc ?i\<rparr>" and ?e = "dir_buf cls (?es ! ?i)"
    have nx: "nextChild v n ?h1 = (?h2, Some (?es ! ?i))"
      using nextChild_nth [of ?h1 v n] True by simp
    show ?thesis
    proof (cases "out < sz + length ?e \<and> packed \<noteq> []")
      case stop: True
      then show ?thesis
        using True by (intro exI [of _ 0])
          (simp add: query_loop.simps [of v n cls out h] hasMore_iff nx case_prod_beta Let_def)
    next
      case go: False
      have step: "query_loop v n cls out h packed sz = query_loop v n cls out ?h2 (packed @ [?e]) (sz + length ?e)"
        using True go by (subst query_loop.simps) (auto simp: hasMore_iff nx case_prod_beta Let_def)
      obtain k where k: "query_loop v n cls out ?h2 (packed @ [?e]) (sz + length ?e) =
            (?h1\<lparr>fh_dirIdx := Suc ?i + k\<rparr>, (packed @ [?e]) @ map (dir_buf cls) (take k (drop (Suc ?i) ?es)))"
          "Suc ?i + k \<le> max (Suc ?i) (length ?es)"
        using "1.IH" [of ?h1 True "?h2" "Some (?es ! ?i)" "?es ! ?i" "fst (?es ! ?i)" "snd (?es ! ?i)" ?e]
          True go nx by (auto simp: hasMore_iff)
      have "take (Suc k) (drop ?i ?es) = ?es ! ?i # take k (drop (Suc ?i) ?es)"
        using True by (simp add: Cons_nth_drop_Suc [symmetric])
      then show ?thesis
        using True k by (intro exI [of _ "Suc k"]) (simp add: step)
    qed
  qed
qed

lemma reply_status [simp]: "le32 (buildPacket req st sid tid body) 12 = st"
  by (simp add: packet_fields)

lemma reply_body [simp]: "drop 68 (buildPacket req st sid tid body) = body"
  using packet_fields(10) [of body req st sid tid] by simp

lemma reply_info [simp]: "drop 76 (buildPacket req st sid tid (info_reply b)) = b"
proof -
  have "drop 76 (buildPacket req st sid tid (info_reply b)) = drop 8 (drop 68 (buildPacket req st sid tid (info_reply b)))"
    unfolding drop_drop by simp
  also have "\<dots> = b" unfolding reply_body by (simp add: info_reply_def)
  finally show ?thesis .
qed

text \<open>A client that repeats a query on a handle as long as it succeeds, keeping the buffers.\<close>

fun browse :: "nat \<Rightarrow> smb_server \<Rightarrow> smb_shared \<Rightarrow> smb_session \<Rightarrow> smb2_header \<Rightarrow> bytes \<Rightarrow> bytes list" where
  "browse 0 sv g s req body = []"
| "browse (Suc f) sv g s req body =
     (case handleQueryDirectory sv g s req body of
        (g', s', r, _) \<Rightarrow>
          if le32 r 12 \<noteq> StatusSuccess then [] else drop 76 r # browse f sv g' s' req body)"

definition open_dir :: "smb_session \<Rightarrow> u64 \<Rightarrow> file_handle \<Rightarrow> vfs_node \<Rightarrow> bool" where
  "open_dir s k h n \<longleftrightarrow> ss_handles s k = Some h \<and> fh_node h = Some n \<and> vn_isDir n"

lemma status_distinct: "StatusNoMoreFiles \<noteq> StatusSuccess"
  by (simp add: StatusNoMoreFiles_def StatusSuccess_def)

lemma effective_node [simp]: "fh_node (fst (effectiveChildren v n h)) = fh_node h"
  by (auto simp: effectiveChildren_def Let_def split: option.splits)

lemma browse_from:
  assumes "32 \<le> length body" "body ! 3 AND 1 = 0" "open_dir s (le64 body 16) h n"
    and "length (dir_entries (sv_vfs sv) n h) \<le> fh_dirIdx h + f"
  shows "\<exists>pages. browse (Suc f) sv g s req body = map chain_entries pages \<and>
    concat pages = map (dir_buf (body ! 2)) (drop (fh_dirIdx h) (dir_entries (sv_vfs sv) n h))"
  using assms(3,4)
proof (induction f arbitrary: s h)
  case 0
  then show ?case
    using assms(1,2) status_distinct
    by (intro exI [of _ "[]"]) (simp add: handleQueryDirectory_def open_dir_def hasMore_iff Let_def)
next
  case (Suc f)
  let ?v = "sv_vfs sv" and ?k = "le64 body 16" and ?es = "dir_entries (sv_vfs sv) n h"
  show ?case
  proof (cases "fh_dirIdx h < length ?es")
    case False
    then show ?thesis
      using assms(1,2) status_distinct Suc.prems
      by (intro exI [of _ "[]"]) (simp add: handleQueryDirectory_def open_dir_def hasMore_iff Let_def)
  next
    case True
    let ?h2 = "fst (effectiveChildren ?v n h)"
    obtain j where j: "query_loop ?v n (body ! 2) (unat (le32 body 28)) ?h2 [] 0 =
          (?h2\<lparr>fh_dirIdx := fh_dirIdx h + j\<rparr>, map (dir_buf (body ! 2)) (take j (drop (fh_dirIdx h) ?es)))" "0 < j"
      using query_loop_takes [of ?v n "body ! 2" "unat (le32 body 28)" ?h2 "[]" 0] True by auto
    let ?h3 = "?h2\<lparr>fh_dirIdx := fh_dirIdx h + j\<rparr>" and ?page = "map (dir_buf (body ! 2)) (take j (drop (fh_dirIdx h) ?es))"
    have hq: "handleQueryDirectory sv g s req body =
        (g, put_handle ?k ?h3 s, buildPacket req StatusSuccess (ss_id s) (h2_treeID req) (info_reply (chain_entries ?page)), [])"
      using assms(1,2) Suc.prems True j(1)
      by (simp add: handleQueryDirectory_def open_dir_def hasMore_iff Let_def)
    have "open_dir (put_handle ?k ?h3 s) ?k ?h3 n"
      using Suc.prems(1) by (simp add: open_dir_def put_handle_def)
    from Suc.IH [OF this] obtain pages where
      p: "browse (Suc f) sv g (put_handle ?k ?h3 s) req body = map chain_entries pages"
         "concat pages = map (dir_buf (body ! 2)) (drop (fh_dirIdx h + j) ?es)"
      using Suc.prems(2) j(2) by auto
    have "browse (Suc (Suc f)) sv g s req body = map chain_entries (?page # pages)"
      using p(1) by (subst browse.simps) (simp add: hq del: browse.simps)
    moreover have "concat (?page # pages) = map (dir_buf (body ! 2)) (drop (fh_dirIdx h) ?es)"
      using p(2) by (simp flip: map_append drop_drop add: add.commute [of _ j])
    ultimately show ?thesis by blast
  qed
qed

text \<open>C29. A client that keeps asking sees a directory completely, whatever the size of its buffer:
  from a freshly opened handle the answers, put together, are the two dot entries and then every child
  (planted or generated), each exactly once and in order; then the server answers that there is no
  more.\<close>

theorem directory_listed_completely:
  assumes "32 \<le> length body" "body ! 3 AND 1 = 0" "open_dir s (le64 body 16) h n" "fh_dirIdx h = 0"
    and "length (dir_entries (sv_vfs sv) n h) \<le> f"
  shows "\<exists>pages. browse (Suc f) sv g s req body = map chain_entries pages \<and>
    concat pages = map (dir_buf (body ! 2)) (dir_entries (sv_vfs sv) n h)"
  using browse_from [OF assms(1-3), where f = f] assms(4,5) by simp

section \<open>A file is read exactly\<close>

definition read_req :: "u32 \<Rightarrow> u64 \<Rightarrow> u64 \<Rightarrow> bytes" where
  "read_req n off k = stores (zeros 49) [(0, u16b 49), (4, u32b n), (8, enc_le 8 off), (24, enc_le 8 k)]"

lemma read_req_fields:
  "length (read_req n off k) = 49" "le32 (read_req n off k) 4 = n" "le64 (read_req n off k) 8 = off"
  "le64 (read_req n off k) 24 = k"
proof -
  have "take 4 (drop 4 (read_req n off k)) = enc_le 4 n" "take 8 (drop 8 (read_req n off k)) = enc_le 8 off"
    "take 8 (drop 24 (read_req n off k)) = enc_le 8 k"
    unfolding read_req_def by (rule read_stored; simp)+
  then show "le32 (read_req n off k) 4 = n" "le64 (read_req n off k) 8 = off" "le64 (read_req n off k) 24 = k"
    by simp_all
qed (simp add: read_req_def)

lemma reply_data: "drop 84 (buildPacket req st sid tid (read_reply d)) = d"
proof -
  have "drop 84 (buildPacket req st sid tid (read_reply d)) = drop 16 (drop 68 (buildPacket req st sid tid (read_reply d)))"
    unfolding drop_drop by simp
  also have "\<dots> = d" unfolding reply_body by (simp add: read_reply_def)
  finally show ?thesis .
qed

text \<open>A client that reads a handle in blocks of \<open>n\<close> bytes from an offset on, until a read fails.\<close>

fun download :: "nat \<Rightarrow> smb_server \<Rightarrow> smb_shared \<Rightarrow> smb_session \<Rightarrow> smb2_header \<Rightarrow> u32 \<Rightarrow> u64 \<Rightarrow> nat \<Rightarrow> bytes \<times> event list" where
  "download 0 sv g s req n k off = ([], [])"
| "download (Suc f) sv g s req n k off =
     (case handleRead sv g s req (read_req n (of_nat off) k) of
        (g', s', r, evs) \<Rightarrow>
          if le32 r 12 \<noteq> StatusSuccess then ([], evs)
          else
            let d = drop 84 r; (rest, evs') = download f sv g' s' req n k (off + length d)
            in (d @ rest, evs @ evs'))"

definition open_file :: "smb_session \<Rightarrow> u64 \<Rightarrow> file_handle \<Rightarrow> vfs_node \<Rightarrow> bool" where
  "open_file s k h n \<longleftrightarrow>
     ss_handles s k = Some h \<and> fh_pipe h = None \<and> fh_node h = Some n \<and> \<not> vn_isDir n"

lemma read_status_distinct: "StatusEndOfFile \<noteq> StatusSuccess" "StatusAccessDenied \<noteq> StatusSuccess"
  by (simp_all add: StatusEndOfFile_def StatusAccessDenied_def StatusSuccess_def)

lemma take_then_rest: "take m xs @ drop (length (take m xs)) xs = xs"
  by (cases "m \<le> length xs") auto

lemma download_from:
  assumes "open_file s k h n" "\<not> isRegistryHiveFile (vi_name (vinfo n))" "0 < m"
    and "vn_size n < 2 ^ 64" "off \<le> vn_size n" "vn_size n \<le> off + f"
  shows "fst (download (Suc f) sv g s req m k off) = drop off (vi_content (vinfo n)) \<and>
    length (snd (download (Suc f) sv g s req m k off)) = (if off = 0 \<and> 0 < vn_size n then 1 else 0)"
  using assms(5,6)
proof (induction f arbitrary: off)
  case 0
  then have "unat (of_nat off :: u64) = vn_size n" using assms(4) by (simp add: unat_of_nat)
  then show ?case
    using assms(1,2) 0 read_status_distinct
    by (simp add: handleRead_def read_req_fields open_file_def Let_def vn_size_def) linarith
next
  case (Suc f)
  have off: "unat (of_nat off :: u64) = off" using assms(4) Suc.prems by (simp add: unat_of_nat)
  show ?case
  proof (cases "off = vn_size n")
    case True
    then show ?thesis
      using assms(1,2) off read_status_distinct
      by (simp add: handleRead_def read_req_fields open_file_def Let_def vn_size_def)
  next
    case False
    let ?c = "vi_content (vinfo n)" and ?d = "take (unat m) (drop off (vi_content (vinfo n)))"
    have m: "0 < unat m" using assms(3) by (simp add: word_less_nat_alt)
    have d: "off < off + length ?d" "off + length ?d \<le> vn_size n"
      using m False Suc.prems(1) by (auto simp: vn_size_def)
    obtain evs where hr: "handleRead sv g s req (read_req m (of_nat off) k) =
        (g, s, buildPacket req StatusSuccess (ss_id s) (h2_treeID req) (read_reply ?d), evs)"
        "length evs = (if off = 0 then 1 else 0)"
      using assms(1,2) off False Suc.prems(1)
      by (auto simp: handleRead_def read_req_fields open_file_def Let_def vn_size_def word_unat_eq_iff)
    have "?d @ drop (off + length ?d) ?c = drop off ?c"
      using take_then_rest [of "unat m" "drop off ?c"] by (simp add: add.commute)
    then show ?thesis
      using Suc.IH [of "off + length ?d"] d Suc.prems hr(2) False m
      by (subst download.simps, subst (2) download.simps)
         (simp add: hr(1) reply_data Let_def case_prod_beta del: download.simps)
  qed
qed

text \<open>C30. A file is served exactly: a client that reads an open file from the start in blocks of any
  non-zero size gets precisely its content and then the end of the file, and one download event is
  reported, when the file has any content.  (Registry hives are the exception: they are shown but never
  served.)\<close>

theorem file_downloads_exactly:
  assumes "open_file s k h n" "\<not> isRegistryHiveFile (vi_name (vinfo n))" "0 < m"
    and "vn_size n < 2 ^ 64" "vn_size n \<le> f"
  shows "fst (download (Suc f) sv g s req m k 0) = vi_content (vinfo n) \<and>
    length (snd (download (Suc f) sv g s req m k 0)) = (if 0 < vn_size n then 1 else 0)"
  using download_from [OF assms(1-4), of 0 f] assms(5) by simp

lemma hive_is_denied:
  assumes "open_file s k h n" "isRegistryHiveFile (vi_name (vinfo n))"
  shows "handleRead sv g s req (read_req m off k) =
    (g, s, buildPacket req StatusAccessDenied (ss_id s) (h2_treeID req) buildErrorBody, [])"
  using assms by (simp add: handleRead_def read_req_fields open_file_def Let_def)

section \<open>Two defects\<close>

text \<open>A query of a file class on a pipe handle dereferences a node that is not there; nothing recovers
  the panic, so one authenticated (or guest) client ends the process.\<close>

lemma query_info_on_pipe_panics:
  assumes "40 \<le> length body" "ss_handles s (le64 body 32) = Some h" "fh_node h = None"
    and "body ! 2 = 1" "body ! 3 \<in> {4, 5, 34, 18}"
  shows "handleQueryInfo g s req body = None"
  using assms by (auto simp: handleQueryInfo_def Let_def)

text \<open>The IOCTL handler reads the fields of the request eight bytes late.  On a request with the layout
  of its own comment (and of the protocol) it takes the input offset and length for the handle: a pipe
  transaction is answered with an error as long as fewer than \<open>2 ^ 32\<close> handles have been opened.\<close>

definition transceive_req :: "u64 \<Rightarrow> u64 \<Rightarrow> bytes \<Rightarrow> bytes" where
  "transceive_req persistent volatile input =
     stores (zeros 56)
       [(0, u16b 57), (4, u32b 0x0011C017), (8, enc_le 8 persistent), (16, enc_le 8 volatile), (24, u32b 120),
        (28, u32b (of_nat (length input))), (48, u32b 1)] @ input"

lemma transceive_fields:
  "le32 (transceive_req p v input) 4 = 0x0011C017" "le32 (transceive_req p v input) 24 = 120"
  "le32 (transceive_req p v input) 28 = of_nat (length input)"
proof -
  let ?b = "stores (zeros 56)
       [(0, u16b 57), (4, u32b 0x0011C017), (8, enc_le 8 p), (16, enc_le 8 v), (24, u32b 120),
        (28, u32b (of_nat (length input))), (48, u32b 1)]"
  have "take 4 (drop 4 ?b) = u32b 0x0011C017" "take 4 (drop 24 ?b) = u32b 120"
    "take 4 (drop 28 ?b) = u32b (of_nat (length input))"
    by (rule read_stored; simp)+
  then show "le32 (transceive_req p v input) 4 = 0x0011C017" "le32 (transceive_req p v input) 24 = 120"
    "le32 (transceive_req p v input) 28 = of_nat (length input)"
    by (simp_all add: transceive_req_def)
qed

lemma le64_high:
  assumes "i + 8 \<le> length b"
  shows "bit (le64 b i) (32 + j) \<longleftrightarrow> bit (le32 b (i + 4)) j"
proof (cases "j < 32")
  case True
  then have q: "j div 8 < 4" "(32 + j) div 8 = 4 + j div 8" "(32 + j) mod 8 = j mod 8"
    using mod_mult_self3 [of 4 8 j] by simp_all
  have "take 8 (drop i b) ! (4 + j div 8) = take 4 (drop (i + 4) b) ! (j div 8)"
    using assms q(1) by (simp add: add.assoc)
  then show ?thesis
    unfolding bit_dec_le q(2,3) using assms True q(1) by simp
next
  case False
  then show ?thesis by (auto dest!: bit_imp_le_length)
qed

lemma small_no_high_bit: "k < 2 ^ 32 \<Longrightarrow> \<not> bit (k :: u64) (32 + j)"
proof
  assume k: "k < 2 ^ 32" "bit k (32 + j)"
  then have "bit (unat k) (32 + j)"
    by (auto simp: bit_unsigned_iff dest: bit_imp_le_length)
  moreover have "unat k div 2 ^ (32 + j) = 0"
  proof (rule div_less)
    have "unat k < 2 ^ 32" using k(1) by (simp add: word_less_nat_alt)
    then show "unat k < 2 ^ (32 + j)" by (simp add: power_add less_le_trans)
  qed
  ultimately show False by (simp add: bit_iff_odd)
qed

lemma transceive_never_answered:
  assumes "0 < length input" "length input < 2 ^ 32" "\<forall>k \<in> dom (ss_handles s). k < 2 ^ 32"
  shows "handleIOCtl sv g s req (transceive_req p v input) frame =
    (g, s, buildPacket req StatusInvalidParam (ss_id s) (h2_treeID req) buildErrorBody, [])"
proof -
  let ?b = "transceive_req p v input"
  have len: "56 \<le> length ?b" by (simp add: transceive_req_def)
  have "le32 ?b 28 \<noteq> 0"
    using assms(1,2) by (simp add: transceive_fields word_unat_eq_iff unat_of_nat)
  then obtain j where "bit (le32 ?b (24 + 4)) j" by (auto simp: bit_eq_iff)
  then have "bit (le64 ?b 24) (32 + j)"
    using le64_high [of 24 ?b j] len by simp
  then have "ss_handles s (le64 ?b 24) = None"
    using assms(3) small_no_high_bit by blast
  then show ?thesis
    using len by (simp add: handleIOCtl_def transceive_fields Let_def)
qed

section \<open>A small host\<close>

text \<open>The values the examples use: a share with one file, a server, a session, a request.\<close>

definition lab_file :: vfs_node where
  "lab_file = VNode \<lparr>vi_name = ''a.txt'', vi_attrs = 0x80, vi_content = [1, 2, 3], vi_created = 0, vi_modified = 0,
     vi_mazePath = [], vi_mazeDepth = 0\<rparr> []"

definition lab_dir :: vfs_node where
  "lab_dir = VNode \<lparr>vi_name = ''C'', vi_attrs = 0x10, vi_content = [], vi_created = 0, vi_modified = 0,
     vi_mazePath = [], vi_mazeDepth = 0\<rparr> [lab_file]"

definition lab_config :: smb_server_config where
  "lab_config =
     \<lparr>sm_port = 445, sm_netBIOSPort = False, sm_computerName = ''PC'', sm_domainName = ''LAN'',
      sm_maze = defaultMazeConfig, sm_shares = [\<lparr>si_name = ''C$'', si_type = 0, si_remark = []\<rparr>],
      sm_maxDialect = dialect311, sm_smb1Enabled = False, sm_signingRequired = False, sm_osVersion = ''10.0.19045'',
      sm_allowGuestEnum = Some False, sm_credentials = [], sm_filesystem = None, sm_credStore = None,
      sm_configDir = []\<rparr>"

definition lab_server :: smb_server where
  "lab_server =
     \<lparr>sv_cfg = lab_config, sv_guid = zeros 16, sv_bootTime = 0, sv_allowGuest = False,
      sv_vfs = \<lparr>vf_shares = [''C$'' \<mapsto> lab_dir], vf_maze = defaultMazeConfig\<rparr>\<rparr>"

definition lab_shared :: smb_shared where
  "lab_shared = \<lparr>sg_nextSession = 0, sg_handleSeq = 0, sg_connections = 0, sg_authentications = 0,
     sg_treeConnects = 0, sg_credentials = 0\<rparr>"

definition lab_handle :: "vfs_node \<Rightarrow> file_handle" where
  "lab_handle n = \<lparr>fh_node = Some n, fh_shareName = ''C$'', fh_dirIdx = 0, fh_mazeChildren = None, fh_pipe = None\<rparr>"

definition lab_session :: "vfs_node \<Rightarrow> smb_session" where
  "lab_session n = (newSession ''192.0.2.1:50000'')\<lparr>ss_state := StateAuthenticated, ss_handles := [5 \<mapsto> lab_handle n]\<rparr>"

definition lab_request :: smb2_header where
  "lab_request = \<lparr>h2_status = 0, h2_command = 14, h2_credits = 1, h2_flags = 0, h2_messageID = 7, h2_processID = 0,
     h2_treeID = 1, h2_sessionID = 1\<rparr>"

definition lab_query :: bytes where
  "lab_query = [33, 0, 37, 0] @ zeros 12 @ enc_le 8 (5 :: u64) @ zeros 4 @ u32b 100"

theorem directory_listed_completely_witness:
  "\<exists>pages. browse 4 lab_server lab_shared (lab_session lab_dir) lab_request lab_query = map chain_entries pages \<and>
     concat pages = map (dir_buf 37) [(''.'', lab_dir), (''..'', lab_dir), (''a.txt'', lab_file)]"
proof -
  have k: "le64 lab_query 16 = 5"
    by (simp add: lab_query_def)
  have q: "32 \<le> length lab_query" "lab_query ! 3 AND 1 = 0" "lab_query ! 2 = 37"
    by (simp_all add: lab_query_def)
  have es: "dir_entries (sv_vfs lab_server) lab_dir (lab_handle lab_dir) =
      [(''.'', lab_dir), (''..'', lab_dir), (''a.txt'', lab_file)]"
    by (simp add: dir_entries_def effectiveChildren_def lab_dir_def lab_file_def)
  have "open_dir (lab_session lab_dir) (le64 lab_query 16) (lab_handle lab_dir) lab_dir"
    unfolding k by (simp add: open_dir_def lab_session_def lab_handle_def vn_isDir_def lab_dir_def FileAttrDirectory_def)
  from directory_listed_completely [OF q(1,2) this, of lab_server 3] show ?thesis
    unfolding es q(3) by (simp add: lab_handle_def numeral_eq_Suc)
qed

theorem file_downloads_exactly_witness:
  "fst (download 4 lab_server lab_shared (lab_session lab_file) lab_request 2 5 0) = [1, 2, 3]"
proof -
  have "open_file (lab_session lab_file) 5 (lab_handle lab_file) lab_file"
    by (simp add: open_file_def lab_session_def lab_handle_def vn_isDir_def lab_file_def FileAttrDirectory_def)
  moreover have "\<not> isRegistryHiveFile (vi_name (vinfo lab_file))"
    by (simp add: isRegistryHiveFile_def lab_file_def to_upper_def)
  ultimately show ?thesis
    using file_downloads_exactly [of "lab_session lab_file" 5 "lab_handle lab_file" lab_file 2 3]
    by (simp add: vn_size_def lab_file_def)
qed

end
