(* ===== verification/Smb_Smb1.thy ===== *)
theory Smb_Smb1
  imports Smb_Server
begin

unbundle bit_operations_syntax

text \<open>
  The SMB1 side of the SMB honeypot: frames and handlers (\<open>internal/honeypot/smb/server_smb1.go\<close>), the
  remote administration protocol (\<open>lanman.go\<close>), SMB1 negotiation (\<open>negotiate.go\<close>) and the SMB1 session
  setup of \<open>server.go\<close>.  A handler's response is an option (None: nothing is written); the handler that
  can panic wraps its result in another.
\<close>

section \<open>Frames\<close>

record smb1_header =
  h1_command :: byte
  h1_status :: u32
  h1_tid :: u16
  h1_uid :: u16
  h1_mid :: u16

definition parseSMB1Header :: "bytes \<Rightarrow> smb1_header option" where
  "parseSMB1Header f =
     (if length f < 36 then None
      else Some \<lparr>h1_command = f ! 8, h1_status = le32 f 9, h1_tid = le16 f 28, h1_uid = le16 f 32, h1_mid = le16 f 34\<rparr>)"

definition smb1Body :: "bytes \<Rightarrow> bytes \<times> bytes" where
  "smb1Body f =
     (if length f < 37 then ([], [])
      else
        let n = unat (f ! 36) * 2; paramEnd = 37 + n in
        if length f < paramEnd + 2 then (take n (drop 37 f), [])
        else (take n (drop 37 f), take (unat (le16 f paramEnd)) (drop (paramEnd + 2) f)))"

definition magic1 :: bytes where "magic1 = [0xFF, 0x53, 0x4D, 0x42]"

definition buildSMB1Response :: "byte \<Rightarrow> u32 \<Rightarrow> u16 \<Rightarrow> u16 \<Rightarrow> bytes \<Rightarrow> bytes \<Rightarrow> bytes" where
  "buildSMB1Response cmd status tid uid params data =
     (let len = 35 + length params + length data; d = 37 + length params in
      stores (zeros (4 + len))
        [(0, transport_header len), (4, magic1), (8, [cmd]), (9, u32b status), (13, [0x98]), (14, u16b 0x4001),
         (28, u16b tid), (32, u16b uid), (36, [of_nat (length params div 2)]), (37, params),
         (d, u16b (of_nat (length data))), (d + 2, data)])"

definition buildSMBv1Frame :: "byte \<Rightarrow> u32 \<Rightarrow> u16 \<Rightarrow> bytes \<Rightarrow> bytes \<Rightarrow> bytes" where
  "buildSMBv1Frame command status uid params data =
     (let len = 35 + length params + length data; d = 37 + length params in
      stores (zeros (4 + len))
        [(0, transport_header len), (4, magic1), (8, [command]), (9, u32b status), (13, [0x98]), (14, u16b 0x4001),
         (32, u16b uid), (36, [of_nat (length params div 2)]), (37, params),
         (d, u16b (of_nat (length data))), (d + 2, data)])"

definition extractSMB1ASCIIString :: "bytes \<Rightarrow> string" where
  "extractSMB1ASCIIString b = string_of (takeWhile (\<lambda>c. c \<noteq> 0) b)"

fun before_nul16 :: "bytes \<Rightarrow> bytes option" where
  "before_nul16 (a # b # rest) =
     (if a = 0 \<and> b = 0 then Some [] else map_option (\<lambda>t. a # b # t) (before_nul16 rest))"
| "before_nul16 _ = None"

definition extractSMB1UnicodeString :: "bytes \<Rightarrow> string" where
  "extractSMB1UnicodeString b = (case before_nul16 b of None \<Rightarrow> [] | Some u \<Rightarrow> utf16_string u)"

section \<open>Trees and pipes of a session\<close>

definition allocSMB1Tree :: "string \<Rightarrow> smb_session \<Rightarrow> smb_session \<times> u16" where
  "allocSMB1Tree path s =
     (let k = ss_smb1NextTID s + 1 in (s\<lparr>ss_smb1NextTID := k, ss_smb1Trees := (ss_smb1Trees s)(k \<mapsto> path)\<rparr>, k))"

definition smb1TreePath :: "smb_session \<Rightarrow> u16 \<Rightarrow> string" where
  "smb1TreePath s k = (case ss_smb1Trees s k of None \<Rightarrow> [] | Some p \<Rightarrow> p)"

definition freeSMB1Tree :: "u16 \<Rightarrow> smb_session \<Rightarrow> smb_session" where
  "freeSMB1Tree k s = s\<lparr>ss_smb1Trees := (ss_smb1Trees s)(k := None)\<rparr>"

definition allocSMB1Pipe :: "pipe_state \<Rightarrow> smb_session \<Rightarrow> smb_session \<times> u16" where
  "allocSMB1Pipe p s =
     (let k = ss_smb1NextFID s + 1 in (s\<lparr>ss_smb1NextFID := k, ss_smb1Handles := (ss_smb1Handles s)(k \<mapsto> p)\<rparr>, k))"

definition put_pipe :: "u16 \<Rightarrow> pipe_state \<Rightarrow> smb_session \<Rightarrow> smb_session" where
  "put_pipe k p s = s\<lparr>ss_smb1Handles := (ss_smb1Handles s)(k \<mapsto> p)\<rparr>"

definition freeSMB1Handle :: "u16 \<Rightarrow> smb_session \<Rightarrow> smb_session" where
  "freeSMB1Handle k s = s\<lparr>ss_smb1Handles := (ss_smb1Handles s)(k := None)\<rparr>"

section \<open>Negotiation and session setup\<close>

function (sequential) dialect_names :: "bytes \<Rightarrow> string list" where
  "dialect_names [] = []"
| "dialect_names (b # bs) =
     (if b \<noteq> 2 then []
      else string_of (takeWhile (\<lambda>c. c \<noteq> 0) bs) # dialect_names (drop 1 (dropWhile (\<lambda>c. c \<noteq> 0) bs)))"
  by pat_completeness auto
termination
  by (relation "measure length") (auto intro: le_less_trans [OF diff_le_self] le_imp_less_Suc length_dropWhile_le)

definition smb1ParseSMB2Dialects :: "bytes \<Rightarrow> u16 list" where
  "smb1ParseSMB2Dialects frame =
     (let names = dialect_names (snd (smb1Body frame)) in
      if ''SMB 2.???'' \<in> set names then [dialect202, dialect210, dialect300, dialect302, dialect311]
      else if ''SMB 2.002'' \<in> set names then [dialect202]
      else [])"

definition buildSMBv1NegotiateResponse :: "smb_server \<Rightarrow> smb_tick \<Rightarrow> smb_session \<Rightarrow> smb_session \<times> bytes" where
  "buildSMBv1NegotiateResponse sv t s =
     (s\<lparr>ss_state := StateNegotiated\<rparr>,
      buildSMBv1Frame 0x72 0 0
        (stores (zeros 34)
          [(0, u16b 0), (2, [3]), (3, u16b 50), (5, u16b 1), (7, u32b 16644), (11, u32b 65536), (15, u32b 0),
           (19, u32b 0xB5), (23, windowsFiletime (tk_now t))])
        (utf16LE (sm_domainName (sv_cfg sv)) @ [0, 0] @ utf16LE (sm_computerName (sv_cfg sv)) @ [0, 0]))"

definition buildSMBv1NegotiateRefusal :: bytes where
  "buildSMBv1NegotiateRefusal = buildSMBv1Frame 0x72 0 0 (u16b 0xFFFF) []"

definition smb1_negotiate_req :: smb2_header where
  "smb1_negotiate_req = \<lparr>h2_status = 0, h2_command = CmdNegotiate, h2_credits = 0, h2_flags = 0, h2_messageID = 0,
     h2_processID = 0, h2_treeID = 0, h2_sessionID = 0\<rparr>"

definition handleSMBv1Negotiate :: "smb_server \<Rightarrow> smb_tick \<Rightarrow> smb_session \<Rightarrow> bytes \<Rightarrow> smb_session \<times> bytes" where
  "handleSMBv1Negotiate sv t s frame =
     (if sm_maxDialect (sv_cfg sv) = dialectSMB1 then buildSMBv1NegotiateResponse sv t s
      else
        let offered = smb1ParseSMB2Dialects frame in
        if offered \<noteq> [] then buildNegotiateResponse sv t s smb1_negotiate_req offered
        else if sm_smb1Enabled (sv_cfg sv) then buildSMBv1NegotiateResponse sv t s
        else (s, buildSMBv1NegotiateRefusal))"

definition nativeOSString :: "smb_server \<Rightarrow> string" where
  "nativeOSString sv =
     (case split3 (sm_osVersion (sv_cfg sv)) of
        a # b # _ \<Rightarrow> ''Windows '' @ a @ ''.'' @ b
      | _ \<Rightarrow> ''Windows 10.0'')"

definition handleSMBv1SessionSetup :: "smb_server \<Rightarrow> smb_shared \<Rightarrow> smb_session \<Rightarrow> smb_shared \<times> smb_session \<times> bytes" where
  "handleSMBv1SessionSetup sv g0 s0 =
     (let (g, s) = assign_id g0 s0; os = nativeOSString sv in
      (inc_auth g, s\<lparr>ss_state := StateAuthenticated\<rparr>,
       buildSMBv1Frame 0x73 0 (ucast (ss_id s AND 0xFFFF)) (stores (zeros 6) [(0, [0xFF]), (4, u16b 1)])
         (concat (map (\<lambda>x. bytes_of x @ [0]) [os, os, sm_domainName (sv_cfg sv)]))))"

section \<open>Trees and pipes\<close>

type_synonym smb1_result = "smb_shared \<times> smb_session \<times> bytes option"

text \<open>The parameters of every error reply: one AndX word and an offset.\<close>

definition no_andx :: bytes where "no_andx = [0xFF, 0, 0, 0]"

definition smb1_unicode :: "bytes \<Rightarrow> bool" where
  "smb1_unicode frame \<longleftrightarrow> (le16 frame 14 AND 0x8000) \<noteq> 0"

definition handleSMBv1TreeConnect ::
  "smb_server \<Rightarrow> smb_shared \<Rightarrow> smb_session \<Rightarrow> bytes \<Rightarrow> u16 \<Rightarrow> smb1_result" where
  "handleSMBv1TreeConnect sv g s frame uid =
     (let (params, data) = smb1Body frame; passwordLen = unat (le16 params 6) in
      if length params < 8 \<or> length data < passwordLen then (g, s, None)
      else
        let rest = drop passwordLen data;
            path = to_upper (if smb1_unicode frame then extractSMB1UnicodeString rest else extractSMB1ASCIIString rest);
            share = shareFromTree path;
            deny = (\<lambda>st. (g, s, Some (buildSMB1Response 0x75 st 0 uid no_andx [])))
        in if \<not> canAccessAdminShare s \<and> isAdminShare share then deny 0xC0000022
           else if \<not> isKnownShare sv share then deny 0xC00000CC
           else
             let (s', tid) = allocSMB1Tree path s;
                 service = (if equal_fold share ''IPC$'' then ''IPC'' else ''A:'')
             in (g\<lparr>sg_treeConnects := sg_treeConnects g + 1\<rparr>, s',
                 Some (buildSMB1Response 0x75 0 tid uid (stores (zeros 6) [(0, [0xFF]), (4, u16b 1)])
                   (bytes_of service @ [0] @ bytes_of ''NTFS'' @ [0]))))"

text \<open>The name length is read at \<open>params[5:7]\<close>, which is \<open>frame[42:44]\<close>: the slice may reach past
  the parameters, but not past the frame, whose capacity is its length.  None is the panic.\<close>

definition handleSMBv1NTCreateAndX ::
  "smb_tick \<Rightarrow> smb_shared \<Rightarrow> smb_session \<Rightarrow> bytes \<Rightarrow> smb1_header \<Rightarrow> smb1_result option" where
  "handleSMBv1NTCreateAndX t g s frame h =
     (let (params, data) = smb1Body frame;
          deny = Some (g, s, Some (buildSMB1Response 0xA2 0xC0000022 (h1_tid h) (h1_uid h) no_andx []))
      in if length params < 6 then deny
         else if length frame < 44 then None
         else
           let nameLen = unat (le16 frame 42); raw = take nameLen data;
               filePath =
                 (if nameLen \<le> length data \<and> 0 < nameLen then
                    (if smb1_unicode frame \<and> even nameLen then utf16_string raw
                     else trim_right_set (string_of raw) [NUL])
                  else [])
           in if \<not> equal_fold (shareFromTree (smb1TreePath s (h1_tid h))) ''IPC$'' then deny
              else
                let name0 = canonicalizePipeName filePath; name = (if name0 = [] then ''srvsvc'' else name0);
                    (s', fid) = allocSMB1Pipe (newPipeState name) s; ft = windowsFiletime (tk_now t);
                    rp = stores (zeros 68)
                      [(0, [0xFF]), (5, u16b fid), (7, u32b 1), (11, ft), (19, ft), (27, ft), (35, ft),
                       (43, u32b 0x80), (63, u16b 2), (65, u16b 0x05FF)]
                in Some (g, s', Some (buildSMB1Response 0xA2 0 (h1_tid h) (h1_uid h) rp [])))"

text \<open>The bytes \<open>frame[4+off : 4+off+n]\<close>, cut at the end of the frame.\<close>

definition frame_slice :: "bytes \<Rightarrow> u16 \<Rightarrow> u16 \<Rightarrow> bytes" where
  "frame_slice frame off n = take (unat n) (drop (4 + unat off) frame)"

definition handleSMBv1WriteAndX ::
  "smb_server \<Rightarrow> smb_shared \<Rightarrow> smb_session \<Rightarrow> bytes \<Rightarrow> smb1_header \<Rightarrow> smb1_result" where
  "handleSMBv1WriteAndX sv g s frame h =
     (let params = fst (smb1Body frame);
          reply = (\<lambda>st p. buildSMB1Response 0x2F st (h1_tid h) (h1_uid h) p []);
          fid = le16 params 4; data = frame_slice frame (le16 params 22) (le16 params 20)
      in if length params < 28 then (g, s, Some (reply 0xC0000022 no_andx))
         else
           case ss_smb1Handles s fid of
             None \<Rightarrow> (g, s, Some (reply 0xC0000034 no_andx))
           | Some p \<Rightarrow>
               (g, if data \<noteq> [] then put_pipe fid (pipe_write p data (pipeContext sv (\<not> ss_guest s))) s else s,
                Some (reply 0 (stores (zeros 12) [(0, [0xFF]), (4, u16b (le16 params 20))]))))"

definition handleSMBv1ReadAndX :: "smb_shared \<Rightarrow> smb_session \<Rightarrow> bytes \<Rightarrow> smb1_header \<Rightarrow> smb1_result" where
  "handleSMBv1ReadAndX g s frame h =
     (let params = fst (smb1Body frame); fid = le16 params 4;
          deny = (\<lambda>st. Some (buildSMB1Response 0x2E st (h1_tid h) (h1_uid h) no_andx []))
      in if length params < 6 then (g, s, deny 0xC0000022)
         else
           case ss_smb1Handles s fid of
             None \<Rightarrow> (g, s, deny 0xC0000034)
           | Some p \<Rightarrow>
               let (p', data) = pipe_read p; s' = put_pipe fid p' s in
               if data = [] then (g, s', deny 0xC0000011)
               else
                 (g, s',
                  Some (buildSMB1Response 0x2E 0 (h1_tid h) (h1_uid h)
                    (stores (zeros 24) [(0, [0xFF]), (4, u16b 0xFFFF), (10, u16b (of_nat (length data))), (12, u16b 60)])
                    (0 # data))))"

definition handleSMBv1Close :: "smb_shared \<Rightarrow> smb_session \<Rightarrow> bytes \<Rightarrow> smb1_header \<Rightarrow> smb1_result" where
  "handleSMBv1Close g s frame h =
     (let params = fst (smb1Body frame) in
      (g, if 2 \<le> length params then freeSMB1Handle (le16 params 0) s else s,
       Some (buildSMB1Response 0x04 0 (h1_tid h) (h1_uid h) [] [])))"

definition handleSMBv1TreeDisconnect :: "smb_shared \<Rightarrow> smb_session \<Rightarrow> smb1_header \<Rightarrow> smb1_result" where
  "handleSMBv1TreeDisconnect g s h =
     (g, freeSMB1Tree (h1_tid h) s, Some (buildSMB1Response 0x71 0 (h1_tid h) (h1_uid h) [] []))"

section \<open>Transactions\<close>

definition encodeRAPError :: "u16 \<Rightarrow> bytes" where "encodeRAPError st = stores (zeros 8) [(0, u16b st)]"

definition handleRAPRequest :: "bytes \<Rightarrow> bytes" where
  "handleRAPRequest rap =
     (if length rap < 2 then encodeRAPError 1
      else if le16 rap 0 = 0x68 then encodeRAPError 71
      else encodeRAPError 1)"

definition skipLANMANPipePrefix :: "bytes \<Rightarrow> bytes" where
  "skipLANMANPipePrefix data =
     (let z = length (takeWhile (\<lambda>c. c \<noteq> 0) data); i = (if z < length data then z + 1 else z)
      in drop ((i + 3) div 4 * 4) data)"

definition isLANMANPipe :: "string \<Rightarrow> bool" where
  "isLANMANPipe path =
     (let s = trim_left_set (to_upper (replace_char path (CHR ''/'') backslash_char)) [backslash_char]
      in (if has_prefix s (''PIPE'' @ [backslash_char]) then drop 5 s else s) = ''LANMAN'')"

definition buildSMBv1TransactionLANMANResp :: "u16 \<Rightarrow> u16 \<Rightarrow> bytes \<Rightarrow> bytes" where
  "buildSMBv1TransactionLANMANResp tid uid rapOut =
     (let n = u16b (of_nat (length rapOut)) in
      buildSMB1Response 0x25 0 tid uid (stores (zeros 20) [(0, n), (2, u16b 0), (6, n), (8, u16b 55)]) rapOut)"

definition extractSMB1TransactionParams :: "bytes \<Rightarrow> bytes \<Rightarrow> bytes option" where
  "extractSMB1TransactionParams frame params =
     (if length params < 26 then None
      else
        let n = unat (le16 params 18); off = unat (le16 params 20) in
        if n = 0 \<or> off = 0 \<or> length frame < 4 + off + n then None else Some (take n (drop (4 + off) frame)))"

definition handleSMBv1TransactionLANMAN :: "bytes \<Rightarrow> bytes \<Rightarrow> smb1_header \<Rightarrow> bytes" where
  "handleSMBv1TransactionLANMAN frame params h =
     (let data = snd (smb1Body frame); err = (\<lambda>st. buildSMB1Response 0x25 st (h1_tid h) (h1_uid h) [] []) in
      if data = [] then err 0xC0000010
      else if \<not> isLANMANPipe (extractSMB1ASCIIString data) then err 0xC0000034
      else
        let req = (case extractSMB1TransactionParams frame params of Some r \<Rightarrow> r | None \<Rightarrow> skipLANMANPipePrefix data) in
        if req = [] then err 0xC0000010
        else buildSMBv1TransactionLANMANResp (h1_tid h) (h1_uid h) (handleRAPRequest req))"

definition handleSMBv1Transaction ::
  "smb_server \<Rightarrow> smb_shared \<Rightarrow> smb_session \<Rightarrow> bytes \<Rightarrow> smb1_header \<Rightarrow> smb1_result" where
  "handleSMBv1Transaction sv g s frame h =
     (let params = fst (smb1Body frame); setupCount = unat (params ! 26); fid = le16 params 30;
          err = (\<lambda>st. (g, s, Some (buildSMB1Response 0x25 st (h1_tid h) (h1_uid h) [] [])))
      in if length params < 28 then err 0xC0000010
         else if length params < 28 + setupCount * 2 then err 0xC0000010
         else if setupCount = 0 then (g, s, Some (handleSMBv1TransactionLANMAN frame params h))
         else if setupCount < 2 then err 0xC0000002
         else if le16 params 28 \<noteq> (0x26 :: u16) then err 0xC0000002
         else
           case ss_smb1Handles s fid of
             None \<Rightarrow> err 0xC0000034
           | Some p \<Rightarrow>
               let (p', out) = pipe_transceive p (frame_slice frame (le16 params 24) (le16 params 22))
                     (pipeContext sv (\<not> ss_guest s));
                   n = u16b (of_nat (length out))
               in (g, put_pipe fid p' s,
                   Some (buildSMB1Response 0x25 0 (h1_tid h) (h1_uid h)
                     (stores (zeros 20) [(2, n), (12, n), (14, u16b 56)]) (0 # out))))"

end
