(* ===== verification/Smb_Conn.thy ===== *)
theory Smb_Conn
  imports Smb_Smb1
begin

unbundle bit_operations_syntax

text \<open>
  One connection of the SMB honeypot (\<open>handleConn\<close> of \<open>internal/honeypot/smb/server.go\<close>): the dispatch of
  a frame, the loop over the bytes received, and what holds of every session a sequence of frames can
  lead to, whatever the other connections do to the shared counters meanwhile.
\<close>

section \<open>One frame\<close>

datatype conn_outcome =
    Hangup
  | Crash
  | Served (served_shared: smb_shared) (served_session: smb_session) (served_reply: "bytes option") (served_events: "event list")

definition is_smb1 :: "bytes \<Rightarrow> bool" where
  "is_smb1 frame \<longleftrightarrow> 9 \<le> length frame \<and> take 4 (drop 4 frame) = magic1"

definition of_smb1 :: "smb1_result \<Rightarrow> conn_outcome" where
  "of_smb1 r = (case r of (g, s, out) \<Rightarrow> Served g s out [])"

definition smb1_dispatch ::
  "smb_server \<Rightarrow> smb_tick \<Rightarrow> smb_shared \<Rightarrow> smb_session \<Rightarrow> bytes \<Rightarrow> smb1_header \<Rightarrow> conn_outcome" where
  "smb1_dispatch sv t g s frame h =
     (let c = h1_command h; plain = (\<lambda>st p. Served g s (Some (buildSMB1Response c st (h1_tid h) (h1_uid h) p [])) []) in
      if c = 0x72 then (case handleSMBv1Negotiate sv t s frame of (s', r) \<Rightarrow> Served g s' (Some r) [])
      else if c = 0x73 then (case handleSMBv1SessionSetup sv g s of (g', s', r) \<Rightarrow> Served g' s' (Some r) [])
      else if c = 0x75 then of_smb1 (handleSMBv1TreeConnect sv g s frame (h1_uid h))
      else if c = 0xA2 then
        (case handleSMBv1NTCreateAndX t g s frame h of None \<Rightarrow> Crash | Some r \<Rightarrow> of_smb1 r)
      else if c = 0x2F then of_smb1 (handleSMBv1WriteAndX sv g s frame h)
      else if c = 0x2E then of_smb1 (handleSMBv1ReadAndX g s frame h)
      else if c = 0x04 then of_smb1 (handleSMBv1Close g s frame h)
      else if c = 0x71 then of_smb1 (handleSMBv1TreeDisconnect g s h)
      else if c = 0x74 then plain 0 no_andx
      else if c = 0x06 then plain 0xC0000034 []
      else if c = 0x25 then of_smb1 (handleSMBv1Transaction sv g s frame h)
      else plain 0xC0000002 [])"

definition smb2_dispatch ::
  "crypto \<Rightarrow> smb_server \<Rightarrow> smb_tick \<Rightarrow> smb_shared \<Rightarrow> smb_session \<Rightarrow> smb2_header \<Rightarrow> bytes \<Rightarrow> bytes \<Rightarrow> smb_result option" where
  "smb2_dispatch C sv t g s hdr body frame =
     (let c = h2_command hdr in
      if c = CmdNegotiate then (case handleNegotiate sv t s hdr body of (s', r) \<Rightarrow> Some (g, s', r, []))
      else if c = CmdSessionSetup then Some (handleSessionSetup C sv t g s hdr body frame)
      else if c = CmdTreeConnect then Some (handleTreeConnect sv g s hdr body frame)
      else if c = CmdTreeDisconnect then
        (let s' = (if h2_treeID hdr \<noteq> 0 then freeTree (h2_treeID hdr) s else s)
         in Some (g, s', buildPacket hdr StatusSuccess (ss_id s) (h2_treeID hdr) buildErrorBody, []))
      else if c = CmdLogoff then Some (g, s, buildPacket hdr StatusSuccess (ss_id s) 0 buildErrorBody, [])
      else if c = CmdCreate then Some (handleCreate sv g s hdr body frame)
      else if c = CmdClose then Some (handleClose t g s hdr body)
      else if c = CmdQueryDirectory then Some (handleQueryDirectory sv g s hdr body)
      else if c = CmdQueryInfo then handleQueryInfo g s hdr body
      else if c = CmdRead then Some (handleRead sv g s hdr body)
      else if c = CmdWrite then Some (handleWrite sv g s hdr body frame)
      else if c = CmdIOCtl then Some (handleIOCtl sv g s hdr body frame)
      else Some (g, s, buildPacket hdr StatusAccessDenied (ss_id s) (h2_treeID hdr) buildErrorBody, []))"

definition fold_request :: "crypto \<Rightarrow> smb2_header \<Rightarrow> bytes \<Rightarrow> smb_session \<Rightarrow> smb_session" where
  "fold_request C hdr frame s = (if h2_command hdr = CmdSessionSetup then preauthUpdate C (drop 4 frame) s else s)"

definition fold_response :: "crypto \<Rightarrow> smb2_header \<Rightarrow> bytes \<Rightarrow> bytes \<Rightarrow> smb_session \<Rightarrow> smb_session" where
  "fold_response C hdr frame r s =
     (if ss_dialect s \<noteq> dialect311 then s
      else if h2_command hdr = CmdNegotiate then
        preauthUpdate C (drop 4 r) (preauthUpdate C (drop 4 frame) (preauthInit s))
      else if h2_command hdr = CmdSessionSetup \<and> le32 r 12 = StatusMoreProcessing then preauthUpdate C (drop 4 r) s
      else s)"

definition sign_reply :: "crypto \<Rightarrow> smb_session \<Rightarrow> bytes \<Rightarrow> bytes" where
  "sign_reply C s r = (if ss_signingActive s then signFrame C r (ss_signingKey s) (ss_dialect s) else r)"

definition smb_step :: "crypto \<Rightarrow> smb_server \<Rightarrow> smb_tick \<Rightarrow> smb_shared \<Rightarrow> smb_session \<Rightarrow> bytes \<Rightarrow> conn_outcome" where
  "smb_step C sv t g s frame =
     (if is_smb1 frame then
        (case parseSMB1Header frame of
           None \<Rightarrow> Served g s None []
         | Some h \<Rightarrow> smb1_dispatch sv t g s frame h)
      else if length frame < pktHdrLen then Served g s None []
      else
        case parseHeader frame of
          None \<Rightarrow> Hangup
        | Some hdr \<Rightarrow>
            (case smb2_dispatch C sv t g (fold_request C hdr frame s) hdr (drop pktHdrLen frame) frame of
               None \<Rightarrow> Crash
             | Some (g', s', r, evs) \<Rightarrow>
                 let s'' = fold_response C hdr frame r s' in Served g' s'' (Some (sign_reply C s'' r)) evs))"

section \<open>The connection\<close>

text \<open>What happens around iteration \<open>i\<close>: the clock, whether the server is being stopped, whether a write
  succeeds, and the shared counters as the other connections left them.\<close>

record conn_env =
  ce_tick :: smb_tick
  ce_done :: bool
  ce_writeOk :: bool

datatype conn_end = Closed smb_session | Panicked

lemma readFrame_shorter: "readFrame s = Inr (f, rest) \<Longrightarrow> length rest < length s"
  by (auto simp: readFrame_def Let_def split: if_splits)

text \<open>The loop, alone on its server: the session at the end, the shared counters, the bytes written and
  the events.  Every frame takes at least its header from what is received.\<close>

function conn_loop ::
  "crypto \<Rightarrow> smb_server \<Rightarrow> (nat \<Rightarrow> conn_env) \<Rightarrow> nat \<Rightarrow> smb_shared \<Rightarrow> smb_session \<Rightarrow> bytes \<Rightarrow>
     conn_end \<times> smb_shared \<times> bytes list \<times> event list" where
  "conn_loop C sv env i g s input =
     (if ce_done (env i) then (Closed s, g, [], [])
      else
        case readFrame input of
          Inl _ \<Rightarrow> (Closed s, g, [], [])
        | Inr (frame, rest) \<Rightarrow>
            (case smb_step C sv (ce_tick (env i)) g s frame of
               Hangup \<Rightarrow> (Closed s, g, [], [])
             | Crash \<Rightarrow> (Panicked, g, [], [])
             | Served g' s' out evs \<Rightarrow>
                 if out \<noteq> None \<and> \<not> ce_writeOk (env i) \<and> \<not> is_smb1 frame then (Closed s', g', [], evs)
                 else
                   let (e, g'', outs, evs') = conn_loop C sv env (Suc i) g' s' rest
                   in (e, g'', (case out of None \<Rightarrow> outs | Some r \<Rightarrow> r # outs), evs @ evs')))"
  by pat_completeness auto
termination
  by (relation "measure (\<lambda>(C, sv, env, i, g, s, input). length input)") (auto dest: readFrame_shorter)

declare conn_loop.simps [simp del]

definition handleConn ::
  "crypto \<Rightarrow> smb_server \<Rightarrow> (nat \<Rightarrow> conn_env) \<Rightarrow> smb_shared \<Rightarrow> string \<Rightarrow> bool \<Rightarrow> bytes \<Rightarrow>
     conn_end \<times> smb_shared \<times> bytes list \<times> event list" where
  "handleConn C sv env g0 remote nbssRequired input =
     (let g = g0\<lparr>sg_connections := sg_connections g0 + 1\<rparr>; s = newSession remote;
          opened = smb_event sv s ((blank_event Connection)\<lparr>ev_message := ''SMB connection opened''\<rparr>)
      in if \<not> nbssRequired then (case conn_loop C sv env 0 g s input of (e, g', outs, evs) \<Rightarrow> (e, g', outs, opened # evs))
         else
           case negotiateNetBIOSSession (sm_computerName (sv_cfg sv)) input of
             (out, None) \<Rightarrow> (Closed s, g, if out = [] then [] else [out], [opened])
           | (out, Some rest) \<Rightarrow>
               (case conn_loop C sv env 0 g s rest of (e, g', outs, evs) \<Rightarrow> (e, g', out # outs, opened # evs)))"

section \<open>What access control reads\<close>

text \<open>The part of a session access control depends on: state, flags, challenge, trees, and of a handle its node and
  share.  Most handlers leave it alone.\<close>

definition acl :: "smb_session \<Rightarrow> session_state \<times> bool \<times> bool \<times> bytes \<times> (u32 \<rightharpoonup> string) \<times> (u64 \<rightharpoonup> vfs_node option \<times> string)" where
  "acl s = (ss_state s, ss_guest s, ss_seeded s, ss_challenge s, ss_trees s,
            \<lambda>k. map_option (\<lambda>h. (fh_node h, fh_shareName h)) (ss_handles s k))"

named_theorems acl_simps

lemma acl_put [acl_simps]:
  assumes "ss_handles s k = Some h" "fh_node h' = fh_node h" "fh_shareName h' = fh_shareName h"
  shows "acl (put_handle k h' s) = acl s"
  using assms by (auto simp: acl_def put_handle_def fun_eq_iff)

lemma effective_share [simp]: "fh_shareName (fst (effectiveChildren v n h)) = fh_shareName h"
  by (auto simp: effectiveChildren_def Let_def split: option.splits)

lemma query_loop_handle [simp]:
  "fh_node (fst (query_loop v n cls out h packed sz)) = fh_node h"
  "fh_shareName (fst (query_loop v n cls out h packed sz)) = fh_shareName h"
  using query_loop_takes [of v n cls out h packed sz] by auto

lemma acl_queryDirectory [acl_simps]: "acl (fst (snd (handleQueryDirectory sv g s req body))) = acl s"
proof -
  have *: "acl (put_handle k h' s) = acl s"
    if "ss_handles s k = Some h" "fh_node h' = fh_node h" "fh_shareName h' = fh_shareName h" for k h h'
    using acl_put that .
  show ?thesis
    by (auto simp: handleQueryDirectory_def Let_def case_prod_beta hasMore_iff resetDir_def split: option.splits intro!: *)
qed

lemma acl_read [acl_simps]: "acl (fst (snd (handleRead sv g s req body))) = acl s"
  by (auto simp: handleRead_def Let_def case_prod_beta split: option.splits intro!: acl_put)

lemma acl_write [acl_simps]: "acl (fst (snd (handleWrite sv g s req body frame))) = acl s"
  by (auto simp: handleWrite_def Let_def case_prod_beta split: option.splits intro!: acl_put)

lemma acl_ioctl [acl_simps]: "acl (fst (snd (handleIOCtl sv g s req body frame))) = acl s"
  by (auto simp: handleIOCtl_def Let_def case_prod_beta split: option.splits intro!: acl_put)

lemma acl_queryInfo [acl_simps]: "handleQueryInfo g s req body = Some r \<Longrightarrow> fst (snd r) = s"
  by (auto simp: handleQueryInfo_def Let_def split: option.splits if_splits)

lemma acl_negotiate [acl_simps]:
  "acl (fst (buildNegotiateResponse sv t s req offered)) \<in> {acl s, acl (s\<lparr>ss_state := StateNegotiated\<rparr>)}"
  by (simp add: buildNegotiateResponse_def Let_def acl_def)

lemma acl_negotiate1 [acl_simps]:
  "acl (fst (handleSMBv1Negotiate sv t s frame)) \<in> {acl s, acl (s\<lparr>ss_state := StateNegotiated\<rparr>)}"
  using acl_negotiate [of sv t s smb1_negotiate_req "smb1ParseSMB2Dialects frame"]
  by (simp add: handleSMBv1Negotiate_def Let_def buildSMBv1NegotiateResponse_def)

lemma acl_smb1 [acl_simps]:
  "acl (fst (snd (handleSMBv1TreeConnect sv g s frame uid))) = acl s"
  "handleSMBv1NTCreateAndX t g s frame h = Some r \<Longrightarrow> acl (fst (snd r)) = acl s"
  "acl (fst (snd (handleSMBv1WriteAndX sv g s frame h))) = acl s"
  "acl (fst (snd (handleSMBv1ReadAndX g s frame h))) = acl s"
  "acl (fst (snd (handleSMBv1Close g s frame h))) = acl s"
  "acl (fst (snd (handleSMBv1TreeDisconnect g s h))) = acl s"
  "acl (fst (snd (handleSMBv1Transaction sv g s frame h))) = acl s"
proof -
  show "acl (fst (snd (handleSMBv1TreeConnect sv g s frame uid))) = acl s"
    by (simp add: handleSMBv1TreeConnect_def allocSMB1Tree_def acl_def Let_def case_prod_beta)
  show "handleSMBv1NTCreateAndX t g s frame h = Some r \<Longrightarrow> acl (fst (snd r)) = acl s"
    by (auto simp: handleSMBv1NTCreateAndX_def allocSMB1Pipe_def acl_def Let_def case_prod_beta split: if_splits)
  show "acl (fst (snd (handleSMBv1WriteAndX sv g s frame h))) = acl s"
    by (simp add: handleSMBv1WriteAndX_def put_pipe_def acl_def Let_def split: option.split)
  show "acl (fst (snd (handleSMBv1ReadAndX g s frame h))) = acl s"
    by (simp add: handleSMBv1ReadAndX_def put_pipe_def acl_def Let_def case_prod_beta split: option.split)
  show "acl (fst (snd (handleSMBv1Close g s frame h))) = acl s"
    by (simp add: handleSMBv1Close_def freeSMB1Handle_def acl_def Let_def)
  show "acl (fst (snd (handleSMBv1TreeDisconnect g s h))) = acl s"
    by (simp add: handleSMBv1TreeDisconnect_def freeSMB1Tree_def acl_def)
  show "acl (fst (snd (handleSMBv1Transaction sv g s frame h))) = acl s"
    by (simp add: handleSMBv1Transaction_def put_pipe_def acl_def Let_def case_prod_beta split: option.split)
qed

lemma acl_preauth [simp]:
  "acl (preauthUpdate C m s) = acl s" "acl (preauthInit s) = acl s"
  "acl (fold_request C hdr f s) = acl s" "acl (fold_response C hdr f r s) = acl s"
  by (simp_all add: acl_def preauthUpdate_def preauthInit_def fold_request_def fold_response_def)

lemma acl_dispatch1:
  assumes "smb1_dispatch sv t g s frame h = Served g' s' out evs" "h1_command h \<noteq> 0x73"
  shows "acl s' \<in> {acl s, acl (s\<lparr>ss_state := StateNegotiated\<rparr>)}"
  using assms acl_negotiate1 [of sv t s frame] acl_smb1
  by (auto simp: smb1_dispatch_def of_smb1_def Let_def case_prod_beta split: if_splits option.splits)

section \<open>Sessions that obey the guard\<close>

definition guarded :: "smb_session \<Rightarrow> bool" where
  "guarded s \<longleftrightarrow>
     (case acl s of
        (st, guest, seeded, _, trees, files) \<Rightarrow>
          (st = StateAuthenticated \<longrightarrow> seeded \<or> guest) \<and>
          (\<forall>k p. trees k = Some p \<and> isAdminShare (shareFromTree p) \<longrightarrow> seeded) \<and>
          (\<forall>k n sh. files k = Some (Some n, sh) \<and> isAdminShare sh \<longrightarrow> seeded))"

lemma guarded_eq: "acl s' = acl s \<Longrightarrow> guarded s' = guarded s"
  by (simp add: guarded_def)

lemma guarded_negotiated: "guarded s \<Longrightarrow> guarded (s\<lparr>ss_state := StateNegotiated\<rparr>)"
  by (auto simp: guarded_def acl_def)

lemma guarded_acl: "acl s' \<in> {acl s, acl (s\<lparr>ss_state := StateNegotiated\<rparr>)} \<Longrightarrow> guarded s \<Longrightarrow> guarded s'"
  using guarded_eq guarded_negotiated by blast

lemma guarded_newSession: "guarded (newSession remote)"
  by (simp add: guarded_def acl_def newSession_def)

text \<open>An AUTHENTICATE frame whose response verifies, under a challenge, for a planted credential.\<close>

definition proves_credential :: "crypto \<Rightarrow> smb_server \<Rightarrow> bytes \<Rightarrow> bytes \<Rightarrow> bool" where
  "proves_credential C sv frame challenge \<longleftrightarrow>
     (case findNTLMBlob (extractSecBuf (drop pktHdrLen frame) frame) of
        None \<Rightarrow> False
      | Some blob \<Rightarrow>
          (case parseNTLMAuth blob of
             Inl _ \<Rightarrow> False
           | Inr creds \<Rightarrow>
               (case matchCredential (sm_credentials (sv_cfg sv)) (nc_username creds) of
                  None \<Rightarrow> False
                | Some cred \<Rightarrow>
                    nc_username creds \<noteq> [] \<and>
                    verifyCredential C cred (nc_username creds) (nc_domain creds) challenge (nc_ntResponse creds))))"

lemma acl_assign [simp]: "acl (snd (assign_id g s)) = acl s"
  by (simp add: assign_id_def acl_def Let_def)

lemma acl_guest_or_deny:
  "acl (fst (snd (guest_or_deny sv g s req evs))) \<in>
     {acl s, acl (s\<lparr>ss_state := StateAuthenticated, ss_guest := True\<rparr>)}"
  by (simp add: guest_or_deny_def)

lemma acl_setupSigning [simp]: "acl (fst (setupSigning C s cred auth)) = acl s"
  by (simp add: setupSigning_def acl_def Let_def split: option.split)

lemma acl_challenge:
  "\<exists>ns. acl (fst (snd (doChallenge sv t g s req))) = acl (s\<lparr>ss_challenge := genChallenge ns, ss_state := StateSetupPending\<rparr>)"
  using acl_assign [of g s]
  by (intro exI [of _ "tk_ns t"]) (simp add: doChallenge_def Let_def case_prod_beta acl_def)

lemma acl_upd:
  assumes "acl s = acl s'"
  shows "acl (s\<lparr>ss_state := st, ss_guest := b\<rparr>) = acl (s'\<lparr>ss_state := st, ss_guest := b\<rparr>)"
    "acl (s\<lparr>ss_state := st, ss_seeded := c, ss_guest := b\<rparr>) = acl (s'\<lparr>ss_state := st, ss_seeded := c, ss_guest := b\<rparr>)"
    "ss_challenge s = ss_challenge s'"
  using assms by (simp_all add: acl_def)

text \<open>The four things a session setup can do to the guarded part.\<close>

lemma acl_sessionSetup:
  obtains "acl (fst (snd (handleSessionSetup C sv t g s req (drop pktHdrLen frame) frame))) = acl s"
  | ns where "acl (fst (snd (handleSessionSetup C sv t g s req (drop pktHdrLen frame) frame))) =
      acl (s\<lparr>ss_challenge := genChallenge ns, ss_state := StateSetupPending\<rparr>)"
  | "acl (fst (snd (handleSessionSetup C sv t g s req (drop pktHdrLen frame) frame))) =
      acl (s\<lparr>ss_state := StateAuthenticated, ss_guest := True\<rparr>)"
  | "acl (fst (snd (handleSessionSetup C sv t g s req (drop pktHdrLen frame) frame))) =
      acl (s\<lparr>ss_state := StateAuthenticated, ss_seeded := True, ss_guest := False\<rparr>)"
    "proves_credential C sv frame (ss_challenge s)"
proof -
  let ?r = "handleSessionSetup C sv t g s req (drop pktHdrLen frame) frame"
  let ?s1 = "snd (assign_id g s)"
  have a: "acl ?s1 = acl s" by simp
  have guest: "acl (fst (snd (guest_or_deny sv g1 ?s1 req evs))) \<in>
      {acl s, acl (s\<lparr>ss_state := StateAuthenticated, ss_guest := True\<rparr>)}" for g1 evs
    using acl_guest_or_deny [of sv g1 ?s1 req evs] acl_upd(1) [OF a] a by auto
  have anon: "acl (fst (snd (doAnonymous sv g s req))) \<in>
      {acl s, acl (s\<lparr>ss_state := StateAuthenticated, ss_guest := True\<rparr>)}"
    using guest by (simp add: doAnonymous_def case_prod_beta)
  have accept: "acl (fst (snd (doAccept C sv g s req blob))) \<in>
      {acl s, acl (s\<lparr>ss_state := StateAuthenticated, ss_guest := True\<rparr>)} \<or>
      acl (fst (snd (doAccept C sv g s req blob))) =
        acl (s\<lparr>ss_state := StateAuthenticated, ss_seeded := True, ss_guest := False\<rparr>) \<and>
      proves_credential C sv frame (ss_challenge s)"
    if "findNTLMBlob (extractSecBuf (drop pktHdrLen frame) frame) = Some blob" for blob
    using that guest acl_upd(2,3) [OF a]
    by (auto simp: doAccept_def Let_def case_prod_beta proves_credential_def split: sum.splits option.splits if_splits)
  have "acl (fst (snd ?r)) = acl s \<or> ?r = doChallenge sv t g s req \<or> ?r = doAnonymous sv g s req \<or>
      (\<exists>blob. findNTLMBlob (extractSecBuf (drop pktHdrLen frame) frame) = Some blob \<and> ?r = doAccept C sv g s req blob)"
    by (cases "findNTLMBlob (extractSecBuf (drop pktHdrLen frame) frame)")
      (simp_all add: handleSessionSetup_def Let_def del: One_nat_def)
  then show thesis
    using that anon accept acl_challenge [of sv t g s req] by (elim disjE exE conjE) auto
qed

lemma guarded_iff:
  "guarded s \<longleftrightarrow>
     (ss_state s = StateAuthenticated \<longrightarrow> ss_seeded s \<or> ss_guest s) \<and>
     (\<forall>k p. ss_trees s k = Some p \<longrightarrow> isAdminShare (shareFromTree p) \<longrightarrow> ss_seeded s) \<and>
     (\<forall>k h. ss_handles s k = Some h \<longrightarrow> fh_node h \<noteq> None \<longrightarrow> isAdminShare (fh_shareName h) \<longrightarrow> ss_seeded s)"
  unfolding guarded_def by (simp add: acl_def) blast

lemma guarded_treeConnect:
  assumes "guarded s"
  shows "guarded (fst (snd (handleTreeConnect sv g s req body frame)))"
proof -
  have alloc: "guarded (fst (allocTree p s))"
    if "\<not> (\<not> canAccessAdminShare s \<and> isAdminShare (shareFromTree p))" "ss_state s = StateAuthenticated" for p
    using assms that by (auto simp: guarded_iff allocTree_def canAccessAdminShare_def Let_def split: if_splits)
  show ?thesis
    using assms alloc by (auto simp: handleTreeConnect_def Let_def case_prod_beta)
qed

lemma guarded_alloc_handle:
  assumes "guarded s" "fh_node h \<noteq> None \<and> isAdminShare (fh_shareName h) \<longrightarrow> ss_seeded s"
  shows "guarded (fst (snd (alloc_handle h g s)))"
  using assms by (auto simp: guarded_iff alloc_handle_def Let_def split: if_splits)

text \<open>A file is opened on the share of a connected tree.\<close>

lemma guarded_create:
  assumes "guarded s"
  shows "guarded (fst (snd (handleCreate sv g s req body frame)))"
proof -
  let ?share = "shareFromTree (treePathFor s (h2_treeID req))"
  have "\<not> isAdminShare (shareFromTree [])"
    by (simp add: isAdminShare_def shareFromTree_def trim_left_set_def to_upper_def)
  then have "isAdminShare ?share \<longrightarrow> ss_seeded s"
    using assms by (auto simp: guarded_iff treePathFor_def split: option.splits)
  then have "guarded (fst (snd (allocHandle n ?share g s)))" for n
    unfolding allocHandle_def using assms by (intro guarded_alloc_handle) auto
  moreover have "guarded (fst (snd (allocPipeHandle p g s)))" for p
    unfolding allocPipeHandle_def using assms by (intro guarded_alloc_handle) auto
  ultimately show ?thesis
    using assms by (auto simp: handleCreate_def Let_def case_prod_beta split: option.split)
qed

lemma guarded_close: "guarded s \<Longrightarrow> guarded (fst (snd (handleClose t g s req body)))"
  by (auto simp: handleClose_def Let_def freeHandle_def guarded_iff split: option.split)

lemma guarded_freeTree: "guarded s \<Longrightarrow> guarded (freeTree k s)"
  by (auto simp: freeTree_def guarded_iff)

lemma guarded_sessionSetup:
  assumes "guarded s"
  shows "guarded (fst (snd (handleSessionSetup C sv t g s req (drop pktHdrLen frame) frame)))"
proof (cases rule: acl_sessionSetup [of C sv t g s req frame])
  case 1
  then show ?thesis using assms guarded_eq by blast
next
  case (2 ns)
  have "guarded (s\<lparr>ss_challenge := genChallenge ns, ss_state := StateSetupPending\<rparr>)"
    using assms by (auto simp: guarded_iff)
  then show ?thesis using 2 guarded_eq by blast
next
  case 3
  have "guarded (s\<lparr>ss_state := StateAuthenticated, ss_guest := True\<rparr>)"
    using assms by (auto simp: guarded_iff)
  then show ?thesis using 3 guarded_eq by blast
next
  case 4
  have "guarded (s\<lparr>ss_state := StateAuthenticated, ss_seeded := True, ss_guest := False\<rparr>)"
    by (auto simp: guarded_iff)
  then show ?thesis using 4(1) guarded_eq by blast
qed

section \<open>Traces\<close>

text \<open>The sessions a sequence of frames can lead to, the clock and the shared counters being arbitrary at
  every frame.\<close>

inductive conn_trace :: "crypto \<Rightarrow> smb_server \<Rightarrow> bytes list \<Rightarrow> smb_session \<Rightarrow> bool" for C sv where
  opened: "conn_trace C sv [] (newSession remote)"
| served: "conn_trace C sv fs s \<Longrightarrow> smb_step C sv t g s f = Served g' s' out evs \<Longrightarrow> conn_trace C sv (fs @ [f]) s'"

inductive_cases conn_trace_NilE: "conn_trace C sv [] s"

definition smb1_session_setup :: "bytes \<Rightarrow> bool" where
  "smb1_session_setup f \<longleftrightarrow> is_smb1 f \<and> 36 \<le> length f \<and> f ! 8 = 0x73"

definition issued_challenges :: "bytes set" where
  "issued_challenges = insert (zeros 8) (range genChallenge)"

lemma dispatch2_cases:
  assumes "smb2_dispatch C sv t g s hdr (drop pktHdrLen f) f = Some r" "s' = fst (snd r)"
  obtains "acl s' \<in> {acl s, acl (s\<lparr>ss_state := StateNegotiated\<rparr>)}"
  | "s' = fst (snd (handleSessionSetup C sv t g s hdr (drop pktHdrLen f) f))"
  | "s' = fst (snd (handleTreeConnect sv g s hdr (drop pktHdrLen f) f))"
  | k where "s' = freeTree k s"
  | "s' = fst (snd (handleCreate sv g s hdr (drop pktHdrLen f) f))"
  | "s' = fst (snd (handleClose t g s hdr (drop pktHdrLen f)))"
proof -
  have neg: "acl (fst (handleNegotiate sv t s hdr body)) \<in> {acl s, acl (s\<lparr>ss_state := StateNegotiated\<rparr>)}" for body
    unfolding handleNegotiate_def by (rule acl_negotiate)
  have qi: "handleQueryInfo g s hdr (drop pktHdrLen f) = Some r \<Longrightarrow> acl s' = acl s"
    using acl_queryInfo assms(2) by simp
  have "acl s' \<in> {acl s, acl (s\<lparr>ss_state := StateNegotiated\<rparr>)} \<or>
      s' = fst (snd (handleSessionSetup C sv t g s hdr (drop pktHdrLen f) f)) \<or>
      s' = fst (snd (handleTreeConnect sv g s hdr (drop pktHdrLen f) f)) \<or> (\<exists>k. s' = freeTree k s) \<or>
      s' = fst (snd (handleCreate sv g s hdr (drop pktHdrLen f) f)) \<or>
      s' = fst (snd (handleClose t g s hdr (drop pktHdrLen f)))"
    using assms neg [of "drop pktHdrLen f"] qi
    by (auto simp: smb2_dispatch_def Let_def case_prod_beta acl_queryDirectory acl_read acl_write acl_ioctl
        split: if_splits)
  then show thesis using that by blast
qed

lemma unproved_flags:
  assumes "s' = fst (snd (handleTreeConnect sv g s hdr body f)) \<or> s' = freeTree k s \<or>
    s' = fst (snd (handleCreate sv g s hdr body f)) \<or> s' = fst (snd (handleClose t g s hdr body))"
  shows "ss_seeded s' = ss_seeded s" "ss_challenge s' = ss_challenge s"
proof -
  note defs = handleTreeConnect_def freeTree_def handleCreate_def handleClose_def allocTree_def freeHandle_def
    allocHandle_def allocPipeHandle_def alloc_handle_def Let_def case_prod_beta
  show "ss_seeded s' = ss_seeded s" "ss_challenge s' = ss_challenge s"
    using assms by (elim disjE; simp add: defs split: option.split)+
qed

lemma acl_flags:
  "acl s' \<in> {acl s, acl (s\<lparr>ss_state := StateNegotiated\<rparr>)} \<Longrightarrow> ss_seeded s' = ss_seeded s \<and> ss_challenge s' = ss_challenge s"
  by (auto simp: acl_def)

lemma sessionSetup_flags:
  assumes "s' = fst (snd (handleSessionSetup C sv t g s req (drop pktHdrLen f) f))" "ss_challenge s \<in> issued_challenges"
  shows "ss_challenge s' \<in> issued_challenges \<and> (ss_seeded s' \<longrightarrow> ss_seeded s \<or> proves_credential C sv f (ss_challenge s))"
proof -
  have eq: "ss_challenge s' = ss_challenge u \<and> ss_seeded s' = ss_seeded u" if "acl s' = acl u" for u
    using that by (simp add: acl_def)
  show ?thesis
  proof (cases rule: acl_sessionSetup [of C sv t g s req f, folded assms(1)])
    case 1
    then show ?thesis using eq assms(2) by simp
  next
    case (2 ns)
    then show ?thesis using eq [OF 2] by (simp add: issued_challenges_def)
  next
    case 3
    then show ?thesis using eq [OF 3] assms(2) by simp
  next
    case 4
    then show ?thesis using eq [OF 4(1)] assms(2) by simp
  qed
qed

text \<open>One frame that is not an SMB1 session setup: the guard is kept, the challenge is one the server
  issued, and a session becomes seeded only by a frame that proves a credential.\<close>

lemma step_guarded:
  assumes step: "smb_step C sv t g s f = Served g' s' out evs" and "\<not> smb1_session_setup f" "guarded s"
    and "ss_challenge s \<in> issued_challenges"
  shows "guarded s' \<and> ss_challenge s' \<in> issued_challenges \<and>
    (ss_seeded s' \<longrightarrow> ss_seeded s \<or> (\<exists>c \<in> issued_challenges. proves_credential C sv f c))"
proof (cases "is_smb1 f")
  case True
  show ?thesis
  proof (cases "parseSMB1Header f")
    case None
    then show ?thesis using step True assms by (simp add: smb_step_def)
  next
    case (Some h)
    then have "h1_command h \<noteq> 0x73"
      using assms(2) True by (auto simp: parseSMB1Header_def smb1_session_setup_def split: if_splits)
    moreover have "smb1_dispatch sv t g s f h = Served g' s' out evs"
      using step True Some by (simp add: smb_step_def)
    ultimately have "acl s' \<in> {acl s, acl (s\<lparr>ss_state := StateNegotiated\<rparr>)}"
      using acl_dispatch1 by blast
    then show ?thesis using guarded_acl acl_flags assms(3,4) by auto
  qed
next
  case False
  consider "s' = s" | hdr r where "smb2_dispatch C sv t g (fold_request C hdr f s) hdr (drop pktHdrLen f) f = Some r"
      "s' = fold_response C hdr f (fst (snd (snd r))) (fst (snd r))"
    using step False
    by (auto simp: smb_step_def Let_def case_prod_beta split: if_splits option.splits)
  then show ?thesis
  proof cases
    case 1
    then show ?thesis using assms by simp
  next
    case (2 hdr r)
    let ?s = "fold_request C hdr f s" and ?t = "fst (snd r)"
    have s: "guarded ?s" "ss_challenge ?s = ss_challenge s" "ss_seeded ?s = ss_seeded s"
      using guarded_eq [OF acl_preauth(3)] assms(3) by (simp, simp_all add: fold_request_def preauthUpdate_def)
    have kept: "guarded ?t \<and> ss_challenge ?t \<in> issued_challenges \<and>
        (ss_seeded ?t \<longrightarrow> ss_seeded s \<or> (\<exists>c \<in> issued_challenges. proves_credential C sv f c))"
      if "guarded ?t" "ss_seeded ?t = ss_seeded ?s" "ss_challenge ?t = ss_challenge ?s"
      using that s assms(4) by simp
    have "guarded ?t \<and> ss_challenge ?t \<in> issued_challenges \<and>
        (ss_seeded ?t \<longrightarrow> ss_seeded s \<or> (\<exists>c \<in> issued_challenges. proves_credential C sv f c))"
    proof (cases rule: dispatch2_cases [OF 2(1) refl])
      case 1
      then show ?thesis using kept guarded_acl [OF 1 s(1)] acl_flags [OF 1] by blast
    next
      case r: 2
      show ?thesis
        using sessionSetup_flags [OF r, unfolded s(2,3), OF assms(4)] guarded_sessionSetup [OF s(1)] assms(4)
        unfolding r by blast
    next
      case 3
      have "guarded ?t" unfolding 3 by (rule guarded_treeConnect [OF s(1)])
      then show ?thesis using unproved_flags [OF disjI1 [OF 3]] by (rule kept)
    next
      case (4 k)
      have "guarded ?t" unfolding 4 by (rule guarded_freeTree [OF s(1)])
      then show ?thesis using unproved_flags [OF disjI2 [OF disjI1 [OF 4]]] by (rule kept)
    next
      case 5
      have "guarded ?t" unfolding 5 by (rule guarded_create [OF s(1)])
      then show ?thesis using unproved_flags [OF disjI2 [OF disjI2 [OF disjI1 [OF 5]]]] by (rule kept)
    next
      case 6
      have "guarded ?t" unfolding 6 by (rule guarded_close [OF s(1)])
      then show ?thesis using unproved_flags [OF disjI2 [OF disjI2 [OF disjI2 [OF 6]]]] by (rule kept)
    qed
    moreover have "acl s' = acl ?t" using 2(2) by simp
    ultimately show ?thesis using guarded_eq [of s' ?t] acl_flags [of s' ?t] by auto
  qed
qed

lemma trace_guarded:
  assumes "conn_trace C sv fs s" "\<forall>f \<in> set fs. \<not> smb1_session_setup f"
  shows "guarded s \<and> ss_challenge s \<in> issued_challenges \<and>
    (ss_seeded s \<longrightarrow> (\<exists>f \<in> set fs. \<exists>c \<in> issued_challenges. proves_credential C sv f c))"
  using assms
proof (induction rule: conn_trace.induct)
  case (opened remote)
  then show ?case
    using guarded_newSession by (simp add: newSession_def issued_challenges_def)
next
  case (served fs s t g f g' s' out evs)
  then have "guarded s" "ss_challenge s \<in> issued_challenges" "\<not> smb1_session_setup f"
    "ss_seeded s \<longrightarrow> (\<exists>f \<in> set fs. \<exists>c \<in> issued_challenges. proves_credential C sv f c)"
    by auto
  with step_guarded [OF served.hyps(2)] show ?case by auto
qed

section \<open>SMB1 trees\<close>

text \<open>The trees of SMB1 are a table of their own, which only the SMB1 handlers change.\<close>

lemma smb1Trees_put [simp]:
  "ss_smb1Trees (put_handle k h s) = ss_smb1Trees s" "ss_smb1Trees (snd (assign_id g s)) = ss_smb1Trees s"
  "ss_smb1Trees (fst (setupSigning C s cred auth)) = ss_smb1Trees s"
  "ss_smb1Trees (fst (snd (guest_or_deny sv g s req evs))) = ss_smb1Trees s"
  by (simp_all add: put_handle_def assign_id_def setupSigning_def guest_or_deny_def Let_def split: option.split)

lemma smb1Trees_setup:
  "ss_smb1Trees (fst (snd (handleSessionSetup C sv t g s req body frame))) = ss_smb1Trees s"
proof -
  have "ss_smb1Trees (fst (snd (doAccept C sv g s req blob))) = ss_smb1Trees s" for blob
    by (auto simp: doAccept_def Let_def case_prod_beta split: sum.split option.split)
  then show ?thesis
    by (simp add: handleSessionSetup_def doChallenge_def doAnonymous_def Let_def case_prod_beta del: One_nat_def)
qed

lemma smb1Trees_files:
  "ss_smb1Trees (fst (snd (handleTreeConnect sv g s req body frame))) = ss_smb1Trees s"
  "ss_smb1Trees (fst (snd (handleCreate sv g s req body frame))) = ss_smb1Trees s"
  "ss_smb1Trees (fst (snd (handleClose t g s req body))) = ss_smb1Trees s"
  "ss_smb1Trees (freeTree n s) = ss_smb1Trees s"
  "ss_smb1Trees (fst (handleNegotiate sv t s req body)) = ss_smb1Trees s"
  by (simp_all add: handleTreeConnect_def handleCreate_def handleClose_def allocTree_def freeHandle_def freeTree_def
      allocHandle_def allocPipeHandle_def alloc_handle_def handleNegotiate_def buildNegotiateResponse_def Let_def
      case_prod_beta split: option.split)

lemma smb1Trees_io:
  "ss_smb1Trees (fst (snd (handleQueryDirectory sv g s req body))) = ss_smb1Trees s"
  "ss_smb1Trees (fst (snd (handleRead sv g s req body))) = ss_smb1Trees s"
  "ss_smb1Trees (fst (snd (handleWrite sv g s req body frame))) = ss_smb1Trees s"
  "ss_smb1Trees (fst (snd (handleIOCtl sv g s req body frame))) = ss_smb1Trees s"
  by (simp_all add: handleQueryDirectory_def handleRead_def handleWrite_def handleIOCtl_def Let_def case_prod_beta
      split: option.split)

lemma smb1Trees_dispatch2:
  assumes "smb2_dispatch C sv t g s hdr body f = Some r"
  shows "ss_smb1Trees (fst (snd r)) = ss_smb1Trees s"
  using assms acl_queryInfo [of g s hdr body r]
  by (auto simp: smb2_dispatch_def Let_def case_prod_beta smb1Trees_setup smb1Trees_files smb1Trees_io split: if_splits)

definition smb1_tree_connect :: "bytes \<Rightarrow> bool" where
  "smb1_tree_connect f \<longleftrightarrow> is_smb1 f \<and> 36 \<le> length f \<and> f ! 8 = 0x75"

text \<open>An administrative share enters that table only by a tree connect on a session that is no guest's.\<close>

lemma smb1Trees_dispatch1:
  assumes "smb1_dispatch sv t g s f h = Served g' s' out evs" "ss_smb1Trees s' k = Some p" "isAdminShare (shareFromTree p)"
  shows "ss_smb1Trees s k = Some p \<or> h1_command h = 0x75 \<and> canAccessAdminShare s"
proof -
  have tree: "ss_smb1Trees s k = Some p \<or> canAccessAdminShare s"
    if "s' = fst (snd (handleSMBv1TreeConnect sv g s f (h1_uid h)))"
    using assms(2,3) that by (auto simp: handleSMBv1TreeConnect_def allocSMB1Tree_def Let_def case_prod_beta split: if_splits)
  have neg: "ss_smb1Trees (fst (handleSMBv1Negotiate sv t s f)) = ss_smb1Trees s"
    by (simp add: handleSMBv1Negotiate_def buildSMBv1NegotiateResponse_def buildNegotiateResponse_def Let_def)
  have ssetup: "ss_smb1Trees (fst (snd (handleSMBv1SessionSetup sv g s))) = ss_smb1Trees s"
    by (simp add: handleSMBv1SessionSetup_def Let_def case_prod_beta)
  have create: "handleSMBv1NTCreateAndX t g s f h = Some r \<Longrightarrow> ss_smb1Trees (fst (snd r)) = ss_smb1Trees s" for r
    by (auto simp: handleSMBv1NTCreateAndX_def allocSMB1Pipe_def Let_def case_prod_beta split: if_splits)
  have rw: "ss_smb1Trees (fst (snd (handleSMBv1WriteAndX sv g s f h))) = ss_smb1Trees s"
    "ss_smb1Trees (fst (snd (handleSMBv1ReadAndX g s f h))) = ss_smb1Trees s"
    "ss_smb1Trees (fst (snd (handleSMBv1Close g s f h))) = ss_smb1Trees s"
    "ss_smb1Trees (fst (snd (handleSMBv1Transaction sv g s f h))) = ss_smb1Trees s"
    by (simp_all add: handleSMBv1WriteAndX_def handleSMBv1ReadAndX_def handleSMBv1Close_def handleSMBv1Transaction_def
        put_pipe_def freeSMB1Handle_def Let_def case_prod_beta split: option.split)
  have gone: "ss_smb1Trees (fst (snd (handleSMBv1TreeDisconnect g s h))) = (ss_smb1Trees s)(h1_tid h := None)"
    by (simp add: handleSMBv1TreeDisconnect_def freeSMB1Tree_def)
  show ?thesis
    using assms(1,2) tree neg ssetup create rw gone
    by (auto simp: smb1_dispatch_def of_smb1_def Let_def case_prod_beta split: if_splits option.splits)
qed

lemma smb1Trees_step:
  assumes "smb_step C sv t g s f = Served g' s' out evs" "ss_smb1Trees s' k = Some p" "isAdminShare (shareFromTree p)"
  shows "ss_smb1Trees s k = Some p \<or> smb1_tree_connect f \<and> canAccessAdminShare s"
proof (cases "is_smb1 f")
  case True
  show ?thesis
  proof (cases "parseSMB1Header f")
    case None
    then show ?thesis using assms True by (simp add: smb_step_def)
  next
    case (Some h)
    then have h: "h1_command h = f ! 8" "36 \<le> length f"
      by (auto simp: parseSMB1Header_def split: if_splits)
    have "smb1_dispatch sv t g s f h = Served g' s' out evs"
      using assms(1) True Some by (simp add: smb_step_def)
    from smb1Trees_dispatch1 [OF this assms(2,3)] show ?thesis
      using h True by (auto simp: smb1_tree_connect_def)
  qed
next
  case False
  have fold: "ss_smb1Trees (fold_request C hdr f s) = ss_smb1Trees s" "ss_smb1Trees (fold_response C hdr f r u) = ss_smb1Trees u" for hdr r u
    by (simp_all add: fold_request_def fold_response_def preauthUpdate_def preauthInit_def)
  consider "s' = s" | hdr r where "smb2_dispatch C sv t g (fold_request C hdr f s) hdr (drop pktHdrLen f) f = Some r"
      "s' = fold_response C hdr f (fst (snd (snd r))) (fst (snd r))"
    using assms(1) False
    by (auto simp: smb_step_def Let_def case_prod_beta split: if_splits option.splits)
  then have "ss_smb1Trees s' = ss_smb1Trees s"
    by cases (simp_all add: smb1Trees_dispatch2 fold)
  then show ?thesis using assms(2) by simp
qed

lemma smb1Trees_trace:
  assumes "conn_trace C sv fs s" "ss_smb1Trees s k = Some p" "isAdminShare (shareFromTree p)"
  shows "\<exists>pre f post s0. fs = pre @ f # post \<and> conn_trace C sv pre s0 \<and> smb1_tree_connect f \<and>
    (ss_seeded s0 \<or> \<not> ss_guest s0)"
  using assms
proof (induction rule: conn_trace.induct)
  case (opened remote)
  then show ?case by (simp add: newSession_def)
next
  case (served fs s t g f g' s' out evs)
  from smb1Trees_step [OF served.hyps(2) served.prems] show ?case
  proof
    assume "ss_smb1Trees s k = Some p"
    from served.IH [OF this served.prems(2)] show ?thesis by fastforce
  next
    assume "smb1_tree_connect f \<and> canAccessAdminShare s"
    then have "smb1_tree_connect f" "ss_seeded s \<or> \<not> ss_guest s"
      by (auto simp: canAccessAdminShare_def split: if_splits)
    then show ?thesis using served.hyps(1) by blast
  qed
qed

section \<open>How an administrative share is reached\<close>

text \<open>C3. Every way to an administrative share, along any connection and whatever the other connections do.
  Over SMB2 a tree is connected to one, or a file open on one, only if some frame carried a response that
  verifies for a planted credential, or was an SMB1 session setup, which authenticates anyone.  Over SMB1 a
  tree is connected to one only by an SMB1 tree connect on a session that is not a guest's, which includes
  a session that never authenticated; SMB1 opens no files.\<close>

theorem no_credential_no_admin_share:
  assumes "conn_trace C sv fs s"
  shows "((\<exists>k p. ss_trees s k = Some p \<and> isAdminShare (shareFromTree p)) \<or>
      (\<exists>k h. ss_handles s k = Some h \<and> fh_node h \<noteq> None \<and> isAdminShare (fh_shareName h)) \<longrightarrow>
      (\<exists>f \<in> set fs. smb1_session_setup f \<or> (\<exists>c \<in> issued_challenges. proves_credential C sv f c))) \<and>
    ((\<exists>k p. ss_smb1Trees s k = Some p \<and> isAdminShare (shareFromTree p)) \<longrightarrow>
      (\<exists>pre f post s0. fs = pre @ f # post \<and> conn_trace C sv pre s0 \<and> smb1_tree_connect f \<and>
        (ss_seeded s0 \<or> \<not> ss_guest s0)))"
proof -
  have "\<exists>f \<in> set fs. \<exists>c \<in> issued_challenges. proves_credential C sv f c"
    if "\<forall>f \<in> set fs. \<not> smb1_session_setup f"
      "(\<exists>k p. ss_trees s k = Some p \<and> isAdminShare (shareFromTree p)) \<or>
       (\<exists>k h. ss_handles s k = Some h \<and> fh_node h \<noteq> None \<and> isAdminShare (fh_shareName h))"
    using trace_guarded [OF assms that(1)] that(2) unfolding guarded_iff by blast
  then show ?thesis
    using smb1Trees_trace [OF assms] by blast
qed

text \<open>Both exceptions are real.  On a session that has not authenticated an SMB1 tree connect to an
  administrative share succeeds.\<close>

lemma smb1_connects_admin_share:
  assumes "smb1_tree_connect f" "smb1Body f = (params, rest)" "8 \<le> length params" "unat (le16 params 6) \<le> length rest"
    and "path = to_upper (if smb1_unicode f then extractSMB1UnicodeString (drop (unat (le16 params 6)) rest)
          else extractSMB1ASCIIString (drop (unat (le16 params 6)) rest))"
    and "isKnownShare sv (shareFromTree path)"
  shows "\<exists>s. conn_trace C sv [f] s \<and> ss_smb1Trees s 1 = Some path"
proof -
  let ?t = "\<lparr>tk_now = 0, tk_ns = 0\<rparr>"
  have fresh: "canAccessAdminShare (newSession [])" "ss_smb1NextTID (newSession []) = 0"
    by (simp_all add: canAccessAdminShare_def newSession_def)
  have "\<exists>g1 s1 r. handleSMBv1TreeConnect sv lab_shared (newSession []) f uid = (g1, s1, r) \<and> ss_smb1Trees s1 1 = Some path" for uid
    using assms(3,4,6) fresh
    by (simp add: handleSMBv1TreeConnect_def assms(2) Let_def assms(5) [symmetric] allocSMB1Tree_def not_less)
  note connects = this
  obtain h where h: "parseSMB1Header f = Some h" "h1_command h = 0x75"
    using assms(1) by (auto simp: smb1_tree_connect_def parseSMB1Header_def)
  obtain g1 s1 r where tc: "handleSMBv1TreeConnect sv lab_shared (newSession []) f (h1_uid h) = (g1, s1, r)"
      "ss_smb1Trees s1 1 = Some path"
    using connects by blast
  have 1: "smb_step C sv ?t lab_shared (newSession []) f = Served g1 s1 r []"
    using assms(1) by (simp add: smb_step_def smb1_tree_connect_def h smb1_dispatch_def of_smb1_def Let_def tc)
  have "conn_trace C sv [f] s1"
    using conn_trace.served [OF conn_trace.opened 1] by simp
  with tc(2) show ?thesis by blast
qed

text \<open>And an SMB1 session setup authenticates without any credential and without the
  guest flag, whatever the configuration, and the next frame may connect an administrative share.\<close>

lemma smb1_setup_opens_admin_share:
  assumes "smb1_session_setup f1"
    and "\<not> is_smb1 f2" "pktHdrLen \<le> length f2" "parseHeader f2 = Some hdr" "h2_command hdr = CmdTreeConnect"
    and "isKnownShare sv (shareFromTree (extractTreePath (drop pktHdrLen f2) f2))"
  shows "\<exists>s k. conn_trace C sv [f1, f2] s \<and> ss_trees s k = Some (extractTreePath (drop pktHdrLen f2) f2)"
proof -
  let ?s0 = "newSession []" and ?p = "extractTreePath (drop pktHdrLen f2) f2" and ?t = "\<lparr>tk_now = 0, tk_ns = 0\<rparr>"
  obtain g1 s1 o1 e1 where 1: "smb_step C sv ?t lab_shared ?s0 f1 = Served g1 s1 o1 e1"
      "ss_state s1 = StateAuthenticated" "\<not> ss_guest s1"
    using assms(1)
    by (auto simp: smb_step_def smb1_session_setup_def parseSMB1Header_def smb1_dispatch_def handleSMBv1SessionSetup_def
        assign_id_def newSession_def Let_def case_prod_beta)
  then have t1: "conn_trace C sv [f1] s1"
    using conn_trace.served [OF conn_trace.opened 1(1)] by simp
  have fold: "ss_state (fold_request C hdr f2 s1) = StateAuthenticated" "\<not> ss_guest (fold_request C hdr f2 s1)"
    using 1(2,3) by (simp_all add: fold_request_def preauthUpdate_def)
  obtain g2 s2 o2 e2 k where 2: "smb_step C sv ?t g1 s1 f2 = Served g2 s2 o2 e2" "ss_trees s2 k = Some ?p"
    using assms(2-6) fold
    by (fastforce simp: smb_step_def smb2_dispatch_def cmd_defs handleTreeConnect_def canAccessAdminShare_def allocTree_def
        fold_response_def Let_def case_prod_beta)
  have "conn_trace C sv [f1, f2] s2"
    using conn_trace.served [OF t1 2(1)] by simp
  with 2(2) show ?thesis by blast
qed

text \<open>A guest host, and the frame of an anonymous session setup.\<close>

definition lab_guest_server :: smb_server where
  "lab_guest_server = lab_server\<lparr>sv_allowGuest := True\<rparr>"

definition client_frame :: "u16 \<Rightarrow> bytes \<Rightarrow> bytes" where
  "client_frame cmd body = buildPacket (lab_request\<lparr>h2_command := cmd\<rparr>) 0 0 0 body"

lemma client_frame_parts:
  "\<not> is_smb1 (client_frame cmd body)" "drop pktHdrLen (client_frame cmd body) = body"
  "parseHeader (client_frame cmd body) =
     Some \<lparr>h2_status = 0, h2_command = cmd, h2_credits = 1, h2_flags = 1, h2_messageID = 7, h2_processID = 0,
           h2_treeID = 0, h2_sessionID = 0\<rparr>"
  "length (client_frame cmd body) = 68 + length body"
proof -
  show "\<not> is_smb1 (client_frame cmd body)"
    by (simp add: is_smb1_def client_frame_def packet_fields magic1_def magic2_def)
  show "drop pktHdrLen (client_frame cmd body) = body"
    by (simp add: client_frame_def pktHdrLen_def)
qed (simp_all add: client_frame_def parseHeader_def pktHdrLen_def packet_fields packet_process lab_request_def)

theorem no_credential_no_admin_share_witness:
  "\<exists>s. conn_trace toy_crypto lab_guest_server [client_frame CmdSessionSetup (zeros 24)] s \<and>
     ss_state s = StateAuthenticated \<and> (\<forall>k p. ss_trees s k = Some p \<longrightarrow> \<not> isAdminShare (shareFromTree p)) \<and>
     (\<forall>k p. ss_smb1Trees s k = Some p \<longrightarrow> \<not> isAdminShare (shareFromTree p))"
proof -
  let ?f = "client_frame CmdSessionSetup (zeros 24)" and ?t = "\<lparr>tk_now = 0, tk_ns = 0\<rparr>"
  have "take 2 (drop 14 (zeros 24)) = enc_le 2 (0 :: u16)"
    by (simp add: zeros_def enc_le_def numeral_eq_Suc)
  then have empty: "extractSecBuf (zeros 24) ?f = []"
    by (simp add: extractSecBuf_def)
  have none: "findNTLMBlob [] = None"
    by (simp add: findNTLMBlob_def index_of.simps starts_with_def ntlm_magic_def)
  have pkt_len: "\<not> length ?f < pktHdrLen"
    by (simp add: client_frame_parts pktHdrLen_def)
  obtain hdr where hdr: "parseHeader ?f = Some hdr" "h2_command hdr = CmdSessionSetup"
    by (simp add: client_frame_parts)
  let ?s0 = "fold_request toy_crypto hdr ?f (newSession [])"
  have "handleSessionSetup toy_crypto lab_guest_server ?t lab_shared ?s0 hdr (zeros 24) ?f =
      doAnonymous lab_guest_server lab_shared ?s0 hdr"
    by (simp add: handleSessionSetup_def empty none)
  moreover obtain g1 s0 r1 e1 where "doAnonymous lab_guest_server lab_shared ?s0 hdr = (g1, s0, r1, e1)"
      and auth: "ss_state s0 = StateAuthenticated"
    by (simp add: doAnonymous_def guest_or_deny_def lab_guest_server_def case_prod_beta)
  ultimately have dis: "smb2_dispatch toy_crypto lab_guest_server ?t lab_shared ?s0 hdr (zeros 24) ?f = Some (g1, s0, r1, e1)"
    using hdr(2) by (simp add: smb2_dispatch_def cmd_defs)
  define s1 where "s1 = fold_response toy_crypto hdr ?f r1 s0"
  have 1: "smb_step toy_crypto lab_guest_server ?t lab_shared (newSession []) ?f =
      Served g1 s1 (Some (sign_reply toy_crypto s1 r1)) e1"
    using dis by (simp add: smb_step_def client_frame_parts(1,2) hdr(1) pkt_len
        s1_def Let_def)
  have 2: "ss_state s1 = StateAuthenticated"
    using auth by (simp add: s1_def fold_response_def preauthUpdate_def preauthInit_def)
  have tr: "conn_trace toy_crypto lab_guest_server [?f] s1"
    using conn_trace.served [OF conn_trace.opened 1] by simp
  have "\<not> smb1_session_setup ?f" "\<not> smb1_tree_connect ?f" "\<not> proves_credential toy_crypto lab_guest_server ?f c" for c
    by (simp_all add: smb1_session_setup_def smb1_tree_connect_def client_frame_parts proves_credential_def empty none)
  then have "\<forall>k p. ss_trees s1 k = Some p \<longrightarrow> \<not> isAdminShare (shareFromTree p)"
    "\<forall>k p. ss_smb1Trees s1 k = Some p \<longrightarrow> \<not> isAdminShare (shareFromTree p)"
    using no_credential_no_admin_share [OF tr] by (auto simp: Cons_eq_append_conv)
  with 2 tr show ?thesis by blast
qed

end
