(* ===== verification/Smb_Host.thy ===== *)
theory Smb_Host
  imports Smb_Conn
begin

unbundle bit_operations_syntax

text \<open>
  The SMB honeypot as a whole: which frames crash the process, and any number of connections served
  concurrently, each frame being one step on its session and the shared counters.
\<close>

section \<open>Crashes\<close>

lemma create_crash:
  "handleSMBv1NTCreateAndX t g s f h = None \<longleftrightarrow> length f = 43 \<and> 3 \<le> unat (f ! 36)" if "9 \<le> length f"
proof -
  let ?n = "unat (f ! 36) * 2"
  have len: "length (fst (smb1Body f)) = (if length f < 37 then 0 else min (length f - 37) ?n)"
    by (simp add: smb1Body_def Let_def)
  have "handleSMBv1NTCreateAndX t g s f h = None \<longleftrightarrow> 6 \<le> length (fst (smb1Body f)) \<and> length f < 44"
    by (auto simp: handleSMBv1NTCreateAndX_def Let_def case_prod_beta)
  also have "\<dots> \<longleftrightarrow> length f = 43 \<and> 3 \<le> unat (f ! 36)"
    unfolding len by auto
  finally show ?thesis .
qed

lemma queryInfo_crash:
  "handleQueryInfo g s req body = None \<longleftrightarrow>
     40 \<le> length body \<and> body ! 2 = 1 \<and> body ! 3 \<in> {4, 5, 34, 18} \<and>
     (\<exists>h. ss_handles s (le64 body 32) = Some h \<and> fh_node h = None)"
  by (auto simp: handleQueryInfo_def Let_def split: option.split)

lemma no_crash_of_smb1 [simp]: "of_smb1 r \<noteq> Crash"
  by (simp add: of_smb1_def split: prod.split)

lemma smb1_crash:
  "smb1_dispatch sv t g s f h = Crash \<longleftrightarrow> h1_command h = 0xA2 \<and> handleSMBv1NTCreateAndX t g s f h = None"
  by (auto simp: smb1_dispatch_def Let_def case_prod_beta split: option.split)

lemma smb2_crash:
  "smb2_dispatch C sv t g s hdr body f = None \<longleftrightarrow> h2_command hdr = CmdQueryInfo \<and> handleQueryInfo g s hdr body = None"
proof -
  have "\<exists>a b c d. x = (a, b, c, d)" for x :: smb_result
    by (cases x) auto
  then show ?thesis
    by (simp add: smb2_dispatch_def Let_def case_prod_beta cmd_defs)
qed

text \<open>C9. A frame crashes the process in exactly two cases: it is an SMB1 create cut off at 43 bytes with
  at least three parameter words (no session is needed), or it is an SMB2 query of a file class on a handle
  that is a pipe.\<close>

theorem crash_exactly:
  "smb_step C sv t g s f = Crash \<longleftrightarrow>
     is_smb1 f \<and> f ! 8 = 0xA2 \<and> length f = 43 \<and> 3 \<le> unat (f ! 36) \<or>
     \<not> is_smb1 f \<and> (\<exists>hdr body h. parseHeader f = Some hdr \<and> body = drop pktHdrLen f \<and> h2_command hdr = CmdQueryInfo \<and>
       40 \<le> length body \<and> body ! 2 = 1 \<and> body ! 3 \<in> {4, 5, 34, 18} \<and>
       ss_handles s (le64 body 32) = Some h \<and> fh_node h = None)"
proof (cases "is_smb1 f")
  case True
  then have len: "9 \<le> length f" by (simp add: is_smb1_def)
  have "smb_step C sv t g s f = Crash \<longleftrightarrow> 36 \<le> length f \<and> f ! 8 = 0xA2 \<and> length f = 43 \<and> 3 \<le> unat (f ! 36)"
    using True create_crash [OF len] by (simp add: smb_step_def parseSMB1Header_def smb1_crash)
  then show ?thesis using True by auto
next
  case False
  have handles: "ss_handles (fold_request C hdr f s) = ss_handles s" for hdr
    by (simp add: fold_request_def preauthUpdate_def)
  have short: "length f < pktHdrLen \<Longrightarrow> parseHeader f = None"
    by (simp add: parseHeader_def)
  have "smb_step C sv t g s f = Crash \<longleftrightarrow>
      (\<exists>hdr. parseHeader f = Some hdr \<and> smb2_dispatch C sv t g (fold_request C hdr f s) hdr (drop pktHdrLen f) f = None)"
    using False short by (auto simp: smb_step_def Let_def split: option.splits)
  then show ?thesis
    using False by (auto simp: smb2_crash queryInfo_crash handles)
qed

section \<open>Numbers\<close>

text \<open>What the numbering of sessions and handles depends on.\<close>

definition nums :: "smb_shared \<Rightarrow> smb_session \<Rightarrow> u64 \<times> u64 \<times> u64 \<times> u64 set" where
  "nums g s = (sg_nextSession g, sg_handleSeq g, ss_id s, dom (ss_handles s))"

abbreviation nums_of :: "smb_shared \<times> smb_session \<times> 'a \<Rightarrow> u64 \<times> u64 \<times> u64 \<times> u64 set" where
  "nums_of r \<equiv> nums (fst r) (fst (snd r))"

text \<open>What one frame may do to them: nothing, give the session its number, add the next handle, or
  drop handles.\<close>

definition numbered_step :: "u64 \<times> u64 \<times> u64 \<times> u64 set \<Rightarrow> u64 \<times> u64 \<times> u64 \<times> u64 set \<Rightarrow> bool" where
  "numbered_step a b =
     (case (a, b) of
        ((n, q, i, H), (n', q', i', H')) \<Rightarrow>
          (n' = n \<and> i' = i \<or> i = 0 \<and> n' = n + 1 \<and> i' = n + 1) \<and>
          (q' = q \<and> H' \<subseteq> H \<or> q' = q + 1 \<and> H' \<subseteq> insert (q + 1) H))"

lemma numbered_refl [simp]: "numbered_step a a"
  by (cases a) (simp add: numbered_step_def)

lemma nums_put: "ss_handles s k = Some h \<Longrightarrow> nums g (put_handle k h' s) = nums g s"
  by (auto simp: nums_def put_handle_def)

lemma nums_same:
  "nums_of (handleQueryDirectory sv g s req body) = nums g s"
  "nums_of (handleRead sv g s req body) = nums g s"
  "nums_of (handleWrite sv g s req body frame) = nums g s"
  "nums_of (handleIOCtl sv g s req body frame) = nums g s"
  "nums_of (handleTreeConnect sv g s req body frame) = nums g s"
  "handleQueryInfo g s req body = Some r \<Longrightarrow> nums_of r = nums g s"
proof -
  show "nums_of (handleQueryDirectory sv g s req body) = nums g s"
    by (auto simp: handleQueryDirectory_def Let_def case_prod_beta hasMore_iff split: option.splits intro!: nums_put)
  show "nums_of (handleRead sv g s req body) = nums g s"
    by (auto simp: handleRead_def Let_def case_prod_beta split: option.splits intro!: nums_put)
  show "nums_of (handleWrite sv g s req body frame) = nums g s"
    by (auto simp: handleWrite_def Let_def case_prod_beta split: option.splits intro!: nums_put)
  show "nums_of (handleIOCtl sv g s req body frame) = nums g s"
    by (auto simp: handleIOCtl_def Let_def case_prod_beta split: option.splits intro!: nums_put)
  show "nums_of (handleTreeConnect sv g s req body frame) = nums g s"
    by (simp add: handleTreeConnect_def allocTree_def nums_def Let_def case_prod_beta)
  show "handleQueryInfo g s req body = Some r \<Longrightarrow> nums_of r = nums g s"
    by (auto simp: handleQueryInfo_def Let_def split: option.splits if_splits)
qed

lemma nums_smb1:
  "nums_of (handleSMBv1TreeConnect sv g s frame uid) = nums g s"
  "handleSMBv1NTCreateAndX t g s frame h = Some r \<Longrightarrow> nums_of r = nums g s"
  "nums_of (handleSMBv1WriteAndX sv g s frame h) = nums g s"
  "nums_of (handleSMBv1ReadAndX g s frame h) = nums g s"
  "nums_of (handleSMBv1Close g s frame h) = nums g s"
  "nums_of (handleSMBv1TreeDisconnect g s h) = nums g s"
  "nums_of (handleSMBv1Transaction sv g s frame h) = nums g s"
proof -
  show "nums_of (handleSMBv1TreeConnect sv g s frame uid) = nums g s"
    by (simp add: handleSMBv1TreeConnect_def allocSMB1Tree_def nums_def Let_def case_prod_beta)
  show "handleSMBv1NTCreateAndX t g s frame h = Some r \<Longrightarrow> nums_of r = nums g s"
    by (auto simp: handleSMBv1NTCreateAndX_def allocSMB1Pipe_def nums_def Let_def case_prod_beta split: if_splits)
  show "nums_of (handleSMBv1WriteAndX sv g s frame h) = nums g s"
    by (simp add: handleSMBv1WriteAndX_def put_pipe_def nums_def Let_def split: option.split)
  show "nums_of (handleSMBv1ReadAndX g s frame h) = nums g s"
    by (simp add: handleSMBv1ReadAndX_def put_pipe_def nums_def Let_def case_prod_beta split: option.split)
  show "nums_of (handleSMBv1Close g s frame h) = nums g s"
    by (simp add: handleSMBv1Close_def freeSMB1Handle_def nums_def Let_def)
  show "nums_of (handleSMBv1TreeDisconnect g s h) = nums g s"
    by (simp add: handleSMBv1TreeDisconnect_def freeSMB1Tree_def nums_def)
  show "nums_of (handleSMBv1Transaction sv g s frame h) = nums g s"
    by (simp add: handleSMBv1Transaction_def put_pipe_def nums_def Let_def case_prod_beta split: option.split)
qed

lemma nums_negotiate:
  "nums g (fst (handleNegotiate sv t s req body)) = nums g s"
  "nums g (fst (handleSMBv1Negotiate sv t s frame)) = nums g s"
  by (simp_all add: handleNegotiate_def handleSMBv1Negotiate_def buildNegotiateResponse_def buildSMBv1NegotiateResponse_def
      nums_def Let_def)

lemma nums_assign: "numbered_step (nums g s) (nums (fst (assign_id g s)) (snd (assign_id g s)))"
  by (simp add: assign_id_def numbered_step_def nums_def Let_def)

lemma nums_eqs [simp]:
  "nums (inc_auth g) s = nums g s" "nums g (s\<lparr>ss_state := st\<rparr>) = nums g s" "nums g (s\<lparr>ss_guest := b\<rparr>) = nums g s"
  "nums g (s\<lparr>ss_challenge := c\<rparr>) = nums g s" "nums g (s\<lparr>ss_seeded := b\<rparr>) = nums g s"
  "nums (g\<lparr>sg_credentials := n\<rparr>) s = nums g s"
  by (simp_all add: inc_auth_def nums_def)

lemma nums_setup [simp]: "nums g (fst (setupSigning C s cred auth)) = nums g s"
  by (simp add: setupSigning_def nums_def Let_def split: option.split)

lemma nums_guest [simp]: "nums_of (guest_or_deny sv g s req evs) = nums g s"
  by (simp add: guest_or_deny_def)

lemma nums_accept:
  "nums_of (doAccept C sv g s req blob) = nums (fst (assign_id g s)) (snd (assign_id g s))"
  by (simp add: doAccept_def Let_def case_prod_beta split: sum.split option.split)

lemma numbered_sessionSetup: "numbered_step (nums g s) (nums_of (handleSessionSetup C sv t g s req body f))"
proof -
  have 1: "nums_of (doChallenge sv t g s req) = nums (fst (assign_id g s)) (snd (assign_id g s))"
    by (simp add: doChallenge_def Let_def case_prod_beta)
  have 2: "nums_of (doAnonymous sv g s req) = nums (fst (assign_id g s)) (snd (assign_id g s))"
    by (simp add: doAnonymous_def case_prod_beta)
  show ?thesis
    using nums_assign [of g s] by (simp add: handleSessionSetup_def Let_def 1 2 nums_accept)
qed

lemma numbered_create: "numbered_step (nums g s) (nums_of (handleCreate sv g s req body f))"
proof -
  have "numbered_step (nums g s) (nums_of (alloc_handle h g s))" for h
    by (auto simp: alloc_handle_def Let_def numbered_step_def nums_def)
  then show ?thesis
    by (simp add: handleCreate_def allocHandle_def allocPipeHandle_def Let_def case_prod_beta split: option.split)
qed

lemma numbered_close: "numbered_step (nums g s) (nums_of (handleClose t g s req body))"
  by (auto simp: handleClose_def freeHandle_def Let_def numbered_step_def nums_def split: option.split)

lemma nums_folds [simp]:
  "nums g (fold_request C hdr f s) = nums g s" "nums g (fold_response C hdr f r s) = nums g s"
  "nums g (freeTree k s) = nums g s"
  by (simp_all add: nums_def fold_request_def fold_response_def preauthUpdate_def preauthInit_def freeTree_def)

lemma numbered_dispatch2:
  assumes "smb2_dispatch C sv t g s hdr body f = Some r"
  shows "numbered_step (nums g s) (nums_of r)"
  using assms nums_same(6) [of g s hdr body r]
  by (auto simp: smb2_dispatch_def Let_def case_prod_beta nums_same(1-5) nums_negotiate numbered_sessionSetup
      numbered_create numbered_close split: if_splits)

lemma numbered_dispatch1:
  assumes "smb1_dispatch sv t g s f h = Served g' s' out evs"
  shows "numbered_step (nums g s) (nums g' s')"
proof -
  have su: "numbered_step (nums g s) (nums_of (handleSMBv1SessionSetup sv g s))"
    using nums_assign [of g s] by (simp add: handleSMBv1SessionSetup_def Let_def case_prod_beta)
  show ?thesis
    using assms su nums_smb1 nums_negotiate(2) [of g sv t s f]
    by (auto simp: smb1_dispatch_def of_smb1_def Let_def case_prod_beta split: if_splits option.splits)
qed

lemma numbered_smb_step:
  assumes "smb_step C sv t g s f = Served g' s' out evs"
  shows "numbered_step (nums g s) (nums g' s')"
proof -
  have "numbered_step (nums g s) (nums (fst r) (fold_response C hdr f x (fst (snd r))))"
    if "smb2_dispatch C sv t g (fold_request C hdr f s) hdr body f = Some r" for hdr body r x
    using numbered_dispatch2 [OF that] by simp
  then show ?thesis
    using assms numbered_dispatch1
    by (auto simp: smb_step_def Let_def case_prod_beta split: if_splits option.splits)
qed

section \<open>Many connections\<close>

text \<open>The server after \<open>n\<close> steps: the shared counters and the open connections.\<close>

inductive smb_host :: "crypto \<Rightarrow> smb_server \<Rightarrow> nat \<Rightarrow> smb_shared \<Rightarrow> (nat \<rightharpoonup> smb_session) \<Rightarrow> bool" for C sv where
  started: "smb_host C sv 0 lab_shared Map.empty"
| accepted: "smb_host C sv n g cs \<Longrightarrow> cs i = None \<Longrightarrow>
    smb_host C sv (Suc n) (g\<lparr>sg_connections := sg_connections g + 1\<rparr>) (cs(i \<mapsto> newSession remote))"
| served: "smb_host C sv n g cs \<Longrightarrow> cs i = Some s \<Longrightarrow> smb_step C sv t g s f = Served g' s' out evs \<Longrightarrow>
    smb_host C sv (Suc n) g' (cs(i \<mapsto> s'))"
| closed: "smb_host C sv n g cs \<Longrightarrow> smb_host C sv n g (cs(i := None))"

definition own_numbers :: "smb_shared \<Rightarrow> (nat \<rightharpoonup> smb_session) \<Rightarrow> bool" where
  "own_numbers g cs \<longleftrightarrow>
     (\<forall>i s. cs i = Some s \<longrightarrow> ss_id s \<le> sg_nextSession g \<and> (\<forall>k \<in> dom (ss_handles s). k \<le> sg_handleSeq g)) \<and>
     (\<forall>i j s s'. cs i = Some s \<longrightarrow> cs j = Some s' \<longrightarrow> i \<noteq> j \<longrightarrow>
        (ss_id s = ss_id s' \<longrightarrow> ss_id s = 0) \<and> dom (ss_handles s) \<inter> dom (ss_handles s') = {})"

lemma own_bound:
  assumes "own_numbers g cs" "cs i = Some s"
  shows "ss_id s \<le> sg_nextSession g" "k \<in> dom (ss_handles s) \<Longrightarrow> k \<le> sg_handleSeq g"
  using assms unfolding own_numbers_def by blast+

lemma own_apart:
  assumes "own_numbers g cs" "cs i = Some s" "cs j = Some s'" "i \<noteq> j"
  shows "(ss_id s = ss_id s' \<longrightarrow> ss_id s = 0) \<and> dom (ss_handles s) \<inter> dom (ss_handles s') = {}"
  using assms unfolding own_numbers_def by blast

lemma next_number:
  assumes "unat (a :: u64) < 2 ^ 64 - 1"
  shows "a < a + 1" "unat (a + 1) = unat a + 1"
proof -
  show "unat (a + 1) = unat a + 1"
    using assms by (intro unat_add_lem [THEN iffD1, THEN trans]) simp_all
  then show "a < a + 1" by (simp add: word_less_nat_alt)
qed

text \<open>A numbered step of one connection, below the wrap, keeps the numbers its own.\<close>

lemma own_numbers_step:
  assumes own: "own_numbers g cs" "cs i = Some s" and step: "numbered_step (nums g s) (nums g' s')"
    and room: "unat (sg_nextSession g) < 2 ^ 64 - 1" "unat (sg_handleSeq g) < 2 ^ 64 - 1"
  shows "own_numbers g' (cs(i \<mapsto> s'))"
proof -
  let ?n = "sg_nextSession g" and ?q = "sg_handleSeq g"
  have up: "?n < ?n + 1" "?q < ?q + 1" using next_number(1) room by auto
  have id: "sg_nextSession g' = ?n \<and> ss_id s' = ss_id s \<or> sg_nextSession g' = ?n + 1 \<and> ss_id s' = ?n + 1"
    and seq: "sg_handleSeq g' = ?q \<and> dom (ss_handles s') \<subseteq> dom (ss_handles s) \<or>
      sg_handleSeq g' = ?q + 1 \<and> dom (ss_handles s') \<subseteq> insert (?q + 1) (dom (ss_handles s))"
    using step by (auto simp: numbered_step_def nums_def)
  have grow: "?n \<le> sg_nextSession g'" "?q \<le> sg_handleSeq g'"
    using id seq up by auto
  have bound: "ss_id u \<le> ?n" "k \<in> dom (ss_handles u) \<Longrightarrow> k \<le> ?q" if "cs j = Some u" for j u k
    using own_bound [OF own(1) that] by auto
  have apart: "(ss_id u = ss_id s \<longrightarrow> ss_id s = 0)" "dom (ss_handles u) \<inter> dom (ss_handles s) = {}"
    if "cs j = Some u" "j \<noteq> i" for j u
    using own_apart [OF own(1) that(1) own(2) that(2)] by auto
  have new: "ss_id s' \<le> sg_nextSession g'" "k \<in> dom (ss_handles s') \<Longrightarrow> k \<le> sg_handleSeq g'" for k
  proof -
    show "ss_id s' \<le> sg_nextSession g'" using id bound(1) [OF own(2)] by auto
    assume "k \<in> dom (ss_handles s')"
    then have "k \<in> dom (ss_handles s) \<or> k = ?q + 1 \<and> sg_handleSeq g' = ?q + 1" using seq by blast
    then show "k \<le> sg_handleSeq g'" using bound(2) [OF own(2)] grow(2) by (metis order_trans order_refl)
  qed
  have other: "(ss_id u = ss_id s' \<longrightarrow> ss_id s' = 0) \<and> dom (ss_handles u) \<inter> dom (ss_handles s') = {}"
    if u: "cs j = Some u" "j \<noteq> i" for j u
  proof
    show "ss_id u = ss_id s' \<longrightarrow> ss_id s' = 0"
      using id apart(1) [OF u] bound(1) [OF u(1)] up(1) by auto
    have "?q + 1 \<notin> dom (ss_handles u)"
      using bound(2) [OF u(1), of "?q + 1"] up(2) by (meson not_le)
    then show "dom (ss_handles u) \<inter> dom (ss_handles s') = {}"
      using seq apart(2) [OF u] by blast
  qed
  show ?thesis
    unfolding own_numbers_def
  proof (rule conjI; intro allI impI)
    fix j u assume u: "(cs(i \<mapsto> s')) j = Some u"
    show "ss_id u \<le> sg_nextSession g' \<and> (\<forall>k \<in> dom (ss_handles u). k \<le> sg_handleSeq g')"
    proof (cases "j = i")
      case True
      then show ?thesis using u new by simp
    next
      case False
      then have c: "cs j = Some u" using u by simp
      show ?thesis
        using order_trans [OF bound(1) [OF c] grow(1)] order_trans [OF bound(2) [OF c] grow(2)] by blast
    qed
  next
    fix j l u w assume a: "(cs(i \<mapsto> s')) j = Some u" "(cs(i \<mapsto> s')) l = Some w" "j \<noteq> l"
    show "(ss_id u = ss_id w \<longrightarrow> ss_id u = 0) \<and> dom (ss_handles u) \<inter> dom (ss_handles w) = {}"
    proof (cases "j = i")
      case True
      then have "u = s'" "cs l = Some w" "l \<noteq> i" using a by simp_all
      then show ?thesis using other [of l w] Int_commute [of "dom (ss_handles w)" "dom (ss_handles s')"] by auto
    next
      case j: False
      then have u: "cs j = Some u" using a(1) by simp
      show ?thesis
      proof (cases "l = i")
        case True
        then have "w = s'" using a(2) by simp
        then show ?thesis using other [OF u j] by simp
      next
        case False
        then have "cs l = Some w" using a(2) by simp
        then show ?thesis using own_apart [OF own(1) u _ a(3)] by blast
      qed
    qed
  qed
qed

lemma host_counts: "smb_host C sv n g cs \<Longrightarrow> unat (sg_nextSession g) \<le> n \<and> unat (sg_handleSeq g) \<le> n"
proof (induction rule: smb_host.induct)
  case (served n g cs i s t f g' s' out evs)
  have le: "unat (a + 1) \<le> Suc (unat a)" for a :: u64
    using mod_less_eq_dividend [of "Suc (unat a)" "2 ^ 64"] by (simp add: unat_word_ariths)
  show ?case
    using numbered_smb_step [OF served.hyps(3)] served.IH le [of "sg_nextSession g"] le [of "sg_handleSeq g"]
    by (auto simp: numbered_step_def nums_def)
qed (simp_all add: lab_shared_def)

lemma host_own: "smb_host C sv n g cs \<Longrightarrow> n < 2 ^ 64 \<Longrightarrow> own_numbers g cs"
proof (induction rule: smb_host.induct)
  case started
  then show ?case by (simp add: own_numbers_def)
next
  case (accepted n g cs i remote)
  then have "own_numbers g cs" by simp
  then show ?case by (auto simp: own_numbers_def newSession_def)
next
  case (served n g cs i s t f g' s' out evs)
  have "own_numbers g cs" "unat (sg_nextSession g) < 2 ^ 64 - 1" "unat (sg_handleSeq g) < 2 ^ 64 - 1"
    using served.IH served.prems host_counts [OF served.hyps(1)] by auto
  then show ?case
    using own_numbers_step served.hyps(2) numbered_smb_step [OF served.hyps(3)] by blast
next
  case (closed n g cs i)
  then have "own_numbers g cs" by simp
  then show ?case by (auto simp: own_numbers_def)
qed

text \<open>C10. Connections never share a number: however the frames of concurrent connections interleave, for
  fewer than \<open>2 ^ 64\<close> steps no two open connections have the same non-zero session number, and no file
  handle number is open on both.\<close>

theorem numbers_never_shared:
  assumes "smb_host C sv n g cs" "n < 2 ^ 64" "cs i = Some a" "cs j = Some b" "i \<noteq> j"
  shows "(ss_id a = ss_id b \<longrightarrow> ss_id a = 0) \<and> dom (ss_handles a) \<inter> dom (ss_handles b) = {}"
  using own_apart [OF host_own [OF assms(1,2)] assms(3-5)] .

theorem numbers_never_shared_witness:
  "\<exists>g cs a b. smb_host toy_crypto lab_server 2 g cs \<and> cs 0 = Some a \<and> cs 1 = Some b \<and>
     dom (ss_handles a) \<inter> dom (ss_handles b) = {}"
proof -
  let ?a = "newSession ''192.0.2.1:50000''" and ?b = "newSession ''192.0.2.2:50001''"
  have 1: "smb_host toy_crypto lab_server (Suc 0) (lab_shared\<lparr>sg_connections := 1\<rparr>) [0 \<mapsto> ?a]"
    using smb_host.accepted [OF smb_host.started, where C = toy_crypto and sv = lab_server and i = 0 and remote = "''192.0.2.1:50000''"] by (simp add: lab_shared_def)
  have 2: "smb_host toy_crypto lab_server 2 (lab_shared\<lparr>sg_connections := 2\<rparr>) [0 \<mapsto> ?a, 1 \<mapsto> ?b]"
    using smb_host.accepted [OF 1, where i = 1 and remote = "''192.0.2.2:50001''"] by (simp add: lab_shared_def numeral_2_eq_2)
  show ?thesis
    using numbers_never_shared [OF 2, of 0 ?a 1 ?b] 2
    by (intro exI [of _ "lab_shared\<lparr>sg_connections := 2\<rparr>"] exI [of _ "[0 \<mapsto> ?a, 1 \<mapsto> ?b]"] exI [of _ ?a] exI [of _ ?b]) simp
qed

end
