(* ===== verification/Ssh_Vfs.thy ===== *)
theory Ssh_Vfs
  imports Ftp_Honeypot "HOL-Library.AList"
begin

text \<open>
  The in-memory Linux file system of the SSH honeypot (\<open>internal/honeypot/ssh/vfs.go\<close>): nodes,
  the identity of a distribution, the tree that is built, resolution and listing.

  The code builds the tree once through pointers and never changes it afterwards, so a node is a
  value.  A node's \<open>children\<close> map is an association list with one entry per name; the order of
  the entries is never observed, because the only iteration sorts the names.
\<close>

section \<open>Nodes\<close>

record ssh_meta =
  sm_name :: string
  sm_dir :: bool
  sm_content :: string
  sm_mode :: string
  sm_owner :: string
  sm_mtime :: int

datatype vnode = VN (vmeta: ssh_meta) (vkids: "(string \<times> vnode) list")

text \<open>12 March 2026, 09:21 UTC, in seconds since 1970.\<close>

definition vfsTime :: int where "vfsTime = 1773307260"

definition dirNode_ssh :: "string \<Rightarrow> vnode" where
  "dirNode_ssh name = VN \<lparr>sm_name = name, sm_dir = True, sm_content = [], sm_mode = ''drwxr-xr-x'',
     sm_owner = ''root root'', sm_mtime = vfsTime\<rparr> []"

definition fileNode_ssh :: "string \<Rightarrow> string \<Rightarrow> string \<Rightarrow> string \<Rightarrow> vnode" where
  "fileNode_ssh name mode owner content = VN \<lparr>sm_name = name, sm_dir = False, sm_content = content,
     sm_mode = mode, sm_owner = owner, sm_mtime = vfsTime\<rparr> []"

abbreviation is_dir :: "vnode \<Rightarrow> bool" where "is_dir n \<equiv> sm_dir (vmeta n)"

definition size_ssh :: "vnode \<Rightarrow> nat" where
  "size_ssh n = (if is_dir n then 4096 else length (sm_content (vmeta n)))"

definition with_child :: "string \<Rightarrow> vnode \<Rightarrow> vnode \<Rightarrow> vnode" where
  "with_child k c n = VN (vmeta n) (AList.update k c (vkids n))"

definition child :: "vnode \<Rightarrow> string \<rightharpoonup> vnode" where
  "child n = map_of (vkids n)"

lemma with_child_sel [simp]:
  "vmeta (with_child k c n) = vmeta n"
  "child (with_child k c n) = (child n)(k \<mapsto> c)"
  by (simp_all add: with_child_def child_def update_conv')

lemma new_nodes [simp]:
  "is_dir (dirNode_ssh nm)" "\<not> is_dir (fileNode_ssh nm m ow c)" "child (dirNode_ssh nm) = Map.empty"
  "sm_content (vmeta (fileNode_ssh nm m ow c)) = c" "sm_name (vmeta (dirNode_ssh nm)) = nm"
  "sm_name (vmeta (fileNode_ssh nm m ow c)) = nm" "vkids (fileNode_ssh nm m ow c) = []" "vkids (dirNode_ssh nm) = []"
  by (simp_all add: dirNode_ssh_def fileNode_ssh_def child_def)

section \<open>The identity of a distribution\<close>

record distroInfo =
  di_sshBanner :: string
  di_prettyName :: string
  di_osID :: string
  di_kernel :: string

definition distro_ubuntu :: distroInfo where
  "distro_ubuntu = \<lparr>di_sshBanner = ''SSH-2.0-OpenSSH_8.9p1 Ubuntu-3ubuntu0.15'',
     di_prettyName = ''Ubuntu 22.04.5 LTS'', di_osID = ''ubuntu'', di_kernel = ''5.15.0-119-generic''\<rparr>"

definition distroFor :: "string \<Rightarrow> distroInfo" where
  "distroFor osName =
     (let n = to_lower osName in
      if str_contains n ''ubuntu'' then distro_ubuntu
      else if str_contains n ''debian'' then
        \<lparr>di_sshBanner = ''SSH-2.0-OpenSSH_9.2p1 Debian-2+deb12u3'',
         di_prettyName = ''Debian GNU/Linux 12 (bookworm)'', di_osID = ''debian'', di_kernel = ''6.1.0-26-amd64''\<rparr>
      else if str_contains n ''rocky'' \<or> str_contains n ''rhel'' \<or> str_contains n ''alma'' \<or> str_contains n ''centos'' then
        \<lparr>di_sshBanner = ''SSH-2.0-OpenSSH_8.7'', di_prettyName = ''Rocky Linux 9.4 (Blue Onyx)'',
         di_osID = ''rocky'', di_kernel = ''5.14.0-427.el9.x86_64''\<rparr>
      else if str_contains n ''fedora'' then
        \<lparr>di_sshBanner = ''SSH-2.0-OpenSSH_9.6p1'', di_prettyName = ''Fedora Linux 40 (Server Edition)'',
         di_osID = ''fedora'', di_kernel = ''6.8.5-301.fc40.x86_64''\<rparr>
      else if str_contains n ''arch'' then
        \<lparr>di_sshBanner = ''SSH-2.0-OpenSSH_9.8'', di_prettyName = ''Arch Linux'', di_osID = ''arch'',
         di_kernel = ''6.10.6-arch1-1''\<rparr>
      else if str_contains n ''kali'' then
        \<lparr>di_sshBanner = ''SSH-2.0-OpenSSH_9.8p1 Debian-2'', di_prettyName = ''Kali GNU/Linux Rolling'',
         di_osID = ''kali'', di_kernel = ''6.10.11-amd64''\<rparr>
      else distro_ubuntu)"

section \<open>Paths and resolution\<close>

definition splitPath :: "string \<Rightarrow> string list" where
  "splitPath p =
     foldl (\<lambda>out seg. if seg = [] \<or> seg = ''.'' then out
                      else if seg = ''..'' then (if out \<noteq> [] then butlast out else out)
                      else out @ [seg]) [] (split_on (CHR ''/'') p)"

fun walk_ssh :: "vnode \<Rightarrow> string list \<Rightarrow> vnode option" where
  "walk_ssh cur [] = Some cur"
| "walk_ssh cur (seg # segs) =
     (if \<not> is_dir cur then None else case child cur seg of None \<Rightarrow> None | Some nx \<Rightarrow> walk_ssh nx segs)"

definition resolve_ssh :: "vnode \<Rightarrow> string \<Rightarrow> vnode option" where
  "resolve_ssh root p = walk_ssh root (splitPath p)"

definition childNames :: "vnode \<Rightarrow> string list" where
  "childNames n = sort_strings (map fst (vkids n))"

fun place :: "vnode \<Rightarrow> string list \<Rightarrow> string \<Rightarrow> vnode" where
  "place cur [] content = cur"
| "place cur [name] content = with_child name (fileNode_ssh name ''-rw-r--r--'' ''root root'' content) cur"
| "place cur (seg # seg' # segs) content =
     (let nx = (case child cur seg of None \<Rightarrow> dirNode_ssh seg | Some n \<Rightarrow> if is_dir n then n else dirNode_ssh seg)
      in with_child seg (place nx (seg' # segs) content) cur)"

definition placeFile :: "vnode \<Rightarrow> string \<Rightarrow> string \<Rightarrow> vnode" where
  "placeFile root p content = place root (splitPath p) content"

section \<open>The tree\<close>

definition passwd_line :: "string \<Rightarrow> nat \<Rightarrow> string" where
  "passwd_line u uid = u @ '':x:'' @ itoa uid @ '':'' @ itoa uid @ '':'' @ u @ '':/home/'' @ u @ '':/bin/bash'' @ [CHR 0x0A]"

definition buildPasswd :: "string list \<Rightarrow> string" where
  "buildPasswd users =
     ''root:x:0:0:root:/root:/bin/bash'' @ [CHR 0x0A] @ ''daemon:x:1:1:daemon:/usr/sbin:/usr/sbin/nologin'' @ [CHR 0x0A] @
     ''www-data:x:33:33:www-data:/var/www:/usr/sbin/nologin'' @ [CHR 0x0A] @
     fst (foldl (\<lambda>(b, uid) u. if u = ''root'' then (b, uid) else (b @ passwd_line u uid, uid + 1)) ([], 1000 :: nat) users)"

definition osRelease :: "distroInfo \<Rightarrow> string" where
  "osRelease d =
     ''PRETTY_NAME='' @ go_quote (di_prettyName d) @ [CHR 0x0A] @
     ''NAME='' @ go_quote (split_head (di_prettyName d) (CHR '' '')) @ [CHR 0x0A] @ ''ID='' @ di_osID d @ [CHR 0x0A] @
     ''VERSION_ID='' @ go_quote [] @ [CHR 0x0A] @ ''HOME_URL='' @ [CHR 0x22] @ ''https://'' @ di_osID d @ ''.org/'' @
     [CHR 0x22, CHR 0x0A]"

abbreviation bslash :: char where "bslash \<equiv> CHR 0x5C"

definition userHome :: "string \<Rightarrow> vnode" where
  "userHome u =
     (let d = dirNode_ssh u; ow = u @ '' '' @ u;
          uh = VN ((vmeta d)\<lparr>sm_mode := ''drwxr-xr-x'', sm_owner := ow\<rparr>) (vkids d)
      in with_child ''.bash_history''
           (fileNode_ssh ''.bash_history'' ''-rw-------'' ow
             (''ls -la'' @ [CHR 0x0A] @ ''sudo systemctl status'' @ [CHR 0x0A] @ ''cat /etc/os-release'' @ [CHR 0x0A]))
           (with_child ''.bashrc''
             (fileNode_ssh ''.bashrc'' ''-rw-r--r--'' ow
               (''# ~/.bashrc'' @ [CHR 0x0A] @ ''export PS1='' @ [CHR 0x27, bslash] @ ''u@'' @ [bslash] @ ''h:'' @ [bslash] @ ''w'' @
                [bslash] @ ''$ '' @ [CHR 0x27, CHR 0x0A])) uh))"

definition with_mode :: "string \<Rightarrow> vnode \<Rightarrow> vnode" where
  "with_mode m n = VN ((vmeta n)\<lparr>sm_mode := m\<rparr>) (vkids n)"

definition etcDir :: "distroInfo \<Rightarrow> string \<Rightarrow> string list \<Rightarrow> vnode" where
  "etcDir d hostname users =
     with_child ''issue'' (fileNode_ssh ''issue'' ''-rw-r--r--'' ''root root''
       (di_prettyName d @ '' '' @ [bslash] @ ''n '' @ [bslash] @ ''l'' @ [CHR 0x0A]))
     (with_child ''passwd'' (fileNode_ssh ''passwd'' ''-rw-r--r--'' ''root root'' (buildPasswd users))
     (with_child ''hostname'' (fileNode_ssh ''hostname'' ''-rw-r--r--'' ''root root'' (hostname @ [CHR 0x0A]))
     (with_child ''os-release'' (fileNode_ssh ''os-release'' ''-rw-r--r--'' ''root root'' (osRelease d))
     (dirNode_ssh ''etc''))))"

definition homeDir :: "string list \<Rightarrow> vnode" where
  "homeDir users = foldl (\<lambda>home u. if u = ''root'' then home else with_child u (userHome u) home) (dirNode_ssh ''home'') users"

definition varDir :: vnode where
  "varDir =
     with_child ''log''
       (with_child ''syslog'' (fileNode_ssh ''syslog'' ''-rw-r-----'' ''syslog adm'' (''system boot'' @ [CHR 0x0A]))
       (with_child ''auth.log'' (fileNode_ssh ''auth.log'' ''-rw-r-----'' ''syslog adm''
          (''Accepted publickey for root from 10.0.0.5 port 51000 ssh2'' @ [CHR 0x0A]))
       (dirNode_ssh ''log'')))
     (dirNode_ssh ''var'')"

definition skeleton :: "distroInfo \<Rightarrow> string \<Rightarrow> string list \<Rightarrow> vnode" where
  "skeleton d hostname users =
     with_child ''tmp'' (with_mode ''drwxrwxrwt'' (dirNode_ssh ''tmp''))
     (with_child ''var'' varDir
     (with_child ''root'' (with_mode ''drwx------'' (dirNode_ssh ''root''))
     (with_child ''home'' (homeDir users)
     (with_child ''etc'' (etcDir d hostname users) (dirNode_ssh ''/'')))))"

text \<open>\<open>baitFiles\<close> in the order in which the map iteration yields them.\<close>

definition buildVFS :: "distroInfo \<Rightarrow> string \<Rightarrow> string list \<Rightarrow> (string \<times> string) list \<Rightarrow> vnode" where
  "buildVFS d hostname users baitFiles =
     foldl (\<lambda>root (p, content). placeFile root p content) (skeleton d hostname users) baitFiles"

end
