(* ===== verification/Ssh_Shell.thy ===== *)
theory Ssh_Shell
  imports Ssh_Vfs
begin

text \<open>
  The SSH honeypot's pseudo-shell, session handling and SFTP service
  (\<open>internal/honeypot/ssh/server.go\<close>, \<open>shell.go\<close>, \<open>sftp.go\<close>).

  The SSH transport, the terminal's line editor and the SFTP wire protocol are library code: a
  session is given the requests of its channel, the lines the terminal returns and the calls the
  SFTP library makes.  The output is the list of what is written, replied and emitted, in order.
\<close>

section \<open>The server\<close>

record ssh_config =
  hc_port :: u16
  hc_osName :: string
  hc_hostname :: string
  hc_credStore :: "cred_store option"
  hc_acceptCredentials :: "string list"

record ssh_server =
  sv_port :: u16
  sv_distro :: distroInfo
  sv_host :: string
  sv_creds :: "(string \<times> string) list"
  sv_leak :: "(string \<times> string) list"

definition accepted_ssh :: "string list \<Rightarrow> cred_store option \<Rightarrow> credential list" where
  "accepted_ssh want store = filter (\<lambda>c. want = [] \<or> cr_id c \<in> set want) (cred_all store)"

text \<open>The loop of \<open>New\<close>: one entry per lower-case user name, the last password wins.\<close>

definition creds_ssh :: "string list \<Rightarrow> cred_store option \<Rightarrow> (string \<times> string) list" where
  "creds_ssh want store =
     foldl (\<lambda>m c. AList.update (to_lower (cr_username c)) (cr_password c) m) [] (accepted_ssh want store)"

definition leak_path :: string where "leak_path = ''/root/.credentials''"

definition leak_note :: "credential \<Rightarrow> string" where
  "leak_note c = ''# service account hand-off'' @ [CHR 0x0A] @ ''# do not commit'' @ [CHR 0x0A] @
     cr_username c @ '':'' @ cr_password c @ [CHR 0x0A]"

definition buildLeak :: "cred_store option \<Rightarrow> string list \<Rightarrow> (string \<times> string) list" where
  "buildLeak store want =
     (case accepted_ssh want store of [] \<Rightarrow> [] | c # _ \<Rightarrow> [(leak_path, leak_note c)])"

definition newSshServer :: "ssh_config \<Rightarrow> ssh_server" where
  "newSshServer cfg =
     (let d = distroFor (hc_osName cfg)
      in \<lparr>sv_port = (if hc_port cfg = 0 then 22 else hc_port cfg), sv_distro = d,
          sv_host = (if hc_hostname cfg = [] then di_osID d @ ''-srv'' else hc_hostname cfg),
          sv_creds = creds_ssh (hc_acceptCredentials cfg) (hc_credStore cfg),
          sv_leak = buildLeak (hc_credStore cfg) (hc_acceptCredentials cfg)\<rparr>)"

text \<open>The file system: built on first use, and the same on every use.\<close>

definition vfs_of :: "ssh_server \<Rightarrow> vnode" where
  "vfs_of s = buildVFS (sv_distro s) (sv_host s) (sort_strings (''root'' # map fst (sv_creds s))) (sv_leak s)"

definition checkCred_ssh :: "ssh_server \<Rightarrow> string \<Rightarrow> string \<Rightarrow> bool" where
  "checkCred_ssh s user pass = (map_of (sv_creds s) (to_lower user) = Some pass)"

definition homeFor :: "string \<Rightarrow> string" where
  "homeFor user = (if equal_fold user ''root'' then ''/root'' else ''/home/'' @ user)"

section \<open>Output and events\<close>

datatype sftp_result = SftpData string | SftpEntries "vnode list" | SftpErr string

datatype ssh_act =
    Prompt string
  | WriteOut string
  | Emit event
  | ReqReply bool
  | ExitStatus nat
  | SftpAnswer sftp_result

definition emit_ssh :: "ssh_server \<Rightarrow> string \<Rightarrow> event \<Rightarrow> ssh_act" where
  "emit_ssh s remote e = Emit (splitHostPort remote (e\<lparr>ev_service := ''ssh'', ev_dstPort := sv_port s\<rparr>))"

definition ssh_event :: "event_type \<Rightarrow> severity \<Rightarrow> string \<Rightarrow> (string \<rightharpoonup> field_value) \<Rightarrow> event" where
  "ssh_event t sev msg fs = (blank_event t)\<lparr>ev_severity := sev, ev_message := msg, ev_fields := fs\<rparr>"

definition emitAuth_ssh :: "ssh_server \<Rightarrow> string \<Rightarrow> string \<Rightarrow> string \<Rightarrow> bool \<Rightarrow> ssh_act" where
  "emitAuth_ssh s remote user pass ok =
     (let fs = [''username'' \<mapsto> FStr user, ''password'' \<mapsto> FStr pass] in
      if ok then emit_ssh s remote (ssh_event AuthSuccess SevWarn ''SSH login success'' fs)
      else emit_ssh s remote (ssh_event AuthAttempt SevNotice ''SSH login failed'' fs))"

text \<open>The password callback: its verdict and what it emits.\<close>

definition passwordCallback :: "ssh_server \<Rightarrow> string \<Rightarrow> string \<Rightarrow> string \<Rightarrow> bool \<times> ssh_act" where
  "passwordCallback s remote user pass =
     (let ok = checkCred_ssh s user pass in (ok, emitAuth_ssh s remote user pass ok))"

section \<open>Commands\<close>

record shell_session =
  ss_user :: string
  ss_cwd :: string

definition resolveAbs :: "string \<Rightarrow> string \<Rightarrow> string" where
  "resolveAbs cwd arg =
     (if has_prefix arg ''/'' then path_clean arg
      else path_clean (cwd @ ''/'' @ (if arg = ''~'' then [] else arg)))"

definition prompt :: "ssh_server \<Rightarrow> shell_session \<Rightarrow> string" where
  "prompt s sess =
     (let sym = (if equal_fold (ss_user sess) ''root'' then ''#'' else ''$'');
          home = homeFor (ss_user sess);
          disp = (if ss_cwd sess = home then ''~''
                  else if has_prefix (ss_cwd sess) (home @ ''/'') then ''~'' @ drop (length home) (ss_cwd sess)
                  else ss_cwd sess)
      in ss_user sess @ ''@'' @ sv_host s @ '':'' @ disp @ sym @ '' '')"

fun uname_loop :: "ssh_server \<Rightarrow> bool \<Rightarrow> string list \<Rightarrow> string" where
  "uname_loop s long [] =
     (if long then ''Linux '' @ sv_host s @ '' '' @ di_kernel (sv_distro s) @ '' #1 SMP PREEMPT_DYNAMIC x86_64 x86_64 x86_64 GNU/Linux''
      else ''Linux'')"
| "uname_loop s long (a # as) =
     (if a = ''-a'' then uname_loop s True as
      else if a = ''-r'' then di_kernel (sv_distro s)
      else if a = ''-s'' then ''Linux''
      else if a = ''-n'' then sv_host s
      else uname_loop s long as)"

definition uname :: "ssh_server \<Rightarrow> string list \<Rightarrow> string" where
  "uname s args = uname_loop s False args"

definition idString :: "string \<Rightarrow> string" where
  "idString user =
     (if equal_fold user ''root'' then ''uid=0(root) gid=0(root) groups=0(root)''
      else ''uid=1000('' @ user @ '') gid=1000('' @ user @ '') groups=1000('' @ user @ ''),27(sudo)'')"

abbreviation lf :: string where "lf \<equiv> [CHR 0x0A]"
abbreviation spc :: string where "spc \<equiv> '' ''"

fun join_str :: "string \<Rightarrow> string list \<Rightarrow> string" where
  "join_str sep [] = []"
| "join_str sep [a] = a"
| "join_str sep (a # b # cs) = a @ sep @ join_str sep (b # cs)"

definition cmdCd :: "ssh_server \<Rightarrow> shell_session \<Rightarrow> string list \<Rightarrow> shell_session \<times> string" where
  "cmdCd s sess args =
     (let target = (case args of [] \<Rightarrow> homeFor (ss_user sess) | a # _ \<Rightarrow> resolveAbs (ss_cwd sess) a) in
      case resolve_ssh (vfs_of s) target of
        None \<Rightarrow> (sess, ''cd: '' @ join_str spc args @ '': No such file or directory'' @ lf)
      | Some n \<Rightarrow>
          if \<not> is_dir n then (sess, ''cd: '' @ join_str spc args @ '': Not a directory'' @ lf)
          else (sess\<lparr>ss_cwd := target\<rparr>, []))"

text \<open>\<open>t.Format("Jan _2 15:04")\<close>\<close>

definition ls_time :: "int \<Rightarrow> string" where
  "ls_time t =
     (let (y, m, d) = civil_of_days (t div 86400); sod = nat (t mod 86400)
      in month_names ! (m - 1) @ spc @ pad_left 2 (itoa d) @ spc @ d2 (sod div 3600) @ '':'' @ d2 (sod mod 3600 div 60))"

definition lsLong :: "vnode \<Rightarrow> string" where
  "lsLong n =
     (let m = vmeta n; owner = (if sm_owner m = [] then ''root root'' else sm_owner m)
      in sm_mode m @ '' 1 '' @ owner @ spc @ pad_left 6 (itoa (size_ssh n)) @ spc @ ls_time (sm_mtime m) @ spc @ sm_name m)"

text \<open>The loop over the arguments: the flags and the last argument that is not one.\<close>

definition ls_args :: "string list \<Rightarrow> bool \<times> bool \<times> string" where
  "ls_args args =
     foldl (\<lambda>(long, all, p) a.
        if has_prefix a ''-'' then (long \<or> str_contains a ''l'', all \<or> str_contains a ''a'', p) else (long, all, a))
       (False, False, []) args"

definition cmdLs :: "ssh_server \<Rightarrow> shell_session \<Rightarrow> string list \<Rightarrow> string" where
  "cmdLs s sess args =
     (let (long, all, pathArg) = ls_args args;
          target = (if pathArg \<noteq> [] then resolveAbs (ss_cwd sess) pathArg else ss_cwd sess) in
      case resolve_ssh (vfs_of s) target of
        None \<Rightarrow> ''ls: cannot access '' @ [CHR 0x27] @ pathArg @ [CHR 0x27] @ '': No such file or directory'' @ lf
      | Some n \<Rightarrow>
          if \<not> is_dir n then (if long then lsLong n @ lf else sm_name (vmeta n) @ lf)
          else concat (map (\<lambda>nm. (if long then lsLong (the (child n nm)) else nm) @ lf)
                 (filter (\<lambda>nm. all \<or> \<not> has_prefix nm ''.'') (childNames n))))"

fun cat_loop :: "ssh_server \<Rightarrow> string \<Rightarrow> shell_session \<Rightarrow> string list \<Rightarrow> string \<times> ssh_act list" where
  "cat_loop s remote sess [] = ([], [])"
| "cat_loop s remote sess (a # as) =
     (let (o1, e1) =
        (if has_prefix a ''-'' then ([], [])
         else
           let target = resolveAbs (ss_cwd sess) a in
           case resolve_ssh (vfs_of s) target of
             None \<Rightarrow> (''cat: '' @ a @ '': No such file or directory'' @ lf, [])
           | Some n \<Rightarrow>
               if is_dir n then (''cat: '' @ a @ '': Is a directory'' @ lf, [])
               else (sm_content (vmeta n),
                     [emit_ssh s remote (ssh_event FileDownload SevWarn ''SSH file read'' [''path'' \<mapsto> FStr target])]));
        (o2, e2) = cat_loop s remote sess as
      in (o1 @ o2, e1 @ e2))"

definition cmdCat :: "ssh_server \<Rightarrow> string \<Rightarrow> shell_session \<Rightarrow> string list \<Rightarrow> string \<times> ssh_act list" where
  "cmdCat s remote sess args = cat_loop s remote sess args"

definition str_fields :: "string \<Rightarrow> string list" where
  "str_fields = fields_func is_space"

definition dispatch_ssh ::
  "ssh_server \<Rightarrow> string \<Rightarrow> shell_session \<Rightarrow> string \<Rightarrow> string list \<Rightarrow> shell_session \<times> string \<times> ssh_act list" where
  "dispatch_ssh s remote sess cmd rest =
     (if cmd = ''pwd'' then (sess, ss_cwd sess @ lf, [])
      else if cmd = ''whoami'' then (sess, ss_user sess @ lf, [])
      else if cmd = ''id'' then (sess, idString (ss_user sess) @ lf, [])
      else if cmd = ''hostname'' then (sess, sv_host s @ lf, [])
      else if cmd = ''uname'' then (sess, uname s rest @ lf, [])
      else if cmd = ''echo'' then (sess, join_str spc rest @ lf, [])
      else if cmd = ''cd'' then (let (sess', out) = cmdCd s sess rest in (sess', out, []))
      else if cmd = ''ls'' \<or> cmd = ''dir'' then
        (sess, cmdLs s sess rest,
         [emit_ssh s remote (ssh_event Enumeration SevNotice ''SSH directory listing''
            [''cwd'' \<mapsto> FStr (ss_cwd sess), ''args'' \<mapsto> FStr (join_str spc rest)])])
      else if cmd = ''cat'' \<or> cmd = ''less'' \<or> cmd = ''more'' \<or> cmd = ''head'' \<or> cmd = ''tail'' then
        (let (out, es) = cmdCat s remote sess rest in (sess, out, es))
      else if cmd = ''help'' then (sess, ''Supported: pwd ls cd cat whoami id uname hostname echo exit'' @ lf, [])
      else if cmd = ''clear'' then (sess, [CHR 0x1B] @ ''[H'' @ [CHR 0x1B] @ ''[2J'', [])
      else (sess, cmd @ '': command not found'' @ lf, []))"

definition runCommand ::
  "ssh_server \<Rightarrow> string \<Rightarrow> shell_session \<Rightarrow> string \<Rightarrow> shell_session \<times> string \<times> ssh_act list" where
  "runCommand s remote sess line =
     (case str_fields line of
        [] \<Rightarrow> (sess, [], [])
      | cmd # rest \<Rightarrow>
          if cmd = ''sudo'' \<and> rest \<noteq> [] then
            (let (sess', out, es) = dispatch_ssh s remote sess (hd rest) (tl rest)
             in (sess', out,
                 emit_ssh s remote (ssh_event Enumeration SevWarn ''SSH sudo invoked'' [''command'' \<mapsto> FStr line]) # es))
          else dispatch_ssh s remote sess cmd rest)"

section \<open>The interactive shell\<close>

fun crlf_to_lf :: "string \<Rightarrow> string" where
  "crlf_to_lf [] = []"
| "crlf_to_lf [c] = [c]"
| "crlf_to_lf (c # d # s) =
     (if c = CHR 0x0D \<and> d = CHR 0x0A then CHR 0x0A # crlf_to_lf s else c # crlf_to_lf (d # s))"

definition lf_to_crlf :: "string \<Rightarrow> string" where
  "lf_to_crlf s = concat (map (\<lambda>c. if c = CHR 0x0A then [CHR 0x0D, CHR 0x0A] else [c]) s)"

definition normalizeNL :: "string \<Rightarrow> string" where
  "normalizeNL s = lf_to_crlf (crlf_to_lf s)"

abbreviation crlf_str :: string where "crlf_str \<equiv> [CHR 0x0D, CHR 0x0A]"

fun shell_loop :: "ssh_server \<Rightarrow> string \<Rightarrow> shell_session \<Rightarrow> string list \<Rightarrow> shell_session \<times> ssh_act list" where
  "shell_loop s remote sess [] = (sess, [])"
| "shell_loop s remote sess (l # ls) =
     (let line = trim_space l in
      if line = [] then shell_loop s remote sess ls
      else if line = ''exit'' \<or> line = ''logout'' then (sess, [WriteOut (''logout'' @ crlf_str)])
      else
        let (sess1, out, es) = runCommand s remote sess line;
            (sess2, acts) = shell_loop s remote sess1 ls
        in (sess2, es @ (if out \<noteq> [] then [WriteOut (normalizeNL out)] else []) @ Prompt (prompt s sess1) # acts))"

definition runShell :: "ssh_server \<Rightarrow> string \<Rightarrow> shell_session \<Rightarrow> string list \<Rightarrow> shell_session \<times> ssh_act list" where
  "runShell s remote sess lines =
     (let (sess', acts) = shell_loop s remote sess lines
      in (sess', [Prompt (prompt s sess),
                  WriteOut (''Welcome to '' @ di_prettyName (sv_distro s) @ '' (GNU/Linux '' @ di_kernel (sv_distro s) @ '' x86_64)'' @
                         crlf_str @ crlf_str),
                  emit_ssh s remote (ssh_event Connection SevWarn ''SSH shell opened'' [''username'' \<mapsto> FStr (ss_user sess)])]
                 @ acts))"

section \<open>SFTP\<close>

text \<open>The calls of the SFTP library: the request's method and its file path.\<close>

datatype sftp_call =
    FileGet string
  | FilePut string
  | FileCmd string string
  | FileList string string

definition fileread :: "ssh_server \<Rightarrow> string \<Rightarrow> string \<Rightarrow> sftp_result \<times> ssh_act list" where
  "fileread s remote p =
     (case resolve_ssh (vfs_of s) (path_clean p) of
        None \<Rightarrow> (SftpErr ''file does not exist'', [])
      | Some n \<Rightarrow>
          if is_dir n then (SftpErr ''invalid argument'', [])
          else (SftpData (sm_content (vmeta n)),
                [emit_ssh s remote (ssh_event FileDownload SevWarn ''SFTP file download''
                   [''path'' \<mapsto> FStr (path_clean p), ''bytes'' \<mapsto> FInt (int (length (sm_content (vmeta n))))])]))"

definition filewrite :: "ssh_server \<Rightarrow> string \<Rightarrow> string \<Rightarrow> sftp_result \<times> ssh_act list" where
  "filewrite s remote p =
     (SftpErr ''permission denied'',
      [emit_ssh s remote (ssh_event Enumeration SevWarn ''SFTP upload attempt (denied)'' [''path'' \<mapsto> FStr (path_clean p)])])"

definition filecmd :: "ssh_server \<Rightarrow> string \<Rightarrow> string \<Rightarrow> string \<Rightarrow> sftp_result \<times> ssh_act list" where
  "filecmd s remote meth p =
     (SftpErr ''permission denied'',
      [emit_ssh s remote (ssh_event Enumeration SevNotice (''SFTP '' @ meth @ '' (denied)'') [''path'' \<mapsto> FStr (path_clean p)])])"

definition filelist :: "ssh_server \<Rightarrow> string \<Rightarrow> string \<Rightarrow> string \<Rightarrow> sftp_result \<times> ssh_act list" where
  "filelist s remote meth p =
     (let ap = path_clean p in
      case resolve_ssh (vfs_of s) ap of
        None \<Rightarrow> (SftpErr ''file does not exist'', [])
      | Some n \<Rightarrow>
          if meth = ''List'' then
            (if \<not> is_dir n then (SftpErr ''invalid argument'', [])
             else (SftpEntries (map (\<lambda>nm. the (child n nm)) (childNames n)),
                   [emit_ssh s remote (ssh_event Enumeration SevNotice ''SFTP directory listing'' [''path'' \<mapsto> FStr ap])]))
          else if meth = ''Stat'' \<or> meth = ''Lstat'' \<or> meth = ''Readlink'' then (SftpEntries [n], [])
          else (SftpErr ''invalid argument'', []))"

text \<open>The permission bits of \<open>Mode\<close>, with \<open>os.ModeDir\<close> as the flag.\<close>

definition file_mode :: "vnode \<Rightarrow> bool \<times> nat" where
  "file_mode n = (if is_dir n then (True, 493) else (False, 420))"

text \<open>\<open>ListAt\<close>: what is copied into a buffer of \<open>k\<close> entries, and whether it is the end.\<close>

definition listAt :: "'a list \<Rightarrow> nat \<Rightarrow> nat \<Rightarrow> 'a list \<times> bool" where
  "listAt l k off =
     (if length l \<le> off then ([], True)
      else let page = take k (drop off l) in (page, length l \<le> off + length page))"

definition sftp_handle :: "ssh_server \<Rightarrow> string \<Rightarrow> sftp_call \<Rightarrow> sftp_result \<times> ssh_act list" where
  "sftp_handle s remote c =
     (case c of
        FileGet p \<Rightarrow> fileread s remote p
      | FilePut p \<Rightarrow> filewrite s remote p
      | FileCmd m p \<Rightarrow> filecmd s remote m p
      | FileList m p \<Rightarrow> filelist s remote m p)"

definition serveSFTP :: "ssh_server \<Rightarrow> string \<Rightarrow> sftp_call list \<Rightarrow> ssh_act list" where
  "serveSFTP s remote calls =
     emit_ssh s remote (ssh_event Connection SevWarn ''SFTP subsystem opened'' Map.empty) #
     concat (map (\<lambda>c. let (r, es) = sftp_handle s remote c in es @ [SftpAnswer r]) calls)"

section \<open>Sessions\<close>

definition decodeString :: "bytes \<Rightarrow> string" where
  "decodeString b =
     (if length b < 4 then []
      else
        let n = unat (be32 (b ! 0) (b ! 1) (b ! 2) (b ! 3)) in
        map (\<lambda>w. char_of (unat w)) (take (if length b - 4 < n then length b - 4 else n) (drop 4 b)))"

text \<open>A channel request: its type and its payload.\<close>

fun handleSession ::
  "ssh_server \<Rightarrow> string \<Rightarrow> shell_session \<Rightarrow> string list \<Rightarrow> sftp_call list \<Rightarrow> (string \<times> bytes) list \<Rightarrow>
   shell_session \<times> ssh_act list" where
  "handleSession s remote sess lines calls [] = (sess, [])"
| "handleSession s remote sess lines calls ((ty, payload) # reqs) =
     (if ty = ''pty-req'' \<or> ty = ''env'' \<or> ty = ''window-change'' then
        (let (sess', as) = handleSession s remote sess lines calls reqs in (sess', ReqReply True # as))
      else if ty = ''shell'' then
        (let (sess', as) = runShell s remote sess lines in (sess', ReqReply True # as))
      else if ty = ''exec'' then
        (let (sess', out, es) = runCommand s remote sess (decodeString payload)
         in (sess', ReqReply True # es @ [WriteOut out, ExitStatus 0]))
      else if ty = ''subsystem'' \<and> decodeString payload = ''sftp'' then
        (sess, ReqReply True # serveSFTP s remote calls)
      else
        (let (sess', as) = handleSession s remote sess lines calls reqs in (sess', ReqReply False # as)))"

definition open_session :: "string \<Rightarrow> shell_session" where
  "open_session user = \<lparr>ss_user = user, ss_cwd = homeFor user\<rparr>"

section \<open>Connections\<close>

text \<open>One channel the client opens: its type, its requests, and what the terminal and the SFTP library
  deliver on it.\<close>

record ssh_channel =
  cn_type :: string
  cn_requests :: "(string \<times> bytes) list"
  cn_lines :: "string list"
  cn_calls :: "sftp_call list"

datatype chan_result = Rejected | Served shell_session "ssh_act list"

definition serve_channel :: "ssh_server \<Rightarrow> string \<Rightarrow> string \<Rightarrow> ssh_channel \<Rightarrow> chan_result" where
  "serve_channel s remote user ch =
     (if cn_type ch \<noteq> ''session'' then Rejected
      else
        let (sess, acts) = handleSession s remote (open_session user) (cn_lines ch) (cn_calls ch) (cn_requests ch)
        in Served sess acts)"

text \<open>A connection: \<open>tries\<close> are the user names and passwords the transport passes to the callback, in
  order, and \<open>auth\<close> is the user it then lets in, if any; the channels are served independently.\<close>

definition handleConn_ssh ::
  "ssh_server \<Rightarrow> string \<Rightarrow> (string \<times> string) list \<Rightarrow> string option \<Rightarrow> ssh_channel list \<Rightarrow> ssh_act list \<times> chan_result list" where
  "handleConn_ssh s remote tries auth chans =
     (emit_ssh s remote (ssh_event Connection SevUnset ''SSH connection opened'' Map.empty) #
      map (\<lambda>(u, p). snd (passwordCallback s remote u p)) tries,
      case auth of None \<Rightarrow> [] | Some u \<Rightarrow> map (serve_channel s remote u) chans)"

text \<open>What the transport documents: the user it lets in passed the callback.\<close>

definition transport_sound :: "ssh_server \<Rightarrow> (string \<times> string) list \<Rightarrow> string option \<Rightarrow> bool" where
  "transport_sound s tries auth \<longleftrightarrow>
     (\<forall>u. auth = Some u \<longrightarrow> (\<exists>p. (u, p) \<in> set tries \<and> fst (passwordCallback s [] u p)))"

end
