(* ===== verification/Ssh_Honeypot.thy ===== *)
theory Ssh_Honeypot
  imports Ssh_Shell
begin

text \<open>
  What the SSH honeypot promises: paths and resolution agree whichever way a client names a node,
  what a listing shows can be opened, a login lands in a directory and stays in one, and the leaked
  credential can be read and used.
\<close>

section \<open>Paths\<close>

definition seg_step :: "string list \<Rightarrow> string \<Rightarrow> string list" where
  "seg_step out seg =
     (if seg = [] \<or> seg = ''.'' then out
      else if seg = ''..'' then (if out \<noteq> [] then butlast out else out)
      else out @ [seg])"

lemma splitPath_fold: "splitPath p = foldl seg_step [] (split_on (CHR ''/'') p)"
  unfolding splitPath_def seg_step_def by (rule refl)

definition valid_seg :: "string \<Rightarrow> bool" where
  "valid_seg s \<longleftrightarrow> s \<noteq> [] \<and> CHR ''/'' \<notin> set s \<and> s \<noteq> ''.'' \<and> s \<noteq> ''..''"

lemma clean_comps_step:
  "''..'' \<notin> set acc \<Longrightarrow> rev (clean_comps True acc segs) = foldl seg_step (rev acc) segs"
proof (induction segs arbitrary: acc)
  case (Cons c cs)
  then have "''..'' \<notin> set (tl acc)" by (cases acc) auto
  with Cons show ?case
    by (cases acc) (auto simp: seg_step_def)
qed simp

lemma splitPath_clean_comps: "splitPath p = rev (clean_comps True [] (split_on (CHR ''/'') p))"
  by (simp add: splitPath_fold clean_comps_step)

lemma fold_valid: "\<forall>s \<in> set segs. valid_seg s \<Longrightarrow> foldl seg_step out segs = out @ segs"
  by (induction segs arbitrary: out) (auto simp: seg_step_def valid_seg_def)

lemma fold_stays_valid:
  "\<forall>s \<in> set out. valid_seg s \<Longrightarrow> \<forall>s \<in> set segs. CHR ''/'' \<notin> set s \<Longrightarrow> \<forall>s \<in> set (foldl seg_step out segs). valid_seg s"
proof (induction segs arbitrary: out)
  case (Cons a segs)
  have "\<forall>s \<in> set (seg_step out a). valid_seg s"
    using Cons.prems by (auto simp: seg_step_def valid_seg_def dest: in_set_butlastD)
  with Cons show ?case by simp
qed simp

lemma splitPath_valid: "\<forall>s \<in> set (splitPath p). valid_seg s"
  unfolding splitPath_fold by (rule fold_stays_valid) (auto dest: split_on_free)

lemma split_rooted: "\<forall>s \<in> set segs. valid_seg s \<Longrightarrow> splitPath (CHR ''/'' # join_with (CHR ''/'') segs) = segs"
proof (cases "segs = []")
  case False
  assume *: "\<forall>s \<in> set segs. valid_seg s"
  then have "split_on (CHR ''/'') (join_with (CHR ''/'') segs) = segs"
    using False by (intro split_join) (auto simp: valid_seg_def)
  with * show ?thesis
    by (simp add: splitPath_fold fold_valid) (simp add: seg_step_def fold_valid)
qed (simp add: splitPath_fold seg_step_def)

abbreviation rooted :: "string \<Rightarrow> bool" where "rooted p \<equiv> has_prefix p ''/''"

lemma rooted_iff: "rooted p \<longleftrightarrow> p \<noteq> [] \<and> hd p = CHR ''/''"
  by (cases p) (auto simp: has_prefix_def)

lemma path_clean_rooted_ssh: "rooted p \<Longrightarrow> path_clean p = CHR ''/'' # join_with (CHR ''/'') (splitPath p)"
  by (simp add: rooted_iff path_clean_def splitPath_clean_comps Let_def)

text \<open>Cleaning a path does not change what it names.\<close>

lemma splitPath_clean: "rooted p \<Longrightarrow> splitPath (path_clean p) = splitPath p"
  by (simp add: path_clean_rooted_ssh split_rooted splitPath_valid)

lemma resolve_clean: "rooted p \<Longrightarrow> resolve_ssh root (path_clean p) = resolve_ssh root p"
  by (simp add: resolve_ssh_def splitPath_clean)

lemma split_on_concat:
  "split_on sep (a @ sep # b) = split_on sep a @ split_on sep b"
  by (induction a) (auto split: list.splits)

lemma rooted_append: "rooted a \<Longrightarrow> rooted (a @ b)"
  by (cases a) (auto simp: has_prefix_def)

lemma rooted_clean: "rooted p \<Longrightarrow> rooted (path_clean p)"
  by (simp add: path_clean_rooted_ssh has_prefix_def)

lemma resolveAbs_rooted: "rooted cwd \<Longrightarrow> rooted (resolveAbs cwd arg)"
  by (auto simp: resolveAbs_def rooted_append intro: rooted_clean)

lemma resolve_relative:
  assumes "rooted cwd" "\<not> rooted arg" "arg \<noteq> ''~''"
  shows "splitPath (resolveAbs cwd arg) = foldl seg_step (splitPath cwd) (split_on (CHR ''/'') arg)"
  using assms
  by (simp add: resolveAbs_def splitPath_clean rooted_append) (simp add: splitPath_fold split_on_concat)

lemma walk_append_ssh: "walk_ssh n (a @ b) = (case walk_ssh n a of None \<Rightarrow> None | Some m \<Rightarrow> walk_ssh m b)"
  by (induction n a rule: walk_ssh.induct) (auto split: option.splits)

lemma rooted_not_valid: "valid_seg s \<Longrightarrow> \<not> rooted s"
  by (cases s) (auto simp: valid_seg_def has_prefix_def)

text \<open>A child is what its name resolves to.\<close>

lemma resolve_child:
  assumes "rooted cwd" "resolve_ssh root cwd = Some n" "is_dir n" "child n nm = Some c" "valid_seg nm" "nm \<noteq> ''~''"
  shows "resolve_ssh root (resolveAbs cwd nm) = Some c"
proof -
  have "split_on (CHR ''/'') nm = [nm]"
    using assms(5) by (intro split_on_plain) (simp add: valid_seg_def)
  then have "splitPath (resolveAbs cwd nm) = splitPath cwd @ [nm]"
    using resolve_relative [OF assms(1) rooted_not_valid [OF assms(5)] assms(6)] fold_valid [of "[nm]"] assms(5) by simp
  with assms(2-4) show ?thesis
    by (simp add: resolve_ssh_def walk_append_ssh)
qed

section \<open>The tree is well formed\<close>

text \<open>A name that can be typed back: a valid segment that the commands take neither for an option
  nor for the home directory.\<close>

definition typable :: "string \<Rightarrow> bool" where
  "typable s \<longleftrightarrow> valid_seg s \<and> s \<noteq> ''~'' \<and> \<not> has_prefix s ''-'' \<and> (\<forall>c \<in> set s. \<not> is_space c)"

fun names_ok :: "vnode \<Rightarrow> bool" where
  "names_ok (VN m ks) \<longleftrightarrow>
     distinct (map fst ks) \<and> (\<forall>(k, c) \<in> set ks. typable k \<and> sm_name (vmeta c) = k \<and> names_ok c) \<and>
     (\<not> sm_dir m \<longrightarrow> ks = [])"

lemma names_ok_sel:
  "names_ok n \<longleftrightarrow> distinct (map fst (vkids n)) \<and>
     (\<forall>(k, c) \<in> set (vkids n). typable k \<and> sm_name (vmeta c) = k \<and> names_ok c) \<and> (\<not> is_dir n \<longrightarrow> vkids n = [])"
  by (cases n) simp

declare names_ok.simps [simp del]

lemma names_ok_child: "names_ok n \<Longrightarrow> child n k = Some c \<Longrightarrow> typable k \<and> sm_name (vmeta c) = k \<and> names_ok c"
  unfolding names_ok_sel [of n] child_def by (auto dest: map_of_SomeD)

lemma names_ok_new [simp]: "names_ok (dirNode_ssh nm)" "names_ok (fileNode_ssh nm m ow c)"
  by (simp_all add: names_ok_sel [of "dirNode_ssh nm"] names_ok_sel [of "fileNode_ssh nm m ow c"])

lemma set_update_subset: "set (AList.update k v al) \<subseteq> insert (k, v) (set al)"
  by (induction al) auto

lemma names_ok_with_child [intro]:
  assumes "names_ok n" "names_ok c" "typable k" "sm_name (vmeta c) = k" "is_dir n"
  shows "names_ok (with_child k c n)"
proof -
  have "distinct (map fst (AList.update k c (vkids n)))"
    using assms(1) by (simp add: names_ok_sel [of n] distinct_update)
  moreover have "\<forall>(k', c') \<in> set (AList.update k c (vkids n)). typable k' \<and> sm_name (vmeta c') = k' \<and> names_ok c'"
    using assms set_update_subset [of k c "vkids n"] by (auto simp: names_ok_sel [of n])
  ultimately show ?thesis
    using assms(5) by (simp add: with_child_def names_ok.simps)
qed

lemma sm_name_place [simp]: "vmeta (place n segs c) = vmeta n"
  by (induction n segs c rule: place.induct) (simp_all add: Let_def)

lemma names_ok_place:
  "names_ok n \<Longrightarrow> is_dir n \<Longrightarrow> \<forall>s \<in> set segs. typable s \<Longrightarrow> names_ok (place n segs c)"
proof (induction n segs c rule: place.induct)
  case (3 cur seg seg' segs content)
  let ?nx = "case child cur seg of None \<Rightarrow> dirNode_ssh seg | Some n \<Rightarrow> if is_dir n then n else dirNode_ssh seg"
  have nx: "names_ok ?nx" "is_dir ?nx" "sm_name (vmeta ?nx) = seg"
    using names_ok_child [OF "3.prems"(1)] by (auto split: option.splits)
  then have "names_ok (place ?nx (seg' # segs) content)"
    using "3.IH" [of ?nx] "3.prems" by simp
  with nx "3.prems" show ?case
    by (simp add: Let_def names_ok_with_child)
qed (auto intro: names_ok_with_child)

lemmas typable_defs = typable_def valid_seg_def has_prefix_def is_space_def

lemma names_ok_meta [simp]: "names_ok (VN m (vkids n)) = names_ok (VN (vmeta n) (vkids n))" if "sm_dir m = is_dir n"
  using that by (cases n) (simp add: names_ok.simps)

lemma names_ok_userHome: "typable u \<Longrightarrow> names_ok (userHome u)"
  unfolding userHome_def Let_def
  by (intro names_ok_with_child names_ok_new) (simp_all add: typable_defs names_ok.simps)

lemma userHome_sel [simp]: "sm_name (vmeta (userHome u)) = u" "is_dir (userHome u)"
  by (simp_all add: userHome_def Let_def)

lemma homeDir_sel [simp]: "is_dir (homeDir users)" "sm_name (vmeta (homeDir users)) = ''home''"
proof -
  have "vmeta (foldl (\<lambda>home u. if u = ''root'' then home else with_child u (userHome u) home) h users) = vmeta h" for h
    by (induction users arbitrary: h) auto
  then show "is_dir (homeDir users)" "sm_name (vmeta (homeDir users)) = ''home''"
    by (simp_all add: homeDir_def)
qed

lemma names_ok_homeDir:
  assumes "\<forall>u \<in> set users. typable u" shows "names_ok (homeDir users)"
proof -
  have "names_ok (foldl (\<lambda>home u. if u = ''root'' then home else with_child u (userHome u) home) h users)"
    if "names_ok h" "is_dir h" for h
    using that assms by (induction users arbitrary: h) (simp_all add: names_ok_with_child names_ok_userHome)
  then show ?thesis by (simp add: homeDir_def)
qed

lemma with_mode_sel [simp]: "is_dir (with_mode m n) = is_dir n" "sm_name (vmeta (with_mode m n)) = sm_name (vmeta n)"
  "child (with_mode m n) = child n" "names_ok (with_mode m n) = names_ok n"
  by (cases n, simp add: with_mode_def child_def names_ok.simps)+

lemma names_ok_etcDir: "names_ok (etcDir d h users)"
  unfolding etcDir_def by (intro names_ok_with_child names_ok_new) (simp_all add: typable_defs)

lemma names_ok_varDir: "names_ok varDir"
  unfolding varDir_def by (intro names_ok_with_child names_ok_new) (simp_all add: typable_defs)

lemma top_dirs_sel [simp]: "is_dir (etcDir d h users)" "sm_name (vmeta (etcDir d h users)) = ''etc''"
  "is_dir varDir" "sm_name (vmeta varDir) = ''var''"
  by (simp_all add: etcDir_def varDir_def)

lemma typable_top: "typable ''tmp''" "typable ''var''" "typable ''root''" "typable ''home''" "typable ''etc''"
  "typable ''.credentials''"
  by (simp_all add: typable_defs)

lemma names_ok_skeleton: "\<forall>u \<in> set users. typable u \<Longrightarrow> names_ok (skeleton d h users)"
  unfolding skeleton_def
  by (intro names_ok_with_child) (simp_all add: typable_top names_ok_homeDir names_ok_etcDir names_ok_varDir)

lemma skeleton_sel [simp]: "is_dir (skeleton d h users)"
  "child (skeleton d h users) ''root'' = Some (with_mode ''drwx------'' (dirNode_ssh ''root''))"
  "child (skeleton d h users) ''home'' = Some (homeDir users)"
  by (simp_all add: skeleton_def)

section \<open>The built file system\<close>

lemma child_homeDir: "child (homeDir users) u = (if u \<in> set users \<and> u \<noteq> ''root'' then Some (userHome u) else None)"
proof -
  have "child (foldl (\<lambda>home u. if u = ''root'' then home else with_child u (userHome u) home) h users) u =
        (if u \<in> set users \<and> u \<noteq> ''root'' then Some (userHome u) else child h u)" for h
    by (induction users arbitrary: h) auto
  then show ?thesis by (simp add: homeDir_def)
qed

lemma split_leak_path: "splitPath leak_path = [''root'', ''.credentials'']"
  by (simp add: leak_path_def splitPath_def)

abbreviation srv_users :: "ssh_server \<Rightarrow> string list" where
  "srv_users s \<equiv> sort_strings (''root'' # map fst (sv_creds s))"

abbreviation root_home :: vnode where "root_home \<equiv> with_mode ''drwx------'' (dirNode_ssh ''root'')"

text \<open>The tree of a server: the skeleton, and the note below \<open>/root\<close> when a credential is accepted.\<close>

lemma vfs_of_server:
  assumes "s = newSshServer cfg"
  shows "vfs_of s =
    (case accepted_ssh (hc_acceptCredentials cfg) (hc_credStore cfg) of
       [] \<Rightarrow> skeleton (sv_distro s) (sv_host s) (srv_users s)
     | c # _ \<Rightarrow> with_child ''root'' (with_child ''.credentials''
                 (fileNode_ssh ''.credentials'' ''-rw-r--r--'' ''root root'' (leak_note c)) root_home)
               (skeleton (sv_distro s) (sv_host s) (srv_users s)))"
  unfolding assms
  by (simp add: vfs_of_def newSshServer_def buildLeak_def buildVFS_def placeFile_def split_leak_path Let_def split: list.splits)

lemma vfs_of_sel:
  assumes "s = newSshServer cfg"
  shows "is_dir (vfs_of s)" "child (vfs_of s) ''home'' = Some (homeDir (srv_users s))"
    "\<exists>r. child (vfs_of s) ''root'' = Some r \<and> is_dir r"
  by (simp_all add: vfs_of_server [OF assms] split: list.splits)

lemma names_ok_vfs:
  assumes "s = newSshServer cfg" "\<forall>u \<in> fst ` set (sv_creds s). typable u"
  shows "names_ok (vfs_of s)"
proof -
  have "names_ok (skeleton (sv_distro s) (sv_host s) (srv_users s))"
    by (rule names_ok_skeleton) (use assms(2) in \<open>auto simp: sorted_sort_strings typable_top\<close>)
  then show ?thesis
    unfolding vfs_of_server [OF assms(1)]
    by (auto simp: typable_top split: list.splits intro!: names_ok_with_child)
qed

lemma creds_ssh_map: "map_of (creds_ssh want store) u =
  map_option cr_password (find (\<lambda>c. to_lower (cr_username c) = u) (rev (accepted_ssh want store)))"
proof -
  have "map_of (foldl (\<lambda>m c. AList.update (to_lower (cr_username c)) (cr_password c) m) m0 cs) u =
        (case find (\<lambda>c. to_lower (cr_username c) = u) (rev cs) of None \<Rightarrow> map_of m0 u | Some c \<Rightarrow> Some (cr_password c))" for m0 cs
    by (induction cs rule: rev_induct) (auto simp: update_conv' split: option.splits)
  from this [of "[]" "accepted_ssh want store"] show ?thesis
    by (simp add: creds_ssh_def split: option.splits)
qed

section \<open>Sessions stay in directories\<close>

definition in_directory :: "ssh_server \<Rightarrow> shell_session \<Rightarrow> bool" where
  "in_directory s sess \<longleftrightarrow> rooted (ss_cwd sess) \<and> (\<exists>n. resolve_ssh (vfs_of s) (ss_cwd sess) = Some n \<and> is_dir n)"

lemma homeFor_rooted: "rooted (homeFor u)"
  by (simp add: homeFor_def has_prefix_def)

lemma cd_in_directory: "in_directory s sess \<Longrightarrow> in_directory s (fst (cmdCd s sess args))"
  by (auto simp: in_directory_def cmdCd_def Let_def homeFor_rooted resolveAbs_rooted split: list.splits option.splits)

text \<open>Only \<open>cd\<close> changes a session: what it keeps, a whole channel keeps.\<close>

lemma command_keeps:
  assumes "\<And>sess args. P sess \<Longrightarrow> P (fst (cmdCd s sess args))" "P sess"
  shows "P (fst (runCommand s remote sess line))"
  using assms by (auto simp: runCommand_def dispatch_ssh_def Let_def case_prod_beta split: list.splits)

lemma shell_keeps:
  assumes cd: "\<And>sess args. P sess \<Longrightarrow> P (fst (cmdCd s sess args))"
  shows "P sess \<Longrightarrow> P (fst (shell_loop s remote sess ls))"
  by (induction ls arbitrary: sess) (simp_all add: Let_def case_prod_beta command_keeps [where P = P, OF cd])

lemma session_keeps:
  assumes cd: "\<And>sess args. P sess \<Longrightarrow> P (fst (cmdCd s sess args))"
  shows "P sess \<Longrightarrow> P (fst (handleSession s remote sess lines calls reqs))"
proof (induction reqs)
  case (Cons r reqs)
  then show ?case
    by (cases r) (auto simp: runShell_def case_prod_beta Let_def shell_keeps [where P = P, OF cd] command_keeps [where P = P, OF cd])
qed simp

lemma command_in_directory: "in_directory s sess \<Longrightarrow> in_directory s (fst (runCommand s remote sess line))"
  by (rule command_keeps [where P = "in_directory s", OF cd_in_directory])

text \<open>A session that has never left a missing home still names it.\<close>

lemma cd_from_home:
  assumes "in_directory s sess \<or> ss_cwd sess = homeFor u"
  shows "in_directory s (fst (cmdCd s sess args)) \<or> ss_cwd (fst (cmdCd s sess args)) = homeFor u"
proof -
  have "rooted (ss_cwd sess)"
    using assms homeFor_rooted by (auto simp: in_directory_def)
  then show ?thesis
    using assms by (auto simp: in_directory_def cmdCd_def Let_def homeFor_rooted resolveAbs_rooted split: list.splits option.splits)
qed

lemma session_from_home:
  "in_directory s sess \<or> ss_cwd sess = homeFor u \<Longrightarrow>
    in_directory s (fst (handleSession s remote sess lines calls reqs)) \<or> ss_cwd (fst (handleSession s remote sess lines calls reqs)) = homeFor u"
  by (rule session_keeps [where P = "\<lambda>sess. in_directory s sess \<or> ss_cwd sess = homeFor u", OF cd_from_home])

lemma fields_func_word: "w \<noteq> [] \<Longrightarrow> \<forall>c \<in> set w. \<not> p c \<Longrightarrow> p d \<Longrightarrow> fields_func p (w @ d # s) = w # fields_func p s"
  by (cases w) (auto simp: takeWhile_append2 dropWhile_append2 takeWhile_append dropWhile_append)

lemma fields_func_last: "w \<noteq> [] \<Longrightarrow> \<forall>c \<in> set w. \<not> p c \<Longrightarrow> fields_func p w = [w]"
proof (cases w)
  case (Cons a v)
  assume "\<forall>c \<in> set w. \<not> p c"
  with Cons have "takeWhile (\<lambda>x. \<not> p x) v = v" "dropWhile (\<lambda>x. \<not> p x) v = []"
    by (simp_all add: takeWhile_eq_all_conv)
  with Cons \<open>\<forall>c \<in> set w. \<not> p c\<close> show ?thesis by (simp del: dropWhile_eq_Nil_conv)
qed simp

lemma fields_command:
  assumes "cmd \<noteq> []" "\<forall>c \<in> set cmd. \<not> is_space c" "typable a"
  shows "str_fields (cmd @ CHR '' '' # a) = [cmd, a]"
proof -
  have "a \<noteq> []" "\<forall>c \<in> set a. \<not> is_space c"
    using assms(3) by (auto simp: typable_def valid_seg_def)
  moreover have "is_space (CHR '' '')"
    by (simp add: is_space_def)
  ultimately show ?thesis
    using assms(1, 2) by (simp add: str_fields_def fields_func_word fields_func_last)
qed

lemma creds_lower:
  assumes "(u, p) \<in> set (sv_creds (newSshServer cfg))" shows "to_lower u = u"
proof -
  have "\<forall>(u, p) \<in> set (foldl (\<lambda>m c. AList.update (to_lower (cr_username c)) (cr_password c) m) m cs). to_lower u = u"
    if "\<forall>(u, p) \<in> set m. to_lower u = u" for m cs
    using that
  proof (induction cs arbitrary: m)
    case (Cons c cs)
    have "\<forall>(u, p) \<in> set (AList.update (to_lower (cr_username c)) (cr_password c) m). to_lower u = u"
      using Cons.prems by (auto dest!: subsetD [OF set_update_subset])
    from Cons.IH [OF this] show ?case by simp
  qed simp
  from this [of "[]" "accepted_ssh (hc_acceptCredentials cfg) (hc_credStore cfg)"] assms show ?thesis
    by (auto simp: newSshServer_def creds_ssh_def Let_def)
qed

lemma home_exists:
  assumes "checkCred_ssh (newSshServer cfg) user pass" "valid_seg user"
  shows "in_directory (newSshServer cfg) (open_session user) \<longleftrightarrow> equal_fold user ''root'' \<or> to_lower user = user"
proof (cases "equal_fold user ''root''")
  case True
  have "splitPath (homeFor user) = [''root'']"
    by (simp add: True homeFor_def splitPath_def)
  then show ?thesis
    using vfs_of_sel [OF refl, of cfg] True by (auto simp: in_directory_def open_session_def homeFor_rooted resolve_ssh_def)
next
  case False
  let ?s = "newSshServer cfg"
  have "split_on (CHR ''/'') (''/home/'' @ user) = [[], ''home'', user]"
    using assms(2) by (simp add: valid_seg_def split_on_plain)
  with False have "splitPath (homeFor user) = [''home'', user]"
    using assms(2) by (simp add: homeFor_def splitPath_fold seg_step_def valid_seg_def)
  moreover have "user \<noteq> ''root''"
    using False by auto
  ultimately have "in_directory ?s (open_session user) \<longleftrightarrow> user \<in> set (srv_users ?s)"
    using vfs_of_sel [OF refl, of cfg]
    by (simp add: in_directory_def open_session_def homeFor_rooted resolve_ssh_def child_homeDir)
  also have "\<dots> \<longleftrightarrow> to_lower user = user"
  proof
    assume "user \<in> set (srv_users ?s)"
    with \<open>user \<noteq> ''root''\<close> obtain p where "(user, p) \<in> set (sv_creds ?s)"
      by (auto simp: sorted_sort_strings)
    then show "to_lower user = user"
      by (rule creds_lower)
  next
    assume "to_lower user = user"
    then show "user \<in> set (srv_users ?s)"
      using assms(1) by (force simp: checkCred_ssh_def sorted_sort_strings dest: map_of_SomeD)
  qed
  finally show ?thesis
    using False by simp
qed

text \<open>C26. Whatever an accepted user does on a channel - requests, command lines, \<open>cd\<close> to any
  path - the session's working directory is a directory of the file system, or the user has never left a home that is missing.  For a user name that is a
  path segment the home is there exactly when the login was spelt in lower case or is root's.\<close>

theorem login_stays_in_a_directory:
  assumes "checkCred_ssh (newSshServer cfg) user pass"
    and "sess = fst (handleSession (newSshServer cfg) remote (open_session user) lines calls reqs)"
  shows "(in_directory (newSshServer cfg) sess \<or>
      \<not> in_directory (newSshServer cfg) (open_session user) \<and> ss_cwd sess = ss_cwd (open_session user)) \<and>
    (valid_seg user \<longrightarrow>
      (in_directory (newSshServer cfg) (open_session user) \<longleftrightarrow> equal_fold user ''root'' \<or> to_lower user = user))"
proof -
  let ?s = "newSshServer cfg"
  have "in_directory ?s sess \<or> ss_cwd sess = homeFor user"
    unfolding assms(2) by (rule session_from_home) (simp add: open_session_def)
  moreover have "in_directory ?s sess" if "ss_cwd sess = homeFor user" "in_directory ?s (open_session user)"
    using that by (simp add: in_directory_def open_session_def)
  ultimately show ?thesis
    using home_exists [OF assms(1)] by (auto simp: open_session_def)
qed

definition lab_store :: "cred_store option" where
  "lab_store = Some [(''backup_svc'', \<lparr>cr_id = ''backup_svc'', cr_username = ''svc_backup'',
     cr_password = ''Passw0rd123'', cr_domain = ''WORKGROUP''\<rparr>)]"

definition lab_ssh :: ssh_config where
  "lab_ssh = \<lparr>hc_port = 0, hc_osName = ''Ubuntu'', hc_hostname = ''web01'', hc_credStore = lab_store,
     hc_acceptCredentials = []\<rparr>"

lemma lab_accepted: "accepted_ssh (hc_acceptCredentials lab_ssh) (hc_credStore lab_ssh) =
    [\<lparr>cr_id = ''backup_svc'', cr_username = ''svc_backup'', cr_password = ''Passw0rd123'', cr_domain = ''WORKGROUP''\<rparr>]"
  by (simp add: lab_ssh_def lab_store_def accepted_ssh_def cred_all_def)

lemma lower_lab_user: "to_lower ''svc_backup'' = ''svc_backup''"
  by code_simp

lemma lab_creds: "sv_creds (newSshServer lab_ssh) = [(''svc_backup'', ''Passw0rd123'')]"
  by (simp add: newSshServer_def Let_def creds_ssh_def lab_accepted lower_lab_user)

lemma lab_login: "checkCred_ssh (newSshServer lab_ssh) ''svc_backup'' ''Passw0rd123''"
  by (simp add: checkCred_ssh_def lab_creds lower_lab_user)

lemma lab_login_case: "checkCred_ssh (newSshServer lab_ssh) ''SVC_Backup'' ''Passw0rd123''"
proof -
  have "to_lower ''SVC_Backup'' = ''svc_backup''"
    by code_simp
  then show ?thesis by (simp add: checkCred_ssh_def lab_creds)
qed

theorem login_stays_in_a_directory_witness:
  "in_directory (newSshServer lab_ssh)
     (fst (handleSession (newSshServer lab_ssh) ''10.9.9.9:5555'' (open_session ''svc_backup'')
        [''cd /etc'', ''cd ../var/log'', ''cd syslog''] [] [(''pty-req'', []), (''shell'', [])])) \<and>
   \<not> in_directory (newSshServer lab_ssh) (open_session ''SVC_Backup'')"
proof -
  have "to_lower ''SVC_Backup'' \<noteq> ''SVC_Backup''" "\<not> equal_fold ''SVC_Backup'' ''root''"
    by code_simp+
  moreover have seg: "valid_seg ''SVC_Backup''" "valid_seg ''svc_backup''"
    by (simp_all add: valid_seg_def)
  ultimately have "\<not> in_directory (newSshServer lab_ssh) (open_session ''SVC_Backup'')"
    using login_stays_in_a_directory [OF lab_login_case refl] by blast
  moreover note login_stays_in_a_directory [OF lab_login refl, of "''10.9.9.9:5555''" "[''cd /etc'', ''cd ../var/log'', ''cd syslog'']" "[]" "[(''pty-req'', []), (''shell'', [])]"]
  ultimately show ?thesis
    using lower_lab_user seg by blast
qed

section \<open>The leaked credential\<close>

lemma leak_resolves:
  assumes "accepted_ssh (hc_acceptCredentials cfg) (hc_credStore cfg) = c # cs"
  shows "resolve_ssh (vfs_of (newSshServer cfg)) leak_path =
    Some (fileNode_ssh ''.credentials'' ''-rw-r--r--'' ''root root'' (leak_note c))"
  by (simp add: resolve_ssh_def split_leak_path vfs_of_server [OF refl] assms)

lemma rooted_leak_path: "rooted leak_path"
  by (simp add: leak_path_def has_prefix_def)

text \<open>C16. The credential the honeypot leaks, whenever it accepts any: anyone can read the note - from the shell, from
  whatever directory, or over SFTP - and each reading is reported.  A login with the user name and password it shows is
  reported too, and is accepted exactly when the last accepted credential of that user, without case, has that
  password: always when no other accepted credential shares the user name.\<close>

theorem leaked_credential_is_accepted:
  assumes "accepted_ssh (hc_acceptCredentials cfg) (hc_credStore cfg) = c # cs"
  shows "runCommand (newSshServer cfg) remote sess ''cat /root/.credentials'' =
      (sess, leak_note c, [emit_ssh (newSshServer cfg) remote
         (ssh_event FileDownload SevWarn ''SSH file read'' [''path'' \<mapsto> FStr ''/root/.credentials''])]) \<and>
    fileread (newSshServer cfg) remote ''/root/.credentials'' =
      (SftpData (leak_note c), [emit_ssh (newSshServer cfg) remote
         (ssh_event FileDownload SevWarn ''SFTP file download''
           [''path'' \<mapsto> FStr ''/root/.credentials'', ''bytes'' \<mapsto> FInt (int (length (leak_note c)))])]) \<and>
    passwordCallback (newSshServer cfg) remote (cr_username c) (cr_password c) =
      (if cr_password (last (filter (\<lambda>d. to_lower (cr_username d) = to_lower (cr_username c)) (c # cs))) = cr_password c
       then (True, emit_ssh (newSshServer cfg) remote (ssh_event AuthSuccess SevWarn ''SSH login success''
         [''username'' \<mapsto> FStr (cr_username c), ''password'' \<mapsto> FStr (cr_password c)]))
       else (False, emit_ssh (newSshServer cfg) remote (ssh_event AuthAttempt SevNotice ''SSH login failed''
         [''username'' \<mapsto> FStr (cr_username c), ''password'' \<mapsto> FStr (cr_password c)])))"
proof (intro conjI)
  note r = leak_resolves [OF assms(1)]
  have clean: "path_clean leak_path = leak_path"
    by (simp add: path_clean_rooted_ssh rooted_leak_path split_leak_path) (simp add: leak_path_def)
  have f: "str_fields ''cat /root/.credentials'' = [''cat'', leak_path]"
    unfolding leak_path_def by code_simp
  have a: "resolveAbs cwd leak_path = leak_path" for cwd
    using rooted_leak_path by (simp add: resolveAbs_def clean)
  have "\<not> has_prefix leak_path ''-''"
    by (simp add: leak_path_def has_prefix_def)
  then have "runCommand (newSshServer cfg) remote sess ''cat /root/.credentials'' =
      (sess, leak_note c, [emit_ssh (newSshServer cfg) remote
         (ssh_event FileDownload SevWarn ''SSH file read'' [''path'' \<mapsto> FStr leak_path])])"
    by (simp add: runCommand_def f dispatch_ssh_def cmdCat_def a r Let_def)
  then show "runCommand (newSshServer cfg) remote sess ''cat /root/.credentials'' =
      (sess, leak_note c, [emit_ssh (newSshServer cfg) remote
         (ssh_event FileDownload SevWarn ''SSH file read'' [''path'' \<mapsto> FStr ''/root/.credentials''])])"
    unfolding leak_path_def .
  show "fileread (newSshServer cfg) remote ''/root/.credentials'' =
      (SftpData (leak_note c), [emit_ssh (newSshServer cfg) remote
         (ssh_event FileDownload SevWarn ''SFTP file download''
           [''path'' \<mapsto> FStr ''/root/.credentials'', ''bytes'' \<mapsto> FInt (int (length (leak_note c)))])])"
    unfolding leak_path_def [symmetric] by (simp add: fileread_def clean r)
  have find_rev: "find P (rev xs) = (if filter P xs = [] then None else Some (last (filter P xs)))" for P and xs :: "credential list"
    by (induction xs rule: rev_induct) auto
  have "checkCred_ssh (newSshServer cfg) (cr_username c) (cr_password c) \<longleftrightarrow>
      cr_password (last (filter (\<lambda>d. to_lower (cr_username d) = to_lower (cr_username c)) (c # cs))) = cr_password c"
    unfolding checkCred_ssh_def newSshServer_def Let_def ssh_server.simps creds_ssh_map assms(1) find_rev by simp
  then show "passwordCallback (newSshServer cfg) remote (cr_username c) (cr_password c) =
      (if cr_password (last (filter (\<lambda>d. to_lower (cr_username d) = to_lower (cr_username c)) (c # cs))) = cr_password c
       then (True, emit_ssh (newSshServer cfg) remote (ssh_event AuthSuccess SevWarn ''SSH login success''
         [''username'' \<mapsto> FStr (cr_username c), ''password'' \<mapsto> FStr (cr_password c)]))
       else (False, emit_ssh (newSshServer cfg) remote (ssh_event AuthAttempt SevNotice ''SSH login failed''
         [''username'' \<mapsto> FStr (cr_username c), ''password'' \<mapsto> FStr (cr_password c)])))"
    by (simp add: passwordCallback_def emitAuth_ssh_def Let_def)
qed

theorem leaked_credential_is_accepted_witness:
  "fst (snd (runCommand (newSshServer lab_ssh) ''10.9.9.9:5555'' (open_session ''svc_backup'') ''cat /root/.credentials'')) =
     ''# service account hand-off'' @ [CHR 0x0A] @ ''# do not commit'' @ [CHR 0x0A] @ ''svc_backup:Passw0rd123'' @ [CHR 0x0A] \<and>
   fst (passwordCallback (newSshServer lab_ssh) ''10.9.9.9:5555'' ''svc_backup'' ''Passw0rd123'')"
  using leaked_credential_is_accepted [OF lab_accepted, of "''10.9.9.9:5555''" "open_session ''svc_backup''"]
  by (simp add: leak_note_def)

text \<open>The condition is not always met: with two accepted credentials of one user the note
  shows the first and the server accepts the last.\<close>

definition twice_ssh :: ssh_config where
  "twice_ssh = lab_ssh\<lparr>hc_credStore := Some
     [(''a'', \<lparr>cr_id = ''a'', cr_username = ''admin'', cr_password = ''one'', cr_domain = []\<rparr>),
      (''b'', \<lparr>cr_id = ''b'', cr_username = ''Admin'', cr_password = ''two'', cr_domain = []\<rparr>)]\<rparr>"

theorem leaked_credential_may_be_refused:
  "fst (fileread (newSshServer twice_ssh) [] leak_path) =
     SftpData (leak_note \<lparr>cr_id = ''a'', cr_username = ''admin'', cr_password = ''one'', cr_domain = []\<rparr>)"
  "\<not> checkCred_ssh (newSshServer twice_ssh) ''admin'' ''one''"
proof -
  have a: "accepted_ssh (hc_acceptCredentials twice_ssh) (hc_credStore twice_ssh) =
      [\<lparr>cr_id = ''a'', cr_username = ''admin'', cr_password = ''one'', cr_domain = []\<rparr>,
       \<lparr>cr_id = ''b'', cr_username = ''Admin'', cr_password = ''two'', cr_domain = []\<rparr>]"
    by code_simp
  show "fst (fileread (newSshServer twice_ssh) [] leak_path) =
     SftpData (leak_note \<lparr>cr_id = ''a'', cr_username = ''admin'', cr_password = ''one'', cr_domain = []\<rparr>)"
    by (simp add: fileread_def resolve_clean rooted_leak_path leak_resolves [OF a])
  have "to_lower ''Admin'' = ''admin''" "to_lower ''admin'' = ''admin''"
    by code_simp+
  then show "\<not> checkCred_ssh (newSshServer twice_ssh) ''admin'' ''one''"
    by (simp add: checkCred_ssh_def newSshServer_def Let_def creds_ssh_def a)
qed

text \<open>A login in another case is accepted, and starts in a directory that does not exist.\<close>

theorem mixed_case_login_has_no_home:
  "checkCred_ssh (newSshServer lab_ssh) ''SVC_Backup'' ''Passw0rd123''"
  "resolve_ssh (vfs_of (newSshServer lab_ssh)) (ss_cwd (open_session ''SVC_Backup'')) = None"
proof -
  have "to_lower ''SVC_Backup'' = ''svc_backup''"
    by code_simp
  then show "checkCred_ssh (newSshServer lab_ssh) ''SVC_Backup'' ''Passw0rd123''"
    by (simp add: checkCred_ssh_def lab_creds)
  have "ss_cwd (open_session ''SVC_Backup'') = ''/home/SVC_Backup''"
    by code_simp
  moreover have "splitPath ''/home/SVC_Backup'' = [''home'', ''SVC_Backup'']"
    by code_simp
  moreover have "''SVC_Backup'' \<notin> set (srv_users (newSshServer lab_ssh))"
    by (simp add: sorted_sort_strings lab_creds)
  ultimately show "resolve_ssh (vfs_of (newSshServer lab_ssh)) (ss_cwd (open_session ''SVC_Backup'')) = None"
    using vfs_of_sel [OF refl, of lab_ssh] by (simp add: resolve_ssh_def child_homeDir)
qed

section \<open>What a listing shows\<close>

lemma set_childNames: "set (childNames n) = fst ` set (vkids n)"
  by (simp add: childNames_def sorted_sort_strings)

lemma childNames_child: "nm \<in> set (childNames n) \<Longrightarrow> \<exists>c. child n nm = Some c"
  by (auto simp: set_childNames child_def) (metis weak_map_of_SomeI)

lemma names_ok_walk: "names_ok n \<Longrightarrow> walk_ssh n segs = Some m \<Longrightarrow> names_ok m"
  by (induction n segs rule: walk_ssh.induct) (auto split: if_splits option.splits dest: names_ok_child)

text \<open>Every name a listing of the working directory shows can be used: \<open>cd\<close> enters it when it is a
  directory, and \<open>cat\<close> prints its content when it is a file.\<close>

theorem listed_names_open:
  assumes s: "s = newSshServer cfg" and "\<forall>u \<in> fst ` set (sv_creds s). typable u"
    and dir: "in_directory s sess"
  shows "\<exists>n. resolve_ssh (vfs_of s) (ss_cwd sess) = Some n \<and>
    cmdLs s sess [] = concat (map (\<lambda>nm. nm @ [CHR 0x0A]) (filter (\<lambda>nm. \<not> has_prefix nm ''.'') (childNames n))) \<and>
    (\<forall>nm \<in> set (childNames n). \<exists>c. child n nm = Some c \<and>
       (let (sess1, out1, _) = runCommand s remote sess (''cd '' @ nm);
            (_, out2, _) = runCommand s remote sess (''cat '' @ nm)
        in if is_dir c then in_directory s sess1 \<and> resolve_ssh (vfs_of s) (ss_cwd sess1) = Some c \<and> out1 = []
           else out2 = sm_content (vmeta c)))"
proof -
  obtain n where n: "rooted (ss_cwd sess)" "resolve_ssh (vfs_of s) (ss_cwd sess) = Some n" "is_dir n"
    using dir by (auto simp: in_directory_def)
  have ok: "names_ok n"
    using names_ok_walk [OF names_ok_vfs [OF assms(1, 2)]] n(2) by (simp add: resolve_ssh_def)
  have "\<exists>c. child n nm = Some c \<and>
       (let (sess1, out1, _) = runCommand s remote sess (''cd '' @ nm);
            (_, out2, _) = runCommand s remote sess (''cat '' @ nm)
        in if is_dir c then in_directory s sess1 \<and> resolve_ssh (vfs_of s) (ss_cwd sess1) = Some c \<and> out1 = []
           else out2 = sm_content (vmeta c))" if nm: "nm \<in> set (childNames n)" for nm
  proof -
    obtain c where c: "child n nm = Some c"
      using childNames_child [OF nm] by blast
    then have t: "typable nm"
      using names_ok_child [OF ok] by blast
    then have v: "valid_seg nm" "nm \<noteq> ''~''" "\<not> has_prefix nm ''-''"
      by (simp_all add: typable_def)
    have r: "resolve_ssh (vfs_of s) (resolveAbs (ss_cwd sess) nm) = Some c"
      by (rule resolve_child [OF n c v(1, 2)])
    have "str_fields (''cd '' @ nm) = [''cd'', nm]" "str_fields (''cat '' @ nm) = [''cat'', nm]"
      using fields_command [of "''cd''" nm] fields_command [of "''cat''" nm] t by (simp_all add: is_space_def)
    then show ?thesis
      using c r v(3) n(1)
      by (simp add: runCommand_def dispatch_ssh_def cmdCd_def cmdCat_def Let_def in_directory_def resolveAbs_rooted)
  qed
  then show ?thesis
    using n(2, 3) by (intro exI [of _ n]) (simp add: cmdLs_def ls_args_def)
qed

theorem listed_names_open_witness:
  "\<exists>n. resolve_ssh (vfs_of (newSshServer lab_ssh)) ''/root'' = Some n \<and>
     cmdLs (newSshServer lab_ssh) \<lparr>ss_user = ''root'', ss_cwd = ''/root''\<rparr> [] =
       concat (map (\<lambda>nm. nm @ [CHR 0x0A]) (filter (\<lambda>nm. \<not> has_prefix nm ''.'') (childNames n)))"
proof -
  have "splitPath ''/root'' = [''root'']"
    by (simp add: splitPath_def)
  then have "in_directory (newSshServer lab_ssh) \<lparr>ss_user = ''root'', ss_cwd = ''/root''\<rparr>"
    using vfs_of_sel [OF refl, of lab_ssh]
    by (auto simp: in_directory_def resolve_ssh_def has_prefix_def)
  moreover have "\<forall>u \<in> fst ` set (sv_creds (newSshServer lab_ssh)). typable u"
    by (simp add: lab_creds typable_defs)
  ultimately show ?thesis
    using listed_names_open [OF refl, of lab_ssh "\<lparr>ss_user = ''root'', ss_cwd = ''/root''\<rparr>" "[]"] by auto
qed

section \<open>SFTP\<close>

text \<open>Reading pages of \<open>k\<close> entries one after the other yields the whole listing, and the end is
  reported exactly when nothing is left.\<close>

lemma listAt_page: "fst (listAt l k off) = take k (drop off l)" "snd (listAt l k off) \<longleftrightarrow> length l \<le> off + k \<or> length l \<le> off"
  by (auto simp: listAt_def Let_def)

lemma listAt_prefix:
  "concat (map (\<lambda>i. fst (listAt l k (i * k))) [0..<j]) = take (j * k) l"
proof (induction j)
  case (Suc j)
  have "take (Suc j * k) l = take (j * k) l @ take k (drop (j * k) l)"
    by (simp add: add.commute [of k] take_add)
  with Suc show ?case by (simp add: listAt_page)
qed simp

theorem sftp_pages_complete:
  assumes "0 < k"
  shows "\<exists>j. concat (map (\<lambda>i. fst (listAt l k (i * k))) [0..<Suc j]) = l \<and> snd (listAt l k (j * k)) \<and>
    (\<forall>i < j. \<not> snd (listAt l k (i * k)))"
proof -
  define j where "j = (if l = [] then 0 else (length l - 1) div k)"
  have "length l \<le> j * k + k"
    using dividend_less_div_times [OF assms, of "length l - 1"] by (cases l) (auto simp: j_def)
  moreover have "\<not> length l \<le> i * k + k" if "i < j" for i
  proof -
    have "Suc i * k \<le> j * k" using that by (intro mult_le_mono1) simp
    moreover have "j * k \<le> length l - 1" "l \<noteq> []"
      using that by (auto simp: j_def split: if_splits)
    ultimately show ?thesis by (cases l) auto
  qed
  ultimately show ?thesis
    using assms by (intro exI [of _ j]) (fastforce simp: listAt_prefix listAt_page(2) add.commute simp del: upt_Suc)
qed

lemma sftp_answers_agree_with_cat:
  assumes "rooted p" "\<not> has_prefix p ''-''"
  shows "(fst (fileread s remote p) = SftpData c) =
    (\<exists>n. resolve_ssh (vfs_of s) p = Some n \<and> \<not> is_dir n \<and> fst (cmdCat s remote sess [p]) = c \<and> sm_content (vmeta n) = c)"
  using assms by (auto simp: fileread_def cmdCat_def resolveAbs_def resolve_clean Let_def split: option.splits)

section \<open>Line ends\<close>

lemma crlf_lf_id: "crlf_to_lf (lf_to_crlf t) = t"
proof (induction t)
  case (Cons c t)
  have "crlf_to_lf (c # lf_to_crlf t) = c # crlf_to_lf (lf_to_crlf t)" if "c \<noteq> CHR 0x0A"
    using that by (cases t) (auto simp: lf_to_crlf_def)
  with Cons show ?case by (auto simp: lf_to_crlf_def)
qed (simp add: lf_to_crlf_def)

text \<open>The terminal gets the same text however often it is converted.\<close>

lemma normalizeNL_idem: "normalizeNL (normalizeNL s) = normalizeNL s"
  by (simp add: normalizeNL_def crlf_lf_id)

section \<open>Connections\<close>

lemma session_after_login:
  assumes "transport_sound s tries auth" "snd (handleConn_ssh s remote tries auth chans) \<noteq> []"
  shows "\<exists>u p. auth = Some u \<and> checkCred_ssh s u p \<and>
    emit_ssh s remote (ssh_event AuthSuccess SevWarn ''SSH login success''
      [''username'' \<mapsto> FStr u, ''password'' \<mapsto> FStr p]) \<in> set (fst (handleConn_ssh s remote tries auth chans))"
proof -
  obtain u where u: "auth = Some u"
    using assms(2) by (auto simp: handleConn_ssh_def split: option.splits)
  then obtain p where p: "(u, p) \<in> set tries" "checkCred_ssh s u p"
    using assms(1) by (auto simp: transport_sound_def passwordCallback_def Let_def)
  then have "snd (passwordCallback s remote u p) \<in> set (fst (handleConn_ssh s remote tries auth chans))"
    by (force simp: handleConn_ssh_def)
  with u p(2) show ?thesis
    by (auto simp: passwordCallback_def emitAuth_ssh_def Let_def)
qed

end
