(* ===== verification/Rdp_Credssp.thy ===== *)
theory Rdp_Credssp
  imports Smb_Ntlm Events
begin

text \<open>
  The wire formats of the RDP honeypot (\<open>internal/honeypot/rdp/tpkt.go\<close>, \<open>x224.go\<close>,
  \<open>credssp.go\<close>, \<open>ntlm.go\<close>): TPKT and DER framing over a stream, the CredSSP request that carries an
  NTLM message, and the challenge the server answers with.  A stream is the bytes still to come;
  \<open>None\<close> stands for every reason a read gives up (the stream ends, a length is not supported).
\<close>

unbundle bit_operations_syntax

section \<open>Reading\<close>

definition read_full :: "nat \<Rightarrow> bytes \<Rightarrow> (bytes \<times> bytes) option" where
  "read_full n s = (if n \<le> length s then Some (take n s, drop n s) else None)"

text \<open>The header bytes, the content length and the rest of the stream.\<close>

definition readASN1Length :: "bytes \<Rightarrow> (bytes \<times> nat \<times> bytes) option" where
  "readASN1Length s =
     do {
       (b, s1) \<leftarrow> read_full 1 s;
       let b0 = b ! 0;
       if b0 < 0x80 then Some (b, unat b0, s1)
       else if b0 = 0x81 then do {
         (x, s2) \<leftarrow> read_full 1 s1;
         Some (b @ [x ! 0], unat (x ! 0), s2) }
       else if b0 = 0x82 then do {
         (x, s2) \<leftarrow> read_full 2 s1;
         Some (b @ [x ! 0, x ! 1], unat (x ! 0) * 256 + unat (x ! 1), s2) }
       else None }"

definition readASN1PDU :: "bytes \<Rightarrow> byte \<Rightarrow> (bytes \<times> bool \<times> bytes) option" where
  "readASN1PDU s firstByte =
     do {
       (lenHdr, contentLen, s1) \<leftarrow> readASN1Length s;
       (body, s2) \<leftarrow> read_full contentLen s1;
       Some ([firstByte] @ lenHdr @ body, False, s2) }"

definition tpktVersion :: byte where "tpktVersion = 3"

text \<open>The payload, whether it came in a TPKT frame, and the rest of the stream.\<close>

definition readCredSSPPDU :: "bytes \<Rightarrow> (bytes \<times> bool \<times> bytes) option" where
  "readCredSSPPDU s =
     do {
       (first, s1) \<leftarrow> read_full 1 s;
       if first ! 0 = tpktVersion then do {
         (rest, s2) \<leftarrow> read_full 3 s1;
         let len = unat (be16 (rest ! 1) (rest ! 2));
         if len < 4 then None
         else do {
           (payload, s3) \<leftarrow> read_full (len - 4) s2;
           Some (payload, True, s3) } }
       else readASN1PDU s1 (first ! 0) }"

definition readTPKT :: "bytes \<Rightarrow> (bytes \<times> bytes) option" where
  "readTPKT s = map_option (\<lambda>(payload, _, rest). (payload, rest)) (readCredSSPPDU s)"

text \<open>What is written; \<open>None\<close>: the payload is too large for a frame.\<close>

definition writeTPKT :: "bytes \<Rightarrow> bytes option" where
  "writeTPKT payload =
     (let len = length payload + 4 in
      if 0xFFFF < len then None
      else Some ([tpktVersion, 0, of_nat (len div 256), of_nat len] @ payload))"

definition writeCredSSPPDU :: "bytes \<Rightarrow> bool \<Rightarrow> bytes option" where
  "writeCredSSPPDU payload tpktWrapped = (if tpktWrapped then writeTPKT payload else Some payload)"

definition isX224ConnectionRequest :: "bytes \<Rightarrow> bool" where
  "isX224ConnectionRequest payload \<longleftrightarrow> 7 \<le> length payload \<and> payload ! 1 AND 0xF0 = 0xE0"

section \<open>The NTLM message in a request\<close>

definition findNTLMType :: "bytes \<Rightarrow> u32 \<Rightarrow> bytes option" where
  "findNTLMType data want =
     (case index_of data ntlm_magic of
        None \<Rightarrow> None
      | Some idx \<Rightarrow>
          if length data < idx + 12 then None
          else if le32 data (idx + 8) \<noteq> want then None
          else Some (drop idx data))"

definition extractNTLMNegotiate :: "bytes \<Rightarrow> bytes option" where
  "extractNTLMNegotiate req = findNTLMType req 1"

definition extractNTLMAuth :: "bytes \<Rightarrow> bytes option" where
  "extractNTLMAuth req = findNTLMType req 3"

text \<open>The walk back looks at no more than the four bytes before the magic.\<close>

definition extractNegoToken :: "bytes \<Rightarrow> bytes option" where
  "extractNegoToken data =
     (case index_of data ntlm_magic of
        None \<Rightarrow> None
      | Some idx \<Rightarrow>
          (case find (\<lambda>i. data ! i = 4) (rev [idx - 4..<idx]) of
             Some i \<Rightarrow> Some (drop i data)
           | None \<Rightarrow> Some (drop idx data)))"

definition ntlmField_bytes :: "bytes \<Rightarrow> nat \<Rightarrow> bytes" where
  "ntlmField_bytes blob off =
     (if length blob < off + 8 then []
      else
        let len = unat (le16 blob off); offset = unat (le32 blob (off + 4)) in
        if len = 0 then [] else if length blob < offset + len then []
        else take len (drop offset blob))"

definition ntlmField_string :: "bytes \<Rightarrow> nat \<Rightarrow> string" where
  "ntlmField_string blob off =
     (let raw = ntlmField_bytes blob off in if length raw < 2 then [] else utf16_string raw)"

definition parseNTLMAuthFields :: "bytes \<Rightarrow> ntlm_error + (string \<times> string)" where
  "parseNTLMAuthFields ntlm =
     (if length ntlm < 52 then Inl AuthTooShort
      else if le32 ntlm 8 \<noteq> 3 then Inl NotType3
      else Inr (ntlmField_string ntlm 28, ntlmField_string ntlm 36))"

section \<open>The answer\<close>

definition asn1Build_rdp :: "byte \<Rightarrow> bytes \<Rightarrow> bytes" where
  "asn1Build_rdp tag content =
     (let l = length content;
          lenEnc = (if l < 128 then [of_nat l]
                    else if l < 256 then [0x81, of_nat l]
                    else [0x82, of_nat (l div 256), of_nat l])
      in [tag] @ lenEnc @ content)"

definition asn1CTX_rdp :: "nat \<Rightarrow> bytes \<Rightarrow> bytes" where
  "asn1CTX_rdp n content = asn1Build_rdp (of_nat (0xA0 + n)) content"

definition ntlmsspOID_rdp :: bytes where
  "ntlmsspOID_rdp = [0x2b, 0x06, 0x01, 0x04, 0x01, 0x82, 0x37, 0x02, 0x02, 0x0a]"

definition buildSPNEGOChallengeToken_rdp :: "bytes \<Rightarrow> bytes" where
  "buildSPNEGOChallengeToken_rdp ntlmChallenge =
     (let negState = asn1CTX_rdp 0 (asn1Build_rdp 0x0A [1]);
          mechOID = asn1Build_rdp 0x06 ntlmsspOID_rdp;
          supportedMech = asn1CTX_rdp 1 mechOID;
          responseToken = asn1CTX_rdp 2 (asn1Build_rdp 0x04 ntlmChallenge);
          inner = negState @ supportedMech @ responseToken
      in asn1CTX_rdp 1 (asn1Build_rdp 0x30 inner))"

definition buildTSRequestChallenge :: "bytes \<Rightarrow> bytes" where
  "buildTSRequestChallenge ntlmChallenge =
     (let spnego = buildSPNEGOChallengeToken_rdp ntlmChallenge;
          negoItem = asn1CTX_rdp 0 (asn1Build_rdp 0x04 spnego);
          negoData = asn1Build_rdp 0x30 negoItem;
          negoTokens = asn1CTX_rdp 1 negoData;
          version = asn1CTX_rdp 0 (asn1Build_rdp 0x02 [6])
      in asn1Build_rdp 0x30 (version @ negoTokens))"

definition av_rdp :: "u16 \<Rightarrow> bytes \<Rightarrow> bytes" where
  "av_rdp k val = [ucast k, ucast (drop_bit 8 k)] @ [of_nat (length val), of_nat (length val div 256)] @ val"

text \<open>\<open>now\<close> is the clock in nanoseconds since 1970.\<close>

definition buildTargetInfo_rdp :: "int \<Rightarrow> string \<Rightarrow> string \<Rightarrow> bytes" where
  "buildTargetInfo_rdp now computerName domainName =
     av_rdp 0x0002 (utf16LE domainName) @ av_rdp 0x0001 (utf16LE computerName) @
     av_rdp 0x0004 (utf16LE domainName) @ av_rdp 0x0003 (utf16LE computerName) @
     av_rdp 0x0007 (windowsFiletime now) @ av_rdp 0x0000 []"

definition buildNTLMChallenge_rdp ::
  "int \<Rightarrow> string \<Rightarrow> string \<Rightarrow> bytes \<Rightarrow> byte \<Rightarrow> byte \<Rightarrow> u16 \<Rightarrow> bytes" where
  "buildNTLMChallenge_rdp now computerName domainName challenge major minor build =
     (let targetName = utf16LE domainName;
          targetInfo = buildTargetInfo_rdp now computerName domainName;
          targetNameOff = 56 :: u32;
          targetInfoOff = targetNameOff + of_nat (length targetName)
      in stores (zeros (56 + length targetName + length targetInfo))
           [(0, ntlm_magic), (8, enc_le 4 (2 :: u32)),
            (12, enc_le 2 (of_nat (length targetName) :: u16)), (14, enc_le 2 (of_nat (length targetName) :: u16)),
            (16, enc_le 4 targetNameOff), (20, enc_le 4 (0xE28A8215 :: u32)), (24, challenge),
            (40, enc_le 2 (of_nat (length targetInfo) :: u16)), (42, enc_le 2 (of_nat (length targetInfo) :: u16)),
            (44, enc_le 4 targetInfoOff),
            (48, [major]), (49, [minor]), (50, enc_le 2 build), (55, [15]),
            (56, targetName), (56 + length targetName, targetInfo)])"

section \<open>Framing reads back what it writes\<close>

lemma read_full_append [simp]: "length a = n \<Longrightarrow> read_full n (a @ s) = Some (a, s)"
  by (simp add: read_full_def)

lemma read_full_shorter: "read_full n s = Some (a, r) \<Longrightarrow> length r = length s - n \<and> n \<le> length s \<and> length a = n"
  by (auto simp: read_full_def split: if_splits)

lemma read_full_1 [simp]: "read_full 1 (x # s) = Some ([x], s)" "read_full (Suc 0) (x # s) = Some ([x], s)"
  "read_full 2 (x # y # s) = Some ([x, y], s)" "read_full 3 (x # y # z # s) = Some ([x, y, z], s)"
  by (simp_all add: read_full_def)

lemma readCredSSPPDU_shorter: "readCredSSPPDU s = Some (p, w, r) \<Longrightarrow> length r < length s"
  unfolding readCredSSPPDU_def readASN1PDU_def readASN1Length_def Let_def
  by (auto simp: bind_eq_Some_conv split: if_splits dest!: read_full_shorter)

lemma be16_length:
  assumes "l < 65536" shows "unat (be16 (of_nat (l div 256)) (of_nat l)) = l"
proof -
  have u: "unat (of_nat l :: u16) = l"
    using assms by (simp add: unat_of_nat)
  have e1: "of_nat (l div 256) = (ucast (drop_bit 8 (of_nat l :: u16)) :: byte)"
    using assms by (simp add: word_unat_eq_iff unsigned_ucast_eq unat_drop_bit_eq unat_div u drop_bit_eq_div take_bit_eq_mod unat_of_nat del: drop_bit_of_nat)
  have e2: "of_nat l = (ucast (of_nat l :: u16) :: byte)"
    using assms by (simp add: word_unat_eq_iff unsigned_ucast_eq u take_bit_eq_mod unat_of_nat del: of_nat_unat)
  show ?thesis
    unfolding e1 e2 be16_enc16 using assms by (simp add: unat_of_nat)
qed

text \<open>Whatever the framing, the server reads back exactly what a peer with the same writer sent, says how
  it was framed, and leaves the rest of the stream alone.\<close>

theorem framing_roundtrip:
  shows "writeTPKT payload = Some w \<Longrightarrow> readCredSSPPDU (w @ rest) = Some (payload, True, rest)"
    and "tag \<noteq> tpktVersion \<Longrightarrow> length content < 65536 \<Longrightarrow>
      readCredSSPPDU (asn1Build_rdp tag content @ rest) = Some (asn1Build_rdp tag content, False, rest)"
proof -
  assume w: "writeTPKT payload = Some w"
  then have l: "length payload + 4 < 65536"
    by (auto simp: writeTPKT_def Let_def split: if_splits)
  have "unat (be16 (of_nat ((length payload + 4) div 256)) (of_nat (length payload + 4))) = length payload + 4"
    by (rule be16_length [OF l])
  then show "readCredSSPPDU (w @ rest) = Some (payload, True, rest)"
    using w by (auto simp: readCredSSPPDU_def writeTPKT_def Let_def tpktVersion_def split: if_splits)
next
  assume t: "tag \<noteq> tpktVersion" and c: "length content < 65536"
  let ?l = "length content"
  consider "?l < 128" | "128 \<le> ?l" "?l < 256" | "256 \<le> ?l" by linarith
  then show "readCredSSPPDU (asn1Build_rdp tag content @ rest) = Some (asn1Build_rdp tag content, False, rest)"
  proof cases
    case 1
    then have "(of_nat ?l :: byte) < 0x80" "unat (of_nat ?l :: byte) = ?l"
      by (simp_all add: word_less_nat_alt unat_of_nat)
    with 1 t show ?thesis
      by (simp add: readCredSSPPDU_def readASN1PDU_def readASN1Length_def asn1Build_rdp_def Let_def)
  next
    case 2
    then have "unat (of_nat ?l :: byte) = ?l"
      by (simp add: unat_of_nat)
    with 2 t show ?thesis
      by (simp add: readCredSSPPDU_def readASN1PDU_def readASN1Length_def asn1Build_rdp_def Let_def)
  next
    case 3
    have "unat (of_nat (?l div 256) :: byte) * 256 + unat (of_nat ?l :: byte) = ?l"
      using c by (simp add: unat_of_nat)
    with 3 t show ?thesis
      by (simp add: readCredSSPPDU_def readASN1PDU_def readASN1Length_def asn1Build_rdp_def Let_def del: unat_of_nat)
  qed
qed

end
