(* ===== verification/Rdp_Server.thy ===== *)
theory Rdp_Server
  imports Rdp_Credssp Responder Smb_Server
begin

text \<open>
  The RDP honeypot's connection (\<open>internal/honeypot/rdp/server.go\<close>, \<open>tls_static.go\<close>): the X.224
  negotiation, the choice between the canned TLS answer and a real handshake, and the CredSSP loop.

  TLS is library code: what a client sends inside TLS is the plaintext stream the handshake yields.
  The counters are the server's; the other observations of a connection are the record \<open>rdp_io\<close>.
\<close>

section \<open>Configuration and counters\<close>

record rdp_config =
  rc_port :: u16
  rc_computerName :: string
  rc_domainName :: string
  rc_osVersion :: string
  rc_servicesDir :: string

record rdp_stats =
  rt_connections :: nat
  rt_negotiations :: nat
  rt_tlsHandshakes :: nat
  rt_challenges :: nat
  rt_credentials :: nat

text \<open>The static TLS answers: the signatures of the JARM fingerprinter's probes.\<close>

definition hx :: "string \<Rightarrow> string" where "hx d = esc # CHR ''x'' # d"

definition jarm_pattern :: "string \<Rightarrow> string \<Rightarrow> string" where
  "jarm_pattern ver suites =
     hx ''16'' @ hx ''03'' @ hx ver @ replicate 2 dot @ hx ''01'' @ replicate 3 dot @ hx ''03'' @ hx ''03'' @
     replicate 32 dot @ hx ''20'' @ replicate 32 dot @ hx ''00'' @ hx suites"

definition jarm_probe :: "string \<Rightarrow> string \<Rightarrow> int \<Rightarrow> probe_config" where
  "jarm_probe name pat minLen =
     \<lparr>pc_name = name,
      pc_signature = \<lparr>sg_pattern = pat, sg_contains = [], sg_offset = 0, sg_minLength = minLen, sg_maxLength = 0\<rparr>,
      pc_responseFile = ''responses/tls_server_hello.bin'',
      pc_rules = [\<lparr>rr_offset = 11, rr_length = 32, rr_type = ''random'', rr_token = []\<rparr>,
                  \<lparr>rr_offset = 44, rr_length = 32, rr_type = ''echo'', rr_token = []\<rparr>],
      pc_requires = []\<rparr>"

definition jarmTLSProbes :: "probe_config list" where
  "jarmTLSProbes =
     [jarm_probe ''jarm_tls12_probes_1_2'' (jarm_pattern ''03'' ''8a'') 80,
      jarm_probe ''jarm_tls11_probe_6'' (hx ''16'' @ hx ''03'' @ hx ''02'') 50,
      jarm_probe ''jarm_tls13_probes_7_10'' (jarm_pattern ''01'' ''38'') 80]"

record static_tls =
  st_matcher :: matcher
  st_responder :: responder_state

definition newStaticTLS :: "int \<Rightarrow> int \<Rightarrow> string \<Rightarrow> static_tls" where
  "newStaticTLS now now' servicesDir =
     \<lparr>st_matcher = newProbeMatcher jarmTLSProbes Map.empty,
      st_responder = newResponderWithOptions now now'
        (if servicesDir = [] then ''services/rdp'' else servicesDir) Map.empty\<rparr>"

text \<open>\<open>None\<close> as the second component: the handshake goes on.  The responder's panic is kept apart.\<close>

definition maybeReplay :: "surrounds \<Rightarrow> files \<Rightarrow> bytes \<Rightarrow> static_tls \<Rightarrow> static_tls \<times> bytes option option" where
  "maybeReplay su fs hello s =
     (case match_first (st_matcher s) hello of
        None \<Rightarrow> (s, Some None)
      | Some m \<Rightarrow>
          (case getResponse su fs (pc_responseFile m) hello (pc_rules m) (st_responder s) of
             (r', res) \<Rightarrow>
               (s\<lparr>st_responder := r'\<rparr>,
                case res of
                  None \<Rightarrow> None
                | Some (Inl _) \<Rightarrow> Some None
                | Some (Inr resp) \<Rightarrow> if resp = [] then Some None else Some (Some resp))))"

record rdp_server =
  rv_cfg :: rdp_config
  rv_negTLS :: bytes
  rv_static :: static_tls

text \<open>\<open>New\<close>; \<open>None\<close>: the negotiation template is not there.\<close>

definition newRdpServer :: "int \<Rightarrow> int \<Rightarrow> files \<Rightarrow> rdp_config \<Rightarrow> rdp_server option" where
  "newRdpServer now now' fs cfg0 =
     (let cfg1 = (if rc_port cfg0 = 0 then cfg0\<lparr>rc_port := 3389\<rparr> else cfg0);
          cfg2 = (if rc_computerName cfg1 = [] then cfg1\<lparr>rc_computerName := ''WORKSTATION''\<rparr> else cfg1);
          cfg = (if rc_domainName cfg2 = [] then cfg2\<lparr>rc_domainName := ''WORKGROUP''\<rparr> else cfg2);
          rdpDir = path_join [rc_servicesDir cfg, ''rdp'']
      in case fs (path_join [rdpDir, ''responses'', ''rdp_neg_tls.bin'']) of
           None \<Rightarrow> None
         | Some neg \<Rightarrow> Some \<lparr>rv_cfg = cfg, rv_negTLS = neg, rv_static = newStaticTLS now now' rdpDir\<rparr>)"

definition osVersionTriple_rdp :: "string \<Rightarrow> byte \<times> byte \<times> u16" where
  "osVersionTriple_rdp v =
     (let parts = split3 v;
          num = (\<lambda>i d. if i < length parts then (case atoi_ok (parts ! i) of Some n \<Rightarrow> n | None \<Rightarrow> d) else d)
      in (word_of_int (num 0 10), word_of_int (num 1 0), word_of_int (num 2 19041)))"

section \<open>The CredSSP loop\<close>

datatype rdp_act = RdpWrite bytes | RdpEvent event

definition emit_rdp :: "rdp_config \<Rightarrow> string \<Rightarrow> event \<Rightarrow> rdp_act" where
  "emit_rdp cfg remote e = RdpEvent (splitHostPort remote (e\<lparr>ev_service := ''rdp'', ev_dstPort := rc_port cfg\<rparr>))"

definition rdp_event :: "event_type \<Rightarrow> severity \<Rightarrow> string \<Rightarrow> (string \<rightharpoonup> field_value) \<Rightarrow> event" where
  "rdp_event t sev msg fs = (blank_event t)\<lparr>ev_severity := sev, ev_message := msg, ev_fields := fs\<rparr>"

text \<open>What a connection observes: the stream before TLS, what one read returns after the negotiation,
  whether the two writes there succeed, the plaintext of a completed handshake; and in round \<open>i\<close> of the
  CredSSP loop whether the server is stopping, the write succeeds, the clock, and the random challenge.\<close>

record rdp_io =
  ri_stream :: bytes
  ri_hello :: bytes
  ri_negOk :: bool
  ri_tls :: "bytes option"
  ri_stop :: "nat \<Rightarrow> bool"
  ri_writeOk :: "nat \<Rightarrow> bool"
  ri_now :: "nat \<Rightarrow> int"
  ri_challenge :: "nat \<Rightarrow> bytes"

definition buildChallenge :: "rdp_config \<Rightarrow> rdp_io \<Rightarrow> nat \<Rightarrow> bytes" where
  "buildChallenge cfg io i =
     (let (major, minor, build) = osVersionTriple_rdp (rc_osVersion cfg)
      in buildNTLMChallenge_rdp (ri_now io i) (rc_computerName cfg) (rc_domainName cfg) (ri_challenge io i) major minor build)"

definition challenge_event :: "rdp_config \<Rightarrow> string \<Rightarrow> rdp_act" where
  "challenge_event cfg remote = emit_rdp cfg remote (rdp_event Probe SevUnset ''rdp credssp challenge''
     [''phase'' \<mapsto> FStr ''ntlm_challenge'', ''build'' \<mapsto> FStr (rc_osVersion cfg)])"

definition capture_event :: "rdp_config \<Rightarrow> string \<Rightarrow> bytes \<Rightarrow> rdp_act" where
  "capture_event cfg remote auth =
     (let (domain, user) = (case parseNTLMAuthFields auth of Inl _ \<Rightarrow> ([], []) | Inr du \<Rightarrow> du)
      in emit_rdp cfg remote (rdp_event CredCapture SevAlert ''RDP CredSSP NTLM credential captured''
           [''domain'' \<mapsto> FStr domain, ''username'' \<mapsto> FStr user, ''ntlm'' \<mapsto> FStr (hex_encode (take 64 auth))]))"

text \<open>A failing write may leave part of the answer on the wire; the loop ends and it is not shown.\<close>

function serveCredSSP ::
  "rdp_config \<Rightarrow> string \<Rightarrow> rdp_io \<Rightarrow> nat \<Rightarrow> bytes \<Rightarrow> rdp_stats \<Rightarrow> rdp_stats \<times> rdp_act list" where
  "serveCredSSP cfg remote io i s st =
     (if ri_stop io i then (st, [])
      else case readCredSSPPDU s of
        None \<Rightarrow> (st, [])
      | Some (payload, wrapped, rest) \<Rightarrow>
          if extractNTLMNegotiate payload \<noteq> None then
            (case writeCredSSPPDU (buildTSRequestChallenge (buildChallenge cfg io i)) wrapped of
               None \<Rightarrow> (st, [])
             | Some out \<Rightarrow>
                 if \<not> ri_writeOk io i then (st, [])
                 else
                   let (st', acts) = serveCredSSP cfg remote io (i + 1) rest (st\<lparr>rt_challenges := rt_challenges st + 1\<rparr>)
                   in (st', RdpWrite out # challenge_event cfg remote # acts))
          else
            (case extractNTLMAuth payload of
               Some auth \<Rightarrow> (st\<lparr>rt_credentials := rt_credentials st + 1\<rparr>, [capture_event cfg remote auth])
             | None \<Rightarrow> serveCredSSP cfg remote io (i + 1) rest st))"
  by pat_completeness auto
termination
  by (relation "measure (\<lambda>(cfg, remote, io, i, s, st). length s)") (auto dest: readCredSSPPDU_shorter)

declare serveCredSSP.simps [simp del]

text \<open>One connection, from the accept to the close.\<close>

definition handleConn_rdp ::
  "surrounds \<Rightarrow> files \<Rightarrow> rdp_server \<Rightarrow> string \<Rightarrow> rdp_io \<Rightarrow> rdp_stats \<Rightarrow> (rdp_server \<times> rdp_stats \<times> rdp_act list) option" where
  "handleConn_rdp su fs sv remote io st0 =
     (let cfg = rv_cfg sv;
          st1 = st0\<lparr>rt_connections := rt_connections st0 + 1\<rparr>;
          e1 = emit_rdp cfg remote (rdp_event Connection SevUnset ''rdp connection'' Map.empty)
      in case readTPKT (ri_stream io) of
           None \<Rightarrow> Some (sv, st1, [e1])
         | Some (payload, _) \<Rightarrow>
             if \<not> isX224ConnectionRequest payload then Some (sv, st1, [e1])
             else if \<not> ri_negOk io then Some (sv, st1, [e1])
             else
               let st2 = st1\<lparr>rt_negotiations := rt_negotiations st1 + 1\<rparr>;
                   a2 = [e1, RdpWrite (rv_negTLS sv),
                         emit_rdp cfg remote (rdp_event Probe SevUnset ''rdp x224 nego'' [''phase'' \<mapsto> FStr ''nego''])];
                   hello = take 4096 (ri_hello io)
               in if hello = [] then Some (sv, st2, a2)
                  else
                    case maybeReplay su fs hello (rv_static sv) of
                      (t', None) \<Rightarrow> None
                    | (t', Some (Some resp)) \<Rightarrow>
                        Some (sv\<lparr>rv_static := t'\<rparr>, st2,
                          a2 @ [RdpWrite resp, emit_rdp cfg remote (rdp_event Probe SevUnset ''rdp tls static replay''
                                  [''phase'' \<mapsto> FStr ''tls_jarm''])])
                    | (t', Some None) \<Rightarrow>
                        (case ri_tls io of
                           None \<Rightarrow> Some (sv\<lparr>rv_static := t'\<rparr>, st2, a2)
                         | Some ptxt \<Rightarrow>
                             let st3 = st2\<lparr>rt_tlsHandshakes := rt_tlsHandshakes st2 + 1\<rparr>;
                                 e3 = emit_rdp cfg remote (rdp_event Connection SevUnset ''rdp tls handshake completed'' Map.empty);
                                 (st4, acts) = serveCredSSP cfg remote io 0 ptxt st3
                             in Some (sv\<lparr>rv_static := t'\<rparr>, st4, a2 @ e3 # acts)))"

text \<open>\<open>prefixConn.Read\<close> into a buffer of \<open>n\<close> bytes: what it returns from the prefix, and the prefix left.\<close>

definition prefixConn_read :: "bytes \<Rightarrow> nat \<Rightarrow> (bytes \<times> bytes) option" where
  "prefixConn_read pre n = (if pre = [] then None else Some (take n pre, drop n pre))"

section \<open>The loop is a loop over messages\<close>

text \<open>\<open>framed m f\<close>: the bytes \<open>f\<close> carry the message \<open>m\<close>, whatever follows.\<close>

definition framed :: "bytes \<times> bool \<Rightarrow> bytes \<Rightarrow> bool" where
  "framed m f \<longleftrightarrow> (\<forall>rest. readCredSSPPDU (f @ rest) = Some (fst m, snd m, rest))"

lemma framed_tpkt: "writeTPKT p = Some f \<Longrightarrow> framed (p, True) f"
  by (simp add: framed_def framing_roundtrip(1))

lemma framed_der: "tag \<noteq> tpktVersion \<Longrightarrow> length c < 65536 \<Longrightarrow> framed (asn1Build_rdp tag c, False) (asn1Build_rdp tag c)"
  by (simp add: framed_def framing_roundtrip(2))

abbreviation asks :: "bytes \<times> bool \<Rightarrow> bool" where "asks m \<equiv> extractNTLMNegotiate (fst m) \<noteq> None"
abbreviation proves :: "bytes \<times> bool \<Rightarrow> bool" where "proves m \<equiv> extractNTLMAuth (fst m) \<noteq> None"

lemma asks_not_proves: "asks m \<Longrightarrow> \<not> proves m"
  by (auto simp: extractNTLMNegotiate_def extractNTLMAuth_def findNTLMType_def split: option.splits if_splits)

text \<open>A connection on which nothing fails and nobody stops the server.\<close>

definition quiet :: "rdp_config \<Rightarrow> rdp_io \<Rightarrow> bool" where
  "quiet cfg io \<longleftrightarrow> (\<forall>i. \<not> ri_stop io i \<and> ri_writeOk io i \<and> length (ri_challenge io i) = 8) \<and>
     length (utf16LE (rc_domainName cfg)) < 8192 \<and> length (utf16LE (rc_computerName cfg)) < 8192"

lemma length_asn1_rdp: "length (asn1Build_rdp t c) \<le> length c + 4"
  by (simp add: asn1Build_rdp_def Let_def)

lemma length_challenge_rdp:
  assumes "length ch = 8"
  shows "length (buildNTLMChallenge_rdp now cn dn ch a b c) = 56 + length (utf16LE dn) + length (buildTargetInfo_rdp now cn dn)"
  unfolding buildNTLMChallenge_rdp_def Let_def
  using assms by (subst length_stores) (simp_all add: ntlm_magic_def)

lemma length_targetInfo_rdp:
  "length (buildTargetInfo_rdp now cn dn) = 32 + 2 * length (utf16LE cn) + 2 * length (utf16LE dn)"
  by (simp add: buildTargetInfo_rdp_def av_rdp_def windowsFiletime_def)

lemma length_ctx_rdp: "length (asn1CTX_rdp n c) \<le> length c + 4"
  by (simp add: asn1CTX_rdp_def length_asn1_rdp)

lemma length_tsrequest: "length (buildTSRequestChallenge c) \<le> length c + 100"
proof -
  have a: "length (asn1CTX_rdp 0 (asn1Build_rdp 0x0A [1])) = 5"
    "length (asn1CTX_rdp 1 (asn1Build_rdp 0x06 ntlmsspOID_rdp)) = 14"
    "length (asn1CTX_rdp 0 (asn1Build_rdp 0x02 [6])) = 5"
    by (simp_all add: asn1CTX_rdp_def asn1Build_rdp_def ntlmsspOID_rdp_def)
  have two: "length (asn1CTX_rdp n (asn1Build_rdp t x)) \<le> length x + 8" for n t x
    using length_ctx_rdp [of n "asn1Build_rdp t x"] length_asn1_rdp [of t x] by linarith
  have s: "length (buildSPNEGOChallengeToken_rdp c) \<le> length c + 35"
    unfolding buildSPNEGOChallengeToken_rdp_def Let_def
    by (rule order.trans [OF two], unfold length_append a) (use two [of 2 4 c] in linarith)
  have n: "length (asn1CTX_rdp 1 (asn1Build_rdp 0x30 (asn1CTX_rdp 0 (asn1Build_rdp 0x04 x)))) \<le> length x + 16" for x
    using two [of 1 "0x30" "asn1CTX_rdp 0 (asn1Build_rdp 0x04 x)"] two [of 0 4 x] by linarith
  show ?thesis
    unfolding buildTSRequestChallenge_def Let_def
    using n [of "buildSPNEGOChallengeToken_rdp c"] s by (intro order.trans [OF length_asn1_rdp]) (simp add: a)
qed

definition rdp_answer :: "rdp_config \<Rightarrow> rdp_io \<Rightarrow> nat \<Rightarrow> bool \<Rightarrow> bytes" where
  "rdp_answer cfg io i w = the (writeCredSSPPDU (buildTSRequestChallenge (buildChallenge cfg io i)) w)"

lemma answer_fits: "quiet cfg io \<Longrightarrow> writeCredSSPPDU (buildTSRequestChallenge (buildChallenge cfg io i)) w = Some (rdp_answer cfg io i w)"
proof -
  assume q: "quiet cfg io"
  then have "length (buildChallenge cfg io i) \<le> 50000"
    by (auto simp: buildChallenge_def quiet_def case_prod_beta length_challenge_rdp length_targetInfo_rdp)
  then have "length (buildTSRequestChallenge (buildChallenge cfg io i)) + 4 \<le> 0xFFFF"
    using length_tsrequest [of "buildChallenge cfg io i"] by simp
  then show ?thesis
    by (simp add: rdp_answer_def writeCredSSPPDU_def writeTPKT_def Let_def)
qed

text \<open>The messages before the first authentication are the rounds of the loop; the negotiations among
  them are answered, in the framing they came in.\<close>

definition answers :: "rdp_config \<Rightarrow> string \<Rightarrow> rdp_io \<Rightarrow> nat \<Rightarrow> (bytes \<times> bool) list \<Rightarrow> rdp_act list" where
  "answers cfg remote io i ms =
     concat (map (\<lambda>(j, m). if asks m then [RdpWrite (rdp_answer cfg io j (snd m)), challenge_event cfg remote] else [])
       (zip [i..<i + length ms] ms))"

lemma serve_one:
  assumes "quiet cfg io" "framed m f"
  shows "serveCredSSP cfg remote io i (f @ rest) st =
    (if asks m then
       let (st', acts) = serveCredSSP cfg remote io (i + 1) rest (st\<lparr>rt_challenges := rt_challenges st + 1\<rparr>)
       in (st', RdpWrite (rdp_answer cfg io i (snd m)) # challenge_event cfg remote # acts)
     else case extractNTLMAuth (fst m) of
       Some auth \<Rightarrow> (st\<lparr>rt_credentials := rt_credentials st + 1\<rparr>, [capture_event cfg remote auth])
     | None \<Rightarrow> serveCredSSP cfg remote io (i + 1) rest st)"
  using assms by (subst serveCredSSP.simps) (simp add: framed_def quiet_def answer_fits [OF assms(1)])

lemma serve_before_auth:
  assumes "quiet cfg io" "list_all2 framed ms fs" "\<forall>m \<in> set ms. \<not> proves m"
  shows "serveCredSSP cfg remote io i (concat fs @ rest) st =
    (let (st', acts) = serveCredSSP cfg remote io (i + length ms) rest
           (st\<lparr>rt_challenges := rt_challenges st + length (filter asks ms)\<rparr>)
     in (st', answers cfg remote io i ms @ acts))"
  using assms(2, 3)
proof (induction ms fs arbitrary: i st rule: list_all2_induct)
  case Nil
  then show ?case by (simp add: answers_def)
next
  case (Cons m ms f fs)
  show ?case
    using Cons by (simp add: serve_one [OF assms(1)] answers_def upt_conv_Cons case_prod_beta Let_def del: upt_Suc)
qed

text \<open>C17. A client that negotiates and then authenticates, with whatever else it sends before and in either
  framing: every negotiation up to the authentication is answered in its own framing with a fresh
  challenge, the authentication is captured exactly once and counted once, and nothing after it is read.\<close>

theorem every_authentication_captured:
  assumes "quiet cfg io" "list_all2 framed ms fs" "\<forall>x \<in> set ms. \<not> proves x"
    "framed m f" "extractNTLMAuth (fst m) = Some auth"
  shows "serveCredSSP cfg remote io i (concat fs @ f @ rest) st =
    (st\<lparr>rt_challenges := rt_challenges st + length (filter asks ms), rt_credentials := rt_credentials st + 1\<rparr>,
     answers cfg remote io i ms @ [capture_event cfg remote auth])"
proof -
  have "extractNTLMNegotiate (fst m) = None"
    using asks_not_proves [of m] assms(5) by (cases "extractNTLMNegotiate (fst m)") simp_all
  then show ?thesis
    by (simp add: serve_before_auth [OF assms(1-3)] serve_one [OF assms(1, 4)] assms(5) Let_def)
qed

text \<open>At most one credential per connection, and the counters only grow.\<close>

lemma credentials_at_most_one:
  "rt_credentials (fst (serveCredSSP cfg remote io i s st)) \<in> {rt_credentials st, rt_credentials st + 1}"
proof (induction cfg remote io i s st rule: serveCredSSP.induct)
  case (1 cfg remote io i s st)
  show ?case
  proof (cases "ri_stop io i \<or> readCredSSPPDU s = None")
    case True
    then show ?thesis by (subst serveCredSSP.simps) auto
  next
    case False
    then obtain p w r where r: "readCredSSPPDU s = Some (p, w, r)" "\<not> ri_stop io i" by auto
    show ?thesis
      using "1.IH" [OF r(2) r(1) refl refl] r
      by (subst serveCredSSP.simps) (auto simp: case_prod_beta Let_def split: option.splits)
  qed
qed

section \<open>What is read from an authentication\<close>

text \<open>An authentication message as a client builds it: the 64-byte fixed part, then the two names.\<close>

definition descriptor :: "nat \<Rightarrow> nat \<Rightarrow> bytes" where
  "descriptor len off = enc_le 2 (of_nat len :: u16) @ enc_le 2 (of_nat len :: u16) @ enc_le 4 (of_nat off :: u32)"

definition auth_message :: "string \<Rightarrow> string \<Rightarrow> bytes" where
  "auth_message d u =
     (let db = utf16LE d; ub = utf16LE u in
      ntlm_magic @ enc_le 4 (3 :: u32) @ descriptor 0 0 @ descriptor 0 0 @
      descriptor (length db) 64 @ descriptor (length ub) (64 + length db) @ descriptor 0 0 @ descriptor 0 0 @
      enc_le 4 (0 :: u32) @ db @ ub)"

lemma length_descriptor [simp]: "length (descriptor l off) = 8"
  by (simp add: descriptor_def)

lemma ntlmField_at:
  assumes "blob = pre @ descriptor l off @ post" "length pre = n" "l < 65536" "off < 2 ^ 32" "off + l \<le> length blob"
  shows "ntlmField_bytes blob n = take l (drop off blob)"
proof -
  have "drop n blob = descriptor l off @ post" "drop (n + 4) blob = enc_le 4 (of_nat off :: u32) @ post"
    using assms(1, 2) by (simp_all add: descriptor_def)
  then have "le16 blob n = of_nat l" "le32 blob (n + 4) = of_nat off"
    by (simp_all add: descriptor_def)
  moreover have "unat (of_nat l :: u16) = l" "unat (of_nat off :: u32) = off"
    using assms(3, 4) by (simp_all add: unat_of_nat)
  moreover have "\<not> length blob < n + 8"
    using assms(1, 2) by simp
  ultimately show ?thesis
    using assms(5) by (simp add: ntlmField_bytes_def Let_def)
qed

lemma auth_message_read:
  assumes "ascii d" "ascii u" "length d < 30000" "length u < 30000"
  shows "parseNTLMAuthFields (auth_message d u) = Inr (d, u)"
proof -
  let ?m = "auth_message d u"
  let ?h = "ntlm_magic @ enc_le 4 (3 :: u32) @ descriptor 0 0 @ descriptor 0 0"
  let ?db = "utf16LE d" and ?ub = "utf16LE u"
  let ?t = "descriptor 0 0 @ descriptor 0 0 @ enc_le 4 (0 :: u32) @ ?db @ ?ub"
  have l: "length ?db = 2 * length d" "length ?ub = 2 * length u"
    using assms(1, 2) by (simp_all add: length_utf16LE_ascii)
  have len: "length ?m = 64 + length ?db + length ?ub"
    by (simp add: auth_message_def Let_def length_ntlm_magic)
  have "ntlmField_bytes ?m 28 = take (length ?db) (drop 64 ?m)"
    by (rule ntlmField_at [of _ ?h _ _ "descriptor (length ?ub) (64 + length ?db) @ ?t"])
      (use assms l len in \<open>simp_all add: auth_message_def Let_def length_ntlm_magic\<close>)
  moreover have "ntlmField_bytes ?m 36 = take (length ?ub) (drop (64 + length ?db) ?m)"
    by (rule ntlmField_at [of _ "?h @ descriptor (length ?db) 64" _ _ ?t])
      (use assms l len in \<open>simp_all add: auth_message_def Let_def length_ntlm_magic\<close>)
  moreover have "drop 64 ?m = ?db @ ?ub" "drop (64 + length ?db) ?m = ?ub"
    by (simp_all add: auth_message_def Let_def length_ntlm_magic)
  moreover have "le32 ?m 8 = 3"
    by (simp add: auth_message_def Let_def length_ntlm_magic)
  moreover have "s = []" if "length (utf16LE s) < 2" "ascii s" for s
    using that by (cases s) (auto simp: length_utf16LE_ascii)
  ultimately show ?thesis
    using assms len l by (auto simp: parseNTLMAuthFields_def ntlmField_string_def utf16_roundtrip Let_def)
qed

lemma auth_found:
  assumes "index_of (pre @ auth_message d u) ntlm_magic = Some (length pre)"
  shows "extractNTLMAuth (pre @ auth_message d u) = Some (auth_message d u)"
  using assms
  by (simp add: extractNTLMAuth_def findNTLMType_def) (simp add: auth_message_def Let_def length_ntlm_magic)

lemma index_of_start: "index_of (p @ s) p = Some 0"
  by (subst index_of.simps) simp

lemma auth_plain: "extractNTLMAuth (auth_message d u) = Some (auth_message d u)"
proof -
  have "index_of (auth_message d u) ntlm_magic = Some 0"
    by (simp add: auth_message_def Let_def index_of_start)
  then show ?thesis
    using auth_found [of "[]"] by simp
qed

lemma capture_shows:
  assumes "ascii d" "ascii u" "length d < 30000" "length u < 30000"
  shows "capture_event cfg remote (auth_message d u) =
    emit_rdp cfg remote (rdp_event CredCapture SevAlert ''RDP CredSSP NTLM credential captured''
      [''domain'' \<mapsto> FStr d, ''username'' \<mapsto> FStr u, ''ntlm'' \<mapsto> FStr (hex_encode (take 64 (auth_message d u)))])"
  by (simp add: capture_event_def auth_message_read [OF assms])

definition lab_rdp :: rdp_config where
  "lab_rdp = \<lparr>rc_port = 3389, rc_computerName = ''PC'', rc_domainName = ''LAB'', rc_osVersion = ''10.0.20348'', rc_servicesDir = []\<rparr>"

definition lab_io :: rdp_io where
  "lab_io = \<lparr>ri_stream = [], ri_hello = [], ri_negOk = True, ri_tls = None, ri_stop = (\<lambda>_. False), ri_writeOk = (\<lambda>_. True),
     ri_now = (\<lambda>_. 0), ri_challenge = (\<lambda>_. [1, 2, 3, 4, 5, 6, 7, 8])\<rparr>"

definition negotiate_message :: bytes where
  "negotiate_message = ntlm_magic @ enc_le 4 (1 :: u32)"

definition lab_stats :: rdp_stats where
  "lab_stats = \<lparr>rt_connections = 1, rt_negotiations = 1, rt_tlsHandshakes = 1, rt_challenges = 0, rt_credentials = 0\<rparr>"

theorem every_authentication_captured_witness:
  "serveCredSSP lab_rdp ''10.9.9.9:5555'' lab_io 0
     ([3, 0, 0, 16] @ negotiate_message @ the (writeTPKT (auth_message ''LAB'' ''bob''))) lab_stats =
   (lab_stats\<lparr>rt_challenges := 1, rt_credentials := 1\<rparr>,
    [RdpWrite (rdp_answer lab_rdp lab_io 0 True), challenge_event lab_rdp ''10.9.9.9:5555'',
     emit_rdp lab_rdp ''10.9.9.9:5555'' (rdp_event CredCapture SevAlert ''RDP CredSSP NTLM credential captured''
      [''domain'' \<mapsto> FStr ''LAB'', ''username'' \<mapsto> FStr ''bob'', ''ntlm'' \<mapsto> FStr (hex_encode (take 64 (auth_message ''LAB'' ''bob'')))])])"
proof -
  have a: "ascii ''LAB''" "ascii ''bob''" "ascii ''PC''" by simp_all
  have q: "quiet lab_rdp lab_io"
    by (simp add: quiet_def lab_rdp_def lab_io_def length_utf16LE_ascii a)
  have n: "extractNTLMNegotiate negotiate_message = Some negotiate_message"
    by (simp add: extractNTLMNegotiate_def findNTLMType_def negotiate_message_def index_of_start length_ntlm_magic)
  have "length (auth_message ''LAB'' ''bob'') = 76"
    using a by (simp add: auth_message_def Let_def length_ntlm_magic length_utf16LE_ascii)
  then obtain w where w: "writeTPKT (auth_message ''LAB'' ''bob'') = Some w"
    by (simp add: writeTPKT_def)
  have f1: "framed (negotiate_message, True) ([3, 0, 0, 16] @ negotiate_message)"
    by (rule framed_tpkt) (simp add: writeTPKT_def negotiate_message_def length_ntlm_magic tpktVersion_def)
  have e: "extractNTLMAuth (fst (auth_message ''LAB'' ''bob'', True)) = Some (auth_message ''LAB'' ''bob'')"
    by (simp add: auth_plain)
  have np: "\<not> proves (negotiate_message, True)"
    using asks_not_proves [of "(negotiate_message, True)"] n by simp
  show ?thesis
    using every_authentication_captured [OF q, of "[(negotiate_message, True)]" "[[3, 0, 0, 16] @ negotiate_message]"
        "(auth_message ''LAB'' ''bob'', True)" w _ "''10.9.9.9:5555''" 0 "[]" lab_stats, OF _ _ _ e]
      f1 np framed_tpkt [OF w] n
    by (simp add: w answers_def capture_shows lab_stats_def)
qed

section \<open>The static answer is for the fingerprinter only\<close>

lemma match_wild: "match_segments data pos (replicate n None @ segs) \<longleftrightarrow>
    pos + n \<le> length data \<and> match_segments data (pos + n) segs \<or> n = 0 \<and> match_segments data pos segs"
  by (induction n arbitrary: pos) auto

text \<open>A client hello of the given record version, with a 32-byte session id and the given length of the
  cipher suite list.\<close>

definition hello_like :: "byte \<Rightarrow> byte \<Rightarrow> bytes \<Rightarrow> bool" where
  "hello_like ver suites h \<longleftrightarrow>
     80 \<le> length h \<and> take 3 h = [0x16, 3, ver] \<and> h ! 5 = 1 \<and> h ! 9 = 3 \<and> h ! 10 = 3 \<and> h ! 43 = 0x20 \<and>
     h ! 76 = 0 \<and> h ! 77 = suites"

definition jarm_segments :: "byte \<Rightarrow> byte \<Rightarrow> segment list" where
  "jarm_segments ver suites =
     Some [0x16, 3, ver] # replicate 2 None @ Some [1] # replicate 3 None @ Some [3, 3] #
     replicate 32 None @ Some [0x20] # replicate 32 None @ [Some [0, suites]]"

lemma jarm_pattern_segments:
  "parsePatternWithWildcards (jarm_pattern ''03'' ''8a'') = jarm_segments 3 0x8A"
  "parsePatternWithWildcards (jarm_pattern ''01'' ''38'') = jarm_segments 1 0x38"
  by code_simp+

lemma jarm_segments_match:
  assumes "80 \<le> length h"
  shows "match_segments h 0 (jarm_segments ver suites) \<longleftrightarrow> hello_like ver suites h"
proof -
  have t1: "take 1 (drop i h) = [a] \<longleftrightarrow> h ! i = a" if "i < length h" for i a
    using that by (simp add: Cons_nth_drop_Suc [symmetric])
  have t2: "take 2 (drop i h) = [a, b] \<longleftrightarrow> h ! i = a \<and> h ! (i + 1) = b" if "i + 1 < length h" for i a b
    using that by (simp add: Cons_nth_drop_Suc [symmetric] numeral_2_eq_2)
  show ?thesis
    using assms
    by (simp add: jarm_segments_def hello_like_def match_wild t1 t2 flip: One_nat_def)
qed

lemma trim_none:
  assumes "p \<noteq> []" "hd p \<noteq> CHR ''^''" "last p \<noteq> CHR ''$''"
  shows "trim_suffix (trim_prefix p ''^'') ''$'' = p"
proof -
  have "\<not> has_suffix p ''$''" "\<not> has_prefix p ''^''"
    using assms by (auto simp: has_suffix_iff has_prefix_iff)
  then show ?thesis
    by (simp add: trim_suffix_def trim_prefix_def)
qed

text \<open>The canned answer goes out for the three shapes of hello of the JARM fingerprinter and for nothing
  else: any other client gets a real handshake.\<close>

theorem static_answer_exactly:
  "(match_first (newProbeMatcher jarmTLSProbes Map.empty) h \<noteq> None) \<longleftrightarrow>
     hello_like 3 0x8A h \<or> (50 \<le> length h \<and> take 3 h = [0x16, 3, 2]) \<or> hello_like 1 0x38 h"
proof -
  have d: "dot \<in> set (jarm_pattern ver suites)" for ver suites
    by (simp add: jarm_pattern_def)
  define q where "q = hx ''16'' @ hx ''03'' @ hx ''02''"
  have d2: "dot \<notin> set q"
    by (simp add: q_def hx_def esc_def)
  have t: "trim_suffix (trim_prefix p ''^'') ''$'' = p"
    if "p \<in> {jarm_pattern ''03'' ''8a'', jarm_pattern ''01'' ''38'', q}" for p
    using that by (intro trim_none) (auto simp: q_def jarm_pattern_def hx_def esc_def)
  have ne: "jarm_pattern ver suites \<noteq> []" for ver suites
    by (simp add: jarm_pattern_def hx_def)
  have c: "compile_probe (jarm_probe n p 80) = \<lparr>cp_config = jarm_probe n p 80, cp_hexPrefix = [], cp_hasWildcard = True,
      cp_segments = parsePatternWithWildcards p, cp_contains = []\<rparr>"
    if "p \<in> {jarm_pattern ''03'' ''8a'', jarm_pattern ''01'' ''38''}" for n p
    using that d t [of p] ne by (auto simp: compile_probe_def compile_pattern_def jarm_probe_def Let_def)
  have w: "matchProbe (compile_probe (jarm_probe n (jarm_pattern ver' suites') 80)) h \<longleftrightarrow> hello_like ver suites h"
    if "jarm_pattern ver' suites' \<in> {jarm_pattern ''03'' ''8a'', jarm_pattern ''01'' ''38''}"
      "parsePatternWithWildcards (jarm_pattern ver' suites') = jarm_segments ver suites" for n ver' suites' ver suites
  proof (cases "80 \<le> length h")
    case True
    then show ?thesis
      by (simp add: matchProbe_def c [OF that(1)] that(2) matchWithWildcards_def jarm_segments_match)
         (simp add: jarm_probe_def)
  next
    case False
    then show ?thesis
      by (simp add: matchProbe_def hello_like_def c [OF that(1)]) (simp add: jarm_probe_def)
  qed
  have m1: "matchProbe (compile_probe (jarm_probe n (jarm_pattern ''03'' ''8a'') 80)) h \<longleftrightarrow> hello_like 3 0x8A h" for n
    by (rule w) (simp_all add: jarm_pattern_segments)
  have m2: "matchProbe (compile_probe (jarm_probe n (jarm_pattern ''01'' ''38'') 80)) h \<longleftrightarrow> hello_like 1 0x38 h" for n
    by (rule w) (simp_all add: jarm_pattern_segments)
  have "parseHexPattern q = [0x16, 3, 2]"
    unfolding q_def by code_simp
  then have m3: "matchProbe (compile_probe (jarm_probe n q 50)) h \<longleftrightarrow>
      50 \<le> length h \<and> take 3 h = [0x16, 3, 2]" for n
    using d2
    by (auto simp: matchProbe_def compile_probe_def compile_pattern_def jarm_probe_def t Let_def starts_with_def numeral_3_eq_3)
  have r: "pc_requires (jarm_probe n p l) = []" for n p l
    by (simp add: jarm_probe_def)
  show ?thesis
    using m1 m2 m3
    by (simp add: r newProbeMatcher_def jarmTLSProbes_def probeRequirementsMet_def flip: q_def)
qed

section \<open>The same challenge as SMB\<close>

lemma enc_le_of_nat: "enc_le 2 (of_nat n :: u16) = [of_nat n, of_nat (n div 256)]"
proof -
  have "(ucast (of_nat n :: u16) :: byte) = of_nat n"
    by (rule bit_word_eqI) (simp add: bit_simps)
  moreover have "(ucast (drop_bit 8 (of_nat n :: u16)) :: byte) = of_nat (n div 256)"
  proof (rule bit_word_eqI)
    fix i assume "i < LENGTH(8)"
    moreover have "bit (n div 256) i = bit n (8 + i)"
      using bit_drop_bit_eq [of 8 n] by (simp add: drop_bit_eq_div fun_eq_iff)
    ultimately show "bit (ucast (drop_bit 8 (of_nat n :: u16)) :: byte) i = bit (of_nat (n div 256) :: byte) i"
      by (simp add: bit_simps)
  qed
  ultimately show ?thesis
    by (simp add: enc_le_simps)
qed

text \<open>Both honeypots of one host answer with the same messages, byte for byte.\<close>

theorem rdp_challenge_is_smb_challenge:
  "buildNTLMChallenge_rdp now cn dn ch major minor build = buildNTLMChallenge now cn dn ch major minor build \<and>
   buildSPNEGOChallengeToken_rdp msg = buildSPNEGOChallengeToken msg"
proof
  have "av_rdp k v = av_pair k v" for k v
    by (simp add: av_rdp_def av_pair_def enc_le_of_nat) (simp add: enc_le_simps)
  then show "buildNTLMChallenge_rdp now cn dn ch major minor build = buildNTLMChallenge now cn dn ch major minor build"
    by (simp add: buildNTLMChallenge_rdp_def buildNTLMChallenge_def buildTargetInfo_rdp_def buildTargetInfo_def ntlmFlags_def Let_def)
  have "asn1Build_rdp = asn1Build"
    by (simp add: fun_eq_iff asn1Build_rdp_def asn1Build_def Let_def)
  then show "buildSPNEGOChallengeToken_rdp msg = buildSPNEGOChallengeToken msg"
    by (simp add: buildSPNEGOChallengeToken_rdp_def buildSPNEGOChallengeToken_def asn1CTX_rdp_def asn1CTX_def
        ntlmsspOID_rdp_def ntlmsspOID_def Let_def)
qed

end
