(* ===== verification/Win_Filter.thy ===== *)
theory Win_Filter
  imports Prelude Go_Path Go_Utf16
begin

text \<open>
  The packet handlers of a Linux persona on a Windows host (\<open>internal/netfilter\<close>): the filters
  that are installed (\<open>closed_windows.go\<close>, \<open>probes_windows.go\<close>, \<open>icmp_windows.go\<close>,
  \<open>firewall_windows.go\<close>), the packets that are crafted (\<open>packet_windows.go\<close>, \<open>icmp_windows.go\<close>), and
  the loops that receive, answer or reinject.

  The capture driver is a DLL: receiving is a list of results, and its checksum helper is the
  parameter \<open>cs\<close>.  \<open>None\<close> stands for a run-time panic.
\<close>

unbundle bit_operations_syntax

section \<open>Addresses of captured packets\<close>

record wd_addr =
  wa_timestamp :: int
  wa_bitfield :: u32
  wa_reserved :: u32
  wa_union :: bytes

definition setOutbound :: "bool \<Rightarrow> wd_addr \<Rightarrow> wd_addr" where
  "setOutbound v a =
     a\<lparr>wa_bitfield := (if v then wa_bitfield a OR push_bit 17 1 else wa_bitfield a AND NOT (push_bit 17 1))\<rparr>"

definition zero_addr :: wd_addr where
  "zero_addr = \<lparr>wa_timestamp = 0, wa_bitfield = 0, wa_reserved = 0, wa_union = replicate 64 0\<rparr>"

definition freshOutboundAddr :: "wd_addr option \<Rightarrow> wd_addr" where
  "freshOutboundAddr from =
     (let out = setOutbound True zero_addr in
      case from of None \<Rightarrow> out | Some f \<Rightarrow> out\<lparr>wa_union := take 8 (wa_union f) @ drop 8 (wa_union out)\<rparr>)"

section \<open>Filters\<close>

text \<open>A filter is a text the driver compiles.\<close>

fun or_ports :: "string \<Rightarrow> u16 list \<Rightarrow> string" where
  "or_ports field [] = []"
| "or_ports field [p] = field @ '' == '' @ itoa (unat p)"
| "or_ports field (p # q # ps) = field @ '' == '' @ itoa (unat p) @ '' or '' @ or_ports field (q # ps)"

definition closedPortFilter :: "u16 list \<Rightarrow> string" where
  "closedPortFilter ports =
     ''inbound and tcp and tcp.Syn and !tcp.Ack and !loopback and ('' @ or_ports ''tcp.DstPort'' ports @ '')''"

definition linuxTProbeFlagClause :: string where
  "linuxTProbeFlagClause =
     ''('' @ ''(tcp.Ack and !tcp.Syn and !tcp.Fin and !tcp.Rst and !tcp.Psh and !tcp.Urg) or '' @
     ''(tcp.Syn and tcp.Ack and !tcp.Fin and !tcp.Rst and !tcp.Psh and !tcp.Urg)'' @ '')''"

definition linuxTProbeFilterForPorts :: "u16 list \<Rightarrow> string option" where
  "linuxTProbeFilterForPorts ports =
     (if ports = [] then None
      else Some (''inbound and tcp and !loopback and '' @ linuxTProbeFlagClause @ '' and ('' @ or_ports ''tcp.DstPort'' ports @ '')''))"

definition linuxT7ProbeFilterForPorts :: "u16 list \<Rightarrow> string option" where
  "linuxT7ProbeFilterForPorts ports =
     (if ports = [] then None
      else Some (''inbound and tcp and !loopback and tcp.Fin and !tcp.Syn and !tcp.Rst and ('' @ or_ports ''tcp.DstPort'' ports @ '')''))"

definition linuxT2T3DropFilterForPorts :: "u16 list \<Rightarrow> string option" where
  "linuxT2T3DropFilterForPorts ports =
     (if ports = [] then None
      else Some (''inbound and tcp and !loopback and ('' @
        ''(!tcp.Syn and !tcp.Ack and !tcp.Fin and !tcp.Rst and !tcp.Psh and !tcp.Urg) or '' @ ''(tcp.Syn and tcp.Fin)'' @
        '') and ('' @ or_ports ''tcp.DstPort'' ports @ '')''))"

definition udpUnreachableFilter :: "u16 list \<Rightarrow> string option" where
  "udpUnreachableFilter closedPorts =
     (let ps = filter (\<lambda>p. p \<noteq> 0) closedPorts in
      if ps = [] then None
      else Some (''inbound and udp and !loopback and ('' @ or_ports ''udp.DstPort'' ps @ '')''))"

definition mergePorts_win :: "u16 list \<Rightarrow> u16 list \<Rightarrow> u16 list" where
  "mergePorts_win a b = sort (remdups (filter (\<lambda>p. p \<noteq> 0) (a @ b)))"

definition personaDropFilter :: "u16 list \<Rightarrow> u16 list \<Rightarrow> string" where
  "personaDropFilter openPorts preservePorts =
     ''inbound and tcp and tcp.Syn and !tcp.Ack and !loopback'' @
     concat (map (\<lambda>p. '' and tcp.DstPort != '' @ itoa (unat p)) (mergePorts_win openPorts preservePorts))"

definition echo_filter :: string where
  "echo_filter = ''inbound and icmp and icmp.Type == 8 and !loopback''"

section \<open>Crafted packets\<close>

record probe_opts =
  po_ttl :: u8
  po_window :: u16
  po_ackZero :: bool
  po_rstOnly :: bool
  po_seqFromAck :: bool

abbreviation hdr_len :: "bytes \<Rightarrow> nat" where "hdr_len p \<equiv> unat (p ! 0 AND 0x0F) * 4"

definition swap4 :: "bytes \<Rightarrow> bytes option" where
  "swap4 p = do { p1 \<leftarrow> copy_at p 12 (take 4 (drop 16 p)); copy_at p1 16 (take 4 (drop 12 p)) }"

text \<open>The inner option: the packet is not one the helper handles.  The result is the packet cut to the
  length the helper returns.\<close>

definition craftProbeRST :: "bytes \<Rightarrow> probe_opts \<Rightarrow> bytes option option" where
  "craftProbeRST pkt opts =
     do {
       b0 \<leftarrow> rd8 pkt 0;
       let ttl = (if po_ttl opts = 0 then 64 else po_ttl opts);
       let ihl = hdr_len pkt;
       if length pkt < ihl + 20 \<or> drop_bit 4 b0 \<noteq> 4 then Some None
       else do {
         p1 \<leftarrow> swap4 pkt;
         let sport = take 2 (drop ihl p1);
         p2 \<leftarrow> copy_at p1 ihl (take 2 (drop (ihl + 2) p1));
         p3 \<leftarrow> copy_at p2 (ihl + 2) sport;
         clientSeq \<leftarrow> rd32 p3 (ihl + 4);
         clientAck \<leftarrow> rd32 p3 (ihl + 8);
         p4 \<leftarrow> copy_at p3 (ihl + 4) (enc32 (if po_seqFromAck opts then clientAck else 0));
         p5 \<leftarrow> copy_at p4 (ihl + 8) (enc32 (if po_ackZero opts then 0 else clientSeq + 1));
         p6 \<leftarrow> wr8 p5 (ihl + 12) 0x50;
         p7 \<leftarrow> wr8 p6 (ihl + 13) (if po_rstOnly opts then 0x04 else 0x14);
         p8 \<leftarrow> copy_at p7 (ihl + 14) (enc16 (po_window opts));
         p9 \<leftarrow> copy_at p8 2 (enc16 (of_nat (ihl + 20)));
         p10 \<leftarrow> wr8 p9 8 ttl;
         fo \<leftarrow> rd16 p10 6;
         p11 \<leftarrow> copy_at p10 6 (enc16 (fo OR 0x4000));
         p12 \<leftarrow> copy_at p11 4 [0, 0];
         p13 \<leftarrow> copy_at p12 10 [0, 0];
         p14 \<leftarrow> copy_at p13 (ihl + 16) [0, 0];
         Some (Some (take (ihl + 20) p14))
       } }"

definition craftTCPRST :: "bytes \<Rightarrow> u8 \<Rightarrow> bytes option option" where
  "craftTCPRST pkt ttl =
     craftProbeRST pkt \<lparr>po_ttl = ttl, po_window = 0, po_ackZero = False, po_rstOnly = False, po_seqFromAck = False\<rparr>"

definition linuxProbeRSTOpts :: "u8 \<Rightarrow> u8 \<Rightarrow> u16 \<Rightarrow> bool \<Rightarrow> probe_opts option" where
  "linuxProbeRSTOpts flags ttl window ackZero =
     (if flags = 0x10 then
        Some \<lparr>po_ttl = ttl, po_window = window, po_ackZero = True, po_rstOnly = True, po_seqFromAck = True\<rparr>
      else if flags = 0x02 OR 0x10 then
        Some \<lparr>po_ttl = ttl, po_window = window, po_ackZero = True, po_rstOnly = True, po_seqFromAck = True\<rparr>
      else if flags AND 0x01 = 0x01 \<and> flags AND (0x02 OR 0x04) = 0 then
        Some \<lparr>po_ttl = ttl, po_window = window, po_ackZero = False, po_rstOnly = False, po_seqFromAck = False\<rparr>
      else None)"

definition clear_df :: "bytes \<Rightarrow> bytes option" where
  "clear_df p = do { fo \<leftarrow> rd16 p 6; copy_at p 6 (enc16 (fo AND NOT 0x4000)) }"

definition craftEchoReply :: "bytes \<Rightarrow> nat \<Rightarrow> u8 \<Rightarrow> bytes option option" where
  "craftEchoReply pkt ihl ttl =
     (if length pkt < ihl + 8 then Some None
      else do {
        p1 \<leftarrow> swap4 pkt;
        p2 \<leftarrow> wr8 p1 ihl 0;
        p3 \<leftarrow> wr8 p2 8 ttl;
        p4 \<leftarrow> clear_df p3;
        p5 \<leftarrow> copy_at p4 10 [0, 0];
        p6 \<leftarrow> copy_at p5 (ihl + 2) [0, 0];
        Some (Some p6) })"

definition craftPortUnreachable :: "bytes \<Rightarrow> u8 \<Rightarrow> u8 \<Rightarrow> u8 \<Rightarrow> bool \<Rightarrow> bytes option" where
  "craftPortUnreachable orig ttl quoteSize quoteTTL quoteDF =
     (if length orig < 28 then None
      else if length orig < hdr_len orig + 8 then None
      else
        let quote = (if 548 < length orig then 548 else length orig); total = 20 + 8 + quote
        in Some ([0x45, 0, of_nat (total div 256), of_nat total, 0, 0, 0, 0, ttl, 1, 0, 0] @
                 take 4 (drop 16 orig) @ take 4 (drop 12 orig) @ [3, 3, 0, 0, 0, 0, 0, 0] @ take quote orig))"

definition isNmapU1Payload :: "bytes \<Rightarrow> bool" where
  "isNmapU1Payload pkt \<longleftrightarrow>
     28 \<le> length pkt \<and> pkt ! 9 = 17 \<and> hdr_len pkt + 8 \<le> length pkt \<and>
     length (drop (hdr_len pkt + 8) pkt) = 300 \<and> (\<forall>b \<in> set (drop (hdr_len pkt + 8) pkt). b = 0x43)"

section \<open>The loops\<close>

type_synonym wd_send = "bytes \<times> wd_addr"

text \<open>A receive that fails tells whether the responder is closing.\<close>

datatype wd_recv = RecvFail bool | Recvd bytes wd_addr

fun wd_loop :: "(bytes \<Rightarrow> wd_addr \<Rightarrow> wd_send list option) \<Rightarrow> wd_recv list \<Rightarrow> wd_send list option" where
  "wd_loop step [] = Some []"
| "wd_loop step (RecvFail closing # rs) = (if closing then Some [] else wd_loop step rs)"
| "wd_loop step (Recvd pkt addr # rs) =
     do { out \<leftarrow> step pkt addr; outs \<leftarrow> wd_loop step rs; Some (out @ outs) }"

type_synonym checksums = "bytes \<Rightarrow> wd_addr \<Rightarrow> bytes"

definition send_out :: "checksums \<Rightarrow> bytes \<Rightarrow> wd_addr \<Rightarrow> wd_send" where
  "send_out cs pkt addr = (let a = setOutbound True addr in (cs pkt a, a))"

definition echo_step :: "checksums \<Rightarrow> u8 \<Rightarrow> bytes \<Rightarrow> wd_addr \<Rightarrow> wd_send list option" where
  "echo_step cs ttl pkt addr =
     (if length pkt < 28 then Some []
      else
        let ihl = hdr_len pkt in
        if length pkt < ihl + 8 \<or> pkt ! ihl \<noteq> 8 then Some [(pkt, addr)]
        else do {
          r \<leftarrow> craftEchoReply pkt ihl ttl;
          Some [case r of None \<Rightarrow> (pkt, addr) | Some p \<Rightarrow> send_out cs p addr] })"

definition timestamp_step :: "checksums \<Rightarrow> u8 \<Rightarrow> bytes \<Rightarrow> wd_addr \<Rightarrow> wd_send list option" where
  "timestamp_step cs ttl pkt addr =
     (if length pkt < 28 then Some []
      else
        let ihl = hdr_len pkt in
        if length pkt < ihl + 8 \<or> pkt ! ihl \<noteq> 13 then Some [(pkt, addr)]
        else do {
          p1 \<leftarrow> wr8 pkt ihl 14;
          p2 \<leftarrow> wr8 p1 8 ttl;
          p3 \<leftarrow> clear_df p2;
          p4 \<leftarrow> swap4 p3;
          p5 \<leftarrow> copy_at p4 10 [0, 0];
          p6 \<leftarrow> copy_at p5 (ihl + 2) [0, 0];
          Some [send_out cs p6 addr] })"

text \<open>The answer goes out through the echo handle, which may not be open yet.\<close>

record icmp_conf =
  ic_ttl :: u8
  ic_quoteSize :: u8
  ic_quoteTTL :: u8
  ic_quoteDF :: bool
  ic_echoOpen :: bool

definition unreachable_for :: "checksums \<Rightarrow> icmp_conf \<Rightarrow> bytes \<Rightarrow> wd_addr \<Rightarrow> wd_send option" where
  "unreachable_for cs c orig addr =
     (case craftPortUnreachable orig (ic_ttl c) (ic_quoteSize c) (ic_quoteTTL c) (ic_quoteDF c) of
        None \<Rightarrow> None
      | Some pkt \<Rightarrow>
          if \<not> ic_echoOpen c then None
          else let a = freshOutboundAddr (Some addr) in Some (cs (pkt[10 := 0, 11 := 0, 22 := 0, 23 := 0]) a, a))"

definition udp_step :: "checksums \<Rightarrow> icmp_conf \<Rightarrow> bytes \<Rightarrow> wd_addr \<Rightarrow> wd_send list option" where
  "udp_step cs c pkt addr =
     (if length pkt < 28 then Some []
      else Some (case unreachable_for cs c pkt addr of None \<Rightarrow> [] | Some s \<Rightarrow> [s]))"

definition u1_step :: "checksums \<Rightarrow> icmp_conf \<Rightarrow> bytes \<Rightarrow> wd_addr \<Rightarrow> wd_send list option" where
  "u1_step cs c pkt addr =
     (if length pkt < 28 \<or> \<not> isNmapU1Payload pkt then Some [(pkt, addr)]
      else Some [case unreachable_for cs c pkt addr of None \<Rightarrow> (pkt, addr) | Some s \<Rightarrow> s])"

record probe_conf =
  pr_ttl :: u8
  pr_window :: u16
  pr_ackZero :: bool

definition respond_step :: "checksums \<Rightarrow> probe_conf \<Rightarrow> bytes \<Rightarrow> wd_addr \<Rightarrow> wd_send list option" where
  "respond_step cs c pkt addr =
     (if length pkt < 40 then Some []
      else
        let ihl = hdr_len pkt in
        if length pkt < ihl + 14 then Some [(pkt, addr)]
        else do {
          flags \<leftarrow> rd8 pkt (ihl + 13);
          urgPtr \<leftarrow> rd16 pkt (ihl + 18);
          let opts0 = linuxProbeRSTOpts flags (pr_ttl c) (pr_window c) (pr_ackZero c);
          let opts =
            (if opts0 = None \<and> flags AND (0x01 OR 0x10) = 0x11 \<and> flags AND (0x02 OR 0x04) = 0 \<and>
                (flags AND (0x20 OR 0x08) \<noteq> 0 \<or> 0 < urgPtr)
             then Some \<lparr>po_ttl = pr_ttl c, po_window = pr_window c, po_ackZero = False, po_rstOnly = False, po_seqFromAck = False\<rparr>
             else opts0);
          case opts of
            None \<Rightarrow> Some [(pkt, addr)]
          | Some o' \<Rightarrow> do {
              r \<leftarrow> craftProbeRST pkt o';
              Some [case r of None \<Rightarrow> (pkt, addr) | Some p \<Rightarrow> send_out cs p addr] } })"

definition rst_step :: "checksums \<Rightarrow> u8 \<Rightarrow> bytes \<Rightarrow> wd_addr \<Rightarrow> wd_send list option" where
  "rst_step cs ttl pkt addr =
     (if length pkt < 40 then Some []
      else do {
        r \<leftarrow> craftTCPRST pkt ttl;
        Some (case r of None \<Rightarrow> [] | Some p \<Rightarrow> [send_out cs p addr]) })"

definition drop_step :: "bytes \<Rightarrow> wd_addr \<Rightarrow> wd_send list option" where
  "drop_step pkt addr = Some []"

definition echoLoop :: "checksums \<Rightarrow> u8 \<Rightarrow> wd_recv list \<Rightarrow> wd_send list option" where
  "echoLoop cs ttl = wd_loop (echo_step cs ttl)"

definition timestampLoop :: "checksums \<Rightarrow> u8 \<Rightarrow> wd_recv list \<Rightarrow> wd_send list option" where
  "timestampLoop cs ttl = wd_loop (timestamp_step cs ttl)"

definition udpUnreachableLoop :: "checksums \<Rightarrow> icmp_conf \<Rightarrow> wd_recv list \<Rightarrow> wd_send list option" where
  "udpUnreachableLoop cs c = wd_loop (udp_step cs c)"

definition u1SignatureLoop :: "checksums \<Rightarrow> icmp_conf \<Rightarrow> wd_recv list \<Rightarrow> wd_send list option" where
  "u1SignatureLoop cs c = wd_loop (u1_step cs c)"

definition respondLoop :: "checksums \<Rightarrow> probe_conf \<Rightarrow> wd_recv list \<Rightarrow> wd_send list option" where
  "respondLoop cs c = wd_loop (respond_step cs c)"

definition rstLoop :: "checksums \<Rightarrow> u8 \<Rightarrow> wd_recv list \<Rightarrow> wd_send list option" where
  "rstLoop cs ttl = wd_loop (rst_step cs ttl)"

definition dropLoop :: "wd_recv list \<Rightarrow> wd_send list option" where
  "dropLoop = wd_loop drop_step"


section \<open>Installing and removing the handlers\<close>

text \<open>The handles to open, each with its filter and priority; \<open>opens\<close> tells whether the driver opens a
  filter.  The result is what was opened up to the first failure, and whether there was none.\<close>

type_synonym wd_handle = "string \<times> int"

fun open_all :: "(string \<Rightarrow> bool) \<Rightarrow> wd_handle list \<Rightarrow> wd_handle list \<times> bool" where
  "open_all opens [] = ([], True)"
| "open_all opens (h # hs) =
     (if opens (fst h) then let (rest, ok) = open_all opens hs in (h # rest, ok) else ([], False))"

definition probe_plan :: "u16 list \<Rightarrow> u16 list \<Rightarrow> wd_handle list" where
  "probe_plan ports t7Ports =
     (case linuxTProbeFilterForPorts ports of None \<Rightarrow> [] | Some f \<Rightarrow> [(f, 1000)]) @
     (case linuxT7ProbeFilterForPorts (if t7Ports = [] then ports else t7Ports) of None \<Rightarrow> [] | Some f \<Rightarrow> [(f, 2100)]) @
     (case linuxT2T3DropFilterForPorts ports of None \<Rightarrow> [] | Some f \<Rightarrow> [(f, 1500)])"

definition probeStart ::
  "(string \<Rightarrow> bool) \<Rightarrow> u16 list \<Rightarrow> u16 list \<Rightarrow> u8 \<Rightarrow> u16 \<Rightarrow> bool \<Rightarrow> probe_conf \<times> wd_handle list \<times> string option" where
  "probeStart opens ports t7Ports ttl window ackZero =
     (let c = \<lparr>pr_ttl = (if ttl = 0 then 64 else ttl), pr_window = window, pr_ackZero = ackZero\<rparr>;
          (hs, ok) = open_all opens (probe_plan ports t7Ports)
      in (c, hs,
          if \<not> ok then Some ''open failed''
          else if hs = [] then Some ''no ports configured for T4/T6/T7 probe response''
          else None))"

text \<open>\<open>rules\<close> tells whether the host firewall takes its rules.\<close>

definition addPorts_win ::
  "(string \<Rightarrow> bool) \<Rightarrow> bool \<Rightarrow> u16 list \<Rightarrow> u8 \<Rightarrow> bool \<Rightarrow> u8 \<times> wd_handle list \<times> string option" where
  "addPorts_win opens rules ports ttl0 linuxPersona =
     (let ttl = (if ttl0 = 0 then 64 else ttl0) in
      if ports = [] then (0, [], None)
      else if \<not> rules then (0, [], Some ''firewall rule failed'')
      else if \<not> linuxPersona then (ttl, [], None)
      else let (hs, ok) = open_all opens [(closedPortFilter ports, 0)]
           in (ttl, hs, if ok then None else Some ''closed ports (WinDivert)''))"

definition icmp_required :: "u16 list \<Rightarrow> wd_handle list" where
  "icmp_required udpClosedPorts =
     [(echo_filter, 1100), (''inbound and icmp and icmp.Type == 13 and !loopback'', 1100)] @
     (case udpUnreachableFilter udpClosedPorts of None \<Rightarrow> [] | Some f \<Rightarrow> [(f, 2000)])"

definition u1_filter :: string where
  "u1_filter = ''inbound and udp and !loopback and udp.PayloadLength == 300''"

definition icmpStart ::
  "(string \<Rightarrow> bool) \<Rightarrow> bool \<Rightarrow> u8 \<Rightarrow> u8 \<Rightarrow> u8 \<Rightarrow> bool \<Rightarrow> u16 list \<Rightarrow> icmp_conf option \<times> wd_handle list \<times> string option" where
  "icmpStart opens rules ttl0 quoteSize0 quoteTTL0 quoteDF udpClosedPorts =
     (if \<not> rules then (None, [], Some ''firewall rule failed'')
      else
        let ttl = (if ttl0 = 0 then 64 else ttl0);
            quoteSize = (if quoteSize0 = 0 then 64 else quoteSize0);
            quoteTTL = (if quoteTTL0 = 0 then ttl else quoteTTL0);
            (hs, ok) = open_all opens (icmp_required udpClosedPorts);
            c = \<lparr>ic_ttl = ttl, ic_quoteSize = quoteSize, ic_quoteTTL = quoteTTL, ic_quoteDF = quoteDF, ic_echoOpen = (hs \<noteq> [])\<rparr>
        in if \<not> ok then (Some c, hs, Some ''open failed'')
           else (Some c, hs @ (if opens u1_filter then [(u1_filter, 2050)] else []), None))"

text \<open>The persona firewall: the handles it holds, and the error of the last operation.\<close>

definition enableDrop_win :: "(string \<Rightarrow> bool) \<Rightarrow> u16 list \<Rightarrow> u16 list \<Rightarrow> wd_handle list \<Rightarrow> wd_handle list \<times> string option" where
  "enableDrop_win opens openPorts preservePorts hs =
     (let f = personaDropFilter openPorts preservePorts
      in if opens f then (hs @ [(f, 0)], None) else (hs, Some ''persona firewall (TCP drop)''))"

definition enableICMPDrop_win :: "(string \<Rightarrow> bool) \<Rightarrow> wd_handle list \<Rightarrow> wd_handle list \<times> string option" where
  "enableICMPDrop_win opens hs =
     (if opens echo_filter then (hs @ [(echo_filter, 0)], None) else (hs, Some ''persona firewall (ICMP drop)''))"

definition firewallStop_win :: "wd_handle list \<Rightarrow> wd_handle list \<times> wd_handle list" where
  "firewallStop_win hs = ([], hs)"

end
