(* ===== verification/Win_Responders.thy ===== *)
theory Win_Responders
  imports Win_Filter
begin

text \<open>
  What the packet handlers of the theory \<open>Win_Filter\<close> send: the shape of a crafted reset, the echo
  reply, the port-unreachable message, and which packets are passed on untouched.
\<close>

unbundle bit_operations_syntax

section \<open>The reset\<close>

definition client_seq :: "bytes \<Rightarrow> u32" where
  "client_seq p = (let i = hdr_len p + 4 in be32 (p ! i) (p ! (i + 1)) (p ! (i + 2)) (p ! (i + 3)))"

definition client_ack :: "bytes \<Rightarrow> u32" where
  "client_ack p = (let i = hdr_len p + 8 in be32 (p ! i) (p ! (i + 1)) (p ! (i + 2)) (p ! (i + 3)))"

definition rst_stores :: "bytes \<Rightarrow> probe_opts \<Rightarrow> (nat \<times> bytes) list" where
  "rst_stores p o' =
     (let ihl = hdr_len p in
      [(12, take 4 (drop 16 p)), (16, take 4 (drop 12 p)),
       (ihl, take 2 (drop (ihl + 2) p)), (ihl + 2, take 2 (drop ihl p)),
       (ihl + 4, enc32 (if po_seqFromAck o' then client_ack p else 0)),
       (ihl + 8, enc32 (if po_ackZero o' then 0 else client_seq p + 1)),
       (ihl + 12, [0x50]), (ihl + 13, [if po_rstOnly o' then 0x04 else 0x14]),
       (ihl + 14, enc16 (po_window o')), (2, enc16 (of_nat (ihl + 20))),
       (8, [if po_ttl o' = 0 then 64 else po_ttl o']),
       (6, enc16 (be16 (p ! 6) (p ! 7) OR 0x4000)), (4, [0, 0]), (10, [0, 0]), (ihl + 16, [0, 0])])"

text \<open>An IPv4 packet with room for the TCP header after its IP header.\<close>

definition tcp4 :: "bytes \<Rightarrow> bool" where
  "tcp4 p \<longleftrightarrow> p \<noteq> [] \<and> drop_bit 4 (p ! 0) = 4 \<and> 20 \<le> hdr_len p \<and> hdr_len p + 20 \<le> length p"

lemma copy_at_stores:
  "fits (length p) ws \<Longrightarrow> i + length xs \<le> length p \<Longrightarrow> copy_at (stores p ws) i xs = Some (stores p (ws @ [(i, xs)]))"
  by (simp add: copy_at_def) (simp add: stores_def)

lemma slice_nth: "j + k \<le> length a \<Longrightarrow> length a = length b \<Longrightarrow> take k (drop j a) = take k (drop j b) \<Longrightarrow> i < k \<Longrightarrow> a ! (j + i) = b ! (j + i)"
  by (metis add_leD1 nth_drop nth_take)

lemma nth_stores:
  assumes "fits (length p) ws" "untouched j 1 ws" "j < length p"
  shows "stores p ws ! j = p ! j"
  using slice_nth [of j 1 "stores p ws" p 0] read_untouched [OF assms(1, 2)] assms by simp

lemma untouched_part: "untouched j k ws \<Longrightarrow> i + m \<le> k \<Longrightarrow> untouched (j + i) m ws"
  by (induction j k ws rule: untouched.induct) auto

lemma rd_stores:
  assumes "fits (length p) ws"
  shows "untouched j 1 ws \<Longrightarrow> rd8 (stores p ws) j = rd8 p j"
    "untouched j 2 ws \<Longrightarrow> rd16 (stores p ws) j = rd16 p j"
    "untouched j 4 ws \<Longrightarrow> rd32 (stores p ws) j = rd32 p j"
  using assms untouched_part [of j 4 ws 0 1] untouched_part [of j 4 ws 1 1] untouched_part [of j 4 ws 2 1] untouched_part [of j 4 ws 3 1]
    untouched_part [of j 2 ws 0 1] untouched_part [of j 2 ws 1 1]
  by (simp_all add: rd8_def rd16_def rd32_def nth_stores)

lemma swap4_stores: "20 \<le> length p \<Longrightarrow> swap4 p = Some (stores p [(12, take 4 (drop 16 p)), (16, take 4 (drop 12 p))])"
  by (simp add: swap4_def panic_free)

lemma craft_as_stores:
  assumes "tcp4 p"
  shows "craftProbeRST p o' = Some (Some (take (hdr_len p + 20) (stores p (rst_stores p o'))))"
proof -
  define ihl where "ihl = hdr_len p"
  have b: "20 \<le> ihl" "ihl + 20 \<le> length p" "p \<noteq> []" "drop_bit 4 (p ! 0) = 4"
    using assms by (simp_all add: tcp4_def ihl_def)
  have len: "40 \<le> length p"
    using b by simp
  have r: "rd8 p 0 = Some (p ! 0)" "rd32 p (ihl + 4) = Some (client_seq p)" "rd32 p (ihl + 8) = Some (client_ack p)"
    "rd16 p 6 = Some (be16 (p ! 6) (p ! 7))"
    using b len by (simp_all add: panic_free client_seq_def client_ack_def ihl_def)
  show ?thesis
    unfolding craftProbeRST_def rst_stores_def ihl_def [symmetric] Let_def
    using b len
    by (simp add: r swap4_stores copy_at_stores rd_stores read_untouched del: stores_simps drop_drop take_drop)
qed

lemma rst_fits: "tcp4 p \<Longrightarrow> fits (length p) (rst_stores p o')"
  by (auto simp: rst_stores_def tcp4_def Let_def min_def)

lemma take_drop_take: "j + k \<le> n \<Longrightarrow> take k (drop j (take n b)) = take k (drop j b)"
  by (simp add: drop_take min_def)

text \<open>C18. The reset the responders send, field by field: the addresses and the ports swapped, the sequence
  number the probe's acknowledgement or zero, the acknowledgement zero or one past the probe's sequence
  number (modulo 2^32), the flags \<open>R\<close> or \<open>AR\<close>, identification zero, DF set, no options and no data.\<close>

theorem reset_shape:
  assumes "tcp4 p"
  shows "\<exists>r. craftProbeRST p o' = Some (Some r) \<and> (let ihl = hdr_len p in
    length r = ihl + 20 \<and>
    take 4 (drop 12 r) = take 4 (drop 16 p) \<and> take 4 (drop 16 r) = take 4 (drop 12 p) \<and>
    take 2 (drop ihl r) = take 2 (drop (ihl + 2) p) \<and> take 2 (drop (ihl + 2) r) = take 2 (drop ihl p) \<and>
    take 4 (drop (ihl + 4) r) = enc32 (if po_seqFromAck o' then client_ack p else 0) \<and>
    take 4 (drop (ihl + 8) r) = enc32 (if po_ackZero o' then 0 else client_seq p + 1) \<and>
    take 2 (drop (ihl + 12) r) = [0x50, if po_rstOnly o' then 0x04 else 0x14] \<and>
    take 2 (drop (ihl + 14) r) = enc16 (po_window o') \<and>
    take 2 (drop 2 r) = enc16 (of_nat (ihl + 20)) \<and> take 2 (drop 4 r) = [0, 0] \<and>
    take 2 (drop 6 r) = enc16 (be16 (p ! 6) (p ! 7) OR 0x4000) \<and>
    take 1 (drop 8 r) = [if po_ttl o' = 0 then 64 else po_ttl o'])"
proof -
  let ?ws = "rst_stores p o'" and ?ihl = "hdr_len p"
  let ?r = "take (?ihl + 20) (stores p ?ws)"
  have b: "20 \<le> ?ihl" "?ihl + 20 \<le> length p"
    using assms by (simp_all add: tcp4_def)
  have len: "length ?r = ?ihl + 20"
    using length_stores [OF rst_fits [OF assms]] b by simp
  have f: "take k (drop j ?r) = xs" if "j + k \<le> ?ihl + 20" "stored j k ?ws = Some xs" for j k xs
    using read_stored [OF rst_fits [OF assms] that(2)] that(1) by (simp add: take_drop_take)
  have two: "take 2 (drop j ?r) = take 1 (drop j ?r) @ take 1 (drop (j + 1) ?r)" for j
    using take_add [of 1 1 "drop j ?r"] by (simp add: numeral_2_eq_2 add.commute)
  note sw = rst_stores_def Let_def
  have "take 1 (drop (?ihl + 12) ?r) = [0x50]" "take 1 (drop (?ihl + 12 + 1) ?r) = [if po_rstOnly o' then 0x04 else 0x14]"
    by (rule f; use b in \<open>simp add: sw\<close>)+
  then have flags: "take 2 (drop (?ihl + 12) ?r) = [0x50, if po_rstOnly o' then 0x04 else 0x14]"
    using two [of "?ihl + 12"] by simp
  show ?thesis
    by (intro exI [of _ ?r] conjI craft_as_stores [OF assms])
      (unfold Let_def, intro conjI len flags f; use b in \<open>simp add: sw\<close>)
qed

section \<open>Which segments are answered\<close>

definition tcp_flags :: "bytes \<Rightarrow> u8" where "tcp_flags p = p ! (hdr_len p + 13)"

text \<open>The configured choice of a zero acknowledgement has no influence: the shape follows the flags.\<close>

lemma ack_zero_ignored: "linuxProbeRSTOpts flags ttl window a = linuxProbeRSTOpts flags ttl window b"
  by (simp add: linuxProbeRSTOpts_def)

text \<open>The second test of the loop, for FIN and ACK with PSH, URG or an urgent pointer, never adds a case.\<close>

lemma fin_ack_covered:
  assumes "flags AND (0x01 OR 0x10) = (0x11 :: u8)" "flags AND (0x02 OR 0x04) = 0"
  shows "linuxProbeRSTOpts flags ttl window a \<noteq> None"
proof -
  have "flags AND 0x01 = (flags AND (0x01 OR 0x10)) AND 0x01"
    by (simp add: and.assoc)
  also have "\<dots> = 0x01"
    unfolding assms(1) by simp
  finally show ?thesis
    using assms(2) by (simp add: linuxProbeRSTOpts_def)
qed

lemma respond_step_eq:
  assumes "tcp4 p"
  shows "respond_step cs c p addr =
    (case linuxProbeRSTOpts (tcp_flags p) (pr_ttl c) (pr_window c) (pr_ackZero c) of
       None \<Rightarrow> Some [(p, addr)]
     | Some o' \<Rightarrow> do { r \<leftarrow> craftProbeRST p o';
                     Some [case r of None \<Rightarrow> (p, addr) | Some q \<Rightarrow> send_out cs q addr] })"
proof -
  have b: "20 \<le> hdr_len p" "hdr_len p + 20 \<le> length p"
    using assms by (simp_all add: tcp4_def)
  have r: "rd8 p (hdr_len p + 13) = Some (tcp_flags p)" "rd16 p (hdr_len p + 18) \<noteq> None"
    using b by (simp_all add: rd8_def rd16_def tcp_flags_def)
  then obtain u where u: "rd16 p (hdr_len p + 18) = Some u"
    by auto
  show ?thesis
    using b r(1) u fin_ack_covered [of "tcp_flags p" "pr_ttl c" "pr_window c" "pr_ackZero c"]
    by (auto simp: respond_step_def Let_def)
qed

text \<open>C18. Every TCP segment over IPv4 that reaches the loop gets exactly one packet out: a reset of the shape
  its flags call for, sent outwards, or itself, untouched and in its own direction.  Only three kinds of
  segment are answered: bare ACK, SYN with ACK alone, and FIN without SYN and RST.\<close>

theorem segment_answered_or_passed:
  assumes "tcp4 p"
  shows "if tcp_flags p = 0x10 \<or> tcp_flags p = 0x12 \<or> (tcp_flags p AND 0x01 = 0x01 \<and> tcp_flags p AND 0x06 = 0)
    then \<exists>o' r. linuxProbeRSTOpts (tcp_flags p) (pr_ttl c) (pr_window c) (pr_ackZero c) = Some o' \<and>
      craftProbeRST p o' = Some (Some r) \<and> respond_step cs c p addr = Some [send_out cs r addr]
    else respond_step cs c p addr = Some [(p, addr)]"
proof -
  have lin: "linuxProbeRSTOpts (tcp_flags p) (pr_ttl c) (pr_window c) (pr_ackZero c) = None \<longleftrightarrow>
      \<not> (tcp_flags p = 0x10 \<or> tcp_flags p = 0x12 \<or> (tcp_flags p AND 0x01 = 0x01 \<and> tcp_flags p AND 0x06 = 0))"
    by (auto simp: linuxProbeRSTOpts_def)
  show ?thesis
  proof (cases "linuxProbeRSTOpts (tcp_flags p) (pr_ttl c) (pr_window c) (pr_ackZero c)")
    case None
    then show ?thesis
      using lin by (simp add: respond_step_eq [OF assms])
  next
    case (Some o')
    obtain r where r: "craftProbeRST p o' = Some (Some r)"
      using craft_as_stores [OF assms] by blast
    have "respond_step cs c p addr = Some [send_out cs r addr]"
      by (simp add: respond_step_eq [OF assms] Some r)
    moreover have "tcp_flags p = 0x10 \<or> tcp_flags p = 0x12 \<or> (tcp_flags p AND 0x01 = 0x01 \<and> tcp_flags p AND 0x06 = 0)"
      using lin Some by auto
    ultimately show ?thesis
      using Some r by auto
  qed
qed

text \<open>So the acknowledgement that completes a client's handshake with a service port in scope, and every
  later bare acknowledgement, is answered with a reset and never reaches the host.\<close>

lemma bare_ack_is_reset:
  assumes "tcp4 p" "tcp_flags p = 0x10"
  shows "\<exists>r. respond_step cs c p addr = Some [send_out cs r addr] \<and> take 1 (drop (hdr_len p + 13) r) = [0x04]"
proof -
  let ?o = "\<lparr>po_ttl = pr_ttl c, po_window = pr_window c, po_ackZero = True, po_rstOnly = True, po_seqFromAck = True\<rparr>"
  have "linuxProbeRSTOpts (tcp_flags p) (pr_ttl c) (pr_window c) (pr_ackZero c) = Some ?o"
    using assms(2) by (simp add: linuxProbeRSTOpts_def)
  moreover have "stored (hdr_len p + 13) 1 (rst_stores p ?o) = Some [0x04]"
    using assms(1) by (simp add: rst_stores_def Let_def tcp4_def)
  then have "take 1 (drop (hdr_len p + 13) (take (hdr_len p + 20) (stores p (rst_stores p ?o)))) = [0x04]"
    using read_stored [OF rst_fits [OF assms(1)]] by (simp add: take_drop_take)
  ultimately show ?thesis
    using craft_as_stores [OF assms(1), of ?o] by (auto simp: respond_step_eq [OF assms(1)])
qed

text \<open>The urgent pointer is read six bytes past the check: a packet that claims a longer IP header and
  ends inside the TCP header stops the process.\<close>

lemma respond_panics:
  assumes "40 \<le> length p" "hdr_len p + 14 \<le> length p" "length p < hdr_len p + 20"
  shows "respond_step cs c p addr = None"
proof -
  have "rd16 p (hdr_len p + 18) = None" "rd8 p (hdr_len p + 13) \<noteq> None"
    using assms by (simp_all add: rd16_def rd8_def)
  then show ?thesis
    using assms by (auto simp: respond_step_def Let_def)
qed

section \<open>Echo\<close>

definition echo_stores :: "bytes \<Rightarrow> u8 \<Rightarrow> (nat \<times> bytes) list" where
  "echo_stores p ttl =
     [(12, take 4 (drop 16 p)), (16, take 4 (drop 12 p)), (hdr_len p, [0]), (8, [ttl]),
      (6, enc16 (be16 (p ! 6) (p ! 7) AND NOT 0x4000)), (10, [0, 0]), (hdr_len p + 2, [0, 0])]"

text \<open>A ping that reaches the loop.\<close>

definition ping4 :: "bytes \<Rightarrow> bool" where
  "ping4 p \<longleftrightarrow> 20 \<le> hdr_len p \<and> hdr_len p + 8 \<le> length p \<and> p ! hdr_len p = 8"

lemma echo_as_stores:
  assumes "ping4 p"
  shows "craftEchoReply p (hdr_len p) ttl = Some (Some (stores p (echo_stores p ttl)))"
proof -
  define ihl where "ihl = hdr_len p"
  have b: "20 \<le> ihl" "ihl + 8 \<le> length p"
    using assms by (simp_all add: ping4_def ihl_def)
  have len: "28 \<le> length p" using b by simp
  have "rd16 p 6 = Some (be16 (p ! 6) (p ! 7))"
    using len by (simp add: panic_free)
  then show ?thesis
    unfolding craftEchoReply_def echo_stores_def clear_df_def ihl_def [symmetric]
    using b len by (simp add: swap4_stores copy_at_stores rd_stores del: stores_simps drop_drop take_drop)
qed

lemma drop_stores: "fits (length p) ws \<Longrightarrow> untouched n (length p - n) ws \<Longrightarrow> drop n (stores p ws) = drop n p"
  using read_untouched [of p ws n "length p - n"] length_stores [of p ws] by (cases "n \<le> length p") simp_all

text \<open>A ping is answered by one packet, sent outwards: the same identifier, sequence number and data, the
  addresses swapped, type 0 with the code kept, the persona's TTL, DF cleared, the length unchanged.\<close>

theorem ping_answered:
  assumes "ping4 p"
  shows "\<exists>r. echo_step cs ttl p addr = Some [send_out cs r addr] \<and> length r = length p \<and>
    drop (hdr_len p + 4) r = drop (hdr_len p + 4) p \<and>
    take 4 (drop 12 r) = take 4 (drop 16 p) \<and> take 4 (drop 16 r) = take 4 (drop 12 p) \<and>
    take 1 (drop (hdr_len p) r) = [0] \<and> take 1 (drop (hdr_len p + 1) r) = take 1 (drop (hdr_len p + 1) p) \<and>
    take 1 (drop 8 r) = [ttl] \<and> take 2 (drop 6 r) = enc16 (be16 (p ! 6) (p ! 7) AND NOT 0x4000)"
proof -
  define ihl where "ihl = hdr_len p"
  let ?ws = "echo_stores p ttl"
  have b: "20 \<le> ihl" "ihl + 8 \<le> length p" "p ! ihl = 8"
    using assms by (simp_all add: ping4_def ihl_def)
  note sw = echo_stores_def ihl_def [symmetric]
  have fit: "fits (length p) ?ws"
    using b by (auto simp: sw min_def)
  have "echo_step cs ttl p addr = Some [send_out cs (stores p ?ws) addr]"
    using b by (simp add: echo_step_def echo_as_stores [OF assms] ihl_def [symmetric] Let_def) (simp add: ihl_def echo_as_stores [OF assms])
  moreover have "drop (ihl + 4) (stores p ?ws) = drop (ihl + 4) p"
    by (rule drop_stores [OF fit]) (use b in \<open>auto simp: sw min_def\<close>)
  moreover have "take 1 (drop (ihl + 1) (stores p ?ws)) = take 1 (drop (ihl + 1) p)"
    by (rule read_untouched [OF fit]) (use b in \<open>auto simp: sw min_def\<close>)
  moreover have "take 4 (drop 12 (stores p ?ws)) = take 4 (drop 16 p)" "take 4 (drop 16 (stores p ?ws)) = take 4 (drop 12 p)"
    "take 1 (drop ihl (stores p ?ws)) = [0]" "take 1 (drop 8 (stores p ?ws)) = [ttl]"
    "take 2 (drop 6 (stores p ?ws)) = enc16 (be16 (p ! 6) (p ! 7) AND NOT 0x4000)"
    by (rule read_stored [OF fit]; use b in \<open>simp add: sw\<close>)+
  ultimately show ?thesis
    using length_stores [OF fit] unfolding ihl_def by blast
qed

section \<open>Port unreachable\<close>

lemma unreachable_crafted:
  "(craftPortUnreachable p ttl q qt df \<noteq> None) \<longleftrightarrow> 28 \<le> length p \<and> hdr_len p + 8 \<le> length p"
  by (auto simp: craftPortUnreachable_def Let_def)

text \<open>nmap's closed-port UDP probe, 300 bytes of \<open>C\<close> behind a plain 20-byte IP header, is answered by
  one message, whatever the port: 356 bytes with that length in the header, from the probed address to
  the prober, type 3 code 3, DF clear, the persona's TTL, and the whole probe quoted byte for byte.\<close>

theorem u1_probe_answered:
  assumes "isNmapU1Payload p" "hdr_len p = 20" "ic_echoOpen c"
  shows "\<exists>m. u1_step cs c p addr = Some [(cs m (freshOutboundAddr (Some addr)), freshOutboundAddr (Some addr))] \<and>
    length m = 356 \<and> take 2 (drop 2 m) = enc16 356 \<and> drop 28 m = p \<and>
    take 4 (drop 12 m) = take 4 (drop 16 p) \<and> take 4 (drop 16 m) = take 4 (drop 12 p) \<and>
    take 2 (drop 20 m) = [3, 3] \<and> take 2 (drop 6 m) = [0, 0] \<and> take 2 (drop 8 m) = [ic_ttl c, 1]"
proof -
  have l: "length p = 328"
    using assms(1, 2) by (auto simp: isNmapU1Payload_def)
  let ?out = "[0x45, 0, 1, 0x64, 0, 0, 0, 0, ic_ttl c, 1, 0, 0] @ take 4 (drop 16 p) @ take 4 (drop 12 p) @
    [3, 3, 0, 0, 0, 0, 0, 0] @ p"
  let ?m = "?out[10 := 0, 11 := 0, 22 := 0, 23 := 0]"
  have m: "?m = ?out"
    using l by (intro nth_equalityI) (auto simp: nth_list_update nth_append nth_Cons')
  have "craftPortUnreachable p (ic_ttl c) (ic_quoteSize c) (ic_quoteTTL c) (ic_quoteDF c) = Some ?out"
    using l assms(2) by (simp add: craftPortUnreachable_def)
  then have "u1_step cs c p addr = Some [(cs ?out (freshOutboundAddr (Some addr)), freshOutboundAddr (Some addr))]"
    using assms(1, 3) l by (simp add: u1_step_def unreachable_for_def Let_def m [simplified])
  moreover have "enc16 356 = [1, 0x64]"
    by (simp add: enc16_def)
  ultimately show ?thesis
    using l by (intro exI [of _ ?out]) simp
qed

text \<open>Any other datagram the handle catches goes on, untouched.\<close>

lemma other_datagram_passed: "\<not> isNmapU1Payload p \<Longrightarrow> u1_step cs c p addr = Some [(p, addr)]"
  by (simp add: u1_step_def)

section \<open>Witnesses\<close>

definition ack_probe :: bytes where
  "ack_probe = [0x45, 0, 0, 40, 0x12, 0x34, 0, 0, 44, 6, 0, 0, 10, 0, 0, 9, 10, 0, 0, 5] @
     [0xC0, 0x01, 0, 22, 0, 0, 0, 1, 0, 0, 0, 2, 0x50, 0x10, 4, 0, 0, 0, 0, 0]"

lemma ack_probe_ok: "tcp4 ack_probe" "tcp_flags ack_probe = 0x10" "hdr_len ack_probe = 20"
  by (simp_all add: ack_probe_def tcp4_def tcp_flags_def)

theorem reset_shape_witness:
  "\<exists>r. craftProbeRST ack_probe \<lparr>po_ttl = 64, po_window = 0, po_ackZero = True, po_rstOnly = True, po_seqFromAck = True\<rparr> = Some (Some r) \<and>
     take 2 (drop 20 r) = [0, 22] \<and> take 4 (drop 24 r) = [0, 0, 0, 2] \<and> take 2 (drop 32 r) = [0x50, 0x04]"
proof -
  have "client_ack ack_probe = 2"
    by (simp add: client_ack_def ack_probe_def be32_def)
  moreover have "enc32 2 = [0, 0, 0, 2]"
    by (simp add: enc32_def)
  ultimately show ?thesis
    using reset_shape [OF ack_probe_ok(1), of "\<lparr>po_ttl = 64, po_window = 0, po_ackZero = True, po_rstOnly = True, po_seqFromAck = True\<rparr>"]
    by (auto simp: Let_def ack_probe_ok(3)) (simp add: ack_probe_def)
qed

definition quiet_addr :: wd_addr where "quiet_addr = zero_addr"

theorem segment_answered_or_passed_witness:
  "\<exists>r. respond_step (\<lambda>p a. p) \<lparr>pr_ttl = 64, pr_window = 0, pr_ackZero = False\<rparr> ack_probe quiet_addr =
     Some [send_out (\<lambda>p a. p) r quiet_addr]"
  using segment_answered_or_passed [OF ack_probe_ok(1), of "\<lparr>pr_ttl = 64, pr_window = 0, pr_ackZero = False\<rparr>" "\<lambda>p a. p" quiet_addr]
  by (auto simp: ack_probe_ok(2))

definition u1_probe :: bytes where
  "u1_probe = [0x45, 0, 1, 0x48, 0x10, 0x42, 0, 0, 50, 17, 0xAB, 0xCD, 10, 0, 0, 9, 10, 0, 0, 5] @
     [0xA0, 0x01, 0x9C, 0x40, 1, 0x34, 0, 0] @ replicate 300 0x43"

theorem u1_probe_answered_witness:
  "\<exists>m. u1_step (\<lambda>p a. p) \<lparr>ic_ttl = 64, ic_quoteSize = 64, ic_quoteTTL = 64, ic_quoteDF = True, ic_echoOpen = True\<rparr> u1_probe quiet_addr =
     Some [(m, freshOutboundAddr (Some quiet_addr))] \<and> length m = 356"
proof -
  have "isNmapU1Payload u1_probe" "hdr_len u1_probe = 20"
    by (simp_all add: isNmapU1Payload_def u1_probe_def del: replicate.simps)
  from u1_probe_answered [OF this, of "\<lparr>ic_ttl = 64, ic_quoteSize = 64, ic_quoteTTL = 64, ic_quoteDF = True, ic_echoOpen = True\<rparr>" "\<lambda>p a. p" quiet_addr]
  show ?thesis by auto
qed

theorem ping_answered_witness:
  "\<exists>r. echo_step (\<lambda>p a. p) 64 ([0x45, 0, 0, 32, 0, 1, 0x40, 0, 128, 1, 0, 0, 10, 0, 0, 9, 10, 0, 0, 5] @
       [8, 0, 0x12, 0x34, 0, 7, 0, 1, 1, 2, 3, 4]) quiet_addr =
     Some [send_out (\<lambda>p a. p) r quiet_addr] \<and> drop 24 r = [0, 7, 0, 1, 1, 2, 3, 4]"
  using ping_answered [of "[0x45, 0, 0, 32, 0, 1, 0x40, 0, 128, 1, 0, 0, 10, 0, 0, 9, 10, 0, 0, 5] @
       [8, 0, 0x12, 0x34, 0, 7, 0, 1, 1, 2, 3, 4]" "\<lambda>p a. p" 64 quiet_addr]
  by (auto simp: ping4_def)

section \<open>What a filter matches\<close>

text \<open>The fragment of the driver's filter language the code uses, with its documented meaning: tests
  joined by \<open>and\<close>, a group of equations joined by \<open>or\<close>.  A packet is described by the flags it has and
  the values of its fields.\<close>

datatype wd_test = Has string | Lacks string | FieldEq string u16 | FieldNe string u16 | FieldIn string "u16 list"

fun test_text :: "wd_test \<Rightarrow> string" where
  "test_text (Has f) = f"
| "test_text (Lacks f) = ''!'' @ f"
| "test_text (FieldEq f v) = f @ '' == '' @ itoa (unat v)"
| "test_text (FieldNe f v) = f @ '' != '' @ itoa (unat v)"
| "test_text (FieldIn f vs) = ''('' @ or_ports f vs @ '')''"

fun filter_text :: "wd_test list \<Rightarrow> string" where
  "filter_text [] = []"
| "filter_text [t] = test_text t"
| "filter_text (t # u # ts) = test_text t @ '' and '' @ filter_text (u # ts)"

fun test_holds :: "(string \<Rightarrow> bool) \<Rightarrow> (string \<Rightarrow> u16) \<Rightarrow> wd_test \<Rightarrow> bool" where
  "test_holds fl val (Has f) = fl f"
| "test_holds fl val (Lacks f) = (\<not> fl f)"
| "test_holds fl val (FieldEq f v) = (val f = v)"
| "test_holds fl val (FieldNe f v) = (val f \<noteq> v)"
| "test_holds fl val (FieldIn f vs) = (val f \<in> set vs)"

lemma filter_text_append: "us \<noteq> [] \<Longrightarrow> filter_text (us @ ts) = filter_text us @ concat (map (\<lambda>t. '' and '' @ test_text t) ts)"
proof (induction us rule: filter_text.induct)
  case (2 t)
  show ?case
    by (induction ts arbitrary: t) simp_all
qed simp_all

definition bare_syn :: "wd_test list" where
  "bare_syn = [Has ''inbound'', Has ''tcp'', Has ''tcp.Syn'', Lacks ''tcp.Ack'', Lacks ''loopback'']"

lemma mergePorts_win_set: "set (mergePorts_win a b) = (set a \<union> set b) - {0}"
  by (auto simp: mergePorts_win_def)

text \<open>The persona firewall's filter drops exactly the inbound, non-loopback connection attempts to ports
  that are neither served nor preserved (port 0 is on neither list).\<close>

theorem persona_drops_exactly:
  "\<exists>ts. personaDropFilter openPorts preservePorts = filter_text ts \<and>
     (\<forall>fl val. (\<forall>t \<in> set ts. test_holds fl val t) \<longleftrightarrow>
       fl ''inbound'' \<and> fl ''tcp'' \<and> fl ''tcp.Syn'' \<and> \<not> fl ''tcp.Ack'' \<and> \<not> fl ''loopback'' \<and>
       val ''tcp.DstPort'' \<notin> (set openPorts \<union> set preservePorts) - {0})"
proof -
  let ?ts = "bare_syn @ map (FieldNe ''tcp.DstPort'') (mergePorts_win openPorts preservePorts)"
  have "personaDropFilter openPorts preservePorts = filter_text ?ts"
    by (subst filter_text_append) (simp_all add: bare_syn_def personaDropFilter_def o_def)
  moreover have "(\<forall>t \<in> set ?ts. test_holds fl val t) \<longleftrightarrow>
       fl ''inbound'' \<and> fl ''tcp'' \<and> fl ''tcp.Syn'' \<and> \<not> fl ''tcp.Ack'' \<and> \<not> fl ''loopback'' \<and>
       val ''tcp.DstPort'' \<notin> (set openPorts \<union> set preservePorts) - {0}" for fl val
    unfolding mergePorts_win_set [symmetric] by (auto simp: bare_syn_def)
  ultimately show ?thesis by blast
qed

text \<open>The UDP filter is an allow-list: it is installed only when a closed port is declared, and catches
  nothing but inbound datagrams to a declared port.\<close>

lemma udp_filter_exactly:
  "case udpUnreachableFilter ports of
     None \<Rightarrow> set ports \<subseteq> {0}
   | Some f \<Rightarrow> \<exists>ts. f = filter_text ts \<and> (\<forall>fl val. (\<forall>t \<in> set ts. test_holds fl val t) \<longleftrightarrow>
       fl ''inbound'' \<and> fl ''udp'' \<and> \<not> fl ''loopback'' \<and> val ''udp.DstPort'' \<in> set ports - {0})"
proof (cases "filter (\<lambda>p. p \<noteq> 0) ports = []")
  case True
  then show ?thesis
    by (auto simp: udpUnreachableFilter_def filter_empty_conv)
next
  case False
  let ?ts = "[Has ''inbound'', Has ''udp'', Lacks ''loopback'', FieldIn ''udp.DstPort'' (filter (\<lambda>p. p \<noteq> 0) ports)]"
  have "udpUnreachableFilter ports = Some (filter_text ?ts)"
    using False by (simp add: udpUnreachableFilter_def)
  then show ?thesis
    by (auto intro!: exI [of _ ?ts])
qed

text \<open>A start that fails half way leaves the handles it opened before the failure running.\<close>

lemma failed_start_keeps_handles:
  assumes "ports \<noteq> []" "opens (the (linuxTProbeFilterForPorts ports))" "\<not> opens (the (linuxT7ProbeFilterForPorts ports))"
  shows "snd (probeStart opens ports [] ttl w z) = ([(the (linuxTProbeFilterForPorts ports), 1000)], Some ''open failed'')"
  using assms by (simp add: probeStart_def probe_plan_def linuxTProbeFilterForPorts_def linuxT7ProbeFilterForPorts_def Let_def)

section \<open>What a handler may send\<close>

text \<open>The contract of the packet handlers: for a packet at most one packet is sent, and what is sent is the
  packet itself, in the direction in which it came, or an answer that leaves the host.\<close>

definition leaves_host :: "wd_addr \<Rightarrow> bool" where
  "leaves_host a \<longleftrightarrow> bit (wa_bitfield a) 17"

lemma leaves_outbound [simp]: "leaves_host (setOutbound True a)"
  by (simp add: leaves_host_def setOutbound_def bit_or_iff bit_push_bit_iff)

lemma leaves_fresh [simp]: "leaves_host (freshOutboundAddr f)"
  using leaves_outbound [of zero_addr] by (auto simp: freshOutboundAddr_def leaves_host_def Let_def split: option.splits)

lemma leaves_send_out [simp]: "send_out cs p a = (q, b) \<Longrightarrow> leaves_host b"
  by (auto simp: send_out_def Let_def)

fun received :: "wd_recv list \<Rightarrow> (bytes \<times> wd_addr) list" where
  "received [] = []"
| "received (RecvFail closing # rs) = (if closing then [] else received rs)"
| "received (Recvd p a # rs) = (p, a) # received rs"

locale packet_handler =
  fixes step :: "bytes \<Rightarrow> wd_addr \<Rightarrow> wd_send list option"
  assumes at_most_one: "step p a = Some out \<Longrightarrow> length out \<le> 1"
    and passed_or_answered: "step p a = Some out \<Longrightarrow> (q, b) \<in> set out \<Longrightarrow> (q, b) = (p, a) \<or> leaves_host b"
begin

lemma loop_sends_less: "wd_loop step rs = Some outs \<Longrightarrow> length outs \<le> length (received rs)"
  by (induction rs arbitrary: outs rule: received.induct) (fastforce split: if_splits bind_splits dest: at_most_one)+

lemma loop_never_rewrites_inwards:
  "wd_loop step rs = Some outs \<Longrightarrow> (q, b) \<in> set outs \<Longrightarrow> \<not> leaves_host b \<Longrightarrow> (q, b) \<in> set (received rs)"
  by (induction rs arbitrary: outs rule: received.induct) (fastforce split: if_splits bind_splits dest: passed_or_answered)+

end

text \<open>A handler that consumes no packet of at least \<open>least\<close> bytes.\<close>

locale passing_handler = packet_handler +
  fixes least :: nat
  assumes never_consumed: "step p a = Some out \<Longrightarrow> least \<le> length p \<Longrightarrow> out \<noteq> []"
begin

lemma loop_sends_as_many:
  "wd_loop step rs = Some outs \<Longrightarrow> \<forall>(p, a) \<in> set (received rs). least \<le> length p \<Longrightarrow> length outs = length (received rs)"
proof (induction rs arbitrary: outs rule: received.induct)
  case (3 p a rs)
  then obtain out outs' where o: "step p a = Some out" "wd_loop step rs = Some outs'" "outs = out @ outs'"
    by (auto split: bind_splits)
  have "length out = 1"
    using at_most_one [OF o(1)] never_consumed [OF o(1)] "3.prems"(2) by (cases out) auto
  then show ?case
    using 3 o by simp
qed (auto split: if_splits)

end

lemma respond_out: "respond_step cs c p a = Some out \<Longrightarrow> length p < 40 \<and> out = [] \<or> out = [(p, a)] \<or> (\<exists>q. out = [send_out cs q a])"
  by (auto simp: respond_step_def Let_def split: if_splits bind_splits option.splits)

lemma echo_out: "echo_step cs ttl p a = Some out \<Longrightarrow> length p < 28 \<and> out = [] \<or> out = [(p, a)] \<or> (\<exists>q. out = [send_out cs q a])"
  by (auto simp: echo_step_def Let_def split: if_splits bind_splits option.splits)

lemma timestamp_out: "timestamp_step cs ttl p a = Some out \<Longrightarrow> length p < 28 \<and> out = [] \<or> out = [(p, a)] \<or> (\<exists>q. out = [send_out cs q a])"
  by (auto simp: timestamp_step_def Let_def split: if_splits bind_splits)

lemma unreachable_leaves: "unreachable_for cs c p a = Some (q, b) \<Longrightarrow> leaves_host b"
  by (auto simp: unreachable_for_def Let_def split: option.splits if_splits)

interpretation probes: passing_handler "respond_step cs c" 40 for cs c
  by unfold_locales (auto dest!: respond_out dest: leaves_send_out [OF sym])

interpretation echoes: passing_handler "echo_step cs ttl" 28 for cs ttl
  by unfold_locales (auto dest!: echo_out dest: leaves_send_out [OF sym])

interpretation timestamps: passing_handler "timestamp_step cs ttl" 28 for cs ttl
  by unfold_locales (auto dest!: timestamp_out dest: leaves_send_out [OF sym])

interpretation u1: passing_handler "u1_step cs c" 0 for cs c
  by unfold_locales (auto simp: u1_step_def split: if_splits option.splits dest: unreachable_leaves)

interpretation udp: packet_handler "udp_step cs c" for cs c
  by unfold_locales (auto simp: udp_step_def split: if_splits option.splits dest: unreachable_leaves)

interpretation resets: packet_handler "rst_step cs ttl" for cs ttl
  by unfold_locales (auto simp: rst_step_def split: if_splits option.splits bind_splits dest: leaves_send_out [OF sym])

interpretation drops: packet_handler drop_step
  by unfold_locales (auto simp: drop_step_def)

text \<open>So no loop hands a rewritten packet to the host's own stack: whatever reaches it is a packet that came
  in, untouched; and the probe responder neither loses nor adds a packet.\<close>

lemma inward_packets_untouched:
  assumes "respondLoop cs c rs = Some outs \<or> echoLoop cs ttl rs = Some outs \<or> timestampLoop cs ttl rs = Some outs \<or>
      u1SignatureLoop cs d rs = Some outs \<or> udpUnreachableLoop cs d rs = Some outs \<or> rstLoop cs ttl rs = Some outs \<or> dropLoop rs = Some outs"
    "(q, b) \<in> set outs" "\<not> leaves_host b"
  shows "(q, b) \<in> set (received rs)"
  using assms unfolding respondLoop_def echoLoop_def timestampLoop_def u1SignatureLoop_def udpUnreachableLoop_def rstLoop_def dropLoop_def
  by (metis probes.loop_never_rewrites_inwards echoes.loop_never_rewrites_inwards timestamps.loop_never_rewrites_inwards
      u1.loop_never_rewrites_inwards udp.loop_never_rewrites_inwards resets.loop_never_rewrites_inwards drops.loop_never_rewrites_inwards)

lemma responder_conserves:
  assumes "respondLoop cs c rs = Some outs" "\<forall>(p, a) \<in> set (received rs). 40 \<le> length p"
  shows "length outs = length (received rs)"
  using probes.loop_sends_as_many assms unfolding respondLoop_def by blast

end
