(* ===== verification/Capture_Session.thy ===== *)
theory Capture_Session
  imports Prelude Go_Time Go_Path
begin

text \<open>
  Recording a real host (\<open>internal/capture/session.go\<close>, \<open>pcap.go\<close>): the flows of a packet capture,
  their sessions, and the pairing of what a client sent with what the server answered.

  Packets are decoded by a library; a decoded packet is the record \<open>dpacket\<close>, with addresses in the
  text form the code compares and prints.  A map is an association list; where the code iterates over
  one, the order is that of insertion, which stands for any order.
\<close>

section \<open>Flows and sessions\<close>

record flow_key =
  fk_protocol :: string
  fk_clientIP :: string
  fk_clientPort :: u16
  fk_serverIP :: string
  fk_serverPort :: u16

definition port_text :: "u16 \<Rightarrow> string" where "port_text p = itoa (unat p)"

definition flow_string :: "flow_key \<Rightarrow> string" where
  "flow_string f = fk_clientIP f @ '':'' @ port_text (fk_clientPort f) @ '' -> '' @ fk_serverIP f @ '':'' @
     port_text (fk_serverPort f) @ '' ('' @ fk_protocol f @ '')''"

definition trackerKey :: "flow_key \<Rightarrow> string" where
  "trackerKey f =
     (if fk_protocol f = ''udp'' \<and> fk_serverPort f = 5355 then ''llmnr:'' @ fk_clientIP f @ '':'' @ fk_serverIP f
      else flow_string f)"

definition flow_reverse :: "flow_key \<Rightarrow> flow_key" where
  "flow_reverse f = \<lparr>fk_protocol = fk_protocol f, fk_clientIP = fk_serverIP f, fk_clientPort = fk_serverPort f,
     fk_serverIP = fk_clientIP f, fk_serverPort = fk_clientPort f\<rparr>"

datatype direction = DirectionInbound | DirectionOutbound

record cap_packet =
  cap_time :: time
  cap_dir :: direction
  cap_data :: bytes
  cap_flags :: u8
  cap_seq :: u32
  cap_ack :: u32

record exchange =
  ex_index :: nat
  ex_probe :: bytes
  ex_response :: bytes
  ex_probeTime :: time
  ex_responseTime :: time
  ex_probePackets :: "cap_packet list"
  ex_responsePackets :: "cap_packet list"

record cap_session =
  cs_key :: flow_key
  cs_start :: time
  cs_end :: time
  cs_packets :: "cap_packet list"
  cs_exchanges :: "exchange list"

definition newSession_cap :: "time \<Rightarrow> flow_key \<Rightarrow> cap_session" where
  "newSession_cap now key = \<lparr>cs_key = key, cs_start = now, cs_end = 0, cs_packets = [], cs_exchanges = []\<rparr>"

definition addPacket :: "cap_packet \<Rightarrow> cap_session \<Rightarrow> cap_session" where
  "addPacket p s = s\<lparr>cs_packets := cs_packets s @ [p], cs_end := cap_time p\<rparr>"

section \<open>Pairing probes and responses\<close>

record extract_state =
  xs_done :: "exchange list"
  xs_current :: "exchange option"
  xs_index :: nat
  xs_seenIn :: "bytes list"
  xs_seenOut :: "bytes list"

definition new_exchange :: "nat \<Rightarrow> time \<Rightarrow> exchange" where
  "new_exchange i t = \<lparr>ex_index = i, ex_probe = [], ex_response = [], ex_probeTime = t, ex_responseTime = 0,
     ex_probePackets = [], ex_responsePackets = []\<rparr>"

definition add_probe :: "cap_packet \<Rightarrow> exchange \<Rightarrow> exchange" where
  "add_probe p e = e\<lparr>ex_probe := ex_probe e @ cap_data p, ex_probePackets := ex_probePackets e @ [p]\<rparr>"

definition add_response :: "cap_packet \<Rightarrow> exchange \<Rightarrow> exchange" where
  "add_response p e = e\<lparr>ex_responseTime := (if ex_responseTime e = 0 then cap_time p else ex_responseTime e),
     ex_response := ex_response e @ cap_data p, ex_responsePackets := ex_responsePackets e @ [p]\<rparr>"

definition extract_step :: "extract_state \<Rightarrow> cap_packet \<Rightarrow> extract_state" where
  "extract_step s p =
     (if cap_data p = [] then s
      else if cap_dir p = DirectionInbound then
        (if cap_data p \<in> set (xs_seenIn s) then s
         else
           let s1 = s\<lparr>xs_seenIn := cap_data p # xs_seenIn s\<rparr> in
           case xs_current s1 of
             None \<Rightarrow> s1\<lparr>xs_current := Some (add_probe p (new_exchange (xs_index s1) (cap_time p))), xs_index := xs_index s1 + 1\<rparr>
           | Some e \<Rightarrow>
               if ex_response e \<noteq> [] then
                 s1\<lparr>xs_done := xs_done s1 @ [e],
                    xs_current := Some (add_probe p (new_exchange (xs_index s1) (cap_time p))), xs_index := xs_index s1 + 1\<rparr>
               else s1\<lparr>xs_current := Some (add_probe p e)\<rparr>)
      else
        (if cap_data p \<in> set (xs_seenOut s) then s
         else
           let s1 = s\<lparr>xs_seenOut := cap_data p # xs_seenOut s\<rparr> in
           case xs_current s1 of
             None \<Rightarrow> s1
           | Some e \<Rightarrow> s1\<lparr>xs_current := Some (add_response p e)\<rparr>))"

definition extract_finish :: "extract_state \<Rightarrow> exchange list" where
  "extract_finish s = xs_done s @ (case xs_current s of None \<Rightarrow> [] | Some e \<Rightarrow> if ex_probe e \<noteq> [] then [e] else [])"

text \<open>The packets of an LLMNR session are put in order of time first (the code's sort leaves the order of
  packets with equal times open).\<close>

definition ordered_packets :: "cap_session \<Rightarrow> cap_packet list" where
  "ordered_packets s =
     (if fk_protocol (cs_key s) = ''udp'' \<and> fk_serverPort (cs_key s) = 5355 \<and> 1 < length (cs_packets s)
      then sort_key cap_time (cs_packets s) else cs_packets s)"

definition extract_start :: extract_state where
  "extract_start = \<lparr>xs_done = [], xs_current = None, xs_index = 0, xs_seenIn = [], xs_seenOut = []\<rparr>"

definition new_exchanges :: "cap_session \<Rightarrow> exchange list" where
  "new_exchanges s = extract_finish (foldl extract_step extract_start (ordered_packets s))"

definition extractExchanges :: "cap_session \<Rightarrow> cap_session" where
  "extractExchanges s = (if cs_packets s = [] then s else s\<lparr>cs_exchanges := cs_exchanges s @ new_exchanges s\<rparr>)"

section \<open>The tracker\<close>

record tracker =
  tk_sessions :: "(string \<times> cap_session) list"
  tk_ports :: "u16 set"
  tk_timeout :: duration

definition newSessionTracker :: "u16 list \<Rightarrow> duration \<Rightarrow> tracker" where
  "newSessionTracker ports timeout = \<lparr>tk_sessions = [], tk_ports = set ports, tk_timeout = timeout\<rparr>"

definition shouldCapture :: "tracker \<Rightarrow> u16 \<Rightarrow> bool" where
  "shouldCapture t p \<longleftrightarrow> tk_ports t = {} \<or> p \<in> tk_ports t"

definition getSession :: "tracker \<Rightarrow> flow_key \<Rightarrow> cap_session option" where
  "getSession t k = map_of (tk_sessions t) (trackerKey k)"

text \<open>\<open>GetOrCreateSession\<close> hands out a pointer, through which the caller adds a packet: here the two
  steps are one.\<close>

definition add_to_session :: "time \<Rightarrow> flow_key \<Rightarrow> cap_packet \<Rightarrow> tracker \<Rightarrow> tracker" where
  "add_to_session now key p t =
     (let k = trackerKey key;
          s = (case map_of (tk_sessions t) k of Some s \<Rightarrow> s | None \<Rightarrow> newSession_cap now key)
      in t\<lparr>tk_sessions :=
           (if map_of (tk_sessions t) k = None then tk_sessions t @ [(k, addPacket p s)]
            else map (\<lambda>(k', s'). (k', if k' = k then addPacket p s' else s')) (tk_sessions t))\<rparr>)"

definition cleanupStale :: "time \<Rightarrow> tracker \<Rightarrow> tracker \<times> nat" where
  "cleanupStale now t =
     (let cutoff = now - tk_timeout t; stale = (\<lambda>(k, s). cs_end s < cutoff)
      in (t\<lparr>tk_sessions := filter (\<lambda>e. \<not> stale e) (tk_sessions t)\<rparr>, length (filter stale (tk_sessions t))))"

definition finalizeSessions :: "tracker \<Rightarrow> tracker" where
  "finalizeSessions t = t\<lparr>tk_sessions := map (\<lambda>(k, s). (k, extractExchanges s)) (tk_sessions t)\<rparr>"

section \<open>Attributing packets\<close>

datatype transport = TCPLayer u16 u16 bool bool bool bool u32 u32 | UDPLayer u16 u16

record dpacket =
  dp_ips :: "(string \<times> string) option"
  dp_transport :: "transport option"
  dp_payload :: "bytes option"
  dp_time :: time

record pcap_stats =
  ps_total :: nat
  ps_tcp :: nat
  ps_udp :: nat
  ps_captured :: nat

record pcap_proc =
  pp_tracker :: tracker
  pp_servers :: "string list"
  pp_stats :: pcap_stats

definition newPCAPProcessor :: "string list \<Rightarrow> u16 list \<Rightarrow> pcap_proc" where
  "newPCAPProcessor servers ports =
     \<lparr>pp_tracker = newSessionTracker ports (5 * minute), pp_servers = remdups servers,
      pp_stats = \<lparr>ps_total = 0, ps_tcp = 0, ps_udp = 0, ps_captured = 0\<rparr>\<rparr>"

definition boolToFlag :: "bool \<Rightarrow> nat \<Rightarrow> u8" where
  "boolToFlag b pos = (if b then push_bit pos 1 else 0)"

definition llmnrMulticastGroup :: string where "llmnrMulticastGroup = ''224.0.0.252''"

text \<open>\<open>primaryServerIPFromMap\<close>: some server address.\<close>

definition primaryServerIP :: "string list \<Rightarrow> string option" where
  "primaryServerIP servers = (case servers of [] \<Rightarrow> None | s # _ \<Rightarrow> Some s)"

definition attribute ::
  "tracker \<Rightarrow> string list \<Rightarrow> string \<Rightarrow> string \<Rightarrow> string \<Rightarrow> u16 \<Rightarrow> u16 \<Rightarrow> (direction \<times> flow_key) option" where
  "attribute t servers protocol srcIP dstIP srcPort dstPort =
     (let inbound = (\<lambda>server. (DirectionInbound,
            \<lparr>fk_protocol = protocol, fk_clientIP = srcIP, fk_clientPort = srcPort, fk_serverIP = server, fk_serverPort = dstPort\<rparr>))
      in if protocol = ''udp'' \<and> dstPort = 5355 \<and> dstIP = llmnrMulticastGroup then
           (case primaryServerIP servers of
              Some server \<Rightarrow> if shouldCapture t dstPort then Some (inbound server) else None
            | None \<Rightarrow> None)
         else if dstIP \<in> set servers \<and> shouldCapture t dstPort then Some (inbound dstIP)
         else if srcIP \<in> set servers \<and> shouldCapture t srcPort then
           Some (DirectionOutbound,
             \<lparr>fk_protocol = protocol, fk_clientIP = dstIP, fk_clientPort = dstPort, fk_serverIP = srcIP, fk_serverPort = srcPort\<rparr>)
         else None)"

definition processPacket :: "time \<Rightarrow> pcap_proc \<Rightarrow> dpacket \<Rightarrow> pcap_proc" where
  "processPacket now p d =
     (let st0 = pp_stats p; p0 = p\<lparr>pp_stats := st0\<lparr>ps_total := ps_total st0 + 1\<rparr>\<rparr>; st = pp_stats p0 in
      case dp_ips d of
        None \<Rightarrow> p0
      | Some (srcIP, dstIP) \<Rightarrow>
          (case dp_transport d of
             None \<Rightarrow> p0
           | Some lay \<Rightarrow>
               let (p1, protocol, srcPort, dstPort, fl, sq, ak) =
                 (case lay of
                    TCPLayer sp dp syn fin rst ack sq ak \<Rightarrow>
                      (p0\<lparr>pp_stats := st\<lparr>ps_tcp := ps_tcp st + 1\<rparr>\<rparr>, ''tcp'', sp, dp,
                       boolToFlag syn 1 OR boolToFlag fin 0 OR boolToFlag rst 2 OR boolToFlag ack 4, sq, ak)
                  | UDPLayer sp dp \<Rightarrow> (p0\<lparr>pp_stats := st\<lparr>ps_udp := ps_udp st + 1\<rparr>\<rparr>, ''udp'', sp, dp, 0, 0, 0))
               in case attribute (pp_tracker p1) (pp_servers p1) protocol srcIP dstIP srcPort dstPort of
                    None \<Rightarrow> p1
                  | Some (dir, key) \<Rightarrow>
                      let pkt = \<lparr>cap_time = dp_time d, cap_dir = dir, cap_data = (case dp_payload d of None \<Rightarrow> [] | Some b \<Rightarrow> b),
                                 cap_flags = fl, cap_seq = sq, cap_ack = ak\<rparr>; s1 = pp_stats p1
                      in p1\<lparr>pp_tracker := add_to_session now key pkt (pp_tracker p1),
                            pp_stats := s1\<lparr>ps_captured := ps_captured s1 + 1\<rparr>\<rparr>))"

definition processFile :: "time \<Rightarrow> dpacket list \<Rightarrow> pcap_proc \<Rightarrow> pcap_proc" where
  "processFile now ds p =
     (let p1 = foldl (processPacket now) p ds in p1\<lparr>pp_tracker := finalizeSessions (pp_tracker p1)\<rparr>)"

definition session_count :: "pcap_proc \<Rightarrow> nat \<times> nat" where
  "session_count p = (length (tk_sessions (pp_tracker p)), sum_list (map (\<lambda>(k, s). length (cs_exchanges s)) (tk_sessions (pp_tracker p))))"

definition buildBPFFilter :: "u16 list \<Rightarrow> string" where
  "buildBPFFilter ports =
     snd (foldl (\<lambda>(i, f) port. (i + 1, f @ (if 0 < i then '' or '' else []) @ ''port '' @ port_text port)) (0 :: nat, []) ports)"

section \<open>What the exchanges hold\<close>

text \<open>The packets that count: payload, and not a payload already seen in that direction.\<close>

fun consumed :: "bytes list \<Rightarrow> bytes list \<Rightarrow> cap_packet list \<Rightarrow> cap_packet list" where
  "consumed sin sout [] = []"
| "consumed sin sout (p # ps) =
     (if cap_data p = [] then consumed sin sout ps
      else if cap_dir p = DirectionInbound then
        (if cap_data p \<in> set sin then consumed sin sout ps else p # consumed (cap_data p # sin) sout ps)
      else
        (if cap_data p \<in> set sout then consumed sin sout ps else p # consumed sin (cap_data p # sout) ps))"

abbreviation inbound :: "cap_packet \<Rightarrow> bool" where "inbound p \<equiv> cap_dir p = DirectionInbound"

definition held_ex :: "extract_state \<Rightarrow> exchange list" where
  "held_ex s = xs_done s @ (case xs_current s of None \<Rightarrow> [] | Some e \<Rightarrow> [e])"

text \<open>An exchange holds exactly the bytes of its packets, and its probe is not empty.\<close>

definition ex_ok :: "exchange \<Rightarrow> bool" where
  "ex_ok e \<longleftrightarrow> ex_probe e = concat (map cap_data (ex_probePackets e)) \<and>
     ex_response e = concat (map cap_data (ex_responsePackets e)) \<and> ex_probe e \<noteq> [] \<and>
     (\<forall>p \<in> set (ex_probePackets e). inbound p) \<and> (\<forall>p \<in> set (ex_responsePackets e). \<not> inbound p) \<and>
     (\<forall>p \<in> set (ex_probePackets e) \<union> set (ex_responsePackets e). cap_data p \<noteq> [])"

definition ex_packets :: "exchange \<Rightarrow> cap_packet list" where
  "ex_packets e = ex_probePackets e @ ex_responsePackets e"

definition xs_ok :: "extract_state \<Rightarrow> bool" where
  "xs_ok s \<longleftrightarrow> (\<forall>e \<in> set (held_ex s). ex_ok e) \<and> [0..<xs_index s] = map ex_index (held_ex s) \<and>
     (\<forall>e \<in> set (xs_done s). ex_response e \<noteq> []) \<and> (xs_current s = None \<longrightarrow> xs_done s = [])"

lemma held_new:
  "held_ex (s\<lparr>xs_done := d, xs_current := Some e, xs_index := i\<rparr>) = d @ [e]" "held_ex (s\<lparr>xs_current := Some e\<rparr>) = xs_done s @ [e]"
  "held_ex (s\<lparr>xs_current := Some e, xs_index := i\<rparr>) = xs_done s @ [e]" "held_ex (s\<lparr>xs_seenOut := so\<rparr>) = held_ex s"
  "held_ex (s\<lparr>xs_seenIn := si\<rparr>) = held_ex s"
  by (simp_all add: held_ex_def)

lemma new_exchange_sel [simp]:
  "ex_index (add_probe p e) = ex_index e" "ex_index (new_exchange i t) = i" "ex_index (add_response p e) = ex_index e"
  "ex_response (add_probe p e) = ex_response e" "ex_probe (add_response p e) = ex_probe e"
  "ex_response (new_exchange i t) = []" "ex_packets (new_exchange i t) = []"
  "ex_probePackets (new_exchange i t) = []" "ex_responsePackets (new_exchange i t) = []" "ex_probe (new_exchange i t) = []"
  "ex_response (add_response p e) = ex_response e @ cap_data p" "ex_probe (add_probe p e) = ex_probe e @ cap_data p"
  "ex_probePackets (add_probe p e) = ex_probePackets e @ [p]" "ex_responsePackets (add_probe p e) = ex_responsePackets e"
  "ex_probePackets (add_response p e) = ex_probePackets e" "ex_responsePackets (add_response p e) = ex_responsePackets e @ [p]"
  by (simp_all add: add_probe_def add_response_def new_exchange_def ex_packets_def)

lemma extract_step_ok: "xs_ok s \<Longrightarrow> xs_ok (extract_step s p)"
  by (cases "cap_dir p"; cases "xs_current s")
    (auto simp: extract_step_def xs_ok_def held_ex_def ex_ok_def Let_def)

text \<open>The packets held_ex after a step: those held_ex before, and the packet when it counts and a probe has
  been seen.\<close>

lemma extract_fold:
  assumes "xs_ok s"
  shows "concat (map ex_packets (held_ex (foldl extract_step s ps))) =
    concat (map ex_packets (held_ex s)) @
      (let c = consumed (xs_seenIn s) (xs_seenOut s) ps in if xs_current s = None then dropWhile (Not \<circ> inbound) c else c)"
  using assms
proof (induction ps arbitrary: s)
  case (Cons p ps)
  note IH = Cons.IH [OF extract_step_ok [OF Cons.prems, of p]]
  have r: "ex_responsePackets e = []" if "xs_current s = Some e" "ex_response e = []" for e
  proof -
    have "ex_ok e"
      using Cons.prems that(1) by (auto simp: xs_ok_def held_ex_def)
    then show ?thesis
      using that(2) by (cases "ex_responsePackets e") (auto simp: ex_ok_def)
  qed
  have none: "xs_done s = []" if "xs_current s = None"
    using Cons.prems that by (simp add: xs_ok_def)
  show ?case
    unfolding foldl.simps IH
    by (cases "cap_dir p"; cases "xs_current s")
      (auto simp: extract_step_def held_ex_def Let_def ex_packets_def [abs_def] none r)
qed simp

text \<open>C24. Nothing of a session is lost or invented: put end to end, the packets of the exchanges are the
  session's packets with payload, in order, each payload once per direction, from the first one a client
  sent.  Every exchange is the bytes of its packets, first what the client sent, never empty, then what
  the server sent, which only the last exchange may lack.\<close>

theorem exchanges_partition:
  shows "concat (map ex_packets (new_exchanges s)) = dropWhile (Not \<circ> inbound) (consumed [] [] (ordered_packets s)) \<and>
    (\<forall>e \<in> set (new_exchanges s). ex_ok e) \<and> map ex_index (new_exchanges s) = [0..<length (new_exchanges s)] \<and>
    (\<forall>e \<in> set (butlast (new_exchanges s)). ex_response e \<noteq> [])"
proof -
  let ?x = "foldl extract_step extract_start (ordered_packets s)"
  have start: "xs_ok extract_start"
    by (simp add: xs_ok_def extract_start_def held_ex_def)
  have "xs_ok (foldl extract_step x ps)" if "xs_ok x" for x ps
    using that by (induction ps arbitrary: x) (simp_all add: extract_step_ok)
  with start have ok: "xs_ok ?x"
    by blast
  have "new_exchanges s = held_ex ?x"
    using ok by (auto simp: new_exchanges_def extract_finish_def held_ex_def xs_ok_def ex_ok_def split: option.splits)
  moreover have "xs_index ?x = length (held_ex ?x)"
    using ok by (metis xs_ok_def length_map length_upt diff_zero)
  moreover have "set (butlast (held_ex ?x)) \<subseteq> set (xs_done ?x)"
    by (cases "xs_current ?x") (auto simp: held_ex_def butlast_append dest: in_set_butlastD)
  moreover have "concat (map ex_packets (held_ex ?x)) = dropWhile (Not \<circ> inbound) (consumed [] [] (ordered_packets s))"
    using extract_fold [OF start, of "ordered_packets s"] by (simp add: extract_start_def held_ex_def Let_def)
  ultimately show ?thesis
    using ok by (auto simp: xs_ok_def)
qed

text \<open>Finalizing twice records every exchange of a session twice.\<close>

lemma extract_twice: "cs_packets s \<noteq> [] \<Longrightarrow> cs_exchanges (extractExchanges (extractExchanges s)) = cs_exchanges s @ new_exchanges s @ new_exchanges s"
  by (simp add: extractExchanges_def new_exchanges_def ordered_packets_def)

text \<open>The packets of the two directions of a flow share a session.\<close>

lemma both_directions_one_session:
  assumes "attribute t servers proto a b sp dp = Some (DirectionInbound, k)" "b \<in> set servers" "a \<notin> set servers"
    "\<not> (proto = ''udp'' \<and> (sp = 5355 \<or> dp = 5355))"
  shows "\<exists>k'. attribute t servers proto b a dp sp = Some (DirectionOutbound, k') \<and> trackerKey k' = trackerKey k"
  using assms by (auto simp: attribute_def Let_def trackerKey_def flow_string_def split: if_splits)

text \<open>The counters account for the packets: every captured packet is in a session, and is a TCP or UDP one.\<close>

definition tracked :: "tracker \<Rightarrow> nat" where
  "tracked t = sum_list (map (\<lambda>(k, s). length (cs_packets s)) (tk_sessions t))"

definition stats_ok :: "pcap_proc \<Rightarrow> bool" where
  "stats_ok p \<longleftrightarrow> distinct (map fst (tk_sessions (pp_tracker p))) \<and> ps_captured (pp_stats p) = tracked (pp_tracker p) \<and>
     ps_captured (pp_stats p) \<le> ps_tcp (pp_stats p) + ps_udp (pp_stats p) \<and>
     ps_tcp (pp_stats p) + ps_udp (pp_stats p) \<le> ps_total (pp_stats p)"

lemma sum_list_update_one:
  "distinct (map fst al) \<Longrightarrow> map_of al k = Some s \<Longrightarrow>
    sum_list (map (\<lambda>(k', s'). length (cs_packets (if k' = k then addPacket p s' else s'))) al) =
    Suc (sum_list (map (\<lambda>(k', s'). length (cs_packets s')) al))"
proof (induction al)
  case (Cons e al)
  have untouched: "sum_list (map (\<lambda>(k', s'). length (cs_packets (if k' = k then addPacket p s' else s'))) al) =
      sum_list (map (\<lambda>(k', s'). length (cs_packets s')) al)" if "k \<notin> fst ` set al"
    using that by (intro arg_cong [of _ _ sum_list] map_cong) force+
  show ?case
    using Cons untouched by (cases e) (auto simp: addPacket_def split: if_splits)
qed simp

lemma add_to_session_counts:
  assumes "distinct (map fst (tk_sessions t))"
  shows "distinct (map fst (tk_sessions (add_to_session now k p t)))" "tracked (add_to_session now k p t) = Suc (tracked t)"
proof -
  show "distinct (map fst (tk_sessions (add_to_session now k p t)))"
    using assms by (auto simp: add_to_session_def Let_def map_of_eq_None_iff o_def case_prod_beta)
  show "tracked (add_to_session now k p t) = Suc (tracked t)"
  proof (cases "map_of (tk_sessions t) (trackerKey k)")
    case None
    then show ?thesis
      by (simp add: tracked_def add_to_session_def newSession_cap_def addPacket_def)
  next
    case (Some s)
    then show ?thesis
      using sum_list_update_one [OF assms Some, of p, unfolded case_prod_unfold]
      by (simp add: tracked_def add_to_session_def o_def case_prod_unfold)
  qed
qed

lemma processPacket_stats: "stats_ok p \<Longrightarrow> stats_ok (processPacket now p d)"
  by (auto simp: processPacket_def stats_ok_def Let_def add_to_session_counts split: option.splits transport.splits)

text \<open>The counters account for the packets: the number captured is the number the sessions hold.\<close>

lemma processed_stats: "stats_ok (foldl (processPacket now) (newPCAPProcessor servers ports) ds)"
proof -
  have "stats_ok p \<Longrightarrow> stats_ok (foldl (processPacket now) p ds)" for p
    by (induction ds arbitrary: p) (simp_all add: processPacket_stats)
  moreover have "stats_ok (newPCAPProcessor servers ports)"
    by (simp add: stats_ok_def newPCAPProcessor_def newSessionTracker_def tracked_def)
  ultimately show ?thesis by blast
qed

section \<open>Live capture\<close>

text \<open>The live capture keeps the same tracker, servers and counters and treats a packet with the same code,
  which it has in a copy of its own.  \<open>opened\<close> and \<open>filtered\<close> tell whether opening the interface and
  setting the filter succeed.\<close>

definition newLiveCapture :: "bool \<Rightarrow> (string \<Rightarrow> bool) \<Rightarrow> string list \<Rightarrow> u16 list \<Rightarrow> pcap_proc option" where
  "newLiveCapture opened filtered servers ports =
     (let filter = buildBPFFilter ports
      in if \<not> opened then None
         else if filter \<noteq> [] \<and> \<not> filtered filter then None
         else Some (newPCAPProcessor servers ports))"

definition live_processPacket :: "time \<Rightarrow> pcap_proc \<Rightarrow> dpacket \<Rightarrow> pcap_proc" where
  "live_processPacket = processPacket"

datatype live_event = LivePacket time dpacket | LiveStop

text \<open>The loop: packets until the stop, after which nothing is read; stopping finalises the sessions.\<close>

fun live_run :: "live_event list \<Rightarrow> pcap_proc \<Rightarrow> pcap_proc" where
  "live_run [] lc = lc"
| "live_run (LivePacket now d # es) lc = live_run es (live_processPacket now lc d)"
| "live_run (LiveStop # es) lc = lc\<lparr>pp_tracker := finalizeSessions (pp_tracker lc)\<rparr>"

lemma live_is_file:
  "live_run (map (LivePacket now) ds @ LiveStop # es) lc = processFile now ds lc"
  by (induction ds arbitrary: lc) (simp_all add: live_processPacket_def processFile_def Let_def)

section \<open>An example\<close>

definition lab_packet :: "direction \<Rightarrow> bytes \<Rightarrow> cap_packet" where
  "lab_packet dir b = \<lparr>cap_time = 0, cap_dir = dir, cap_data = b, cap_flags = 0, cap_seq = 0, cap_ack = 0\<rparr>"

text \<open>A greeting before any request, a request that is retransmitted, and its answer in two parts.\<close>

definition lab_capture :: cap_session where
  "lab_capture = foldl (\<lambda>s p. addPacket p s)
     (newSession_cap 0 \<lparr>fk_protocol = ''tcp'', fk_clientIP = ''10.0.0.1'', fk_clientPort = 4000, fk_serverIP = ''10.0.0.2'', fk_serverPort = 21\<rparr>)
     [lab_packet DirectionOutbound [9], lab_packet DirectionInbound [1], lab_packet DirectionInbound [1],
      lab_packet DirectionOutbound [2], lab_packet DirectionOutbound [3]]"

theorem exchanges_partition_witness:
  "concat (map ex_packets (new_exchanges lab_capture)) =
     [lab_packet DirectionInbound [1], lab_packet DirectionOutbound [2], lab_packet DirectionOutbound [3]]"
  using exchanges_partition [of lab_capture]
  by (simp add: lab_capture_def ordered_packets_def addPacket_def newSession_cap_def lab_packet_def)

end
