(* ===== verification/Capture_Classify.thy ===== *)
theory Capture_Classify
  imports Go_Bytes Go_Time Go_Path Rewrite_Rules
begin

text \<open>
  Which captured probes are worth a template (\<open>internal/capture/http_filter.go\<close>,
  \<open>snmp_filter.go\<close>): the request line of HTTP, and the first object identifier of an SNMP request,
  read with a small BER decoder.
\<close>

unbundle bit_operations_syntax

section \<open>HTTP\<close>

definition isHTTPRootPath :: "string \<Rightarrow> bool" where
  "isHTTPRootPath p \<longleftrightarrow> p \<in> set [''/'', ''/index.html'', ''/index.htm'', ''/default.aspx'', ''/iisstart.htm'', ''/iisstart.html'']"

definition isHTTPServicePort :: "u16 \<Rightarrow> bool" where
  "isHTTPServicePort p \<longleftrightarrow> p \<in> set [80, 443, 8080, 8000, 8888]"

text \<open>A probe as text, one character per byte.\<close>

definition probe_text :: "bytes \<Rightarrow> string" where "probe_text = map char_of_byte"

definition classifyHTTPProbe :: "bytes \<Rightarrow> string option" where
  "classifyHTTPProbe probe =
     (if length probe < 4 then None
      else
        let line = trim_space (takeWhile (\<lambda>c. c \<noteq> CHR 0x0A) (probe_text probe)) in
        if line = [] then None
        else
          case fields_func is_space line of
            f0 # target # _ \<Rightarrow>
              let meth = to_upper f0; p = takeWhile (\<lambda>c. c \<noteq> CHR ''?'') target in
              if meth = ''GET'' then (if isHTTPRootPath p then Some ''http_get'' else None)
              else if meth = ''HEAD'' then (if isHTTPRootPath p then Some ''http_head'' else None)
              else if meth = ''OPTIONS'' then Some ''http_options''
              else if meth = ''POST'' then Some ''http_post''
              else if meth = ''TRACE'' then Some ''http_trace''
              else if meth \<in> set [''PUT'', ''DELETE'', ''PATCH'', ''CONNECT''] then Some (''http_'' @ to_lower meth)
              else None
          | _ \<Rightarrow> None)"

section \<open>BER\<close>

datatype ber_node = BER (ber_tag: byte) (ber_value: bytes) (ber_children: "ber_node list")

text \<open>\<open>int\<close> is a signed 64-bit integer: the accumulation of the length wraps.  The length and the
  offset behind it.\<close>

definition be_int :: "bytes \<Rightarrow> int" where
  "be_int bs = foldl (\<lambda>n b. wrap64 (n * 256 + uint b)) 0 bs"

definition berLength :: "bytes \<Rightarrow> nat \<Rightarrow> (int \<times> nat) option" where
  "berLength data off =
     (if length data \<le> off then None
      else
        let b = data ! off; off1 = off + 1 in
        if b AND 0x80 = 0 then Some (uint b, off1)
        else
          let nbytes = unat (b AND 0x7F) in
          if nbytes = 0 \<or> length data < off1 + nbytes then None
          else Some (be_int (take nbytes (drop off1 data)), off1 + nbytes))"

definition berEncodedLen :: "bytes \<Rightarrow> int option" where
  "berEncodedLen data =
     (if data = [] then None
      else case berLength data 1 of None \<Rightarrow> None | Some (len, loff) \<Rightarrow> Some (wrap64 (int loff + len)))"

definition constructed :: "byte \<Rightarrow> bool" where
  "constructed tag \<longleftrightarrow> tag \<in> set [0x30, 0xA0, 0xA1, 0xA5]"

text \<open>The header at an offset: the tag and the content; the inner \<open>None\<close> is the decoder's refusal, the
  outer one a panic, when the slice runs backwards.\<close>

definition ber_header :: "bytes \<Rightarrow> nat \<Rightarrow> (byte \<times> bytes) option option" where
  "ber_header data off0 =
     (if length data \<le> off0 then Some None
      else
        let tag = data ! off0; off1 = off0 + 1 in
        if length data \<le> off1 then Some None
        else
          case berLength data off1 of
            None \<Rightarrow> Some None
          | Some (len, off) \<Rightarrow>
              let e = wrap64 (int off + len) in
              if int (length data) < e then Some None
              else if e < int off then None
              else Some (Some (tag, take (nat e - off) (drop off data))))"

lemma berLength_bounds: "berLength data off = Some (len, off') \<Longrightarrow> off < off' \<and> off' \<le> length data"
  by (auto simp: berLength_def Let_def split: if_splits)

lemma ber_header_shorter: "ber_header data off = Some (Some (tag, content)) \<Longrightarrow> length content < length data"
  by (auto simp: ber_header_def Let_def split: if_splits option.splits dest!: berLength_bounds)

text \<open>The decoder and its loop over the children.  The loop advances by the encoded length of the child it
  has just decoded, which is positive; the test written here, \<open>\<le> 0\<close>, is the code's \<open>== 0\<close>.\<close>

function berDecodeAt :: "bytes \<Rightarrow> nat \<Rightarrow> ber_node option option"
  and ber_loop :: "bytes \<Rightarrow> nat \<Rightarrow> ber_node list option option" where
  "berDecodeAt data off =
     (case ber_header data off of
        None \<Rightarrow> None
      | Some None \<Rightarrow> Some None
      | Some (Some (tag, content)) \<Rightarrow>
          if constructed tag then
            (case ber_loop content 0 of
               None \<Rightarrow> None
             | Some None \<Rightarrow> Some None
             | Some (Some cs) \<Rightarrow> Some (Some (BER tag [] cs)))
          else Some (Some (BER tag content [])))"
| "ber_loop content cur =
     (if length content \<le> cur then Some (Some [])
      else
        case berDecodeAt content cur of
          None \<Rightarrow> None
        | Some None \<Rightarrow> Some None
        | Some (Some child) \<Rightarrow>
            (case berEncodedLen (drop cur content) of
               None \<Rightarrow> Some None
             | Some clen \<Rightarrow>
                 if clen \<le> 0 then Some None
                 else
                   case ber_loop content (cur + nat clen) of
                     None \<Rightarrow> None
                   | Some None \<Rightarrow> Some None
                   | Some (Some cs) \<Rightarrow> Some (Some (child # cs))))"
  by pat_completeness auto
termination
  by (relation "measures [\<lambda>x. case x of Inl (d, _) \<Rightarrow> length d | Inr (d, _) \<Rightarrow> length d,
        \<lambda>x. case x of Inl _ \<Rightarrow> 0 | Inr _ \<Rightarrow> 1, \<lambda>x. case x of Inl _ \<Rightarrow> 0 | Inr (d, cur) \<Rightarrow> length d - cur]")
    (auto dest: ber_header_shorter)

declare berDecodeAt.simps [simp del] ber_loop.simps [simp del]

definition berDecode :: "bytes \<Rightarrow> ber_node option option" where
  "berDecode data = berDecodeAt data 0"

section \<open>Object identifiers\<close>

text \<open>One arc: its value and what follows; \<open>None\<close>: the text ends inside it.\<close>

fun oid_arc :: "int \<Rightarrow> bytes \<Rightarrow> (int \<times> bytes) option" where
  "oid_arc val [] = None"
| "oid_arc val (b # bs) =
     (let v = wrap64 (val * 128 + uint (b AND 0x7F)) in if b AND 0x80 = 0 then Some (v, bs) else oid_arc v bs)"

lemma oid_arc_shorter: "oid_arc v bs = Some (w, rest) \<Longrightarrow> length rest < length bs"
  by (induction v bs rule: oid_arc.induct) (auto simp: Let_def split: if_splits)

function oid_arcs :: "bytes \<Rightarrow> string list option" where
  "oid_arcs bs =
     (if bs = [] then Some []
      else case oid_arc 0 bs of
        None \<Rightarrow> None
      | Some (v, rest) \<Rightarrow> map_option (\<lambda>ps. int_string v # ps) (oid_arcs rest))"
  by pat_completeness auto
termination
  by (relation "measure length") (auto dest: oid_arc_shorter)

declare oid_arcs.simps [simp del]

definition decodeOID :: "bytes \<Rightarrow> string" where
  "decodeOID data =
     (case data of
        [] \<Rightarrow> []
      | b # bs \<Rightarrow>
          (case oid_arcs bs of
             None \<Rightarrow> []
           | Some ps \<Rightarrow> join_with (CHR ''.'') (itoa (unat b div 40) # itoa (unat b mod 40) # ps)))"

definition extractSNMPRequestOIDs :: "bytes \<Rightarrow> string list option" where
  "extractSNMPRequestOIDs pkt =
     (case berDecode pkt of
        None \<Rightarrow> None
      | Some None \<Rightarrow> Some []
      | Some (Some msg) \<Rightarrow>
          Some (if ber_tag msg \<noteq> 0x30 \<or> length (ber_children msg) < 3 then []
                else
                  let pdu = ber_children msg ! 2 in
                  if ber_tag pdu \<notin> set [0xA0, 0xA1, 0xA5] \<or> length (ber_children pdu) < 4 then []
                  else
                    let varbinds = ber_children pdu ! 3 in
                    if ber_tag varbinds \<noteq> 0x30 then []
                    else concat (map (\<lambda>vb.
                           if ber_tag vb \<noteq> 0x30 \<or> ber_children vb = [] then []
                           else
                             let o' = hd (ber_children vb) in
                             if ber_tag o' \<noteq> 0x06 then []
                             else let oid = decodeOID (ber_value o') in if oid \<noteq> [] then [oid] else [])
                         (ber_children varbinds))))"

definition isScannerSNMPOID :: "string \<Rightarrow> bool" where
  "isScannerSNMPOID oid \<longleftrightarrow> has_prefix oid ''1.3.6.1.2.1.1.''"

definition snmpProbeName :: "string \<Rightarrow> string" where
  "snmpProbeName oid = ''snmp_'' @ map (\<lambda>c. if c = CHR ''.'' \<or> c = CHR ''-'' then CHR ''_'' else c) oid"

definition classifySNMPProbe :: "bytes \<Rightarrow> string option option" where
  "classifySNMPProbe probe =
     (case extractSNMPRequestOIDs probe of
        None \<Rightarrow> None
      | Some oids \<Rightarrow>
          Some (case oids of
                  [] \<Rightarrow> None
                | primary # _ \<Rightarrow> if isScannerSNMPOID primary then Some (snmpProbeName primary) else None))"

definition isSNMPServicePort :: "u16 \<Rightarrow> bool" where
  "isSNMPServicePort p \<longleftrightarrow> p = 161 \<or> p = 162"

section \<open>Reading what a client encodes\<close>

text \<open>A short-form element, as every SNMP request the scanners send is built of.\<close>

definition tlv :: "byte \<Rightarrow> bytes \<Rightarrow> bytes" where
  "tlv tag content = tag # of_nat (length content) # content"

fun ber_encode :: "ber_node \<Rightarrow> bytes" where
  "ber_encode (BER tag v cs) = tlv tag (if constructed tag then concat (map ber_encode cs) else v)"

text \<open>Well-formed trees whose elements all fit the short form.\<close>

fun ber_short :: "ber_node \<Rightarrow> bool" where
  "ber_short (BER tag v cs) \<longleftrightarrow>
     (if constructed tag then v = [] \<and> (\<forall>c \<in> set cs. ber_short c) \<and> length (concat (map ber_encode cs)) < 128
      else cs = [] \<and> length v < 128)"

lemma short_length: "n < 128 \<Longrightarrow> (of_nat n :: byte) AND 0x80 = 0 \<and> uint (of_nat n :: byte) = int n"
proof
  assume n: "n < 128"
  show u: "uint (of_nat n :: byte) = int n"
    using n by (simp add: uint_nat unat_of_nat)
  have "\<not> bit n 7"
    using n by (simp add: bit_iff_odd)
  then have "(of_nat n :: byte) AND 2 ^ 7 = 0"
    unfolding and_exp_eq_0_iff_not_bit by (simp add: bit_simps)
  then show "(of_nat n :: byte) AND 0x80 = 0"
    by simp
qed

lemma wrap64_in_range: "- (2 ^ 63) \<le> i \<Longrightarrow> i < 2 ^ 63 \<Longrightarrow> wrap64 i = i"
  by (simp add: wrap64_def)

lemma ber_header_tlv:
  assumes "length content < 128" "length (pre @ tlv tag content @ post) < 2 ^ 62"
  shows "ber_header (pre @ tlv tag content @ post) (length pre) = Some (Some (tag, content))"
proof -
  let ?d = "pre @ tlv tag content @ post"
  have "?d ! Suc (length pre) = of_nat (length content)" "?d ! length pre = tag"
    by (simp_all add: tlv_def nth_append)
  then have "berLength ?d (Suc (length pre)) = Some (int (length content), length pre + 2)"
    using short_length [OF assms(1)] by (simp add: berLength_def tlv_def)
  moreover have "length ?d = length pre + 2 + length content + length post"
    by (simp add: tlv_def)
  moreover have "wrap64 (int (length pre + 2) + int (length content)) = int (length pre + 2 + length content)"
    using assms(2) by (subst wrap64_in_range) (simp_all add: tlv_def)
  moreover have "drop (length pre + 2) ?d = content @ post"
    by (simp add: tlv_def)
  ultimately show ?thesis
    using \<open>?d ! length pre = tag\<close> by (simp add: ber_header_def Let_def del: of_nat_add drop_append append_assoc)
qed

lemma encoded_len_tlv:
  assumes "length content < 128"
  shows "berEncodedLen (tlv tag content @ post) = Some (int (length (tlv tag content)))"
proof -
  have "berLength (tlv tag content @ post) 1 = Some (int (length content), 2)"
    using short_length [OF assms] by (simp add: berLength_def tlv_def)
  then show ?thesis
    using assms by (simp add: berEncodedLen_def tlv_def wrap64_in_range)
qed

lemma length_encode: "ber_short n \<Longrightarrow> length (ber_encode n) < 130 \<and> 2 \<le> length (ber_encode n)"
  by (cases n) (auto simp: tlv_def split: if_splits)

lemma ber_loop_at_end: "ber_loop content (length content) = Some (Some [])"
  by (subst ber_loop.simps) simp

text \<open>Whatever such a tree is embedded in, the decoder reads it back.\<close>

lemma decode_encode:
  "ber_short n \<Longrightarrow> length (pre @ ber_encode n @ post) < 2 ^ 62 \<Longrightarrow> berDecodeAt (pre @ ber_encode n @ post) (length pre) = Some (Some n)"
proof (induction n arbitrary: pre post)
  case (BER tag v cs)
  show ?case
  proof (cases "constructed tag")
    case False
    then show ?thesis
      using BER.prems by (subst berDecodeAt.simps) (simp add: ber_header_tlv)
  next
    case True
    let ?body = "concat (map ber_encode cs)"
    have body: "length ?body < 128" "v = []" "\<forall>c \<in> set cs. ber_short c"
      using BER.prems(1) True by simp_all
    have "ber_loop (dn @ concat (map ber_encode ks)) (length dn) = Some (Some ks)"
      if "set ks \<subseteq> set cs" "length (dn @ concat (map ber_encode ks)) < 128" for dn ks
      using that
    proof (induction ks arbitrary: dn)
      case Nil
      then show ?case by (simp add: ber_loop_at_end)
    next
      case (Cons k ks)
      have short: "ber_short k" and k: "k \<in> set cs"
        using Cons.prems(1) body(3) by auto
      obtain t w js where kk: "k = BER t w js" by (cases k)
      define enc where "enc = ber_encode k"
      obtain c where c: "enc = tlv t c" "length c < 128"
        using short kk by (auto simp: enc_def split: if_splits)
      have le: "2 \<le> length enc"
        using c by (simp add: tlv_def)
      have ne: "enc \<noteq> []"
        using le by auto
      have d: "berDecodeAt (dn @ enc @ concat (map ber_encode ks)) (length dn) = Some (Some k)"
        using BER.IH [OF k short, of dn "concat (map ber_encode ks)"] Cons.prems(2) by (simp add: enc_def)
      have l: "berEncodedLen (enc @ concat (map ber_encode ks)) = Some (int (length enc))"
        unfolding c(1) by (rule encoded_len_tlv [OF c(2)])
      have r: "ber_loop (dn @ enc @ concat (map ber_encode ks)) (length dn + length enc) = Some (Some ks)"
        using Cons.IH [of "dn @ enc"] Cons.prems by (simp add: enc_def)
      show ?case
        using d l r le ne by (subst ber_loop.simps) (simp flip: enc_def)
    qed
    from this [of cs "[]"] have "ber_loop ?body 0 = Some (Some cs)"
      using body(1) by simp
    then show ?thesis
      using True BER.prems body by (subst berDecodeAt.simps) (simp add: ber_header_tlv)
  qed
qed

text \<open>BER round trip: the decoder reads back every tree of short elements.\<close>

theorem ber_roundtrip:
  assumes "ber_short n" "length (ber_encode n @ rest) < 2 ^ 62"
  shows "berDecode (ber_encode n @ rest) = Some (Some n)"
  using decode_encode [OF assms(1), of "[]" rest] assms(2) by (simp add: berDecode_def)

section \<open>SNMP requests\<close>

text \<open>A request as a scanner sends it: GET, GET-NEXT or GET-BULK over a list of object identifiers.\<close>

definition snmp_request :: "byte \<Rightarrow> byte \<Rightarrow> bytes \<Rightarrow> bytes \<Rightarrow> bytes list \<Rightarrow> ber_node" where
  "snmp_request op version community reqID oids =
     BER 0x30 [] [BER 0x02 [version] [], BER 0x04 community [],
       BER op [] [BER 0x02 reqID [], BER 0x02 [0] [], BER 0x02 [0] [],
         BER 0x30 [] (map (\<lambda>o'. BER 0x30 [] [BER 0x06 o' [], BER 0x05 [] []]) oids)]]"

text \<open>A request is named after the first of its object identifiers that has a text, and kept exactly when
  that lies in the system group.\<close>

theorem snmp_request_classified:
  assumes "op \<in> {0xA0, 0xA1, 0xA5}" "ber_short (snmp_request op v comm rid oids)"
  shows "classifySNMPProbe (ber_encode (snmp_request op v comm rid oids)) =
    Some (case filter (\<lambda>o'. o' \<noteq> []) (map decodeOID oids) of
            [] \<Rightarrow> None
          | oid # _ \<Rightarrow> if has_prefix oid ''1.3.6.1.2.1.1.'' then Some (snmpProbeName oid) else None)"
proof -
  have "length (ber_encode (snmp_request op v comm rid oids)) < 130"
    using length_encode [OF assms(2)] by blast
  then have "length (ber_encode (snmp_request op v comm rid oids)) < 2 ^ 62"
    by simp
  then have d: "berDecode (ber_encode (snmp_request op v comm rid oids)) = Some (Some (snmp_request op v comm rid oids))"
    using decode_encode [OF assms(2), of "[]" "[]"] by (simp add: berDecode_def)
  have c: "concat (map (\<lambda>x. if decodeOID x \<noteq> [] then [decodeOID x] else []) os) = filter (\<lambda>o'. o' \<noteq> []) (map decodeOID os)" for os
    by (induction os) auto
  obtain m where m: "snmp_request op v comm rid oids = m" by blast
  have sel: "ber_tag m = 0x30" "ber_children m = [BER 0x02 [v] [], BER 0x04 comm [],
       BER op [] [BER 0x02 rid [], BER 0x02 [0] [], BER 0x02 [0] [],
         BER 0x30 [] (map (\<lambda>o'. BER 0x30 [] [BER 0x06 o' [], BER 0x05 [] []]) oids)]]"
    using m by (auto simp: snmp_request_def)
  have "extractSNMPRequestOIDs (ber_encode (snmp_request op v comm rid oids)) = Some (filter (\<lambda>o'. o' \<noteq> []) (map decodeOID oids))"
    using assms(1) unfolding m
    by (auto simp: extractSNMPRequestOIDs_def d [unfolded m] sel Let_def o_def c)
  then show ?thesis
    by (simp add: classifySNMPProbe_def isScannerSNMPOID_def split: list.splits)
qed

definition sysDescr :: bytes where "sysDescr = [0x2B, 6, 1, 2, 1, 1, 1, 0]"

theorem snmp_request_classified_witness:
  "classifySNMPProbe (ber_encode (snmp_request 0xA0 0 [0x70, 0x75, 0x62] [1] [sysDescr])) = Some (Some ''snmp_1_3_6_1_2_1_1_1_0'')"
proof -
  have "ber_short (snmp_request 0xA0 0 [0x70, 0x75, 0x62] [1] [sysDescr])"
    by (simp add: snmp_request_def constructed_def sysDescr_def tlv_def)
  moreover have "decodeOID sysDescr = ''1.3.6.1.2.1.1.1.0''" "snmpProbeName ''1.3.6.1.2.1.1.1.0'' = ''snmp_1_3_6_1_2_1_1_1_0''"
    by code_simp+
  ultimately show ?thesis
    using snmp_request_classified [of "0xA0" 0 "[0x70, 0x75, 0x62]" "[1]" "[sysDescr]"] by (simp add: has_prefix_def)
qed

text \<open>A length of eight bytes with the top bit set is negative, passes the check against the end of the
  packet, and the slice panics: ten bytes stop the capture.\<close>

theorem negative_ber_length_panics:
  "classifySNMPProbe [0x30, 0x88, 0x80, 0, 0, 0, 0, 0, 0, 0] = None"
proof -
  have "berLength [0x30, 0x88, 0x80, 0, 0, 0, 0, 0, 0, 0] 1 = Some (- (2 ^ 63), 10)"
    by code_simp
  then have "ber_header [0x30, 0x88, 0x80, 0, 0, 0, 0, 0, 0, 0] 0 = None"
    by (simp add: ber_header_def wrap64_def)
  then show ?thesis
    by (simp add: classifySNMPProbe_def extractSNMPRequestOIDs_def berDecode_def berDecodeAt.simps)
qed

end
