(* ===== verification/Capture_Template.thy ===== *)
theory Capture_Template
  imports Capture_Session Capture_Classify Probe_Matcher "HOL-Library.AList"
begin

text \<open>
  Turning captured exchanges into a service template (\<open>internal/capture/template.go\<close>,
  \<open>recorder.go\<close>): grouping, the signature of a probe, the fields of a response that change between
  captures, and the files that are written.

  \<open>sha\<close> is SHA-256.  The YAML encoding is library code: a file holds either bytes or the record that was
  encoded.  The panic of the SNMP classifier is \<open>None\<close>.
\<close>

section \<open>Records\<close>

record exchange_record =
  er_session :: cap_session
  er_exchange :: exchange
  er_hash :: string
  er_port :: u16

record dynamic_field =
  df_offset :: nat
  df_length :: nat
  df_type :: string

record template_gen =
  tg_outputDir :: string
  tg_service :: string
  tg_sourceOS :: string
  tg_exchanges :: "exchange_record list"

definition newTemplateGenerator :: "string \<Rightarrow> string \<Rightarrow> string \<Rightarrow> template_gen" where
  "newTemplateGenerator dir svc os = \<lparr>tg_outputDir = dir, tg_service = svc, tg_sourceOS = os, tg_exchanges = []\<rparr>"

type_synonym hash_fn = "bytes \<Rightarrow> bytes"

text \<open>Whether an exchange is kept; the classifiers run on their services and ports.\<close>

definition keep_exchange :: "string \<Rightarrow> u16 \<Rightarrow> exchange \<Rightarrow> bool option" where
  "keep_exchange svc port ex =
     (if ex_probe ex = [] then Some False
      else if (svc = ''http'' \<or> isHTTPServicePort port) \<and> classifyHTTPProbe (ex_probe ex) = None then Some False
      else if svc = ''snmp'' \<or> isSNMPServicePort port then map_option (\<lambda>r. r \<noteq> None) (classifySNMPProbe (ex_probe ex))
      else Some True)"

fun kept_exchanges :: "string \<Rightarrow> u16 \<Rightarrow> exchange list \<Rightarrow> exchange list option" where
  "kept_exchanges svc port [] = Some []"
| "kept_exchanges svc port (e # es) =
     (case keep_exchange svc port e of
        None \<Rightarrow> None
      | Some k \<Rightarrow> map_option (\<lambda>r. if k then e # r else r) (kept_exchanges svc port es))"

definition addSession :: "hash_fn \<Rightarrow> template_gen \<Rightarrow> cap_session \<Rightarrow> template_gen option" where
  "addSession sha tg s =
     (let port = fk_serverPort (cs_key s) in
      map_option (\<lambda>es. tg\<lparr>tg_exchanges := tg_exchanges tg @
          map (\<lambda>e. \<lparr>er_session = s, er_exchange = e, er_hash = hex_encode (take 8 (sha (ex_probe e))), er_port = port\<rparr>) es\<rparr>)
        (kept_exchanges (tg_service tg) port (cs_exchanges s)))"

section \<open>Names\<close>

definition smb_name :: "bytes \<Rightarrow> string \<Rightarrow> string" where
  "smb_name probe def =
     (if 8 \<le> length probe then
        (if starts_with (drop 4 probe) [0xFE, 0x53, 0x4D, 0x42] then
           (if 16 \<le> length probe then
              let cmd = unat (probe ! 12) + 256 * unat (probe ! 13) in
              if cmd = 0 then ''smb2_negotiate''
              else if cmd = 1 then ''smb2_session_setup''
              else if cmd = 3 then ''smb2_tree_connect''
              else ''smb2_cmd_'' @ itoa cmd
            else ''smb2'')
         else if starts_with (drop 4 probe) [0xFF, 0x53, 0x4D, 0x42] then ''smb1_negotiate''
         else def)
      else def)"

definition base_probe_name :: "string \<Rightarrow> bytes \<Rightarrow> u16 \<Rightarrow> string option" where
  "base_probe_name svc probe port =
     (let def = svc @ ''_probe'' in
      if port = 445 then Some (smb_name probe def)
      else if port = 3389 then Some (if 4 \<le> length probe \<and> probe ! 0 = 3 \<and> probe ! 1 = 0 then ''rdp_connection'' else def)
      else if isHTTPServicePort port then
        Some (case classifyHTTPProbe probe of Some n \<Rightarrow> n | None \<Rightarrow> def)
      else if port = 22 then Some (if starts_with probe [0x53, 0x53, 0x48, 0x2D] then ''ssh_banner'' else def)
      else if port = 21 then Some ''ftp''
      else if port = 5355 then Some ''llmnr_query''
      else if isSNMPServicePort port then
        map_option (\<lambda>r. case r of Some n \<Rightarrow> n | None \<Rightarrow> def) (classifySNMPProbe probe)
      else if port = 1433 then Some ''mssql''
      else Some def)"

definition generateProbeName :: "hash_fn \<Rightarrow> string \<Rightarrow> bytes \<Rightarrow> u16 \<Rightarrow> string option" where
  "generateProbeName sha svc probe port =
     map_option (\<lambda>n. n @ ''_'' @ hex_encode (take 4 (sha probe))) (base_probe_name svc probe port)"

text \<open>The groups by name, in the order in which the names first appear.  The code ranges over a Go map
  here, whose order is unspecified: the model takes one of the orders a run may take.\<close>

fun groupExchanges :: "hash_fn \<Rightarrow> string \<Rightarrow> exchange_record list \<Rightarrow> (string \<times> exchange_record list) list \<Rightarrow>
    (string \<times> exchange_record list) list option" where
  "groupExchanges sha svc [] groups = Some groups"
| "groupExchanges sha svc (r # rs) groups =
     (case generateProbeName sha svc (ex_probe (er_exchange r)) (er_port r) of
        None \<Rightarrow> None
      | Some n \<Rightarrow>
          groupExchanges sha svc rs
            (AList.update n ((case map_of groups n of None \<Rightarrow> [] | Some g \<Rightarrow> g) @ [r]) groups))"

section \<open>Signatures\<close>

definition isRegexMeta :: "byte \<Rightarrow> bool" where
  "isRegexMeta b \<longleftrightarrow> char_of_byte b \<in> set ([CHR 0x5C] @ ''.+*?^$[]{}()|'')"

definition pattern_byte :: "byte \<Rightarrow> string" where
  "pattern_byte b = (if 0x20 \<le> b \<and> b \<le> 0x7E \<and> \<not> isRegexMeta b then [char_of_byte b] else esc # CHR ''x'' # hex_encode [b])"

definition findStablePattern :: "bytes \<Rightarrow> string" where
  "findStablePattern probe =
     (if length probe < 4 then []
      else ''^'' @ concat (map pattern_byte (take (if length probe < 8 then length probe else 8) probe)))"

definition generateSignature :: "bytes \<Rightarrow> signature" where
  "generateSignature probe =
     \<lparr>sg_pattern = findStablePattern probe, sg_contains = [], sg_offset = 0, sg_minLength = int (length probe),
      sg_maxLength = int (length probe) + 100\<rparr>"

section \<open>Dynamic fields\<close>

definition inferFieldType :: "nat \<Rightarrow> string" where
  "inferFieldType l = (if l = 4 then ''timestamp_unix'' else if l = 8 then ''timestamp'' else if l = 16 then ''guid'' else ''random'')"

definition differs :: "bytes \<Rightarrow> bytes list \<Rightarrow> nat \<Rightarrow> bool" where
  "differs base others i \<longleftrightarrow> (\<exists>r \<in> set others. length r \<le> i \<or> r ! i \<noteq> base ! i)"

definition mk_field :: "nat \<Rightarrow> nat \<Rightarrow> dynamic_field" where
  "mk_field a b = \<lparr>df_offset = a, df_length = b - a, df_type = inferFieldType (b - a)\<rparr>"

definition field_step :: "bytes \<Rightarrow> bytes list \<Rightarrow> dynamic_field list \<times> nat option \<Rightarrow> nat \<Rightarrow> dynamic_field list \<times> nat option" where
  "field_step base others = (\<lambda>(fields, start) i.
     case start of
       None \<Rightarrow> if differs base others i then (fields, Some i) else (fields, None)
     | Some a \<Rightarrow> if differs base others i then (fields, Some a) else (fields @ [mk_field a i], None))"

definition fields_between :: "bytes \<Rightarrow> bytes list \<Rightarrow> dynamic_field list" where
  "fields_between base others =
     (let (fields, start) = foldl (field_step base others) ([], None) [0..<length base]
      in case start of None \<Rightarrow> fields | Some a \<Rightarrow> fields @ [mk_field a (length base)])"

text \<open>A group is never empty; with a single capture the code has no heuristics yet.\<close>

definition detectDynamicFields :: "exchange_record list \<Rightarrow> dynamic_field list" where
  "detectDynamicFields records =
     (case map (ex_response \<circ> er_exchange) records of
        base # r # rs \<Rightarrow> fields_between base (r # rs)
      | _ \<Rightarrow> [])"

section \<open>The manifest\<close>

text \<open>The most common port; the code counts in a Go map and a tie is decided by its order, here by the
  first port recorded.\<close>

definition inferPort :: "exchange_record list \<Rightarrow> u16" where
  "inferPort es =
     (let ports = remdups (map er_port es); count = (\<lambda>p. length (filter (\<lambda>e. er_port e = p) es))
      in fst (foldl (\<lambda>(mp, mc) p. if count p > mc then (p, count p) else (mp, mc)) (0, 0 :: nat) ports))"

definition inferProtocol :: "string \<Rightarrow> exchange_record list \<Rightarrow> string" where
  "inferProtocol svc es =
     (if svc \<in> set [''llmnr'', ''mdns'', ''snmp'', ''ssdp'', ''wsd'', ''nbns''] then ''udp''
      else if \<exists>e \<in> set es. fk_protocol (cs_key (er_session e)) = ''udp'' then ''udp'' else ''tcp'')"

definition inferStateful :: "exchange_record list \<Rightarrow> bool" where
  "inferStateful es \<longleftrightarrow> (\<exists>e \<in> set es. 1 < length (cs_exchanges (er_session e)))"

record service_manifest =
  sm_svc :: string
  sm_port :: u16
  sm_protocol :: string
  sm_stateful :: bool
  sm_probes :: "probe_config list"

record capture_meta =
  cm_name :: string
  cm_service :: string
  cm_sourceOS :: string
  cm_captures :: nat
  cm_probeHex :: string
  cm_responseHex :: string
  cm_probeLen :: nat
  cm_responseLen :: nat

datatype file_data = RawFile bytes | MetaFile capture_meta | ManifestFile string service_manifest

definition probe_for :: "string \<Rightarrow> exchange_record list \<Rightarrow> probe_config" where
  "probe_for name records =
     (let first = er_exchange (hd records) in
      \<lparr>pc_name = name, pc_signature = generateSignature (ex_probe first),
       pc_responseFile = path_join [''responses'', name @ ''.bin''],
       pc_rules = map (\<lambda>d. \<lparr>rr_offset = int (df_offset d), rr_length = int (df_length d), rr_type = df_type d, rr_token = []\<rparr>)
         (detectDynamicFields records),
       pc_requires = []\<rparr>)"

definition generateCaptureMeta :: "template_gen \<Rightarrow> string \<Rightarrow> exchange_record list \<Rightarrow> capture_meta" where
  "generateCaptureMeta tg name records =
     (let first = er_exchange (hd records) in
      \<lparr>cm_name = name, cm_service = tg_service tg, cm_sourceOS = tg_sourceOS tg, cm_captures = length records,
       cm_probeHex = hex_encode (ex_probe first), cm_responseHex = hex_encode (ex_response first),
       cm_probeLen = length (ex_probe first), cm_responseLen = length (ex_response first)\<rparr>)"

definition group_files :: "template_gen \<Rightarrow> string \<times> exchange_record list \<Rightarrow> (string \<times> file_data) list" where
  "group_files tg = (\<lambda>(name, records).
     [(path_join [path_join [tg_outputDir tg, ''responses''], name @ ''.bin''], RawFile (ex_response (er_exchange (hd records)))),
      (path_join [path_join [tg_outputDir tg, ''captures''], name @ ''.yaml''], MetaFile (generateCaptureMeta tg name records))])"

definition manifest_for :: "template_gen \<Rightarrow> (string \<times> exchange_record list) list \<Rightarrow> service_manifest" where
  "manifest_for tg groups =
     \<lparr>sm_svc = tg_service tg, sm_port = inferPort (tg_exchanges tg),
      sm_protocol = inferProtocol (tg_service tg) (tg_exchanges tg), sm_stateful = inferStateful (tg_exchanges tg),
      sm_probes = map (\<lambda>(name, records). probe_for name records) groups\<rparr>"

definition manifest_header :: "template_gen \<Rightarrow> string" where
  "manifest_header tg =
     ''# '' @ tg_service tg @ '' Service Template'' @ [CHR 0x0A] @ ''# Generated from '' @ tg_service tg @ '' captures'' @ [CHR 0x0A] @
     ''# Source OS: '' @ tg_sourceOS tg @ [CHR 0x0A, CHR 0x0A]"

text \<open>Writing the files in order, up to the first failure; \<open>ok\<close> tells whether a write succeeds.\<close>

fun write_files :: "(string \<Rightarrow> bool) \<Rightarrow> (string \<times> file_data) list \<Rightarrow> (string \<rightharpoonup> file_data) \<Rightarrow> (string \<rightharpoonup> file_data) \<times> bool" where
  "write_files ok [] fs = (fs, True)"
| "write_files ok ((p, d) # ws) fs = (if ok p then write_files ok ws (fs(p \<mapsto> d)) else (fs, False))"

text \<open>The directories are made first; \<open>mk\<close> tells whether making one succeeds.\<close>

definition generate :: "hash_fn \<Rightarrow> (string \<Rightarrow> bool) \<Rightarrow> (string \<Rightarrow> bool) \<Rightarrow> template_gen \<Rightarrow>
    (string \<rightharpoonup> file_data) \<Rightarrow> ((string \<rightharpoonup> file_data) \<times> bool) option" where
  "generate sha mk ok tg fs =
     (let dir = tg_outputDir tg
      in if \<exists>d \<in> set [dir, path_join [dir, ''responses''], path_join [dir, ''captures'']]. \<not> mk d then Some (fs, False)
         else map_option (\<lambda>groups.
           write_files ok (concat (map (group_files tg) groups) @
             [(path_join [dir, ''manifest.yaml''], ManifestFile (manifest_header tg) (manifest_for tg groups))]) fs)
         (groupExchanges sha (tg_service tg) (tg_exchanges tg) []))"

section \<open>Single recordings\<close>

record captured_response =
  cd_name :: string
  cd_service :: string
  cd_at :: time
  cd_sourceOS :: string
  cd_sourceIP :: string
  cd_protocol :: string
  cd_port :: u16
  cd_probeHex :: string
  cd_responseHex :: string

record recorder =
  rec_dir :: string
  rec_service :: string
  rec_sourceOS :: string

datatype rec_file = RecMeta captured_response | RecRaw bytes

text \<open>The metadata is written first, then the raw response; \<open>ok\<close> tells whether a write succeeds.\<close>

definition recorder_record ::
  "(string \<Rightarrow> bool) \<Rightarrow> time \<Rightarrow> recorder \<Rightarrow> string \<Rightarrow> string \<Rightarrow> u16 \<Rightarrow> string \<Rightarrow> bytes \<Rightarrow> bytes \<Rightarrow>
    (string \<rightharpoonup> rec_file) \<Rightarrow> (string \<rightharpoonup> rec_file) \<times> bool" where
  "recorder_record ok now r name protocol port ip probe response fs =
     (let captured = \<lparr>cd_name = name, cd_service = rec_service r, cd_at = now,
          cd_sourceOS = rec_sourceOS r, cd_sourceIP = ip, cd_protocol = protocol, cd_port = port,
          cd_probeHex = hex_encode probe, cd_responseHex = hex_encode response\<rparr>;
          metaPath = path_join [rec_dir r, name @ ''.yaml''];
          binPath = path_join [rec_dir r, name @ ''.bin'']
      in if ok metaPath then
           let fs = fs(metaPath \<mapsto> RecMeta captured)
           in if ok binPath then (fs(binPath \<mapsto> RecRaw response), True) else (fs, False)
         else (fs, False))"

definition loadCapture :: "(string \<rightharpoonup> rec_file) \<Rightarrow> string \<Rightarrow> (captured_response \<times> bytes) option" where
  "loadCapture fs p =
     (case fs p of
        Some (RecMeta c) \<Rightarrow> map_option (\<lambda>r. (c, r)) (hex_decode (cd_responseHex c))
      | _ \<Rightarrow> None)"

definition convertToBinary :: "(string \<Rightarrow> bool) \<Rightarrow> (string \<rightharpoonup> rec_file) \<Rightarrow> string \<Rightarrow> string \<Rightarrow> (string \<rightharpoonup> rec_file) \<times> bool" where
  "convertToBinary ok fs yamlPath binPath =
     (case loadCapture fs yamlPath of
        None \<Rightarrow> (fs, False)
      | Some (_, r) \<Rightarrow> if ok binPath then (fs(binPath \<mapsto> RecRaw r), True) else (fs, False))"

end
