(* ===== verification/Capture_Facts.thy ===== *)
theory Capture_Facts
  imports Capture_Template
begin

text \<open>
  What a generated template guarantees: the fields rewritten are exactly the bytes that changed between
  captures, a generated signature matches its own probe in the running service, and a recording reads
  back.
\<close>

section \<open>Dynamic fields\<close>

definition covers :: "dynamic_field \<Rightarrow> nat \<Rightarrow> bool" where
  "covers f i \<longleftrightarrow> df_offset f \<le> i \<and> i < df_offset f + df_length f"

text \<open>The fields in order, apart from each other by at least one byte.\<close>

fun spaced :: "nat \<Rightarrow> dynamic_field list \<Rightarrow> bool" where
  "spaced b [] = True"
| "spaced b (f # fs) = (b \<le> df_offset f \<and> 0 < df_length f \<and> spaced (df_offset f + df_length f + 1) fs)"

lemma spaced_snoc:
  "spaced b (fs @ [f]) \<longleftrightarrow> spaced b fs \<and> 0 < df_length f \<and> b \<le> df_offset f \<and> (\<forall>g \<in> set fs. df_offset g + df_length g < df_offset f)"
  by (induction b fs rule: spaced.induct) auto

lemma mk_field_sel [simp]: "df_offset (mk_field a b) = a" "df_length (mk_field a b) = b - a" "df_type (mk_field a b) = inferFieldType (b - a)"
  by (simp_all add: mk_field_def)

text \<open>After \<open>n\<close> bytes: the finished fields, and where an open one starts.\<close>

definition scanned :: "bytes \<Rightarrow> bytes list \<Rightarrow> nat \<Rightarrow> dynamic_field list \<times> nat option \<Rightarrow> bool" where
  "scanned base others n = (\<lambda>(fds, start).
     spaced 0 fds \<and>
     (\<forall>i < n. differs base others i \<longleftrightarrow> (\<exists>f \<in> set fds. covers f i) \<or> (\<exists>a. start = Some a \<and> a \<le> i)) \<and>
     (\<forall>f \<in> set fds. df_offset f + df_length f < (case start of None \<Rightarrow> n | Some a \<Rightarrow> a)) \<and>
     (\<forall>f \<in> set fds. df_type f = inferFieldType (df_length f)) \<and> (\<forall>a. start = Some a \<longrightarrow> a < n))"

lemma field_step_scanned:
  assumes "scanned base others n (fds, start)"
  shows "scanned base others (Suc n) (field_step base others (fds, start) n)"
proof (cases start)
  case None
  then show ?thesis
    using assms by (auto simp: scanned_def field_step_def less_Suc_eq covers_def)
next
  case (Some a)
  show ?thesis
  proof (cases "differs base others n")
    case True
    with Some assms show ?thesis
      by (auto simp: scanned_def field_step_def less_Suc_eq covers_def)
  next
    case False
    with Some assms show ?thesis
      by (auto simp: scanned_def field_step_def less_Suc_eq covers_def spaced_snoc)
  qed
qed

lemma scan_ok: "scanned base others n (foldl (field_step base others) ([], None) [0..<n])"
proof (induction n)
  case (Suc n)
  then show ?case
    by (cases "foldl (field_step base others) ([], None) [0..<n]") (simp add: field_step_scanned)
qed (simp add: scanned_def)

text \<open>C23. The dynamic fields of a group of captures are exactly the bytes of the first response that another
  capture does not share: every such byte lies in a field and no other byte does; the fields are in
  order, not empty, not adjacent, and within the response.\<close>

theorem dynamic_fields_exact:
  assumes "records = r0 # r1 # rs" "base = ex_response (er_exchange r0)"
  shows "(\<forall>i < length base. (\<exists>f \<in> set (detectDynamicFields records). covers f i) \<longleftrightarrow>
      (\<exists>r \<in> set (r1 # rs). length (ex_response (er_exchange r)) \<le> i \<or> ex_response (er_exchange r) ! i \<noteq> base ! i)) \<and>
    spaced 0 (detectDynamicFields records) \<and>
    (\<forall>f \<in> set (detectDynamicFields records). df_offset f + df_length f \<le> length base \<and> df_type f = inferFieldType (df_length f))"
proof -
  let ?o = "map (ex_response \<circ> er_exchange) (r1 # rs)"
  obtain fds start where f: "foldl (field_step base ?o) ([], None) [0..<length base] = (fds, start)"
    by fastforce
  have ok: "scanned base ?o (length base) (fds, start)"
    using scan_ok [of base ?o "length base"] f by simp
  have d: "detectDynamicFields records = (case start of None \<Rightarrow> fds | Some a \<Rightarrow> fds @ [mk_field a (length base)])"
    using f unfolding assms detectDynamicFields_def fields_between_def by simp
  have df: "differs base ?o i \<longleftrightarrow> (\<exists>r \<in> set (r1 # rs). length (ex_response (er_exchange r)) \<le> i \<or> ex_response (er_exchange r) ! i \<noteq> base ! i)" for i
    by (auto simp: differs_def)
  show ?thesis
  proof (cases start)
    case None
    then show ?thesis
      using ok unfolding df [symmetric] d by (force simp: scanned_def)
  next
    case (Some a)
    then show ?thesis
      using ok unfolding df [symmetric] d by (force simp: scanned_def spaced_snoc covers_def)
  qed
qed

section \<open>Signatures\<close>

lemma parse_pattern_byte: "parseHexPattern (pattern_byte b @ s) = b # parseHexPattern s"
proof (cases "0x20 \<le> b \<and> b \<le> 0x7E \<and> \<not> isRegexMeta b")
  case True
  then have "char_of_byte b \<noteq> esc"
    by (auto simp: isRegexMeta_def esc_def)
  then show ?thesis
    using True by (simp add: pattern_byte_def)
next
  case False
  then have "pattern_byte b @ s = esc # CHR ''x'' # hex_encode [b] @ s"
    by (simp add: pattern_byte_def del: hex_encode_one)
  then show ?thesis
    by (simp only: parseHexPattern.simps hex_escape_hex) simp
qed

lemma parse_pattern: "parseHexPattern (concat (map pattern_byte bs)) = bs"
  by (induction bs) (simp_all add: parse_pattern_byte)

lemma hex_digit_chars: "n < 16 \<Longrightarrow> hex_digit n \<notin> {CHR ''.'', CHR ''^'', CHR ''$''}"
  using hex_val_digit [of n] by (auto simp: hex_val_def)

lemma pattern_byte_chars: "c \<in> set (pattern_byte b) \<Longrightarrow> c \<notin> {CHR ''.'', CHR ''^'', CHR ''$''}"
  using hex_digit_chars [of "unat b div 16"] hex_digit_chars [of "unat b mod 16"] unsigned_less [of b]
  by (auto simp: pattern_byte_def isRegexMeta_def esc_def split: if_splits)

lemma pattern_chars: "c \<in> set (concat (map pattern_byte bs)) \<Longrightarrow> c \<notin> {CHR ''.'', CHR ''^'', CHR ''$''}"
  using pattern_byte_chars by fastforce

text \<open>C22. The manifest is read by the running service: there the generated signature accepts its own probe, and
  altogether exactly the data that is as long or up to 100 bytes longer and starts with the same (up to)
  eight bytes - with nothing to compare for a probe of fewer than four.\<close>

theorem generated_signature_exact:
  assumes "pc_signature cfg = generateSignature probe" "probe \<noteq> []"
  shows "matchProbe (compile_probe cfg) data \<longleftrightarrow>
    length probe \<le> length data \<and> length data \<le> length probe + 100 \<and> (4 \<le> length probe \<longrightarrow> take 8 probe = take (min 8 (length probe)) data)"
proof -
  define bs where "bs = take (if length probe < 8 then length probe else 8) probe"
  define p where "p = concat (map pattern_byte bs)"
  have bs: "bs = take 8 probe" "length bs = min 8 (length probe)"
    by (auto simp: bs_def)
  have chars: "CHR ''.'' \<notin> set p" "CHR ''$'' \<notin> set p"
    using pattern_chars unfolding p_def by blast+
  have parse: "parseHexPattern p = bs"
    by (simp add: p_def parse_pattern)
  have trim: "trim_suffix (trim_prefix (CHR ''^'' # p) ''^'') ''$'' = p"
    using chars(2) by (auto simp: trim_prefix_def trim_suffix_def has_prefix_def has_suffix_iff)
  note c = compile_probe_def compile_pattern_def assms(1) generateSignature_def findStablePattern_def Let_def
  show ?thesis
  proof (cases "length probe < 4")
    case True
    then show ?thesis
      using assms(2) by (auto simp: c matchProbe_def)
  next
    case False
    have "sg_pattern (generateSignature probe) = CHR ''^'' # p"
      using False by (simp add: generateSignature_def findStablePattern_def p_def bs_def)
    then have cp: "compile_probe cfg = \<lparr>cp_config = cfg, cp_hexPrefix = bs, cp_hasWildcard = False, cp_segments = [], cp_contains = []\<rparr>"
      using chars(1) by (simp add: compile_probe_def compile_pattern_def assms(1) trim parse Let_def)
        (simp add: generateSignature_def)
    have "bs \<noteq> []"
      using False bs(1) by auto
    then show ?thesis
      using False by (auto simp: matchProbe_def cp assms(1) generateSignature_def starts_with_def bs Let_def min.commute)
  qed
qed

section \<open>Recordings\<close>

text \<open>A recording that was written is loaded with the response that was recorded, and converting it
  writes exactly that response.\<close>

lemma recording_reads_back:
  assumes "recorder_record ok now r name protocol port ip probe response fs = (fs', True)"
    "path_join [rec_dir r, name @ ''.yaml''] \<noteq> path_join [rec_dir r, name @ ''.bin'']"
  shows "\<exists>c. loadCapture fs' (path_join [rec_dir r, name @ ''.yaml'']) = Some (c, response) \<and>
    hex_decode (cd_probeHex c) = Some probe \<and> cd_name c = name \<and> cd_port c = port \<and> cd_service c = rec_service r"
  using assms by (auto simp: recorder_record_def loadCapture_def Let_def split: if_splits)

lemma converting_restores:
  assumes "loadCapture fs p = Some (c, r)" "ok q"
  shows "convertToBinary ok fs p q = (fs(q \<mapsto> RecRaw r), True)"
  using assms by (simp add: convertToBinary_def)

section \<open>Examples\<close>

definition capture_of :: "bytes \<Rightarrow> exchange_record" where
  "capture_of resp =
     \<lparr>er_session = newSession_cap 0 (\<lparr>fk_protocol = ''tcp'', fk_clientIP = ''10.0.0.1'', fk_clientPort = 4000,
        fk_serverIP = ''10.0.0.2'', fk_serverPort = 21\<rparr>),
      er_exchange = \<lparr>ex_index = 0, ex_probe = [1], ex_response = resp, ex_probeTime = 0, ex_responseTime = 0,
        ex_probePackets = [], ex_responsePackets = []\<rparr>, er_hash = [], er_port = 21\<rparr>"

lemma dynamic_fields_exact_witness:
  "\<exists>f \<in> set (detectDynamicFields [capture_of [1, 2, 3], capture_of [1, 9, 3, 4]]). covers f 1"
proof -
  have "(\<exists>f \<in> set (detectDynamicFields [capture_of [1, 2, 3], capture_of [1, 9, 3, 4]]). covers f 1) \<longleftrightarrow>
    (\<exists>r \<in> set [capture_of [1, 9, 3, 4]]. length (ex_response (er_exchange r)) \<le> 1 \<or> ex_response (er_exchange r) ! 1 \<noteq> [1, 2, 3] ! 1)"
    using dynamic_fields_exact [of "[capture_of [1, 2, 3], capture_of [1, 9, 3, 4]]" "capture_of [1, 2, 3]" "capture_of [1, 9, 3, 4]" "[]" "[1, 2, 3]"]
    by (simp add: capture_of_def)
  then show ?thesis
    by (simp add: capture_of_def)
qed

definition odd_probe :: bytes where "odd_probe = [0x5B, 0x2E, 0xFE, 0x53, 0x4D]"

lemma generated_signature_exact_witness:
  "matchProbe (compile_probe (probe_for ''x'' [capture_of [1]]\<lparr>pc_signature := generateSignature odd_probe\<rparr>)) (odd_probe @ [7]) \<and>
   \<not> matchProbe (compile_probe (probe_for ''x'' [capture_of [1]]\<lparr>pc_signature := generateSignature odd_probe\<rparr>)) [0x5B, 0x2E, 0xFD, 0x53, 0x4D]"
  using generated_signature_exact [of "probe_for ''x'' [capture_of [1]]\<lparr>pc_signature := generateSignature odd_probe\<rparr>" odd_probe "odd_probe @ [7]"]
    generated_signature_exact [of "probe_for ''x'' [capture_of [1]]\<lparr>pc_signature := generateSignature odd_probe\<rparr>" odd_probe "[0x5B, 0x2E, 0xFD, 0x53, 0x4D]"]
  by (simp add: odd_probe_def)

end
