(* ===== verification/Linux_Backend.thy ===== *)
theory Linux_Backend
  imports Win_Profile
begin

text \<open>
  The Linux stack backend (\<open>internal/ebpf/types.go\<close>, \<open>loader.go\<close>, \<open>teardown.go\<close>): the profile as the
  eBPF map holds it, the manager's life from load to close, and the stateless teardown of \<open>mimic stop\<close>
  (\<open>cmd/mimic/stop.go\<close>).

  The eBPF program is C and runs in the kernel.  The netlink library is the record \<open>netlink\<close>: its calls
  on a kernel state of any type, for one interface; a call that fails changes nothing.
\<close>

section \<open>The profile in the map\<close>

record bpf_profile =
  bp_ttl :: u8
  bp_dfBit :: u8
  bp_ipidBehavior :: u8
  bp_ecnEcho :: u8
  bp_windowSize :: u16
  bp_windowScale :: u8
  bp_tcpTimestamps :: u8
  bp_mss :: u16
  bp_sackPermitted :: u8
  bp_ecnSupport :: u8
  bp_optionsOrder :: "u8 list"
  bp_optionsCount :: u8
  bp_winQuirks :: u8
  bp_ackInRST :: u8
  bp_ecnCC :: u8
  bp_windowInRST :: u16
  bp_icmpQuoteSize :: u8
  bp_icmpDFInQuote :: u8
  bp_icmpTTLInQuote :: u8
  bp_icmpRateLimit :: u8
  bp_udpClosedPortResponse :: u8
  bp_tsSlow :: u8

definition tcpOptionFromString :: "string \<Rightarrow> u8" where
  "tcpOptionFromString s =
     (if s = ''mss'' then 2
      else if s = ''nop'' then 1
      else if s = ''window_scale'' \<or> s = ''wscale'' then 3
      else if s = ''sack_permitted'' \<or> s = ''sack_perm'' \<or> s = ''sack'' then 4
      else if s = ''timestamp'' \<or> s = ''timestamps'' then 8
      else if s = ''eol'' then 0
      else 1)"

definition ipidBehaviorFromString :: "string \<Rightarrow> u8" where
  "ipidBehaviorFromString s =
     (if s = ''incremental'' \<or> s = ''inc'' then 0
      else if s = ''random'' \<or> s = ''rand'' then 1
      else if s = ''zero'' \<or> s = ''0'' then 2
      else 0)"

definition ackInRSTFromString :: "string \<Rightarrow> u8" where
  "ackInRSTFromString s =
     (if s = ''zero'' \<or> s = ''0'' then 0
      else if s = ''echoed'' \<or> s = ''echo'' then 1
      else if s = ''incremented'' \<or> s = ''inc'' \<or> s = ''increment'' then 2
      else 0)"

definition flag :: "bool \<Rightarrow> u8" where
  "flag b = (if b then 1 else 0)"

lemma flag_iff [simp]: "flag b = 1 \<longleftrightarrow> b" "flag b = 0 \<longleftrightarrow> \<not> b"
  by (simp_all add: flag_def)

definition profileToBPF :: "os_profile \<Rightarrow> bpf_profile" where
  "profileToBPF p =
     (let s = prof_stack p; opts = st_tcpOptionsOrder s;
          echo = (to_lower (prof_family p) = ''linux'');
          win = equal_fold (prof_family p) ''windows'';
          count = (of_nat (length opts) :: u8)
      in \<lparr>bp_ttl = st_ttl s,
          bp_dfBit = flag (st_dfBit s),
          bp_ipidBehavior = ipidBehaviorFromString (st_ipIDBehavior s),
          bp_ecnEcho = flag echo,
          bp_windowSize = st_windowSize s,
          bp_windowScale = st_windowScale s,
          bp_tcpTimestamps = flag (st_tcpTimestamps s),
          bp_mss = st_mss s,
          bp_sackPermitted = flag (st_sackPermitted s),
          bp_ecnSupport = flag (st_ecnSupport s),
          bp_optionsOrder = (let os = map tcpOptionFromString (take 10 opts) in os @ replicate (10 - length os) 0),
          bp_optionsCount = (if count > 10 then 10 else count),
          bp_winQuirks = flag win,
          bp_ackInRST = ackInRSTFromString (st_ackInRST s),
          bp_ecnCC = flag (echo \<or> equal_fold (st_explicitCongestion s) ''echo''),
          bp_windowInRST = st_windowInRST s,
          bp_icmpQuoteSize = st_icmpQuoteSize s,
          bp_icmpDFInQuote = flag (st_icmpDFInQuote s),
          bp_icmpTTLInQuote = st_icmpTTLInQuote s,
          bp_icmpRateLimit = flag (st_icmpRateLimit s),
          bp_udpClosedPortResponse = flag (st_udpClosedPortResponse s),
          bp_tsSlow = flag (win \<and> st_tcpTimestamps s \<and> split_head (prof_version p) (CHR ''.'') = ''6'')\<rparr>)"

section \<open>The manager\<close>

datatype tc_hook = Egress_Hook | Ingress_Hook

text \<open>A filter attached to a hook; only a BPF filter has a name.\<close>

record tc_filter =
  tf_hook :: tc_hook
  tf_handle :: nat
  tf_priority :: nat
  tf_name :: "string option"

text \<open>The objects of the loaded program, as far as the manager writes them.\<close>

record bpf_objs =
  bo_profile :: "bpf_profile option"
  bo_enabled :: nat
  bo_counter :: u16
  bo_seed :: u32

record 'k netlink =
  nl_link :: "'k \<Rightarrow> bool"
  nl_filters :: "'k \<Rightarrow> tc_hook \<Rightarrow> tc_filter list option"
  nl_filter_add :: "'k \<Rightarrow> tc_filter \<Rightarrow> 'k option"
  nl_filter_del :: "'k \<Rightarrow> tc_filter \<Rightarrow> 'k option"
  nl_qdiscs :: "'k \<Rightarrow> string list option"
  nl_qdisc_add :: "'k \<Rightarrow> string + 'k"
  nl_qdisc_del :: "'k \<Rightarrow> string \<Rightarrow> 'k option"

record fp_manager =
  fm_objs :: "bpf_objs option"
  fm_filter :: "tc_filter option"
  fm_ingressFilter :: "tc_filter option"
  fm_enabled :: bool

definition newFingerprintManager :: fp_manager where
  "newFingerprintManager = \<lparr>fm_objs = None, fm_filter = None, fm_ingressFilter = None, fm_enabled = False\<rparr>"

definition egress_filter :: tc_filter where
  "egress_filter = \<lparr>tf_hook = Egress_Hook, tf_handle = 1, tf_priority = 1, tf_name = Some ''deceiver_fingerprint''\<rparr>"

definition ingress_filter :: tc_filter where
  "ingress_filter = \<lparr>tf_hook = Ingress_Hook, tf_handle = 1, tf_priority = 1, tf_name = Some ''deceiver_fingerprint_ingress''\<rparr>"

datatype fm_error = LinkError | QdiscError | EgressError | IngressError | ObjectsError | MapError | NotLoaded

definition attachTC :: "'k netlink \<Rightarrow> 'k \<Rightarrow> fp_manager \<Rightarrow> 'k \<times> fp_manager \<times> fm_error option" where
  "attachTC nl k fm =
     (if \<not> nl_link nl k then (k, fm, Some LinkError)
      else
        let rest = (\<lambda>k. case nl_filter_add nl k egress_filter of
            None \<Rightarrow> (k, fm, Some EgressError)
          | Some k1 \<Rightarrow>
              let fm1 = fm\<lparr>fm_filter := Some egress_filter\<rparr> in
              (case nl_filter_add nl k1 ingress_filter of
                 None \<Rightarrow> (k1, fm1, Some IngressError)
               | Some k2 \<Rightarrow> (k2, fm1\<lparr>fm_ingressFilter := Some ingress_filter\<rparr>, None)))
        in case nl_qdisc_add nl k of
             Inr k0 \<Rightarrow> rest k0
           | Inl e \<Rightarrow> if e \<noteq> ''file exists'' then (k, fm, Some QdiscError) else rest k)"

text \<open>\<open>objs\<close> is the loaded program, \<open>puts n\<close> tells whether its \<open>n\<close>-th map update succeeds, \<open>seed\<close> is the
  low half of the clock.  The objects are closed after a failure and stay in the manager.\<close>

definition fm_load :: "'k netlink \<Rightarrow> bool \<Rightarrow> (nat \<Rightarrow> bool) \<Rightarrow> u32 \<Rightarrow> 'k \<Rightarrow> fp_manager \<Rightarrow> 'k \<times> fp_manager \<times> fm_error option" where
  "fm_load nl loaded puts seed k fm =
     (if \<not> loaded then (k, fm, Some ObjectsError)
      else
        let fm1 = fm\<lparr>fm_objs := Some \<lparr>bo_profile = None, bo_enabled = 0, bo_counter = 0, bo_seed = 0\<rparr>\<rparr> in
        if \<not> puts 0 then (k, fm1, Some MapError)
        else
          let fm2 = fm1\<lparr>fm_objs := Some \<lparr>bo_profile = None, bo_enabled = 0, bo_counter = 0, bo_seed = seed\<rparr>\<rparr> in
          if \<not> puts 1 then (k, fm2, Some MapError) else attachTC nl k fm2)"

definition put_objs :: "bool \<Rightarrow> (bpf_objs \<Rightarrow> bpf_objs) \<Rightarrow> fp_manager \<Rightarrow> fp_manager \<times> fm_error option" where
  "put_objs ok f fm =
     (case fm_objs fm of
        None \<Rightarrow> (fm, Some NotLoaded)
      | Some b \<Rightarrow> if ok then (fm\<lparr>fm_objs := Some (f b)\<rparr>, None) else (fm, Some MapError))"

definition fm_setProfile :: "bool \<Rightarrow> os_profile \<Rightarrow> fp_manager \<Rightarrow> fp_manager \<times> fm_error option" where
  "fm_setProfile ok p = put_objs ok (\<lambda>b. b\<lparr>bo_profile := Some (profileToBPF p)\<rparr>)"

definition fm_enable :: "bool \<Rightarrow> fp_manager \<Rightarrow> fp_manager \<times> fm_error option" where
  "fm_enable ok fm =
     (let (fm1, e) = put_objs ok (\<lambda>b. b\<lparr>bo_enabled := 1\<rparr>) fm in (if e = None then fm1\<lparr>fm_enabled := True\<rparr> else fm1, e))"

definition fm_disable :: "bool \<Rightarrow> fp_manager \<Rightarrow> fp_manager \<times> fm_error option" where
  "fm_disable ok fm =
     (let (fm1, e) = put_objs ok (\<lambda>b. b\<lparr>bo_enabled := 0\<rparr>) fm in (if e = None then fm1\<lparr>fm_enabled := False\<rparr> else fm1, e))"

text \<open>Closing deletes what the manager attached and counts the errors; \<open>closes\<close>: the objects close.\<close>

definition del_opt :: "'k netlink \<Rightarrow> tc_filter option \<Rightarrow> 'k \<times> nat \<Rightarrow> 'k \<times> nat" where
  "del_opt nl f = (\<lambda>(k, errs). case f of
     None \<Rightarrow> (k, errs)
   | Some f \<Rightarrow> (case nl_filter_del nl k f of None \<Rightarrow> (k, errs + 1) | Some k1 \<Rightarrow> (k1, errs)))"

definition fm_close :: "'k netlink \<Rightarrow> bool \<Rightarrow> 'k \<Rightarrow> fp_manager \<Rightarrow> 'k \<times> nat" where
  "fm_close nl closes k fm =
     (let (k1, errs) = del_opt nl (fm_ingressFilter fm) (del_opt nl (fm_filter fm) (k, 0))
      in (k1, if fm_objs fm \<noteq> None \<and> \<not> closes then errs + 1 else errs))"

section \<open>Teardown\<close>

definition isMimicFilter :: "tc_filter \<Rightarrow> bool" where
  "isMimicFilter f \<longleftrightarrow> (case tf_name f of None \<Rightarrow> False | Some n \<Rightarrow> has_prefix n ''deceiver_fingerprint'')"

record teardown_result =
  td_removed :: nat
  td_qdisc :: bool
  td_foreign :: nat

definition del_ours :: "'k netlink \<Rightarrow> 'k \<times> nat \<Rightarrow> tc_filter \<Rightarrow> 'k \<times> nat" where
  "del_ours nl = (\<lambda>(k, n) f.
     if isMimicFilter f then (case nl_filter_del nl k f of None \<Rightarrow> (k, n) | Some k1 \<Rightarrow> (k1, n + 1)) else (k, n))"

definition strip_hook :: "'k netlink \<Rightarrow> 'k \<times> nat \<Rightarrow> tc_hook \<Rightarrow> 'k \<times> nat" where
  "strip_hook nl = (\<lambda>(k, n) h.
     case nl_filters nl k h of None \<Rightarrow> (k, n) | Some fs \<Rightarrow> foldl (del_ours nl) (k, n) fs)"

definition count_hook :: "'k netlink \<Rightarrow> 'k \<Rightarrow> tc_hook \<Rightarrow> nat" where
  "count_hook nl k h = (case nl_filters nl k h of None \<Rightarrow> 0 | Some fs \<Rightarrow> length fs)"

definition delClsact :: "'k netlink \<Rightarrow> 'k \<Rightarrow> 'k \<times> bool" where
  "delClsact nl k =
     (case nl_qdiscs nl k of
        None \<Rightarrow> (k, False)
      | Some qs \<Rightarrow>
          if ''clsact'' \<in> set qs then
            (case nl_qdisc_del nl k ''clsact'' of None \<Rightarrow> (k, False) | Some k1 \<Rightarrow> (k1, True))
          else (k, False))"

definition teardownInterface :: "'k netlink \<Rightarrow> 'k \<Rightarrow> bool \<Rightarrow> 'k \<times> teardown_result option" where
  "teardownInterface nl k purge =
     (if \<not> nl_link nl k then (k, None)
      else
        let (k1, n) = foldl (strip_hook nl) (k, 0) [Egress_Hook, Ingress_Hook] in
        if \<not> purge then (k1, Some \<lparr>td_removed = n, td_qdisc = False, td_foreign = 0\<rparr>)
        else
          let foreign = count_hook nl k1 Egress_Hook + count_hook nl k1 Ingress_Hook in
          if foreign = 0 then
            let (k2, q) = delClsact nl k1 in (k2, Some \<lparr>td_removed = n, td_qdisc = q, td_foreign = 0\<rparr>)
          else (k1, Some \<lparr>td_removed = n, td_qdisc = False, td_foreign = foreign\<rparr>))"

text \<open>\<open>teardownStack\<close>: the nft tables, each deleted if it can be listed, then the interface.\<close>

definition teardownStack ::
  "'k netlink \<Rightarrow> string list \<Rightarrow> (string \<Rightarrow> bool) \<Rightarrow> 'k \<Rightarrow> string \<Rightarrow> bool \<Rightarrow> 'k \<times> string list \<times> teardown_result option" where
  "teardownStack nl tables listed k ifn purge =
     (let freed = filter listed tables
      in if ifn = [] then (k, freed, Some \<lparr>td_removed = 0, td_qdisc = False, td_foreign = 0\<rparr>)
         else let (k1, r) = teardownInterface nl k purge in (k1, freed, r))"

end
