(* ===== verification/Linux_Facts.thy ===== *)
theory Linux_Facts
  imports Linux_Backend
begin

text \<open>
  What the Linux backend guarantees: it reads a profile as the Windows backend does, its teardown removes
  its own filters and nobody else's, and what a failed load leaves behind.
\<close>

section \<open>Two backends, one profile\<close>

text \<open>A profile whose keywords are written as the shipped ones are: in lower case, and not too many.\<close>

definition plain_keywords :: "os_profile \<Rightarrow> bool" where
  "plain_keywords p \<longleftrightarrow> to_lower (st_ipIDBehavior (prof_stack p)) = st_ipIDBehavior (prof_stack p) \<and>
     (\<forall>s \<in> set (st_tcpOptionsOrder (prof_stack p)). to_lower s = s) \<and> length (st_tcpOptionsOrder (prof_stack p)) \<le> 10"

lemma optionFromString_kind: "to_lower s = s \<Longrightarrow> tcpOptionFromString s = tcpOptKind s"
  by (simp add: tcpOptionFromString_def tcpOptKind_def opt_defs Let_def)

text \<open>For such a profile the eBPF map and the WinDivert snapshot hold the same values wherever both have a
  field: the same host looks alike on both systems.\<close>

theorem backends_agree:
  assumes "plain_keywords p"
  shows "let b = profileToBPF p; w = toWinProfile p in
    bp_ttl b = wp_ttl w \<and> bp_dfBit b = flag (wp_dfBit w) \<and> bp_ipidBehavior b = wp_ipidBehavior w \<and>
    bp_windowSize b = wp_windowSize w \<and> bp_windowScale b = wp_windowScale w \<and> bp_mss b = wp_mss w \<and>
    bp_tcpTimestamps b = flag (wp_tcpTimestamps w) \<and> bp_sackPermitted b = flag (wp_sackPermitted w) \<and>
    bp_optionsCount b = wp_optionsCount w \<and> (1 < wp_optionsCount w \<longrightarrow> bp_optionsOrder b ! 1 = wp_opt1 w) \<and>
    bp_windowInRST b = wp_windowInRST w \<and> bp_ecnEcho b = flag (wp_ecnEcho w) \<and> bp_ecnCC b = flag (wp_ecnCC w) \<and>
    bp_winQuirks b = flag (wp_winQuirks w) \<and> bp_tsSlow b = flag (wp_tsSlow w) \<and>
    bp_icmpDFInQuote b = flag (wp_icmpQuoteDF w)"
proof -
  let ?s = "prof_stack p" and ?os = "st_tcpOptionsOrder (prof_stack p)"
  have ip: "ipidBehaviorFromString (st_ipIDBehavior ?s) = wp_ipidBehavior (toWinProfile p)"
    using assms by (simp add: plain_keywords_def ipidBehaviorFromString_def toWinProfile_def ipid_defs Let_def)
  have len: "length ?os \<le> 10"
    using assms by (simp add: plain_keywords_def)
  have small: "unat (of_nat (length ?os) :: u8) = length ?os"
    using len by (simp add: unsigned_of_nat take_bit_nat_eq_self_iff)
  have count: "bp_optionsCount (profileToBPF p) = of_nat (length ?os)"
    using len small by (simp add: profileToBPF_def Let_def word_less_nat_alt not_less)
  have opt: "bp_optionsOrder (profileToBPF p) ! 1 = wp_opt1 (toWinProfile p)" if "1 < length ?os"
  proof -
    have "to_lower (?os ! 1) = ?os ! 1"
      using assms that nth_mem unfolding plain_keywords_def by blast
    then show ?thesis
      using that len by (simp add: profileToBPF_def toWinProfile_def Let_def nth_append optionFromString_kind)
  qed
  have lt: "1 < (of_nat (length ?os) :: u8) \<longleftrightarrow> 1 < length ?os"
    using small by (simp add: word_less_nat_alt)
  have wc: "wp_optionsCount (toWinProfile p) = of_nat (length ?os)"
    by (simp add: toWinProfile_def Let_def)
  show ?thesis
    using ip count opt lt unfolding Let_def wc
    by (simp add: profileToBPF_def toWinProfile_def Let_def)
qed

lemma shipped_plain: "plain_keywords windows_11" "plain_keywords ubuntu" "plain_keywords sequoia"
  by (simp_all add: plain_keywords_def windows_11_def ubuntu_def sequoia_def to_lower_def lower_char_def)

lemma backends_agree_witness:
  "bp_windowSize (profileToBPF ubuntu) = wp_windowSize (toWinProfile ubuntu) \<and>
   bp_ipidBehavior (profileToBPF ubuntu) = wp_ipidBehavior (toWinProfile ubuntu)"
  using backends_agree [OF shipped_plain(2)] by (simp add: Let_def)

text \<open>The keywords are matched as written here and in lower case there.\<close>

lemma keyword_case_differs:
  assumes "st_ipIDBehavior (prof_stack p) = ''Random''"
  shows "bp_ipidBehavior (profileToBPF p) = 0 \<and> wp_ipidBehavior (toWinProfile p) = ipidRandom"
proof -
  have "to_lower ''Random'' = ''random''" by code_simp
  then show ?thesis
    using assms by (simp add: profileToBPF_def toWinProfile_def ipidBehaviorFromString_def Let_def)
qed

text \<open>256 options are none.\<close>

lemma option_count_wraps:
  assumes "length (st_tcpOptionsOrder (prof_stack p)) = 256"
  shows "bp_optionsCount (profileToBPF p) = 0"
  using assms by (simp add: profileToBPF_def Let_def)

section \<open>Teardown\<close>

text \<open>What is relied on of netlink, with \<open>fl k\<close> the filters attached in the kernel state \<open>k\<close>: a list
  shows the filters of its hook, a deletion removes that filter, and a deleted qdisc takes its filters
  with it.\<close>

definition netlink_documented :: "'k netlink \<Rightarrow> ('k \<Rightarrow> tc_filter list) \<Rightarrow> bool" where
  "netlink_documented nl fl \<longleftrightarrow>
     (\<forall>k h fs. nl_filters nl k h = Some fs \<longrightarrow> fs = filter (\<lambda>f. tf_hook f = h) (fl k)) \<and>
     (\<forall>k f k'. nl_filter_del nl k f = Some k' \<longrightarrow> fl k' = filter (\<lambda>g. g \<noteq> f) (fl k)) \<and>
     (\<forall>k q k'. nl_qdisc_del nl k q = Some k' \<longrightarrow> fl k' = [])"

abbreviation foreign :: "tc_filter list \<Rightarrow> tc_filter list" where
  "foreign fs \<equiv> filter (\<lambda>f. \<not> isMimicFilter f) fs"

abbreviation ours :: "tc_filter list \<Rightarrow> tc_filter list" where
  "ours fs \<equiv> filter isMimicFilter fs"

text \<open>From one kernel state to another only our filters went away.\<close>

definition only_ours_gone :: "('k \<Rightarrow> tc_filter list) \<Rightarrow> 'k \<Rightarrow> 'k \<Rightarrow> bool" where
  "only_ours_gone fl k k' \<longleftrightarrow> (\<exists>P. (\<forall>f. \<not> isMimicFilter f \<longrightarrow> P f) \<and> fl k' = filter P (fl k))"

lemma only_ours_refl [simp]: "only_ours_gone fl k k"
  unfolding only_ours_gone_def by (rule exI [of _ "\<lambda>f. True"]) simp

lemma only_ours_trans: "only_ours_gone fl a b \<Longrightarrow> only_ours_gone fl b c \<Longrightarrow> only_ours_gone fl a c"
  unfolding only_ours_gone_def
proof (elim exE conjE)
  fix P Q
  assume "\<forall>f. \<not> isMimicFilter f \<longrightarrow> P f" "fl b = filter P (fl a)" "\<forall>f. \<not> isMimicFilter f \<longrightarrow> Q f" "fl c = filter Q (fl b)"
  then show "\<exists>R. (\<forall>f. \<not> isMimicFilter f \<longrightarrow> R f) \<and> fl c = filter R (fl a)"
    by (intro exI [of _ "\<lambda>f. P f \<and> Q f"]) (simp add: conj_commute)
qed

lemma only_ours_foreign: "only_ours_gone fl k k' \<Longrightarrow> foreign (fl k') = foreign (fl k)"
  unfolding only_ours_gone_def
proof (elim exE conjE)
  fix P
  assume p: "\<forall>f. \<not> isMimicFilter f \<longrightarrow> P f" and k: "fl k' = filter P (fl k)"
  have "(\<lambda>f. P f \<and> \<not> isMimicFilter f) = (\<lambda>f. \<not> isMimicFilter f)" "(\<lambda>f. \<not> isMimicFilter f \<and> P f) = (\<lambda>f. \<not> isMimicFilter f)"
    using p by auto
  then show ?thesis
    by (simp add: k)
qed

lemma del_ours_gone:
  assumes "netlink_documented nl fl" "del_ours nl (k, n) f = (k', n')"
  shows "only_ours_gone fl k k' \<and> n \<le> n'"
proof (cases "(k', n') = (k, n)")
  case False
  then have f: "isMimicFilter f" "nl_filter_del nl k f = Some k'" "n' = n + 1"
    using assms(2) by (auto simp: del_ours_def split: if_splits option.splits)
  have "fl k' = filter (\<lambda>g. g \<noteq> f) (fl k)"
    using assms(1) f(2) unfolding netlink_documented_def by blast
  then show ?thesis
    unfolding only_ours_gone_def using f by (intro conjI exI [of _ "\<lambda>g. g \<noteq> f"]) auto
qed simp

lemma strip_gone:
  assumes "netlink_documented nl fl" "strip_hook nl (k, n) h = (k', n')"
  shows "only_ours_gone fl k k'"
proof -
  have "foldl (del_ours nl) (a, m) fs = (b, m') \<Longrightarrow> only_ours_gone fl a b" for fs a b m m'
  proof (induction fs arbitrary: a m)
    case (Cons f fs)
    obtain c l where c: "del_ours nl (a, m) f = (c, l)" by fastforce
    with Cons show ?case
      using del_ours_gone [OF assms(1) c] only_ours_trans by fastforce
  qed simp
  then show ?thesis
    using assms(2) by (auto simp: strip_hook_def split: option.splits)
qed

lemma strip_both:
  assumes "netlink_documented nl fl" "foldl (strip_hook nl) (k, 0) [Egress_Hook, Ingress_Hook] = (k', n)"
  shows "only_ours_gone fl k k'"
proof -
  obtain a m where a: "strip_hook nl (k, 0) Egress_Hook = (a, m)" by fastforce
  then have b: "strip_hook nl (a, m) Ingress_Hook = (k', n)"
    using assms(2) by simp
  show ?thesis
    by (rule only_ours_trans [OF strip_gone [OF assms(1) a] strip_gone [OF assms(1) b]])
qed

lemma unlisted_hook:
  assumes "netlink_documented nl fl" "f \<in> set (fl k)" "count_hook nl k Egress_Hook + count_hook nl k Ingress_Hook = 0"
  shows "nl_filters nl k (tf_hook f) = None"
proof (rule ccontr)
  assume "nl_filters nl k (tf_hook f) \<noteq> None"
  then obtain fs where fs: "nl_filters nl k (tf_hook f) = Some fs" by blast
  then have "fs = filter (\<lambda>g. tf_hook g = tf_hook f) (fl k)"
    using assms(1) unfolding netlink_documented_def by blast
  then have "f \<in> set fs"
    using assms(2) by simp
  moreover have "count_hook nl k (tf_hook f) = 0"
    using assms(3) by (cases "tf_hook f") simp_all
  ultimately show False
    using fs by (simp add: count_hook_def)
qed

text \<open>C33. What teardown does to the filters of other programs.  Stripping our filters from the two hooks leaves
  them all attached.  After that nothing is detached, unless a purge deletes the qdisc; and then the filters
  lost with it are all on a hook that could not be listed: an error of the listing counts as an empty hook.\<close>

theorem teardown_spares_foreign:
  assumes "netlink_documented nl fl" "teardownInterface nl k purge = (k', Some r)"
  shows "let k1 = fst (foldl (strip_hook nl) (k, 0) [Egress_Hook, Ingress_Hook]) in
     foreign (fl k1) = foreign (fl k) \<and> set (fl k1) \<subseteq> set (fl k) \<and>
     (if td_qdisc r then purge \<and> fl k' = [] \<and> (\<forall>f \<in> set (fl k1). nl_filters nl k1 (tf_hook f) = None)
      else fl k' = fl k1)"
proof -
  obtain k1 n where s: "foldl (strip_hook nl) (k, 0) [Egress_Hook, Ingress_Hook] = (k1, n)"
    by fastforce
  have gone: "only_ours_gone fl k k1"
    by (rule strip_both [OF assms(1) s])
  have sub: "set (fl k1) \<subseteq> set (fl k)"
    using gone by (auto simp: only_ours_gone_def)
  have del: "if q then fl k2 = [] else k2 = k1" if "delClsact nl k1 = (k2, q)" for k2 q
    using that assms(1) by (auto simp: delClsact_def netlink_documented_def split: option.splits if_splits)
  obtain k2 q where d: "delClsact nl k1 = (k2, q)" by fastforce
  have "if td_qdisc r then purge \<and> fl k' = [] \<and> (\<forall>f \<in> set (fl k1). nl_filters nl k1 (tf_hook f) = None) else fl k' = fl k1"
    using assms(2) s d del [OF d] unlisted_hook [OF assms(1)]
    by (auto simp: teardownInterface_def Let_def split: if_splits)
  then show ?thesis
    using s sub only_ours_foreign [OF gone] by simp
qed

text \<open>So nothing of another program is lost without purging, or when both hooks can be listed.\<close>

lemma listed_hooks_spared:
  assumes "netlink_documented nl fl" "teardownInterface nl k purge = (k', Some r)"
    "purge \<Longrightarrow> \<forall>k h. nl_filters nl k h \<noteq> None"
  shows "foreign (fl k') = foreign (fl k)"
proof -
  obtain k1 n where s: "foldl (strip_hook nl) (k, 0) [Egress_Hook, Ingress_Hook] = (k1, n)"
    by fastforce
  have f: "foreign (fl k1) = foreign (fl k)"
    by (rule only_ours_foreign [OF strip_both [OF assms(1) s]])
  obtain k2 q where d: "delClsact nl k1 = (k2, q)" by fastforce
  have del: "fl k2 = fl k1 \<or> fl k2 = []"
    using d assms(1) by (auto simp: delClsact_def netlink_documented_def split: option.splits if_splits)
  have empty: "fl k1 = []" if "purge" "count_hook nl k1 Egress_Hook + count_hook nl k1 Ingress_Hook = 0"
    using unlisted_hook [OF assms(1) _ that(2)] assms(3) [OF that(1)] by (cases "fl k1") auto
  show ?thesis
    using assms(2) s f d del empty by (auto simp: teardownInterface_def Let_def split: if_splits)
qed

text \<open>When deleting an attached filter works, teardown leaves none of ours and counts them.\<close>

definition deletes_work :: "'k netlink \<Rightarrow> ('k \<Rightarrow> tc_filter list) \<Rightarrow> bool" where
  "deletes_work nl fl \<longleftrightarrow> (\<forall>k h. nl_filters nl k h \<noteq> None) \<and> (\<forall>k f. f \<in> set (fl k) \<longrightarrow> nl_filter_del nl k f \<noteq> None)"

lemma del_fold_exact:
  assumes "netlink_documented nl fl" "deletes_work nl fl"
  shows "distinct fs \<Longrightarrow> set fs \<subseteq> set (fl a) \<Longrightarrow> foldl (del_ours nl) (a, m) fs = (b, m') \<Longrightarrow>
    fl b = filter (\<lambda>f. \<not> (isMimicFilter f \<and> f \<in> set fs)) (fl a) \<and> m' = m + length (ours fs)"
proof (induction fs arbitrary: a m)
  case (Cons f fs)
  show ?case
  proof (cases "isMimicFilter f")
    case True
    have "nl_filter_del nl a f \<noteq> None"
      using assms(2) Cons.prems(2) by (simp add: deletes_work_def)
    then obtain c where c: "nl_filter_del nl a f = Some c" "fl c = filter (\<lambda>g. g \<noteq> f) (fl a)"
      using assms(1) unfolding netlink_documented_def by blast
    have "foldl (del_ours nl) (c, m + 1) fs = (b, m')"
      using Cons.prems(3) True c(1) by (simp add: del_ours_def)
    moreover have "set fs \<subseteq> set (fl c)"
      using Cons.prems(1,2) c(2) by auto
    ultimately have ih: "fl b = filter (\<lambda>g. \<not> (isMimicFilter g \<and> g \<in> set fs)) (fl c) \<and> m' = m + 1 + length (ours fs)"
      using Cons.IH [of c "m + 1"] Cons.prems(1) by simp
    have "filter (\<lambda>g. \<not> (isMimicFilter g \<and> g \<in> set fs)) (fl c) = filter (\<lambda>g. \<not> (isMimicFilter g \<and> g \<in> set (f # fs))) (fl a)"
      unfolding c(2) filter_filter using True by (intro filter_cong) auto
    with ih True show ?thesis
      by simp
  next
    case False
    have "fl b = filter (\<lambda>g. \<not> (isMimicFilter g \<and> g \<in> set fs)) (fl a) \<and> m' = m + length (ours fs)"
      using Cons.IH [of a m] Cons.prems False by (simp add: del_ours_def)
    moreover have "(\<lambda>g. \<not> (isMimicFilter g \<and> g \<in> set (f # fs))) = (\<lambda>g. \<not> (isMimicFilter g \<and> g \<in> set fs))"
      using False by auto
    ultimately show ?thesis
      using False by simp
  qed
qed simp

lemma strip_exact:
  assumes "netlink_documented nl fl" "deletes_work nl fl" "distinct (fl k)" "strip_hook nl (k, n) h = (k', n')"
  shows "fl k' = filter (\<lambda>f. \<not> (isMimicFilter f \<and> tf_hook f = h)) (fl k) \<and>
    n' = n + length (filter (\<lambda>f. isMimicFilter f \<and> tf_hook f = h) (fl k))"
proof -
  obtain fs where fs: "nl_filters nl k h = Some fs"
    using assms(2) unfolding deletes_work_def by blast
  then have eq: "fs = filter (\<lambda>f. tf_hook f = h) (fl k)"
    using assms(1) unfolding netlink_documented_def by blast
  have "fl k' = filter (\<lambda>f. \<not> (isMimicFilter f \<and> f \<in> set fs)) (fl k) \<and> n' = n + length (ours fs)"
    using del_fold_exact [OF assms(1,2), of fs k n k' n'] assms(3,4) fs eq by (simp add: strip_hook_def)
  moreover have "filter (\<lambda>f. \<not> (isMimicFilter f \<and> f \<in> set fs)) (fl k) = filter (\<lambda>f. \<not> (isMimicFilter f \<and> tf_hook f = h)) (fl k)"
    unfolding eq by (intro filter_cong) auto
  ultimately show ?thesis
    unfolding eq filter_filter by (simp add: conj_commute)
qed

lemma hook_split:
  "length (filter (\<lambda>f. P f \<and> tf_hook f = Egress_Hook) fs) + length (filter (\<lambda>f. P f \<and> tf_hook f = Ingress_Hook) fs) = length (filter P fs)"
proof (induction fs)
  case (Cons f fs)
  then show ?case by (cases "tf_hook f") auto
qed simp

lemma teardown_complete:
  assumes "netlink_documented nl fl" "deletes_work nl fl" "distinct (fl k)" "nl_link nl k"
  shows "\<exists>k' r. teardownInterface nl k purge = (k', Some r) \<and> ours (fl k') = [] \<and> td_removed r = length (ours (fl k)) \<and>
    (\<not> purge \<longrightarrow> fl k' = foreign (fl k))"
proof -
  obtain a m where a: "strip_hook nl (k, 0) Egress_Hook = (a, m)" by fastforce
  obtain b n where b: "strip_hook nl (a, m) Ingress_Hook = (b, n)" by fastforce
  note ea = strip_exact [OF assms(1-3) a]
  have "distinct (fl a)"
    using ea assms(3) by simp
  note eb = strip_exact [OF assms(1,2) this b]
  have fb: "fl b = foreign (fl k)"
  proof -
    have "tf_hook f = Egress_Hook \<or> tf_hook f = Ingress_Hook" for f
      by (cases "tf_hook f") auto
    then show ?thesis
      using ea eb by (auto simp: filter_filter intro!: filter_cong)
  qed
  have "filter (\<lambda>f. isMimicFilter f \<and> tf_hook f = Ingress_Hook) (fl a) = filter (\<lambda>f. isMimicFilter f \<and> tf_hook f = Ingress_Hook) (fl k)"
    unfolding conjunct1 [OF ea] filter_filter by (intro filter_cong) auto
  then have n: "n = length (ours (fl k))"
    using ea eb hook_split [of isMimicFilter "fl k"] by simp
  have q: "fl k2 = [] \<or> k2 = b" if "delClsact nl b = (k2, q)" for k2 q
    using that assms(1) by (auto simp: delClsact_def netlink_documented_def split: option.splits if_splits)
  have of: "ours (foreign (fl k)) = []"
    by (simp add: filter_filter)
  show ?thesis
    using a b fb n q of assms(4) by (cases "delClsact nl b") (fastforce simp: teardownInterface_def Let_def)
qed

text \<open>So a second teardown finds nothing of ours.\<close>

lemma second_teardown_removes_nothing:
  assumes "netlink_documented nl fl" "deletes_work nl fl" "distinct (fl k)" "nl_link nl k"
    "teardownInterface nl k False = (k', Some r)" "nl_link nl k'"
  shows "\<exists>k'' r'. teardownInterface nl k' False = (k'', Some r') \<and> td_removed r' = 0 \<and> fl k'' = fl k'"
proof -
  have k': "fl k' = foreign (fl k)" "ours (fl k') = []"
    using teardown_complete [OF assms(1-4), of False] assms(5) by auto
  then have "distinct (fl k')" "foreign (fl k') = fl k'"
    using assms(3) by (simp_all add: filter_filter)
  then show ?thesis
    using teardown_complete [OF assms(1,2) _ assms(6), of False] k'(2) by auto
qed

text \<open>If the second listing fails the count stays zero, and purging deletes the qdisc with whatever is on it.\<close>

lemma unlisted_hook_purged:
  assumes "nl_link nl k" "\<forall>h. nl_filters nl k h = None" "nl_qdiscs nl k = Some [''clsact'']" "nl_qdisc_del nl k ''clsact'' = Some k'"
  shows "teardownInterface nl k True = (k', Some \<lparr>td_removed = 0, td_qdisc = True, td_foreign = 0\<rparr>)"
  using assms by (simp add: teardownInterface_def strip_hook_def count_hook_def delClsact_def)

section \<open>The life of the manager\<close>

text \<open>A load that fails at the ingress filter leaves the egress filter attached; a close after it removes it.\<close>

lemma failed_load_leaves_egress:
  assumes "nl_link nl k" "nl_qdisc_add nl k = Inr k0" "nl_filter_add nl k0 egress_filter = Some k1"
    "nl_filter_add nl k1 ingress_filter = None"
  shows "\<exists>fm. fm_load nl True (\<lambda>n. True) seed k newFingerprintManager = (k1, fm, Some IngressError) \<and>
    fm_close nl True k1 fm = del_opt nl (Some egress_filter) (k1, 0)"
  using assms by (simp add: fm_load_def attachTC_def newFingerprintManager_def fm_close_def del_opt_def Let_def
      split: option.splits prod.splits)

text \<open>Only a manager that was loaded accepts a profile or can be enabled, and loading leaves the program
  disabled, with no profile, until both are done.\<close>

lemma loaded_is_disabled:
  assumes "fm_load nl loaded puts seed k newFingerprintManager = (k', fm, None)"
  shows "fm_enabled fm = False \<and> (\<exists>b. fm_objs fm = Some b \<and> bo_enabled b = 0 \<and> bo_profile b = None \<and> bo_seed b = seed) \<and>
    fm_filter fm = Some egress_filter \<and> fm_ingressFilter fm = Some ingress_filter"
  using assms by (auto simp: fm_load_def attachTC_def newFingerprintManager_def Let_def split: if_splits option.splits sum.splits)

lemma unloaded_refuses:
  "fm_setProfile ok p newFingerprintManager = (newFingerprintManager, Some NotLoaded)"
  "fm_enable ok newFingerprintManager = (newFingerprintManager, Some NotLoaded)"
  by (simp_all add: fm_setProfile_def fm_enable_def put_objs_def newFingerprintManager_def)

text \<open>\<open>run\<close> loads, sets the profile and enables: then the map holds the profile and the program is on.\<close>

lemma run_sequence:
  assumes "fm_load nl loaded puts seed k newFingerprintManager = (k', fm, None)"
    "fm_setProfile ok1 p fm = (fm1, None)" "fm_enable ok2 fm1 = (fm2, None)"
  shows "\<exists>b. fm_objs fm2 = Some b \<and> bo_enabled b = 1 \<and> bo_profile b = Some (profileToBPF p) \<and> fm_enabled fm2 \<and>
    fm_filter fm2 = Some egress_filter \<and> fm_ingressFilter fm2 = Some ingress_filter"
  using loaded_is_disabled [OF assms(1)] assms(2,3)
  by (auto simp: fm_setProfile_def fm_enable_def put_objs_def split: option.splits if_splits)

section \<open>Example\<close>

text \<open>A kernel as the list of its filters and whether the qdisc is there.\<close>

type_synonym lab_kernel = "tc_filter list \<times> bool"

definition lab_netlink :: "lab_kernel netlink" where
  "lab_netlink = \<lparr>nl_link = (\<lambda>k. True), nl_filters = (\<lambda>k h. Some (filter (\<lambda>f. tf_hook f = h) (fst k))),
     nl_filter_add = (\<lambda>k f. if f \<in> set (fst k) then None else Some (fst k @ [f], snd k)),
     nl_filter_del = (\<lambda>k f. if f \<in> set (fst k) then Some (filter (\<lambda>g. g \<noteq> f) (fst k), snd k) else None),
     nl_qdiscs = (\<lambda>k. Some (if snd k then [''clsact''] else [])),
     nl_qdisc_add = (\<lambda>k. if snd k then Inl ''file exists'' else Inr (fst k, True)),
     nl_qdisc_del = (\<lambda>k q. if snd k then Some ([], False) else None)\<rparr>"

definition foreign_filter :: tc_filter where
  "foreign_filter = \<lparr>tf_hook = Egress_Hook, tf_handle = 7, tf_priority = 2, tf_name = Some ''cil_to_netdev''\<rparr>"

lemma lab_documented: "netlink_documented lab_netlink fst" "\<forall>k h. nl_filters lab_netlink k h \<noteq> None" "deletes_work lab_netlink fst"
  by (auto simp: netlink_documented_def deletes_work_def lab_netlink_def split: if_splits)

lemma lab_ours: "isMimicFilter egress_filter" "isMimicFilter ingress_filter" "\<not> isMimicFilter foreign_filter"
  by (simp_all add: isMimicFilter_def egress_filter_def ingress_filter_def foreign_filter_def has_prefix_def)

text \<open>The same kernel when no filters can be listed.\<close>

definition blind_netlink :: "lab_kernel netlink" where
  "blind_netlink = lab_netlink\<lparr>nl_filters := (\<lambda>k h. None)\<rparr>"

lemma blind_documented: "netlink_documented blind_netlink fst"
  by (auto simp: netlink_documented_def blind_netlink_def lab_netlink_def split: if_splits)

lemma teardown_spares_foreign_witness:
  "\<exists>k1 k2 r1 r2. teardownInterface lab_netlink ([egress_filter, foreign_filter], True) True = (k1, Some r1) \<and>
     fst k1 = [foreign_filter] \<and>
     teardownInterface blind_netlink ([foreign_filter], True) True = (k2, Some r2) \<and> fst k2 = []"
proof -
  let ?k = "([egress_filter, foreign_filter], True)" and ?b = "([foreign_filter], True)"
  have ne: "egress_filter \<noteq> foreign_filter" "tf_hook egress_filter = Egress_Hook" "tf_hook foreign_filter = Egress_Hook"
    by (simp_all add: egress_filter_def foreign_filter_def)
  have a: "teardownInterface lab_netlink ?k True = (([foreign_filter], True), Some \<lparr>td_removed = 1, td_qdisc = False, td_foreign = 1\<rparr>)"
    using ne by (simp add: teardownInterface_def strip_hook_def del_ours_def count_hook_def lab_netlink_def lab_ours)
  have b: "teardownInterface blind_netlink ?b True = (([], False), Some \<lparr>td_removed = 0, td_qdisc = True, td_foreign = 0\<rparr>)"
    by (simp add: teardownInterface_def strip_hook_def count_hook_def delClsact_def blind_netlink_def lab_netlink_def)
  have "fst ([foreign_filter], True) = fst (fst (foldl (strip_hook lab_netlink) (?k, 0) [Egress_Hook, Ingress_Hook]))"
    using teardown_spares_foreign [OF lab_documented(1) a] by (simp add: Let_def)
  moreover have "fst ([] :: tc_filter list, False) = []"
    using teardown_spares_foreign [OF blind_documented b] by (simp add: Let_def)
  ultimately show ?thesis
    using a b by auto
qed

end
