(* ===== verification/Verify_Scan.thy ===== *)
theory Verify_Scan
  imports Service_Gating Go_Bytes Go_Path Go_Time
begin

text \<open>
  The self-check (\<open>internal/verify\<close>): the normalized view of an nmap scan (\<open>nmapxml.go\<close>), its comparison
  with the recorded golden surface of a profile (\<open>golden.go\<close>), and the coherence checks of \<open>mimic verify\<close>
  (\<open>verify.go\<close>).  The XML and YAML decoders, the TLS dial and the sockets are parameters: what they
  yield.
\<close>

section \<open>Results\<close>

datatype check_status = StatusOK | StatusTell | StatusSkip | StatusNote

record check_result =
  cr_layer :: string
  cr_check :: string
  cr_status :: check_status
  cr_expected :: string
  cr_observed :: string
  cr_detail :: string

section \<open>Scans\<close>

record service_info =
  si_name :: string
  si_product :: string
  si_version :: string
  si_tunnel :: string

definition banner :: "service_info \<Rightarrow> string" where
  "banner s = to_lower (trim_space (si_name s @ '' '' @ si_product s @ '' '' @ si_version s))"

record scan_result =
  sc_open :: "int list"
  sc_closed :: "int list"
  sc_filtered :: "int list"
  sc_services :: "int \<rightharpoonup> service_info"
  sc_osMatch :: string
  sc_osFamilies :: "string list"
  sc_osGens :: "string list"

text \<open>The decoded document: ports and OS matches of each host.\<close>

record nmap_port =
  np_protocol :: string
  np_id :: int
  np_state :: string
  np_service :: service_info

record os_match =
  om_name :: string
  om_accuracy :: int
  om_classes :: "(string \<times> string) list"  \<comment> \<open>family and generation\<close>

record nmap_host =
  nh_ports :: "nmap_port list"
  nh_os :: "os_match list"

definition scan_port :: "scan_result \<Rightarrow> nmap_port \<Rightarrow> scan_result" where
  "scan_port r p =
     (if np_protocol p \<noteq> ''tcp'' then r
      else if np_state p = ''open'' then
        r\<lparr>sc_open := sc_open r @ [np_id p], sc_services := (sc_services r)(np_id p \<mapsto> np_service p)\<rparr>
      else if np_state p = ''closed'' then r\<lparr>sc_closed := sc_closed r @ [np_id p]\<rparr>
      else if np_state p = ''filtered'' then r\<lparr>sc_filtered := sc_filtered r @ [np_id p]\<rparr>
      else r)"

text \<open>A value is kept when it is not empty and not seen before.\<close>

definition add_seen :: "string \<Rightarrow> string list \<Rightarrow> string list" where
  "add_seen v vs = (if v \<noteq> [] \<and> v \<notin> set vs then vs @ [v] else vs)"

definition add_class :: "string list \<times> string list \<Rightarrow> string \<times> string \<Rightarrow> string list \<times> string list" where
  "add_class = (\<lambda>(fams, gens) (fam, gen). (add_seen (to_lower fam) fams, add_seen gen gens))"

definition scan_match :: "scan_result \<times> int \<Rightarrow> os_match \<Rightarrow> scan_result \<times> int" where
  "scan_match = (\<lambda>(r, best) m.
     if om_accuracy m \<le> best then (r, best)
     else
       let (fams, gens) = foldl add_class ([], []) (om_classes m)
       in (r\<lparr>sc_osMatch := om_name m, sc_osFamilies := fams, sc_osGens := gens\<rparr>, om_accuracy m))"

definition empty_scan :: scan_result where
  "empty_scan = \<lparr>sc_open = [], sc_closed = [], sc_filtered = [], sc_services = Map.empty, sc_osMatch = [],
     sc_osFamilies = [], sc_osGens = []\<rparr>"

definition parseNmapXML :: "nmap_host list \<Rightarrow> scan_result option" where
  "parseNmapXML hosts =
     (case hosts of
        [] \<Rightarrow> None
      | h # _ \<Rightarrow>
          let r = foldl scan_port empty_scan (nh_ports h);
              r = r\<lparr>sc_open := sort (sc_open r), sc_closed := sort (sc_closed r), sc_filtered := sort (sc_filtered r)\<rparr>
          in Some (fst (foldl scan_match (r, -1) (nh_os h))))"

section \<open>Goldens\<close>

text \<open>The services as the list of the map's entries.\<close>

record golden =
  gd_profile :: string
  gd_family :: string
  gd_gens :: "string list"
  gd_open :: "int list"
  gd_notOpen :: "int list"
  gd_services :: "(int \<times> string) list"

definition dispositionOf :: "scan_result \<Rightarrow> int \<Rightarrow> string" where
  "dispositionOf s p =
     (if p \<in> set (sc_open s) then ''open''
      else if p \<in> set (sc_closed s) then ''closed''
      else if p \<in> set (sc_filtered s) then ''filtered''
      else ''absent'')"

definition checkOSFamily :: "golden \<Rightarrow> scan_result \<Rightarrow> check_result" where
  "checkOSFamily g s =
     (let want = to_lower (gd_family g);
          r = \<lparr>cr_layer = ''os'', cr_check = ''nmap osfamily'', cr_status = StatusOK, cr_expected = want,
               cr_observed = join_with (CHR ''|'') (sc_osFamilies s), cr_detail = []\<rparr>
      in if want = [] then r\<lparr>cr_status := StatusSkip, cr_detail := ''no os_match.family in golden''\<rparr>
         else if want \<in> set (sc_osFamilies s) then r
         else r\<lparr>cr_status := StatusTell, cr_detail := ''nmap OS family attribution drifted''\<rparr>)"

definition checkOSGen :: "golden \<Rightarrow> scan_result \<Rightarrow> check_result" where
  "checkOSGen g s =
     (let r = \<lparr>cr_layer = ''os'', cr_check = ''nmap osgen'', cr_status = StatusOK, cr_expected = join_with (CHR ''|'') (gd_gens g),
               cr_observed = join_with (CHR ''|'') (sc_osGens s), cr_detail = []\<rparr>
      in if gd_gens g = [] then r\<lparr>cr_status := StatusSkip, cr_detail := ''no os_match.gens in golden''\<rparr>
         else if \<exists>x \<in> set (sc_osGens s). x \<in> set (gd_gens g) then r
         else r\<lparr>cr_status := StatusTell, cr_detail := ''nmap OS generation attribution drifted''\<rparr>)"

definition check_open :: "scan_result \<Rightarrow> int \<Rightarrow> check_result" where
  "check_open s p =
     (let r = \<lparr>cr_layer = ''ports'', cr_check = int_string p @ '' open'', cr_status = StatusOK, cr_expected = ''open'',
               cr_observed = ''open'', cr_detail = []\<rparr>
      in if p \<in> set (sc_open s) then r
         else r\<lparr>cr_status := StatusTell, cr_observed := dispositionOf s p, cr_detail := ''persona port is not open''\<rparr>)"

definition check_not_open :: "scan_result \<Rightarrow> int \<Rightarrow> check_result" where
  "check_not_open s p =
     (let r = \<lparr>cr_layer = ''ports'', cr_check = int_string p @ '' not open'', cr_status = StatusOK,
               cr_expected = ''closed|filtered'', cr_observed = dispositionOf s p, cr_detail = []\<rparr>
      in if p \<in> set (sc_open s) then
           r\<lparr>cr_status := StatusTell, cr_observed := ''open'', cr_detail := ''port should not be open for this persona''\<rparr>
         else r)"

definition check_service :: "scan_result \<Rightarrow> int \<times> string \<Rightarrow> check_result" where
  "check_service s = (\<lambda>(p, token).
     let want = to_lower token;
         r = \<lparr>cr_layer = ''service'', cr_check = int_string p @ '' banner ~ '' @ go_quote want, cr_status = StatusOK,
              cr_expected = want, cr_observed = [], cr_detail = []\<rparr>
     in case sc_services s p of
          None \<Rightarrow> r\<lparr>cr_status := StatusTell, cr_observed := ''(no service / closed)'', cr_detail := ''expected an open service here''\<rparr>
        | Some svc \<Rightarrow>
            if str_contains (banner svc) want then r\<lparr>cr_observed := banner svc\<rparr>
            else r\<lparr>cr_status := StatusTell, cr_observed := banner svc,
                   cr_detail := ''service banner does not contain the expected token''\<rparr>)"

definition compareScan :: "golden \<Rightarrow> scan_result \<Rightarrow> check_result list" where
  "compareScan g s =
     [checkOSFamily g s, checkOSGen g s] @ map (check_open s) (gd_open g) @ map (check_not_open s) (gd_notOpen g) @
     map (check_service s) (sort_key fst (gd_services g))"

section \<open>The coherence checks\<close>

definition parseVersion :: "string \<Rightarrow> (int \<times> int \<times> int) option" where
  "parseVersion v =
     (case split_on (CHR ''.'') (trim_space v) of
        a # b # c # _ \<Rightarrow>
          (case (atoi_ok a, atoi_ok b, atoi_ok c) of (Some maj, Some mino, Some build) \<Rightarrow> Some (maj, mino, build) | _ \<Rightarrow> None)
      | _ \<Rightarrow> None)"

definition bool_text :: "bool \<Rightarrow> string" where
  "bool_text b = (if b then ''true'' else ''false'')"

definition checkProfileConsistency :: "os_profile option \<Rightarrow> check_result" where
  "checkProfileConsistency op =
     (let r = \<lparr>cr_layer = ''profile'', cr_check = ''version<->stack era'', cr_status = StatusOK, cr_expected = [],
               cr_observed = [], cr_detail = []\<rparr>;
          skip = r\<lparr>cr_status := StatusSkip, cr_detail := ''non-Windows profile (n/a)''\<rparr>
      in case op of
           None \<Rightarrow> skip
         | Some p \<Rightarrow>
             if \<not> equal_fold (prof_family p) ''windows'' then skip
             else
               (case parseVersion (prof_version p) of
                  None \<Rightarrow> r\<lparr>cr_status := StatusTell, cr_observed := prof_version p,
                            cr_detail := ''profile.version is not a parseable major.minor.build''\<rparr>
                | Some (maj, mino, build) \<Rightarrow>
                    let s = prof_stack p;
                        r = r\<lparr>cr_expected := int_string maj @ ''.'' @ int_string mino @ ''.'' @ int_string build,
                              cr_observed := ''win='' @ itoa (unat (st_windowSize s)) @ '' ts='' @ bool_text (st_tcpTimestamps s)\<rparr>
                    in if build \<ge> 22000 \<and> \<not> str_contains (to_lower (prof_name p)) ''server'' \<and>
                          (st_windowSize s \<noteq> 65535 \<or> \<not> st_tcpTimestamps s) then
                         r\<lparr>cr_status := StatusTell,
                           cr_detail := ''Win11-class build but stack is not 65535/TS-on (version/stack capture mismatch)''\<rparr>
                       else r))"

text \<open>The dial to the TLS port: it fails with a text, or yields the common name of the first certificate, if
  there is one, and the negotiated version.\<close>

definition tlsVersionName :: "u16 \<Rightarrow> string" where
  "tlsVersionName v =
     (if v = 0x0304 then ''1.3'' else if v = 0x0303 then ''1.2'' else if v = 0x0302 then ''1.1'' else if v = 0x0301 then ''1.0''
      else ''0x'' @ hex_encode (enc16 v))"

definition checkTLSCertCN :: "string \<Rightarrow> string + (string option \<times> u16) \<Rightarrow> check_result" where
  "checkTLSCertCN name dial =
     (let r = \<lparr>cr_layer = ''tls'', cr_check = ''cert CN == computer name'', cr_status = StatusOK, cr_expected = name,
               cr_observed = [], cr_detail = []\<rparr>
      in case dial of
           Inl e \<Rightarrow> r\<lparr>cr_status := StatusSkip, cr_detail := ''TLS dial failed: '' @ e\<rparr>
         | Inr (None, _) \<Rightarrow> r\<lparr>cr_status := StatusNote, cr_detail := ''no leaf cert (static Schannel JARM path '' @ [CHR 0xE2, CHR 0x80, CHR 0x94] @
             '' accepted dual-path divergence)''\<rparr>
         | Inr (Some cn, v) \<Rightarrow>
             if equal_fold cn name then r\<lparr>cr_observed := cn, cr_detail := ''TLS '' @ tlsVersionName v\<rparr>
             else r\<lparr>cr_status := StatusTell, cr_observed := cn,
                    cr_detail := ''TLS cert CN disagrees with the SMB/NBNS computer name''\<rparr>)"

text \<open>A read of up to 2048 bytes after the request, or the text of the failing dial or write.\<close>

text \<open>The lines: the text cut at every CR LF.\<close>

lemma crlf_shorter: "index_of s [CHR 0x0D, CHR 0x0A] = Some i \<Longrightarrow> i < length s"
  by (rule ccontr) (auto simp: index_of_first starts_with_def)

function crlf_split :: "string \<Rightarrow> string list" where
  "crlf_split s =
     (case index_of s [CHR 0x0D, CHR 0x0A] of None \<Rightarrow> [s] | Some i \<Rightarrow> take i s # crlf_split (drop (i + 2) s))"
  by pat_completeness auto
termination
  by (relation "measure length") (auto dest: crlf_shorter)

definition httpHeader :: "string \<Rightarrow> string \<Rightarrow> string" where
  "httpHeader resp name =
     (case find (\<lambda>l. CHR '':'' \<in> set l \<and> equal_fold (trim_space (takeWhile (\<lambda>c. c \<noteq> CHR '':'') l)) name) (crlf_split resp) of
        None \<Rightarrow> []
      | Some l \<Rightarrow> trim_space (tl (dropWhile (\<lambda>c. c \<noteq> CHR '':'') l)))"

definition checkHTTPSysBanner :: "string \<Rightarrow> string + string \<Rightarrow> check_result" where
  "checkHTTPSysBanner layer resp =
     (let r = \<lparr>cr_layer = layer, cr_check = ''Server: Microsoft-HTTPAPI/2.0'', cr_status = StatusOK,
               cr_expected = ''Microsoft-HTTPAPI/2.0'', cr_observed = [], cr_detail = []\<rparr>
      in case resp of
           Inl e \<Rightarrow> r\<lparr>cr_status := StatusSkip, cr_detail := e\<rparr>
         | Inr buf \<Rightarrow>
             let server = httpHeader (take 2048 buf) ''Server''
             in if str_contains server ''Microsoft-HTTPAPI'' then r\<lparr>cr_observed := server\<rparr>
                else r\<lparr>cr_status := StatusTell, cr_observed := server,
                       cr_detail := ''HTTP.sys port does not advertise Microsoft-HTTPAPI/2.0''\<rparr>)"

text \<open>\<open>Run\<close>: the checks for the services that are live; \<open>tls\<close> and \<open>web\<close> are what the probes of the target
  yield.\<close>

definition verify_run ::
  "string \<Rightarrow> string list \<Rightarrow> services_dir \<Rightarrow> os_profile option \<Rightarrow> string + (string option \<times> u16) \<Rightarrow> (nat \<Rightarrow> string + string) \<Rightarrow>
    check_result list \<times> bool" where
  "verify_run netbios services dir profile tls web =
     (let name = (if netbios = [] then ''WORKSTATION'' else netbios);
          live = (case resolveRunServices services dir profile of Inl _ \<Rightarrow> services | Inr l \<Rightarrow> l);
          out = [checkProfileConsistency profile] @
            (if ''https'' \<in> set live then [checkTLSCertCN name tls] else []) @
            (if ''winrm'' \<in> set live then [checkHTTPSysBanner ''winrm'' (web 5985)] else []) @
            (if ''wsd'' \<in> set live then [checkHTTPSysBanner ''wsd'' (web 5357)] else [])
      in (out, \<forall>r \<in> set out. cr_status r \<noteq> StatusTell))"

section \<open>What a clean report means\<close>

lemma check_tells [simp]:
  "cr_status (checkOSFamily g s) = StatusTell \<longleftrightarrow> gd_family g \<noteq> [] \<and> to_lower (gd_family g) \<notin> set (sc_osFamilies s)"
  "cr_status (checkOSGen g s) = StatusTell \<longleftrightarrow> gd_gens g \<noteq> [] \<and> set (sc_osGens s) \<inter> set (gd_gens g) = {}"
  "cr_status (check_open s p) = StatusTell \<longleftrightarrow> p \<notin> set (sc_open s)"
  "cr_status (check_not_open s p) = StatusTell \<longleftrightarrow> p \<in> set (sc_open s)"
  "cr_status (check_service s (p, tok)) = StatusTell \<longleftrightarrow>
     (case sc_services s p of None \<Rightarrow> True | Some svc \<Rightarrow> \<not> str_contains (banner svc) (to_lower tok))"
  by (auto simp: checkOSFamily_def checkOSGen_def check_open_def check_not_open_def check_service_def Let_def to_lower_def
      split: option.splits)

text \<open>A comparison is free of tells exactly when the scan has what the golden records: the family and one of
  the generations (where the golden names any), every open port open, none of the others open, and in the
  banner of every named service its token, whatever the case.\<close>

theorem clean_report_exactly:
  "(\<forall>r \<in> set (compareScan g s). cr_status r \<noteq> StatusTell) \<longleftrightarrow>
     (gd_family g = [] \<or> to_lower (gd_family g) \<in> set (sc_osFamilies s)) \<and>
     (gd_gens g = [] \<or> set (sc_osGens s) \<inter> set (gd_gens g) \<noteq> {}) \<and>
     set (gd_open g) \<subseteq> set (sc_open s) \<and> set (gd_notOpen g) \<inter> set (sc_open s) = {} \<and>
     (\<forall>(p, token) \<in> set (gd_services g). \<exists>svc. sc_services s p = Some svc \<and> str_contains (banner svc) (to_lower token))"
proof -
  have services: "(\<forall>r \<in> check_service s ` set (gd_services g). cr_status r \<noteq> StatusTell) \<longleftrightarrow>
    (\<forall>(p, token) \<in> set (gd_services g). \<exists>svc. sc_services s p = Some svc \<and> str_contains (banner svc) (to_lower token))"
    by (auto split: option.splits)
  have "set (compareScan g s) = {checkOSFamily g s, checkOSGen g s} \<union> check_open s ` set (gd_open g) \<union>
    check_not_open s ` set (gd_notOpen g) \<union> check_service s ` set (gd_services g)"
    by (auto simp: compareScan_def)
  then show ?thesis
    unfolding services [symmetric] by (auto simp: ball_Un)
qed

text \<open>Every check gives one line, so nothing of the golden is left out.\<close>

lemma report_length:
  "length (compareScan g s) = 2 + length (gd_open g) + length (gd_notOpen g) + length (gd_services g)"
  by (simp add: compareScan_def)

section \<open>Scans\<close>

definition open_tcp :: "nmap_port \<Rightarrow> bool" where
  "open_tcp p \<longleftrightarrow> np_protocol p = ''tcp'' \<and> np_state p = ''open''"

lemma scan_port_sel:
  "sc_open (scan_port r p) = (if open_tcp p then sc_open r @ [np_id p] else sc_open r)"
  "sc_services (scan_port r p) = (if open_tcp p then (sc_services r)(np_id p \<mapsto> np_service p) else sc_services r)"
  by (simp_all add: scan_port_def open_tcp_def)

lemma scan_ports:
  "set (sc_open (foldl scan_port r ps)) = set (sc_open r) \<union> np_id ` set (filter open_tcp ps) \<and>
   dom (sc_services (foldl scan_port r ps)) = dom (sc_services r) \<union> np_id ` set (filter open_tcp ps)"
  by (induction ps arbitrary: r) (auto simp: scan_port_sel)

lemma scan_matches: "sc_open (fst (foldl scan_match (r, b) ms)) = sc_open r \<and> sc_services (fst (foldl scan_match (r, b) ms)) = sc_services r"
proof (induction ms arbitrary: r b)
  case (Cons m ms)
  obtain r' b' where m: "scan_match (r, b) m = (r', b')" by fastforce
  have "sc_open r' = sc_open r \<and> sc_services r' = sc_services r"
    using m by (auto simp: scan_match_def split: if_splits prod.splits)
  then show ?case
    using Cons.IH [of r' b'] by (simp add: m)
qed simp

text \<open>The scan has a service for exactly the open TCP ports, so a golden's service check implies that its port is open.\<close>

lemma services_are_open:
  assumes "parseNmapXML hosts = Some s"
  shows "dom (sc_services s) = set (sc_open s) \<and> sorted (sc_open s)"
proof -
  obtain h hs where h: "hosts = h # hs"
    using assms by (cases hosts) (auto simp: parseNmapXML_def)
  define r where "r = foldl scan_port empty_scan (nh_ports h)"
  have "set (sc_open r) = dom (sc_services r)"
    using scan_ports [of empty_scan "nh_ports h"] by (simp add: r_def empty_scan_def)
  moreover have "sc_open s = sort (sc_open r)" "sc_services s = sc_services r"
    using assms by (auto simp: parseNmapXML_def h Let_def r_def [symmetric] scan_matches)
  ultimately show ?thesis
    by simp
qed

section \<open>Profiles\<close>

text \<open>The shipped Windows profiles are consistent.\<close>

lemma shipped_profiles_consistent:
  "cr_status (checkProfileConsistency (Some windows_11)) = StatusOK"
  "cr_status (checkProfileConsistency (Some server_2022)) = StatusOK"
  "cr_status (checkProfileConsistency (Some ubuntu)) = StatusSkip"
proof -
  have v: "parseVersion ''10.0.26200'' = Some (10, 0, 26200)" "parseVersion ''10.0.20348'' = Some (10, 0, 20348)"
    by code_simp+
  have f: "equal_fold ''windows'' ''windows''" "\<not> equal_fold ''linux'' ''windows''"
    by code_simp+
  show "cr_status (checkProfileConsistency (Some windows_11)) = StatusOK" "cr_status (checkProfileConsistency (Some server_2022)) = StatusOK"
    "cr_status (checkProfileConsistency (Some ubuntu)) = StatusSkip"
    by (simp_all add: checkProfileConsistency_def windows_11_def server_2022_def ubuntu_def v f Let_def)
qed

text \<open>The comment names the contradiction in both directions; only one of them is a tell: an earlier build with
  the later stack passes.\<close>

lemma old_build_new_stack_passes:
  assumes "equal_fold (prof_family p) ''windows''" "parseVersion (prof_version p) = Some (maj, mino, build)" "build < 22000"
  shows "cr_status (checkProfileConsistency (Some p)) = StatusOK"
  using assms by (simp add: checkProfileConsistency_def Let_def)

text \<open>A run is coherent when no check is a tell; a target that cannot be reached is.\<close>

lemma unreachable_is_coherent:
  assumes "cr_status (checkProfileConsistency profile) \<noteq> StatusTell"
  shows "snd (verify_run name services dir profile (Inl e) (\<lambda>_. Inl e'))"
  using assms by (auto simp: verify_run_def checkTLSCertCN_def checkHTTPSysBanner_def Let_def)

end
