(* ===== verification/Coherence.thy ===== *)
theory Coherence
  imports Go_Bytes Go_Path
begin

text \<open>
  The start-up audit of \<open>internal/coherence/coherence.go\<close>: listeners of the host that are not the program's
  own, their banners, and the ones that contradict an emulated Windows.

  The \<open>/proc\<close> tables are the lines read from them (a table that cannot be opened has none), the descriptors of
  the process the targets of its links, and a connection what is read from it.
\<close>

section \<open>Banners\<close>

definition nixTells :: "string list" where
  "nixTells = [''vsftpd'', ''proftpd'', ''pure-ftpd'', ''ubuntu'', ''debian'', ''raspbian'',
     ''(unix)'', ''postfix'', ''exim'', ''dovecot'', ''mariadb'', '' linux'']"

definition matchTell :: "string \<Rightarrow> string" where
  "matchTell b =
     (case find (\<lambda>t. str_contains (to_lower b) t) nixTells of None \<Rightarrow> [] | Some t \<Rightarrow> trim_space t)"

text \<open>Decoding runes drops the same bytes: every byte of a character outside ASCII is above 0x7e.\<close>

definition printable :: "char \<Rightarrow> bool" where
  "printable c \<longleftrightarrow> (let n = (of_char c :: nat) in 0x20 \<le> n \<and> n \<le> 0x7E)"

definition sanitize :: "string \<Rightarrow> string" where
  "sanitize b =
     (let s = takeWhile (\<lambda>c. c \<noteq> CHR 0x0D \<and> c \<noteq> CHR 0x0A) b;
          s = trim_space (filter printable s)
      in if 200 < length s then take 200 s else s)"

record grab_io =
  gr_dial :: bool
  gr_first :: string    \<comment> \<open>what the first read of up to 512 bytes yields\<close>
  gr_write :: bool
  gr_reply :: string    \<comment> \<open>what follows the request until the end, an error or the deadline\<close>

text \<open>At most \<open>n\<close> lines of the reply; a last line without line feed comes with the error that ends the loop.\<close>

fun scan_header :: "nat \<Rightarrow> string \<Rightarrow> string" where
  "scan_header 0 rest = []"
| "scan_header (Suc n) rest =
     (let line = takeWhile (\<lambda>c. c \<noteq> CHR 0x0A) rest; after = dropWhile (\<lambda>c. c \<noteq> CHR 0x0A) rest; s = trim_space line
      in if has_prefix (to_lower s) ''server:'' then sanitize s
         else if after = [] then []
         else scan_header n (tl after))"

definition grabBanner :: "grab_io \<Rightarrow> string" where
  "grabBanner io =
     (if \<not> gr_dial io then []
      else if gr_first io \<noteq> [] then sanitize (take 512 (gr_first io))
      else if \<not> gr_write io then []
      else scan_header 30 (gr_reply io))"

section \<open>Listeners\<close>

definition splitAddr :: "string \<Rightarrow> (string \<times> string) option" where
  "splitAddr s =
     (if CHR '':'' \<notin> set s then None
      else let r = rev s in
        Some (rev (tl (dropWhile (\<lambda>c. c \<noteq> CHR '':'') r)), rev (takeWhile (\<lambda>c. c \<noteq> CHR '':'') r)))"

definition isLoopbackHex :: "string \<Rightarrow> bool" where
  "isLoopbackHex h =
     (if length h = 8 then equal_fold h ''0100007F''
      else if length h = 32 then equal_fold h ''00000000000000000000000001000000''
      else False)"

text \<open>\<open>strconv.ParseUint\<close> in a base, with the digits' values and the limit of the size.\<close>

definition parseUint :: "(char \<Rightarrow> nat option) \<Rightarrow> nat \<Rightarrow> nat \<Rightarrow> string \<Rightarrow> nat option" where
  "parseUint val base limit s =
     (if s = [] \<or> (\<exists>c \<in> set s. val c = None) then None
      else let n = foldl (\<lambda>a c. base * a + the (val c)) 0 s in if n < limit then Some n else None)"

definition ownSocketInodes :: "string option list \<Rightarrow> nat list" where
  "ownSocketInodes targets =
     List.map_filter (\<lambda>t. case t of
       None \<Rightarrow> None
     | Some t \<Rightarrow>
         if has_prefix t ''socket:['' \<and> has_suffix t '']'' then parseUint digit_val 10 (2 ^ 64) (drop 8 (butlast t)) else None) targets"

text \<open>The port a line of a table contributes.\<close>

definition line_port :: "nat list \<Rightarrow> string \<Rightarrow> nat option" where
  "line_port own line =
     (let f = fields_func is_space line in
      if length f < 10 then None
      else if f ! 3 \<noteq> ''0A'' then None
      else
        case splitAddr (f ! 1) of
          None \<Rightarrow> None
        | Some (ip, portHex) \<Rightarrow>
            if isLoopbackHex ip then None
            else
              case parseUint hex_val 16 (2 ^ 16) portHex of
                None \<Rightarrow> None
              | Some port \<Rightarrow>
                  (case parseUint digit_val 10 (2 ^ 64) (f ! 9) of
                     Some ino \<Rightarrow> if ino \<in> set own then None else Some port
                   | None \<Rightarrow> Some port))"

text \<open>The first line is the header; the set of ports is kept as a list without duplicates.\<close>

definition parseProcNetTCP :: "nat list \<Rightarrow> string list \<Rightarrow> nat list \<Rightarrow> nat list" where
  "parseProcNetTCP own table ports =
     foldl (\<lambda>ps l. case line_port own l of None \<Rightarrow> ps | Some p \<Rightarrow> List.insert p ps) ports (drop 1 table)"

definition foreignListeningPorts :: "nat list \<Rightarrow> string list \<Rightarrow> string list \<Rightarrow> nat list" where
  "foreignListeningPorts own tcp tcp6 = parseProcNetTCP own tcp6 (parseProcNetTCP own tcp [])"

section \<open>The check\<close>

text \<open>The warnings: port, banner and tell.\<close>

definition check_coherence ::
  "string \<Rightarrow> string option list \<Rightarrow> string list \<Rightarrow> string list \<Rightarrow> (nat \<Rightarrow> grab_io) \<Rightarrow> (nat \<times> string \<times> string) list" where
  "check_coherence family0 targets tcp tcp6 conn =
     (let family = to_lower (trim_space family0) in
      if family = [] then []
      else
        concat (map (\<lambda>p.
          let b = grabBanner (conn p) in
          if b = [] then []
          else if family = ''windows'' \<and> matchTell b \<noteq> [] then [(p, b, matchTell b)]
          else []) (foreignListeningPorts (ownSocketInodes targets) tcp tcp6)))"

section \<open>What is reported\<close>

lemma set_parseProc: "set (parseProcNetTCP own table ports) = set ports \<union> {p. \<exists>l \<in> set (drop 1 table). line_port own l = Some p}"
proof -
  have "set (foldl (\<lambda>ps l. case line_port own l of None \<Rightarrow> ps | Some p \<Rightarrow> List.insert p ps) ports ls) =
    set ports \<union> {p. \<exists>l \<in> set ls. line_port own l = Some p}" for ls
    by (induction ls arbitrary: ports) (auto split: option.splits)
  then show ?thesis
    by (simp add: parseProcNetTCP_def)
qed

lemma distinct_parseProc: "distinct ports \<Longrightarrow> distinct (parseProcNetTCP own table ports)"
proof -
  have "distinct ports \<Longrightarrow> distinct (foldl (\<lambda>ps l. case line_port own l of None \<Rightarrow> ps | Some p \<Rightarrow> List.insert p ps) ports ls)" for ls
    by (induction ls arbitrary: ports) (auto split: option.splits)
  then show "distinct ports \<Longrightarrow> ?thesis"
    by (simp add: parseProcNetTCP_def)
qed

text \<open>A warning is given exactly for a port in listening state, in either table, whose address is not one of
  the two loopback addresses and whose socket is not the program's, if its banner has a tell and the
  emulated family is Windows; and only once for each port.\<close>

theorem warnings_exact:
  "((p, b, t) \<in> set (check_coherence family targets tcp tcp6 conn) \<longleftrightarrow>
     to_lower (trim_space family) = ''windows'' \<and>
     (\<exists>l \<in> set (drop 1 tcp) \<union> set (drop 1 tcp6). line_port (ownSocketInodes targets) l = Some p) \<and>
     b = grabBanner (conn p) \<and> t = matchTell b \<and> b \<noteq> [] \<and> t \<noteq> []) \<and>
   distinct (map fst (check_coherence family targets tcp tcp6 conn))"
proof -
  let ?ps = "foreignListeningPorts (ownSocketInodes targets) tcp tcp6"
  have ps: "p \<in> set ?ps \<longleftrightarrow> (\<exists>l \<in> set (drop 1 tcp) \<union> set (drop 1 tcp6). line_port (ownSocketInodes targets) l = Some p)" for p
    by (auto simp: foreignListeningPorts_def set_parseProc)
  have d: "distinct ?ps"
    by (simp add: foreignListeningPorts_def distinct_parseProc)
  have "distinct (map fst (concat (map (\<lambda>p. if Q p then [(p, f p)] else []) qs)))" if "distinct qs" for Q and f :: "nat \<Rightarrow> string \<times> string" and qs
    using that by (induction qs) (auto simp: rev_image_eqI)
  note dis = this [OF d, of "\<lambda>p. grabBanner (conn p) \<noteq> [] \<and> to_lower (trim_space family) = ''windows'' \<and> matchTell (grabBanner (conn p)) \<noteq> []"
      "\<lambda>p. (grabBanner (conn p), matchTell (grabBanner (conn p)))"]
  have eq: "check_coherence family targets tcp tcp6 conn =
    concat (map (\<lambda>p. if grabBanner (conn p) \<noteq> [] \<and> to_lower (trim_space family) = ''windows'' \<and> matchTell (grabBanner (conn p)) \<noteq> []
      then [(p, grabBanner (conn p), matchTell (grabBanner (conn p)))] else []) ?ps)"
    by (auto simp: check_coherence_def Let_def intro!: arg_cong [of _ _ concat] map_cong)
  show ?thesis
    using dis ps unfolding eq by (auto split: if_splits)
qed

text \<open>Other loopback addresses count as remotely visible: 127.0.0.53, where a stub resolver listens, and the
  IPv4 loopback in a dual-stack socket.\<close>

lemma loopback_alias_audited: "\<not> isLoopbackHex ''3500007F''" "\<not> isLoopbackHex ''0000000000000000FFFF00000100007F''"
  by code_simp+

text \<open>What is logged is bounded, on one line and printable.\<close>

lemma sanitized_clean: "length (sanitize b) \<le> 200 \<and> (\<forall>c \<in> set (sanitize b). printable c)"
proof -
  have trim: "c \<in> set (trim_space s) \<Longrightarrow> c \<in> set s" for c s
    by (auto simp: trim_space_def dest!: set_dropWhileD)
  show ?thesis
    by (auto simp: sanitize_def Let_def dest!: in_set_takeD trim)
qed

end
