(* ===== verification/Logging.thy ===== *)
theory Logging
  imports App_Config Go_Bytes
begin

text \<open>
  The log (\<open>internal/logging/logger.go\<close>, \<open>probes.go\<close>): levels, the choice of the directory with its fallback,
  the two loggers, and where an entry goes.

  A line is the record of what it renders: the time and the order of the fields are left out.  \<open>log_disk\<close>
  tells what the file system answers.
\<close>

section \<open>Levels\<close>

datatype log_level = LevelDebug | LevelInfo | LevelWarn | LevelError

fun level_rank :: "log_level \<Rightarrow> nat" where
  "level_rank LevelDebug = 0" | "level_rank LevelInfo = 1" | "level_rank LevelWarn = 2" | "level_rank LevelError = 3"

fun level_string :: "log_level \<Rightarrow> string" where
  "level_string LevelDebug = ''DEBUG''" | "level_string LevelInfo = ''INFO''"
| "level_string LevelWarn = ''WARN''" | "level_string LevelError = ''ERROR''"

definition parseLevel :: "string \<Rightarrow> log_level" where
  "parseLevel s =
     (if s = ''debug'' \<or> s = ''DEBUG'' then LevelDebug
      else if s = ''info'' \<or> s = ''INFO'' then LevelInfo
      else if s = ''warn'' \<or> s = ''WARN'' \<or> s = ''warning'' \<or> s = ''WARNING'' then LevelWarn
      else if s = ''error'' \<or> s = ''ERROR'' then LevelError
      else LevelInfo)"

lemma parse_level_string: "parseLevel (level_string l) = l"
  by (cases l) (simp_all add: parseLevel_def)

section \<open>Loggers\<close>

type_synonym log_fields = "(string \<times> string) list"

record log_entry =
  le_level :: string
  le_component :: string
  le_message :: string
  le_fields :: log_fields

record logger =
  lg_level :: log_level
  lg_component :: string
  lg_file :: "string option"
  lg_fileJSON :: bool
  lg_toFile :: bool
  lg_stdout :: bool

record log_settings =
  ls_levelName :: string
  ls_logDir :: string
  ls_jsonMode :: bool
  ls_toStdout :: bool

definition defaultLogSettings :: log_settings where
  "defaultLogSettings = \<lparr>ls_levelName = ''info'', ls_logDir = ''/var/log/mimic'', ls_jsonMode = True, ls_toStdout = True\<rparr>"

definition fallbackDir :: string where "fallbackDir = ''./log/mimic''"

record log_disk =
  ld_mkdir :: "string \<Rightarrow> bool"
  ld_write :: "string \<Rightarrow> bool"
  ld_open :: "string \<Rightarrow> bool"

definition newLogger :: "log_disk \<Rightarrow> log_settings \<Rightarrow> log_level \<Rightarrow> string \<Rightarrow> string \<Rightarrow> logger option" where
  "newLogger disk cfg level file component =
     (let path = path_join [ls_logDir cfg, file]; toFile = (ls_logDir cfg \<noteq> [])
      in if toFile \<and> \<not> ld_open disk path then None
         else Some \<lparr>lg_level = level, lg_component = component, lg_file = (if toFile then Some path else None),
                lg_fileJSON = ls_jsonMode cfg, lg_toFile = toFile,
                lg_stdout = (ls_toStdout cfg \<or> \<not> toFile)\<rparr>)"

datatype log_act = JSONLine string log_entry | HumanLine string log_entry | StdoutLine log_entry

definition log_write :: "logger \<Rightarrow> log_level \<Rightarrow> string \<Rightarrow> log_fields \<Rightarrow> log_act list" where
  "log_write l level msg flds =
     (if level_rank level < level_rank (lg_level l) then []
      else
        let e = \<lparr>le_level = level_string level, le_component = lg_component l, le_message = msg, le_fields = flds\<rparr>
        in (case lg_file l of
              None \<Rightarrow> []
            | Some f \<Rightarrow> if lg_toFile l then [if lg_fileJSON l then JSONLine f e else HumanLine f e] else []) @
           (if lg_stdout l then [StdoutLine e] else []))"

definition withComponent :: "string \<Rightarrow> logger \<Rightarrow> logger" where
  "withComponent c l = l\<lparr>lg_component := c\<rparr>"

section \<open>The package state\<close>

record log_state =
  lt_default :: "logger option"
  lt_probe :: "logger option"
  lt_activeDir :: string

definition log_start :: log_state where
  "log_start = \<lparr>lt_default = None, lt_probe = None, lt_activeDir = []\<rparr>"

datatype log_error = FallbackDirError | MainLoggerError | ProbeLoggerError

text \<open>The directory used, and whether it is the fallback; the text of the reason is left out.\<close>

definition choose_dir :: "log_disk \<Rightarrow> string \<Rightarrow> (string \<times> bool) option" where
  "choose_dir disk dir =
     (let fallback = (if ld_mkdir disk fallbackDir then Some (fallbackDir, True) else None) in
      if dir = [] then Some ([], False)
      else if \<not> ld_mkdir disk dir then fallback
      else if \<not> ld_write disk (path_join [dir, ''.write_test'']) then fallback
      else Some (dir, False))"

definition log_init :: "log_disk \<Rightarrow> log_settings \<Rightarrow> log_state \<Rightarrow> log_state \<times> log_act list \<times> log_error option" where
  "log_init disk cfg st =
     (case choose_dir disk (ls_logDir cfg) of
        None \<Rightarrow> (st, [], Some FallbackDirError)
      | Some (dir, fell) \<Rightarrow>
          let cfg1 = cfg\<lparr>ls_logDir := dir\<rparr>; st1 = st\<lparr>lt_activeDir := dir\<rparr>;
              main = newLogger disk cfg1 (parseLevel (ls_levelName cfg)) ''mimic.log'' ''mimic'';
              st2 = st1\<lparr>lt_default := main\<rparr>
          in case main of
               None \<Rightarrow> (st2, [], Some MainLoggerError)
             | Some l \<Rightarrow>
                 let probe = newLogger disk cfg1 LevelInfo ''probes.log'' ''probe''; st3 = st2\<lparr>lt_probe := probe\<rparr>
                 in if probe = None then (st3, [], Some ProbeLoggerError)
                    else (st3, if fell then log_write l LevelWarn ''Log directory fallback''
                            [(''requested_dir'', ls_logDir cfg), (''actual_dir'', dir)] else [], None))"

text \<open>The package-level functions and \<open>Component\<close>.\<close>

definition log_default :: "log_state \<Rightarrow> log_level \<Rightarrow> string \<Rightarrow> log_fields \<Rightarrow> log_act list" where
  "log_default st level msg flds = (case lt_default st of None \<Rightarrow> [] | Some l \<Rightarrow> log_write l level msg flds)"

definition log_component :: "log_state \<Rightarrow> string \<Rightarrow> logger option" where
  "log_component st name = map_option (withComponent name) (lt_default st)"

section \<open>Probes\<close>

record probe_record =
  pv_service :: string
  pv_port :: u16
  pv_protocol :: string
  pv_source :: string
  pv_matched :: bool
  pv_name :: string
  pv_len :: nat
  pv_hex :: string

definition logProbe :: "log_state \<Rightarrow> probe_record \<Rightarrow> log_act list" where
  "logProbe st p =
     (case lt_probe st of
        None \<Rightarrow> []
      | Some l \<Rightarrow>
          let hex = (if 512 < length (pv_hex p) then take 512 (pv_hex p) @ ''...'' else pv_hex p)
          in log_write l LevelInfo (if pv_matched p then ''Probe matched'' else ''Probe unmatched'')
               ([(''service'', pv_service p), (''port'', itoa (unat (pv_port p))), (''protocol'', pv_protocol p),
                 (''source_addr'', pv_source p), (''result'', if pv_matched p then ''matched'' else ''unmatched''),
                 (''probe_len'', itoa (pv_len p)), (''probe_hex'', hex)] @
                (if pv_name p \<noteq> [] then [(''probe_name'', pv_name p)] else [])))"

definition logProbeMatched :: "log_state \<Rightarrow> string \<Rightarrow> u16 \<Rightarrow> string \<Rightarrow> string \<Rightarrow> string \<Rightarrow> bytes \<Rightarrow> log_act list" where
  "logProbeMatched st svc port proto src name data =
     logProbe st \<lparr>pv_service = svc, pv_port = port, pv_protocol = proto, pv_source = src, pv_matched = True, pv_name = name,
       pv_len = length data, pv_hex = hex_encode data\<rparr>"

definition logProbeUnmatched :: "log_state \<Rightarrow> string \<Rightarrow> u16 \<Rightarrow> string \<Rightarrow> string \<Rightarrow> bytes \<Rightarrow> log_act list" where
  "logProbeUnmatched st svc port proto src data =
     logProbe st \<lparr>pv_service = svc, pv_port = port, pv_protocol = proto, pv_source = src, pv_matched = False, pv_name = [],
       pv_len = length data, pv_hex = hex_encode data\<rparr>"

section \<open>Where an entry goes\<close>

lemma newLogger_outputs:
  assumes "newLogger disk cfg level file c = Some l"
  shows "(lg_file l \<noteq> None \<longleftrightarrow> lg_toFile l) \<and> (lg_toFile l \<or> lg_stdout l) \<and> lg_level l = level"
  using assms by (auto simp: newLogger_def Let_def split: if_splits)

lemma log_write_empty:
  assumes "newLogger disk cfg level file c = Some l"
  shows "log_write l lv msg flds = [] \<longleftrightarrow> level_rank lv < level_rank level"
  using newLogger_outputs [OF assms] by (auto simp: log_write_def Let_def)

text \<open>After a successful start no entry of the logger's level or above is silently dropped, none below it is
  written, and every probe is logged, with a dump of at most 515 characters.\<close>

theorem entries_reach_an_output:
  assumes "log_init disk cfg st = (st', acts, None)"
  shows "(log_default st' level msg flds \<noteq> [] \<longleftrightarrow> level_rank (parseLevel (ls_levelName cfg)) \<le> level_rank level) \<and>
    logProbe st' p \<noteq> [] \<and>
    (acts \<noteq> [] \<longrightarrow> lt_activeDir st' = fallbackDir \<and> ls_logDir cfg \<noteq> [])"
proof -
  obtain dir fell where c: "choose_dir disk (ls_logDir cfg) = Some (dir, fell)"
    using assms by (cases "choose_dir disk (ls_logDir cfg)") (auto simp: log_init_def)
  define main where "main = newLogger disk (cfg\<lparr>ls_logDir := dir\<rparr>) (parseLevel (ls_levelName cfg)) ''mimic.log'' ''mimic''"
  define probe where "probe = newLogger disk (cfg\<lparr>ls_logDir := dir\<rparr>) LevelInfo ''probes.log'' ''probe''"
  note init = assms [unfolded log_init_def c Let_def option.case prod.case main_def [symmetric] probe_def [symmetric]]
  obtain l q where lq: "main = Some l" "probe = Some q"
    using init by (cases main; cases probe) simp_all
  have st': "lt_default st' = Some l" "lt_probe st' = Some q" "lt_activeDir st' = dir" "fell \<or> acts = []"
    using init [unfolded lq option.case] by (auto split: if_splits)
  have "fell \<Longrightarrow> dir = fallbackDir \<and> ls_logDir cfg \<noteq> []"
    using c by (auto simp: choose_dir_def Let_def split: if_splits)
  then show ?thesis
    using st' log_write_empty [OF lq(1) [unfolded main_def]] log_write_empty [OF lq(2) [unfolded probe_def]]
    by (auto simp: log_default_def logProbe_def Let_def not_less)
qed

text \<open>Falling back is reported unless the level hides warnings.\<close>

lemma fallback_hidden_at_error_level:
  assumes "newLogger disk cfg LevelError file c = Some l"
  shows "log_write l LevelWarn msg flds = []"
  by (simp add: log_write_empty [OF assms])

end
