(* ===== verification/Run_Wiring.thy ===== *)
theory Run_Wiring
  imports Port_Firewall Ftp_Honeypot Smb_Session Ssh_Shell Rdp_Server Win_Filter
begin

text \<open>
  How \<open>mimic run\<close> wires a configuration into running parts (\<open>cmd/mimic/run.go\<close>): command-line overrides, the
  checks before the start, the credential pool, the configurations of the honeypots, the order in which
  services start, and the packet handlers of a Windows host.
\<close>

section \<open>Flags\<close>

record run_flags =
  rf_args :: "string list"
  rf_profile :: string
  rf_services :: "string list"
  rf_iface :: string
  rf_profilesDir :: string
  rf_servicesDir :: string
  rf_closedPorts :: "int list"

definition apply_flags :: "run_flags \<Rightarrow> app_config \<Rightarrow> app_config" where
  "apply_flags f cfg0 =
     (let cfg = (case rf_args f of
            a # _ \<Rightarrow> cfg0\<lparr>ac_profile := a\<rparr>
          | [] \<Rightarrow> if rf_profile f \<noteq> [] then cfg0\<lparr>ac_profile := rf_profile f\<rparr> else cfg0);
          cfg = (if rf_services f \<noteq> [] then cfg\<lparr>ac_services := rf_services f\<rparr> else cfg);
          cfg = (if rf_iface f \<noteq> [] then cfg\<lparr>ac_interface := rf_iface f\<rparr> else cfg);
          cfg = (if rf_profilesDir f \<noteq> ''./profiles'' then cfg\<lparr>ac_profilesDir := rf_profilesDir f\<rparr> else cfg);
          cfg = (if rf_servicesDir f \<noteq> ''./services'' then cfg\<lparr>ac_servicesDir := rf_servicesDir f\<rparr> else cfg);
          cfg = (if rf_closedPorts f \<noteq> [] then cfg\<lparr>ac_closedPorts := map word_of_int (rf_closedPorts f)\<rparr> else cfg)
      in if lc_level (ac_logging cfg) = [] \<and> ac_logLevel cfg \<noteq> []
         then cfg\<lparr>ac_logging := (ac_logging cfg)\<lparr>lc_level := ac_logLevel cfg\<rparr>\<rparr> else cfg)"

text \<open>\<open>stack\<close>: the platform has a stack backend.\<close>

datatype run_error = NoInterface | NoProfileOrServices | StartFailed string

definition required_fields :: "bool \<Rightarrow> app_config \<Rightarrow> run_error option" where
  "required_fields stack cfg =
     (if stack \<and> ac_interface cfg = [] then Some NoInterface
      else if ac_profile cfg = [] \<and> ac_services cfg = [] then Some NoProfileOrServices
      else None)"

section \<open>Credentials\<close>

definition buildCredStore :: "credential list \<Rightarrow> cred_store option" where
  "buildCredStore defs = Some (newCredStore defs)"

definition to_smb_cred :: "credential \<Rightarrow> smb_cred" where
  "to_smb_cred c = \<lparr>smb_cred.sc_username = cr_username c, sc_password = cr_password c, sc_domain = cr_domain c\<rparr>"

definition acceptedSMBCreds :: "app_config \<Rightarrow> smb_cred list" where
  "acceptedSMBCreds cfg =
     (let want = sh_acceptCredentials (ac_smbHoneypot cfg)
      in map to_smb_cred (filter (\<lambda>c. want = [] \<or> cr_id c \<in> set want) (ac_credentials cfg)))"

text \<open>The warnings: the credential and the service of the leak, and what is wrong with it.\<close>

datatype leak_warning = UnknownCredential leak_def | ServiceNotEnabled leak_def

definition validateLeaks :: "app_config \<Rightarrow> leak_warning list" where
  "validateLeaks cfg =
     concat (map (\<lambda>l.
       (if lk_cred l \<notin> cr_id ` set (ac_credentials cfg) then [UnknownCredential l] else []) @
       (if lk_via l \<notin> set (ac_services cfg) then [ServiceNotEnabled l] else [])) (ac_credentialLeaks cfg))"

definition editionLabel :: "os_profile option \<Rightarrow> string" where
  "editionLabel p = (case p of None \<Rightarrow> [] | Some p \<Rightarrow> resolvedEdition p)"

section \<open>Honeypot configurations\<close>

definition or_default :: "string \<Rightarrow> string \<Rightarrow> string" where
  "or_default d s = (if s = [] then d else s)"

definition zero_maze :: maze_config where
  "zero_maze = \<lparr>mz_enabled = False, mz_maxDepth = 0, mz_minDirs = 0, mz_maxDirs = 0, mz_minFiles = 0, mz_maxFiles = 0\<rparr>"

definition smb_config_of :: "app_config \<Rightarrow> os_profile option \<Rightarrow> string \<Rightarrow> smb_server_config" where
  "smb_config_of cfg profile configDir =
     (let so = ac_serviceOptions cfg; sh = ac_smbHoneypot cfg;
          guest0 = (case profile of None \<Rightarrow> True | Some p \<Rightarrow> resolvedEdition p \<noteq> ''workstation'');
          guest = (case sh_allowGuestEnum sh of None \<Rightarrow> guest0 | Some b \<Rightarrow> b)
      in \<lparr>sm_port = 0,
          sm_netBIOSPort = (case profile of None \<Rightarrow> False | Some p \<Rightarrow> editionExposesPort (resolvedEdition p) 139),
          sm_computerName = or_default ''WORKSTATION'' (so_netbiosName so),
          sm_domainName = or_default ''WORKGROUP'' (so_domain so),
          sm_maze = zero_maze, sm_shares = [],
          sm_maxDialect = (case profile of None \<Rightarrow> 0 | Some p \<Rightarrow> DialectFromString (smbc_dialect (prof_smb p))),
          sm_smb1Enabled = (case profile of None \<Rightarrow> False | Some p \<Rightarrow> smbc_smb1Enabled (prof_smb p)),
          sm_signingRequired = (case profile of None \<Rightarrow> False | Some p \<Rightarrow> smbc_signingRequired (prof_smb p)),
          sm_osVersion = (case profile of None \<Rightarrow> [] | Some p \<Rightarrow> prof_version p),
          sm_allowGuestEnum = Some guest,
          sm_credentials = map (\<lambda>c. \<lparr>smb_cred.sc_username = smb_credential.sc_username c, sc_password = smb_credential.sc_password c,
              sc_domain = smb_credential.sc_domain c\<rparr>) (sh_credentials sh) @ acceptedSMBCreds cfg,
          sm_filesystem = sh_filesystem sh,
          sm_credStore = buildCredStore (ac_credentials cfg),
          sm_configDir = configDir\<rparr>)"

definition rdp_config_of :: "app_config \<Rightarrow> os_profile option \<Rightarrow> rdp_config" where
  "rdp_config_of cfg profile =
     \<lparr>rc_port = 0, rc_computerName = or_default ''WORKSTATION'' (so_netbiosName (ac_serviceOptions cfg)),
      rc_domainName = or_default ''WORKGROUP'' (so_domain (ac_serviceOptions cfg)),
      rc_osVersion = (case profile of None \<Rightarrow> [] | Some p \<Rightarrow> prof_version p), rc_servicesDir = ac_servicesDir cfg\<rparr>"

definition ftp_config_of :: "app_config \<Rightarrow> os_profile option \<Rightarrow> string \<Rightarrow> ftp_config" where
  "ftp_config_of cfg profile configDir =
     (let fh = ac_ftpHoneypot cfg
      in \<lparr>fc_port = 0, fc_banner = [], fc_osName = (case profile of None \<Rightarrow> [] | Some p \<Rightarrow> prof_name p),
          fc_tree = None,
          fc_filesystem = (case fh_filesystem fh of None \<Rightarrow> sh_filesystem (ac_smbHoneypot cfg) | Some t \<Rightarrow> Some t),
          fc_rootShare = fh_rootShare fh, fc_configDir = configDir,
          fc_allowAnonymous = (case fh_allowAnonymous fh of None \<Rightarrow> True | Some b \<Rightarrow> b),
          fc_credStore = buildCredStore (ac_credentials cfg),
          fc_acceptCredentials = fh_acceptCredentials fh, fc_pasvHost = []\<rparr>)"

definition ssh_config_of :: "app_config \<Rightarrow> os_profile option \<Rightarrow> ssh_config" where
  "ssh_config_of cfg profile =
     \<lparr>hc_port = 0, hc_osName = (case profile of None \<Rightarrow> [] | Some p \<Rightarrow> prof_name p),
      hc_hostname = or_default (so_netbiosName (ac_serviceOptions cfg)) (so_hostname (ac_serviceOptions cfg)),
      hc_credStore = buildCredStore (ac_credentials cfg),
      hc_acceptCredentials = sh_acceptCredentials (ac_smbHoneypot cfg)\<rparr>"

section \<open>Starting services\<close>

text \<open>What starting a service gives: it runs, its port is taken, or it fails.\<close>

datatype start_result = Runs | PortTaken | Fails string

text \<open>What the loop does with each service.\<close>

datatype start_step = Gated string | Started string | Skipped string

definition smb_on_139 :: "string list \<Rightarrow> os_profile option \<Rightarrow> bool" where
  "smb_on_139 names profile =
     (case profile of None \<Rightarrow> False | Some p \<Rightarrow> ''smb_honeypot'' \<in> set names \<and> editionExposesPort (resolvedEdition p) 139)"

fun start_services :: "(string \<Rightarrow> bool) \<Rightarrow> (string \<Rightarrow> start_result) \<Rightarrow> string list \<Rightarrow> start_step list \<times> run_error option" where
  "start_services starts res [] = ([], None)"
| "start_services starts res (n # ns) =
     (if \<not> starts n then let (steps, e) = start_services starts res ns in (Gated n # steps, e)
      else case res n of
        Fails m \<Rightarrow> ([], Some (StartFailed m))
      | PortTaken \<Rightarrow> let (steps, e) = start_services starts res ns in (Skipped n # steps, e)
      | Runs \<Rightarrow> let (steps, e) = start_services starts res ns in (Started n # steps, e))"

definition run_services :: "app_config \<Rightarrow> os_profile option \<Rightarrow> (string \<Rightarrow> start_result) \<Rightarrow> start_step list \<times> run_error option" where
  "run_services cfg profile res =
     start_services (\<lambda>n. shouldStartService n profile (smb_on_139 (ac_services cfg) profile)) res (ac_services cfg)"

section \<open>A Windows host\<close>

text \<open>The handlers a run holds, and with which handles and parameters.\<close>

record win_disposition =
  wi_firewall :: "wd_handle list option"
  wi_closed :: "(u8 \<times> wd_handle list) option"
  wi_probes :: "(probe_conf \<times> wd_handle list) option"
  wi_icmp :: "(icmp_conf \<times> wd_handle list) option"

definition linux_profile :: "os_profile option \<Rightarrow> bool" where
  "linux_profile p = (case p of None \<Rightarrow> False | Some p \<Rightarrow> equal_fold (prof_family p) ''linux'')"

definition ttl_of :: "os_profile option \<Rightarrow> u8" where
  "ttl_of p = (case p of None \<Rightarrow> 64 | Some p \<Rightarrow> if st_ttl (prof_stack p) > 0 then st_ttl (prof_stack p) else 64)"

definition win_firewall :: "(string \<Rightarrow> bool) \<Rightarrow> app_config \<Rightarrow> os_profile option \<Rightarrow> services_dir \<Rightarrow> wd_handle list option" where
  "win_firewall opens cfg profile dir =
     (if wants_drop cfg profile then
        (case enableDrop_win opens (persona_ports cfg profile dir) (fw_preservePorts (ac_firewall cfg)) [] of
           (hs, Some _) \<Rightarrow> None
         | (hs, None) \<Rightarrow>
             if editionLabel profile = ''workstation'' then Some (fst (enableICMPDrop_win opens hs)) else Some hs)
      else None)"

definition win_closed :: "(string \<Rightarrow> bool) \<Rightarrow> bool \<Rightarrow> app_config \<Rightarrow> os_profile option \<Rightarrow> (u8 \<times> wd_handle list) option" where
  "win_closed opens rules cfg profile =
     (if ac_closedPorts cfg = [] then None
      else case addPorts_win opens rules (ac_closedPorts cfg) (ttl_of profile) (linux_profile profile) of
        (ttl, hs, None) \<Rightarrow> Some (ttl, hs)
      | (ttl, hs, Some _) \<Rightarrow> None)"

definition win_probes :: "(string \<Rightarrow> bool) \<Rightarrow> app_config \<Rightarrow> os_profile option \<Rightarrow> services_dir \<Rightarrow> (probe_conf \<times> wd_handle list) option" where
  "win_probes opens cfg profile dir =
     (case profile of
        None \<Rightarrow> None
      | Some p \<Rightarrow>
          if \<not> linux_profile profile then None
          else
            let s = prof_stack p; ports = mergeUint16 (ac_closedPorts cfg) (serviceListenPorts (ac_services cfg) profile dir)
            in case probeStart opens ports (ac_closedPorts cfg) (ttl_of profile) (st_windowInRST s) (equal_fold (st_ackInRST s) ''zero'') of
                 (c, hs, None) \<Rightarrow> Some (c, hs)
               | (c, hs, Some _) \<Rightarrow> None)"

definition win_icmp :: "(string \<Rightarrow> bool) \<Rightarrow> bool \<Rightarrow> app_config \<Rightarrow> os_profile option \<Rightarrow> (icmp_conf \<times> wd_handle list) option" where
  "win_icmp opens rules cfg profile =
     (case profile of
        None \<Rightarrow> None
      | Some p \<Rightarrow>
          if \<not> linux_profile profile then None
          else
            let s = prof_stack p; ttl = ttl_of profile;
                quoteSize = (if st_icmpQuoteSize s > 0 then st_icmpQuoteSize s else 64);
                quoteTTL = (if st_icmpTTLInQuote s > 0 then st_icmpTTLInQuote s else ttl)
            in case icmpStart opens rules ttl quoteSize quoteTTL (st_icmpDFInQuote s) (ac_closedPorts cfg) of
                 (Some c, hs, None) \<Rightarrow> Some (c, hs)
               | _ \<Rightarrow> None)"

definition win_setup ::
  "(string \<Rightarrow> bool) \<Rightarrow> bool \<Rightarrow> app_config \<Rightarrow> os_profile option \<Rightarrow> services_dir \<Rightarrow> win_disposition" where
  "win_setup opens rules cfg profile dir =
     \<lparr>wi_firewall = win_firewall opens cfg profile dir, wi_closed = win_closed opens rules cfg profile,
      wi_probes = win_probes opens cfg profile dir, wi_icmp = win_icmp opens rules cfg profile\<rparr>"

end
