(* ===== verification/Run_Facts.thy ===== *)
theory Run_Facts
  imports Run_Wiring Win_Responders Smb_Server
begin

text \<open>
  What the wiring of a run guarantees: one credential pool opens every honeypot alike, services start in
  order and one by one, and what a Windows host is set up with.
\<close>

section \<open>One pool\<close>

text \<open>The credential the pool keeps for an identifier is the last of the configuration that has it.\<close>

definition kept :: "credential list \<Rightarrow> credential \<Rightarrow> bool" where
  "kept creds c \<longleftrightarrow> map_of (rev (map (\<lambda>c. (cr_id c, c)) creds)) (cr_id c) = Some c"

text \<open>A user name, without case, and a password of the pool: those of the accepted credential of that user whose
  identifier is the greatest.  An empty list of identifiers accepts all.\<close>

definition pool_login :: "credential list \<Rightarrow> string list \<Rightarrow> string \<Rightarrow> string \<Rightarrow> bool" where
  "pool_login creds ids u p \<longleftrightarrow>
     (\<exists>c \<in> set creds. kept creds c \<and> (ids = [] \<or> cr_id c \<in> set ids) \<and> to_lower (cr_username c) = to_lower u \<and> cr_password c = p \<and>
       (\<forall>d \<in> set creds. kept creds d \<and> (ids = [] \<or> cr_id d \<in> set ids) \<and> to_lower (cr_username d) = to_lower u \<longrightarrow> cr_id d \<le> cr_id c))"

abbreviation logins :: "credential list \<Rightarrow> (string \<times> string) list" where
  "logins cs \<equiv> map (\<lambda>c. (to_lower (cr_username c), cr_password c)) cs"

lemma store_fold:
  "map_of (fold (\<lambda>c m. AList.update (cr_id c) c m) cs m) = map_of m ++ map_of (rev (map (\<lambda>c. (cr_id c, c)) cs))"
  by (induction cs arbitrary: m) (auto simp: map_add_def fun_eq_iff update_conv' split: option.splits)

lemma store_shape:
  "distinct (map fst m) \<Longrightarrow> \<forall>(i, c) \<in> set m. i = cr_id c \<Longrightarrow>
    distinct (map fst (fold (\<lambda>c m. AList.update (cr_id c) c m) cs m)) \<and>
    (\<forall>(i, c) \<in> set (fold (\<lambda>c m. AList.update (cr_id c) c m) cs m). i = cr_id c)"
proof (induction cs arbitrary: m)
  case (Cons c cs)
  have "\<forall>(i, d) \<in> set (AList.update (cr_id c) c m). i = cr_id d"
    using Cons.prems(2) by (induction m) auto
  then show ?case
    using Cons.IH [of "AList.update (cr_id c) c m"] Cons.prems(1) by (simp add: distinct_update)
qed simp

lemma pool_all:
  "set (cred_all (buildCredStore creds)) = {c \<in> set creds. kept creds c}"
  "sorted_wrt (\<lambda>a b. cr_id a < cr_id b) (cred_all (buildCredStore creds))"
proof -
  define m where "m = newCredStore creds"
  have m: "distinct (map fst m)" "\<forall>(i, c) \<in> set m. i = cr_id c" and of: "map_of m = map_of (rev (map (\<lambda>c. (cr_id c, c)) creds))"
    using store_shape [of "[]" creds] store_fold [of creds "[]"] by (simp_all add: m_def newCredStore_def)
  have all: "cred_all (buildCredStore creds) = sort_key cr_id (map snd m)"
    by (simp add: cred_all_def buildCredStore_def m_def)
  have ids: "map cr_id (map snd m) = map fst m"
    using m(2) by (induction m) auto
  have entries: "distinct (map snd m) \<and> inj_on cr_id (set (map snd m))"
    using m(1) ids by (metis distinct_map)
  have "c \<in> set (map snd m) \<longleftrightarrow> c \<in> set creds \<and> kept creds c" for c
  proof -
    have "c \<in> set (map snd m) \<longleftrightarrow> (cr_id c, c) \<in> set m"
      using m(2) by force
    also have "\<dots> \<longleftrightarrow> kept creds c"
      using m(1) of by (simp add: kept_def flip: map_of_eq_Some_iff)
    also have "\<dots> \<longleftrightarrow> c \<in> set creds \<and> kept creds c"
      by (auto simp: kept_def dest: map_of_SomeD)
    finally show ?thesis .
  qed
  then show "set (cred_all (buildCredStore creds)) = {c \<in> set creds. kept creds c}"
    unfolding all by (simp only: set_sort) blast
  have "sorted (map cr_id (cred_all (buildCredStore creds)))" "distinct (map cr_id (cred_all (buildCredStore creds)))"
    unfolding all using entries by (simp_all add: distinct_map)
  then have "sorted_wrt (<) (map cr_id (cred_all (buildCredStore creds)))"
    unfolding strict_sorted_iff by blast
  then show "sorted_wrt (\<lambda>a b. cr_id a < cr_id b) (cred_all (buildCredStore creds))"
    by (simp only: sorted_wrt_map)
qed

text \<open>Of credentials in the order of their identifiers the last one of a user has the greatest.\<close>

lemma last_login:
  assumes "sorted_wrt (\<lambda>a b. cr_id a < cr_id b) cs"
  shows "map_of (rev (logins cs)) k = Some p \<longleftrightarrow>
    (\<exists>c \<in> set cs. to_lower (cr_username c) = k \<and> cr_password c = p \<and>
      (\<forall>d \<in> set cs. to_lower (cr_username d) = k \<longrightarrow> cr_id d \<le> cr_id c))"
  using assms
proof (induction cs rule: rev_induct)
  case (snoc e cs)
  have less: "\<forall>c \<in> set cs. cr_id c < cr_id e"
    using snoc.prems by (simp add: sorted_wrt_append)
  show ?case
  proof (cases "to_lower (cr_username e) = k")
    case True
    then show ?thesis using less by (force simp: not_le [symmetric])
  next
    case False
    then show ?thesis using snoc by (simp add: sorted_wrt_append)
  qed
qed simp

lemma pool_login_last:
  "map_of (rev (logins (filter (\<lambda>c. ids = [] \<or> cr_id c \<in> set ids) (cred_all (buildCredStore creds))))) (to_lower u) = Some p \<longleftrightarrow>
    pool_login creds ids u p"
proof -
  have "sorted_wrt (\<lambda>a b. cr_id a < cr_id b) (filter (\<lambda>c. ids = [] \<or> cr_id c \<in> set ids) (cred_all (buildCredStore creds)))"
    using pool_all(2) by (rule sorted_wrt_filter)
  from last_login [OF this] show ?thesis
    by (auto simp: pool_login_def pool_all(1))
qed

lemma accepted_last: "accepted_creds store ids = map_of (rev (logins (filter (\<lambda>c. ids = [] \<or> cr_id c \<in> set ids) (cred_all store))))"
proof -
  have "fold (\<lambda>c m. if ids \<noteq> [] \<and> cr_id c \<notin> set ids then m else m(to_lower (cr_username c) \<mapsto> cr_password c)) cs m =
      m ++ map_of (rev (logins (filter (\<lambda>c. ids = [] \<or> cr_id c \<in> set ids) cs)))" for cs m
    by (induction cs arbitrary: m) (auto simp: map_add_def fun_eq_iff split: option.splits)
  from this [of "cred_all store" Map.empty] show ?thesis
    by (simp add: accepted_creds_def)
qed

lemma ssh_last: "map_of (creds_ssh ids store) = map_of (rev (logins (accepted_ssh ids store)))"
proof -
  have "map_of (foldl (\<lambda>m c. AList.update (to_lower (cr_username c)) (cr_password c) m) m cs) = map_of m ++ map_of (rev (logins cs))" for cs m
    by (induction cs arbitrary: m) (auto simp: map_add_def fun_eq_iff update_conv' split: option.splits)
  from this [of "[]" "accepted_ssh ids store"] show ?thesis
    by (simp add: creds_ssh_def)
qed

lemma ssh_logins:
  "checkCred_ssh (newSshServer (ssh_config_of cfg profile)) u p \<longleftrightarrow>
    pool_login (ac_credentials cfg) (sh_acceptCredentials (ac_smbHoneypot cfg)) u p"
  unfolding pool_login_last [symmetric]
  by (simp add: checkCred_ssh_def newSshServer_def ssh_config_of_def ssh_last accepted_ssh_def Let_def)

text \<open>What an SMB session setup looks up: the honeypot's own credentials, then the accepted ones of the pool in the
  order of the configuration.\<close>

definition smb_logins :: "app_config \<Rightarrow> (string \<times> string) list" where
  "smb_logins cfg =
     map (\<lambda>c. (to_lower (smb_credential.sc_username c), smb_credential.sc_password c)) (sh_credentials (ac_smbHoneypot cfg)) @
     logins (filter (\<lambda>c. sh_acceptCredentials (ac_smbHoneypot cfg) = [] \<or> cr_id c \<in> set (sh_acceptCredentials (ac_smbHoneypot cfg)))
       (ac_credentials cfg))"

lemma matchCredential_map:
  "map_option smb_cred.sc_password (matchCredential cs u) =
     map_of (map (\<lambda>c. (to_lower (smb_cred.sc_username c), smb_cred.sc_password c)) cs) (to_lower u)"
  by (induction cs) (auto simp: matchCredential_def equal_fold_def)

lemma smb_server_logins:
  "map_option smb_cred.sc_password (matchCredential (sm_credentials (sv_cfg (newSmbServer read ns ns' now (smb_config_of cfg profile dir)))) u) =
     map_of (smb_logins cfg) (to_lower u)"
proof -
  have keep: "sm_credentials (if b then c\<lparr>sm_port := i\<rparr> else c) = sm_credentials c"
    "sm_credentials (if b then c\<lparr>sm_computerName := n\<rparr> else c) = sm_credentials c"
    "sm_credentials (if b then c\<lparr>sm_domainName := n\<rparr> else c) = sm_credentials c"
    "sm_credentials (if b then c\<lparr>sm_maxDialect := d\<rparr> else c) = sm_credentials c"
    "sm_credentials (if b then c\<lparr>sm_shares := ss\<rparr> else c) = sm_credentials c" for b c i n d ss
    by simp_all
  have "sm_credentials (sv_cfg (newSmbServer read ns ns' now c)) = sm_credentials c" for c
    unfolding newSmbServer_def Let_def case_prod_beta smb_server.simps keep
      option.case_distrib [where h = "\<lambda>x. sm_credentials (snd x)"] sum.case_distrib [where h = "\<lambda>x. sm_credentials (snd x)"]
      snd_conv
    by (simp only: option.case_eq_if sum.case_eq_if keep if_cancel)
  then show ?thesis
    by (simp add: matchCredential_map smb_config_of_def smb_logins_def acceptedSMBCreds_def to_smb_cred_def Let_def comp_def)
qed

text \<open>The AUTHENTICATE message of a session setup.\<close>

definition smb_authenticate :: "bytes \<Rightarrow> bytes \<Rightarrow> ntlm_creds option" where
  "smb_authenticate body frame =
     (case findNTLMBlob (extractSecBuf body frame) of
        None \<Rightarrow> None
      | Some blob \<Rightarrow>
          if length blob < 12 \<or> le32 blob 8 \<noteq> 3 then None
          else case parseNTLMAuth blob of Inl _ \<Rightarrow> None | Inr a \<Rightarrow> Some a)"

text \<open>It authenticates exactly when the response verifies for the credential looked up.\<close>

lemma setup_authenticates:
  assumes "smb_authenticate body frame = Some a" "nc_username a \<noteq> []" "\<not> ss_seeded s"
  shows "ss_seeded (fst (snd (handleSessionSetup C sv t g s req body frame))) \<longleftrightarrow>
    (\<exists>cred. matchCredential (sm_credentials (sv_cfg sv)) (nc_username a) = Some cred \<and>
      verifyCredential C cred (nc_username a) (nc_domain a) (ss_challenge s) (nc_ntResponse a))"
proof -
  obtain blob where blob: "findNTLMBlob (extractSecBuf body frame) = Some blob" "\<not> length blob < 12" "le32 blob 8 = 3" "parseNTLMAuth blob = Inr a"
    using assms(1) by (auto simp: smb_authenticate_def split: option.splits if_splits sum.splits)
  have keep: "ss_seeded (snd (assign_id g s)) = ss_seeded s" "ss_challenge (snd (assign_id g s)) = ss_challenge s"
    by (simp_all add: assign_id_def Let_def)
  have guest: "ss_seeded (fst (snd (guest_or_deny sv g' s' req evs))) = ss_seeded s'" for g' s' evs
    by (simp add: guest_or_deny_def)
  have sign: "ss_seeded (fst (setupSigning C s' cred a)) = ss_seeded s'" for s' cred
    by (simp add: setupSigning_def Let_def split: option.splits)
  have "handleSessionSetup C sv t g s req body frame = doAccept C sv g s req blob"
    using blob by (simp add: handleSessionSetup_def Let_def)
  then show ?thesis
    using assms(2,3) keep
    by (auto simp: doAccept_def blob(4) guest sign Let_def case_prod_beta split: option.splits)
qed

text \<open>C15. A run gives its honeypots one pool of credentials.  The SSH and FTP honeypots take, for a user name
  without case, the password of the accepted credential of that user with the greatest identifier, FTP besides anonymous users if
  it allows them.  An SMB2 session setup with an NTLMv2 response made from a password authenticates exactly when that
  response is the one the password of the first matching credential makes, where those of the honeypot itself come first and
  the accepted ones of the pool follow in the order of the configuration.  The lists of accepted identifiers are
  those of SMB for SMB and SSH, and FTP's own.\<close>

theorem one_pool:
  assumes "\<And>k m. length (hmac_md5 C k m) = 16" "blob \<noteq> []"
    and "smb_authenticate body frame = Some a" "nc_username a = u" "u \<noteq> []" "\<not> ss_seeded s"
    and "nc_ntResponse a = client_response C p u (nc_domain a) (ss_challenge s) blob"
  shows "(checkCred_ssh (newSshServer (ssh_config_of cfg profile)) u p \<longleftrightarrow>
      pool_login (ac_credentials cfg) (sh_acceptCredentials (ac_smbHoneypot cfg)) u p) \<and>
    (login_ok (newFtpServer read any (ftp_config_of cfg profile dir)) u p \<longleftrightarrow>
      fh_allowAnonymous (ac_ftpHoneypot cfg) \<noteq> Some False \<and> to_lower u \<in> {''anonymous'', ''ftp''} \<or>
      pool_login (ac_credentials cfg) (fh_acceptCredentials (ac_ftpHoneypot cfg)) u p) \<and>
    (ss_seeded (fst (snd (handleSessionSetup C (newSmbServer read ns ns' now (smb_config_of cfg profile dir)) t g s req body frame))) \<longleftrightarrow>
      (\<exists>q. map_of (smb_logins cfg) (to_lower u) = Some q \<and>
        hmac_md5 C (ntowfv2 C q u (nc_domain a)) (ss_challenge s @ blob) = hmac_md5 C (ntowfv2 C p u (nc_domain a)) (ss_challenge s @ blob)))"
proof -
  let ?pool = "ac_credentials cfg"
  have ftp: "fv_creds (newFtpServer read any (ftp_config_of cfg profile dir)) =
      accepted_creds (buildCredStore ?pool) (fh_acceptCredentials (ac_ftpHoneypot cfg))"
    by (simp add: newFtpServer_def ftp_config_of_def buildCredStore_def Let_def)
  have anon: "fc_allowAnonymous (fv_cfg (newFtpServer read any (ftp_config_of cfg profile dir))) \<longleftrightarrow>
      fh_allowAnonymous (ac_ftpHoneypot cfg) \<noteq> Some False"
    by (simp add: newFtpServer_def ftp_config_of_def Let_def split: option.splits)
  have ftp_login: "login_ok (newFtpServer read any (ftp_config_of cfg profile dir)) u p \<longleftrightarrow>
      fh_allowAnonymous (ac_ftpHoneypot cfg) \<noteq> Some False \<and> to_lower u \<in> {''anonymous'', ''ftp''} \<or>
      pool_login ?pool (fh_acceptCredentials (ac_ftpHoneypot cfg)) u p"
    unfolding pool_login_last [symmetric] by (auto simp: login_ok_def ftp anon accepted_last Let_def)
  have verify: "verifyCredential C cred u (nc_domain a) (ss_challenge s) (nc_ntResponse a) \<longleftrightarrow>
      hmac_md5 C (ntowfv2 C (smb_cred.sc_password cred) u (nc_domain a)) (ss_challenge s @ blob) =
      hmac_md5 C (ntowfv2 C p u (nc_domain a)) (ss_challenge s @ blob)" for cred
    using assms(1,2) by (auto simp: assms(7) verifyCredential_def client_response_def)
  have "nc_username a \<noteq> []"
    using assms(4,5) by simp
  note est = setup_authenticates [OF assms(3) this assms(6), unfolded assms(4)]
  let ?sv = "newSmbServer read ns ns' now (smb_config_of cfg profile dir)"
  have "(\<exists>cred. matchCredential (sm_credentials (sv_cfg ?sv)) u = Some cred \<and> P (smb_cred.sc_password cred)) \<longleftrightarrow>
      (\<exists>q. map_of (smb_logins cfg) (to_lower u) = Some q \<and> P q)" for P
    unfolding smb_server_logins [of read ns ns' now cfg profile dir u, symmetric]
    by (cases "matchCredential (sm_credentials (sv_cfg ?sv)) u") simp_all
  note found = this [of "\<lambda>q. hmac_md5 C (ntowfv2 C q u (nc_domain a)) (ss_challenge s @ blob) = hmac_md5 C (ntowfv2 C p u (nc_domain a)) (ss_challenge s @ blob)"]
  note smb = trans [OF est [of C ?sv t g req, unfolded verify] found]
  show ?thesis
    using ssh_logins [of cfg profile u p] ftp_login smb by blast
qed

definition lab_pool :: "credential list" where
  "lab_pool = [\<lparr>cr_id = ''b'', cr_username = ''svc'', cr_password = ''one'', cr_domain = []\<rparr>,
     \<lparr>cr_id = ''a'', cr_username = ''Admin'', cr_password = ''two'', cr_domain = []\<rparr>]"

text \<open>An AUTHENTICATE message of the user \<open>svc\<close> with a 17-byte response, in a session setup.\<close>

definition lab_authenticate :: "bytes \<Rightarrow> bytes" where
  "lab_authenticate nt = ntlm_magic @ [3, 0, 0, 0,  0, 0, 0, 0, 0, 0, 0, 0,  17, 0, 17, 0, 70, 0, 0, 0,
     0, 0, 0, 0, 0, 0, 0, 0,  6, 0, 6, 0, 64, 0, 0, 0,  0, 0, 0, 0, 0, 0, 0, 0,  0, 0, 0, 0, 0, 0, 0, 0,  0, 0, 0, 0,
     0x73, 0, 0x76, 0, 0x63, 0] @ nt"

definition lab_setup_body :: "bytes \<Rightarrow> bytes" where
  "lab_setup_body nt = [25, 0, 0, 0, 0, 0, 0, 0, 0, 0, 0, 0, 88, 0, 87, 0, 0, 0, 0, 0, 0, 0, 0, 0] @ lab_authenticate nt"

lemma lab_setup_user:
  assumes "length nt = 17"
  shows "\<exists>a. smb_authenticate (lab_setup_body nt) (zeros 68 @ lab_setup_body nt) = Some a \<and>
    nc_username a = ''svc'' \<and> nc_domain a = [] \<and> nc_ntResponse a = nt"
proof -
  let ?m = "lab_authenticate nt"
  have len: "length ?m = 87"
    using assms by (simp add: lab_authenticate_def ntlm_magic_def)
  have "take 2 (drop 12 (lab_setup_body nt)) = [88, 0]" "take 2 (drop 14 (lab_setup_body nt)) = [87, 0]" "length (lab_setup_body nt) = 111"
    using len by (simp_all add: lab_setup_body_def)
  moreover have "unat (dec_le [88, 0] :: u16) = 88" "unat (dec_le [87, 0] :: u16) = 87"
    by code_simp+
  ultimately have off: "unat (le16 (lab_setup_body nt) 12) = 88" "unat (le16 (lab_setup_body nt) 14) = 87" "length (lab_setup_body nt) = 111"
    by simp_all
  have "take 87 (drop 92 (zeros 68 @ lab_setup_body nt)) = ?m"
    using len by (simp add: lab_setup_body_def zeros_def)
  then have buf: "extractSecBuf (lab_setup_body nt) (zeros 68 @ lab_setup_body nt) = ?m"
    using len off by (simp add: extractSecBuf_def Let_def zeros_def)
  have "starts_with ?m ntlm_magic"
    by (simp add: lab_authenticate_def starts_with_def)
  then have find: "findNTLMBlob ?m = Some ?m"
    by (subst findNTLMBlob_def, subst index_of.simps) simp
  have "take 4 (drop 8 ?m) = [3, 0, 0, 0]"
    by (simp add: lab_authenticate_def ntlm_magic_def)
  moreover have "(dec_le [3, 0, 0, 0] :: u32) = 3"
    by code_simp
  ultimately have type: "le32 ?m 8 = 3"
    by simp
  have ascii_svc: "ascii ''svc''"
    by simp
  have svc: "utf16_string [0x73, 0, 0x76, 0, 0x63, 0] = ''svc''"
  proof -
    have "utf16LE ''svc'' = [0x73, 0, 0x76, 0, 0x63, 0]"
    proof -
      have "enc_le 2 (of_nat (of_char (CHR ''s'')) :: u16) = [0x73, 0]" "enc_le 2 (of_nat (of_char (CHR ''v'')) :: u16) = [0x76, 0]"
        "enc_le 2 (of_nat (of_char (CHR ''c'')) :: u16) = [0x63, 0]"
        by code_simp+
      then show ?thesis
        by (simp only: utf16LE_def utf16_encode_ascii [OF ascii_svc] list.map concat.simps append.simps)
    qed
    then show ?thesis
      using utf16_roundtrip [OF ascii_svc] by simp
  qed
  have f: "take 2 (drop 20 ?m) = [17, 0]" "take 4 (drop 24 ?m) = [70, 0, 0, 0]" "take 17 (drop 70 ?m) = nt"
    "take 2 (drop 28 ?m) = [0, 0]" "take 2 (drop 36 ?m) = [6, 0]" "take 4 (drop 40 ?m) = [64, 0, 0, 0]"
    "take 6 (drop 64 ?m) = [0x73, 0, 0x76, 0, 0x63, 0]"
    using assms by (simp_all add: lab_authenticate_def ntlm_magic_def)
  have d: "unat (dec_le [17, 0] :: u16) = 17" "unat (dec_le [70, 0, 0, 0] :: u32) = 70" "unat (dec_le [0, 0] :: u16) = 0"
    "unat (dec_le [6, 0] :: u16) = 6" "unat (dec_le [64, 0, 0, 0] :: u32) = 64"
    by code_simp+
  have "ntlm_field ?m 20 = nt" "ntlm_field ?m 28 = []" "ntlm_field ?m 36 = [0x73, 0, 0x76, 0, 0x63, 0]"
    by (simp_all add: ntlm_field_def Let_def len f d)
  then have "ntlm_string ?m 36 = ''svc''" "ntlm_string ?m 28 = []" "ntlm_field ?m 20 = nt"
    by (simp_all add: ntlm_string_def svc)
  then show ?thesis
    using len type by (simp add: smb_authenticate_def buf find parseNTLMAuth_def)
qed

lemma one_pool_witness:
  "checkCred_ssh (newSshServer (ssh_config_of (zero_config\<lparr>ac_credentials := lab_pool\<rparr>) None)) ''svc'' ''one'' \<and>
   \<not> login_ok (newFtpServer (\<lambda>_. None) [] (ftp_config_of (zero_config\<lparr>ac_credentials := lab_pool\<rparr>) None ''.'')) ''svc'' ''two'' \<and>
   (\<exists>frame body. ss_seeded (fst (snd (handleSessionSetup toy_crypto
      (newSmbServer (\<lambda>_. None) 0 0 0 (smb_config_of (zero_config\<lparr>ac_credentials := lab_pool\<rparr>) None ''.''))
      \<lparr>tk_now = 0, tk_ns = 0\<rparr> \<lparr>sg_nextSession = 0, sg_handleSeq = 0, sg_connections = 0, sg_authentications = 0, sg_treeConnects = 0, sg_credentials = 0\<rparr> (newSession []) \<lparr>h2_status = 0, h2_command = 1, h2_credits = 1, h2_flags = 0, h2_messageID = 1, h2_processID = 0, h2_treeID = 0, h2_sessionID = 0\<rparr>
      body frame))))"
proof -
  let ?c = "zero_config\<lparr>ac_credentials := lab_pool\<rparr>"
  let ?nt = "\<lambda>p. client_response toy_crypto p ''svc'' [] (zeros 8) [9]"
  have hmac: "\<And>k m. length (hmac_md5 toy_crypto k m) = 16"
    by (simp add: toy_crypto_def zeros_def)
  have l: "to_lower ''svc'' = ''svc''" "to_lower ''Admin'' = ''admin''"
    by code_simp+
  have cfg: "sh_acceptCredentials (ac_smbHoneypot ?c) = []" "fh_acceptCredentials (ac_ftpHoneypot ?c) = []"
    "sh_credentials (ac_smbHoneypot ?c) = []" "fh_allowAnonymous (ac_ftpHoneypot ?c) \<noteq> Some False"
    by (simp_all add: zero_config_def)
  have pool: "pool_login lab_pool [] ''svc'' ''one''" "\<not> pool_login lab_pool [] ''svc'' ''two''"
    by (simp_all add: pool_login_def kept_def lab_pool_def l)
  have fresh: "\<not> ss_seeded (newSession [])" "ss_challenge (newSession []) = zeros 8"
    by (simp_all add: newSession_def)
  obtain a b where a: "smb_authenticate (lab_setup_body (?nt ''one'')) (zeros 68 @ lab_setup_body (?nt ''one'')) = Some a"
      "nc_username a = ''svc''" "nc_domain a = []" "nc_ntResponse a = ?nt ''one''"
    and b: "smb_authenticate (lab_setup_body (?nt ''two'')) (zeros 68 @ lab_setup_body (?nt ''two'')) = Some b"
      "nc_username b = ''svc''" "nc_domain b = []" "nc_ntResponse b = ?nt ''two''"
    using lab_setup_user [of "?nt ''one''"] lab_setup_user [of "?nt ''two''"] hmac by (auto simp: client_response_def)
  have "map_of (smb_logins ?c) ''svc'' = Some ''one''"
    by (simp add: smb_logins_def lab_pool_def l zero_config_def)
  then show ?thesis
    using one_pool [OF hmac, of "[9]" _ _ a "''svc''" "newSession []" "''one''" ?c None "\<lambda>_. None" "[]" "''.''" 0 0 0, OF _ a(1,2) _ fresh(1), unfolded a(3,4) fresh(2)]
      one_pool [OF hmac, of "[9]" _ _ b "''svc''" "newSession []" "''two''" ?c None "\<lambda>_. None" "[]" "''.''", OF _ b(1,2) _ fresh(1), unfolded b(3,4) fresh(2)]
      pool cfg l(1)
    by simp blast
qed

text \<open>With two credentials for one user the honeypots disagree: SMB tries the first in the order of the
  configuration, FTP and SSH the last in the order of the identifiers.\<close>

lemma two_credentials_one_user:
  assumes "ac_credentials cfg = [\<lparr>cr_id = ''a'', cr_username = ''svc'', cr_password = ''one'', cr_domain = []\<rparr>,
      \<lparr>cr_id = ''b'', cr_username = ''svc'', cr_password = ''two'', cr_domain = []\<rparr>]"
    "sh_acceptCredentials (ac_smbHoneypot cfg) = []" "sh_credentials (ac_smbHoneypot cfg) = []"
  shows "checkCred_ssh (newSshServer (ssh_config_of cfg profile)) ''svc'' ''two'' \<and>
    map_of (smb_logins cfg) (to_lower ''svc'') = Some ''one''"
proof -
  have "''a'' \<le> ''b''"
    by code_simp
  then have "pool_login (ac_credentials cfg) [] ''svc'' ''two''"
    by (simp add: pool_login_def kept_def assms(1))
  then show ?thesis
    by (simp add: ssh_logins assms(2) smb_logins_def) (simp add: assms)
qed

section \<open>Starting\<close>

text \<open>Services start in the order of the configuration, up to the first that fails; a service the edition
  hides and one whose port is taken are passed over.\<close>

theorem start_in_order:
  "let (steps, e) = start_services starts res names; ok = takeWhile (\<lambda>n. \<not> (starts n \<and> (\<exists>m. res n = Fails m))) names in
     steps = map (\<lambda>n. if \<not> starts n then Gated n else if res n = PortTaken then Skipped n else Started n) ok \<and>
     (e = None \<longleftrightarrow> ok = names)"
proof (induction names)
  case (Cons n ns)
  then show ?case
    by (cases "start_services starts res ns"; cases "res n") (auto simp: Let_def)
qed simp

text \<open>A port given on the command line is taken modulo 2^16.\<close>

lemma closed_ports_wrap:
  assumes "rf_closedPorts f = [65616]"
  shows "ac_closedPorts (apply_flags f cfg) = [80]"
  using assms by (simp add: apply_flags_def Let_def split: list.splits)

section \<open>Windows and Linux hosts\<close>

text \<open>On a Windows host the persona firewall drops the connection attempts that the nft rules of a Linux host
  drop: those to a port that is neither to be shown open nor preserved.  The ports of the services a
  workstation run starts stay reachable.\<close>

theorem windows_firewall_drops_exactly:
  assumes "wants_drop cfg profile" "win_firewall opens cfg profile dir = Some hs"
  shows "\<exists>ts. fst (hd hs) = filter_text ts \<and>
    (\<forall>fl val. (\<forall>t \<in> set ts. test_holds fl val t) \<longleftrightarrow>
       fl ''inbound'' \<and> fl ''tcp'' \<and> fl ''tcp.Syn'' \<and> \<not> fl ''tcp.Ack'' \<and> \<not> fl ''loopback'' \<and>
       val ''tcp.DstPort'' \<notin> (set (persona_ports cfg profile dir) \<union> set (fw_preservePorts (ac_firewall cfg))) - {0})"
proof -
  have "fst (hd hs) = personaDropFilter (persona_ports cfg profile dir) (fw_preservePorts (ac_firewall cfg))"
    using assms by (auto simp: win_firewall_def enableDrop_win_def enableICMPDrop_win_def Let_def split: if_splits)
  then show ?thesis
    using persona_drops_exactly by presburger
qed

text \<open>A persona that is not Linux gets neither the probe responder nor the ICMP handlers, and its closed
  ports are left to the host's own resets.\<close>

lemma windows_persona_handlers:
  assumes "\<not> linux_profile profile"
  shows "wi_probes (win_setup opens rules cfg profile dir) = None \<and> wi_icmp (win_setup opens rules cfg profile dir) = None \<and>
    (\<forall>ttl hs. wi_closed (win_setup opens rules cfg profile dir) = Some (ttl, hs) \<longrightarrow> hs = [])"
  using assms by (auto simp: win_setup_def win_probes_def win_icmp_def win_closed_def addPorts_win_def Let_def split: option.splits if_splits)

text \<open>A Linux persona for which every handle opens and every rule is taken gets all its handlers, with the
  profile's TTL.\<close>

lemma linux_persona_handlers:
  assumes "profile = Some p" "linux_profile profile" "\<forall>f. opens f" "\<forall>q \<in> set (ac_closedPorts cfg). q \<noteq> 0" "ac_closedPorts cfg \<noteq> []"
  shows "(\<exists>c hs. wi_probes (win_setup opens True cfg profile dir) = Some (c, hs) \<and> pr_ttl c = ttl_of profile) \<and>
    (\<exists>c hs. wi_icmp (win_setup opens True cfg profile dir) = Some (c, hs) \<and> ic_ttl c = ttl_of profile \<and> ic_echoOpen c) \<and>
    wi_closed (win_setup opens True cfg profile dir) = Some (ttl_of profile, [(closedPortFilter (ac_closedPorts cfg), 0)])"
proof -
  have all: "open_all opens hs = (hs, True)" for hs
    using assms(3) by (induction hs) auto
  have ttl: "ttl_of profile \<noteq> 0"
    by (auto simp: ttl_of_def split: option.splits)
  have plan: "probe_plan ports (ac_closedPorts cfg) \<noteq> []" for ports
    using assms(5) by (simp add: probe_plan_def linuxT7ProbeFilterForPorts_def)
  show ?thesis
    using assms ttl plan
    by (auto simp: win_setup_def win_probes_def win_icmp_def win_closed_def probeStart_def icmpStart_def addPorts_win_def all Let_def icmp_required_def)
qed

end
