(* ===== verification/Spec2Isabelle.thy ===== *)
theory Spec2Isabelle
  imports Service_Gating Packet_Loop Syn_Ack Hifi Deception_Build Instance Service_Manager Port_Firewall
    Ftp_Honeypot Smb_Host Ssh_Honeypot Rdp_Server Win_Responders Capture_Facts Linux_Facts Verify_Scan Coherence
    Logging Run_Facts
begin

text \<open>
  Mimic is a network deception system: one host that looks, to a scanner and to a visitor, like another
  one.  It rewrites the packets the host sends so that they carry the fingerprint of a chosen operating
  system, serves fake services and honeypots with content generated from a configuration, reports what
  visitors do, blocks those who do too much, and is operated over a local control socket.  This library
  models the program's Go code under \<open>src/\<close> and proves what its parts promise.

  \<^bold>\<open>How a run fits together.\<close>  \<open>src/cmd/mimic/run.go\<close> loads a configuration (\<open>App_Config\<close>) and a
  profile (\<open>Os_Profile\<close>), wires them (\<open>Run_Wiring\<close>), resolves the services to start (\<open>Service_Gating\<close>), starts the packet shaper
  (\<open>Packet_Loop\<close> on Windows, \<open>Linux_Backend\<close> on Linux) and the packet filters (\<open>Port_Firewall\<close> on Linux, \<open>Win_Filter\<close> on Windows), builds the
  deception tree (\<open>Deception_Build\<close>) for the honeypots, starts the listeners (\<open>Service_Manager\<close>), and
  wires the events of all of them through one bus with the abuse detector and the blocker behind it
  (\<open>Event_Bus\<close>).  The control socket (\<open>Instance\<close>) inspects and changes the running instance.  Recording a
  real host into service templates (\<open>Capture_Template\<close>) happens offline; the templates are then read by
  the services.

  \<^bold>\<open>Conventions.\<close>  A \<open>[]byte\<close> is a \<open>byte list\<close>, a Go integer of width \<open>w\<close> a \<open>w word\<close> (or \<open>nat\<close>/\<open>int\<close>
  with the wrap-around written out), a \<open>string\<close> the list of its bytes as characters, a struct a record
  with a prefix per type, a map a partial function or, where it is iterated, an association list.  An
  operation that can panic returns an option whose \<open>None\<close> is the panic; an \<open>error\<close> result is the left
  side of a sum or a value of its own.  Mutable state is passed explicitly: an operation takes the record
  of its receiver and returns it updated, with what it sends, emits or writes as a list of actions.
  Definitions keep the names of the source; a suffix tells namesakes of different packages apart.

  \<^bold>\<open>Foundations.\<close>  \<open>Prelude\<close> has the shared types, big-endian loads and stores with their bounds, and the
  laws of reading and writing byte lists.  \<open>Go_Strings\<close>, \<open>Go_Bytes\<close>, \<open>Go_Path\<close>, \<open>Go_Time\<close>, \<open>Go_Date\<close>,
  \<open>Go_Net\<close> and \<open>Go_Utf16\<close> model what the code uses of Go's standard library.

  \<^bold>\<open>Packet shaping\<close> (\<open>src/internal/stack/backend_windows.go\<close>, \<open>connmon_windows.go\<close>,
  \<open>hifi_windows.go\<close>).  \<open>Os_Profile\<close> and \<open>Win_Profile\<close>: the profile records, five shipped profiles and the
  snapshot the backend works with.  \<open>Syn_Cache\<close>: the tap that remembers inbound SYNs.  \<open>Egress_Tcp\<close>: the
  sections of \<open>applyTCP\<close> in the order of the code; \<open>Egress_Header\<close> states the contract every section keeps
  (locale \<open>tcp_stage\<close>) and \<open>Egress_Stages\<close> discharges it, so that the whole pipeline keeps the
  connection's identity and payload.  \<open>Egress\<close>: the IP header, ICMP and the IP-ID counters;
  \<open>Egress_Options\<close>: the option lists a persona's SYN-ACK leaves with; \<open>Packet_Loop\<close>: the loop over the
  diverted packets; \<open>Syn_Ack\<close>: a client's SYN and the SYN-ACK that answers it, with other traffic of the
  loop between them.  \<open>Hifi\<close>: the optional driver as a step relation with its watchdog.

  On Linux the shaping itself is an eBPF program in C; \<open>Linux_Backend\<close> (\<open>src/internal/ebpf\<close>,
  \<open>stop.go\<close>) has the profile written to its map, the life cycle of the manager and the teardown, and
  \<open>Linux_Facts\<close> shows that both backends are given the same persona and whose filters a teardown removes.

  \<^bold>\<open>Packet disposition\<close>.  \<open>Port_Firewall\<close> (\<open>src/internal/services/closed.go\<close>, \<open>firewall.go\<close>,
  \<open>run.go\<close>): the nft commands of setup and teardown and what a scanner then sees.  \<open>Win_Filter\<close> and
  \<open>Win_Responders\<close> (\<open>src/internal/netfilter\<close>): the WinDivert filters, every responder loop, and the
  resets, echo replies and unreachable messages they send.

  \<^bold>\<open>Emulated services\<close> (\<open>src/internal/services\<close>, \<open>src/internal/config\<close>).  \<open>Service_Gating\<close>: which services
  and ports a run has.  \<open>Probe_Matcher\<close>: compiled signatures against a denotation of the manifest.
  \<open>Rewrite_Rules\<close> and \<open>Responder\<close>: the response templates and what is written into them.  \<open>Listener\<close>: one
  connection or datagram, as a function of what is read.  \<open>Dynamic_Rpc\<close> and \<open>Service_Manager\<close>: the ports
  an endpoint-mapper answer advertises, and the sockets of the process.

  \<^bold>\<open>Deception content\<close> (\<open>src/internal/deception\<close>).  \<open>Deception_Rng\<close>, \<open>Deception_Maze\<close> and \<open>Deception_Tree\<close>:
  the generator, the endless generated directories and resolution by membership.  \<open>Deception_Config\<close> and
  \<open>Deception_Build\<close>: credentials and the construction of the tree.

  \<^bold>\<open>Honeypots\<close> (\<open>src/internal/honeypot\<close>).  SMB: \<open>Smb_Proto\<close> (frames), \<open>Smb_Ntlm\<close> and \<open>Smb_Crypto\<close>
  (authentication and signing), \<open>Smb_Vfs\<close> (files), \<open>Smb_Rpc\<close> (pipes), \<open>Smb_Session\<close> (state),
  \<open>Smb_Server\<close> and \<open>Smb_Smb1\<close> (handlers), \<open>Smb_Conn\<close> (one connection) and \<open>Smb_Host\<close> (any number of
  concurrent ones, frame by frame).  \<open>Ftp_Honeypot\<close>: the control connection against a protocol state
  machine.  SSH: \<open>Ssh_Vfs\<close>, \<open>Ssh_Shell\<close> (shell, SFTP, channels) and \<open>Ssh_Honeypot\<close> (their properties).
  RDP: \<open>Rdp_Credssp\<close> (framing and messages) and \<open>Rdp_Server\<close> (the connection).

  \<^bold>\<open>Events, defence and control\<close> (\<open>src/internal/events\<close>, \<open>defense\<close>, \<open>control\<close>,
  \<open>src/cmd/mimic/control_hooks.go\<close>).  \<open>Events\<close> and \<open>Event_Ring\<close>: the sinks.  \<open>Detector\<close> and \<open>Blocker\<close>: the
  sliding-window score and the firewall commands.  \<open>Event_Bus\<close>: emission, which re-enters itself through
  the blocker.  \<open>App_Config\<close>, \<open>Control_Config\<close>: loading, patching and saving the configuration.
  \<open>Control_Auth\<close>, \<open>Control_Server\<close>, \<open>Instance\<close>: who may do what, one request, and the callbacks of a run.

  \<^bold>\<open>Capture\<close> (\<open>src/internal/capture\<close>).  \<open>Capture_Session\<close>: flows, sessions and the pairing of probes and
  responses.  \<open>Capture_Classify\<close>: the HTTP and SNMP classifiers with their BER decoder.
  \<open>Capture_Template\<close>: names, signatures, dynamic fields and the files written; \<open>Capture_Facts\<close>: what the
  written templates guarantee when the services read them.

  \<^bold>\<open>A run as a whole\<close> (\<open>src/cmd/mimic/run.go\<close>).  \<open>Run_Wiring\<close>: the overrides of the command line, the
  shared pool of credentials, the configuration each honeypot gets, the order of the starts and the
  handlers of a Windows host; \<open>Run_Facts\<close>: what holds of the parts so configured.  \<open>Logging\<close>
  (\<open>src/internal/logging\<close>): where entries go.  \<open>Coherence\<close> (\<open>src/internal/coherence\<close>): the start-up audit of
  foreign listeners.  \<open>Verify_Scan\<close> (\<open>src/internal/verify\<close>): the comparison of a scan with the recorded
  surface of a profile.

  \<^bold>\<open>What the groups of lemmas show.\<close>  Each theory proves the behaviour of its operations branch by branch
  and the invariants they keep; the theorems that carry the program's purpose are listed in the manifest.
  Bounds and panics are exact where the code has them (\<open>applyEgress_panics_iff\<close>, \<open>crash_exactly\<close>).
  Optimised code is compared with a reference (\<open>match_exact\<close>, \<open>fragments_answered_alike\<close>,
  \<open>generated_signature_exact\<close>), components with an abstract contract refine it (\<open>detector_exact\<close>,
  \<open>declared_is_served\<close>, \<open>ftp_refines_protocol\<close>, \<open>vfs_refines_tree\<close>, \<open>conversation_replies\<close>), state machines are
  inductive relations with invariants over their reachable states (\<open>tripped_never_rearms\<close>,
  \<open>sockets_never_leak\<close>, \<open>numbers_never_shared\<close>), and properties that span components are stated on the
  composed functions (\<open>whitelisted_network_safe\<close>, \<open>event_log_complete\<close>, \<open>control_mediation\<close>,
  \<open>persona_seen\<close>, \<open>one_pool\<close>).  Interfaces are locales interpreted on the model's own definitions: the sections of the
  shaper, event sinks and the recent-event store, the SYN store, the authorizer, the block responder, the
  duplicate-free collectors and the packet handlers of the Windows filter.

  \<^bold>\<open>Bounds and fuel.\<close>  Recursion is structural or has a termination proof.  Fuel is used in three places:
  \<open>emit\<close> returns \<open>None\<close> without fuel and \<open>emit_depth\<close>, \<open>emit_returns\<close> show that two levels of nesting are
  always enough; the IPv6 parser has one step per group an address can have; the scan for an address
  in a tower looks at 30 bytes and has 31 steps.  A connection that blocks forever is the end of its input list.

  \<^bold>\<open>Parameters.\<close>  Code outside \<open>src/\<close> is an argument: the YAML decoder and encoder, the primitives of
  \<open>crypto\<close>, the TLS handshake and the SSH transport, packet decoding, the answers of nft, WinDivert and the
  file system, the clock and random bytes.  A theorem that relies on their documented behaviour names it
  as a hypothesis and comes with an example in which it holds.

  \<^bold>\<open>Not modelled.\<close>  The eBPF program (C), the WinDivert and WFP bindings, process and service
  installation, the command-line parser, the socket and named-pipe transports with their peer lookup, and
  the rendering of log lines: system calls, output, or glue around other programs.  Goroutines appear only
  where their interleaving matters (SMB connections, the driver watchdog, the stop of an instance); locks
  are taken to work.  \<open>ValidateManifest\<close> and the sidecar reader of the capture tool rest on Go's regular
  expressions and are left out.
\<close>

end
